(* ===== verification/Prelude.thy ===== *)
theory Prelude
  imports Complex_Main "HOL-Library.AList" "HOL-Library.List_Lexorder" "HOL-Library.Char_ord"
begin

text \<open>
  Shared vocabulary of the development: the values a Python program passes around when an
  argument is typed \<^verbatim>\<open>Any\<close> or \<^verbatim>\<open>Dict[str, Any]\<close>, the string methods the modelled code
  calls, dictionaries in insertion order, results of operations that may raise, and the
  generic lemmas on lists and step functions the components share.

  Characters stand for code points of ASCII text. Python's floats are \<open>pyfloat\<close>: exact
  rationals (rounding is not modelled) with the two infinities and NaN kept, because the
  comparisons with NaN decide branches. Time stamps read from \<^verbatim>\<open>time.time()\<close> are \<open>rat\<close>
  seconds; \<^verbatim>\<open>datetime\<close> values are \<open>int\<close> microseconds, which is what Python stores.
\<close>

named_theorems dict_simps \<open>lookup and update of insertion-ordered dictionaries\<close>

section \<open>Dictionaries\<close>

text \<open>
  A Python dict keeps insertion order: assigning to a present key keeps its place, a new key
  goes to the end. That is \<open>AList.update\<close> on an association list.
\<close>

type_synonym ('k, 'v) pydict = "('k \<times> 'v) list"

definition dget :: "('k, 'v) pydict \<Rightarrow> 'k \<Rightarrow> 'v option" where
  "dget d k = map_of d k"

definition dset :: "'k \<Rightarrow> 'v \<Rightarrow> ('k, 'v) pydict \<Rightarrow> ('k, 'v) pydict" where
  "dset k v d = AList.update k v d"

definition ddel :: "'k \<Rightarrow> ('k, 'v) pydict \<Rightarrow> ('k, 'v) pydict" where
  "ddel k d = AList.delete k d"

definition dkeys :: "('k, 'v) pydict \<Rightarrow> 'k list" where
  "dkeys d = map fst d"

definition dhas :: "('k, 'v) pydict \<Rightarrow> 'k \<Rightarrow> bool" where
  "dhas d k \<longleftrightarrow> dget d k \<noteq> None"

text \<open>\<^verbatim>\<open>d.update(e)\<close> and the dict literal / comprehension built from a list of pairs.\<close>

definition dupdate :: "('k, 'v) pydict \<Rightarrow> ('k, 'v) pydict \<Rightarrow> ('k, 'v) pydict" where
  "dupdate d e = fold (\<lambda>(k, v). dset k v) e d"

definition dict_of :: "('k \<times> 'v) list \<Rightarrow> ('k, 'v) pydict" where
  "dict_of kvs = dupdate [] kvs"

definition dict_ok :: "('k, 'v) pydict \<Rightarrow> bool" where
  "dict_ok d \<longleftrightarrow> distinct (dkeys d)"

lemma dget_Nil [simp, dict_simps]: "dget [] k = None"
  by (simp add: dget_def)

lemma dget_Cons [dict_simps]: "dget ((k', v) # d) k = (if k' = k then Some v else dget d k)"
  by (simp add: dget_def)

lemma dkeys_Nil [simp]: "dkeys [] = []"
  by (simp add: dkeys_def)

lemma dkeys_Cons [simp]: "dkeys ((k, v) # d) = k # dkeys d"
  by (simp add: dkeys_def)

lemma dget_dset [dict_simps]: "dget (dset k v d) k' = (if k' = k then Some v else dget d k')"
  by (simp add: dget_def dset_def update_conv')

lemma dget_dset_same [simp]: "dget (dset k v d) k = Some v"
  by (simp add: dget_dset)

lemma dget_ddel [dict_simps]: "dget (ddel k d) k' = (if k' = k then None else dget d k')"
  by (simp add: dget_def ddel_def delete_conv')

lemma dget_None_iff: "dget d k = None \<longleftrightarrow> k \<notin> set (dkeys d)"
  by (simp add: dget_def dkeys_def map_of_eq_None_iff)

lemma dhas_iff [simp]: "dhas d k \<longleftrightarrow> k \<in> set (dkeys d)"
  using dget_None_iff [of d k] by (auto simp: dhas_def)

lemma dget_SomeD: "dget d k = Some v \<Longrightarrow> (k, v) \<in> set d"
  by (simp add: dget_def map_of_SomeD)

lemma dget_SomeI: "dict_ok d \<Longrightarrow> (k, v) \<in> set d \<Longrightarrow> dget d k = Some v"
  by (simp add: dget_def dict_ok_def dkeys_def)

lemma dget_in_keys: "dget d k = Some v \<Longrightarrow> k \<in> set (dkeys d)"
  by (metis dget_None_iff option.distinct(1))

lemma dkeys_dset:
  "dkeys (dset k v d) = (if k \<in> set (dkeys d) then dkeys d else dkeys d @ [k])"
  by (induction d) (auto simp: dkeys_def dset_def)

lemma set_dkeys_dset [simp]: "set (dkeys (dset k v d)) = insert k (set (dkeys d))"
  by (auto simp: dkeys_dset)

lemma set_dkeys_ddel [simp]: "set (dkeys (ddel k d)) = set (dkeys d) - {k}"
  by (auto simp: dkeys_def ddel_def delete_keys)

lemma dict_ok_Nil [simp]: "dict_ok []"
  by (simp add: dict_ok_def dkeys_def)

lemma dict_ok_dset [intro, simp]: "dict_ok d \<Longrightarrow> dict_ok (dset k v d)"
  by (auto simp: dict_ok_def dkeys_dset)

lemma dict_ok_ddel [intro, simp]: "dict_ok d \<Longrightarrow> dict_ok (ddel k d)"
  by (simp add: dict_ok_def dkeys_def ddel_def distinct_delete)

lemma dict_ok_dupdate [intro, simp]: "dict_ok d \<Longrightarrow> dict_ok (dupdate d e)"
  unfolding dupdate_def by (induction e arbitrary: d) (auto split: prod.splits)

lemma dict_ok_dict_of [simp]: "dict_ok (dict_of kvs)"
  by (simp add: dict_of_def)

lemma dget_dupdate:
  "dget (dupdate d e) k = (case map_of (rev e) k of Some v \<Rightarrow> Some v | None \<Rightarrow> dget d k)"
  unfolding dupdate_def
proof (induction e arbitrary: d rule: rev_induct)
  case Nil
  then show ?case by simp
next
  case (snoc p e)
  then show ?case by (cases p) (simp add: dget_dset)
qed

lemma dkeys_dupdate: "set (dkeys (dupdate d e)) = set (dkeys d) \<union> fst ` set e"
  unfolding dupdate_def by (induction e arbitrary: d) (auto split: prod.splits)

lemma dict_of_distinct: "distinct (map fst kvs) \<Longrightarrow> dict_of kvs = kvs"
proof -
  have "distinct (map fst (d @ kvs)) \<Longrightarrow> dupdate d kvs = d @ kvs" for d :: "('a, 'b) pydict"
    unfolding dupdate_def
  proof (induction kvs arbitrary: d)
    case Nil
    then show ?case by simp
  next
    case (Cons p kvs)
    obtain k v where p: "p = (k, v)" by (cases p)
    from Cons.prems p have "k \<notin> set (map fst d)" by auto
    then have "dset k v d = d @ [(k, v)]"
      unfolding dset_def by (induction d) auto
    with Cons p show ?case by simp
  qed
  from this [of "[]"] show "distinct (map fst kvs) \<Longrightarrow> dict_of kvs = kvs"
    by (simp add: dict_of_def)
qed

section \<open>Python floats\<close>

datatype pyfloat = Nan | NegInf | Inf | Fin rat

fun fle :: "pyfloat \<Rightarrow> pyfloat \<Rightarrow> bool" where
  "fle Nan _ = False"
| "fle _ Nan = False"
| "fle NegInf _ = True"
| "fle _ Inf = True"
| "fle (Fin a) (Fin b) = (a \<le> b)"
| "fle _ _ = False"

fun flt :: "pyfloat \<Rightarrow> pyfloat \<Rightarrow> bool" where
  "flt Nan _ = False"
| "flt _ Nan = False"
| "flt NegInf b = (b \<noteq> NegInf)"
| "flt a Inf = (a \<noteq> Inf)"
| "flt (Fin a) (Fin b) = (a < b)"
| "flt _ _ = False"

text \<open>\<^verbatim>\<open>max(a, b)\<close> keeps its first argument unless the second is greater: NaN stays.\<close>

definition fmax :: "pyfloat \<Rightarrow> pyfloat \<Rightarrow> pyfloat" where
  "fmax a b = (if flt a b then b else a)"

lemma fle_trans: "fle a b \<Longrightarrow> fle b c \<Longrightarrow> fle a c"
  by (cases a; cases b; cases c) auto

lemma fle_fmax_right: "a \<noteq> Nan \<Longrightarrow> b \<noteq> Nan \<Longrightarrow> fle b (fmax a b)"
  by (cases a; cases b) (auto simp: fmax_def)

lemma fle_fmax_left: "a \<noteq> Nan \<Longrightarrow> fle a (fmax a b)"
  by (cases a; cases b) (auto simp: fmax_def)

lemma fmax_Nan [simp]: "fmax Nan b = Nan"
  by (cases b) (auto simp: fmax_def)

section \<open>Dynamically typed values\<close>

datatype pyval =
    PNone
  | PBool bool
  | PInt int
  | PFloat pyfloat
  | PStr string
  | PList "pyval list"
  | PDict "(string \<times> pyval) list"

fun truthy :: "pyval \<Rightarrow> bool" where
  "truthy PNone = False"
| "truthy (PBool b) = b"
| "truthy (PInt i) = (i \<noteq> 0)"
| "truthy (PFloat f) = (f \<noteq> Fin 0)"
| "truthy (PStr s) = (s \<noteq> [])"
| "truthy (PList xs) = (xs \<noteq> [])"
| "truthy (PDict d) = (d \<noteq> [])"

text \<open>\<^verbatim>\<open>a or b\<close>, \<^verbatim>\<open>d.get(k)\<close> and \<^verbatim>\<open>d.get(k, default)\<close>.\<close>

definition py_or :: "pyval \<Rightarrow> pyval \<Rightarrow> pyval" where
  "py_or a b = (if truthy a then a else b)"

definition vget :: "(string, pyval) pydict \<Rightarrow> string \<Rightarrow> pyval \<Rightarrow> pyval" where
  "vget d k dflt = (case dget d k of Some v \<Rightarrow> v | None \<Rightarrow> dflt)"

fun opt_str :: "string option \<Rightarrow> pyval" where
  "opt_str None = PNone"
| "opt_str (Some s) = PStr s"

section \<open>Strings\<close>

definition is_space :: "char \<Rightarrow> bool" where
  "is_space c \<longleftrightarrow> (let n = (of_char c :: nat) in (9 \<le> n \<and> n \<le> 13) \<or> (28 \<le> n \<and> n \<le> 32))"

definition strip :: "string \<Rightarrow> string" where
  "strip s = rev (dropWhile is_space (rev (dropWhile is_space s)))"

definition lower_char :: "char \<Rightarrow> char" where
  "lower_char c = (let n = (of_char c :: nat) in if 65 \<le> n \<and> n \<le> 90 then char_of (n + 32) else c)"

definition lower :: "string \<Rightarrow> string" where
  "lower s = map lower_char s"

definition upper_char :: "char \<Rightarrow> char" where
  "upper_char c = (let n = (of_char c :: nat) in if 97 \<le> n \<and> n \<le> 122 then char_of (n - 32) else c)"

definition upper :: "string \<Rightarrow> string" where
  "upper s = map upper_char s"

fun starts_with :: "string \<Rightarrow> string \<Rightarrow> bool" where
  "starts_with s [] = True"
| "starts_with [] (p # ps) = False"
| "starts_with (c # s) (p # ps) = (c = p \<and> starts_with s ps)"

text \<open>A text between single quotes, as the messages print names.\<close>

definition sq :: "string \<Rightarrow> string" where
  "sq s = CHR 0x27 # s @ [CHR 0x27]"

text \<open>\<^verbatim>\<open>p in s\<close> for strings.\<close>

fun contains :: "string \<Rightarrow> string \<Rightarrow> bool" where
  "contains [] p = starts_with [] p"
| "contains (c # s) p = (starts_with (c # s) p \<or> contains s p)"

fun join :: "string \<Rightarrow> string list \<Rightarrow> string" where
  "join sep [] = []"
| "join sep [x] = x"
| "join sep (x # y # xs) = x @ sep @ join sep (y # xs)"

definition replace_char :: "char \<Rightarrow> char \<Rightarrow> string \<Rightarrow> string" where
  "replace_char a b s = map (\<lambda>c. if c = a then b else c) s"

text \<open>\<^verbatim>\<open>s.split(c)\<close> for a one-character separator.\<close>

fun split_on :: "char \<Rightarrow> string \<Rightarrow> string list" where
  "split_on c [] = [[]]"
| "split_on c (x # xs) =
     (if x = c then [] # split_on c xs
      else (case split_on c xs of [] \<Rightarrow> [[x]] | w # ws \<Rightarrow> (x # w) # ws))"

lemma split_on_nonempty [simp]: "split_on c s \<noteq> []"
  by (induction s) (auto split: list.splits)

text \<open>Decimal rendering of integers, as f-strings and \<^verbatim>\<open>str\<close> do it.\<close>

definition digit_char :: "nat \<Rightarrow> char" where
  "digit_char d = char_of (48 + d)"

fun show_nat :: "nat \<Rightarrow> string" where
  "show_nat n = (if n < 10 then [digit_char n] else show_nat (n div 10) @ [digit_char (n mod 10)])"

declare show_nat.simps [simp del]

definition show_int :: "int \<Rightarrow> string" where
  "show_int i = (if i < 0 then ''-'' @ show_nat (nat (- i)) else show_nat (nat i))"

lemma strip_subset: "set (strip s) \<subseteq> set s"
  unfolding strip_def by (auto dest!: set_dropWhileD)

lemma starts_with_iff: "starts_with s p \<longleftrightarrow> (\<exists>t. s = p @ t)"
  by (induction s p rule: starts_with.induct) auto

lemma contains_iff: "contains s p \<longleftrightarrow> (\<exists>a b. s = a @ p @ b)"
proof (induction s)
  case Nil
  then show ?case by (auto simp: starts_with_iff)
next
  case (Cons c s)
  then show ?case
    unfolding contains.simps starts_with_iff
    by (metis append_Cons append_Nil list.inject neq_Nil_conv)
qed

section \<open>Conversions and comparisons of dynamic values\<close>

text \<open>The built-in exceptions a conversion or lookup on a dynamic value raises.\<close>

datatype py_exn = TypeError | ValueError string | OverflowError | AttributeError | RecursionError

text \<open>
  Decimal digits with single underscores between them, as \<^verbatim>\<open>int\<close> and \<^verbatim>\<open>float\<close> accept: value,
  number of digits, and the rest of the text.
\<close>

definition is_digit :: "char \<Rightarrow> bool" where
  "is_digit c \<longleftrightarrow> (let n = (of_char c :: nat) in 48 \<le> n \<and> n \<le> 57)"

definition digit_val :: "char \<Rightarrow> nat" where
  "digit_val c = of_char c - 48"

fun digits :: "string \<Rightarrow> nat \<Rightarrow> nat \<Rightarrow> nat \<times> nat \<times> string" where
  "digits [] v n = (v, n, [])"
| "digits (c # s) v n =
     (if is_digit c then digits s (10 * v + digit_val c) (Suc n)
      else (case s of
              [] \<Rightarrow> (v, n, c # s)
            | d # s' \<Rightarrow> (if c = CHR ''_'' \<and> 0 < n \<and> is_digit d
                        then digits s' (10 * v + digit_val d) (Suc n)
                        else (v, n, c # s))))"

definition split_sign :: "string \<Rightarrow> bool \<times> string" where
  "split_sign s = (case s of [] \<Rightarrow> (False, [])
     | c # r \<Rightarrow> if c = CHR ''-'' then (True, r) else if c = CHR ''+'' then (False, r) else (False, s))"

definition parse_int :: "string \<Rightarrow> int option" where
  "parse_int s =
     (let (neg, r) = split_sign (strip s); (v, n, rest) = digits r 0 0
      in if n = 0 \<or> rest \<noteq> [] then None
         else Some (if neg then - int v else int v))"

definition parse_exponent :: "string \<Rightarrow> int option" where
  "parse_exponent s = (case s of [] \<Rightarrow> Some 0
     | c # r \<Rightarrow> if lower_char c = CHR ''e'' then
         (let (neg, t) = split_sign r; (v, n, rest) = digits t 0 0
          in if n = 0 \<or> rest \<noteq> [] then None else Some (if neg then - int v else int v))
       else None)"

definition pow10 :: "int \<Rightarrow> rat" where
  "pow10 e = (if 0 \<le> e then 10 ^ nat e else 1 / 10 ^ nat (- e))"

definition parse_float :: "string \<Rightarrow> pyfloat option" where
  "parse_float s =
     (let (neg, r) = split_sign (strip s); sg = (if neg then - 1 else 1 :: rat); w = lower r
      in if w = ''inf'' \<or> w = ''infinity'' then Some (if neg then NegInf else Inf)
         else if w = ''nan'' then Some Nan
         else (let (iv, n1, r1) = digits r 0 0;
                   (fv, n2, r2) = (case r1 of [] \<Rightarrow> (0, 0, [])
                                   | c # t \<Rightarrow> if c = CHR ''.'' then digits t 0 0 else (0, 0, r1))
               in if n1 + n2 = 0 then None
                  else (case parse_exponent r2 of
                          None \<Rightarrow> None
                        | Some e \<Rightarrow> Some (Fin (sg * (of_nat iv + of_nat fv / 10 ^ n2) * pow10 e)))))"

text \<open>\<^verbatim>\<open>float(x)\<close> and \<^verbatim>\<open>int(x)\<close>.\<close>

fun py_float :: "pyval \<Rightarrow> py_exn + pyfloat" where
  "py_float (PBool b) = Inr (Fin (if b then 1 else 0))"
| "py_float (PInt i) = Inr (Fin (of_int i))"
| "py_float (PFloat f) = Inr f"
| "py_float (PStr s) = (case parse_float s of Some f \<Rightarrow> Inr f | None \<Rightarrow> Inl (ValueError s))"
| "py_float _ = Inl TypeError"

definition trunc_rat :: "rat \<Rightarrow> int" where
  "trunc_rat r = (if 0 \<le> r then \<lfloor>r\<rfloor> else \<lceil>r\<rceil>)"

fun py_int :: "pyval \<Rightarrow> py_exn + int" where
  "py_int (PBool b) = Inr (if b then 1 else 0)"
| "py_int (PInt i) = Inr i"
| "py_int (PFloat (Fin r)) = Inr (trunc_rat r)"
| "py_int (PFloat Nan) = Inl (ValueError ''nan'')"
| "py_int (PFloat _) = Inl OverflowError"
| "py_int (PStr s) = (case parse_int s of Some i \<Rightarrow> Inr i | None \<Rightarrow> Inl (ValueError s))"
| "py_int _ = Inl TypeError"

text \<open>
  \<^verbatim>\<open>==\<close> on dynamic values: numbers compare across their types, lists elementwise, dicts by key.
\<close>

fun num_of :: "pyval \<Rightarrow> pyfloat option" where
  "num_of (PBool b) = Some (Fin (if b then 1 else 0))"
| "num_of (PInt i) = Some (Fin (of_int i))"
| "num_of (PFloat f) = Some f"
| "num_of _ = None"

definition num_eq :: "pyval \<Rightarrow> pyval \<Rightarrow> bool" where
  "num_eq a b = (case (num_of a, num_of b) of
     (Some x, Some y) \<Rightarrow> x = y \<and> x \<noteq> Nan | _ \<Rightarrow> False)"

fun py_eq :: "pyval \<Rightarrow> pyval \<Rightarrow> bool"
  and list_eq :: "pyval list \<Rightarrow> pyval list \<Rightarrow> bool"
  and dict_sub :: "(string \<times> pyval) list \<Rightarrow> (string \<times> pyval) list \<Rightarrow> bool" where
  "py_eq PNone b = (b = PNone)"
| "py_eq (PStr s) b = (b = PStr s)"
| "py_eq (PList xs) b = (case b of PList ys \<Rightarrow> list_eq xs ys | _ \<Rightarrow> False)"
| "py_eq (PDict d) b = (case b of PDict e \<Rightarrow> length d = length e \<and> dict_sub d e | _ \<Rightarrow> False)"
| "py_eq (PBool x) b = num_eq (PBool x) b"
| "py_eq (PInt x) b = num_eq (PInt x) b"
| "py_eq (PFloat x) b = num_eq (PFloat x) b"
| "list_eq [] ys = (ys = [])"
| "list_eq (x # xs) ys = (case ys of [] \<Rightarrow> False | y # ys' \<Rightarrow> py_eq x y \<and> list_eq xs ys')"
| "dict_sub [] e = True"
| "dict_sub ((k, v) # d) e =
     (case map_of e k of None \<Rightarrow> False | Some w \<Rightarrow> py_eq v w \<and> dict_sub d e)"

text \<open>\<^verbatim>\<open>s in v\<close> for a string \<open>s\<close>: list membership, substring, dict key, or \<^verbatim>\<open>TypeError\<close>.\<close>

fun py_in :: "string \<Rightarrow> pyval \<Rightarrow> py_exn + bool" where
  "py_in s (PList xs) = Inr (PStr s \<in> set xs)"
| "py_in s (PStr t) = Inr (contains t s)"
| "py_in s (PDict d) = Inr (s \<in> fst ` set d)"
| "py_in s _ = Inl TypeError"

text \<open>\<^verbatim>\<open>list(v)\<close>.\<close>

fun py_list :: "pyval \<Rightarrow> py_exn + pyval list" where
  "py_list (PList xs) = Inr xs"
| "py_list (PStr s) = Inr (map (\<lambda>c. PStr [c]) s)"
| "py_list (PDict d) = Inr (map (\<lambda>(k, _). PStr k) d)"
| "py_list _ = Inl TypeError"

text \<open>
  \<^verbatim>\<open>str(v)\<close>. The text of a float, a list or a dict (Python's \<^verbatim>\<open>repr\<close>) is the parameter \<open>rp\<close>.
\<close>

fun py_str :: "(pyval \<Rightarrow> string) \<Rightarrow> pyval \<Rightarrow> string" where
  "py_str rp PNone = ''None''"
| "py_str rp (PBool b) = (if b then ''True'' else ''False'')"
| "py_str rp (PInt i) = show_int i"
| "py_str rp (PStr s) = s"
| "py_str rp v = rp v"

section \<open>Results of operations that may raise\<close>

text \<open>
  \<open>'e + 'a\<close> is a computation that raises an \<open>'e\<close> (\<open>Inl\<close>) or returns an \<open>'a\<close> (\<open>Inr\<close>).
\<close>

definition rbind :: "'e + 'a \<Rightarrow> ('a \<Rightarrow> 'e + 'b) \<Rightarrow> 'e + 'b" where
  "rbind m f = (case m of Inl e \<Rightarrow> Inl e | Inr a \<Rightarrow> f a)"

definition raises :: "'e + 'a \<Rightarrow> bool" where
  "raises m \<longleftrightarrow> (\<exists>e. m = Inl e)"

lemma rbind_Inl [simp]: "rbind (Inl e) f = Inl e"
  by (simp add: rbind_def)

lemma rbind_Inr [simp]: "rbind (Inr a) f = f a"
  by (simp add: rbind_def)

lemma rbind_eq_Inr: "rbind m f = Inr b \<longleftrightarrow> (\<exists>a. m = Inr a \<and> f a = Inr b)"
  by (cases m) auto

section \<open>SQL comparisons\<close>

text \<open>A comparison with \<^verbatim>\<open>NULL\<close> is not true, whatever the other side.\<close>

definition sql_eq :: "string option \<Rightarrow> string \<Rightarrow> bool" where
  "sql_eq v s \<longleftrightarrow> v = Some s"

definition sql_after :: "int option \<Rightarrow> int \<Rightarrow> bool" where
  "sql_after v t = (case v of None \<Rightarrow> False | Some x \<Rightarrow> t < x)"

definition sql_not_after :: "int option \<Rightarrow> int \<Rightarrow> bool" where
  "sql_not_after v t = (case v of None \<Rightarrow> False | Some x \<Rightarrow> x \<le> t)"

section \<open>Order of first occurrence\<close>

text \<open>
  \<^verbatim>\<open>if x not in out: out.append(x)\<close> over a list: duplicates dropped, first occurrence kept.
\<close>

fun uniq_from :: "'a list \<Rightarrow> 'a list \<Rightarrow> 'a list" where
  "uniq_from acc [] = acc"
| "uniq_from acc (x # xs) = (if x \<in> set acc then uniq_from acc xs else uniq_from (acc @ [x]) xs)"

lemma set_uniq_from [simp]: "set (uniq_from acc xs) = set acc \<union> set xs"
  by (induction acc xs rule: uniq_from.induct) auto

lemma distinct_uniq_from [simp]: "distinct (uniq_from acc xs) = distinct acc"
  by (induction acc xs rule: uniq_from.induct) auto

section \<open>Stable sorting by a key\<close>

text \<open>
  \<^verbatim>\<open>sorted(xs, key=f)\<close> and \<^verbatim>\<open>sorted(xs, key=f, reverse=True)\<close>: both are stable in Python.
\<close>

definition sort_by :: "('a \<Rightarrow> 'k::linorder) \<Rightarrow> 'a list \<Rightarrow> 'a list" where
  "sort_by f xs = sort_key f xs"

definition sort_by_desc :: "('a \<Rightarrow> 'k::linorder) \<Rightarrow> 'a list \<Rightarrow> 'a list" where
  "sort_by_desc f xs = rev (sort_key f (rev xs))"

lemma set_sort_by [simp]: "set (sort_by f xs) = set xs"
  by (simp add: sort_by_def)

lemma set_sort_by_desc [simp]: "set (sort_by_desc f xs) = set xs"
  by (simp add: sort_by_desc_def)

lemma sorted_sort_by_desc: "sorted_wrt (\<lambda>a b. f b \<le> f a) (sort_by_desc f xs)"
proof -
  have "sorted_wrt (\<lambda>a b. f a \<le> f b) (sort_key f (rev xs))"
    using sorted_sort_key [of f "rev xs"] by (simp add: sorted_map)
  then show ?thesis by (simp add: sort_by_desc_def sorted_wrt_rev)
qed

section \<open>Reading back a rendered integer\<close>

lemma digit_char_simps:
  assumes "d < 10"
  shows "is_digit (digit_char d)" "digit_val (digit_char d) = d"
  using assms by (simp_all add: is_digit_def digit_val_def digit_char_def Let_def)

lemma digits_all:
  "\<forall>c \<in> set ds. is_digit c \<Longrightarrow> digits ds v k = (foldl (\<lambda>v c. 10 * v + digit_val c) v ds, k + length ds, [])"
  by (induction ds arbitrary: v k) simp_all

lemma show_nat_digits: "\<forall>c \<in> set (show_nat n). is_digit c"
proof (induction n rule: show_nat.induct)
  case (1 n)
  then show ?case
    by (subst show_nat.simps) (auto intro: digit_char_simps)
qed

lemma show_nat_nonempty [simp]: "show_nat n \<noteq> []"
  by (subst show_nat.simps) simp

lemma show_nat_value: "foldl (\<lambda>v c. 10 * v + digit_val c) 0 (show_nat n) = n"
proof (induction n rule: show_nat.induct)
  case (1 n)
  then show ?case
    by (subst show_nat.simps) (simp add: digit_char_simps)
qed

lemma strip_no_space: "\<forall>c \<in> set s. \<not> is_space c \<Longrightarrow> strip s = s"
proof -
  have d: "dropWhile is_space t = t" if "\<forall>c \<in> set t. \<not> is_space c" for t
    using that by (cases t) auto
  assume "\<forall>c \<in> set s. \<not> is_space c"
  then show ?thesis by (simp add: strip_def d)
qed

lemma show_int_chars: "c \<in> set (show_int i) \<Longrightarrow> is_digit c \<or> c = CHR ''-''"
  using show_nat_digits by (auto simp: show_int_def split: if_splits)

lemma digit_not_space: "is_digit c \<Longrightarrow> \<not> is_space c"
  by (auto simp: is_digit_def is_space_def Let_def)

lemma show_int_strip [simp]: "strip (show_int i) = show_int i"
proof (rule strip_no_space, intro ballI)
  fix c assume "c \<in> set (show_int i)"
  from show_int_chars [OF this] show "\<not> is_space c"
    by (auto simp: digit_not_space) (simp add: is_space_def)
qed

lemma split_sign_digits: "is_digit (hd s) \<Longrightarrow> split_sign s = (False, s)"
  by (cases s) (auto simp: split_sign_def is_digit_def Let_def)

lemma parse_show_int [simp]: "parse_int (show_int i) = Some i"
proof (cases "i < 0")
  case True
  then have "split_sign (show_int i) = (True, show_nat (nat (- i)))"
    by (simp add: show_int_def split_sign_def)
  with True show ?thesis
    by (simp add: parse_int_def digits_all [OF show_nat_digits] show_nat_value)
next
  case False
  then have s: "show_int i = show_nat (nat i)" by (simp add: show_int_def)
  have "is_digit (hd (show_nat (nat i)))" by (rule show_nat_digits [of "nat i", THEN bspec]) simp
  with False show ?thesis unfolding parse_int_def show_int_strip unfolding s
    by (simp add: split_sign_digits digits_all [OF show_nat_digits] show_nat_value)
qed

lemma split_on_none: "c \<notin> set s \<Longrightarrow> split_on c s = [s]"
  by (induction s) auto

lemma split_on_append: "c \<notin> set a \<Longrightarrow> split_on c (a @ c # b) = a # split_on c b"
  by (induction a) auto

end
