(* ===== verification/Wire.thy ===== *)
theory Wire
  imports Prelude
begin

text \<open>
  The two texts the conversation store exchanges with its callers and its database: UUIDs, as
  \<^verbatim>\<open>str(uuid.UUID(s))\<close> normalises them, and JSON, as \<^verbatim>\<open>json.dumps\<close> prints it with compact
  separators. The text of a float is a parameter of the printer.
\<close>

section \<open>UUIDs\<close>

definition hex_val :: "char \<Rightarrow> nat option" where
  "hex_val c = (let n = (of_char c :: nat) in
     if 48 \<le> n \<and> n \<le> 57 then Some (n - 48)
     else if 97 \<le> n \<and> n \<le> 102 then Some (n - 87)
     else if 65 \<le> n \<and> n \<le> 70 then Some (n - 55) else None)"

definition hex_char :: "nat \<Rightarrow> char" where
  "hex_char d = (if d < 10 then char_of (48 + d) else char_of (87 + d))"

text \<open>Hexadecimal digits with single underscores between them, as \<^verbatim>\<open>int(s, 16)\<close> accepts.\<close>

fun hex_digits :: "string \<Rightarrow> nat \<Rightarrow> nat option" where
  "hex_digits [] v = None"
| "hex_digits (c # s) v =
     (case hex_val c of
        None \<Rightarrow> None
      | Some d \<Rightarrow>
          (case s of
             [] \<Rightarrow> Some (16 * v + d)
           | c' # s' \<Rightarrow> if c' = CHR ''_'' then hex_digits s' (16 * v + d) else hex_digits s (16 * v + d)))"

definition parse_hex :: "string \<Rightarrow> int option" where
  "parse_hex s =
     (let (neg, t) = split_sign (strip s);
          u = (case t of
                 z # x # r \<Rightarrow>
                   if z = CHR ''0'' \<and> lower_char x = CHR ''x''
                   then (case r of c # r' \<Rightarrow> if c = CHR ''_'' then r' else r | [] \<Rightarrow> r) else t
               | _ \<Rightarrow> t)
      in map_option (\<lambda>v. if neg then - int v else int v) (hex_digits u 0))"

text \<open>\<^verbatim>\<open>s.replace(p, '')\<close> and \<^verbatim>\<open>s.strip('{}')\<close>.\<close>

function remove_text :: "string \<Rightarrow> string \<Rightarrow> string" where
  "remove_text p s =
     (case s of
        [] \<Rightarrow> []
      | c # cs \<Rightarrow> if p \<noteq> [] \<and> starts_with s p then remove_text p (drop (length p) s)
                  else c # remove_text p cs)"
  by pat_completeness auto
termination by (relation "measure (\<lambda>(p, s). length s)") auto

declare remove_text.simps [simp del]

definition strip_braces :: "string \<Rightarrow> string" where
  "strip_braces s = (let b = (\<lambda>c. c = CHR ''{'' \<or> c = CHR ''}'')
     in rev (dropWhile b (rev (dropWhile b s))))"

primrec hex_fixed :: "nat \<Rightarrow> nat \<Rightarrow> string" where
  "hex_fixed 0 v = []"
| "hex_fixed (Suc n) v = hex_fixed n (v div 16) @ [hex_char (v mod 16)]"

definition uuid_text :: "nat \<Rightarrow> string" where
  "uuid_text v = (let h = hex_fixed 32 v in
     take 8 h @ ''-'' @ take 4 (drop 8 h) @ ''-'' @ take 4 (drop 12 h) @ ''-''
       @ take 4 (drop 16 h) @ ''-'' @ drop 20 h)"

text \<open>\<^verbatim>\<open>str(uuid.UUID(s))\<close>, \<open>None\<close> for the \<^verbatim>\<open>ValueError\<close>.\<close>

definition py_uuid :: "string \<Rightarrow> string option" where
  "py_uuid s =
     (let h = filter (\<lambda>c. c \<noteq> CHR ''-'') (strip_braces (remove_text ''uuid:'' (remove_text ''urn:'' s)))
      in if length h \<noteq> 32 then None
         else (case parse_hex h of
                 None \<Rightarrow> None
               | Some v \<Rightarrow> if v < 0 \<or> 2 ^ 128 \<le> v then None else Some (uuid_text (nat v))))"

section \<open>JSON text\<close>

definition hex2 :: "nat \<Rightarrow> string" where
  "hex2 n = [hex_char (n div 16), hex_char (n mod 16)]"

definition json_char :: "char \<Rightarrow> string" where
  "json_char c = (let n = (of_char c :: nat) in
     if n = 34 then [CHR 0x5C, CHR 0x22]
     else if n = 92 then [CHR 0x5C, CHR 0x5C]
     else if n = 10 then CHR 0x5C # ''n''
     else if n = 13 then CHR 0x5C # ''r''
     else if n = 9 then CHR 0x5C # ''t''
     else if n = 8 then CHR 0x5C # ''b''
     else if n = 12 then CHR 0x5C # ''f''
     else if n < 32 then CHR 0x5C # ''u00'' @ hex2 n
     else [c])"

definition json_string :: "string \<Rightarrow> string" where
  "json_string s = CHR 0x22 # concat (map json_char s) @ [CHR 0x22]"

text \<open>
  \<^verbatim>\<open>json.dumps(v, separators=(",", ":"), ensure_ascii=False, allow_nan=False)\<close>; \<open>None\<close> is the
  \<^verbatim>\<open>ValueError\<close> for NaN and the infinities. \<open>fr\<close> prints a finite float.
\<close>

fun json_value :: "(rat \<Rightarrow> string) \<Rightarrow> pyval \<Rightarrow> string option"
  and json_items :: "(rat \<Rightarrow> string) \<Rightarrow> pyval list \<Rightarrow> string list option"
  and json_fields :: "(rat \<Rightarrow> string) \<Rightarrow> (string \<times> pyval) list \<Rightarrow> string list option" where
  "json_value fr PNone = Some ''null''"
| "json_value fr (PBool b) = Some (if b then ''true'' else ''false'')"
| "json_value fr (PInt i) = Some (show_int i)"
| "json_value fr (PFloat f) = (case f of Fin r \<Rightarrow> Some (fr r) | _ \<Rightarrow> None)"
| "json_value fr (PStr s) = Some (json_string s)"
| "json_value fr (PList xs) = map_option (\<lambda>ts. ''['' @ join '','' ts @ '']'') (json_items fr xs)"
| "json_value fr (PDict d) = map_option (\<lambda>ts. ''{'' @ join '','' ts @ ''}'') (json_fields fr d)"
| "json_items fr [] = Some []"
| "json_items fr (x # xs) =
     (case (json_value fr x, json_items fr xs) of (Some t, Some ts) \<Rightarrow> Some (t # ts) | _ \<Rightarrow> None)"
| "json_fields fr [] = Some []"
| "json_fields fr ((k, v) # d) =
     (case (json_value fr v, json_fields fr d) of
        (Some t, Some ts) \<Rightarrow> Some ((json_string k @ '':'' @ t) # ts) | _ \<Rightarrow> None)"

text \<open>\<^verbatim>\<open>sort_keys=True\<close>: every object of the value with its keys in order.\<close>

fun sort_keys :: "pyval \<Rightarrow> pyval"
  and sort_items :: "pyval list \<Rightarrow> pyval list"
  and sort_fields :: "(string \<times> pyval) list \<Rightarrow> (string \<times> pyval) list" where
  "sort_keys (PList xs) = PList (sort_items xs)"
| "sort_keys (PDict d) = PDict (sort_by fst (sort_fields d))"
| "sort_keys v = v"
| "sort_items [] = []"
| "sort_items (x # xs) = sort_keys x # sort_items xs"
| "sort_fields [] = []"
| "sort_fields ((k, v) # d) = (k, sort_keys v) # sort_fields d"

text \<open>Two values that differ in the order of the keys of their objects only.\<close>

definition same_json :: "pyval \<Rightarrow> pyval \<Rightarrow> bool" where
  "same_json v w \<longleftrightarrow> sort_keys v = sort_keys w"

lemma sort_items_map: "sort_items vs = map sort_keys vs"
  by (induction vs) simp_all

lemma dget_first: "dget d k = (case filter (\<lambda>e. fst e = k) d of [] \<Rightarrow> None | e # _ \<Rightarrow> Some (snd e))"
  by (induction d) (auto simp: dget_def)

lemma dget_sort_by: "dget (sort_by fst d) k = dget d k"
  by (subst (1 2) dget_first) (simp add: sort_by_def sort_key_stable)

lemma sum_insort: "sum_list (map f (insort_key g x xs)) = f x + sum_list (map f xs)" for f :: "'a \<Rightarrow> nat"
  by (induction xs) auto

lemma sum_sort_by: "sum_list (map f (sort_by g xs)) = sum_list (map f xs)" for f :: "'a \<Rightarrow> nat"
  unfolding sort_by_def by (induction xs) (simp_all add: sum_insort)

lemma dget_sort_fields: "dget (sort_fields d) k = map_option sort_keys (dget d k)"
  by (induction d) (auto simp: dget_def)

lemma sort_fields_values: "map snd (sort_fields d) = map sort_keys (map snd d)"
  by (induction d) auto

lemma sort_fields_keys: "dkeys (sort_fields d) = dkeys d"
  by (induction d) (auto simp: dkeys_def)

abbreviation sorted_fields :: "(string \<times> pyval) list \<Rightarrow> (string \<times> pyval) list" where
  "sorted_fields d \<equiv> sort_by fst (sort_fields d)"

lemma sorted_fields_simps [simp]:
  "dget (sorted_fields d) k = map_option sort_keys (dget d k)"
  "set (dkeys (sorted_fields d)) = set (dkeys d)" "length (sorted_fields d) = length d"
  "snd ` set (sort_fields d) = sort_keys ` snd ` set d"
proof -
  show "dget (sorted_fields d) k = map_option sort_keys (dget d k)" by (simp only: dget_sort_by dget_sort_fields)
  have "set (dkeys (sorted_fields d)) = fst ` set (sort_fields d)" by (simp add: dkeys_def)
  also have "\<dots> = set (dkeys (sort_fields d))" by (simp add: dkeys_def)
  finally show "set (dkeys (sorted_fields d)) = set (dkeys d)" by (simp only: sort_fields_keys)
  have "length (sort_fields d) = length d" by (induction d) auto
  then show "length (sorted_fields d) = length d" by (simp add: sort_by_def)
  show "snd ` set (sort_fields d) = sort_keys ` snd ` set d"
    using arg_cong [OF sort_fields_values [of d], of set] by (simp add: image_image)
qed

lemma sorted_fields_sum: "sum_list (map f (map snd (sorted_fields d))) = sum_list (map (\<lambda>v. f (sort_keys v)) (map snd d))" for f :: "pyval \<Rightarrow> nat"
proof -
  have "sum_list (map f (map snd (sorted_fields d))) = sum_list (map f (map snd (sort_fields d)))"
    using sum_sort_by [of "f \<circ> snd" fst "sort_fields d"] by simp
  then show ?thesis unfolding sort_fields_values by (simp add: comp_def)
qed

lemma insort_fields: "insort_key fst (k, sort_keys v) (sort_fields d) = sort_fields (insort_key fst (k, v) d)"
  by (induction d) auto

lemma sort_by_fields: "sort_by fst (sort_fields d) = sort_fields (sort_by fst d)"
  unfolding sort_by_def by (induction d) (auto simp: insort_fields)

lemma sort_keys_idem:
  "sort_keys (sort_keys v) = sort_keys v" "sort_items (sort_items vs) = sort_items vs" "sort_fields (sort_fields d) = sort_fields d"
proof (induction v and vs and d rule: sort_keys_sort_items_sort_fields.induct)
  case (2 d)
  have "sort_by fst (sort_by fst (sort_fields d)) = sort_by fst (sort_fields d)" unfolding sort_by_def by (simp add: sort_key_id_if_sorted)
  with 2 show ?case by (simp add: sort_by_fields [symmetric])
qed simp_all

lemma sort_keys_dict: "sort_keys v = PDict d' \<longleftrightarrow> (\<exists>d. v = PDict d \<and> d' = sorted_fields d)"
  by (cases v) auto

lemma sort_keys_leaf: "sort_keys v = PStr t \<longleftrightarrow> v = PStr t" "sort_keys v = PBool b \<longleftrightarrow> v = PBool b" "sort_keys v = PNone \<longleftrightarrow> v = PNone"
  by (cases v; simp)+

text \<open>\<^verbatim>\<open>len(s.encode("utf-8"))\<close> of a text of code points below 256.\<close>

definition utf8_len :: "string \<Rightarrow> nat" where
  "utf8_len s = sum_list (map (\<lambda>c. if (of_char c :: nat) < 128 then 1 else 2) s)"

section \<open>Canonical texts\<close>

lemma hex_val_char: "d < 16 \<Longrightarrow> hex_val (hex_char d) = Some d"
  by (auto simp: hex_val_def hex_char_def Let_def)

lemma hex_fixed_length [simp]: "length (hex_fixed n v) = n"
  by (induction n arbitrary: v) simp_all

lemma utf8_len_bounds: "length s \<le> utf8_len s" "utf8_len s \<le> 2 * length s"
  by (induction s) (auto simp: utf8_len_def)

lemma json_sample: "json_value (\<lambda>_. ''0'') (PDict [(''type'', PStr ''CUSTOM''), (''n'', PList [PInt 3, PNone])])
    = Some (''{'' @ json_string ''type'' @ '':'' @ json_string ''CUSTOM'' @ '','' @ json_string ''n'' @ '':[3,null]}'')"
  by code_simp

lemma hex_char_props:
  "d < 16 \<Longrightarrow> hex_char d \<notin> set ''_-+{}:xX'' \<and> \<not> is_space (hex_char d) \<and> lower_char (hex_char d) \<noteq> CHR ''x''"
proof -
  have "\<forall>d \<in> set [0..<16]. hex_char d \<notin> set ''_-+{}:xX'' \<and> \<not> is_space (hex_char d)
      \<and> lower_char (hex_char d) \<noteq> CHR ''x''" by code_simp
  then show "d < 16 \<Longrightarrow> ?thesis" by simp
qed

lemma hex_fixed_chars: "c \<in> set (hex_fixed n v) \<Longrightarrow> \<exists>d < 16. c = hex_char d"
proof (induction n arbitrary: v)
  case (Suc n)
  have "v mod 16 < 16" by simp
  with Suc show ?case by (auto simp del: mod_less_divisor)
qed simp

lemma hex_fixed_avoids: "c \<in> set (hex_fixed n v) \<Longrightarrow> c \<notin> set ''_-+{}:xX'' \<and> \<not> is_space c \<and> lower_char c \<noteq> CHR ''x''"
  using hex_fixed_chars [of c n v] hex_char_props by blast

lemma hex_digits_snoc:
  "s \<noteq> [] \<Longrightarrow> CHR ''_'' \<notin> set s \<Longrightarrow> d < 16 \<Longrightarrow>
     hex_digits (s @ [hex_char d]) a = map_option (\<lambda>v. 16 * v + d) (hex_digits s a)"
proof (induction s arbitrary: a)
  case (Cons c s)
  have u: "hex_char d \<noteq> CHR ''_''" using hex_char_props [OF Cons.prems(3)] by auto
  show ?case
  proof (cases s)
    case Nil
    with u Cons.prems(3) show ?thesis by (simp add: hex_val_char split: option.splits)
  next
    case (Cons c' s')
    with Cons.IH Cons.prems show ?thesis by (auto split: option.splits)
  qed
qed simp

lemma hex_digits_fixed: "v < 16 ^ Suc n \<Longrightarrow> hex_digits (hex_fixed (Suc n) v) 0 = Some v"
proof (induction n arbitrary: v)
  case 0
  then show ?case by (simp add: hex_val_char)
next
  case (Suc n)
  have "v div 16 < 16 ^ Suc n" using Suc.prems by (simp add: less_mult_imp_div_less)
  with Suc.IH have ih: "hex_digits (hex_fixed (Suc n) (v div 16)) 0 = Some (v div 16)" by blast
  have ne: "hex_fixed (Suc n) (v div 16) \<noteq> []" by simp
  have nu: "CHR ''_'' \<notin> set (hex_fixed (Suc n) (v div 16))" using hex_fixed_avoids by fastforce
  have "hex_digits (hex_fixed (Suc (Suc n)) v) 0 = map_option (\<lambda>w. 16 * w + v mod 16) (Some (v div 16))"
    unfolding ih [symmetric] hex_fixed.simps(2) [of "Suc n" v] by (rule hex_digits_snoc [OF ne nu]) simp
  then show ?case by simp
qed

lemma remove_text_avoids: "c \<in> set p \<Longrightarrow> c \<notin> set s \<Longrightarrow> remove_text p s = s"
proof (induction s)
  case (Cons x s)
  have "\<not> starts_with (x # s) p"
  proof
    assume "starts_with (x # s) p"
    then obtain t where t: "x # s = p @ t" unfolding starts_with_iff ..
    have "set p \<subseteq> set (x # s)" unfolding t by simp
    with Cons.prems show False by blast
  qed
  with Cons show ?case by (simp add: remove_text.simps [of p "x # s"])
qed (simp add: remove_text.simps)

lemma dropWhile_none: "\<forall>c \<in> set s. \<not> P c \<Longrightarrow> dropWhile P s = s"
  by (cases s) auto

lemma take_pieces:
  "take 8 h @ take 4 (drop 8 h) @ take 4 (drop 12 h) @ take 4 (drop 16 h) @ drop 20 h = (h :: 'a list)"
proof -
  have "take 4 (drop 16 h) @ drop 20 h = drop 16 h" using append_take_drop_id [of 4 "drop 16 h"] by simp
  moreover have "take 4 (drop 12 h) @ drop 16 h = drop 12 h" using append_take_drop_id [of 4 "drop 12 h"] by simp
  moreover have "take 4 (drop 8 h) @ drop 12 h = drop 8 h" using append_take_drop_id [of 4 "drop 8 h"] by simp
  ultimately show ?thesis by (metis append_take_drop_id)
qed

lemma uuid_text_hex: "filter (\<lambda>c. c \<noteq> CHR ''-'') (uuid_text v) = hex_fixed 32 v"
proof -
  have keep: "filter (\<lambda>c. c \<noteq> CHR ''-'') t = t" if "set t \<subseteq> set (hex_fixed 32 v)" for t
    using that hex_fixed_avoids by (intro filter_True) fastforce
  show ?thesis
    unfolding uuid_text_def Let_def filter_append
    by (simp add: keep set_take_subset set_drop_subset order_trans [OF set_take_subset set_drop_subset]
        take_pieces)
qed

lemma uuid_text_chars: "c \<in> set (uuid_text v) \<Longrightarrow> c = CHR ''-'' \<or> c \<in> set (hex_fixed 32 v)"
proof -
  assume "c \<in> set (uuid_text v)"
  then have "c = CHR ''-'' \<or> c \<in> set (filter (\<lambda>c. c \<noteq> CHR ''-'') (uuid_text v))" by auto
  then show ?thesis by (simp add: uuid_text_hex)
qed

lemma parse_hex_fixed: "v < 2 ^ 128 \<Longrightarrow> parse_hex (hex_fixed 32 v) = Some (int v)"
proof -
  assume v: "v < 2 ^ 128"
  define h where "h = hex_fixed 32 v"
  have av: "\<And>c. c \<in> set h \<Longrightarrow> c \<notin> set ''_-+{}:xX'' \<and> \<not> is_space c \<and> lower_char c \<noteq> CHR ''x''"
    using hex_fixed_avoids unfolding h_def by blast
  have "length h = 32" by (simp add: h_def)
  then obtain a b r where h: "h = a # b # r"
    by (cases h; cases "tl h") auto
  have "strip h = h" using av by (intro strip_no_space) auto
  moreover have "split_sign h = (False, h)" using av [of a] by (simp add: h split_sign_def)
  moreover have "\<not> (a = CHR ''0'' \<and> lower_char b = CHR ''x'')" using av [of b] h by simp
  moreover have "Suc 31 = 32" "(16 :: nat) ^ Suc 31 = 2 ^ 128" by simp_all
  then have "hex_digits h 0 = Some v"
    using hex_digits_fixed [of v 31] v unfolding h_def by (simp only:)
  ultimately show ?thesis unfolding h_def [symmetric] parse_hex_def Let_def by (simp only: h) auto
qed

text \<open>Normalising a UUID twice is normalising it once.\<close>

lemma py_uuid_canonical: "v < 2 ^ 128 \<Longrightarrow> py_uuid (uuid_text v) = Some (uuid_text v)"
proof -
  assume v: "v < 2 ^ 128"
  have av: "\<And>c. c \<in> set (uuid_text v) \<Longrightarrow> c \<notin> set ''{}:''"
    using uuid_text_chars hex_fixed_avoids by fastforce
  have colon: "CHR '':'' \<notin> set (uuid_text v)" using av [of "CHR '':''"] by auto
  have "remove_text ''urn:'' (uuid_text v) = uuid_text v"
    using colon by (intro remove_text_avoids [of "CHR '':''"]) simp_all
  moreover have "remove_text ''uuid:'' (uuid_text v) = uuid_text v"
    using colon by (intro remove_text_avoids [of "CHR '':''"]) simp_all
  moreover have "strip_braces (uuid_text v) = uuid_text v"
    unfolding strip_braces_def Let_def using av by (simp add: dropWhile_none)
  ultimately show ?thesis using v parse_hex_fixed [OF v] by (simp add: py_uuid_def uuid_text_hex)
qed

lemma py_uuid_idem: "py_uuid s = Some u \<Longrightarrow> py_uuid u = Some u"
proof -
  assume "py_uuid s = Some u"
  then obtain v :: int where "\<not> v < 0" "\<not> 2 ^ 128 \<le> v" "u = uuid_text (nat v)"
    unfolding py_uuid_def Let_def by (auto split: if_splits option.splits)
  moreover from this have "nat v < 2 ^ 128" by (subst nat_less_iff) simp_all
  ultimately show ?thesis using py_uuid_canonical by simp
qed

end
