(* ===== verification/StateMachines.thy ===== *)
theory StateMachines
  imports Prelude
begin

text \<open>
  The shape the stateful components share: operations applied one after the other to a state.
  A component that proves a law of one operation gets it for every run. The locales here are
  interpreted by the stores of jobs, chat runs, agent runs, queued items and saved tasks, and by the
  pairing reducer, the extension registry and the prompt registry; \<open>guarded_machine\<close> by the calls of
  the shared run store.
\<close>

section \<open>Runs\<close>

locale machine =
  fixes apply_op :: "'op \<Rightarrow> 's \<Rightarrow> 's"
begin

fun run :: "'op list \<Rightarrow> 's \<Rightarrow> 's" where
  "run [] s = s"
| "run (op # ops) s = run ops (apply_op op s)"

lemma run_append: "run (xs @ ys) s = run ys (run xs s)"
  by (induction xs arbitrary: s) simp_all

inductive reachable :: "'s \<Rightarrow> 's \<Rightarrow> bool" for s where
  reach_start: "reachable s s"
| reach_op: "reachable s t \<Longrightarrow> reachable s (apply_op op t)"

lemma reachable_run: "reachable s t \<longleftrightarrow> (\<exists>ops. t = run ops s)"
proof
  assume "reachable s t"
  then show "\<exists>ops. t = run ops s"
  proof induction
    case reach_start
    show ?case by (rule exI [of _ "[]"]) simp
  next
    case (reach_op t op)
    then obtain ops where "t = run ops s" by blast
    then have "apply_op op t = run (ops @ [op]) s" by (simp add: run_append)
    then show ?case by blast
  qed
next
  have "reachable s t \<Longrightarrow> reachable s (run ops t)" for ops t
    by (induction ops arbitrary: t) (auto intro: reach_op)
  then show "\<exists>ops. t = run ops s \<Longrightarrow> reachable s t" using reach_start by blast
qed

end

section \<open>Invariants\<close>

text \<open>A well-formedness every operation keeps.\<close>

locale invariant_machine = machine apply_op for apply_op :: "'op \<Rightarrow> 's \<Rightarrow> 's" +
  fixes inv :: "'s \<Rightarrow> bool"
  assumes inv_op: "inv s \<Longrightarrow> inv (apply_op op s)"
begin

lemma inv_run: "inv s \<Longrightarrow> inv (run ops s)"
  by (induction ops arbitrary: s) (simp_all add: inv_op)

lemma inv_reachable: "reachable s t \<Longrightarrow> inv s \<Longrightarrow> inv t"
  by (induction rule: reachable.induct) (simp_all add: inv_op)

end

section \<open>Fences\<close>

text \<open>
  A part of the state that some operations must not change: \<open>view\<close> is the part, \<open>held\<close> says
  that the fence is up, and \<open>entitled\<close> which operations may pass it.
\<close>

locale fenced_machine = invariant_machine apply_op inv
  for apply_op :: "'op \<Rightarrow> 's \<Rightarrow> 's" and inv :: "'s \<Rightarrow> bool" +
  fixes view :: "'k \<Rightarrow> 's \<Rightarrow> 'v"
    and held :: "'k \<Rightarrow> 'v \<Rightarrow> bool"
    and entitled :: "'k \<Rightarrow> 'v \<Rightarrow> 'op \<Rightarrow> bool"
  assumes fence: "inv s \<Longrightarrow> held k (view k s) \<Longrightarrow> \<not> entitled k (view k s) op \<Longrightarrow>
      view k (apply_op op s) = view k s"
begin

lemma fence_run:
  "inv s \<Longrightarrow> held k (view k s) \<Longrightarrow> \<forall>op \<in> set ops. \<not> entitled k (view k s) op \<Longrightarrow>
     view k (run ops s) = view k s"
proof (induction ops arbitrary: s)
  case (Cons op ops)
  have v: "view k (apply_op op s) = view k s" using Cons.prems by (intro fence) auto
  with Cons.prems have "view k (run ops (apply_op op s)) = view k (apply_op op s)"
    by (intro Cons.IH inv_op) auto
  with v show ?case by simp
qed simp

end

section \<open>First changes\<close>

text \<open>
  The same with an entitlement that depends on the state: only an entitled step changes the view, so
  the first change in a run is by one.
\<close>

locale guarded_machine = machine apply_op for apply_op :: "'op \<Rightarrow> 's \<Rightarrow> 's" +
  fixes view :: "'k \<Rightarrow> 's \<Rightarrow> 'v" and entitled :: "'k \<Rightarrow> 's \<Rightarrow> 'op \<Rightarrow> bool"
  assumes guard: "\<not> entitled k s op \<Longrightarrow> view k (apply_op op s) = view k s"
begin

lemma first_change:
  "(\<forall>pre post. ops = pre @ post \<longrightarrow> view k (run pre s) = view k s)
   \<or> (\<exists>pre op post. ops = pre @ op # post \<and> view k (run pre s) = view k s \<and> entitled k (run pre s) op)"
proof (induction ops rule: rev_induct)
  case (snoc op ops)
  then show ?case
  proof
    assume v: "\<forall>pre post. ops = pre @ post \<longrightarrow> view k (run pre s) = view k s"
    show ?thesis
    proof (cases "entitled k (run ops s) op")
      case True
      have "view k (run ops s) = view k s" using v [rule_format, of ops "[]"] by simp
      then show ?thesis using True by (intro disjI2 exI [of _ ops] exI [of _ op] exI [of _ "[]"]) simp
    next
      case False
      then have "view k (run (ops @ [op]) s) = view k s" using v [rule_format, of ops "[]"] by (simp add: run_append guard)
      moreover have "view k (run pre s) = view k s" if e: "ops @ [op] = pre @ post" "pre \<noteq> ops @ [op]" for pre post
      proof -
        from e obtain post' where "ops = pre @ post'" by (cases post rule: rev_cases) auto
        then show ?thesis using v by blast
      qed
      ultimately show ?thesis by (intro disjI1 allI impI) metis
    qed
  next
    assume "\<exists>pre op post. ops = pre @ op # post \<and> view k (run pre s) = view k s \<and> entitled k (run pre s) op"
    then obtain pre c post where "ops = pre @ c # post" "view k (run pre s) = view k s" "entitled k (run pre s) c" by blast
    then have "ops @ [op] = pre @ c # (post @ [op]) \<and> view k (run pre s) = view k s \<and> entitled k (run pre s) c" by simp
    then show ?thesis by blast
  qed
qed simp

end

section \<open>Refinement\<close>

text \<open>
  A concrete machine that answers every operation and simulates an abstract one through \<open>abs\<close>,
  on the states that satisfy \<open>inv\<close>.
\<close>

locale refinement =
  fixes cstep :: "'op \<Rightarrow> 's \<Rightarrow> 'r \<times> 's"
    and astep :: "'op \<Rightarrow> 'a \<Rightarrow> 'r \<times> 'a"
    and abs :: "'s \<Rightarrow> 'a"
    and inv :: "'s \<Rightarrow> bool"
  assumes inv_step: "inv s \<Longrightarrow> inv (snd (cstep op s))"
    and sim_step: "inv s \<Longrightarrow> astep op (abs s) = (fst (cstep op s), abs (snd (cstep op s)))"
begin

fun crun :: "'op list \<Rightarrow> 's \<Rightarrow> 'r list \<times> 's" where
  "crun [] s = ([], s)"
| "crun (op # ops) s = (let (r, s1) = cstep op s; (rs, s2) = crun ops s1 in (r # rs, s2))"

fun arun :: "'op list \<Rightarrow> 'a \<Rightarrow> 'r list \<times> 'a" where
  "arun [] a = ([], a)"
| "arun (op # ops) a = (let (r, a1) = astep op a; (rs, a2) = arun ops a1 in (r # rs, a2))"

lemma run_inv: "inv s \<Longrightarrow> inv (snd (crun ops s))"
proof (induction ops arbitrary: s)
  case (Cons op ops)
  from Cons.IH [OF inv_step [OF Cons.prems, of op]] show ?case by (simp add: Let_def split_beta)
qed simp

lemma run_sim: "inv s \<Longrightarrow> arun ops (abs s) = (fst (crun ops s), abs (snd (crun ops s)))"
proof (induction ops arbitrary: s)
  case (Cons op ops)
  from Cons.IH [OF inv_step [OF Cons.prems, of op]] sim_step [OF Cons.prems, of op]
  show ?case by (simp add: Let_def split_beta)
qed simp

end

end
