(* ===== verification/Tables.thy ===== *)
theory Tables
  imports StateMachines
begin

text \<open>
  Tables as lists of rows in insertion order, with a key column: what the SQL statements of the
  automation stores do to them, and the lemmas that follow a row through a statement.
\<close>

definition row_at :: "('r \<Rightarrow> 'k) \<Rightarrow> 'k \<Rightarrow> 'r list \<Rightarrow> 'r option" where
  "row_at key x rows = find (\<lambda>r. key r = x) rows"

text \<open>\<^verbatim>\<open>UPDATE ... SET f WHERE P\<close>; \<open>filter P\<close> are the rows it returns, before the change.\<close>

definition update_where :: "('r \<Rightarrow> bool) \<Rightarrow> ('r \<Rightarrow> 'r) \<Rightarrow> 'r list \<Rightarrow> 'r list" where
  "update_where P f rows = map (\<lambda>r. if P r then f r else r) rows"

text \<open>Unique keys, and a well-formedness of every row.\<close>

definition table_ok :: "('r \<Rightarrow> 'k) \<Rightarrow> ('r \<Rightarrow> bool) \<Rightarrow> 'r list \<Rightarrow> bool" where
  "table_ok key ok rows \<longleftrightarrow> distinct (map key rows) \<and> (\<forall>r \<in> set rows. ok r)"

named_theorems row_simps

lemma row_at_Nil [row_simps]: "row_at key x [] = None"
  by (simp add: row_at_def)

lemma row_at_Cons [row_simps]: "row_at key x (r # rows) = (if key r = x then Some r else row_at key x rows)"
  by (simp add: row_at_def)

lemma row_at_append [row_simps]:
  "row_at key x (rows @ [r]) = (case row_at key x rows of Some q \<Rightarrow> Some q | None \<Rightarrow> if key r = x then Some r else None)"
  by (induction rows) (simp_all add: row_simps)

lemma row_at_update [row_simps]:
  "(\<And>r. key (f r) = key r) \<Longrightarrow>
   row_at key x (update_where P f rows) = map_option (\<lambda>r. if P r then f r else r) (row_at key x rows)"
  by (induction rows) (auto simp: row_simps update_where_def)

lemma row_at_SomeD: "row_at key x rows = Some r \<Longrightarrow> r \<in> set rows \<and> key r = x"
  by (auto simp: row_at_def find_Some_iff)

lemma row_at_None_iff: "row_at key x rows = None \<longleftrightarrow> x \<notin> key ` set rows"
  by (auto simp: row_at_def find_None_iff)

lemma row_at_mem: "distinct (map key rows) \<Longrightarrow> r \<in> set rows \<Longrightarrow> row_at key (key r) rows = Some r"
  by (induction rows) (auto simp: row_simps)

lemma row_at_filter [row_simps]:
  "distinct (map key rows) \<Longrightarrow>
   row_at key x (filter P rows) = (case row_at key x rows of None \<Rightarrow> None | Some r \<Rightarrow> if P r then Some r else None)"
proof (induction rows)
  case (Cons r rows)
  then have "key r \<notin> key ` set (filter P rows)" by auto
  then have "row_at key (key r) (filter P rows) = None" by (simp add: row_at_None_iff)
  with Cons show ?case by (auto simp: row_simps)
qed (simp add: row_simps)

lemma keys_update: "(\<And>r. key (f r) = key r) \<Longrightarrow> map key (update_where P f rows) = map key rows"
  by (simp add: update_where_def)

lemma table_row: "table_ok key ok rows \<Longrightarrow> row_at key x rows = Some r \<Longrightarrow> ok r \<and> key r = x"
  by (auto simp: table_ok_def dest: row_at_SomeD)

lemma table_empty [simp]: "table_ok key ok []"
  by (simp add: table_ok_def)

lemma table_update:
  "table_ok key ok rows \<Longrightarrow> (\<And>r. key (f r) = key r) \<Longrightarrow> (\<And>r. ok r \<Longrightarrow> P r \<Longrightarrow> ok (f r)) \<Longrightarrow>
   table_ok key ok (update_where P f rows)"
  by (auto simp: table_ok_def keys_update) (auto simp: update_where_def)

lemma table_insert: "table_ok key ok rows \<Longrightarrow> key r \<notin> key ` set rows \<Longrightarrow> ok r \<Longrightarrow> table_ok key ok (rows @ [r])"
  by (auto simp: table_ok_def)

lemma table_delete: "table_ok key ok rows \<Longrightarrow> table_ok key ok (filter P rows)"
  by (auto simp: table_ok_def distinct_map_filter)

lemma table_matches: "table_ok key ok rows \<Longrightarrow> (\<And>r. P r \<Longrightarrow> key r = x) \<Longrightarrow>
    filter P rows = (case row_at key x rows of None \<Rightarrow> [] | Some r \<Rightarrow> if P r then [r] else [])"
proof -
  assume ok: "table_ok key ok rows" and P: "\<And>r. P r \<Longrightarrow> key r = x"
  then have "distinct (map key rows)" by (simp add: table_ok_def)
  then show ?thesis
  proof (induction rows)
    case (Cons r rows)
    have "filter P rows = []" if "key r = x"
      unfolding filter_empty_conv
    proof (intro ballI notI)
      fix q
      assume q: "q \<in> set rows" "P q"
      then have "key q = key r" using P that by simp
      then show False using q(1) Cons.prems by (metis distinct.simps(2) image_eqI list.map(2) set_map)
    qed
    then show ?case using Cons P by (auto simp: row_simps)
  qed (simp add: row_simps)
qed

lemma update_key:
  assumes "table_ok key ok rows" "q \<in> set rows"
  shows "update_where (\<lambda>r. key r = key q) f rows = update_where (\<lambda>r. r = q) f rows"
proof -
  have "inj_on key (set rows)" using assms(1) by (simp add: table_ok_def distinct_map)
  then have "(key r = key q) = (r = q)" if "r \<in> set rows" for r using that assms(2) by (auto dest: inj_onD)
  then show ?thesis by (simp add: update_where_def cong: map_cong)
qed

end
