(* ===== verification/WorkQueue.thy ===== *)
theory WorkQueue
  imports Wire Tables "HOL-Library.Product_Lexorder"
begin

text \<open>
  The durable work queue of the automations, \<^verbatim>\<open>persistence/repositories/postgres_queue_client.py\<close> (the
  contract is \<^verbatim>\<open>services/database/repositories/queue_client.py\<close>). Its table is a list of rows with
  a unique \<^verbatim>\<open>item_id\<close>; each method is one transaction that leaves the table as it was when it fails.
  \<open>db\<close> says whether the transaction runs (connection, foreign keys, the JSON of the payload), \<open>cast\<close> is the
  database's reading of a UUID, \<open>now\<close> the time of the transaction in microseconds, \<open>fresh\<close> a new token.
\<close>

section \<open>Table\<close>

record queue_item =
  qi_id :: string
  qi_queue :: string
  qi_payload :: "(string, pyval) pydict"
  qi_tenant :: "string option"
  qi_created :: int
  qi_available :: int
  qi_attempts :: int
  qi_max :: int
  qi_error :: "string option"
  qi_token :: "string option"

record queue_row =
  qr_id :: string
  qr_queue :: string
  qr_payload :: "(string, pyval) pydict"
  qr_tenant :: "string option"
  qr_created :: int
  qr_available :: int
  qr_attempts :: int
  qr_max :: int
  qr_error :: "string option"
  qr_status :: string
  qr_worker :: "string option"
  qr_token :: "string option"
  qr_claimed_at :: "int option"
  qr_expires :: "int option"
  qr_completed :: "int option"

definition QUEUE_LEASE_SECONDS :: int where
  "QUEUE_LEASE_SECONDS = 300"

definition RETRY_DELAY_SECONDS :: int where
  "RETRY_DELAY_SECONDS = 30"

definition secs :: "int \<Rightarrow> int" where
  "secs n = n * 1000000"

text \<open>The error of a \<^verbatim>\<open>RepositoryResult\<close>: one of the method's own, or the text of an exception.\<close>

datatype queue_error = QueueError string | QueueException

section \<open>Methods\<close>

text \<open>
  The columns have the checks of the migration: \<^verbatim>\<open>attempts >= 0\<close> and \<^verbatim>\<open>max_attempts > 0\<close>. An empty
  tenant is \<^verbatim>\<open>NULL\<close>.
\<close>

definition cast_tenant :: "(string \<Rightarrow> string option) \<Rightarrow> string option \<Rightarrow> string option option" where
  "cast_tenant cast t = (case t of None \<Rightarrow> Some None | Some u \<Rightarrow> if u = [] then Some None else map_option Some (cast u))"

definition queue_enqueue ::
    "(string \<Rightarrow> string option) \<Rightarrow> bool \<Rightarrow> queue_item \<Rightarrow> queue_row list \<Rightarrow> (queue_error + string) \<times> queue_row list" where
  "queue_enqueue cast db it rows =
     (case cast_tenant cast (qi_tenant it) of
        None \<Rightarrow> (Inl QueueException, rows)
      | Some tenant \<Rightarrow>
          if \<not> db \<or> qi_id it \<in> qr_id ` set rows \<or> qi_attempts it < 0 \<or> qi_max it \<le> 0 then (Inl QueueException, rows)
          else (Inr (qi_id it), rows @ [\<lparr>qr_id = qi_id it, qr_queue = qi_queue it, qr_payload = qi_payload it,
                 qr_tenant = tenant, qr_created = qi_created it, qr_available = qi_available it,
                 qr_attempts = qi_attempts it, qr_max = qi_max it, qr_error = qi_error it, qr_status = ''pending'',
                 qr_worker = None, qr_token = None, qr_claimed_at = None, qr_expires = None, qr_completed = None\<rparr>]))"

text \<open>\<^verbatim>\<open>dequeue\<close>: the items whose last attempt has run out are given up, then the next item is claimed.\<close>

definition exhausted :: "int \<Rightarrow> string \<Rightarrow> queue_row \<Rightarrow> bool" where
  "exhausted now queue r \<longleftrightarrow> qr_queue r = queue \<and> qr_status r = ''processing'' \<and> sql_not_after (qr_expires r) now
     \<and> qr_attempts r \<ge> qr_max r"

definition no_claim :: "queue_row \<Rightarrow> queue_row" where
  "no_claim r = r\<lparr>qr_worker := None, qr_token := None, qr_claimed_at := None, qr_expires := None\<rparr>"

definition give_up :: "queue_row \<Rightarrow> queue_row" where
  "give_up r = (no_claim r)\<lparr>qr_status := ''dead_letter'',
     qr_error := (case qr_error r of None \<Rightarrow> Some ''claim lease expired after max attempts'' | Some e \<Rightarrow> Some e)\<rparr>"

definition claimable :: "int \<Rightarrow> string \<Rightarrow> queue_row \<Rightarrow> bool" where
  "claimable now queue r \<longleftrightarrow> qr_queue r = queue
     \<and> (qr_status r = ''pending'' \<or> qr_status r = ''processing'' \<and> sql_not_after (qr_expires r) now)
     \<and> qr_available r \<le> now \<and> qr_attempts r < qr_max r"

definition claim_item :: "int \<Rightarrow> string \<Rightarrow> string \<Rightarrow> queue_row \<Rightarrow> queue_row" where
  "claim_item now worker token r = r\<lparr>qr_status := ''processing'', qr_attempts := qr_attempts r + 1, qr_worker := Some worker,
     qr_token := Some token, qr_claimed_at := Some now, qr_expires := Some (now + secs QUEUE_LEASE_SECONDS)\<rparr>"

definition item_of :: "string \<Rightarrow> queue_row \<Rightarrow> queue_item" where
  "item_of token r = \<lparr>qi_id = qr_id r, qi_queue = qr_queue r, qi_payload = qr_payload r, qi_tenant = qr_tenant r,
     qi_created = qr_created r, qi_available = qr_available r, qi_attempts = qr_attempts r, qi_max = qr_max r,
     qi_error = qr_error r, qi_token = Some token\<rparr>"

definition next_claimable :: "int \<Rightarrow> string \<Rightarrow> queue_row list \<Rightarrow> queue_row option" where
  "next_claimable now queue rows =
     (case sort_by (\<lambda>r. (qr_available r, qr_created r)) (filter (claimable now queue) rows) of [] \<Rightarrow> None | r # _ \<Rightarrow> Some r)"

definition queue_dequeue ::
    "bool \<Rightarrow> int \<Rightarrow> string \<Rightarrow> string \<Rightarrow> string \<Rightarrow> queue_row list \<Rightarrow> (queue_error + queue_item option) \<times> queue_row list" where
  "queue_dequeue db now fresh queue worker rows =
     (if \<not> db then (Inl QueueException, rows)
      else let rows1 = update_where (exhausted now queue) give_up rows
           in case next_claimable now queue rows1 of
                None \<Rightarrow> (Inr None, rows1)
              | Some r \<Rightarrow> (Inr (Some (item_of fresh (claim_item now worker fresh r))),
                          update_where (\<lambda>q. qr_id q = qr_id r) (claim_item now worker fresh) rows1))"

text \<open>The guarded updates of a claimed item, and what they answer.\<close>

definition held_by :: "string \<Rightarrow> string \<Rightarrow> string \<Rightarrow> queue_row \<Rightarrow> bool" where
  "held_by queue x token r \<longleftrightarrow> qr_id r = x \<and> qr_queue r = queue \<and> qr_status r = ''processing'' \<and> qr_token r = Some token"

definition claim_update ::
    "(string \<Rightarrow> string option) \<Rightarrow> bool \<Rightarrow> string option \<Rightarrow> (string \<Rightarrow> queue_row \<Rightarrow> bool) \<Rightarrow> (queue_row \<Rightarrow> queue_row) \<Rightarrow>
     queue_row list \<Rightarrow> (queue_error + bool) \<times> queue_row list" where
  "claim_update cast db token P f rows =
     (if token = None \<or> token = Some [] then (Inl (QueueError ''claim_token is required''), rows)
      else case cast (the token) of
        None \<Rightarrow> (Inl QueueException, rows)
      | Some t \<Rightarrow> if \<not> db then (Inl QueueException, rows)
                  else (Inr (filter (P t) rows \<noteq> []), update_where (P t) f rows))"

definition queue_renew ::
    "(string \<Rightarrow> string option) \<Rightarrow> bool \<Rightarrow> int \<Rightarrow> string \<Rightarrow> string \<Rightarrow> string option \<Rightarrow> queue_row list \<Rightarrow>
     (queue_error + bool) \<times> queue_row list" where
  "queue_renew cast db now queue x token rows =
     claim_update cast db token (\<lambda>t r. held_by queue x t r \<and> sql_after (qr_expires r) now)
       (\<lambda>r. r\<lparr>qr_expires := Some (now + secs QUEUE_LEASE_SECONDS)\<rparr>) rows"

definition queue_ack ::
    "(string \<Rightarrow> string option) \<Rightarrow> bool \<Rightarrow> int \<Rightarrow> string \<Rightarrow> string \<Rightarrow> string option \<Rightarrow> queue_row list \<Rightarrow>
     (queue_error + bool) \<times> queue_row list" where
  "queue_ack cast db now queue x token rows =
     claim_update cast db token (held_by queue x)
       (\<lambda>r. (no_claim r)\<lparr>qr_status := ''completed'', qr_completed := Some now\<rparr>) rows"

definition put_back :: "int \<Rightarrow> string \<Rightarrow> queue_row \<Rightarrow> queue_row" where
  "put_back now error r = (no_claim r)\<lparr>
     qr_status := (if qr_attempts r \<ge> qr_max r then ''dead_letter'' else ''pending''),
     qr_available := (if qr_attempts r \<ge> qr_max r then qr_available r else now + secs RETRY_DELAY_SECONDS),
     qr_error := Some (take 4000 error)\<rparr>"

definition queue_nack ::
    "(string \<Rightarrow> string option) \<Rightarrow> bool \<Rightarrow> int \<Rightarrow> string \<Rightarrow> string \<Rightarrow> string \<Rightarrow> string option \<Rightarrow> queue_row list \<Rightarrow>
     (queue_error + bool) \<times> queue_row list" where
  "queue_nack cast db now queue x error token rows =
     claim_update cast db token (held_by queue x) (put_back now error) rows"

section \<open>Runs of the queue\<close>

datatype queue_op =
    QEnqueue bool queue_item
  | QDequeue bool int string string string
  | QRenew bool int string string "string option"
  | QAck bool int string string "string option"
  | QNack bool int string string string "string option"

fun queue_step :: "(string \<Rightarrow> string option) \<Rightarrow> queue_op \<Rightarrow> queue_row list \<Rightarrow> queue_row list" where
  "queue_step cast (QEnqueue db it) rows = snd (queue_enqueue cast db it rows)"
| "queue_step cast (QDequeue db now fresh queue worker) rows = snd (queue_dequeue db now fresh queue worker rows)"
| "queue_step cast (QRenew db now queue x token) rows = snd (queue_renew cast db now queue x token rows)"
| "queue_step cast (QAck db now queue x token) rows = snd (queue_ack cast db now queue x token rows)"
| "queue_step cast (QNack db now queue x error token) rows = snd (queue_nack cast db now queue x error token rows)"

fun queue_run :: "(string \<Rightarrow> string option) \<Rightarrow> queue_op list \<Rightarrow> queue_row list \<Rightarrow> queue_row list" where
  "queue_run cast [] rows = rows"
| "queue_run cast (op # ops) rows = queue_run cast ops (queue_step cast op rows)"

text \<open>How often an item is handed out.\<close>

definition hands_out :: "string \<Rightarrow> queue_op \<Rightarrow> queue_row list \<Rightarrow> nat" where
  "hands_out x op rows = (case op of
     QDequeue db now fresh queue worker \<Rightarrow>
       (case fst (queue_dequeue db now fresh queue worker rows) of Inr (Some it) \<Rightarrow> if qi_id it = x then 1 else 0 | _ \<Rightarrow> 0)
   | _ \<Rightarrow> 0)"

fun deliveries :: "(string \<Rightarrow> string option) \<Rightarrow> string \<Rightarrow> queue_op list \<Rightarrow> queue_row list \<Rightarrow> nat" where
  "deliveries cast x [] rows = 0"
| "deliveries cast x (op # ops) rows = hands_out x op rows + deliveries cast x ops (queue_step cast op rows)"

end
