(* ===== verification/WorkQueueLaws.thy ===== *)
theory WorkQueueLaws
  imports WorkQueue
begin

text \<open>
  What the work queue promises: a claimed item belongs to the worker that claimed it, no item is
  handed out more often than its number of attempts, and items come out in order.
\<close>

section \<open>Rows\<close>

definition queue_row_ok :: "queue_row \<Rightarrow> bool" where
  "queue_row_ok r \<longleftrightarrow> qr_status r \<in> {''pending'', ''processing'', ''completed'', ''dead_letter''}
     \<and> (qr_status r = ''processing'' \<longleftrightarrow> qr_token r \<noteq> None) \<and> (qr_token r = None \<longleftrightarrow> qr_expires r = None)
     \<and> 0 \<le> qr_attempts r \<and> 0 < qr_max r \<and> (qr_status r = ''processing'' \<longrightarrow> qr_attempts r \<le> qr_max r)"

abbreviation queue_ok :: "queue_row list \<Rightarrow> bool" where
  "queue_ok rows \<equiv> table_ok qr_id queue_row_ok rows"

abbreviation item_row :: "string \<Rightarrow> queue_row list \<Rightarrow> queue_row option" where
  "item_row x rows \<equiv> row_at qr_id x rows"

lemma change_id [simp]: "qr_id (give_up r) = qr_id r" "qr_id (claim_item now worker token r) = qr_id r"
    "qr_id (put_back now error r) = qr_id r" "qr_id (no_claim r) = qr_id r"
  by (simp_all add: give_up_def claim_item_def put_back_def no_claim_def)

lemma change_ok: "queue_row_ok r \<Longrightarrow> queue_row_ok (give_up r)"
    "queue_row_ok r \<Longrightarrow> qr_attempts r < qr_max r \<Longrightarrow> queue_row_ok (claim_item now worker token r)"
    "queue_row_ok r \<Longrightarrow> queue_row_ok (put_back now error r)"
    "queue_row_ok r \<Longrightarrow> queue_row_ok ((no_claim r)\<lparr>qr_status := ''completed'', qr_completed := Some now\<rparr>)"
    "queue_row_ok r \<Longrightarrow> qr_token r = Some t \<Longrightarrow> queue_row_ok (r\<lparr>qr_expires := Some e\<rparr>)"
  by (auto simp: queue_row_ok_def give_up_def claim_item_def put_back_def no_claim_def)

section \<open>Taking the next item\<close>

lemma next_claimable_Some:
  assumes "next_claimable now queue rows = Some r"
  shows "r \<in> set rows" "claimable now queue r"
    "\<forall>q \<in> set rows. claimable now queue q \<longrightarrow> (qr_available r, qr_created r) \<le> (qr_available q, qr_created q)"
proof -
  let ?k = "\<lambda>r. (qr_available r, qr_created r)"
  obtain rs where s: "sort_by ?k (filter (claimable now queue) rows) = r # rs"
    using assms by (auto simp: next_claimable_def split: list.splits)
  then have set: "set (r # rs) = set (filter (claimable now queue) rows)" by (metis set_sort_by)
  then show "r \<in> set rows" "claimable now queue r" by auto
  have "sorted (map ?k (r # rs))" using s by (metis sort_by_def sorted_sort_key)
  then have "\<forall>q \<in> set (r # rs). ?k r \<le> ?k q" by auto
  then show "\<forall>q \<in> set rows. claimable now queue q \<longrightarrow> ?k r \<le> ?k q" unfolding set by auto
qed

lemma next_claimable_None: "next_claimable now queue rows = None \<longleftrightarrow> (\<forall>q \<in> set rows. \<not> claimable now queue q)"
proof -
  let ?s = "sort_by (\<lambda>r. (qr_available r, qr_created r)) (filter (claimable now queue) rows)"
  have "next_claimable now queue rows = None \<longleftrightarrow> set ?s = {}"
    by (cases ?s) (simp_all add: next_claimable_def)
  then show ?thesis unfolding set_sort_by by (auto simp: filter_empty_conv)
qed

definition swept :: "int \<Rightarrow> string \<Rightarrow> queue_row \<Rightarrow> queue_row" where
  "swept now queue r = (if exhausted now queue r then give_up r else r)"

lemma swept_id [simp]: "qr_id (swept now queue r) = qr_id r"
  by (simp add: swept_def)

lemma sweep_row: "item_row x (update_where (exhausted now queue) give_up rows) = map_option (swept now queue) (item_row x rows)"
  by (simp add: row_simps swept_def [abs_def])

text \<open>What a successful \<^verbatim>\<open>dequeue\<close> does to a row.\<close>

lemma dequeue_row:
  assumes "queue_ok rows"
  shows "item_row x (snd (queue_dequeue db now fresh queue worker rows)) =
    (if \<not> db then item_row x rows
     else map_option (\<lambda>r. if hands_out x (QDequeue db now fresh queue worker) rows = 1
            then claim_item now worker fresh (swept now queue r) else swept now queue r) (item_row x rows))"
proof (cases db)
  case True
  show ?thesis
  proof (cases "next_claimable now queue (update_where (exhausted now queue) give_up rows)")
    case None
    then show ?thesis using True by (simp add: queue_dequeue_def Let_def hands_out_def sweep_row)
  next
    case (Some q)
    have "item_row x (snd (queue_dequeue db now fresh queue worker rows)) =
        map_option (\<lambda>r. if qr_id r = qr_id q then claim_item now worker fresh r else r) (map_option (swept now queue) (item_row x rows))"
      using True Some by (simp add: queue_dequeue_def Let_def row_simps sweep_row)
    moreover have "hands_out x (QDequeue db now fresh queue worker) rows = 1 \<longleftrightarrow> qr_id q = x"
      using True Some by (simp add: queue_dequeue_def Let_def hands_out_def item_of_def)
    ultimately show ?thesis using True by (cases "item_row x rows") (auto dest: row_at_SomeD)
  qed
qed (simp add: queue_dequeue_def)

lemma handed_out:
  assumes "queue_ok rows" "hands_out x (QDequeue db now fresh queue worker) rows \<noteq> 0"
  shows "db \<and> (\<exists>r. item_row x rows = Some r \<and> claimable now queue (swept now queue r))"
proof -
  obtain it where it: "fst (queue_dequeue db now fresh queue worker rows) = Inr (Some it)" "qi_id it = x"
    using assms(2) by (auto simp: hands_out_def split: sum.splits option.splits if_splits)
  then obtain q where db: db and q: "next_claimable now queue (update_where (exhausted now queue) give_up rows) = Some q"
    and x: "qr_id q = x" by (auto simp: queue_dequeue_def Let_def item_of_def split: if_splits option.splits)
  let ?rows = "update_where (exhausted now queue) give_up rows"
  have "queue_ok ?rows" by (rule table_update [OF assms(1)]) (auto intro: change_ok)
  then have "item_row x ?rows = Some q"
    using next_claimable_Some(1) [OF q] row_at_mem [of qr_id ?rows q] x by (simp add: table_ok_def)
  then show ?thesis using db next_claimable_Some(2) [OF q] by (auto simp: sweep_row)
qed

lemma hands_out_le: "hands_out x op rows \<le> 1"
  by (auto simp: hands_out_def split: queue_op.split sum.split option.split)

section \<open>The invariant\<close>

lemma claim_update_ok:
  assumes "queue_ok rows" "\<And>r. qr_id (f r) = qr_id r" "\<And>t r. queue_row_ok r \<Longrightarrow> P t r \<Longrightarrow> queue_row_ok (f r)"
  shows "queue_ok (snd (claim_update cast db token P f rows))"
proof -
  have "queue_ok (update_where (P t) f rows)" for t by (rule table_update [OF assms(1,2)]) (rule assms(3))
  then show ?thesis using assms(1) by (simp add: claim_update_def split: option.split)
qed

lemma dequeue_ok: "queue_ok rows \<Longrightarrow> queue_ok (snd (queue_dequeue db now fresh queue worker rows))"
proof -
  assume ok: "queue_ok rows"
  let ?rows = "update_where (exhausted now queue) give_up rows"
  have ok1: "queue_ok ?rows" by (rule table_update [OF ok]) (auto intro: change_ok)
  have "queue_ok (update_where (\<lambda>r. qr_id r = qr_id q) (claim_item now worker fresh) ?rows)"
    if q: "next_claimable now queue ?rows = Some q" for q
  proof -
    have "update_where (\<lambda>r. qr_id r = qr_id q) (claim_item now worker fresh) ?rows =
        update_where (\<lambda>r. r = q) (claim_item now worker fresh) ?rows"
      by (rule update_key [OF ok1 next_claimable_Some(1) [OF q]])
    moreover have "queue_ok (update_where (\<lambda>r. r = q) (claim_item now worker fresh) ?rows)"
      by (rule table_update [OF ok1]) (use next_claimable_Some(2) [OF q] in \<open>auto simp: claimable_def intro!: change_ok\<close>)
    ultimately show ?thesis by simp
  qed
  then show ?thesis using ok ok1 by (simp add: queue_dequeue_def Let_def split: option.split)
qed

lemma queue_step_ok: "queue_ok rows \<Longrightarrow> queue_ok (queue_step cast op rows)"
proof (cases op)
  case (QEnqueue db it)
  assume "queue_ok rows"
  then show ?thesis using QEnqueue
    by (auto simp: queue_enqueue_def intro!: table_insert split: option.split) (auto simp: queue_row_ok_def)
next
  case (QDequeue db now fresh queue worker)
  then show "queue_ok rows \<Longrightarrow> ?thesis" by (simp add: dequeue_ok)
next
  case (QRenew db now queue x token)
  then show "queue_ok rows \<Longrightarrow> ?thesis"
    by (auto simp: queue_renew_def held_by_def intro!: claim_update_ok intro: change_ok)
next
  case (QAck db now queue x token)
  then show "queue_ok rows \<Longrightarrow> ?thesis" by (simp add: queue_ack_def claim_update_ok change_ok)
next
  case (QNack db now queue x error token)
  then show "queue_ok rows \<Longrightarrow> ?thesis" by (simp add: queue_nack_def claim_update_ok change_ok)
qed

section \<open>Claims fence items\<close>

text \<open>Whether an operation presents the token of an item.\<close>

definition presents :: "(string \<Rightarrow> string option) \<Rightarrow> string option \<Rightarrow> string \<Rightarrow> bool" where
  "presents cast token t \<longleftrightarrow> (case token of None \<Rightarrow> False | Some u \<Rightarrow> u \<noteq> [] \<and> cast u = Some t)"

text \<open>
  Who may change an item: an ended one nobody, a claimed one the holder of its token or, once the
  claim has run out, a worker that asks its queue for work.
\<close>

definition item_entitled :: "(string \<Rightarrow> string option) \<Rightarrow> string \<Rightarrow> queue_row option \<Rightarrow> queue_op \<Rightarrow> bool" where
  "item_entitled cast x v op \<longleftrightarrow> (case v of None \<Rightarrow> True | Some r \<Rightarrow>
     if qr_status r = ''pending'' then True
     else if qr_status r = ''processing'' then
       (case op of QEnqueue db it \<Rightarrow> False
        | QDequeue db now fresh queue worker \<Rightarrow> sql_not_after (qr_expires r) now
        | QRenew db now queue y token \<Rightarrow> y = x \<and> presents cast token (the (qr_token r))
        | QAck db now queue y token \<Rightarrow> y = x \<and> presents cast token (the (qr_token r))
        | QNack db now queue y error token \<Rightarrow> y = x \<and> presents cast token (the (qr_token r)))
     else False)"

lemma claim_update_row:
  assumes "\<And>r. qr_id (f r) = qr_id r"
  shows "item_row x (snd (claim_update cast db token P f rows)) =
    map_option (\<lambda>r. if db \<and> (\<exists>t. presents cast token t \<and> P t r) then f r else r) (item_row x rows)"
  using assms by (cases "item_row x rows") (auto simp: claim_update_def presents_def row_simps split: option.split)

lemma queue_fence:
  assumes ok: "queue_ok rows" and v: "item_row x rows \<noteq> None" and ne: "\<not> item_entitled cast x (item_row x rows) op"
  shows "item_row x (queue_step cast op rows) = item_row x rows"
proof -
  obtain r where r: "item_row x rows = Some r" using v by blast
  have rok: "queue_row_ok r" "qr_id r = x" using table_row [OF ok r] by auto
  show ?thesis
  proof (cases op)
    case (QEnqueue db it)
    then show ?thesis using r by (simp add: queue_enqueue_def row_simps split: option.split)
  next
    case (QDequeue db now fresh queue worker)
    have "\<not> exhausted now queue r" "\<not> claimable now queue r"
      using ne r rok QDequeue by (auto simp: item_entitled_def exhausted_def claimable_def split: if_splits)
    then have "swept now queue r = r" "\<not> claimable now queue (swept now queue r)" by (simp_all add: swept_def)
    moreover have "hands_out x op rows = 0"
      using handed_out [OF ok, of x db now fresh queue worker] r QDequeue calculation(2) by auto
    ultimately show ?thesis using dequeue_row [OF ok, of x db now fresh queue worker] r QDequeue by (cases db) simp_all
  next
    case (QRenew db now queue y token)
    then show ?thesis using ne r rok
      by (auto simp: queue_renew_def claim_update_row held_by_def item_entitled_def split: if_splits)
  next
    case (QAck db now queue y token)
    then show ?thesis using ne r rok
      by (auto simp: queue_ack_def claim_update_row held_by_def item_entitled_def split: if_splits)
  next
    case (QNack db now queue y error token)
    then show ?thesis using ne r rok
      by (auto simp: queue_nack_def claim_update_row held_by_def item_entitled_def split: if_splits)
  qed
qed

interpretation work_queue: fenced_machine "queue_step cast" queue_ok item_row "\<lambda>x v. v \<noteq> None" "item_entitled cast" for cast
proof
  show "queue_ok rows \<Longrightarrow> queue_ok (queue_step cast op rows)" for op rows by (rule queue_step_ok)
  show "item_row x (queue_step cast op rows) = item_row x rows"
    if "queue_ok rows" "item_row x rows \<noteq> None" "\<not> item_entitled cast x (item_row x rows) op" for rows x op
    using that by (rule queue_fence)
qed

lemma queue_run_eq: "queue_run cast ops rows = work_queue.run cast ops rows"
  by (induction ops arbitrary: rows) simp_all

lemma queue_reachable_ok: "queue_ok (queue_run cast ops [])"
  unfolding queue_run_eq by (rule work_queue.inv_run) simp

section \<open>Attempts\<close>

lemma attempts_change [simp]: "qr_attempts (give_up r) = qr_attempts r" "qr_max (give_up r) = qr_max r"
    "qr_attempts (claim_item now w t r) = qr_attempts r + 1" "qr_max (claim_item now w t r) = qr_max r"
    "qr_attempts (put_back now e r) = qr_attempts r" "qr_max (put_back now e r) = qr_max r"
    "qr_attempts (no_claim r) = qr_attempts r" "qr_max (no_claim r) = qr_max r"
    "qr_attempts (swept now q r) = qr_attempts r" "qr_max (swept now q r) = qr_max r"
  by (simp_all add: give_up_def claim_item_def put_back_def no_claim_def swept_def)

text \<open>Every step counts as many attempts as it hands the item out, and hands out none when they are used up.\<close>

lemma step_attempts:
  assumes ok: "queue_ok rows" and r: "item_row x rows = Some r"
  shows "\<exists>r'. item_row x (queue_step cast op rows) = Some r' \<and> qr_max r' = qr_max r
    \<and> qr_attempts r' = qr_attempts r + int (hands_out x op rows) \<and> (hands_out x op rows = 0 \<or> qr_attempts r < qr_max r)"
proof (cases op)
  case (QEnqueue db it)
  then show ?thesis using r by (simp add: queue_enqueue_def row_simps hands_out_def split: option.split)
next
  case (QDequeue db now fresh queue worker)
  have "hands_out x op rows = 0 \<or> qr_attempts r < qr_max r"
    using handed_out [OF ok, of x db now fresh queue worker] r QDequeue by (auto simp: claimable_def)
  moreover have "hands_out x op rows = 0 \<or> hands_out x op rows = 1" using hands_out_le [of x op rows] by linarith
  moreover have "\<not> db \<Longrightarrow> hands_out x op rows = 0" using QDequeue by (simp add: hands_out_def queue_dequeue_def)
  ultimately show ?thesis using dequeue_row [OF ok, of x db now fresh queue worker] r QDequeue by (cases db) auto
next
  case (QRenew db now queue y token)
  then show ?thesis using r by (simp add: queue_renew_def claim_update_row hands_out_def)
next
  case (QAck db now queue y token)
  then show ?thesis using r by (simp add: queue_ack_def claim_update_row hands_out_def)
next
  case (QNack db now queue y error token)
  then show ?thesis using r by (simp add: queue_nack_def claim_update_row hands_out_def)
qed

lemma run_attempts:
  "queue_ok rows \<Longrightarrow> item_row x rows = Some r \<Longrightarrow>
   \<exists>r'. item_row x (queue_run cast ops rows) = Some r' \<and> qr_max r' = qr_max r
     \<and> qr_attempts r' = qr_attempts r + int (deliveries cast x ops rows)
     \<and> (deliveries cast x ops rows = 0 \<or> qr_attempts r' \<le> qr_max r)"
proof (induction ops arbitrary: rows r)
  case (Cons op ops)
  obtain r1 where r1: "item_row x (queue_step cast op rows) = Some r1" "qr_max r1 = qr_max r"
      "qr_attempts r1 = qr_attempts r + int (hands_out x op rows)" "hands_out x op rows = 0 \<or> qr_attempts r < qr_max r"
    using step_attempts [OF Cons.prems] by blast
  obtain r2 where "item_row x (queue_run cast ops (queue_step cast op rows)) = Some r2" "qr_max r2 = qr_max r1"
      "qr_attempts r2 = qr_attempts r1 + int (deliveries cast x ops (queue_step cast op rows))"
      "deliveries cast x ops (queue_step cast op rows) = 0 \<or> qr_attempts r2 \<le> qr_max r1"
    using Cons.IH [OF queue_step_ok [OF Cons.prems(1)] r1(1)] by blast
  then show ?case using r1 hands_out_le [of x op rows] by (intro exI [of _ r2]) auto
qed simp

lemma run_attempts_new:
  "queue_ok rows \<Longrightarrow> item_row x rows = None \<Longrightarrow>
   int (deliveries cast x ops rows) \<le> (case item_row x (queue_run cast ops rows) of None \<Rightarrow> 0 | Some r \<Rightarrow> qr_max r)"
proof (induction ops arbitrary: rows)
  case (Cons op ops)
  have ok: "queue_ok (queue_step cast op rows)" by (rule queue_step_ok [OF Cons.prems(1)])
  have none: "hands_out x op rows = 0"
    using handed_out [OF Cons.prems(1)] Cons.prems(2) by (cases op) (force simp: hands_out_def)+
  show ?case
  proof (cases "item_row x (queue_step cast op rows)")
    case None
    then show ?thesis using Cons.IH [OF ok] none by simp
  next
    case (Some r)
    obtain r' where "item_row x (queue_run cast ops (queue_step cast op rows)) = Some r'" "qr_max r' = qr_max r"
        "qr_attempts r' = qr_attempts r + int (deliveries cast x ops (queue_step cast op rows))"
        "deliveries cast x ops (queue_step cast op rows) = 0 \<or> qr_attempts r' \<le> qr_max r"
      using run_attempts [OF ok Some] by blast
    moreover have "0 \<le> qr_attempts r" "0 < qr_max r" using table_row [OF ok Some] by (simp_all add: queue_row_ok_def)
    ultimately show ?thesis using none by auto
  qed
qed simp

section \<open>What a worker gets\<close>

lemma dequeue_spec:
  assumes "queue_ok rows"
  shows "case fst (queue_dequeue True now fresh queue worker rows) of
      Inl e \<Rightarrow> False
    | Inr None \<Rightarrow> \<forall>q \<in> set rows. \<not> claimable now queue q
    | Inr (Some it) \<Rightarrow> (\<exists>r. item_row (qi_id it) rows = Some r \<and> claimable now queue r
        \<and> (\<forall>q \<in> set rows. claimable now queue q \<longrightarrow> (qr_available r, qr_created r) \<le> (qr_available q, qr_created q))
        \<and> it = item_of fresh (claim_item now worker fresh r)
        \<and> item_row (qi_id it) (snd (queue_dequeue True now fresh queue worker rows)) = Some (claim_item now worker fresh r))"
proof -
  let ?rows = "update_where (exhausted now queue) give_up rows"
  have ok1: "queue_ok ?rows" by (rule table_update [OF assms]) (auto intro: change_ok)
  have keep: "claimable now queue r \<Longrightarrow> swept now queue r = r" for r
    by (auto simp: claimable_def swept_def exhausted_def)
  have "swept now queue r = r" if "claimable now queue (swept now queue r)" for r
    using that by (auto simp: swept_def claimable_def give_up_def no_claim_def split: if_splits)
  moreover have "set ?rows = swept now queue ` set rows" by (simp add: update_where_def swept_def [abs_def])
  ultimately have same: "r \<in> set ?rows \<and> claimable now queue r \<longleftrightarrow> r \<in> set rows \<and> claimable now queue r" for r
    using keep [of r] by (auto intro: rev_image_eqI) (metis)
  show ?thesis
  proof (cases "next_claimable now queue ?rows")
    case None
    then show ?thesis using same next_claimable_None [of now queue ?rows] by (auto simp: queue_dequeue_def Let_def)
  next
    case (Some r)
    have r: "r \<in> set rows" "claimable now queue r" using next_claimable_Some(1,2) [OF Some] same by blast+
    have least: "\<forall>q \<in> set rows. claimable now queue q \<longrightarrow> (qr_available r, qr_created r) \<le> (qr_available q, qr_created q)"
      using next_claimable_Some(3) [OF Some] same by blast
    have at: "item_row (qr_id r) rows = Some r" using assms r(1) by (simp add: table_ok_def row_at_mem)
    let ?it = "item_of fresh (claim_item now worker fresh r)"
    have d: "queue_dequeue True now fresh queue worker rows =
        (Inr (Some ?it), update_where (\<lambda>q. qr_id q = qr_id r) (claim_item now worker fresh) ?rows)"
      using Some by (simp add: queue_dequeue_def Let_def)
    have id: "qi_id ?it = qr_id r" by (simp add: item_of_def)
    have "item_row (qr_id r) (snd (queue_dequeue True now fresh queue worker rows)) = Some (claim_item now worker fresh r)"
      by (simp add: d row_simps sweep_row at keep [OF r(2)])
    then show ?thesis using at r(2) least by (simp add: d id)
  qed
qed

section \<open>Properties\<close>

text \<open>
  C40: No poison loop: over any run of the queue an item is handed to workers at most max_attempts
  times, whatever the workers do with it and however their claims run out.
\<close>

theorem deliveries_bounded:
  "int (deliveries cast x ops []) \<le> (case item_row x (queue_run cast ops []) of None \<Rightarrow> 0 | Some r \<Rightarrow> qr_max r)"
  by (rule run_attempts_new) (simp_all add: row_simps)

text \<open>
  A queued item belongs to its claim: on every run of the queue, an item that was completed or given
  up never changes again, and a claimed one changes only by its token or, after the claim has
  run out, by a worker that asks for work.
\<close>

theorem queue_item_fenced:
  assumes "item_row x (queue_run cast ops []) = Some r" "\<forall>op \<in> set later. \<not> item_entitled cast x (Some r) op"
  shows "item_row x (queue_run cast (ops @ later) []) = Some r"
proof -
  let ?s = "queue_run cast ops []"
  have "item_row x (work_queue.run cast later ?s) = item_row x ?s"
    by (rule work_queue.fence_run [OF queue_reachable_ok]) (use assms in auto)
  then show ?thesis using assms(1) by (simp add: queue_run_eq work_queue.run_append)
qed

text \<open>
  A worker that asks for work gets the item of its queue that has been available longest among
  those that are free and have attempts left, claimed with the new token for the lease; it gets
  none exactly when there is no such item.
\<close>

theorem dequeue_takes_next:
  assumes "queue_ok rows"
  shows "case fst (queue_dequeue True now fresh queue worker rows) of
      Inl e \<Rightarrow> False
    | Inr None \<Rightarrow> \<forall>q \<in> set rows. \<not> claimable now queue q
    | Inr (Some it) \<Rightarrow> (\<exists>r. item_row (qi_id it) rows = Some r \<and> claimable now queue r
        \<and> (\<forall>q \<in> set rows. claimable now queue q \<longrightarrow> (qr_available r, qr_created r) \<le> (qr_available q, qr_created q))
        \<and> it = item_of fresh (claim_item now worker fresh r)
        \<and> item_row (qi_id it) (snd (queue_dequeue True now fresh queue worker rows)) = Some (claim_item now worker fresh r))"
  by (rule dequeue_spec [OF assms])

text \<open>
  A claim is honoured: whatever other workers do to the queue while the claim of a worker lasts,
  its acknowledgement is accepted, and the item stays completed on every run after it.
\<close>

theorem claim_is_honoured:
  assumes "queue_ok rows" "fst (queue_dequeue True now fresh queue worker rows) = Inr (Some it)"
    and "s = snd (queue_dequeue True now fresh queue worker rows)"
    and "cast fresh = Some fresh" "fresh \<noteq> []" "\<forall>op \<in> set others. \<not> item_entitled cast (qi_id it) (item_row (qi_id it) s) op"
  shows "fst (queue_ack cast True later (qi_queue it) (qi_id it) (Some fresh) (queue_run cast others s)) = Inr True
    \<and> map_option qr_status (item_row (qi_id it) (queue_run cast (others @ QAck True later (qi_queue it) (qi_id it) (Some fresh) # rest) s))
      = Some ''completed''"
proof -
  let ?x = "qi_id it" and ?t = "queue_run cast others s"
  let ?ack = "QAck True later (qi_queue it) ?x (Some fresh)"
  have oks: "queue_ok s" using dequeue_ok [OF assms(1)] assms(3) by simp
  obtain r where r: "item_row ?x s = Some (claim_item now worker fresh r)" "it = item_of fresh (claim_item now worker fresh r)"
    using dequeue_spec [OF assms(1), of now queue fresh worker] assms(2,3) by (auto split: sum.splits option.splits)
  let ?c = "claim_item now worker fresh r"
  have at: "item_row ?x ?t = Some ?c"
    using work_queue.fence_run [OF oks, of ?x others cast] assms(6) r(1) by (simp add: queue_run_eq)
  have okt: "queue_ok ?t" unfolding queue_run_eq by (rule work_queue.inv_run [OF oks])
  have held: "held_by (qi_queue it) ?x fresh ?c" using r(2) by (simp add: held_by_def claim_item_def item_of_def)
  then have "filter (held_by (qi_queue it) ?x fresh) ?t \<noteq> []"
    using at row_at_SomeD [OF at] by (auto simp: filter_empty_conv)
  then have acked: "fst (queue_ack cast True later (qi_queue it) ?x (Some fresh) ?t) = Inr True"
    using assms(4,5) by (simp add: queue_ack_def claim_update_def)
  let ?d = "(no_claim ?c)\<lparr>qr_status := ''completed'', qr_completed := Some later\<rparr>"
  have acked_row: "item_row ?x (queue_step cast ?ack ?t) = Some ?d"
    using at held assms(4,5) by (simp add: queue_ack_def claim_update_row presents_def)
  have oka: "queue_ok (queue_step cast ?ack ?t)" by (rule queue_step_ok [OF okt])
  have "item_row ?x (work_queue.run cast rest (queue_step cast ?ack ?t)) = Some ?d"
    using work_queue.fence_run [OF oka, of ?x rest cast] acked_row by (simp add: item_entitled_def)
  then show ?thesis using acked by (simp add: queue_run_eq work_queue.run_append)
qed

section \<open>Witnesses\<close>

definition sample_item :: queue_item where
  "sample_item = \<lparr>qi_id = ''i'', qi_queue = ''q'', qi_payload = [], qi_tenant = None, qi_created = 1, qi_available = 1,
     qi_attempts = 0, qi_max = 3, qi_error = None, qi_token = None\<rparr>"

definition sample_queue :: "queue_row list" where
  "sample_queue = queue_run Some [QEnqueue True sample_item] []"

lemma sample_queue_eq: "sample_queue = [\<lparr>qr_id = ''i'', qr_queue = ''q'', qr_payload = [], qr_tenant = None, qr_created = 1,
    qr_available = 1, qr_attempts = 0, qr_max = 3, qr_error = None, qr_status = ''pending'', qr_worker = None, qr_token = None,
    qr_claimed_at = None, qr_expires = None, qr_completed = None\<rparr>]"
  by (simp add: sample_queue_def sample_item_def queue_enqueue_def cast_tenant_def)

lemma sample_taken: "queue_dequeue True 5 ''t'' ''q'' ''w'' sample_queue =
    (Inr (Some (item_of ''t'' (claim_item 5 ''w'' ''t'' (hd sample_queue)))), [claim_item 5 ''w'' ''t'' (hd sample_queue)])"
  by (simp add: sample_queue_eq queue_dequeue_def update_where_def exhausted_def next_claimable_def claimable_def
      claim_item_def Let_def sort_by_def)

theorem queue_item_fenced_witness:
  "item_row ''i'' (queue_run Some ([QEnqueue True sample_item, QDequeue True 5 ''t'' ''q'' ''w''] @
     [QAck True 6 ''q'' ''i'' (Some ''u''), QDequeue True 7 ''v'' ''q'' ''w2'']) []) = Some (claim_item 5 ''w'' ''t'' (hd sample_queue))"
proof (rule queue_item_fenced)
  have "queue_run Some [QEnqueue True sample_item, QDequeue True 5 ''t'' ''q'' ''w''] []
      = snd (queue_dequeue True 5 ''t'' ''q'' ''w'' sample_queue)" by (simp add: sample_queue_def)
  then show "item_row ''i'' (queue_run Some [QEnqueue True sample_item, QDequeue True 5 ''t'' ''q'' ''w''] []) =
      Some (claim_item 5 ''w'' ''t'' (hd sample_queue))"
    unfolding sample_taken by (simp add: row_simps sample_queue_eq)
qed (simp add: item_entitled_def presents_def sample_queue_eq claim_item_def secs_def QUEUE_LEASE_SECONDS_def sql_not_after_def)

theorem dequeue_takes_next_witness:
  "\<exists>it. fst (queue_dequeue True 5 ''t'' ''q'' ''w'' sample_queue) = Inr (Some it) \<and> qi_id it = ''i''
     \<and> item_row (qi_id it) (snd (queue_dequeue True 5 ''t'' ''q'' ''w'' sample_queue)) = Some (claim_item 5 ''w'' ''t'' (hd sample_queue))"
proof -
  have "queue_ok sample_queue" by (simp add: sample_queue_eq table_ok_def queue_row_ok_def)
  from dequeue_takes_next [OF this, of 5 "''q''" "''t''" "''w''"] show ?thesis
    unfolding sample_taken by (auto simp: sample_queue_eq row_simps item_of_def claim_item_def split: if_splits)
qed

theorem claim_is_honoured_witness:
  "fst (queue_ack Some True 9 ''q'' ''i'' (Some ''t'') (queue_run Some [QDequeue True 7 ''v'' ''q'' ''w2'']
     (snd (queue_dequeue True 5 ''t'' ''q'' ''w'' sample_queue)))) = Inr True"
proof -
  let ?it = "item_of ''t'' (claim_item 5 ''w'' ''t'' (hd sample_queue))"
  have ok: "queue_ok sample_queue" by (simp add: sample_queue_eq table_ok_def queue_row_ok_def)
  have it: "qi_id ?it = ''i''" "qi_queue ?it = ''q''" by (simp_all add: item_of_def claim_item_def sample_queue_eq)
  show ?thesis
    using claim_is_honoured [OF ok, of 5 "''t''" "''q''" "''w''" ?it _ Some "[QDequeue True 7 ''v'' ''q'' ''w2'']" 9]
    unfolding it sample_taken
    by (simp add: row_simps item_entitled_def claim_item_def sample_queue_eq secs_def QUEUE_LEASE_SECONDS_def sql_not_after_def)
qed

end
