(* ===== verification/ClaimHeartbeat.thy ===== *)
theory ClaimHeartbeat
  imports StateMachines
begin

text \<open>
  Work under a claim, \<^verbatim>\<open>services/automation/claim_lease.py\<close>: an operation runs while heartbeats renew its
  claim; when a renewal fails the operation is cancelled. The saved tasks and the scheduler use it with
  their own renewals, so the renewal is an argument, and what it must keep is the interface \<open>claim_keeper\<close>.
\<close>

section \<open>The runner\<close>

text \<open>How the operation ends: with a result, an exception (its text), the cancellation of the caller, or a lost claim.\<close>

datatype 'r run_end = Finished 'r | Raised string | Cancelled | Lost

text \<open>A cancelled operation may raise an exception of its own (\<open>stop\<close>), which then replaces the reason.\<close>

definition stopped :: "string option \<Rightarrow> 'r run_end \<Rightarrow> 'r run_end" where
  "stopped stop e = (case stop of Some n \<Rightarrow> Raised n | None \<Rightarrow> e)"

text \<open>
  \<^verbatim>\<open>run_with_claim_heartbeat\<close>: \<open>beats\<close> are the waits that time out before the operation ends, \<open>ended\<close> is how it
  ends if nothing stops it. \<open>renew\<close> answers whether the claim is still held, or raises (\<open>Inl\<close>).
\<close>

fun claim_heartbeat :: "('b \<Rightarrow> 's \<Rightarrow> (string + bool) \<times> 's) \<Rightarrow> string option \<Rightarrow> 'r run_end \<Rightarrow> 'b list \<Rightarrow> 's \<Rightarrow> 'r run_end \<times> 's" where
  "claim_heartbeat renew stop ended [] s = ((case ended of Cancelled \<Rightarrow> stopped stop Cancelled | _ \<Rightarrow> ended), s)"
| "claim_heartbeat renew stop ended (b # bs) s =
     (case renew b s of
        (Inl e, s1) \<Rightarrow> (stopped stop (Raised e), s1)
      | (Inr False, s1) \<Rightarrow> (stopped stop Lost, s1)
      | (Inr True, s1) \<Rightarrow> claim_heartbeat renew stop ended bs s1)"

definition run_with_claim_heartbeat ::
    "('b \<Rightarrow> 's \<Rightarrow> (string + bool) \<times> 's) \<Rightarrow> int \<Rightarrow> string option \<Rightarrow> 'r run_end \<Rightarrow> 'b list \<Rightarrow> 's \<Rightarrow> 'r run_end \<times> 's" where
  "run_with_claim_heartbeat renew seconds stop ended bs s =
     (if seconds \<le> 0 then (Raised ''ValueError'', s) else claim_heartbeat renew stop ended bs s)"

lemma heartbeat_finished:
  "fst (run_with_claim_heartbeat renew seconds stop ended bs s) = Finished r \<Longrightarrow> ended = Finished r"
proof -
  have "fst (claim_heartbeat renew stop ended bs s) = Finished r \<Longrightarrow> ended = Finished r"
  proof (induction bs arbitrary: s)
    case (Cons b bs)
    then show ?case by (auto simp: stopped_def split: prod.splits sum.splits bool.splits option.splits)
  qed (auto simp: stopped_def split: run_end.splits option.splits)
  then show "fst (run_with_claim_heartbeat renew seconds stop ended bs s) = Finished r \<Longrightarrow> ended = Finished r"
    by (simp add: run_with_claim_heartbeat_def split: if_splits)
qed

text \<open>The caller's cancellation and the end of the operation pass through when every renewal succeeds.\<close>

lemma heartbeat_held:
  assumes "0 < seconds" "\<And>b s. b \<in> set bs \<Longrightarrow> J s \<Longrightarrow> fst (renew b s) = Inr True \<and> J (snd (renew b s))" "J s"
  shows "fst (run_with_claim_heartbeat renew seconds stop ended bs s) = (case ended of Cancelled \<Rightarrow> stopped stop Cancelled | _ \<Rightarrow> ended)
    \<and> J (snd (run_with_claim_heartbeat renew seconds stop ended bs s))"
proof -
  have "fst (claim_heartbeat renew stop ended bs s) = (case ended of Cancelled \<Rightarrow> stopped stop Cancelled | _ \<Rightarrow> ended)
      \<and> J (snd (claim_heartbeat renew stop ended bs s))" using assms(2,3)
  proof (induction bs arbitrary: s)
    case (Cons b bs)
    obtain s1 where r: "renew b s = (Inr True, s1)" "J s1" using Cons.prems(1) [of b s] Cons.prems(2) by (cases "renew b s") auto
    from Cons.IH [OF Cons.prems(1) r(2)] show ?case by (simp add: r(1))
  qed simp
  then show ?thesis using assms(1) by (simp add: run_with_claim_heartbeat_def)
qed

section \<open>What a renewal keeps\<close>

locale claim_keeper =
  fixes renew :: "'b \<Rightarrow> 's \<Rightarrow> (string + bool) \<times> 's"
    and fair :: "'b \<Rightarrow> bool"
    and inv :: "'s \<Rightarrow> bool"
  assumes renew_inv: "fair b \<Longrightarrow> inv s \<Longrightarrow> inv (snd (renew b s))"
begin

lemma keeps_inv: "\<forall>b \<in> set bs. fair b \<Longrightarrow> inv s \<Longrightarrow> inv (snd (run_with_claim_heartbeat renew seconds stop ended bs s))"
proof -
  have "\<forall>b \<in> set bs. fair b \<Longrightarrow> inv s \<Longrightarrow> inv (snd (claim_heartbeat renew stop ended bs s))"
  proof (induction bs arbitrary: s)
    case (Cons b bs)
    obtain res s1 where r: "renew b s = (res, s1)" by force
    with renew_inv [of b s] Cons.prems have "inv s1" by simp
    with Cons.IH [of s1] Cons.prems(1) show ?case by (auto simp: r split: sum.split bool.split)
  qed simp
  then show "\<forall>b \<in> set bs. fair b \<Longrightarrow> inv s \<Longrightarrow> inv (snd (run_with_claim_heartbeat renew seconds stop ended bs s))"
    by (simp add: run_with_claim_heartbeat_def)
qed

end

end
