(* ===== verification/QueueWorker.thy ===== *)
theory QueueWorker
  imports WorkQueueLaws ClaimHeartbeat
begin

text \<open>
  The worker of the automation queue: the heartbeat of a queue claim
  (\<^verbatim>\<open>services/automation/queue_lease.py\<close>), the execution of a claimed item and one turn of the worker's
  loop (\<^verbatim>\<open>api_routes/automation/cron.py\<close>). Other sessions apply any operations to the queue between the worker's
  calls. The lookup of the owner (\<open>resolve\<close>) and the execution of the target (\<open>exec\<close>) are
  arguments, \<open>rp\<close> prints a value as \<^verbatim>\<open>str\<close> does, \<open>wp_fault\<close> is the text of a database exception.
\<close>

section \<open>A claimed item\<close>

text \<open>\<^verbatim>\<open>_execute_claimed_queue_item\<close>; a missing key of the payload is a \<^verbatim>\<open>KeyError\<close> with the quoted key.\<close>

definition claimed_work ::
    "(pyval \<Rightarrow> string) \<Rightarrow> (string \<Rightarrow> string \<Rightarrow> 'p run_end) \<Rightarrow> ('p \<Rightarrow> string \<Rightarrow> string \<Rightarrow> string \<Rightarrow> unit run_end) \<Rightarrow> queue_item \<Rightarrow>
     string run_end" where
  "claimed_work rp resolve exec it =
     (let d = qi_payload it in
      case (dget d ''tenant_id'', dget d ''created_by'') of
        (None, _) \<Rightarrow> Raised (sq ''tenant_id'')
      | (Some _, None) \<Rightarrow> Raised (sq ''created_by'')
      | (Some tv, Some uv) \<Rightarrow>
          (let tenant = py_str rp tv in
           if qi_tenant it \<noteq> None \<and> qi_tenant it \<noteq> Some [] \<and> qi_tenant it \<noteq> Some tenant
           then Raised ''Queue tenant metadata mismatch''
           else case resolve tenant (py_str rp uv) of
             Finished p \<Rightarrow>
               (case (dget d ''job_type'', dget d ''target_id'') of
                  (None, _) \<Rightarrow> Raised (sq ''job_type'')
                | (Some _, None) \<Rightarrow> Raised (sq ''target_id'')
                | (Some kv, Some xv) \<Rightarrow>
                    map_run_end (\<lambda>_. tenant) (exec p (py_str rp kv) (py_str rp xv)
                      (py_str rp (py_or (vget d ''cron_id'' PNone) (PStr (qi_id it))))))
           | Raised e \<Rightarrow> Raised e | Cancelled \<Rightarrow> Cancelled | Lost \<Rightarrow> Lost))"

definition QUEUE_HEARTBEAT_SECONDS :: int where
  "QUEUE_HEARTBEAT_SECONDS = 60"

record queue_beat =
  qb_others :: "queue_op list"
  qb_db :: bool
  qb_now :: int

definition renew_queue_beat ::
    "(string \<Rightarrow> string option) \<Rightarrow> string \<Rightarrow> string \<Rightarrow> string \<Rightarrow> queue_beat \<Rightarrow> queue_row list \<Rightarrow> (string + bool) \<times> queue_row list" where
  "renew_queue_beat cast queue x token b s =
     map_prod (\<lambda>r. Inr (r = Inr True)) id
       (queue_renew cast (qb_db b) (qb_now b) queue x (Some token) (queue_run cast (qb_others b) s))"

text \<open>\<^verbatim>\<open>run_with_queue_claim_heartbeat\<close>.\<close>

definition work_under_claim ::
    "(string \<Rightarrow> string option) \<Rightarrow> queue_item \<Rightarrow> string option \<Rightarrow> 'r run_end \<Rightarrow> queue_beat list \<Rightarrow> queue_row list \<Rightarrow>
     'r run_end \<times> queue_row list" where
  "work_under_claim cast it stop ended bs s =
     (let token = (case qi_token it of None \<Rightarrow> [] | Some t \<Rightarrow> strip t)
      in if token = [] then (Raised ''Queue item has no claim token'', s)
         else run_with_claim_heartbeat (renew_queue_beat cast (qi_queue it) (qi_id it) token) QUEUE_HEARTBEAT_SECONDS stop ended bs s)"

section \<open>A turn of the worker\<close>

datatype turn_result = TurnFailed | TurnIdle | TurnDone | TurnRetried bool | TurnCancelled

record worker_plan =
  wp_db :: bool
  wp_now :: int
  wp_fresh :: string
  wp_worker :: string
  wp_beats :: "queue_beat list"
  wp_stop :: "string option"
  wp_final :: "queue_op list"
  wp_db_ack :: bool
  wp_ack_now :: int
  wp_fault :: string
  wp_between :: "queue_op list"
  wp_db_nack :: bool
  wp_nack_now :: int

definition return_item ::
    "(string \<Rightarrow> string option) \<Rightarrow> worker_plan \<Rightarrow> queue_item \<Rightarrow> string \<Rightarrow> queue_row list \<Rightarrow> turn_result \<times> queue_row list" where
  "return_item cast pl it problem s =
     map_prod (\<lambda>r. TurnRetried (r = Inr True)) id
       (queue_nack cast (wp_db_nack pl) (wp_nack_now pl) (qi_queue it) (qi_id it) problem (qi_token it) (queue_run cast (wp_between pl) s))"

text \<open>The text of the error that replaces a failed acknowledgement.\<close>

definition ack_problem :: "string \<Rightarrow> queue_error + bool \<Rightarrow> string" where
  "ack_problem fault r =
     (let m = (case r of Inl (QueueError e) \<Rightarrow> e | Inl QueueException \<Rightarrow> fault | Inr _ \<Rightarrow> [])
      in if m = [] then ''Queue acknowledgement claim was lost'' else m)"

definition settle_item ::
    "(string \<Rightarrow> string option) \<Rightarrow> worker_plan \<Rightarrow> queue_item \<Rightarrow> string run_end \<Rightarrow> queue_row list \<Rightarrow> turn_result \<times> queue_row list" where
  "settle_item cast pl it ended s =
     (case ended of
        Cancelled \<Rightarrow> (TurnCancelled, s)
      | Raised e \<Rightarrow> return_item cast pl it e s
      | Lost \<Rightarrow> return_item cast pl it ''Queue processing claim could not be renewed'' s
      | Finished _ \<Rightarrow>
          (case queue_ack cast (wp_db_ack pl) (wp_ack_now pl) (qi_queue it) (qi_id it) (qi_token it) s of
             (Inr True, s1) \<Rightarrow> (TurnDone, s1)
           | (r, s1) \<Rightarrow> return_item cast pl it (ack_problem (wp_fault pl) r) s1))"

definition worker_turn ::
    "(pyval \<Rightarrow> string) \<Rightarrow> (string \<Rightarrow> string \<Rightarrow> 'p run_end) \<Rightarrow> ('p \<Rightarrow> string \<Rightarrow> string \<Rightarrow> string \<Rightarrow> unit run_end) \<Rightarrow>
     (string \<Rightarrow> string option) \<Rightarrow> worker_plan \<Rightarrow> queue_row list \<Rightarrow> turn_result \<times> queue_row list" where
  "worker_turn rp resolve exec cast pl s =
     (case queue_dequeue (wp_db pl) (wp_now pl) (wp_fresh pl) ''automation'' (wp_worker pl) s of
        (Inl e, s1) \<Rightarrow> (TurnFailed, s1)
      | (Inr None, s1) \<Rightarrow> (TurnIdle, s1)
      | (Inr (Some it), s1) \<Rightarrow>
          (let (ended, s2) = work_under_claim cast it (wp_stop pl) (claimed_work rp resolve exec it) (wp_beats pl) s1
           in settle_item cast pl it ended (queue_run cast (wp_final pl) s2)))"

section \<open>The claim of a turn\<close>

text \<open>As long as an item carries the token, it is the item the token was given for, in the same attempt.\<close>

definition same_attempt :: "string \<Rightarrow> queue_row \<Rightarrow> queue_row option \<Rightarrow> bool" where
  "same_attempt tok r0 v \<longleftrightarrow> (\<forall>r. v = Some r \<longrightarrow> qr_token r = Some tok \<longrightarrow>
     qr_attempts r = qr_attempts r0 \<and> qr_max r = qr_max r0 \<and> qr_payload r = qr_payload r0 \<and> qr_tenant r = qr_tenant r0
     \<and> qr_available r = qr_available r0)"

text \<open>An operation of another session does not claim with this token.\<close>

definition other_claim :: "string \<Rightarrow> queue_op \<Rightarrow> bool" where
  "other_claim tok op \<longleftrightarrow> (case op of QDequeue db now fresh queue worker \<Rightarrow> fresh \<noteq> tok | _ \<Rightarrow> True)"

lemma attempt_update:
  assumes "same_attempt tok r0 (item_row x s)" "\<And>r. qr_id (f r) = qr_id r"
    and "\<And>r. same_attempt tok r0 (Some r) \<Longrightarrow> same_attempt tok r0 (Some (f r))"
  shows "same_attempt tok r0 (item_row x (snd (claim_update cast db token P f s)))"
  using assms(1,3) by (auto simp: claim_update_row [OF assms(2)] same_attempt_def split: option.splits if_splits)

lemma attempt_step:
  assumes "queue_ok s" "other_claim tok op" "same_attempt tok r0 (item_row x s)"
  shows "same_attempt tok r0 (item_row x (queue_step cast op s))"
proof (cases op)
  case (QEnqueue db it)
  then show ?thesis using assms(3)
    by (auto simp: queue_enqueue_def row_simps same_attempt_def split: option.splits)
next
  case (QDequeue db now fresh queue worker)
  have "same_attempt tok r0 (Some (swept now queue r))" if "same_attempt tok r0 (Some r)" for r
    using that by (simp add: swept_def give_up_def no_claim_def same_attempt_def)
  moreover have "same_attempt tok r0 (Some (claim_item now worker fresh r))" for r
    using assms(2) QDequeue by (simp add: other_claim_def claim_item_def same_attempt_def)
  ultimately show ?thesis using assms(3) unfolding QDequeue queue_step.simps dequeue_row [OF assms(1)]
    by (cases "item_row x s") auto
next
  case (QRenew db now queue y token)
  then show ?thesis unfolding QRenew queue_step.simps queue_renew_def
    by (intro attempt_update assms(3)) (auto simp: same_attempt_def)
next
  case (QAck db now queue y token)
  then show ?thesis unfolding QAck queue_step.simps queue_ack_def
    by (intro attempt_update assms(3)) (auto simp: same_attempt_def no_claim_def)
next
  case (QNack db now queue y error token)
  then show ?thesis unfolding QNack queue_step.simps queue_nack_def
    by (intro attempt_update assms(3)) (auto simp: same_attempt_def no_claim_def put_back_def)
qed

definition claim_intact :: "string \<Rightarrow> queue_row \<Rightarrow> string \<Rightarrow> queue_row list \<Rightarrow> bool" where
  "claim_intact tok r0 x s \<longleftrightarrow> queue_ok s \<and> same_attempt tok r0 (item_row x s)"

lemma intact_step: "other_claim tok op \<Longrightarrow> claim_intact tok r0 x s \<Longrightarrow> claim_intact tok r0 x (queue_step cast op s)"
  by (simp add: claim_intact_def attempt_step queue_step_ok)

lemma intact_run: "\<forall>op \<in> set ops. other_claim tok op \<Longrightarrow> claim_intact tok r0 x s \<Longrightarrow> claim_intact tok r0 x (queue_run cast ops s)"
  by (induction ops arbitrary: s) (simp_all add: intact_step)

interpretation queue_claim: claim_keeper "renew_queue_beat cast queue y token" "\<lambda>b. \<forall>op \<in> set (qb_others b). other_claim tok op"
    "claim_intact tok r0 x" for cast queue y token tok r0 x
proof
  fix b :: queue_beat and s
  assume f: "\<forall>op \<in> set (qb_others b). other_claim tok op" and s: "claim_intact tok r0 x s"
  have "snd (renew_queue_beat cast queue y token b s) = queue_step cast (QRenew (qb_db b) (qb_now b) queue y (Some token)) (queue_run cast (qb_others b) s)"
    by (simp add: renew_queue_beat_def)
  then show "claim_intact tok r0 x (snd (renew_queue_beat cast queue y token b s))"
    using intact_run [OF f s] by (simp add: intact_step other_claim_def del: queue_step.simps)
qed

section \<open>What a turn leaves behind\<close>

lemma held_update:
  assumes "claim_update cast db (Some tok) (held_by queue x) f s = (Inr True, s1)" "claim_intact tok r0 x s" "cast tok = Some tok"
    and "\<And>r. qr_id (f r) = qr_id r"
  shows "\<exists>r. item_row x s = Some r \<and> item_row x s1 = Some (f r) \<and> qr_attempts r = qr_attempts r0 \<and> qr_max r = qr_max r0
    \<and> qr_payload r = qr_payload r0"
proof -
  have u: "filter (held_by queue x tok) s \<noteq> []" "s1 = update_where (held_by queue x tok) f s"
    using assms(1,3) by (auto simp: claim_update_def split: if_splits)
  then obtain r where r: "r \<in> set s" "held_by queue x tok r" by (auto simp: filter_empty_conv)
  have "distinct (map qr_id s)" using assms(2) by (simp add: claim_intact_def table_ok_def)
  then have "item_row x s = Some r" using row_at_mem [of qr_id s r] r by (simp add: held_by_def)
  moreover from this have "item_row x s1 = Some (f r)" using r(2) assms(4) by (simp add: u(2) row_simps)
  ultimately show ?thesis using assms(2) r(2) by (auto simp: claim_intact_def same_attempt_def held_by_def)
qed

text \<open>The end of an item, against the row \<open>r0\<close> its claim was given for.\<close>

definition completed_as :: "queue_row \<Rightarrow> queue_row option \<Rightarrow> bool" where
  "completed_as r0 v \<longleftrightarrow> (\<exists>r. v = Some r \<and> qr_status r = ''completed'' \<and> qr_attempts r = qr_attempts r0 \<and> qr_payload r = qr_payload r0)"

definition returned_as :: "int \<Rightarrow> queue_row \<Rightarrow> queue_row option \<Rightarrow> bool" where
  "returned_as now r0 v \<longleftrightarrow> (\<exists>r. v = Some r \<and> qr_token r = None \<and> qr_attempts r = qr_attempts r0 \<and> qr_payload r = qr_payload r0
     \<and> (if qr_attempts r0 \<ge> qr_max r0 then qr_status r = ''dead_letter''
        else qr_status r = ''pending'' \<and> qr_available r = now + secs RETRY_DELAY_SECONDS))"

lemma returned_item:
  assumes "return_item cast pl it problem s = (TurnRetried True, s1)" "claim_intact tok r0 (qi_id it) s" "cast tok = Some tok" "qi_token it = Some tok"
    and "\<forall>op \<in> set (wp_between pl). other_claim tok op"
  shows "returned_as (wp_nack_now pl) r0 (item_row (qi_id it) s1)"
proof -
  have "claim_update cast (wp_db_nack pl) (Some tok) (held_by (qi_queue it) (qi_id it)) (put_back (wp_nack_now pl) problem)
      (queue_run cast (wp_between pl) s) = (Inr True, s1)"
    using assms(1) unfolding return_item_def queue_nack_def assms(4)
    by (cases "claim_update cast (wp_db_nack pl) (Some tok) (held_by (qi_queue it) (qi_id it)) (put_back (wp_nack_now pl) problem)
      (queue_run cast (wp_between pl) s)") auto
  from held_update [OF this intact_run [OF assms(5,2)] assms(3)] show ?thesis
    by (auto simp: returned_as_def put_back_def no_claim_def)
qed

lemma settled_item:
  assumes "settle_item cast pl it ended s = (res, s1)" "claim_intact tok r0 (qi_id it) s" "cast tok = Some tok" "qi_token it = Some tok"
    and "\<forall>op \<in> set (wp_between pl). other_claim tok op"
  shows "(res = TurnDone \<longrightarrow> (\<exists>t. ended = Finished t) \<and> completed_as r0 (item_row (qi_id it) s1))
    \<and> (res = TurnRetried True \<longrightarrow> returned_as (wp_nack_now pl) r0 (item_row (qi_id it) s1))"
proof (cases "\<exists>t. ended = Finished t")
  case True
  then obtain t where t: "ended = Finished t" by blast
  obtain a s2 where a: "queue_ack cast (wp_db_ack pl) (wp_ack_now pl) (qi_queue it) (qi_id it) (Some tok) s = (a, s2)" by force
  have step: "s2 = queue_step cast (QAck (wp_db_ack pl) (wp_ack_now pl) (qi_queue it) (qi_id it) (Some tok)) s" by (simp add: a)
  have i2: "claim_intact tok r0 (qi_id it) s2" unfolding step by (rule intact_step [OF _ assms(2)]) (simp add: other_claim_def)
  show ?thesis
  proof (cases "a = Inr True")
    case True
    then have "res = TurnDone" "s1 = s2" using assms(1) by (simp_all add: settle_item_def t assms(4) a)
    moreover have "completed_as r0 (item_row (qi_id it) s2)"
      using held_update [OF a [unfolded True queue_ack_def] assms(2,3)] by (auto simp: completed_as_def no_claim_def)
    ultimately show ?thesis using t by simp
  next
    case False
    then have r: "return_item cast pl it (ack_problem (wp_fault pl) a) s2 = (res, s1)"
      using assms(1) by (auto simp: settle_item_def t assms(4) a split: sum.splits bool.splits)
    then have "res \<noteq> TurnDone" by (auto simp: return_item_def map_prod_def split: prod.splits)
    moreover have "res = TurnRetried True \<Longrightarrow> returned_as (wp_nack_now pl) r0 (item_row (qi_id it) s1)"
      using r i2 assms(3-5) by (auto intro: returned_item)
    ultimately show ?thesis by simp
  qed
next
  case False
  then have n: "res \<noteq> TurnDone" using assms(1)
    by (auto simp: settle_item_def return_item_def map_prod_def split: run_end.splits prod.splits)
  have "res = TurnRetried True \<Longrightarrow> \<exists>problem. return_item cast pl it problem s = (res, s1)"
    using assms(1) False by (auto simp: settle_item_def split: run_end.splits)
  then have "res = TurnRetried True \<Longrightarrow> returned_as (wp_nack_now pl) r0 (item_row (qi_id it) s1)"
    using assms(2-5) returned_item by blast
  then show ?thesis using n by simp
qed

lemma map_Finished: "map_run_end f e = Finished t \<longleftrightarrow> (\<exists>v. e = Finished v \<and> t = f v)"
  by (cases e) auto

lemma claimed_tenant:
  "claimed_work rp resolve exec it = Finished t \<Longrightarrow> qi_tenant it = None \<or> qi_tenant it = Some [] \<or> qi_tenant it = Some t"
  by (auto simp: claimed_work_def Let_def map_Finished split: option.splits if_splits run_end.splits)

lemma work_intact:
  assumes "\<forall>b \<in> set bs. \<forall>op \<in> set (qb_others b). other_claim tok op" "claim_intact tok r0 x s"
  shows "claim_intact tok r0 x (snd (work_under_claim cast it stop ended bs s))"
  by (simp add: work_under_claim_def Let_def assms(2) queue_claim.keeps_inv [OF assms])

lemma work_finished: "fst (work_under_claim cast it stop ended bs s) = Finished t \<Longrightarrow> ended = Finished t"
  by (auto simp: work_under_claim_def Let_def intro: heartbeat_finished split: if_splits)

definition turn_others :: "worker_plan \<Rightarrow> queue_op list" where
  "turn_others pl = concat (map qb_others (wp_beats pl)) @ wp_final pl @ wp_between pl"

text \<open>
  C36: A turn of the worker settles exactly the delivery it took, whatever other sessions do to the queue
  meanwhile: it reports an item done only if the work succeeded for the tenant of the item, and then the
  item is completed in this very attempt; and if it reports a failed item returned, that attempt is
  pending again after the delay, or dead once the attempts are used up.
\<close>

theorem worker_turn_settles:
  assumes "worker_turn rp resolve exec cast pl (queue_run cast ops []) = (res, s')" "cast (wp_fresh pl) = Some (wp_fresh pl)"
    and "\<forall>op \<in> set (turn_others pl). other_claim (wp_fresh pl) op" "res = TurnDone \<or> res = TurnRetried True"
  shows "\<exists>it r0. item_row (qi_id it) (queue_run cast ops []) = Some r0 \<and> claimable (wp_now pl) ''automation'' r0
    \<and> it = item_of (wp_fresh pl) (claim_item (wp_now pl) (wp_worker pl) (wp_fresh pl) r0)
    \<and> (if res = TurnDone
       then (\<exists>t. claimed_work rp resolve exec it = Finished t \<and> (qi_tenant it = None \<or> qi_tenant it = Some [] \<or> qi_tenant it = Some t))
         \<and> completed_as (r0\<lparr>qr_attempts := qr_attempts r0 + 1\<rparr>) (item_row (qi_id it) s')
       else returned_as (wp_nack_now pl) (r0\<lparr>qr_attempts := qr_attempts r0 + 1\<rparr>) (item_row (qi_id it) s'))"
proof -
  let ?s = "queue_run cast ops []" and ?tok = "wp_fresh pl"
  let ?d = "queue_dequeue (wp_db pl) (wp_now pl) ?tok ''automation'' (wp_worker pl) ?s"
  obtain it s1 where d: "?d = (Inr (Some it), s1)" using assms(1,4) by (auto simp: worker_turn_def split: prod.splits sum.splits option.splits)
  then have db: "wp_db pl" by (auto simp: queue_dequeue_def split: if_splits)
  obtain r0 where r0: "item_row (qi_id it) ?s = Some r0" "claimable (wp_now pl) ''automation'' r0"
    and it: "it = item_of ?tok (claim_item (wp_now pl) (wp_worker pl) ?tok r0)"
    and r1: "item_row (qi_id it) s1 = Some (claim_item (wp_now pl) (wp_worker pl) ?tok r0)"
    using dequeue_spec [OF queue_reachable_ok [of cast ops], where now = "wp_now pl" and fresh = ?tok and queue = "''automation''" and worker = "wp_worker pl"] d db by auto
  let ?r1 = "r0\<lparr>qr_attempts := qr_attempts r0 + 1\<rparr>"
  have "queue_ok (queue_step cast (QDequeue (wp_db pl) (wp_now pl) ?tok ''automation'' (wp_worker pl)) ?s)"
    by (intro queue_step_ok queue_reachable_ok)
  then have "queue_ok s1" by (simp add: d)
  then have i1: "claim_intact ?tok ?r1 (qi_id it) s1" using r1 by (simp add: claim_intact_def same_attempt_def claim_item_def)
  obtain ended s2 where w: "work_under_claim cast it (wp_stop pl) (claimed_work rp resolve exec it) (wp_beats pl) s1 = (ended, s2)" by force
  have f: "\<forall>b \<in> set (wp_beats pl). \<forall>op \<in> set (qb_others b). other_claim ?tok op" "\<forall>op \<in> set (wp_final pl). other_claim ?tok op"
    "\<forall>op \<in> set (wp_between pl). other_claim ?tok op" using assms(3) by (auto simp: turn_others_def)
  have "claim_intact ?tok ?r1 (qi_id it) s2"
    using work_intact [OF f(1) i1, of cast it "wp_stop pl" "claimed_work rp resolve exec it"] by (simp add: w)
  note i3 = intact_run [OF f(2) this]
  have st: "settle_item cast pl it ended (queue_run cast (wp_final pl) s2) = (res, s')"
    using assms(1) by (simp add: worker_turn_def d w)
  have tok: "qi_token it = Some ?tok" by (simp add: it item_of_def)
  have fin: "ended = Finished t \<Longrightarrow> claimed_work rp resolve exec it = Finished t" for t
    by (rule work_finished [of cast it "wp_stop pl" _ "wp_beats pl" s1]) (simp add: w)
  note settled = settled_item [OF st i3 assms(2) tok f(3)]
  have "\<exists>t. claimed_work rp resolve exec it = Finished t \<and> (qi_tenant it = None \<or> qi_tenant it = Some [] \<or> qi_tenant it = Some t)"
    if dn: "res = TurnDone"
  proof -
    obtain t where "ended = Finished t" using settled dn by blast
    from claimed_tenant [OF fin [OF this]] fin [OF this] show ?thesis by blast
  qed
  then have "if res = TurnDone
       then (\<exists>t. claimed_work rp resolve exec it = Finished t \<and> (qi_tenant it = None \<or> qi_tenant it = Some [] \<or> qi_tenant it = Some t))
         \<and> completed_as ?r1 (item_row (qi_id it) s')
       else returned_as (wp_nack_now pl) ?r1 (item_row (qi_id it) s')" using settled assms(4) by (cases "res = TurnDone") auto
  then show ?thesis using r0 it by blast
qed

section \<open>Witness\<close>

definition sample_work :: queue_item where
  "sample_work = \<lparr>qi_id = ''i'', qi_queue = ''automation'', qi_payload = [(''tenant_id'', PStr ''w''), (''created_by'', PStr ''u''),
     (''job_type'', PStr ''Task''), (''target_id'', PStr ''x'')], qi_tenant = Some ''w'', qi_created = 1, qi_available = 1,
     qi_attempts = 0, qi_max = 3, qi_error = None, qi_token = None\<rparr>"

definition sample_turn :: worker_plan where
  "sample_turn = \<lparr>wp_db = True, wp_now = 5, wp_fresh = ''t'', wp_worker = ''k'', wp_beats = [], wp_stop = None,
     wp_final = [QDequeue True 6 ''v'' ''automation'' ''k2''], wp_db_ack = True, wp_ack_now = 9, wp_fault = [], wp_between = [],
     wp_db_nack = True, wp_nack_now = 9\<rparr>"

lemma sample_turn_done:
  "fst (worker_turn (\<lambda>_. []) (\<lambda>_ _. Finished ()) (\<lambda>_ _ _ _. Finished ()) Some sample_turn (queue_run Some [QEnqueue True sample_work] [])) = TurnDone"
  by code_simp

theorem worker_turn_settles_witness:
  "\<exists>it :: queue_item. completed_as ((hd (queue_run Some [QEnqueue True sample_work] []))\<lparr>qr_attempts := 1\<rparr>) (item_row (qi_id it)
     (snd (worker_turn (\<lambda>_. []) (\<lambda>_ _. Finished ()) (\<lambda>_ _ _ _. Finished ()) Some sample_turn (queue_run Some [QEnqueue True sample_work] []))))"
proof -
  let ?s = "queue_run Some [QEnqueue True sample_work] []"
  let ?w = "worker_turn (\<lambda>_. []) (\<lambda>_ _. Finished ()) (\<lambda>_ _ _ _. Finished ()) Some sample_turn ?s"
  have w: "?w = (TurnDone, snd ?w)" using sample_turn_done by (metis prod.collapse)
  have o: "\<forall>op \<in> set (turn_others sample_turn). other_claim (wp_fresh sample_turn) op"
    by (simp add: turn_others_def sample_turn_def other_claim_def)
  have d: "TurnDone = TurnDone \<or> TurnDone = TurnRetried True" by simp
  obtain it :: queue_item and r0 :: queue_row where r: "item_row (qi_id it) ?s = Some r0" "completed_as (r0\<lparr>qr_attempts := qr_attempts r0 + 1\<rparr>) (item_row (qi_id it) (snd ?w))"
    using worker_turn_settles [OF w refl o d, unfolded if_P [OF refl]] by blast
  have "?s = [r0]" "qr_attempts r0 = 0" using r(1)
    by (auto simp: sample_work_def queue_enqueue_def cast_tenant_def row_simps split: if_splits)
  then have "r0 = hd ?s" "qr_attempts r0 = 0" by (simp_all del: queue_run.simps)
  with r(2) show ?thesis by (intro exI [of _ it]) (simp del: queue_run.simps)
qed

end
