(* ===== verification/AutomationTasks.thy ===== *)
theory AutomationTasks
  imports Wire Tables
begin

text \<open>
  The saved tasks of the automations: the task methods of \<^verbatim>\<open>SqlAutomationRepository\<close>
  (\<^verbatim>\<open>persistence/repositories/automation_repository.py\<close>), with the review events that
  \<^verbatim>\<open>review_task\<close> appends in its transaction (\<^verbatim>\<open>core/runtime/outcome/store.py\<close>). A UUID column holds the
  canonical text, a JSON column the value. Each method is one transaction at \<open>now\<close>, the
  database's \<^verbatim>\<open>clock_timestamp()\<close> is \<open>clk\<close>; a failing one leaves the tables as they were, and \<open>db\<close> says
  whether it runs at all (connection and foreign keys).
\<close>

section \<open>Rows\<close>

record task_def =
  td_id :: string
  td_name :: string
  td_description :: string
  td_acceptance :: string
  td_contract :: "(string, pyval) pydict"
  td_agent :: string
  td_instructions :: string
  td_type :: string
  td_subs :: "pyval list"

record task_row =
  tk_def :: task_def
  tk_tenant :: string
  tk_owner :: string
  tk_status :: string
  tk_last_run :: "int option"
  tk_error :: "string option"
  tk_runs :: int
  tk_runtime :: "string option"
  tk_execution :: "string option"
  tk_receipt :: "(string, pyval) pydict"
  tk_reviewed_at :: "int option"
  tk_reviewed_by :: "string option"
  tk_note :: "string option"
  tk_claim :: "string option"
  tk_expires :: "int option"
  tk_created :: int
  tk_updated :: int

definition tk_id :: "task_row \<Rightarrow> string" where
  "tk_id r = td_id (tk_def r)"

record review_event =
  rv_outcome :: string
  rv_task :: string
  rv_execution :: string
  rv_tenant :: string
  rv_user :: string
  rv_decision :: string
  rv_status :: string
  rv_note :: string
  rv_at :: int
  rv_receipt :: "(string, pyval) pydict"

record task_store =
  ts_tasks :: "task_row list"
  ts_reviews :: "review_event list"

definition empty_tasks :: task_store where
  "empty_tasks = \<lparr>ts_tasks = [], ts_reviews = []\<rparr>"

text \<open>
  What the database does with a text: reading a UUID, reading an integer, printing a JSON value; and
  \<open>ae_jsonb\<close>, the value a \<^verbatim>\<open>jsonb\<close> column gives back for one that was written to it. It is not the identity:
  the keys of an object come back in another order, and a number comes back as the decimal the database
  prints for it. The receipts and results the services write hold no floats and are read by key only, so
  the columns for them keep the value.
\<close>

record auto_env =
  ae_cast :: "string \<Rightarrow> string option"
  ae_integer :: "string \<Rightarrow> int option"
  ae_json_text :: "pyval \<Rightarrow> string"
  ae_jsonb :: "pyval \<Rightarrow> pyval"

text \<open>An object and an array as their column gives them back.\<close>

definition jsonb_dict :: "auto_env \<Rightarrow> (string, pyval) pydict \<Rightarrow> (string, pyval) pydict" where
  "jsonb_dict env d = (case ae_jsonb env (PDict d) of PDict d' \<Rightarrow> d' | _ \<Rightarrow> [])"

definition jsonb_list :: "auto_env \<Rightarrow> pyval list \<Rightarrow> pyval list" where
  "jsonb_list env vs = (case ae_jsonb env (PList vs) of PList vs' \<Rightarrow> vs' | _ \<Rightarrow> [])"

datatype task_error = TaskValue string | TaskDriver

text \<open>The tenant of a method, as its statements read it.\<close>

definition for_tenant ::
    "auto_env \<Rightarrow> bool \<Rightarrow> string \<Rightarrow> 's \<Rightarrow> (string \<Rightarrow> (task_error + 'a) \<times> 's) \<Rightarrow> (task_error + 'a) \<times> 's" where
  "for_tenant env db tenant s f =
     (case ae_cast env tenant of None \<Rightarrow> (Inl TaskDriver, s) | Some t \<Rightarrow> if db then f t else (Inl TaskDriver, s))"

section \<open>Definitions\<close>

definition stored_def :: "auto_env \<Rightarrow> task_def \<Rightarrow> task_def" where
  "stored_def env d = d\<lparr>td_contract := jsonb_dict env (td_contract d), td_subs := jsonb_list env (td_subs d)\<rparr>"

lemma stored_def_simps [simp]: "td_id (stored_def env d) = td_id d" "td_name (stored_def env d) = td_name d"
    "td_description (stored_def env d) = td_description d" "td_acceptance (stored_def env d) = td_acceptance d"
    "td_agent (stored_def env d) = td_agent d" "td_contract (stored_def env d) = jsonb_dict env (td_contract d)"
  by (simp_all add: stored_def_def)

lemma jsonb_plain: "ae_jsonb env = (\<lambda>v. v) \<Longrightarrow> jsonb_dict env d = d" "ae_jsonb env = (\<lambda>v. v) \<Longrightarrow> jsonb_list env vs = vs"
    "ae_jsonb env = (\<lambda>v. v) \<Longrightarrow> stored_def env t = t"
  by (simp_all add: jsonb_dict_def jsonb_list_def stored_def_def)

definition create_task ::
    "auto_env \<Rightarrow> bool \<Rightarrow> int \<Rightarrow> string \<Rightarrow> string \<Rightarrow> task_def \<Rightarrow> task_store \<Rightarrow> (task_error + task_row) \<times> task_store" where
  "create_task env db now tenant owner d s =
     for_tenant env db tenant s (\<lambda>t. case ae_cast env owner of
         None \<Rightarrow> (Inl TaskDriver, s)
       | Some u \<Rightarrow>
           if td_id d \<in> tk_id ` set (ts_tasks s) then (Inl TaskDriver, s)
           else let r = \<lparr>tk_def = stored_def env d, tk_tenant = t, tk_owner = u, tk_status = ''Pending'', tk_last_run = None,
                         tk_error = None, tk_runs = 0, tk_runtime = None, tk_execution = None, tk_receipt = [],
                         tk_reviewed_at = None, tk_reviewed_by = None, tk_note = None, tk_claim = None,
                         tk_expires = None, tk_created = now, tk_updated = now\<rparr>
                in (Inr r, s\<lparr>ts_tasks := ts_tasks s @ [r]\<rparr>))"

definition task_at :: "string \<Rightarrow> string \<Rightarrow> task_row \<Rightarrow> bool" where
  "task_at x t r \<longleftrightarrow> tk_id r = x \<and> tk_tenant r = t"

definition get_task ::
    "auto_env \<Rightarrow> bool \<Rightarrow> string \<Rightarrow> string \<Rightarrow> string option \<Rightarrow> task_store \<Rightarrow> task_error + task_row option" where
  "get_task env db x tenant owner s =
     fst (for_tenant env db tenant s (\<lambda>t. (case owner of
         None \<Rightarrow> Inr (find (task_at x t) (ts_tasks s))
       | Some o' \<Rightarrow> (case ae_cast env o' of None \<Rightarrow> Inl TaskDriver
           | Some u \<Rightarrow> Inr (find (\<lambda>r. task_at x t r \<and> tk_owner r = u) (ts_tasks s))), s)))"

definition list_tasks ::
    "auto_env \<Rightarrow> bool \<Rightarrow> string \<Rightarrow> string option \<Rightarrow> string option \<Rightarrow> string option \<Rightarrow> task_store \<Rightarrow>
     task_error + task_row list" where
  "list_tasks env db tenant status agent owner s =
     (let wanted = (\<lambda>v a. case v of None \<Rightarrow> True | Some b \<Rightarrow> b = [] \<or> a = b)
      in fst (for_tenant env db tenant s (\<lambda>t.
           (case owner of
              None \<Rightarrow> Inr (sort_by_desc tk_created (filter (\<lambda>r. tk_tenant r = t \<and> wanted status (tk_status r)
                        \<and> wanted agent (td_agent (tk_def r))) (ts_tasks s)))
            | Some o' \<Rightarrow> (case ae_cast env o' of None \<Rightarrow> Inl TaskDriver
                | Some u \<Rightarrow> Inr (sort_by_desc tk_created (filter (\<lambda>r. tk_tenant r = t \<and> tk_owner r = u
                        \<and> wanted status (tk_status r) \<and> wanted agent (td_agent (tk_def r))) (ts_tasks s)))), s))))"

definition delete_task ::
    "auto_env \<Rightarrow> bool \<Rightarrow> string \<Rightarrow> string \<Rightarrow> string \<Rightarrow> task_store \<Rightarrow> (task_error + bool) \<times> task_store" where
  "delete_task env db x tenant owner s =
     for_tenant env db tenant s (\<lambda>t. case ae_cast env owner of
         None \<Rightarrow> (Inl TaskDriver, s)
       | Some u \<Rightarrow> let P = (\<lambda>r. task_at x t r \<and> tk_owner r = u)
                   in (Inr (filter P (ts_tasks s) \<noteq> []), s\<lparr>ts_tasks := filter (\<lambda>r. \<not> P r) (ts_tasks s)\<rparr>))"

section \<open>Execution\<close>

text \<open>An \<^verbatim>\<open>UPDATE ... RETURNING *\<close> of the tasks: the changed row, if one matched.\<close>

definition update_task ::
    "(task_row \<Rightarrow> bool) \<Rightarrow> (task_row \<Rightarrow> task_row) \<Rightarrow> task_store \<Rightarrow> (task_error + task_row option) \<times> task_store" where
  "update_task P f s =
     (Inr (map_option f (find P (ts_tasks s))), s\<lparr>ts_tasks := update_where P f (ts_tasks s)\<rparr>)"

definition micros_of :: "int \<Rightarrow> int" where
  "micros_of n = n * 1000000"

definition start_run :: "int \<Rightarrow> int \<Rightarrow> string \<Rightarrow> int \<Rightarrow> task_row \<Rightarrow> task_row" where
  "start_run now clk token lease r = r\<lparr>tk_status := ''Running'', tk_claim := Some token,
     tk_expires := Some (clk + micros_of lease), tk_runtime := None, tk_execution := Some token, tk_receipt := [],
     tk_reviewed_at := None, tk_reviewed_by := None, tk_note := None, tk_last_run := Some now, tk_error := None,
     tk_runs := tk_runs r + 1, tk_updated := now\<rparr>"

definition may_start :: "int \<Rightarrow> task_row \<Rightarrow> bool" where
  "may_start clk r \<longleftrightarrow> tk_status r \<notin> {''Running'', ''ReviewRequired''} \<or> tk_claim r \<noteq> None \<and> sql_not_after (tk_expires r) clk"

definition mark_task_running ::
    "auto_env \<Rightarrow> bool \<Rightarrow> int \<Rightarrow> int \<Rightarrow> string \<Rightarrow> string \<Rightarrow> string \<Rightarrow> int \<Rightarrow> string \<Rightarrow> task_store \<Rightarrow>
     (task_error + task_row option) \<times> task_store" where
  "mark_task_running env db now clk x tenant token lease owner s =
     (if lease \<le> 0 then (Inl (TaskValue ''Task lease_seconds must be positive''), s)
      else case py_uuid token of
        None \<Rightarrow> (Inl (TaskValue ''badly formed hexadecimal UUID string''), s)
      | Some tok \<Rightarrow> for_tenant env db tenant s (\<lambda>t. case ae_cast env owner of
            None \<Rightarrow> (Inl TaskDriver, s)
          | Some u \<Rightarrow> update_task (\<lambda>r. task_at x t r \<and> tk_owner r = u \<and> may_start clk r) (start_run now clk tok lease) s))"

definition claims :: "int \<Rightarrow> string \<Rightarrow> task_row \<Rightarrow> bool" where
  "claims clk tok r \<longleftrightarrow> tk_status r = ''Running'' \<and> tk_claim r = Some tok \<and> sql_after (tk_expires r) clk"

definition renew_task_claim ::
    "auto_env \<Rightarrow> bool \<Rightarrow> int \<Rightarrow> int \<Rightarrow> string \<Rightarrow> string \<Rightarrow> string \<Rightarrow> int \<Rightarrow> task_store \<Rightarrow>
     (task_error + bool) \<times> task_store" where
  "renew_task_claim env db now clk x tenant token lease s =
     (if lease \<le> 0 then (Inl (TaskValue ''Task lease_seconds must be positive''), s)
      else case py_uuid token of
        None \<Rightarrow> (Inl (TaskValue ''badly formed hexadecimal UUID string''), s)
      | Some tok \<Rightarrow> for_tenant env db tenant s (\<lambda>t.
          let (res, s') = update_task (\<lambda>r. task_at x t r \<and> claims clk tok r)
                (\<lambda>r. r\<lparr>tk_expires := Some (clk + micros_of lease), tk_updated := now\<rparr>) s
          in (map_sum id (\<lambda>v. v \<noteq> None) res, s')))"

definition end_run :: "int \<Rightarrow> string \<Rightarrow> string option \<Rightarrow> string option \<Rightarrow> (string, pyval) pydict \<Rightarrow> task_row \<Rightarrow> task_row" where
  "end_run now status err runtime receipt r = r\<lparr>tk_status := status, tk_error := err, tk_runtime := runtime,
     tk_receipt := receipt, tk_claim := None, tk_expires := None, tk_updated := now\<rparr>"

definition complete_task ::
    "auto_env \<Rightarrow> bool \<Rightarrow> int \<Rightarrow> int \<Rightarrow> string \<Rightarrow> string \<Rightarrow> string \<Rightarrow> string \<Rightarrow> string option \<Rightarrow> string option \<Rightarrow>
     (string, pyval) pydict \<Rightarrow> task_store \<Rightarrow> (task_error + task_row option) \<times> task_store" where
  "complete_task env db now clk x tenant token status err runtime receipt s =
     (if status \<notin> {''ReviewRequired'', ''Failed''}
      then (Inl (TaskValue ''Execution outcome must be ReviewRequired or Failed''), s)
      else case py_uuid token of
        None \<Rightarrow> (Inl (TaskValue ''badly formed hexadecimal UUID string''), s)
      | Some tok \<Rightarrow> for_tenant env db tenant s (\<lambda>t.
          update_task (\<lambda>r. task_at x t r \<and> claims clk tok r) (end_run now status err runtime receipt) s))"

section \<open>Review\<close>

text \<open>\<^verbatim>\<open>->>\<close> and its cast to an integer; the outer option of the cast is its failure.\<close>

fun json_text :: "auto_env \<Rightarrow> pyval option \<Rightarrow> string option" where
  "json_text env None = None"
| "json_text env (Some PNone) = None"
| "json_text env (Some (PBool b)) = Some (if b then ''true'' else ''false'')"
| "json_text env (Some (PStr t)) = Some t"
| "json_text env (Some (PInt n)) = Some (show_int n)"
| "json_text env (Some v) = Some (ae_json_text env v)"

fun json_integer :: "auto_env \<Rightarrow> pyval option \<Rightarrow> int option option" where
  "json_integer env (Some (PInt n)) = (if - (2 ^ 31) \<le> n \<and> n < 2 ^ 31 then Some (Some n) else None)"
| "json_integer env v = (case json_text env v of None \<Rightarrow> Some None | Some t \<Rightarrow> map_option Some (ae_integer env t))"

fun json_field :: "string \<Rightarrow> pyval option \<Rightarrow> pyval option" where
  "json_field k (Some (PDict d)) = dget d k"
| "json_field k v = None"

fun json_array_length :: "pyval option \<Rightarrow> int" where
  "json_array_length (Some (PList vs)) = int (length vs)"
| "json_array_length v = 0"

text \<open>The condition of an approval; \<open>None\<close> is a failing cast.\<close>

definition machine_passed :: "auto_env \<Rightarrow> task_row \<Rightarrow> bool" where
  "machine_passed env r \<longleftrightarrow> td_contract (tk_def r) = []
     \<or> json_text env (json_field ''status'' (dget (tk_receipt r) ''machine_verification'')) = Some ''passed''"

definition approvable :: "auto_env \<Rightarrow> task_row \<Rightarrow> bool option" where
  "approvable env r =
     (let rc = tk_receipt r
      in case (json_integer env (dget rc ''artifact_count''), json_integer env (dget rc ''attachment_count''),
               json_integer env (dget rc ''source_count'')) of
        (Some artifacts, Some attachments, Some sources) \<Rightarrow>
          Some (machine_passed env r
            \<and> json_text env (dget rc ''answer_truncated'') = Some ''false''
            \<and> json_text env (dget rc ''source_refs_truncated'') = Some ''false''
            \<and> 0 < length (case json_text env (dget rc ''answer_text'') of None \<Rightarrow> [] | Some t \<Rightarrow> t)
            \<and> (case artifacts of None \<Rightarrow> 1 | Some n \<Rightarrow> n) = 0
            \<and> (case attachments of None \<Rightarrow> 1 | Some n \<Rightarrow> n) = 0
            \<and> json_array_length (dget rc ''sources'') = (case sources of None \<Rightarrow> -1 | Some n \<Rightarrow> n))
      | _ \<Rightarrow> None)"

definition review_outcome_id :: "string \<Rightarrow> string" where
  "review_outcome_id attempt = ''out_task_review_'' @ filter (\<lambda>c. c \<noteq> CHR ''-'') attempt"

definition end_review :: "int \<Rightarrow> string \<Rightarrow> string \<Rightarrow> string \<Rightarrow> task_row \<Rightarrow> task_row" where
  "end_review clk status reviewer remark r = r\<lparr>tk_status := status, tk_reviewed_at := Some clk,
     tk_reviewed_by := Some reviewer, tk_note := Some remark, tk_updated := clk\<rparr>"

text \<open>\<open>ev\<close> says whether the event table takes a row; a second event of the same id is refused.\<close>

definition review_current ::
    "auto_env \<Rightarrow> bool \<Rightarrow> int \<Rightarrow> string \<Rightarrow> string \<Rightarrow> string \<Rightarrow> string \<Rightarrow> string \<Rightarrow> string \<Rightarrow> task_store \<Rightarrow>
     (task_error + task_row option) \<times> task_store" where
  "review_current env ev clk x t reviewer attempt decision remark s =
     (case find (\<lambda>r. task_at x t r \<and> tk_owner r = reviewer \<and> tk_status r = ''ReviewRequired''
             \<and> tk_execution r = Some attempt \<and> tk_claim r = None) (ts_tasks s) of
        None \<Rightarrow> (Inr None, s)
      | Some r \<Rightarrow>
          case (if decision = ''reject'' then Some True else approvable env r) of
            None \<Rightarrow> (Inl TaskDriver, s)
          | Some False \<Rightarrow> (Inr None, s)
          | Some True \<Rightarrow>
              let target = (if decision = ''approve'' then ''Success'' else ''Rejected'');
                  change = end_review clk target reviewer remark
              in if \<not> ev \<or> review_outcome_id attempt \<in> rv_outcome ` set (ts_reviews s) then (Inl TaskDriver, s)
                 else (Inr (Some (change r)), s\<lparr>ts_tasks := update_where (\<lambda>q. tk_id q = x) change (ts_tasks s),
                   ts_reviews := ts_reviews s @ [\<lparr>rv_outcome = review_outcome_id attempt, rv_task = x,
                     rv_execution = attempt, rv_tenant = t, rv_user = reviewer, rv_decision = decision,
                     rv_status = target, rv_note = remark, rv_at = clk, rv_receipt = tk_receipt r\<rparr>]\<rparr>))"

definition review_task ::
    "auto_env \<Rightarrow> bool \<Rightarrow> bool \<Rightarrow> int \<Rightarrow> string \<Rightarrow> string \<Rightarrow> string \<Rightarrow> string \<Rightarrow> string \<Rightarrow> string \<Rightarrow> task_store \<Rightarrow>
     (task_error + task_row option) \<times> task_store" where
  "review_task env db ev clk x tenant user execution decision remark s =
     (if decision \<notin> {''approve'', ''reject''} then (Inl (TaskValue ''Invalid task review decision''), s)
      else case (py_uuid execution, py_uuid user) of
        (Some attempt, Some reviewer) \<Rightarrow>
          for_tenant env db tenant s (\<lambda>t. review_current env ev clk x t reviewer attempt decision remark s)
      | _ \<Rightarrow> (Inl (TaskValue ''badly formed hexadecimal UUID string''), s))"

section \<open>Summary\<close>

text \<open>\<open>day\<close> is the start of the day as the database compares it with \<^verbatim>\<open>updated_at\<close>.\<close>

record task_overview =
  to_total :: int
  to_today :: int
  to_active :: int
  to_failed :: int

definition task_summary :: "auto_env \<Rightarrow> bool \<Rightarrow> int \<Rightarrow> string \<Rightarrow> task_store \<Rightarrow> task_error + task_overview" where
  "task_summary env db day tenant s =
     fst (for_tenant env db tenant s (\<lambda>t.
       let own = filter (\<lambda>r. tk_tenant r = t) (ts_tasks s); count = (\<lambda>P. int (length (filter P own)))
       in (Inr \<lparr>to_total = count (\<lambda>_. True),
                to_today = sum_list (map tk_runs (filter (\<lambda>r. day \<le> tk_updated r) own)),
                to_active = count (\<lambda>r. tk_status r = ''Running''), to_failed = count (\<lambda>r. tk_status r = ''Failed'')\<rparr>, s)))"

section \<open>Runs of the task store\<close>

datatype task_op =
    TkCreate bool int string string task_def
  | TkDelete bool string string string
  | TkStart bool int int string string string int string
  | TkRenew bool int int string string string int
  | TkComplete bool int int string string string string "string option" "string option" "(string, pyval) pydict"
  | TkReview bool bool int string string string string string string

fun task_step :: "auto_env \<Rightarrow> task_op \<Rightarrow> task_store \<Rightarrow> task_store" where
  "task_step env (TkCreate db now tenant owner d) s = snd (create_task env db now tenant owner d s)"
| "task_step env (TkDelete db x tenant owner) s = snd (delete_task env db x tenant owner s)"
| "task_step env (TkStart db now clk x tenant token lease owner) s =
     snd (mark_task_running env db now clk x tenant token lease owner s)"
| "task_step env (TkRenew db now clk x tenant token lease) s = snd (renew_task_claim env db now clk x tenant token lease s)"
| "task_step env (TkComplete db now clk x tenant token status err runtime receipt) s =
     snd (complete_task env db now clk x tenant token status err runtime receipt s)"
| "task_step env (TkReview db ev clk x tenant user execution decision remark) s =
     snd (review_task env db ev clk x tenant user execution decision remark s)"

fun task_run :: "auto_env \<Rightarrow> task_op list \<Rightarrow> task_store \<Rightarrow> task_store" where
  "task_run env [] s = s"
| "task_run env (op # ops) s = task_run env ops (task_step env op s)"

end
