(* ===== verification/AutomationTaskLaws.thy ===== *)
theory AutomationTaskLaws
  imports AutomationTasks
begin

text \<open>
  What the task store keeps: a running task belongs to its claim, a finished attempt waits for the review
  of its owner, and a task is successful only after one.
\<close>

section \<open>Well-formed stores\<close>

definition unreviewed :: "task_row \<Rightarrow> bool" where
  "unreviewed r \<longleftrightarrow> tk_status r \<in> {''Pending'', ''Running'', ''ReviewRequired'', ''Failed''}"

definition reviewed_in :: "review_event list \<Rightarrow> task_row \<Rightarrow> bool" where
  "reviewed_in evs r \<longleftrightarrow> (\<exists>e \<in> set evs. rv_task e = tk_id r \<and> Some (rv_execution e) = tk_execution r \<and> rv_user e = tk_owner r
     \<and> rv_tenant e = tk_tenant r \<and> rv_status e = tk_status r \<and> rv_receipt e = tk_receipt r)"

definition task_shape :: "auto_env \<Rightarrow> task_row \<Rightarrow> bool" where
  "task_shape env r \<longleftrightarrow>
     tk_status r \<in> {''Pending'', ''Running'', ''ReviewRequired'', ''Failed'', ''Success'', ''Rejected''}
     \<and> (tk_status r = ''Running'' \<longleftrightarrow> tk_claim r \<noteq> None) \<and> (tk_claim r = None \<longleftrightarrow> tk_expires r = None)
     \<and> (tk_claim r \<noteq> None \<longrightarrow> tk_execution r = tk_claim r)
     \<and> (tk_status r \<noteq> ''Pending'' \<longrightarrow> tk_execution r \<noteq> None)
     \<and> tk_reviewed_by r = (if unreviewed r then None else Some (tk_owner r))
     \<and> (tk_status r = ''Success'' \<longrightarrow> approvable env r = Some True)"

definition task_row_ok :: "auto_env \<Rightarrow> review_event list \<Rightarrow> task_row \<Rightarrow> bool" where
  "task_row_ok env evs r \<longleftrightarrow> task_shape env r \<and> (unreviewed r \<or> reviewed_in evs r)"

definition tasks_ok :: "auto_env \<Rightarrow> task_store \<Rightarrow> bool" where
  "tasks_ok env s \<longleftrightarrow> table_ok tk_id (task_row_ok env (ts_reviews s)) (ts_tasks s) \<and> distinct (map rv_outcome (ts_reviews s))"

abbreviation task_of :: "string \<Rightarrow> task_store \<Rightarrow> task_row option" where
  "task_of x s \<equiv> row_at tk_id x (ts_tasks s)"

lemma reviewed_more: "reviewed_in evs r \<Longrightarrow> reviewed_in (evs @ extra) r"
  by (auto simp: reviewed_in_def)

lemma task_row_more: "task_row_ok env evs r \<Longrightarrow> task_row_ok env (evs @ extra) r"
  by (auto simp: task_row_ok_def reviewed_more)

lemma changes_keep [simp]: "tk_id (start_run now clk tok lease r) = tk_id r" "tk_id (end_run now st err rt rc r) = tk_id r"
    "tk_id (end_review clk st rv remark r) = tk_id r" "tk_id (tk_expires_update f r) = tk_id r" "tk_id (tk_updated_update g r) = tk_id r"
  by (simp_all add: tk_id_def start_run_def end_run_def end_review_def)

lemma approvable_changes [simp]: "machine_passed env (end_review clk st rv remark r) = machine_passed env r"
    "tk_receipt (end_review clk st rv remark r) = tk_receipt r"
    "approvable env (end_review clk st rv remark r) = approvable env r"
proof -
  show m: "machine_passed env (end_review clk st rv remark r) = machine_passed env r"
    and c: "tk_receipt (end_review clk st rv remark r) = tk_receipt r"
    by (simp_all add: machine_passed_def end_review_def)
  show "approvable env (end_review clk st rv remark r) = approvable env r" unfolding approvable_def m c ..
qed

section \<open>The invariant\<close>

lemma for_tenant_ok: "(\<And>t. tasks_ok env (snd (f t))) \<Longrightarrow> tasks_ok env s \<Longrightarrow> tasks_ok env (snd (for_tenant env db tenant s f))"
  by (simp add: for_tenant_def split: option.split)

lemma update_task_ok:
  assumes "tasks_ok env s" "\<And>r. tk_id (f r) = tk_id r"
    and "\<And>r. task_row_ok env (ts_reviews s) r \<Longrightarrow> P r \<Longrightarrow> task_row_ok env (ts_reviews s) (f r)"
  shows "tasks_ok env (snd (update_task P f s))"
  using assms by (simp add: tasks_ok_def update_task_def table_update)

lemma start_task_ok: "task_row_ok env evs r \<Longrightarrow> task_row_ok env evs (start_run now clk tok lease r)"
  by (simp add: task_row_ok_def task_shape_def start_run_def unreviewed_def)

lemma end_ok: "st \<in> {''ReviewRequired'', ''Failed''} \<Longrightarrow> task_row_ok env evs r \<Longrightarrow> claims clk tok r \<Longrightarrow>
    task_row_ok env evs (end_run now st err rt rc r)"
  by (auto simp: task_row_ok_def task_shape_def end_run_def unreviewed_def claims_def)

lemma renew_row_ok: "task_row_ok env evs r \<Longrightarrow> claims clk tok r \<Longrightarrow>
    task_row_ok env evs (r\<lparr>tk_expires := Some e, tk_updated := now\<rparr>)"
  by (simp add: task_row_ok_def task_shape_def unreviewed_def claims_def)

text \<open>What a review that was accepted did.\<close>

definition decides :: "auto_env \<Rightarrow> task_row \<Rightarrow> string \<Rightarrow> bool" where
  "decides env r target \<longleftrightarrow> target = ''Success'' \<and> approvable env r = Some True \<or> target = ''Rejected''"

definition review_entry :: "task_row \<Rightarrow> string \<Rightarrow> string \<Rightarrow> string \<Rightarrow> string \<Rightarrow> int \<Rightarrow> review_event" where
  "review_entry r attempt decision target remark clk = \<lparr>rv_outcome = review_outcome_id attempt, rv_task = tk_id r,
     rv_execution = attempt, rv_tenant = tk_tenant r, rv_user = tk_owner r, rv_decision = decision, rv_status = target,
     rv_note = remark, rv_at = clk, rv_receipt = tk_receipt r\<rparr>"

lemma review_row_ok:
  assumes "task_row_ok env evs r" "tk_status r = ''ReviewRequired''" "tk_execution r = Some attempt" "tk_claim r = None"
    and "decides env r st"
  shows "task_row_ok env (evs @ [review_entry r attempt d st remark clk]) (end_review clk st (tk_owner r) remark r)"
proof -
  let ?r = "end_review clk st (tk_owner r) remark r"
  have "reviewed_in (evs @ [review_entry r attempt d st remark clk]) ?r"
    using assms(3) by (auto simp: reviewed_in_def end_review_def tk_id_def review_entry_def)
  moreover have "task_shape env ?r"
    using assms by (auto simp: decides_def task_row_ok_def task_shape_def unreviewed_def) (simp_all add: end_review_def)
  ultimately show ?thesis by (simp add: task_row_ok_def)
qed

lemma review_shape:
  assumes ok: "table_ok tk_id rok (ts_tasks s)"
  shows "snd (review_task env db ev clk x tenant user execution decision remark s) = s
    \<or> (\<exists>r attempt target. py_uuid execution = Some attempt \<and> py_uuid user = Some (tk_owner r) \<and> task_of x s = Some r
        \<and> ae_cast env tenant = Some (tk_tenant r)
        \<and> (decision = ''approve'' \<and> approvable env r = Some True \<or> decision = ''reject'')
        \<and> tk_status r = ''ReviewRequired'' \<and> tk_execution r = Some attempt \<and> tk_claim r = None
        \<and> decides env r target
        \<and> review_outcome_id attempt \<notin> rv_outcome ` set (ts_reviews s)
        \<and> snd (review_task env db ev clk x tenant user execution decision remark s) =
          s\<lparr>ts_tasks := update_where (\<lambda>q. q = r) (end_review clk target (tk_owner r) remark) (ts_tasks s),
            ts_reviews := ts_reviews s @ [review_entry r attempt decision target remark clk]\<rparr>)"
proof -
  let ?go = "\<lambda>t reviewer attempt. review_current env ev clk x t reviewer attempt decision remark s"
  have "snd (review_task env db ev clk x tenant user execution decision remark s) = s
    \<or> (\<exists>t reviewer attempt. ae_cast env tenant = Some t \<and> decision \<in> {''approve'', ''reject''} \<and> py_uuid execution = Some attempt \<and> py_uuid user = Some reviewer
        \<and> snd (review_task env db ev clk x tenant user execution decision remark s) = snd (?go t reviewer attempt))"
    by (cases "py_uuid execution"; cases "py_uuid user"; cases "ae_cast env tenant") (simp_all add: review_task_def for_tenant_def)
  then show ?thesis
  proof (elim disjE exE conjE)
    fix t reviewer attempt
    assume tn: "ae_cast env tenant = Some t" and d: "decision \<in> {''approve'', ''reject''}" and u: "py_uuid execution = Some attempt" "py_uuid user = Some reviewer"
      and s': "snd (review_task env db ev clk x tenant user execution decision remark s) = snd (?go t reviewer attempt)"
    show ?thesis
    proof (cases "snd (?go t reviewer attempt) = s")
      case False
      let ?P = "\<lambda>r. task_at x t r \<and> tk_owner r = reviewer \<and> tk_status r = ''ReviewRequired'' \<and> tk_execution r = Some attempt
          \<and> tk_claim r = None"
      obtain r where f: "find ?P (ts_tasks s) = Some r"
        using False by (cases "find ?P (ts_tasks s)") (simp_all add: review_current_def)
      have r: "r \<in> set (ts_tasks s)" "tk_id r = x" "tk_tenant r = t" "tk_owner r = reviewer" "tk_status r = ''ReviewRequired''"
          "tk_execution r = Some attempt" "tk_claim r = None" using f by (auto simp: find_Some_iff task_at_def)
      have row: "task_of x s = Some r" using ok r(1,2) row_at_mem [of tk_id "ts_tasks s" r] by (simp add: table_ok_def)
      have same: "update_where (\<lambda>q. tk_id q = x) g (ts_tasks s) = update_where (\<lambda>q. q = r) g (ts_tasks s)" for g
        using update_key [OF ok r(1)] r(2) by simp
      let ?t = "if decision = ''approve'' then ''Success'' else ''Rejected''"
      have good: "decision = ''reject'' \<or> approvable env r = Some True" and new: "review_outcome_id attempt \<notin> rv_outcome ` set (ts_reviews s)"
        using False f by (auto simp: review_current_def Let_def split: option.splits bool.splits if_splits)
      have "snd (?go t reviewer attempt) = s\<lparr>ts_tasks := update_where (\<lambda>q. q = r) (end_review clk ?t (tk_owner r) remark) (ts_tasks s),
            ts_reviews := ts_reviews s @ [review_entry r attempt decision ?t remark clk]\<rparr>"
        using False f r(2-4) same by (auto simp: review_current_def Let_def review_entry_def split: option.splits bool.splits if_splits)
      moreover have "decides env r ?t" using good d by (auto simp: decides_def)
      moreover have "decision = ''approve'' \<and> approvable env r = Some True \<or> decision = ''reject''" using good d by blast
      ultimately show ?thesis using u r row new s' tn
        by (intro disjI2 exI [of _ r] exI [of _ attempt] exI [of _ ?t]) simp
    qed (use s' in simp)
  qed simp
qed

lemma review_ok:
  assumes ok: "tasks_ok env s"
  shows "tasks_ok env (snd (review_task env db ev clk x tenant user execution decision remark s))" (is "tasks_ok env ?s")
proof (cases "?s = s")
  case False
  have tok: "table_ok tk_id (task_row_ok env (ts_reviews s)) (ts_tasks s)" using ok by (simp add: tasks_ok_def)
  obtain r attempt target where row: "task_of x s = Some r"
    and st: "tk_status r = ''ReviewRequired''" "tk_execution r = Some attempt" "tk_claim r = None" "decides env r target"
    and new: "review_outcome_id attempt \<notin> rv_outcome ` set (ts_reviews s)"
    and s': "?s = s\<lparr>ts_tasks := update_where (\<lambda>q. q = r) (end_review clk target (tk_owner r) remark) (ts_tasks s),
            ts_reviews := ts_reviews s @ [review_entry r attempt decision target remark clk]\<rparr>"
    using review_shape [OF tok, of env db ev clk x tenant user execution decision remark] False by blast
  let ?e = "review_entry r attempt decision target remark clk"
  have rok: "task_row_ok env (ts_reviews s) r" using table_row [OF tok row] by simp
  have "table_ok tk_id (task_row_ok env (ts_reviews s @ [?e])) (ts_tasks s)"
    using tok task_row_more by (auto simp: table_ok_def)
  then have "table_ok tk_id (task_row_ok env (ts_reviews s @ [?e]))
      (update_where (\<lambda>q. q = r) (end_review clk target (tk_owner r) remark) (ts_tasks s))"
    by (rule table_update) (use review_row_ok [OF rok st] in auto)
  then show ?thesis using ok new by (simp add: s' tasks_ok_def review_entry_def)
qed (use ok in simp)

lemma task_step_ok: "tasks_ok env s \<Longrightarrow> tasks_ok env (task_step env op s)"
proof (cases op)
  case (TkCreate db now tenant owner d)
  assume ok: "tasks_ok env s"
  have "tasks_ok env (s\<lparr>ts_tasks := ts_tasks s @ [r]\<rparr>)" if "tk_id r \<notin> tk_id ` set (ts_tasks s)" "tk_status r = ''Pending''"
      "tk_reviewed_by r = None" "tk_claim r = None" "tk_expires r = None" for r
    using ok that by (auto simp: tasks_ok_def task_row_ok_def task_shape_def unreviewed_def intro!: table_insert)
  then show ?thesis using ok unfolding TkCreate task_step.simps create_task_def
    by (intro for_tenant_ok) (simp_all add: Let_def tk_id_def split: option.split)
next
  case (TkDelete db x tenant owner)
  assume ok: "tasks_ok env s"
  show ?thesis using ok unfolding TkDelete task_step.simps delete_task_def
    by (intro for_tenant_ok) (auto simp: tasks_ok_def Let_def intro: table_delete split: option.split)
next
  case (TkStart db now clk x tenant token lease owner)
  assume ok: "tasks_ok env s"
  show ?thesis using ok unfolding TkStart task_step.simps mark_task_running_def
    by (auto intro!: for_tenant_ok update_task_ok intro: start_task_ok split: option.split)
next
  case (TkRenew db now clk x tenant token lease)
  assume ok: "tasks_ok env s"
  have "tasks_ok env (snd (update_task (\<lambda>r. task_at x t r \<and> claims clk tok r)
      (\<lambda>r. r\<lparr>tk_expires := Some (clk + micros_of lease), tk_updated := now\<rparr>) s))" for t tok
    by (rule update_task_ok [OF ok]) (auto intro: renew_row_ok)
  then show ?thesis using ok unfolding TkRenew task_step.simps renew_task_claim_def
    by (auto simp: Let_def split_beta intro!: for_tenant_ok split: option.split)
next
  case (TkComplete db now clk x tenant token status err runtime receipt)
  assume ok: "tasks_ok env s"
  have "tasks_ok env (snd (update_task (\<lambda>r. task_at x t r \<and> claims clk tok r) (end_run now status err runtime receipt) s))"
    if "status \<in> {''ReviewRequired'', ''Failed''}" for t tok
    by (rule update_task_ok [OF ok]) (use that in \<open>auto intro: end_ok\<close>)
  then show ?thesis using ok unfolding TkComplete task_step.simps complete_task_def
    by (auto intro!: for_tenant_ok split: option.split)
next
  case (TkReview db ev clk x tenant user execution decision remark)
  then show "tasks_ok env s \<Longrightarrow> ?thesis" by (simp add: review_ok)
qed

section \<open>Who may change a task\<close>

text \<open>
  A running task is changed by the holder of its claim while the claim lives, and may be started over once it
  has run out; a finished attempt by the review of its owner; any other task may be started. The owner may always
  delete it. All this is said of the row and the arguments of the call, in the tenant of the task.
\<close>

definition live_claim :: "int \<Rightarrow> string \<Rightarrow> task_row \<Rightarrow> bool" where
  "live_claim clk token r \<longleftrightarrow> tk_status r = ''Running''
     \<and> (\<exists>tok. tk_claim r = Some tok \<and> py_uuid token = Some tok) \<and> (\<exists>e. tk_expires r = Some e \<and> clk < e)"

definition startable :: "int \<Rightarrow> task_row \<Rightarrow> bool" where
  "startable clk r \<longleftrightarrow> tk_status r \<notin> {''Running'', ''ReviewRequired''}
     \<or> tk_claim r \<noteq> None \<and> (\<exists>e. tk_expires r = Some e \<and> e \<le> clk)"

definition task_entitled :: "auto_env \<Rightarrow> string \<Rightarrow> task_row option \<Rightarrow> task_op \<Rightarrow> bool" where
  "task_entitled env x v op \<longleftrightarrow> (case v of None \<Rightarrow> True | Some r \<Rightarrow>
     (case op of
        TkCreate db now tenant owner d \<Rightarrow> False
      | TkDelete db y tenant owner \<Rightarrow>
          y = x \<and> ae_cast env tenant = Some (tk_tenant r) \<and> ae_cast env owner = Some (tk_owner r)
      | TkStart db now clk y tenant token lease owner \<Rightarrow>
          y = x \<and> ae_cast env tenant = Some (tk_tenant r) \<and> ae_cast env owner = Some (tk_owner r) \<and> 0 < lease \<and> startable clk r
      | TkRenew db now clk y tenant token lease \<Rightarrow>
          y = x \<and> ae_cast env tenant = Some (tk_tenant r) \<and> 0 < lease \<and> live_claim clk token r
      | TkComplete db now clk y tenant token status err runtime receipt \<Rightarrow>
          y = x \<and> ae_cast env tenant = Some (tk_tenant r) \<and> status \<in> {''ReviewRequired'', ''Failed''} \<and> live_claim clk token r
      | TkReview db ev clk y tenant user execution decision remark \<Rightarrow>
          y = x \<and> ae_cast env tenant = Some (tk_tenant r) \<and> tk_status r = ''ReviewRequired'' \<and> tk_claim r = None
          \<and> py_uuid user = Some (tk_owner r) \<and> (\<exists>attempt. tk_execution r = Some attempt \<and> py_uuid execution = Some attempt)
          \<and> (decision = ''approve'' \<and> approvable env r = Some True \<or> decision = ''reject'')))"

lemma claims_live: "py_uuid token = Some tok \<Longrightarrow> claims clk tok r \<longleftrightarrow> live_claim clk token r"
  by (auto simp: claims_def live_claim_def sql_after_def split: option.splits)

lemma may_start_iff: "may_start clk r \<longleftrightarrow> startable clk r"
  by (auto simp: may_start_def startable_def sql_not_after_def split: option.splits)

lemma update_task_row:
  "(\<And>r. tk_id (f r) = tk_id r) \<Longrightarrow> task_of x s = Some r \<Longrightarrow> \<not> P r \<Longrightarrow> task_of x (snd (update_task P f s)) = task_of x s"
  by (simp add: update_task_def row_simps)

lemma for_tenant_row: "(\<And>t. ae_cast env tenant = Some t \<Longrightarrow> task_of x (snd (f t)) = v) \<Longrightarrow> task_of x s = v \<Longrightarrow> task_of x (snd (for_tenant env db tenant s f)) = v"
  by (simp add: for_tenant_def split: option.split)

lemma task_fence:
  assumes ok: "tasks_ok env s" and v: "task_of x s \<noteq> None" and ne: "\<not> task_entitled env x (task_of x s) op"
  shows "task_of x (task_step env op s) = task_of x s"
proof -
  obtain r where r: "task_of x s = Some r" using v by blast
  have tok: "table_ok tk_id (task_row_ok env (ts_reviews s)) (ts_tasks s)" using ok by (simp add: tasks_ok_def)
  then have id: "tk_id r = x" and dist: "distinct (map tk_id (ts_tasks s))" using table_row [OF tok r] by (auto simp: table_ok_def)
  show ?thesis
  proof (cases op)
    case (TkCreate db now tenant owner d)
    then show ?thesis using r unfolding TkCreate task_step.simps create_task_def
      by (intro for_tenant_row) (simp_all add: Let_def row_simps split: option.split)
  next
    case (TkDelete db y tenant owner)
    then show ?thesis using ne r id dist unfolding TkDelete task_step.simps delete_task_def
      by (intro for_tenant_row) (auto simp: Let_def row_simps task_entitled_def task_at_def split: option.split)
  next
    case (TkStart db now clk y tenant token lease owner)
    have "task_of x (snd (update_task (\<lambda>r. task_at y t r \<and> tk_owner r = u \<and> may_start clk r) f s)) = task_of x s"
      if "ae_cast env tenant = Some t" "ae_cast env owner = Some u" "0 < lease" "\<And>r. tk_id (f r) = tk_id r" for t u f
      by (rule update_task_row [OF that(4) r])
        (use ne r id that(1-3) TkStart in \<open>auto simp: task_entitled_def task_at_def may_start_iff\<close>)
    then show ?thesis unfolding TkStart task_step.simps mark_task_running_def
      by (auto intro!: for_tenant_row split: option.split)
  next
    case (TkRenew db now clk y tenant token lease)
    have "task_of x (snd (update_task (\<lambda>r. task_at y t r \<and> claims clk tok r) f s)) = task_of x s"
      if "ae_cast env tenant = Some t" "py_uuid token = Some tok" "0 < lease" "\<And>r. tk_id (f r) = tk_id r" for t tok f
      by (rule update_task_row [OF that(4) r])
        (use ne r id that(1,3) TkRenew claims_live [OF that(2)] in \<open>auto simp: task_entitled_def task_at_def\<close>)
    then show ?thesis unfolding TkRenew task_step.simps renew_task_claim_def
      by (auto simp: Let_def split_beta intro!: for_tenant_row split: option.split)
  next
    case (TkComplete db now clk y tenant token status err runtime receipt)
    have "task_of x (snd (update_task (\<lambda>r. task_at y t r \<and> claims clk tok r) f s)) = task_of x s"
      if "ae_cast env tenant = Some t" "status \<in> {''ReviewRequired'', ''Failed''}" "py_uuid token = Some tok"
        "\<And>r. tk_id (f r) = tk_id r" for t tok f
      by (rule update_task_row [OF that(4) r])
        (use ne r id that(1,2) TkComplete claims_live [OF that(3)] in \<open>auto simp: task_entitled_def task_at_def\<close>)
    then show ?thesis unfolding TkComplete task_step.simps complete_task_def
      by (auto intro!: for_tenant_row split: option.split)
  next
    case (TkReview db ev clk y tenant user execution decision remark)
    show ?thesis
    proof (cases "task_step env op s = s")
      case False
      then obtain q attempt target where q: "py_uuid execution = Some attempt" "py_uuid user = Some (tk_owner q)" "task_of y s = Some q"
          "tk_status q = ''ReviewRequired''" "tk_execution q = Some attempt" "tk_claim q = None" "ae_cast env tenant = Some (tk_tenant q)"
          "decision = ''approve'' \<and> approvable env q = Some True \<or> decision = ''reject''"
        and s': "task_step env op s = s\<lparr>ts_tasks := update_where (\<lambda>p. p = q) (end_review clk target (tk_owner q) remark) (ts_tasks s),
            ts_reviews := ts_reviews s @ [review_entry q attempt decision target remark clk]\<rparr>"
        using review_shape [OF tok, of env db ev clk y tenant user execution decision remark] TkReview by auto
      have "r \<noteq> q" using ne q r id TkReview table_row [OF tok q(3)] by (fastforce simp: task_entitled_def)
      then show ?thesis using r by (simp add: s' row_simps)
    qed simp
  qed
qed

interpretation saved_tasks: fenced_machine "task_step env" "tasks_ok env" task_of "\<lambda>x v. v \<noteq> None" "task_entitled env" for env
proof
  show "tasks_ok env s \<Longrightarrow> tasks_ok env (task_step env op s)" for op s by (rule task_step_ok)
  show "task_of x (task_step env op s) = task_of x s"
    if "tasks_ok env s" "task_of x s \<noteq> None" "\<not> task_entitled env x (task_of x s) op" for s x op
    using that by (rule task_fence)
qed

lemma task_run_eq: "task_run env ops s = saved_tasks.run env ops s"
  by (induction ops arbitrary: s) simp_all

lemma tasks_reachable_ok: "tasks_ok env (task_run env ops empty_tasks)"
  unfolding task_run_eq by (rule saved_tasks.inv_run) (simp add: tasks_ok_def empty_tasks_def)

section \<open>Properties\<close>

text \<open>A task of the user 1 that the execution 2 has run.\<close>

definition sample_owner :: string where "sample_owner = uuid_text 1"
definition sample_execution :: string where "sample_execution = uuid_text 2"

lemma sample_task_uuids [simp]: "py_uuid sample_owner = Some sample_owner" "py_uuid sample_execution = Some sample_execution"
  by (simp_all add: sample_owner_def sample_execution_def py_uuid_canonical)

definition sample_env :: auto_env where
  "sample_env = \<lparr>ae_cast = Some, ae_integer = (\<lambda>_. None), ae_json_text = (\<lambda>_. []), ae_jsonb = (\<lambda>v. v)\<rparr>"

definition sample_task :: task_def where
  "sample_task = \<lparr>td_id = ''t'', td_name = ''n'', td_description = ''d'', td_acceptance = [], td_contract = [],
     td_agent = ''a'', td_instructions = [], td_type = ''k'', td_subs = []\<rparr>"

definition sample_receipt :: "(string, pyval) pydict" where
  "sample_receipt = [(''answer_text'', PStr ''x''), (''answer_truncated'', PBool False),
     (''source_refs_truncated'', PBool False), (''artifact_count'', PInt 0), (''attachment_count'', PInt 0),
     (''sources'', PList []), (''source_count'', PInt 0)]"

definition sample_executed :: "task_op list" where
  "sample_executed = [TkCreate True 1 ''w'' sample_owner sample_task,
     TkStart True 2 2 ''t'' ''w'' sample_execution 60 sample_owner,
     TkComplete True 3 3 ''t'' ''w'' sample_execution ''ReviewRequired'' None None sample_receipt]"

definition sample_finished :: task_row where
  "sample_finished = \<lparr>tk_def = sample_task, tk_tenant = ''w'', tk_owner = sample_owner, tk_status = ''ReviewRequired'',
     tk_last_run = Some 2, tk_error = None, tk_runs = 1, tk_runtime = None, tk_execution = Some sample_execution,
     tk_receipt = sample_receipt, tk_reviewed_at = None, tk_reviewed_by = None, tk_note = None, tk_claim = None,
     tk_expires = None, tk_created = 1, tk_updated = 3\<rparr>"

lemma sample_run: "task_run sample_env sample_executed empty_tasks = \<lparr>ts_tasks = [sample_finished], ts_reviews = []\<rparr>"
  by (simp add: jsonb_plain sample_executed_def sample_env_def sample_finished_def empty_tasks_def create_task_def for_tenant_def
      mark_task_running_def complete_task_def update_task_def update_where_def task_at_def tk_id_def sample_task_def
      may_start_def claims_def start_run_def end_run_def micros_of_def sql_after_def Let_def)

lemma sample_approvable: "approvable sample_env sample_finished = Some True"
  by (simp add: approvable_def sample_finished_def sample_receipt_def machine_passed_def sample_task_def dict_simps
      json_array_length.simps)

text \<open>
  C25: Only a review makes a task successful: on every run of the task store a task with status Success has been
  approved by its owner for exactly the execution and the receipt it shows, the event of that
  review is recorded, and the receipt meets the conditions of an approval.
\<close>

theorem success_needs_review:
  assumes "task_of x (task_run env ops empty_tasks) = Some r" "tk_status r = ''Success''"
  shows "tk_reviewed_by r = Some (tk_owner r) \<and> approvable env r = Some True
    \<and> (\<exists>e \<in> set (ts_reviews (task_run env ops empty_tasks)). rv_task e = x \<and> Some (rv_execution e) = tk_execution r
        \<and> rv_user e = tk_owner r \<and> rv_status e = ''Success'' \<and> rv_receipt e = tk_receipt r)"
proof -
  let ?s = "task_run env ops empty_tasks"
  have "table_ok tk_id (task_row_ok env (ts_reviews ?s)) (ts_tasks ?s)" using tasks_reachable_ok by (simp add: tasks_ok_def)
  then have "task_row_ok env (ts_reviews ?s) r" "tk_id r = x" using assms(1) by (auto dest: table_row)
  then show ?thesis using assms(2) by (auto simp: task_row_ok_def task_shape_def unreviewed_def reviewed_in_def)
qed

theorem success_needs_review_witness:
  "approvable sample_env (end_review 4 ''Success'' sample_owner ''ok'' sample_finished) = Some True"
proof -
  let ?r = "end_review 4 ''Success'' sample_owner ''ok'' sample_finished"
  have e: "task_run sample_env (sample_executed @ [TkReview True True 4 ''t'' ''w'' sample_owner sample_execution ''approve'' ''ok''])
      empty_tasks = task_run sample_env [TkReview True True 4 ''t'' ''w'' sample_owner sample_execution ''approve'' ''ok'']
        (task_run sample_env sample_executed empty_tasks)"
    by (simp only: task_run_eq saved_tasks.run_append)
  have r: "task_of ''t'' (task_run sample_env (sample_executed @
      [TkReview True True 4 ''t'' ''w'' sample_owner sample_execution ''approve'' ''ok'']) empty_tasks) = Some ?r"
    unfolding e sample_run using sample_approvable
    by (simp add: review_task_def review_current_def for_tenant_def sample_env_def task_at_def tk_id_def sample_task_def
        sample_finished_def update_where_def end_review_def row_simps Let_def)
  have "tk_status ?r = ''Success''" by (simp add: end_review_def)
  from success_needs_review [OF r this] show ?thesis by blast
qed

text \<open>
  C26: A saved task belongs to its claim. On every run of the store, calls that are none of the following leave
  the task exactly as it is: while it runs under a claim, a renewal or a completion with the claim's token before
  the claim's expiry, and a start by the owner after it; once an attempt has finished, the review of exactly
  that execution by the owner, an approval only where the receipt allows one; a start by the owner of a task that is
  neither running nor waiting for its review; and a deletion by the owner. All of them in the task's tenant.
\<close>

theorem saved_task_fenced:
  assumes "task_of x (task_run env ops empty_tasks) = Some r" "\<forall>op \<in> set later. \<not> task_entitled env x (Some r) op"
  shows "task_of x (task_run env (ops @ later) empty_tasks) = Some r"
proof -
  let ?s = "task_run env ops empty_tasks"
  have "task_of x (saved_tasks.run env later ?s) = task_of x ?s"
    by (rule saved_tasks.fence_run [OF tasks_reachable_ok]) (use assms in auto)
  then show ?thesis using assms(1) by (simp add: task_run_eq saved_tasks.run_append)
qed

theorem saved_task_fenced_witness:
  "task_of ''t'' (task_run sample_env (sample_executed @ [TkStart True 9 9 ''t'' ''w'' sample_execution 60 sample_owner,
     TkComplete True 9 9 ''t'' ''w'' sample_execution ''Failed'' None None []]) empty_tasks) = Some sample_finished"
proof (rule saved_task_fenced)
  show "task_of ''t'' (task_run sample_env sample_executed empty_tasks) = Some sample_finished"
    unfolding sample_run by (simp add: row_simps sample_finished_def tk_id_def sample_task_def)
qed (simp add: task_entitled_def sample_finished_def startable_def live_claim_def)

end
