(* ===== verification/TaskContract.thy ===== *)
theory TaskContract
  imports Wire
begin

text \<open>
  The output contract of a saved task, \<^verbatim>\<open>core/runtime/task_output_verification.py\<close>: the check of a
  contract against the allowed subset of JSON Schema, and the assessment of an output. The JSON Schema library is a
  parameter: \<open>js_schema_ok\<close> is \<^verbatim>\<open>check_schema\<close>, \<open>js_errors\<close> gives the paths of the errors of an
  output; so are the printer of floats and SHA-256.
\<close>

section \<open>Contracts\<close>

record schema_lib =
  js_schema_ok :: "pyval \<Rightarrow> bool"
  js_errors :: "pyval \<Rightarrow> pyval \<Rightarrow> string list"
  js_float :: "rat \<Rightarrow> string"
  js_sha256 :: "string \<Rightarrow> string"

definition MAX_SCHEMA_BYTES :: nat where "MAX_SCHEMA_BYTES = 8192"
definition MAX_OUTPUT_BYTES :: nat where "MAX_OUTPUT_BYTES = 262144"
definition MAX_DEPTH :: nat where "MAX_DEPTH = 12"
definition MAX_SCHEMA_NODES :: nat where "MAX_SCHEMA_NODES = 256"

definition allowed_keywords :: "string list" where
  "allowed_keywords = [''$schema'', ''type'', ''properties'', ''required'', ''items'', ''additionalProperties'',
     ''enum'', ''const'', ''minLength'', ''maxLength'', ''minimum'', ''maximum'', ''minItems'',
     ''maxItems'', ''minProperties'', ''maxProperties'', ''allOf'', ''anyOf'', ''oneOf'',
     ''not'', ''description'', ''title'']"

text \<open>\<^verbatim>\<open>_canonical\<close>: \<^verbatim>\<open>json.dumps\<close> with sorted keys, which prints NaN and the infinities.\<close>

fun dump_value :: "(rat \<Rightarrow> string) \<Rightarrow> pyval \<Rightarrow> string"
  and dump_items :: "(rat \<Rightarrow> string) \<Rightarrow> pyval list \<Rightarrow> string list"
  and dump_fields :: "(rat \<Rightarrow> string) \<Rightarrow> (string \<times> pyval) list \<Rightarrow> string list" where
  "dump_value fr PNone = ''null''"
| "dump_value fr (PBool b) = (if b then ''true'' else ''false'')"
| "dump_value fr (PInt i) = show_int i"
| "dump_value fr (PFloat f) = (case f of Fin r \<Rightarrow> fr r | Nan \<Rightarrow> ''NaN'' | Inf \<Rightarrow> ''Infinity'' | NegInf \<Rightarrow> ''-Infinity'')"
| "dump_value fr (PStr s) = json_string s"
| "dump_value fr (PList xs) = ''['' @ join '','' (dump_items fr xs) @ '']''"
| "dump_value fr (PDict d) = ''{'' @ join '','' (dump_fields fr d) @ ''}''"
| "dump_items fr [] = []"
| "dump_items fr (x # xs) = dump_value fr x # dump_items fr xs"
| "dump_fields fr [] = []"
| "dump_fields fr ((k, v) # d) = (json_string k @ '':'' @ dump_value fr v) # dump_fields fr d"

definition canonical_text :: "schema_lib \<Rightarrow> pyval \<Rightarrow> string" where
  "canonical_text lib v = dump_value (js_float lib) (sort_keys v)"

definition content_hash :: "schema_lib \<Rightarrow> pyval \<Rightarrow> string" where
  "content_hash lib v = js_sha256 lib (canonical_text lib v)"

section \<open>The walk over a schema\<close>

definition dialect :: string where
  "dialect = ''https://json-schema.org/draft/2020-12/schema''"

lemma size_dget: "dget d k = Some v \<Longrightarrow> size v \<le> size_list (size_prod (\<lambda>_. 0) size) d"
  using size_list_estimation' [of "(k, v)" d "size v" "size_prod (\<lambda>_. 0) size"] by (simp add: dget_SomeD)

lemma size_values: "size_list (size \<circ> snd) d \<le> size_list (size_prod (\<lambda>_. 0) size) d"
  by (induction d) auto

lemma size_dget_dict:
  "dget d k = Some (PDict ps) \<Longrightarrow> size_list (size \<circ> snd) ps < size_list (size_prod (\<lambda>_. 0) size) d"
  using size_dget [of d k "PDict ps"] size_values [of ps] by simp

lemma size_dget_list: "dget d k = Some (PList vs) \<Longrightarrow> size_list size vs < size_list (size_prod (\<lambda>_. 0) size) d"
  using size_dget [of d k "PList vs"] by simp

text \<open>A list of at most 64 entries under \<^verbatim>\<open>required\<close> and \<^verbatim>\<open>enum\<close>.\<close>

definition short_list :: "(string, pyval) pydict \<Rightarrow> string \<Rightarrow> bool" where
  "short_list d k \<longleftrightarrow> (case dget d k of None \<Rightarrow> True | Some (PList vs) \<Rightarrow> length vs \<le> 64 | Some _ \<Rightarrow> False)"

text \<open>
  \<^verbatim>\<open>walk\<close>: the number of nodes counted so far goes in and comes out; an error is the message of
  the exception.
\<close>

function walk :: "pyval \<Rightarrow> nat \<Rightarrow> nat \<Rightarrow> string + nat"
  and walk_props :: "(string, pyval) pydict \<Rightarrow> nat \<Rightarrow> nat \<Rightarrow> string + nat"
  and walk_all :: "pyval list \<Rightarrow> nat \<Rightarrow> nat \<Rightarrow> string + nat"
  and walk_at :: "(string, pyval) pydict \<Rightarrow> string list \<Rightarrow> nat \<Rightarrow> nat \<Rightarrow> string + nat"
  and walk_choices :: "(string, pyval) pydict \<Rightarrow> string list \<Rightarrow> nat \<Rightarrow> nat \<Rightarrow> string + nat" where
  "walk v depth count =
     (if count + 1 > MAX_SCHEMA_NODES \<or> depth > MAX_DEPTH then Inl ''Verification schema exceeds complexity limit''
      else case v of
        PBool b \<Rightarrow> Inr (count + 1)
      | PDict d \<Rightarrow>
          if \<not> set (dkeys d) \<subseteq> set allowed_keywords then Inl ''Unsupported verification schema keyword''
          else if (case dget d ''$schema'' of None \<Rightarrow> False | Some w \<Rightarrow> w \<noteq> PStr dialect)
          then Inl ''Unsupported JSON Schema dialect''
          else (case walk_props d (depth + 1) (count + 1) of
                  Inl e \<Rightarrow> Inl e
                | Inr c1 \<Rightarrow>
                    (case walk_at d [''items'', ''additionalProperties'', ''not''] (depth + 1) c1 of
                       Inl e \<Rightarrow> Inl e
                     | Inr c2 \<Rightarrow>
                         (case walk_choices d [''allOf'', ''anyOf'', ''oneOf''] (depth + 1) c2 of
                            Inl e \<Rightarrow> Inl e
                          | Inr c3 \<Rightarrow> if short_list d ''required'' \<and> short_list d ''enum'' then Inr c3
                                      else Inl ''Verification schema list exceeds limit'')))
      | _ \<Rightarrow> Inl ''Invalid nested verification schema'')"
| "walk_props d depth count =
     (case dget d ''properties'' of
        None \<Rightarrow> Inr count
      | Some (PDict ps) \<Rightarrow> if length ps > 64 then Inl ''Verification properties exceed limit''
                           else walk_all (map snd ps) depth count
      | Some _ \<Rightarrow> Inl ''Verification properties exceed limit'')"
| "walk_all [] depth count = Inr count"
| "walk_all (v # vs) depth count = (case walk v depth count of Inl e \<Rightarrow> Inl e | Inr c \<Rightarrow> walk_all vs depth c)"
| "walk_at d [] depth count = Inr count"
| "walk_at d (k # ks) depth count =
     (case dget d k of
        None \<Rightarrow> walk_at d ks depth count
      | Some v \<Rightarrow> (case walk v depth count of Inl e \<Rightarrow> Inl e | Inr c \<Rightarrow> walk_at d ks depth c))"
| "walk_choices d [] depth count = Inr count"
| "walk_choices d (k # ks) depth count =
     (case dget d k of
        None \<Rightarrow> walk_choices d ks depth count
      | Some (PList vs) \<Rightarrow>
          (if length vs > 12 then Inl ''Verification alternatives exceed limit''
           else case walk_all vs depth count of Inl e \<Rightarrow> Inl e | Inr c \<Rightarrow> walk_choices d ks depth c)
      | Some _ \<Rightarrow> Inl ''Verification alternatives exceed limit'')"
  by pat_completeness auto

termination
proof (relation "inv_image (less_than <*lex*> less_than) (case_sum (case_sum
    (\<lambda>(v, depth, count). (2 * size v + 1, 0)) (\<lambda>(d, depth, count). (2 * size (PDict d), 0)))
    (case_sum (\<lambda>(vs, depth, count). (2 * size_list size vs + 1, 0)) (case_sum (\<lambda>(d, ks, depth, count). (2 * size (PDict d), length ks)) (\<lambda>(d, ks, depth, count). (2 * size (PDict d), length ks)))))",
    goal_cases)
  case 1
  show ?case by auto
qed (auto dest: size_dget size_dget_dict size_dget_list)

declare walk.simps [simp del] walk_props.simps [simp del]

section \<open>Validation and assessment\<close>

definition contract_dict :: "pyval \<Rightarrow> pyval \<Rightarrow> (string, pyval) pydict" where
  "contract_dict version schema = [(''version'', version), (''schema'', schema)]"

text \<open>
  The error of an oversized contract is a \<^verbatim>\<open>ValueError\<close> raised inside the \<^verbatim>\<open>try\<close> that turns
  every \<^verbatim>\<open>ValueError\<close> into the message about JSON.
\<close>

definition check_contract :: "schema_lib \<Rightarrow> pyval \<Rightarrow> pyval \<Rightarrow> pyval \<Rightarrow> string + (string, pyval) pydict" where
  "check_contract lib contract version schema =
     (if version \<noteq> PStr ''structured-output.v1'' then Inl ''Unsupported output verification version''
      else case schema of
        PDict d \<Rightarrow>
          if dget d ''type'' \<noteq> Some (PStr ''object'') then Inl ''Top-level schema must be an object''
          else if utf8_len (canonical_text lib contract) > MAX_SCHEMA_BYTES
          then Inl ''Verification contract must be JSON''
          else (case walk schema 0 0 of
                  Inl e \<Rightarrow> Inl e
                | Inr _ \<Rightarrow> if js_schema_ok lib schema then Inr (contract_dict version schema)
                           else Inl ''Invalid output verification schema'')
      | _ \<Rightarrow> Inl ''Top-level schema must be an object'')"

definition validate_contract :: "schema_lib \<Rightarrow> pyval \<Rightarrow> string + (string, pyval) pydict" where
  "validate_contract lib contract =
     (case contract of
        PNone \<Rightarrow> Inr []
      | PDict d \<Rightarrow>
          if d = [] then Inr []
          else if set (dkeys d) \<noteq> {''version'', ''schema''} then Inl ''Expected version and schema only''
          else check_contract lib contract (the (dget d ''version'')) (the (dget d ''schema''))
      | _ \<Rightarrow> Inl ''Expected version and schema only'')"

definition assess_base :: "schema_lib \<Rightarrow> (string, pyval) pydict \<Rightarrow> (string, pyval) pydict" where
  "assess_base lib contract =
     [(''status'', PStr ''failed''), (''contract_version'', PStr ''structured-output.v1''),
      (''contract_sha256'', PStr (content_hash lib (PDict contract))),
      (''independently_verified'', PBool False), (''scope'', PStr ''runtime_structured_content_only'')]"

definition judge_output ::
    "schema_lib \<Rightarrow> pyval \<Rightarrow> pyval \<Rightarrow> (string, pyval) pydict \<Rightarrow> (string, pyval) pydict" where
  "judge_output lib schema content result =
     (let errors = js_errors lib schema content
      in if errors \<noteq> []
         then dset ''violation_paths'' (PList (map (\<lambda>p. PStr (take 160 p)) (take 5 errors)))
                (dset ''violation_count'' (PInt (int (min (length errors) 1000)))
                   (dset ''reason'' (PStr ''schema_mismatch'') result))
         else dset ''reason'' (PStr ''structured_output_conforms_to_schema'')
                (dset ''status'' (PStr ''passed'') result))"

definition assess_structured_output ::
    "schema_lib \<Rightarrow> pyval \<Rightarrow> pyval \<Rightarrow> string \<Rightarrow> bool \<Rightarrow> string + (string, pyval) pydict" where
  "assess_structured_output lib contract content status degraded =
     (case validate_contract lib contract of
        Inl e \<Rightarrow> Inl e
      | Inr c \<Rightarrow>
          Inr (if c = [] then [(''status'', PStr ''not_configured''), (''independently_verified'', PBool False)]
               else let result = assess_base lib c in
                 if status \<noteq> ''ok'' \<or> degraded then dset ''reason'' (PStr ''runtime_not_healthy'') result
                 else case content of
                   PDict (f # fs) \<Rightarrow>
                     if utf8_len (canonical_text lib content) > MAX_OUTPUT_BYTES
                     then dset ''reason'' (PStr ''structured_output_oversized'') result
                     else judge_output lib (the (dget c ''schema'')) content
                            (dset ''output_sha256'' (PStr (content_hash lib content)) result)
                 | _ \<Rightarrow> dset ''reason'' (PStr ''structured_output_missing'') result))"

section \<open>The safe subset\<close>

text \<open>The schemas below a schema, in the order \<^verbatim>\<open>walk\<close> visits them.\<close>

definition prop_children :: "(string, pyval) pydict \<Rightarrow> pyval list" where
  "prop_children d = (case dget d ''properties'' of Some (PDict ps) \<Rightarrow> map snd ps | _ \<Rightarrow> [])"

fun at_children :: "(string, pyval) pydict \<Rightarrow> string list \<Rightarrow> pyval list" where
  "at_children d [] = []"
| "at_children d (k # ks) = (case dget d k of None \<Rightarrow> [] | Some v \<Rightarrow> [v]) @ at_children d ks"

fun choice_children :: "(string, pyval) pydict \<Rightarrow> string list \<Rightarrow> pyval list" where
  "choice_children d [] = []"
| "choice_children d (k # ks) =
     (case dget d k of Some (PList vs) \<Rightarrow> vs | _ \<Rightarrow> []) @ choice_children d ks"

definition single_keys :: "string list" where "single_keys = [''items'', ''additionalProperties'', ''not'']"
definition choice_keys :: "string list" where "choice_keys = [''allOf'', ''anyOf'', ''oneOf'']"

definition sub_schemas :: "(string, pyval) pydict \<Rightarrow> pyval list" where
  "sub_schemas d = prop_children d @ at_children d single_keys @ choice_children d choice_keys"

text \<open>What one object of a schema may hold, its sub-schemas apart.\<close>

definition short_choices :: "(string, pyval) pydict \<Rightarrow> string list \<Rightarrow> bool" where
  "short_choices d ks \<longleftrightarrow> (\<forall>k \<in> set ks. case dget d k of None \<Rightarrow> True | Some (PList vs) \<Rightarrow> length vs \<le> 12 | Some _ \<Rightarrow> False)"

definition short_props :: "(string, pyval) pydict \<Rightarrow> bool" where
  "short_props d \<longleftrightarrow> (case dget d ''properties'' of None \<Rightarrow> True | Some (PDict ps) \<Rightarrow> length ps \<le> 64 | Some _ \<Rightarrow> False)"

definition node_shape :: "(string, pyval) pydict \<Rightarrow> bool" where
  "node_shape d \<longleftrightarrow> set (dkeys d) \<subseteq> set allowed_keywords
     \<and> (case dget d ''$schema'' of None \<Rightarrow> True | Some w \<Rightarrow> w = PStr dialect)
     \<and> short_props d \<and> short_choices d choice_keys \<and> short_list d ''required'' \<and> short_list d ''enum''"

text \<open>The typing judgement: \<open>v\<close> is a schema of the subset that may stand \<open>depth\<close> levels deep.\<close>

inductive safe_schema :: "nat \<Rightarrow> pyval \<Rightarrow> bool" where
  safe_bool: "depth \<le> MAX_DEPTH \<Longrightarrow> safe_schema depth (PBool b)"
| safe_object: "depth \<le> MAX_DEPTH \<Longrightarrow> node_shape d \<Longrightarrow>
    (\<And>v. v \<in> set (sub_schemas d) \<Longrightarrow> safe_schema (depth + 1) v) \<Longrightarrow> safe_schema depth (PDict d)"

inductive_simps safe_schema_bool: "safe_schema depth (PBool b)"
inductive_simps safe_schema_object: "safe_schema depth (PDict d)"
inductive_cases safe_schema_other: "safe_schema depth v"

lemma prop_children_size: "v \<in> set (prop_children d) \<Longrightarrow> size v < size (PDict d)"
  using size_list_estimation' [of v "prop_children d" "size v" size]
  by (auto simp: prop_children_def size_list_map split: option.splits pyval.splits dest!: size_dget_dict)

lemma at_children_size: "v \<in> set (at_children d ks) \<Longrightarrow> size v < size (PDict d)"
  by (induction ks) (auto split: option.splits dest!: size_dget [OF sym])

lemma choice_children_size: "v \<in> set (choice_children d ks) \<Longrightarrow> size v < size (PDict d)"
proof (induction ks)
  case (Cons k ks)
  show ?case
  proof (cases "v \<in> set (choice_children d ks)")
    case False
    with Cons.prems obtain vs where vs: "dget d k = Some (PList vs)" "v \<in> set vs"
      by (auto split: option.splits pyval.splits dest: sym)
    show ?thesis using size_dget_list [OF vs(1)] size_list_estimation' [OF vs(2), of "size v" size] by simp
  qed (use Cons.IH in simp)
qed simp

function node_count :: "pyval \<Rightarrow> nat" where
  "node_count v = (case v of PDict d \<Rightarrow> Suc (sum_list (map node_count (sub_schemas d))) | _ \<Rightarrow> 1)"
  by pat_completeness auto
termination
  by (relation "measure size")
    (auto simp: sub_schemas_def simp del: pyval.size dest: prop_children_size at_children_size choice_children_size)

declare node_count.simps [simp del]

lemma node_count_leaf [simp]: "node_count (PBool b) = 1"
  by (subst node_count.simps) simp

lemma node_count_object: "node_count (PDict d) = Suc (sum_list (map node_count (sub_schemas d)))"
  by (subst node_count.simps) simp

text \<open>Walking a list of schemas that sit \<open>depth\<close> deep.\<close>

abbreviation all_safe :: "nat \<Rightarrow> pyval list \<Rightarrow> nat \<Rightarrow> nat \<Rightarrow> bool" where
  "all_safe depth vs count c \<equiv> (\<forall>v \<in> set vs. safe_schema depth v)
     \<and> c = count + sum_list (map node_count vs) \<and> c \<le> MAX_SCHEMA_NODES"

lemma all_safe_append:
  "all_safe depth (us @ vs) count c \<longleftrightarrow> (\<exists>m. all_safe depth us count m \<and> all_safe depth vs m c)"
  by auto

lemma safe_object_iff:
  "safe_schema depth (PDict d) \<and> c = count + node_count (PDict d) \<and> c \<le> MAX_SCHEMA_NODES \<longleftrightarrow>
     depth \<le> MAX_DEPTH \<and> count + 1 \<le> MAX_SCHEMA_NODES \<and> node_shape d \<and> all_safe (depth + 1) (sub_schemas d) (count + 1) c"
  by (auto simp: safe_schema_object node_count_object)

lemma sum_case_Inr:
  "(case r of Inl e \<Rightarrow> Inl e | Inr x \<Rightarrow> k x) = Inr y \<longleftrightarrow> (\<exists>x. r = Inr x \<and> k x = Inr y)"
  by (cases r) auto

lemma walk_spec:
  "count \<le> MAX_SCHEMA_NODES \<Longrightarrow> walk v depth count = Inr c \<longleftrightarrow>
     safe_schema depth v \<and> c = count + node_count v \<and> c \<le> MAX_SCHEMA_NODES"
  "count \<le> MAX_SCHEMA_NODES \<Longrightarrow> walk_props d depth count = Inr c \<longleftrightarrow>
     short_props d \<and> all_safe depth (prop_children d) count c"
  "count \<le> MAX_SCHEMA_NODES \<Longrightarrow> walk_all vs depth count = Inr c \<longleftrightarrow> all_safe depth vs count c"
  "count \<le> MAX_SCHEMA_NODES \<Longrightarrow> walk_at d ks depth count = Inr c \<longleftrightarrow> all_safe depth (at_children d ks) count c"
  "count \<le> MAX_SCHEMA_NODES \<Longrightarrow> walk_choices d ks depth count = Inr c \<longleftrightarrow>
     short_choices d ks \<and> all_safe depth (choice_children d ks) count c"
proof (induction v depth count and d depth count and vs depth count and d ks depth count and d ks depth count
    arbitrary: c and c and c and c and c rule: walk_walk_props_walk_all_walk_at_walk_choices.induct)
  case (1 v depth count)
  show ?case
  proof (cases "count + 1 \<le> MAX_SCHEMA_NODES \<and> depth \<le> MAX_DEPTH")
    case lim: True
    show ?thesis
    proof (cases v)
      case (PDict d)
      show ?thesis
      proof (cases "set (dkeys d) \<subseteq> set allowed_keywords \<and> (case dget d ''$schema'' of None \<Rightarrow> True | Some w \<Rightarrow> w = PStr dialect)")
        case shape: True
        then have dia: "\<not> (case dget d ''$schema'' of None \<Rightarrow> False | Some w \<Rightarrow> w \<noteq> PStr dialect)"
          by (simp split: option.splits)
        from lim have g: "\<not> (MAX_SCHEMA_NODES < count + 1 \<or> MAX_DEPTH < depth)" by simp
        from shape have k: "\<not> \<not> set (dkeys d) \<subseteq> set allowed_keywords" by simp
        note ih = "1.IH" [OF g PDict k dia]
        from lim have c1: "count + 1 \<le> MAX_SCHEMA_NODES" by simp
        have e: "walk v depth count = Inr c \<longleftrightarrow> (\<exists>c1 c2. walk_props d (depth + 1) (count + 1) = Inr c1
            \<and> walk_at d [''items'', ''additionalProperties'', ''not''] (depth + 1) c1 = Inr c2
            \<and> walk_choices d [''allOf'', ''anyOf'', ''oneOf''] (depth + 1) c2 = Inr c
            \<and> short_list d ''required'' \<and> short_list d ''enum'')"
          using g k dia unfolding PDict by (subst walk.simps) (auto simp: sum_case_Inr)
        have "walk v depth count = Inr c \<longleftrightarrow> (\<exists>c1 c2. (short_props d \<and> all_safe (depth + 1) (prop_children d) (count + 1) c1)
            \<and> all_safe (depth + 1) (at_children d single_keys) c1 c2
            \<and> (short_choices d choice_keys \<and> all_safe (depth + 1) (choice_children d choice_keys) c2 c)
            \<and> short_list d ''required'' \<and> short_list d ''enum'')"
          unfolding e
        proof (intro ex_cong1)
          fix c1' c2
          have p: "walk_props d (depth + 1) (count + 1) = Inr c1' \<longleftrightarrow>
              short_props d \<and> all_safe (depth + 1) (prop_children d) (count + 1) c1'"
            by (rule ih(1) [OF c1])
          have a: "walk_at d [''items'', ''additionalProperties'', ''not''] (depth + 1) c1' = Inr c2 \<longleftrightarrow>
              all_safe (depth + 1) (at_children d single_keys) c1' c2"
            if x: "walk_props d (depth + 1) (count + 1) = Inr c1'"
          proof -
            have "c1' \<le> MAX_SCHEMA_NODES" using x p by blast
            then show ?thesis unfolding single_keys_def by (rule ih(2) [OF x])
          qed
          have c: "walk_choices d [''allOf'', ''anyOf'', ''oneOf''] (depth + 1) c2 = Inr c \<longleftrightarrow>
              short_choices d choice_keys \<and> all_safe (depth + 1) (choice_children d choice_keys) c2 c"
            if x: "walk_props d (depth + 1) (count + 1) = Inr c1'"
              and y: "walk_at d [''items'', ''additionalProperties'', ''not''] (depth + 1) c1' = Inr c2"
          proof -
            have "c2 \<le> MAX_SCHEMA_NODES" using y a [OF x] by blast
            then show ?thesis unfolding choice_keys_def by (rule ih(3) [OF x y])
          qed
          show "(walk_props d (depth + 1) (count + 1) = Inr c1' \<and>
              walk_at d [''items'', ''additionalProperties'', ''not''] (depth + 1) c1' = Inr c2 \<and>
              walk_choices d [''allOf'', ''anyOf'', ''oneOf''] (depth + 1) c2 = Inr c \<and>
              short_list d ''required'' \<and> short_list d ''enum'') \<longleftrightarrow>
            ((short_props d \<and> all_safe (depth + 1) (prop_children d) (count + 1) c1')
             \<and> all_safe (depth + 1) (at_children d single_keys) c1' c2
             \<and> (short_choices d choice_keys \<and> all_safe (depth + 1) (choice_children d choice_keys) c2 c)
             \<and> short_list d ''required'' \<and> short_list d ''enum'')"
            unfolding p [symmetric] using a c by blast
        qed
        also have "\<dots> \<longleftrightarrow> node_shape d \<and> all_safe (depth + 1) (sub_schemas d) (count + 1) c"
          using shape unfolding node_shape_def sub_schemas_def all_safe_append by blast
        finally show ?thesis using lim unfolding PDict safe_object_iff by simp
      next
        case False
        then have "\<not> node_shape d" by (auto simp: node_shape_def)
        moreover from False lim PDict have "walk v depth count \<noteq> Inr c"
          by (subst walk.simps) (auto split: option.splits)
        ultimately show ?thesis by (simp add: PDict safe_object_iff)
      qed
    qed (use lim in \<open>auto simp: walk.simps safe_schema_bool elim: safe_schema_other\<close>)
  next
    case False
    then show ?thesis
      by (auto simp: walk.simps node_count_object elim!: safe_schema_other)
  qed
next
  case (2 d depth count)
  then show ?case
    by (auto simp: walk_props.simps short_props_def prop_children_def split: option.splits pyval.splits)
next
  case (3 depth count)
  then show ?case by auto
next
  case (4 v vs depth count)
  have w: "walk v depth count = Inr m \<longleftrightarrow> safe_schema depth v \<and> m = count + node_count v \<and> m \<le> MAX_SCHEMA_NODES" for m
    by (rule "4.IH"(1) [OF "4.prems"])
  have vs: "walk_all vs depth m = Inr c \<longleftrightarrow> all_safe depth vs m c" if "walk v depth count = Inr m" for m
    using "4.IH"(2) [OF that] that w by blast
  have "walk_all (v # vs) depth count = Inr c \<longleftrightarrow> (\<exists>m. walk v depth count = Inr m \<and> all_safe depth vs m c)"
    using vs by (auto simp: sum_case_Inr)
  also have "\<dots> \<longleftrightarrow> all_safe depth (v # vs) count c"
    unfolding w by auto
  finally show ?case .
next
  case (5 d depth count)
  then show ?case by auto
next
  case (6 d k ks depth count)
  then show ?case by (cases "dget d k") (auto simp: sum_case_Inr)
next
  case (7 d depth count)
  then show ?case by (auto simp: short_choices_def)
next
  case (8 d k ks depth count)
  show ?case
  proof (cases "dget d k")
    case None
    with 8 show ?thesis by (auto simp: short_choices_def)
  next
    case (Some w)
    show ?thesis
    proof (cases w)
      case (PList vs)
      with Some 8 show ?thesis by (auto simp: short_choices_def sum_case_Inr)
    qed (use Some in \<open>simp_all add: short_choices_def\<close>)
  qed
qed

section \<open>What validation and assessment promise\<close>

text \<open>A contract of the accepted form: version, schema and the judgement on the schema.\<close>

definition safe_contract :: "schema_lib \<Rightarrow> pyval \<Rightarrow> (string, pyval) pydict \<Rightarrow> bool" where
  "safe_contract lib contract schema \<longleftrightarrow>
     (\<exists>d. contract = PDict d \<and> set (dkeys d) = {''version'', ''schema''}
        \<and> dget d ''version'' = Some (PStr ''structured-output.v1'') \<and> dget d ''schema'' = Some (PDict schema))
     \<and> dget schema ''type'' = Some (PStr ''object'')
     \<and> safe_schema 0 (PDict schema) \<and> node_count (PDict schema) \<le> MAX_SCHEMA_NODES
     \<and> utf8_len (canonical_text lib contract) \<le> MAX_SCHEMA_BYTES \<and> js_schema_ok lib (PDict schema)"

definition accepted_contract :: "pyval \<Rightarrow> (string, pyval) pydict" where
  "accepted_contract schema = contract_dict (PStr ''structured-output.v1'') schema"

lemma walk_start: "(\<exists>c. walk v 0 0 = Inr c) \<longleftrightarrow> safe_schema 0 v \<and> node_count v \<le> MAX_SCHEMA_NODES"
  using walk_spec(1) [of 0 v 0] by (auto simp: MAX_SCHEMA_NODES_def)

lemma check_contract_Inr:
  "check_contract lib contract version schema = Inr r \<longleftrightarrow>
     version = PStr ''structured-output.v1'' \<and> r = contract_dict version schema
     \<and> (\<exists>d. schema = PDict d \<and> dget d ''type'' = Some (PStr ''object''))
     \<and> safe_schema 0 schema \<and> node_count schema \<le> MAX_SCHEMA_NODES
     \<and> utf8_len (canonical_text lib contract) \<le> MAX_SCHEMA_BYTES \<and> js_schema_ok lib schema"
proof (cases schema)
  case (PDict d)
  show ?thesis
    using walk_start [of schema] unfolding check_contract_def PDict
    by (auto simp: sum_case_Inr split: if_splits)
qed (simp_all add: check_contract_def)

lemma dkeys_dget: "k \<in> set (dkeys d) \<Longrightarrow> \<exists>v. dget d k = Some v"
  by (induction d) (force simp: dkeys_def dget_Cons)+

lemma validate_iff:
  "validate_contract lib contract = Inr r \<longleftrightarrow>
     ((contract = PNone \<or> contract = PDict []) \<and> r = [])
     \<or> (\<exists>schema. safe_contract lib contract schema \<and> r = accepted_contract (PDict schema))"
proof (cases contract)
  case (PDict d)
  show ?thesis
  proof (cases "set (dkeys d) = {''version'', ''schema''}")
    case True
    from True obtain w where w: "dget d ''version'' = Some w" using dkeys_dget [of "''version''" d] by blast
    from True obtain s where s: "dget d ''schema'' = Some s" using dkeys_dget [of "''schema''" d] by blast
    from w have "d \<noteq> []" by (cases d) simp_all
    then have v: "validate_contract lib contract = check_contract lib contract w s"
      using True w s by (simp add: validate_contract_def PDict)
    have "check_contract lib contract w s = Inr r \<longleftrightarrow> (\<exists>schema. safe_contract lib contract schema \<and> r = accepted_contract (PDict schema))"
      using True w s unfolding check_contract_Inr safe_contract_def accepted_contract_def PDict
      by (cases s) auto
    with v \<open>d \<noteq> []\<close> PDict show ?thesis by simp
  qed (use PDict in \<open>auto simp: validate_contract_def safe_contract_def\<close>)
qed (auto simp: validate_contract_def safe_contract_def)

text \<open>Neither the judgement nor the validation depends on the order of the keys.\<close>

lemma prop_children_sorted:
  "set (prop_children (sorted_fields d)) = sort_keys ` set (prop_children d)"
  "sum_list (map f (prop_children (sorted_fields d))) = sum_list (map (\<lambda>v. f (sort_keys v)) (prop_children d))" for f :: "pyval \<Rightarrow> nat"
proof -
  have "set (prop_children (sorted_fields d)) = sort_keys ` set (prop_children d)
    \<and> sum_list (map f (prop_children (sorted_fields d))) = sum_list (map (\<lambda>v. f (sort_keys v)) (prop_children d))"
  proof (cases "dget d ''properties''")
    case (Some v)
    then show ?thesis
    proof (cases v)
      case (PDict ps)
      with Some sorted_fields_sum [of f ps] show ?thesis by (simp add: prop_children_def)
    qed (simp_all add: prop_children_def)
  qed (simp add: prop_children_def)
  then show "set (prop_children (sorted_fields d)) = sort_keys ` set (prop_children d)"
    "sum_list (map f (prop_children (sorted_fields d))) = sum_list (map (\<lambda>v. f (sort_keys v)) (prop_children d))" by blast+
qed

lemma at_children_sorted: "at_children (sorted_fields d) ks = map sort_keys (at_children d ks)"
  by (induction ks) (auto split: option.split)

lemma choice_children_sorted: "choice_children (sorted_fields d) ks = map sort_keys (choice_children d ks)"
proof (induction ks)
  case (Cons k ks)
  have "(case map_option sort_keys (dget d k) of Some (PList vs) \<Rightarrow> vs | _ \<Rightarrow> [])
      = map sort_keys (case dget d k of Some (PList vs) \<Rightarrow> vs | _ \<Rightarrow> [])"
    by (cases "dget d k"; cases "the (dget d k)") (auto simp: sort_items_map)
  with Cons show ?case by simp
qed simp

lemma sub_schemas_sorted:
  "set (sub_schemas (sorted_fields d)) = sort_keys ` set (sub_schemas d)"
  "sum_list (map f (sub_schemas (sorted_fields d))) = sum_list (map (\<lambda>v. f (sort_keys v)) (sub_schemas d))" for f :: "pyval \<Rightarrow> nat"
  by (simp_all add: sub_schemas_def prop_children_sorted at_children_sorted choice_children_sorted image_Un comp_def)

lemma short_sorted: "short_list (sorted_fields d) k = short_list d k" "short_props (sorted_fields d) = short_props d"
    "short_choices (sorted_fields d) ks = short_choices d ks"
proof -
  have l: "(case map_option sort_keys v of None \<Rightarrow> True | Some (PList vs) \<Rightarrow> length vs \<le> n | Some _ \<Rightarrow> False)
      = (case v of None \<Rightarrow> True | Some (PList vs) \<Rightarrow> length vs \<le> n | Some _ \<Rightarrow> False)" for v n
    by (cases v; cases "the v") (auto simp: sort_items_map)
  show "short_list (sorted_fields d) k = short_list d k" "short_choices (sorted_fields d) ks = short_choices d ks"
    unfolding short_list_def short_choices_def sorted_fields_simps(1) l by (rule refl)+
  show "short_props (sorted_fields d) = short_props d" unfolding short_props_def
    by (cases "dget d ''properties''"; cases "the (dget d ''properties'')") auto
qed

lemma node_shape_sorted: "node_shape (sorted_fields d) = node_shape d"
proof -
  have "(case map_option sort_keys v of None \<Rightarrow> True | Some w \<Rightarrow> w = PStr dialect) = (case v of None \<Rightarrow> True | Some w \<Rightarrow> w = PStr dialect)" for v
    by (cases v) (auto simp: sort_keys_leaf)
  then show ?thesis by (simp add: node_shape_def short_sorted)
qed

lemma safe_schema_sorted: "(safe_schema depth (sort_keys v) = safe_schema depth v) \<and> node_count (sort_keys v) = node_count v"
proof (induction v arbitrary: depth rule: node_count.induct)
  case (1 v)
  show ?case
  proof (cases v)
    case (PDict d)
    have "sum_list (map node_count (sub_schemas (sorted_fields d))) = sum_list (map node_count (sub_schemas d))"
      unfolding sub_schemas_sorted(2) by (rule arg_cong [where f = sum_list], rule map_cong) (use 1 [OF PDict] in simp_all)
    moreover have "(\<forall>w \<in> set (sub_schemas (sorted_fields d)). safe_schema (depth + 1) w) = (\<forall>w \<in> set (sub_schemas d). safe_schema (depth + 1) w)"
      unfolding sub_schemas_sorted(1) using 1 [OF PDict] by simp
    ultimately show ?thesis unfolding PDict sort_keys.simps safe_schema_object node_count_object node_shape_sorted by auto
  next
    case (PList vs)
    have "\<not> safe_schema depth (PList us)" for us by (auto elim: safe_schema.cases)
    then show ?thesis by (simp add: PList node_count.simps)
  qed (simp_all)
qed

definition reads_by_key :: "schema_lib \<Rightarrow> bool" where
  "reads_by_key lib \<longleftrightarrow> (\<forall>v w. same_json v w \<longrightarrow> js_schema_ok lib v = js_schema_ok lib w)"

lemma safe_contract_same:
  assumes "safe_contract lib v schema" "same_json v w" "reads_by_key lib"
  obtains schema' where "safe_contract lib w schema'" "same_json (PDict schema) (PDict schema')"
proof -
  obtain d where d: "v = PDict d" "set (dkeys d) = {''version'', ''schema''}"
      "dget d ''version'' = Some (PStr ''structured-output.v1'')" "dget d ''schema'' = Some (PDict schema)"
    and r: "dget schema ''type'' = Some (PStr ''object'')" "safe_schema 0 (PDict schema)"
      "node_count (PDict schema) \<le> MAX_SCHEMA_NODES" "utf8_len (canonical_text lib v) \<le> MAX_SCHEMA_BYTES"
      "js_schema_ok lib (PDict schema)"
    using assms(1) by (auto simp: safe_contract_def)
  have "sort_keys w = PDict (sorted_fields d)" using assms(2) d(1) by (simp add: same_json_def)
  then obtain e where w: "w = PDict e" "sorted_fields d = sorted_fields e" by (auto simp: sort_keys_dict)
  have get: "map_option sort_keys (dget e k) = map_option sort_keys (dget d k)" for k
    using sorted_fields_simps(1) [of d k] sorted_fields_simps(1) [of e k] w(2) by simp
  have keys: "set (dkeys e) = set (dkeys d)" using sorted_fields_simps(2) [of d] sorted_fields_simps(2) [of e] w(2) by simp
  obtain schema' where s: "dget e ''schema'' = Some (PDict schema')" "same_json (PDict schema) (PDict schema')"
    using get [of "''schema''"] d(4) by (auto simp: same_json_def sort_keys_dict)
  have ver: "dget e ''version'' = Some (PStr ''structured-output.v1'')"
    using get [of "''version''"] d(3) by (auto simp: sort_keys_leaf)
  have sf: "sorted_fields schema = sorted_fields schema'" using s(2) by (simp add: same_json_def)
  have "map_option sort_keys (dget schema' ''type'') = Some (PStr ''object'')"
    using sorted_fields_simps(1) [of schema "''type''"] sorted_fields_simps(1) [of schema' "''type''"] sf r(1) by simp
  then have ty: "dget schema' ''type'' = Some (PStr ''object'')" by (auto simp: sort_keys_leaf)
  have "safe_schema 0 (PDict schema')" "node_count (PDict schema') = node_count (PDict schema)"
    using safe_schema_sorted [of 0 "PDict schema"] safe_schema_sorted [of 0 "PDict schema'"] s(2) r(2) by (simp_all add: same_json_def)
  moreover have "canonical_text lib w = canonical_text lib v" using assms(2) by (simp add: canonical_text_def same_json_def)
  moreover have "js_schema_ok lib (PDict schema')" using assms(3) s(2) r(5) by (auto simp: reads_by_key_def)
  ultimately have "safe_contract lib w schema'"
    using r w(1) keys d(2) ver s(1) ty by (auto simp: safe_contract_def)
  then show thesis using s(2) that by blast
qed

lemma validate_same:
  assumes "validate_contract lib v = Inr c" "same_json v w" "reads_by_key lib"
  obtains c' where "validate_contract lib w = Inr c'" "same_json (PDict c) (PDict c')"
proof -
  from assms(1) consider (plain) "v = PNone \<or> v = PDict []" "c = []"
    | (safe) schema where "safe_contract lib v schema" "c = accepted_contract (PDict schema)"
    unfolding validate_iff by blast
  then show thesis
  proof cases
    case plain
    have "w = PNone \<or> w = PDict []"
      using plain(1)
    proof
      assume "v = PNone"
      then show ?thesis using assms(2) by (metis same_json_def sort_keys.simps(3) sort_keys_leaf(3))
    next
      assume "v = PDict []"
      then have "sort_keys w = PDict (sorted_fields [])" using assms(2) by (simp add: same_json_def)
      then obtain e where "w = PDict e" "sorted_fields e = sorted_fields []" by (auto simp: sort_keys_dict)
      then show ?thesis using sorted_fields_simps(3) [of e] sorted_fields_simps(3) [of "[]"] by simp
    qed
    then show thesis using that [of "[]"] plain(2) by (auto simp: validate_contract_def same_json_def)
  next
    case safe
    obtain schema' where s: "safe_contract lib w schema'" "same_json (PDict schema) (PDict schema')"
      by (rule safe_contract_same [OF safe(1) assms(2,3)])
    have "same_json (PDict c) (PDict (accepted_contract (PDict schema')))"
      using s(2) by (simp add: safe(2) accepted_contract_def contract_dict_def same_json_def)
    moreover have "validate_contract lib w = Inr (accepted_contract (PDict schema'))" unfolding validate_iff using s(1) by blast
    ultimately show thesis using that by blast
  qed
qed

text \<open>What is known of the output when the assessment passes it, and the receipt it then writes.\<close>

definition conforming :: "schema_lib \<Rightarrow> pyval \<Rightarrow> pyval \<Rightarrow> string \<Rightarrow> bool \<Rightarrow> (string, pyval) pydict \<Rightarrow> bool" where
  "conforming lib contract content status degraded schema \<longleftrightarrow>
     safe_contract lib contract schema \<and> status = ''ok'' \<and> \<not> degraded
     \<and> (\<exists>f fs. content = PDict (f # fs)) \<and> utf8_len (canonical_text lib content) \<le> MAX_OUTPUT_BYTES
     \<and> js_errors lib (PDict schema) content = []"

definition passed_receipt :: "schema_lib \<Rightarrow> (string, pyval) pydict \<Rightarrow> pyval \<Rightarrow> (string, pyval) pydict" where
  "passed_receipt lib schema content =
     [(''status'', PStr ''passed''), (''contract_version'', PStr ''structured-output.v1''),
      (''contract_sha256'', PStr (content_hash lib (PDict (accepted_contract (PDict schema))))),
      (''independently_verified'', PBool False), (''scope'', PStr ''runtime_structured_content_only''),
      (''output_sha256'', PStr (content_hash lib content)),
      (''reason'', PStr ''structured_output_conforms_to_schema'')]"

lemmas assess_simps = assess_base_def judge_output_def dset_def dget_def Let_def

lemma judge_status:
  "dget (judge_output lib schema content (dset ''output_sha256'' h (assess_base lib c))) ''status'' = Some (PStr ''passed'')
     \<longleftrightarrow> js_errors lib schema content = []"
  by (simp add: assess_simps)

lemma accepted_schema: "accepted_contract s \<noteq> []" "dget (accepted_contract s) ''schema'' = Some s"
  by (simp_all add: accepted_contract_def contract_dict_def dget_Cons)

lemma validate_accepted:
  assumes "validate_contract lib contract = Inr c"
  shows "c = [] \<or> (\<exists>schema. safe_contract lib contract schema \<and> c = accepted_contract (PDict schema))"
  using assms unfolding validate_iff by blast

lemma safe_contract_unique:
  "safe_contract lib contract s \<Longrightarrow> safe_contract lib contract s' \<Longrightarrow> s' = s"
  unfolding safe_contract_def by (elim conjE exE) simp

lemma safe_contract_validates:
  "safe_contract lib contract schema \<Longrightarrow> validate_contract lib contract = Inr (accepted_contract (PDict schema))"
  unfolding validate_iff by blast

lemma assess_passed:
  assumes "safe_contract lib contract schema"
  shows "assess_structured_output lib contract content status degraded = Inr r \<and> dget r ''status'' = Some (PStr ''passed'')
    \<longleftrightarrow> conforming lib contract content status degraded schema \<and> r = passed_receipt lib schema content"
proof (cases "status = ''ok'' \<and> \<not> degraded \<and> (\<exists>f fs. content = PDict (f # fs))
    \<and> utf8_len (canonical_text lib content) \<le> MAX_OUTPUT_BYTES")
  case True
  then obtain f fs where c: "content = PDict (f # fs)" by blast
  have a: "assess_structured_output lib contract content status degraded =
      Inr (judge_output lib (PDict schema) content
        (dset ''output_sha256'' (PStr (content_hash lib content)) (assess_base lib (accepted_contract (PDict schema)))))"
    using True safe_contract_validates [OF assms]
    by (auto simp: assess_structured_output_def accepted_schema Let_def)
  show ?thesis
  proof (cases "js_errors lib (PDict schema) content = []")
    case ok: True
    have "judge_output lib (PDict schema) content
        (dset ''output_sha256'' (PStr (content_hash lib content)) (assess_base lib (accepted_contract (PDict schema))))
        = passed_receipt lib schema content"
      using ok by (simp add: assess_simps passed_receipt_def)
    moreover have "conforming lib contract content status degraded schema" using True ok assms by (simp add: conforming_def)
    ultimately show ?thesis using a judge_status ok by (metis sum.inject(2))
  qed (use a judge_status in \<open>auto simp: conforming_def\<close>)
next
  case False
  have "dget r ''status'' \<noteq> Some (PStr ''passed'')" if "assess_structured_output lib contract content status degraded = Inr r"
    using that False safe_contract_validates [OF assms]
    by (auto simp: assess_structured_output_def accepted_schema assess_simps split: if_splits pyval.splits list.splits)
  with False show ?thesis by (auto simp: conforming_def)
qed

lemma assess_unpassed:
  assumes "\<nexists>schema. safe_contract lib contract schema"
    and "assess_structured_output lib contract content status degraded = Inr r"
  shows "dget r ''status'' \<noteq> Some (PStr ''passed'')"
  using assms validate_accepted [of lib contract]
  by (auto simp: assess_structured_output_def dget_Cons split: sum.splits)

lemma assess_iff:
  "assess_structured_output lib contract content status degraded = Inr r \<and> dget r ''status'' = Some (PStr ''passed'')
    \<longleftrightarrow> (\<exists>schema. conforming lib contract content status degraded schema \<and> r = passed_receipt lib schema content)"
proof (cases "\<exists>schema. safe_contract lib contract schema")
  case True
  then obtain schema where s: "safe_contract lib contract schema" by blast
  have "conforming lib contract content status degraded s' \<Longrightarrow> s' = schema" for s'
    using safe_contract_unique [OF s] by (simp add: conforming_def)
  with assess_passed [OF s] show ?thesis by blast
next
  case False
  then show ?thesis using assess_unpassed by (auto simp: conforming_def)
qed

section \<open>Properties\<close>

text \<open>
  C27: A saved task's output contract is accepted exactly when it is absent or empty, or has the supported
  version and nothing else beside a schema, is at most 8192 bytes long in canonical form, and the schema has the
  top-level type object, is accepted by the typing judgement at depth zero with at most 256 nodes, and is
  a valid schema to the JSON Schema library.
\<close>

theorem contract_typing:
  "validate_contract lib contract = Inr r \<longleftrightarrow>
     ((contract = PNone \<or> contract = PDict []) \<and> r = [])
     \<or> (\<exists>schema. safe_contract lib contract schema \<and> r = accepted_contract (PDict schema))"
  by (rule validate_iff)

text \<open>
  C28: The assessment passes an output exactly when the contract is a safe one, the run was healthy,
  the output is a non-empty object within the limit and the schema library finds no error in it; the
  receipt names the hashes of the contract and of the output and does not claim independent verification.
\<close>

theorem assessment_exact:
  "assess_structured_output lib contract content status degraded = Inr r \<and> dget r ''status'' = Some (PStr ''passed'')
    \<longleftrightarrow> (\<exists>schema. conforming lib contract content status degraded schema \<and> r = passed_receipt lib schema content)"
  by (rule assess_iff)

end
