(* ===== verification/AutomationExecution.thy ===== *)
theory AutomationExecution
  imports AutomationTaskLaws TaskContract ClaimHeartbeat
begin

text \<open>
  The execution and the review of saved tasks, \<^verbatim>\<open>services/automation/execution.py\<close> under the heartbeat of
  \<open>ClaimHeartbeat\<close>. Other sessions apply any operations to the task store between
  the calls of an execution. What the chat runtime does with the task (its result, an exception,
  a cancellation) and when the heartbeats fall are arguments; \<open>xe_url\<close> is \<^verbatim>\<open>urlsplit\<close>, \<open>None\<close> for its \<^verbatim>\<open>ValueError\<close>.
\<close>

section \<open>Receipts\<close>

datatype exec_status = XOk | XDegraded | XError | XGate

fun status_value :: "exec_status \<Rightarrow> string" where
  "status_value XOk = ''ok''"
| "status_value XDegraded = ''degraded''"
| "status_value XError = ''error''"
| "status_value XGate = ''gate''"

record runtime_result =
  rr_answer :: string
  rr_status :: exec_status
  rr_content :: pyval
  rr_degraded :: bool
  rr_correlation :: "string option"
  rr_response :: "string option"
  rr_message :: "string option"
  rr_conversation :: "string option"
  rr_origin :: "string option"
  rr_provider :: "string option"
  rr_model :: "string option"
  rr_artifacts :: "pyval list"
  rr_attachments :: "pyval list"
  rr_sources :: "pyval list"
  rr_citations :: "pyval list"

record url_parts =
  up_scheme :: string
  up_host :: "string option"
  up_user :: "string option"
  up_password :: "string option"

record exec_env =
  xe_lib :: schema_lib
  xe_url :: "string \<Rightarrow> url_parts option"
  xe_max_chars :: int
  xe_lease :: int
  xe_heartbeat :: int

datatype exec_error =
    XIdentity | XConfig | XMissing | XBusy | XLost | XCancelled | XRaised string | XLimit | XContract string | XIncomplete
  | XStore task_error

definition given :: "string option \<Rightarrow> bool" where
  "given v \<longleftrightarrow> (case v of None \<Rightarrow> False | Some t \<Rightarrow> t \<noteq> [])"

definition shown_url :: "exec_env \<Rightarrow> string \<Rightarrow> pyval" where
  "shown_url xe url =
     (case xe_url xe url of
        None \<Rightarrow> PNone
      | Some p \<Rightarrow> if up_scheme p \<notin> {''https'', ''http''} \<or> \<not> given (up_host p) \<or> length url > 1600 \<or> given (up_user p)
                    \<or> given (up_password p) then PNone else PStr url)"

definition source_ref :: "exec_env \<Rightarrow> pyval \<Rightarrow> pyval" where
  "source_ref xe v =
     (case v of
        PDict d \<Rightarrow> PDict [
          (''title'', case py_or (vget d ''title'' PNone) (vget d ''name'' PNone) of PStr t \<Rightarrow> PStr (take 240 t) | _ \<Rightarrow> PNone),
          (''url'', case vget d ''url'' PNone of PStr u \<Rightarrow> shown_url xe u | _ \<Rightarrow> PNone)]
      | _ \<Rightarrow> PDict [(''title'', PNone), (''url'', PNone)])"

definition text_ref :: "string option \<Rightarrow> pyval" where
  "text_ref v = (case v of None \<Rightarrow> PNone | Some t \<Rightarrow> if strip t = [] then PNone else PStr (take 160 t))"

text \<open>\<^verbatim>\<open>_runtime_result_receipt\<close>; \<open>None\<close> for an answer limit out of range.\<close>

definition runtime_receipt :: "exec_env \<Rightarrow> runtime_result \<Rightarrow> (string, pyval) pydict option" where
  "runtime_receipt xe res =
     (if \<not> (2400 \<le> xe_max_chars xe \<and> xe_max_chars xe \<le> 262144) then None
      else Some
        [(''runtime_status'', PStr (status_value (rr_status res))),
         (''correlation_id'', text_ref (rr_correlation res)),
         (''response_id'', text_ref (rr_response res)),
         (''assistant_message_id'', text_ref (rr_message res)),
         (''conversation_id'', text_ref (rr_conversation res)),
         (''response_source'', text_ref (rr_origin res)),
         (''actual_provider'', text_ref (rr_provider res)),
         (''actual_model'', text_ref (rr_model res)),
         (''degraded_mode'', PBool (rr_degraded res)),
         (''answer_preview'', PStr (take 2400 (rr_answer res))),
         (''answer_text'', PStr (take (nat (xe_max_chars xe)) (rr_answer res))),
         (''answer_truncated'', PBool (int (length (rr_answer res)) > xe_max_chars xe)),
         (''artifact_count'', PInt (int (length (rr_artifacts res)))),
         (''attachment_count'', PInt (int (length (rr_attachments res)))),
         (''source_count'', PInt (int (length (rr_sources res)))),
         (''source_refs_truncated'', PBool (length (rr_sources res) > 20)),
         (''sources'', PList (map (source_ref xe) (take 20 (rr_sources res)))),
         (''citation_count'', PInt (int (length (rr_citations res)))),
         (''independently_verified'', PBool False)])"

text \<open>The receipt of an execution, as the last call of \<^verbatim>\<open>execute_saved_task\<close> builds it.\<close>

definition result_receipt ::
    "exec_env \<Rightarrow> (string, pyval) pydict \<Rightarrow> string \<Rightarrow> runtime_result \<Rightarrow> exec_error + (string, pyval) pydict" where
  "result_receipt xe contract req res =
     (case runtime_receipt xe res of
        None \<Rightarrow> Inl XLimit
      | Some rc \<Rightarrow>
          (case assess_structured_output (xe_lib xe) (PDict contract) (rr_content res) (status_value (rr_status res)) (rr_degraded res) of
             Inl e \<Rightarrow> Inl (XContract e)
           | Inr a \<Rightarrow> Inr (rc @ [(''execution_request_id'', PStr req), (''machine_verification'', PDict a)])))"

section \<open>Execution under a claim\<close>

text \<open>
  A heartbeat that fell due: what others did before it, and the call that renews the claim, with the
  class name of the exception the database raises when it fails.
\<close>

record beat =
  hb_others :: "task_op list"
  hb_db :: bool
  hb_now :: int
  hb_clk :: int
  hb_error :: string

definition renew_beat ::
    "auto_env \<Rightarrow> string \<Rightarrow> string \<Rightarrow> string \<Rightarrow> int \<Rightarrow> beat \<Rightarrow> task_store \<Rightarrow> (string + bool) \<times> task_store" where
  "renew_beat env x tenant token lease b s =
     (case renew_task_claim env (hb_db b) (hb_now b) (hb_clk b) x tenant token lease (task_run env (hb_others b) s) of
        (Inl e, s1) \<Rightarrow> (Inl (case e of TaskValue _ \<Rightarrow> ''ValueError'' | TaskDriver \<Rightarrow> hb_error b), s1)
      | (Inr held, s1) \<Rightarrow> (Inr held, s1))"

definition failure_receipt :: "string \<Rightarrow> (string, pyval) pydict" where
  "failure_receipt req = [(''execution_request_id'', PStr req)]"

definition successful :: "runtime_result \<Rightarrow> bool" where
  "successful res \<longleftrightarrow> rr_status res \<in> {XOk, XDegraded} \<and> strip (rr_answer res) \<noteq> []"

definition failure_text :: "runtime_result \<Rightarrow> string option" where
  "failure_text res = (if successful res then None
     else if rr_status res = XGate then Some ''runtime_gate'' else Some ''runtime_execution_failed'')"

text \<open>What is written at the end of an execution: the result, the failure, or nothing.\<close>

definition settle_execution ::
    "exec_env \<Rightarrow> auto_env \<Rightarrow> bool \<Rightarrow> int \<Rightarrow> int \<Rightarrow> string \<Rightarrow> string \<Rightarrow> string \<Rightarrow> string \<Rightarrow> task_row \<Rightarrow> runtime_result run_end \<Rightarrow>
     task_store \<Rightarrow> (exec_error + task_row \<times> runtime_result) \<times> task_store" where
  "settle_execution xe env db now clk x tenant token req task ended s =
     (case ended of
        Finished res \<Rightarrow>
          (case result_receipt xe (td_contract (tk_def task)) req res of
             Inl e \<Rightarrow> (Inl e, s)
           | Inr rc \<Rightarrow>
               (case complete_task env db now clk x tenant token (if successful res then ''ReviewRequired'' else ''Failed'')
                       (failure_text res) (rr_correlation res) rc s of
                  (Inl e, s1) \<Rightarrow> (Inl (XStore e), s1)
                | (Inr None, s1) \<Rightarrow> (Inl XLost, s1)
                | (Inr (Some r), s1) \<Rightarrow> (if successful res then Inr (r, res) else Inl XIncomplete, s1)))
      | Raised e \<Rightarrow>
          (case complete_task env db now clk x tenant token ''Failed'' (Some e) None (failure_receipt req) s of
             (Inl e', s1) \<Rightarrow> (Inl (XStore e'), s1)
           | (Inr None, s1) \<Rightarrow> (Inl XLost, s1)
           | (Inr (Some r), s1) \<Rightarrow> (Inl (XRaised e), s1))
      | Cancelled \<Rightarrow>
          (Inl XCancelled,
           snd (complete_task env db now clk x tenant token ''Failed'' (Some ''Task execution cancelled'') None (failure_receipt req) s))
      | Lost \<Rightarrow> (Inl XLost, s))"

text \<open>The surroundings of one execution.\<close>

record exec_plan =
  ep_db_read :: bool
  ep_between :: "task_op list"
  ep_db_claim :: bool
  ep_now :: int
  ep_clk :: int
  ep_after :: "task_op list"
  ep_db_again :: bool
  ep_beats :: "beat list"
  ep_stop :: "string option"
  ep_end :: "runtime_result run_end"
  ep_final :: "task_op list"
  ep_db_end :: bool
  ep_end_now :: int
  ep_end_clk :: int

definition identity_text :: "string option \<Rightarrow> string" where
  "identity_text v = (case v of None \<Rightarrow> [] | Some t \<Rightarrow> strip t)"

definition identified :: "string \<Rightarrow> string \<Rightarrow> bool" where
  "identified tenant user \<longleftrightarrow> tenant \<noteq> [] \<and> tenant \<noteq> ''default'' \<and> user \<noteq> []"

definition claim_config_ok :: "exec_env \<Rightarrow> bool" where
  "claim_config_ok xe \<longleftrightarrow> xe_lease xe \<ge> 30 \<and> xe_heartbeat xe \<ge> 1 \<and> 2 * xe_heartbeat xe < xe_lease xe"

definition run_claimed ::
    "exec_env \<Rightarrow> auto_env \<Rightarrow> string \<Rightarrow> string \<Rightarrow> string \<Rightarrow> string \<Rightarrow> exec_plan \<Rightarrow> task_row \<Rightarrow> task_store \<Rightarrow>
     (exec_error + task_row \<times> runtime_result) \<times> task_store" where
  "run_claimed xe env x tenant token req pl task s =
     (let (ended, s1) = run_with_claim_heartbeat (renew_beat env x tenant token (xe_lease xe)) (xe_heartbeat xe) (ep_stop pl)
             (ep_end pl) (ep_beats pl) s
      in settle_execution xe env (ep_db_end pl) (ep_end_now pl) (ep_end_clk pl) x tenant token req task ended
           (task_run env (ep_final pl) s1))"

definition execute_saved_task ::
    "exec_env \<Rightarrow> auto_env \<Rightarrow> string option \<Rightarrow> string option \<Rightarrow> string \<Rightarrow> string \<Rightarrow> string \<Rightarrow> exec_plan \<Rightarrow> task_store \<Rightarrow>
     (exec_error + task_row \<times> runtime_result) \<times> task_store" where
  "execute_saved_task xe env tenant user x token req pl s =
     (let t = identity_text tenant; u = identity_text user
      in if \<not> identified t u then (Inl XIdentity, s)
         else if \<not> claim_config_ok xe then (Inl XConfig, s)
         else case get_task env (ep_db_read pl) x t (Some u) s of
           Inl e \<Rightarrow> (Inl (XStore e), s)
         | Inr None \<Rightarrow> (Inl XMissing, s)
         | Inr (Some _) \<Rightarrow>
             (case mark_task_running env (ep_db_claim pl) (ep_now pl) (ep_clk pl) x t token (xe_lease xe) u
                     (task_run env (ep_between pl) s) of
                (Inl e, s1) \<Rightarrow> (Inl (XStore e), s1)
              | (Inr None, s1) \<Rightarrow>
                  (let s2 = task_run env (ep_after pl) s1
                   in (Inl (case get_task env (ep_db_again pl) x t (Some u) s2 of
                              Inl e \<Rightarrow> XStore e | Inr None \<Rightarrow> XMissing | Inr (Some _) \<Rightarrow> XBusy), s2))
              | (Inr (Some task), s1) \<Rightarrow> run_claimed xe env x t token req pl task s1))"

section \<open>Review\<close>

datatype review_error =
    RIdentity | RDecision | RNote | RUuid | RMissing | RForbidden | RNotReviewable | RMachine | RIncomplete | RStale
  | RPython py_exn | RStore task_error

text \<open>\<^verbatim>\<open>len(v)\<close>.\<close>

fun py_len :: "pyval \<Rightarrow> py_exn + int" where
  "py_len (PStr s) = Inr (int (length s))"
| "py_len (PList xs) = Inr (int (length xs))"
| "py_len (PDict d) = Inr (int (length d))"
| "py_len _ = Inl TypeError"

text \<open>What the creator must have before approving: the machine check, then the complete output.\<close>

definition machine_blocks :: "(string, pyval) pydict \<Rightarrow> (string, pyval) pydict \<Rightarrow> py_exn + bool" where
  "machine_blocks contract receipt =
     (if contract = [] then Inr False
      else case py_or (vget receipt ''machine_verification'' PNone) (PDict []) of
        PDict m \<Rightarrow> Inr (vget m ''status'' PNone \<noteq> PStr ''passed'')
      | _ \<Rightarrow> Inl AttributeError)"

definition count_of :: "(string, pyval) pydict \<Rightarrow> string \<Rightarrow> py_exn + int" where
  "count_of receipt k = py_int (py_or (vget receipt k PNone) (PInt 0))"

definition output_missing :: "(string, pyval) pydict \<Rightarrow> py_exn + bool" where
  "output_missing rc =
     (if \<not> truthy (vget rc ''answer_text'' PNone) \<or> vget rc ''answer_truncated'' PNone \<noteq> PBool False
          \<or> vget rc ''source_refs_truncated'' PNone \<noteq> PBool False then Inr True
      else rbind (count_of rc ''artifact_count'') (\<lambda>artifacts.
        if artifacts > 0 then Inr True
        else rbind (count_of rc ''attachment_count'') (\<lambda>attachments.
          if attachments > 0 then Inr True
          else rbind (py_len (py_or (vget rc ''sources'' PNone) (PList []))) (\<lambda>n.
            map_sum id (\<lambda>m. n \<noteq> m) (count_of rc ''source_count'')))))"

definition approval_check :: "task_row \<Rightarrow> review_error option" where
  "approval_check r =
     (case machine_blocks (td_contract (tk_def r)) (tk_receipt r) of
        Inl e \<Rightarrow> Some (RPython e)
      | Inr True \<Rightarrow> Some RMachine
      | Inr False \<Rightarrow>
          (case output_missing (tk_receipt r) of
             Inl e \<Rightarrow> Some (RPython e)
           | Inr True \<Rightarrow> Some RIncomplete
           | Inr False \<Rightarrow> None))"

definition review_check :: "string \<Rightarrow> string \<Rightarrow> string \<Rightarrow> task_row option \<Rightarrow> review_error option" where
  "review_check user attempt decision v =
     (case v of
        None \<Rightarrow> Some RMissing
      | Some r \<Rightarrow>
          if tk_owner r \<noteq> user then Some RForbidden
          else if tk_status r \<noteq> ''ReviewRequired'' \<or> tk_execution r \<noteq> Some attempt then Some RNotReviewable
          else if decision = ''approve'' then approval_check r else None)"

text \<open>\<^verbatim>\<open>review_saved_task\<close>; \<open>between\<close> is what others do between the check and the update.\<close>

definition review_saved_task ::
    "auto_env \<Rightarrow> bool \<Rightarrow> bool \<Rightarrow> bool \<Rightarrow> task_op list \<Rightarrow> int \<Rightarrow> string \<Rightarrow> string option \<Rightarrow> string option \<Rightarrow> string \<Rightarrow> string \<Rightarrow> string \<Rightarrow>
     task_store \<Rightarrow> (review_error + task_row) \<times> task_store" where
  "review_saved_task env db_read db ev between clk x tenant user execution decision remark s =
     (let t = identity_text tenant; u = identity_text user
      in if \<not> identified t u then (Inl RIdentity, s)
         else if decision \<notin> {''approve'', ''reject''} then (Inl RDecision, s)
         else if length remark > 2000 then (Inl RNote, s)
         else case py_uuid execution of
           None \<Rightarrow> (Inl RUuid, s)
         | Some attempt \<Rightarrow>
             (case get_task env db_read x t (Some u) s of
                Inl e \<Rightarrow> (Inl (RStore e), s)
              | Inr v \<Rightarrow>
                  (case review_check u attempt decision v of
                     Some e \<Rightarrow> (Inl e, s)
                   | None \<Rightarrow>
                       (case review_task env db ev clk x t u attempt decision remark (task_run env between s) of
                          (Inl e, s1) \<Rightarrow> (Inl (RStore e), s1)
                        | (Inr None, s1) \<Rightarrow> (Inl RStale, s1)
                        | (Inr (Some r), s1) \<Rightarrow> (Inr r, s1)))))"

end
