(* ===== verification/AutomationExecutionLaws.thy ===== *)
theory AutomationExecutionLaws
  imports AutomationExecution
begin

text \<open>
  What an execution of a saved task promises while other sessions work on the same store: its result is
  published only under its own unbroken claim, and the checks that precede a review agree.
\<close>

section \<open>A claim that is not broken\<close>

text \<open>As long as a row carries the token, it is the row the token was given.\<close>

definition own_row :: "string \<Rightarrow> task_row \<Rightarrow> task_row \<Rightarrow> bool" where
  "own_row tok r0 r \<longleftrightarrow> (tk_claim r = Some tok \<longrightarrow> tk_def r = tk_def r0 \<and> tk_owner r = tk_owner r0 \<and> tk_tenant r = tk_tenant r0
     \<and> tk_runs r = tk_runs r0 \<and> tk_execution r = Some tok)"

definition own_claim :: "string \<Rightarrow> task_row \<Rightarrow> task_row option \<Rightarrow> bool" where
  "own_claim tok r0 v \<longleftrightarrow> (\<forall>r. v = Some r \<longrightarrow> own_row tok r0 r)"

text \<open>An operation of another session does not claim with this token.\<close>

definition foreign :: "string \<Rightarrow> task_op \<Rightarrow> bool" where
  "foreign tok op \<longleftrightarrow> (case op of TkStart db now clk y tenant token lease owner \<Rightarrow> py_uuid token \<noteq> Some tok | _ \<Rightarrow> True)"

lemma own_update:
  assumes "\<And>r. tk_id (f r) = tk_id r" "\<And>r. P r \<Longrightarrow> own_row tok r0 r \<Longrightarrow> own_row tok r0 (f r)" "own_claim tok r0 (task_of x s)"
  shows "own_claim tok r0 (task_of x (snd (update_task P f s)))"
  using assms by (auto simp: update_task_def own_claim_def row_simps)

lemma own_tenant:
  "(\<And>t. own_claim tok r0 (task_of x (snd (f t)))) \<Longrightarrow> own_claim tok r0 (task_of x s) \<Longrightarrow>
     own_claim tok r0 (task_of x (snd (for_tenant env db tenant s f)))"
  by (simp add: for_tenant_def split: option.split)

lemma own_unclaimed: "tk_claim r = None \<Longrightarrow> own_row tok r0 r"
  by (simp add: own_row_def)

lemma own_changes:
  "own_row tok r0 (end_run now st err rt rc r)"
  "own_row tok r0 r \<Longrightarrow> own_row tok r0 (end_review clk st rv remark r)"
  "own_row tok r0 r \<Longrightarrow> own_row tok r0 (r\<lparr>tk_expires := e, tk_updated := u\<rparr>)"
  "tok' \<noteq> tok \<Longrightarrow> own_row tok r0 (start_run now clk tok' lease r)"
  by (simp_all add: own_row_def end_run_def end_review_def start_run_def)

lemma own_complete:
  "own_claim tok r0 (task_of x s) \<Longrightarrow>
     own_claim tok r0 (task_of x (snd (complete_task env db now clk y tenant token st err rt rc s)))"
  unfolding complete_task_def by (auto intro!: own_tenant own_update simp: own_changes split: option.split)

lemma own_renew:
  "own_claim tok r0 (task_of x s) \<Longrightarrow>
     own_claim tok r0 (task_of x (snd (renew_task_claim env db now clk y tenant token lease s)))"
  unfolding renew_task_claim_def
  by (auto simp: Let_def split_beta own_changes intro!: own_tenant own_update split: option.split)

lemma own_review:
  assumes "own_claim tok r0 (task_of x s)"
  shows "own_claim tok r0 (task_of x (snd (review_current env ev clk y t reviewer attempt decision remark s)))"
  using assms by (auto simp: review_current_def Let_def row_simps own_claim_def own_changes split: option.splits bool.splits)

lemma own_step:
  assumes "tasks_ok env s" "foreign tok op" "own_claim tok r0 (task_of x s)"
  shows "own_claim tok r0 (task_of x (task_step env op s))"
proof (cases op)
  case (TkCreate db now tenant owner d)
  have "own_claim tok r0 (row_at tk_id x (ts_tasks s @ [r]))" if "tk_claim r = None" for r
    using that assms(3) by (simp add: own_claim_def own_unclaimed row_simps split: option.split)
  then show ?thesis unfolding TkCreate task_step.simps create_task_def
    by (intro own_tenant) (simp_all add: Let_def assms(3) split: option.split)
next
  case (TkDelete db y tenant owner)
  have "distinct (map tk_id (ts_tasks s))" using assms(1) by (simp add: tasks_ok_def table_ok_def)
  then show ?thesis unfolding TkDelete task_step.simps delete_task_def
    by (intro own_tenant) (use assms(3) in \<open>auto simp: Let_def row_simps own_claim_def split: option.splits\<close>)
next
  case (TkStart db now clk y tenant token lease owner)
  show ?thesis unfolding TkStart task_step.simps mark_task_running_def
    using assms(2,3) TkStart by (auto simp: foreign_def own_changes intro!: own_tenant own_update split: option.split)
next
  case (TkRenew db now clk y tenant token lease)
  then show ?thesis using own_renew [OF assms(3)] by simp
next
  case (TkComplete db now clk y tenant token st err rt rc)
  then show ?thesis using own_complete [OF assms(3)] by simp
next
  case (TkReview db ev clk y tenant user execution decision remark)
  show ?thesis unfolding TkReview task_step.simps review_task_def
    by (auto intro!: own_tenant own_review assms(3) split: option.split)
qed

lemma own_run:
  "tasks_ok env s \<Longrightarrow> \<forall>op \<in> set ops. foreign tok op \<Longrightarrow> own_claim tok r0 (task_of x s) \<Longrightarrow>
     own_claim tok r0 (task_of x (task_run env ops s))"
proof (induction ops arbitrary: s)
  case (Cons op ops)
  then show ?case using own_step [of env s tok op r0 x] task_step_ok [of env s op] by simp
qed simp

lemma run_ok: "tasks_ok env s \<Longrightarrow> tasks_ok env (task_run env ops s)"
  unfolding task_run_eq by (rule saved_tasks.inv_run)

text \<open>A renewal keeps the store well formed and the claim unbroken.\<close>

interpretation task_claim: claim_keeper "renew_beat env y tenant token lease" "\<lambda>b. \<forall>op \<in> set (hb_others b). foreign tok op"
    "\<lambda>s. tasks_ok env s \<and> own_claim tok r0 (task_of x s)" for env y tenant token lease tok r0 x
proof
  fix b :: beat and s
  assume f: "\<forall>op \<in> set (hb_others b). foreign tok op" and s: "tasks_ok env s \<and> own_claim tok r0 (task_of x s)"
  let ?s = "task_run env (hb_others b) s"
  have "tasks_ok env ?s" "own_claim tok r0 (task_of x ?s)" using f s by (auto intro: run_ok own_run)
  moreover have "snd (renew_beat env y tenant token lease b s) =
      task_step env (TkRenew (hb_db b) (hb_now b) (hb_clk b) y tenant token lease) ?s"
    by (simp add: renew_beat_def split: prod.split sum.split)
  ultimately show "tasks_ok env (snd (renew_beat env y tenant token lease b s))
      \<and> own_claim tok r0 (task_of x (snd (renew_beat env y tenant token lease b s)))"
    by (simp add: task_step_ok own_step foreign_def del: task_step.simps)
qed

section \<open>Claiming and publishing\<close>

lemma update_hit:
  assumes "update_task P f s = (Inr (Some r), s1)" "distinct (map tk_id (ts_tasks s))"
    and "\<And>q. P q \<Longrightarrow> tk_id q = x" "\<And>q. tk_id (f q) = tk_id q"
  shows "\<exists>q. task_of x s = Some q \<and> P q \<and> r = f q \<and> task_of x s1 = Some r"
proof -
  obtain q where q: "find P (ts_tasks s) = Some q" "r = f q" "s1 = s\<lparr>ts_tasks := update_where P f (ts_tasks s)\<rparr>"
    using assms(1) by (auto simp: update_task_def)
  then have "P q" "q \<in> set (ts_tasks s)" by (auto simp: find_Some_iff)
  then have "task_of x s = Some q" using assms(2) assms(3) [of q] row_at_mem by metis
  with q \<open>P q\<close> assms(4) show ?thesis by (auto simp: row_simps)
qed

lemma tasks_ok_distinct: "tasks_ok env s \<Longrightarrow> distinct (map tk_id (ts_tasks s))"
  by (simp add: tasks_ok_def table_ok_def)

lemma mark_started:
  assumes "mark_task_running env db now clk x t token lease u s = (Inr (Some r), s1)" "tasks_ok env s" "py_uuid token = Some tok"
  shows "\<exists>q. task_of x s = Some q \<and> may_start clk q \<and> r = start_run now clk tok lease q \<and> task_of x s1 = Some r"
proof -
  obtain t' u' where "update_task (\<lambda>r. task_at x t' r \<and> tk_owner r = u' \<and> may_start clk r) (start_run now clk tok lease) s = (Inr (Some r), s1)"
    using assms(1,3) by (auto simp: mark_task_running_def for_tenant_def split: if_splits option.splits)
  from update_hit [OF this tasks_ok_distinct [OF assms(2)], of x] show ?thesis by (auto simp: task_at_def)
qed

lemma complete_published:
  assumes "complete_task env db now clk x t token st err rt rc s = (Inr (Some r), s1)" "tasks_ok env s" "py_uuid token = Some tok"
  shows "\<exists>q. task_of x s = Some q \<and> claims clk tok q \<and> r = end_run now st err rt rc q \<and> task_of x s1 = Some r"
proof -
  obtain t' where "update_task (\<lambda>r. task_at x t' r \<and> claims clk tok r) (end_run now st err rt rc) s = (Inr (Some r), s1)"
    using assms(1,3) by (auto simp: complete_task_def for_tenant_def split: if_splits option.splits)
  from update_hit [OF this tasks_ok_distinct [OF assms(2)], of x] show ?thesis by (auto simp: task_at_def)
qed

lemma settle_published:
  assumes "settle_execution xe env db now clk x t token req task ended s = (Inr (r, res), s1)" "tasks_ok env s" "py_uuid token = Some tok"
  shows "ended = Finished res \<and> successful res \<and> (\<exists>q rc. task_of x s = Some q \<and> claims clk tok q
    \<and> result_receipt xe (td_contract (tk_def task)) req res = Inr rc
    \<and> r = end_run now ''ReviewRequired'' None (rr_correlation res) rc q \<and> task_of x s1 = Some r)"
proof (cases ended)
  case (Finished res')
  obtain rc where rc: "result_receipt xe (td_contract (tk_def task)) req res' = Inr rc"
    using assms(1) by (auto simp: settle_execution_def Finished split: sum.splits)
  obtain a s2 where c: "complete_task env db now clk x t token (if successful res' then ''ReviewRequired'' else ''Failed'')
      (failure_text res') (rr_correlation res') rc s = (a, s2)" by force
  have "a = Inr (Some r) \<and> successful res' \<and> res' = res \<and> s2 = s1"
    using assms(1) by (simp add: settle_execution_def Finished rc c split: sum.splits option.splits if_splits)
  then have "complete_task env db now clk x t token ''ReviewRequired'' None (rr_correlation res) rc s = (Inr (Some r), s1)"
    and "successful res" "res' = res" using c by (auto simp: failure_text_def)
  with complete_published [OF this(1) assms(2,3)] rc Finished show ?thesis by blast
qed (use assms(1) in \<open>auto simp: settle_execution_def split: sum.splits option.splits prod.splits\<close>)

definition later_ops :: "exec_plan \<Rightarrow> task_op list" where
  "later_ops pl = concat (map hb_others (ep_beats pl)) @ ep_final pl"

lemma execute_stages:
  assumes "execute_saved_task xe env tenant user x token req pl s = (Inr (r, res), s')"
  obtains t u task s1 where "mark_task_running env (ep_db_claim pl) (ep_now pl) (ep_clk pl) x t token (xe_lease xe) u
        (task_run env (ep_between pl) s) = (Inr (Some task), s1)"
    and "run_claimed xe env x t token req pl task s1 = (Inr (r, res), s')"
  using assms unfolding execute_saved_task_def
  by (auto simp: Let_def split: if_splits sum.splits option.splits prod.splits)

lemma run_claimed_published:
  assumes "run_claimed xe env x t token req pl task s1 = (Inr (r, res), s')" "tasks_ok env s1" "py_uuid token = Some tok"
    and "task_of x s1 = Some task" "tk_execution task = Some tok" "\<forall>op \<in> set (later_ops pl). foreign tok op"
  shows "ep_end pl = Finished res \<and> successful res \<and> task_of x s' = Some r \<and> tk_status r = ''ReviewRequired''
    \<and> tk_execution r = Some tok \<and> tk_runs r = tk_runs task \<and> tk_def r = tk_def task \<and> tk_owner r = tk_owner task
    \<and> result_receipt xe (td_contract (tk_def task)) req res = Inr (tk_receipt r)"
proof -
  let ?h = "run_with_claim_heartbeat (renew_beat env x t token (xe_lease xe)) (xe_heartbeat xe) (ep_stop pl) (ep_end pl) (ep_beats pl) s1"
  let ?s = "task_run env (ep_final pl) (snd ?h)"
  have "own_claim tok task (task_of x s1)" using assms(4,5) by (simp add: own_claim_def own_row_def)
  moreover have "\<forall>b \<in> set (ep_beats pl). \<forall>op \<in> set (hb_others b). foreign tok op"
    using assms(6) by (auto simp: later_ops_def)
  ultimately have h: "tasks_ok env (snd ?h)" "own_claim tok task (task_of x (snd ?h))"
    using task_claim.keeps_inv [of "ep_beats pl" tok env s1 task x] assms(2) by blast+
  then have ok: "tasks_ok env ?s" and own: "own_claim tok task (task_of x ?s)"
    using assms(6) by (auto simp: later_ops_def intro: run_ok own_run)
  have st: "settle_execution xe env (ep_db_end pl) (ep_end_now pl) (ep_end_clk pl) x t token req task (fst ?h) ?s = (Inr (r, res), s')"
    using assms(1) by (simp add: run_claimed_def split_beta)
  from settle_published [OF st ok assms(3)] obtain q where e: "fst ?h = Finished res" "successful res"
    and q: "task_of x ?s = Some q" "claims (ep_end_clk pl) tok q"
    and rc: "result_receipt xe (td_contract (tk_def task)) req res = Inr (tk_receipt r)"
    and r: "r = end_run (ep_end_now pl) ''ReviewRequired'' None (rr_correlation res) (tk_receipt r) q" "task_of x s' = Some r"
    by (auto simp: end_run_def)
  have "own_row tok task q" "tk_claim q = Some tok" using own q by (auto simp: own_claim_def claims_def)
  then have "tk_execution q = Some tok" "tk_runs q = tk_runs task" "tk_def q = tk_def task" "tk_owner q = tk_owner task"
    by (auto simp: own_row_def)
  moreover have "tk_status r = ''ReviewRequired''" "tk_execution r = tk_execution q" "tk_runs r = tk_runs q" "tk_def r = tk_def q"
    "tk_owner r = tk_owner q" by (subst r(1), simp add: end_run_def)+
  ultimately show ?thesis using e r(2) rc heartbeat_finished [OF e(1)] by auto
qed

section \<open>Receipts that can be approved\<close>

lemma receipt_fields:
  assumes "result_receipt xe contract req res = Inr rc"
  obtains a where "assess_structured_output (xe_lib xe) (PDict contract) (rr_content res) (status_value (rr_status res)) (rr_degraded res) = Inr a"
    and "dget rc ''machine_verification'' = Some (PDict a)"
    and "dget rc ''answer_text'' = Some (PStr (take (nat (xe_max_chars xe)) (rr_answer res)))"
    and "dget rc ''answer_truncated'' = Some (PBool (int (length (rr_answer res)) > xe_max_chars xe))"
    and "dget rc ''source_refs_truncated'' = Some (PBool (length (rr_sources res) > 20))"
    and "dget rc ''artifact_count'' = Some (PInt (int (length (rr_artifacts res))))"
    and "dget rc ''attachment_count'' = Some (PInt (int (length (rr_attachments res))))"
    and "dget rc ''source_count'' = Some (PInt (int (length (rr_sources res))))"
    and "dget rc ''sources'' = Some (PList (map (source_ref xe) (take 20 (rr_sources res))))"
proof -
  obtain rc0 where r0: "runtime_receipt xe res = Some rc0" using assms by (auto simp: result_receipt_def split: option.splits)
  then obtain a where a: "assess_structured_output (xe_lib xe) (PDict contract) (rr_content res) (status_value (rr_status res)) (rr_degraded res) = Inr a"
    and rc: "rc = rc0 @ [(''execution_request_id'', PStr req), (''machine_verification'', PDict a)]"
    using assms by (auto simp: result_receipt_def split: sum.splits)
  have rc0: "rc0 = the (runtime_receipt xe res)" using r0 by simp
  have lim: "2400 \<le> xe_max_chars xe \<and> xe_max_chars xe \<le> 262144" using r0 by (simp add: runtime_receipt_def split: if_splits)
  show ?thesis by (rule that [OF a]; simp add: rc rc0 runtime_receipt_def lim dget_Cons)
qed

definition complete_output :: "exec_env \<Rightarrow> runtime_result \<Rightarrow> bool" where
  "complete_output xe res \<longleftrightarrow> rr_answer res \<noteq> [] \<and> int (length (rr_answer res)) \<le> xe_max_chars xe \<and> length (rr_sources res) \<le> 20
     \<and> rr_artifacts res = [] \<and> rr_attachments res = []"

definition machine_ok :: "(string, pyval) pydict \<Rightarrow> (string, pyval) pydict \<Rightarrow> bool" where
  "machine_ok contract a \<longleftrightarrow> contract = [] \<or> dget a ''status'' = Some (PStr ''passed'')"

lemma limits: "result_receipt xe contract req res = Inr rc \<Longrightarrow> 0 < xe_max_chars xe"
  by (auto simp: result_receipt_def runtime_receipt_def split: if_splits)

lemma assess_status:
  assumes "assess_structured_output lib contract content status degraded = Inr a"
  shows "\<exists>t. dget a ''status'' = Some (PStr t)"
proof -
  have b: "dget (assess_base lib c) ''status'' = Some (PStr ''failed'')" for c by (simp add: assess_base_def dget_Cons)
  have j: "\<exists>t. dget (judge_output lib schema out (dset k h (assess_base lib c))) ''status'' = Some (PStr t)" if "k \<noteq> ''status''"
    for schema out k h c using that by (auto simp: judge_output_def Let_def dget_dset b)
  show ?thesis using assms
    by (auto simp: assess_structured_output_def Let_def dget_dset dget_Cons b
        intro!: j split: sum.splits if_splits pyval.splits list.splits)
qed

text \<open>Both checks of a receipt the executor wrote ask the same.\<close>

lemma receipt_checks:
  assumes "result_receipt xe (td_contract (tk_def r)) req res = Inr (tk_receipt r)"
  obtains a where "assess_structured_output (xe_lib xe) (PDict (td_contract (tk_def r))) (rr_content res)
        (status_value (rr_status res)) (rr_degraded res) = Inr a"
    and "approvable env r = Some True \<longleftrightarrow> machine_ok (td_contract (tk_def r)) a \<and> complete_output xe res"
    and "approval_check r = None \<longleftrightarrow> machine_ok (td_contract (tk_def r)) a \<and> complete_output xe res"
proof -
  from receipt_fields [OF assms] obtain a where
    as: "assess_structured_output (xe_lib xe) (PDict (td_contract (tk_def r))) (rr_content res) (status_value (rr_status res)) (rr_degraded res) = Inr a"
    and f: "dget (tk_receipt r) ''machine_verification'' = Some (PDict a)"
    "dget (tk_receipt r) ''answer_text'' = Some (PStr (take (nat (xe_max_chars xe)) (rr_answer res)))"
    "dget (tk_receipt r) ''answer_truncated'' = Some (PBool (int (length (rr_answer res)) > xe_max_chars xe))"
    "dget (tk_receipt r) ''source_refs_truncated'' = Some (PBool (length (rr_sources res) > 20))"
    "dget (tk_receipt r) ''artifact_count'' = Some (PInt (int (length (rr_artifacts res))))"
    "dget (tk_receipt r) ''attachment_count'' = Some (PInt (int (length (rr_attachments res))))"
    "dget (tk_receipt r) ''source_count'' = Some (PInt (int (length (rr_sources res))))"
    "dget (tk_receipt r) ''sources'' = Some (PList (map (source_ref xe) (take 20 (rr_sources res))))" by metis
  obtain t where t: "dget a ''status'' = Some (PStr t)" using assess_status [OF as] by blast
  note pos = limits [OF assms]
  have m: "machine_passed env r \<longleftrightarrow> machine_ok (td_contract (tk_def r)) a"
    by (simp add: machine_passed_def machine_ok_def f t)
  have ans: "take (nat (xe_max_chars xe)) (rr_answer res) \<noteq> [] \<longleftrightarrow> rr_answer res \<noteq> []" using pos by simp
  have srcs: "min (length (rr_sources res)) 20 = length (rr_sources res) \<longleftrightarrow> length (rr_sources res) \<le> 20" by auto
  have "approvable env r = Some True \<longleftrightarrow> machine_ok (td_contract (tk_def r)) a \<and> complete_output xe res"
    unfolding approvable_def Let_def f m using pos
    by (auto simp: complete_output_def ans split: option.splits if_splits)
  moreover have "machine_blocks (td_contract (tk_def r)) (tk_receipt r) = Inr (\<not> machine_ok (td_contract (tk_def r)) a)"
    using t by (cases a) (auto simp: machine_blocks_def machine_ok_def f vget_def py_or_def)
  moreover have "output_missing (tk_receipt r) = Inr (\<not> complete_output xe res)"
    using ans by (auto simp: output_missing_def f vget_def py_or_def count_of_def complete_output_def)
  ultimately show ?thesis using that [OF as] by (simp add: approval_check_def split: bool.split)
qed

section \<open>Properties\<close>

text \<open>
  C29: An execution of a saved task that returns has published its result under its own unbroken claim: whatever
  other sessions did meanwhile, the stored task is the task it claimed, waiting for review, with
  its execution id and the receipt of exactly this result, and no other execution started in between.
\<close>

theorem execution_publishes:
  assumes "execute_saved_task xe env tenant user x token req pl (task_run env ops empty_tasks) = (Inr (r, res), s')"
    and "py_uuid token = Some tok" "\<forall>op \<in> set (later_ops pl). foreign tok op"
  shows "task_of x s' = Some r \<and> ep_end pl = Finished res \<and> successful res
    \<and> tk_status r = ''ReviewRequired'' \<and> tk_execution r = Some tok
    \<and> result_receipt xe (td_contract (tk_def r)) req res = Inr (tk_receipt r)
    \<and> (\<exists>q. task_of x (task_run env (ops @ ep_between pl) empty_tasks) = Some q
        \<and> tk_def r = tk_def q \<and> tk_owner r = tk_owner q \<and> tk_runs r = tk_runs q + 1)"
proof -
  let ?s = "task_run env (ep_between pl) (task_run env ops empty_tasks)"
  have ok: "tasks_ok env ?s" by (intro run_ok tasks_reachable_ok)
  from assms(1) obtain t u task s1 where
    m: "mark_task_running env (ep_db_claim pl) (ep_now pl) (ep_clk pl) x t token (xe_lease xe) u ?s = (Inr (Some task), s1)" and
    c: "run_claimed xe env x t token req pl task s1 = (Inr (r, res), s')" by (rule execute_stages)
  from mark_started [OF m ok assms(2)] obtain q where q: "task_of x ?s = Some q"
    and task: "task = start_run (ep_now pl) (ep_clk pl) tok (xe_lease xe) q" "task_of x s1 = Some task" by blast
  have ok1: "tasks_ok env s1"
    using task_step_ok [OF ok, of "TkStart (ep_db_claim pl) (ep_now pl) (ep_clk pl) x t token (xe_lease xe) u"] by (simp add: m)
  have f: "tk_execution task = Some tok" "tk_runs task = tk_runs q + 1" "tk_def task = tk_def q" "tk_owner task = tk_owner q"
    by (simp_all add: task(1) start_run_def)
  have "?s = task_run env (ops @ ep_between pl) empty_tasks" by (simp add: task_run_eq saved_tasks.run_append)
  with run_claimed_published [OF c ok1 assms(2) task(2) f(1) assms(3)] q f show ?thesis by auto
qed

text \<open>
  C30: The check before a review and the condition of the update agree: for a receipt the executor wrote, the
  service lets an approval through exactly when the statement of the repository accepts it.
\<close>

theorem reviews_agree:
  assumes "result_receipt xe (td_contract (tk_def r)) req res = Inr (tk_receipt r)"
  shows "approval_check r = None \<longleftrightarrow> approvable env r = Some True"
  by (rule receipt_checks [OF assms, of env]) simp

text \<open>
  C31: From the schema to the approval: a task that any run of the store made successful, with the receipt of a
  result, shows the whole answer of that result and none of it is hidden in artifacts; if the task
  has an output contract, the contract is safe, the runtime was healthy and the output conforms to it.
\<close>

theorem successful_output_conforms:
  assumes "task_of x (task_run env ops empty_tasks) = Some r" "tk_status r = ''Success''"
    and "result_receipt xe (td_contract (tk_def r)) req res = Inr (tk_receipt r)"
  shows "complete_output xe res \<and> dget (tk_receipt r) ''answer_text'' = Some (PStr (rr_answer res))
    \<and> (td_contract (tk_def r) = [] \<or> (\<exists>schema. conforming (xe_lib xe) (PDict (td_contract (tk_def r))) (rr_content res)
        (status_value (rr_status res)) (rr_degraded res) schema))"
proof -
  have "table_ok tk_id (task_row_ok env (ts_reviews (task_run env ops empty_tasks))) (ts_tasks (task_run env ops empty_tasks))"
    using tasks_reachable_ok by (simp add: tasks_ok_def)
  then have "approvable env r = Some True"
    using assms(1,2) by (auto simp: task_row_ok_def task_shape_def dest: table_row)
  with receipt_checks [OF assms(3), of env] obtain a where
    a: "assess_structured_output (xe_lib xe) (PDict (td_contract (tk_def r))) (rr_content res) (status_value (rr_status res)) (rr_degraded res) = Inr a"
    and ok: "machine_ok (td_contract (tk_def r)) a" "complete_output xe res" by blast
  have "dget (tk_receipt r) ''answer_text'' = Some (PStr (rr_answer res))"
    using receipt_fields [OF assms(3)] ok(2) by (metis complete_output_def nat_int nat_mono take_all)
  moreover have "td_contract (tk_def r) = [] \<or> (\<exists>schema. conforming (xe_lib xe) (PDict (td_contract (tk_def r))) (rr_content res)
        (status_value (rr_status res)) (rr_degraded res) schema)"
    using ok(1) assess_iff [THEN iffD1, OF conjI, OF a] unfolding machine_ok_def by blast
  ultimately show ?thesis using ok(2) by blast
qed

section \<open>Witnesses\<close>

definition sample_xe :: exec_env where
  "sample_xe = \<lparr>xe_lib = \<lparr>js_schema_ok = (\<lambda>_. True), js_errors = (\<lambda>_ _. []), js_float = (\<lambda>_. ''0''), js_sha256 = (\<lambda>_. ''h'')\<rparr>,
     xe_url = (\<lambda>_. None), xe_max_chars = 2400, xe_lease = 60, xe_heartbeat = 1\<rparr>"

definition sample_result :: runtime_result where
  "sample_result = \<lparr>rr_answer = ''yes'', rr_status = XOk, rr_content = PDict [], rr_degraded = False, rr_correlation = Some ''c'',
     rr_response = None, rr_message = None, rr_conversation = None, rr_origin = None, rr_provider = None, rr_model = None,
     rr_artifacts = [], rr_attachments = [], rr_sources = [], rr_citations = []\<rparr>"

definition sample_result_receipt :: "(string, pyval) pydict" where
  "sample_result_receipt = (case result_receipt sample_xe [] ''q'' sample_result of Inr rc \<Rightarrow> rc | Inl _ \<Rightarrow> [])"

lemma sample_result_ok: "result_receipt sample_xe [] ''q'' sample_result = Inr sample_result_receipt"
  by (simp add: sample_result_receipt_def result_receipt_def runtime_receipt_def sample_xe_def assess_structured_output_def
      validate_contract_def)

definition sample_plan :: exec_plan where
  "sample_plan = \<lparr>ep_db_read = True, ep_between = [], ep_db_claim = True, ep_now = 2, ep_clk = 2, ep_after = [], ep_db_again = True,
     ep_beats = [\<lparr>hb_others = [TkStart True 3 3 ''t'' ''w'' (uuid_text 3) 60 sample_owner], hb_db = True, hb_now = 3, hb_clk = 3, hb_error = []\<rparr>],
     ep_stop = None, ep_end = Finished sample_result, ep_final = [], ep_db_end = True, ep_end_now = 4, ep_end_clk = 4\<rparr>"

definition sample_pending :: task_row where
  "sample_pending = \<lparr>tk_def = sample_task, tk_tenant = ''w'', tk_owner = sample_owner, tk_status = ''Pending'',
     tk_last_run = None, tk_error = None, tk_runs = 0, tk_runtime = None, tk_execution = None, tk_receipt = [],
     tk_reviewed_at = None, tk_reviewed_by = None, tk_note = None, tk_claim = None, tk_expires = None, tk_created = 1, tk_updated = 1\<rparr>"

definition sample_started :: task_row where
  "sample_started = start_run 2 2 sample_execution 60 sample_pending"

definition sample_kept :: task_row where
  "sample_kept = sample_started\<lparr>tk_expires := Some (3 + micros_of 60), tk_updated := 3\<rparr>"

definition sample_done :: task_row where
  "sample_done = end_run 4 ''ReviewRequired'' None (Some ''c'') sample_result_receipt sample_kept"

lemma sample_created:
  "task_run sample_env [TkCreate True 1 ''w'' sample_owner sample_task] empty_tasks = \<lparr>ts_tasks = [sample_pending], ts_reviews = []\<rparr>"
  by (simp add: jsonb_plain empty_tasks_def create_task_def for_tenant_def sample_env_def Let_def sample_pending_def)

lemmas sample_rows = for_tenant_def sample_env_def update_task_def update_where_def task_at_def tk_id_def sample_task_def

lemma sample_strip: "strip sample_owner = sample_owner"
  unfolding sample_owner_def by code_simp

lemma sample_owner_nonempty: "sample_owner \<noteq> []"
  unfolding sample_owner_def by code_simp

lemma sample_other_token: "py_uuid (uuid_text 3) = Some (uuid_text 3)" "uuid_text 3 \<noteq> sample_execution"
  by (simp add: py_uuid_canonical) (unfold sample_execution_def, code_simp)

lemma sample_found: "get_task sample_env True ''t'' ''w'' (Some sample_owner) \<lparr>ts_tasks = [sample_pending], ts_reviews = []\<rparr>
    = Inr (Some sample_pending)"
  by (simp add: get_task_def sample_rows sample_pending_def)

lemma sample_mark: "mark_task_running sample_env True 2 2 ''t'' ''w'' sample_execution 60 sample_owner
    \<lparr>ts_tasks = [sample_pending], ts_reviews = []\<rparr> = (Inr (Some sample_started), \<lparr>ts_tasks = [sample_started], ts_reviews = []\<rparr>)"
  by (simp add: mark_task_running_def sample_rows sample_pending_def sample_started_def may_start_def)

lemma sample_started_fields: "tk_id sample_started = ''t''" "tk_tenant sample_started = ''w''" "tk_owner sample_started = sample_owner"
    "tk_status sample_started = ''Running''" "tk_claim sample_started = Some sample_execution"
    "tk_expires sample_started = Some 60000002"
  by (simp_all add: sample_started_def start_run_def sample_pending_def tk_id_def sample_task_def micros_of_def)

lemma sample_other: "task_step sample_env (TkStart True 3 3 ''t'' ''w'' (uuid_text 3) 60 sample_owner)
    \<lparr>ts_tasks = [sample_started], ts_reviews = []\<rparr> = \<lparr>ts_tasks = [sample_started], ts_reviews = []\<rparr>"
  by (simp add: mark_task_running_def for_tenant_def sample_env_def update_task_def update_where_def task_at_def
      sample_started_fields may_start_def sql_not_after_def py_uuid_canonical)

lemma sample_renew: "renew_task_claim sample_env True 3 3 ''t'' ''w'' sample_execution 60 \<lparr>ts_tasks = [sample_started], ts_reviews = []\<rparr>
    = (Inr True, \<lparr>ts_tasks = [sample_kept], ts_reviews = []\<rparr>)"
  by (simp add: renew_task_claim_def for_tenant_def sample_env_def update_task_def update_where_def task_at_def
      sample_started_fields claims_def sql_after_def sample_kept_def)

lemma sample_settled_row: "complete_task sample_env True 4 4 ''t'' ''w'' sample_execution ''ReviewRequired'' None (Some ''c'') sample_result_receipt
    \<lparr>ts_tasks = [sample_kept], ts_reviews = []\<rparr> = (Inr (Some sample_done), \<lparr>ts_tasks = [sample_done], ts_reviews = []\<rparr>)"
  by (simp add: complete_task_def for_tenant_def sample_env_def update_task_def update_where_def task_at_def
      sample_started_fields claims_def sql_after_def sample_kept_def sample_done_def micros_of_def)

lemma sample_contract: "td_contract (tk_def sample_started) = []"
  by (simp add: sample_started_def start_run_def sample_pending_def sample_task_def)

lemma sample_successful: "successful sample_result"
  unfolding sample_result_def successful_def by code_simp

lemma sample_claimed: "run_claimed sample_xe sample_env ''t'' ''w'' sample_execution ''q'' sample_plan sample_started
     \<lparr>ts_tasks = [sample_started], ts_reviews = []\<rparr> = (Inr (sample_done, sample_result), \<lparr>ts_tasks = [sample_done], ts_reviews = []\<rparr>)"
proof -
  have x: "xe_lease sample_xe = 60" "xe_heartbeat sample_xe = 1" by (simp_all add: sample_xe_def)
  have c: "rr_correlation sample_result = Some ''c''" by (simp add: sample_result_def)
  show ?thesis
    using sample_settled_row by (simp add: run_claimed_def run_with_claim_heartbeat_def renew_beat_def sample_plan_def x c sample_renew sample_other [simplified] settle_execution_def
      sample_contract sample_result_ok sample_successful failure_text_def del: task_step.simps add: sample_other)
qed

lemma sample_published:
  "execute_saved_task sample_xe sample_env (Some ''w'') (Some sample_owner) ''t'' sample_execution ''q'' sample_plan
     (task_run sample_env [TkCreate True 1 ''w'' sample_owner sample_task] empty_tasks)
   = (Inr (sample_done, sample_result), \<lparr>ts_tasks = [sample_done], ts_reviews = []\<rparr>)"
proof -
  have w: "strip ''w'' = ''w''" by code_simp
  have x: "xe_lease sample_xe = 60" "claim_config_ok sample_xe" by (simp_all add: sample_xe_def claim_config_ok_def)
  have p: "ep_db_read sample_plan" "ep_between sample_plan = []" "ep_db_claim sample_plan" "ep_now sample_plan = 2" "ep_clk sample_plan = 2"
    by (simp_all add: sample_plan_def)
  show ?thesis unfolding sample_created execute_saved_task_def Let_def
    by (simp add: identity_text_def w sample_strip identified_def sample_owner_nonempty x p sample_found sample_mark sample_claimed)
qed

theorem execution_publishes_witness:
  "task_of ''t'' \<lparr>ts_tasks = [sample_done], ts_reviews = []\<rparr> = Some sample_done \<and> tk_runs sample_done = 1"
proof -
  have f: "\<forall>op \<in> set (later_ops sample_plan). foreign sample_execution op"
    using sample_other_token by (simp add: later_ops_def sample_plan_def foreign_def)
  have b: "[TkCreate True 1 ''w'' sample_owner sample_task] @ ep_between sample_plan = [TkCreate True 1 ''w'' sample_owner sample_task]"
    by (simp add: sample_plan_def)
  have "task_of ''t'' \<lparr>ts_tasks = [sample_pending], ts_reviews = []\<rparr> = Some sample_pending" "tk_runs sample_pending = 0"
    by (simp_all add: row_simps sample_pending_def tk_id_def sample_task_def)
  with execution_publishes [OF sample_published _ f, unfolded b sample_created] show ?thesis by auto
qed

lemma sample_done_receipt: "result_receipt sample_xe (td_contract (tk_def sample_done)) ''q'' sample_result = Inr (tk_receipt sample_done)"
proof -
  have "td_contract (tk_def sample_done) = []" "tk_receipt sample_done = sample_result_receipt"
    using sample_contract by (simp_all add: sample_done_def end_run_def sample_kept_def)
  then show ?thesis using sample_result_ok by simp
qed

theorem reviews_agree_witness: "approval_check sample_done = None \<longleftrightarrow> approvable sample_env sample_done = Some True"
  by (rule reviews_agree [OF sample_done_receipt])

definition sample_success :: task_row where
  "sample_success = end_review 9 ''Success'' sample_owner ''ok'' sample_done"

lemma sample_done_approvable: "approvable sample_env sample_done = Some True"
proof (rule receipt_checks [OF sample_done_receipt, of sample_env])
  fix a
  have "td_contract (tk_def sample_done) = []" using sample_contract by (simp add: sample_done_def end_run_def sample_kept_def)
  moreover have "complete_output sample_xe sample_result" by (simp add: complete_output_def sample_xe_def sample_result_def)
  ultimately show "approvable sample_env sample_done = Some True"
    if "approvable sample_env sample_done = Some True \<longleftrightarrow> machine_ok (td_contract (tk_def sample_done)) a \<and> complete_output sample_xe sample_result"
    using that by (simp add: machine_ok_def)
qed

lemma sample_done_fields: "tk_id sample_done = ''t''" "tk_tenant sample_done = ''w''" "tk_owner sample_done = sample_owner"
    "tk_status sample_done = ''ReviewRequired''" "tk_execution sample_done = Some sample_execution" "tk_claim sample_done = None"
  using sample_started_fields by (simp_all add: sample_done_def end_run_def sample_kept_def tk_id_def sample_started_def start_run_def)

lemma sample_approved:
  "task_of ''t'' (task_run sample_env [TkCreate True 1 ''w'' sample_owner sample_task,
     TkStart True 2 2 ''t'' ''w'' sample_execution 60 sample_owner, TkRenew True 3 3 ''t'' ''w'' sample_execution 60,
     TkComplete True 4 4 ''t'' ''w'' sample_execution ''ReviewRequired'' None (Some ''c'') sample_result_receipt,
     TkReview True True 9 ''t'' ''w'' sample_owner sample_execution ''approve'' ''ok''] empty_tasks) = Some sample_success"
proof -
  have c: "snd (create_task sample_env True 1 ''w'' sample_owner sample_task empty_tasks) = \<lparr>ts_tasks = [sample_pending], ts_reviews = []\<rparr>"
    using sample_created by simp
  have e: "ae_cast sample_env ''w'' = Some ''w''" by (simp add: sample_env_def)
  have "task_of ''t'' (snd (review_task sample_env True True 9 ''t'' ''w'' sample_owner sample_execution ''approve'' ''ok''
      \<lparr>ts_tasks = [sample_done], ts_reviews = []\<rparr>)) = Some sample_success"
    by (simp add: review_task_def review_current_def for_tenant_def e task_at_def sample_done_fields sample_done_approvable
        update_where_def Let_def row_simps sample_success_def)
  then show ?thesis by (simp add: c sample_mark sample_renew sample_settled_row)
qed

theorem successful_output_conforms_witness:
  "complete_output sample_xe sample_result \<and> dget (tk_receipt sample_success) ''answer_text'' = Some (PStr ''yes'')"
proof -
  have "tk_status sample_success = ''Success''" "result_receipt sample_xe (td_contract (tk_def sample_success)) ''q'' sample_result
      = Inr (tk_receipt sample_success)"
    using sample_done_receipt by (simp_all add: sample_success_def end_review_def)
  from successful_output_conforms [OF sample_approved this] show ?thesis by (simp add: sample_result_def)
qed

end
