(* ===== verification/AutomationSchedule.thy ===== *)
theory AutomationSchedule
  imports AutomationTasks ClaimHeartbeat
begin

text \<open>
  Scheduled automation: the cron methods of \<^verbatim>\<open>SqlAutomationRepository\<close>
  (\<^verbatim>\<open>persistence/repositories/automation_repository.py\<close>) and the round of the scheduler that claims, dispatches and
  completes an occurrence (\<^verbatim>\<open>api_routes/automation/cron.py\<close>, \<^verbatim>\<open>services/automation/cron_lease.py\<close>). The
  constraints are those of the table's migration. \<open>cast\<close> is the database's reading of a UUID, \<open>now\<close> the time of a
  transaction, \<open>fresh\<close> a new token. What a dispatch does, and the next occurrence of a schedule (the
  croniter library; \<open>None\<close> for an invalid expression) are arguments.
\<close>

section \<open>Cron commitments\<close>

record cron_row =
  cj_id :: string
  cj_tenant :: string
  cj_owner :: string
  cj_name :: string
  cj_schedule :: string
  cj_type :: string
  cj_target :: string
  cj_enabled :: bool
  cj_action :: string
  cj_next :: int
  cj_last_run :: "int option"
  cj_error :: "string option"
  cj_token :: "string option"
  cj_worker :: "string option"
  cj_claimed_at :: "int option"
  cj_expires :: "int option"
  cj_created :: int
  cj_updated :: int

record cron_record =
  cd_id :: string
  cd_name :: string
  cd_schedule :: string
  cd_type :: string
  cd_target :: string
  cd_enabled :: bool
  cd_action :: string

definition CRON_LEASE_SECONDS :: int where
  "CRON_LEASE_SECONDS = 900"

definition create_cron ::
    "auto_env \<Rightarrow> bool \<Rightarrow> int \<Rightarrow> string \<Rightarrow> string \<Rightarrow> cron_record \<Rightarrow> int \<Rightarrow> cron_row list \<Rightarrow> (task_error + cron_row) \<times> cron_row list" where
  "create_cron env db now tenant owner d next_run s =
     for_tenant env db tenant s (\<lambda>t. case ae_cast env owner of
         None \<Rightarrow> (Inl TaskDriver, s)
       | Some u \<Rightarrow>
           if cd_id d \<in> cj_id ` set s \<or> cd_type d \<notin> {''Task'', ''Job'', ''Sequence''} \<or> cd_action d \<notin> {''execute'', ''enqueue''}
           then (Inl TaskDriver, s)
           else let r = \<lparr>cj_id = cd_id d, cj_tenant = t, cj_owner = u, cj_name = cd_name d, cj_schedule = cd_schedule d,
                         cj_type = cd_type d, cj_target = cd_target d, cj_enabled = cd_enabled d, cj_action = cd_action d,
                         cj_next = next_run, cj_last_run = None, cj_error = None, cj_token = None, cj_worker = None,
                         cj_claimed_at = None, cj_expires = None, cj_created = now, cj_updated = now\<rparr>
                in (Inr r, s @ [r]))"

definition cron_at :: "string \<Rightarrow> string \<Rightarrow> cron_row \<Rightarrow> bool" where
  "cron_at x t r \<longleftrightarrow> cj_id r = x \<and> cj_tenant r = t"

definition list_cron :: "auto_env \<Rightarrow> bool \<Rightarrow> string \<Rightarrow> cron_row list \<Rightarrow> task_error + cron_row list" where
  "list_cron env db tenant s =
     fst (for_tenant env db tenant s (\<lambda>t. (Inr (sort_by_desc cj_created (filter (\<lambda>r. cj_tenant r = t) s)), s)))"

definition get_cron :: "auto_env \<Rightarrow> bool \<Rightarrow> string \<Rightarrow> string \<Rightarrow> cron_row list \<Rightarrow> task_error + cron_row option" where
  "get_cron env db x tenant s = fst (for_tenant env db tenant s (\<lambda>t. (Inr (find (cron_at x t) s), s)))"

definition delete_cron :: "auto_env \<Rightarrow> bool \<Rightarrow> string \<Rightarrow> string \<Rightarrow> cron_row list \<Rightarrow> (task_error + bool) \<times> cron_row list" where
  "delete_cron env db x tenant s =
     for_tenant env db tenant s (\<lambda>t. (Inr (filter (cron_at x t) s \<noteq> []), filter (\<lambda>r. \<not> cron_at x t r) s))"

definition flip_cron :: "int \<Rightarrow> int \<Rightarrow> cron_row \<Rightarrow> cron_row" where
  "flip_cron now next_run r = r\<lparr>cj_enabled := \<not> cj_enabled r, cj_next := (if cj_enabled r then cj_next r else next_run), cj_updated := now\<rparr>"

definition toggle_cron ::
    "auto_env \<Rightarrow> bool \<Rightarrow> int \<Rightarrow> int \<Rightarrow> string \<Rightarrow> string \<Rightarrow> int option \<Rightarrow> cron_row list \<Rightarrow>
     (task_error + cron_row option) \<times> cron_row list" where
  "toggle_cron env db now utcnow x tenant next_run s =
     for_tenant env db tenant s (\<lambda>t.
       let change = flip_cron now (case next_run of None \<Rightarrow> utcnow | Some n \<Rightarrow> n)
       in (Inr (map_option change (find (cron_at x t) s)), update_where (cron_at x t) change s))"

record cron_overview =
  co_total :: nat
  co_enabled :: nat
  co_next :: "string option"
  co_time :: "int option"

definition cron_summary :: "auto_env \<Rightarrow> bool \<Rightarrow> string \<Rightarrow> cron_row list \<Rightarrow> task_error + cron_overview" where
  "cron_summary env db tenant s =
     fst (for_tenant env db tenant s (\<lambda>t.
       let own = filter (\<lambda>r. cj_tenant r = t) s; on = sort_by cj_next (filter cj_enabled own)
       in (Inr \<lparr>co_total = length own, co_enabled = length on,
                co_next = (case on of [] \<Rightarrow> None | r # _ \<Rightarrow> Some (cj_name r)),
                co_time = (case on of [] \<Rightarrow> None | r # _ \<Rightarrow> Some (cj_next r))\<rparr>, s)))"

section \<open>Claims\<close>

definition cron_due :: "int \<Rightarrow> cron_row \<Rightarrow> bool" where
  "cron_due now r \<longleftrightarrow> cj_enabled r \<and> cj_next r \<le> now \<and> (cj_expires r = None \<or> sql_not_after (cj_expires r) now)"

definition claim_cron :: "int \<Rightarrow> string \<Rightarrow> string \<Rightarrow> cron_row \<Rightarrow> cron_row" where
  "claim_cron now fresh worker r = r\<lparr>cj_token := Some fresh, cj_worker := Some worker, cj_claimed_at := Some now,
     cj_expires := Some (now + micros_of CRON_LEASE_SECONDS), cj_updated := now\<rparr>"

definition due_ids :: "int \<Rightarrow> int \<Rightarrow> cron_row list \<Rightarrow> string list" where
  "due_ids now limit s = map cj_id (take (nat limit) (sort_by cj_next (filter (cron_due now) s)))"

definition claim_due_cron_jobs ::
    "bool \<Rightarrow> int \<Rightarrow> string \<Rightarrow> string \<Rightarrow> int \<Rightarrow> cron_row list \<Rightarrow> (task_error + cron_row list) \<times> cron_row list" where
  "claim_due_cron_jobs db now fresh worker limit s =
     (if \<not> db \<or> limit < 0 then (Inl TaskDriver, s)
      else let due = (\<lambda>r. cj_id r \<in> set (due_ids now limit s))
           in (Inr (map (claim_cron now fresh worker) (filter due s)), update_where due (claim_cron now fresh worker) s))"

definition cron_held :: "string \<Rightarrow> string \<Rightarrow> cron_row \<Rightarrow> bool" where
  "cron_held x tok r \<longleftrightarrow> cj_id r = x \<and> cj_token r = Some tok"

definition cron_update ::
    "auto_env \<Rightarrow> bool \<Rightarrow> string \<Rightarrow> (string \<Rightarrow> cron_row \<Rightarrow> bool) \<Rightarrow> (cron_row \<Rightarrow> cron_row) \<Rightarrow> cron_row list \<Rightarrow>
     (task_error + bool) \<times> cron_row list" where
  "cron_update env db token P f s =
     (case ae_cast env token of
        None \<Rightarrow> (Inl TaskDriver, s)
      | Some tok \<Rightarrow> if db then (Inr (filter (P tok) s \<noteq> []), update_where (P tok) f s) else (Inl TaskDriver, s))"

definition renew_cron_claim ::
    "auto_env \<Rightarrow> bool \<Rightarrow> int \<Rightarrow> string \<Rightarrow> string \<Rightarrow> cron_row list \<Rightarrow> (task_error + bool) \<times> cron_row list" where
  "renew_cron_claim env db now x token s =
     cron_update env db token (\<lambda>tok r. cron_held x tok r \<and> sql_after (cj_expires r) now)
       (\<lambda>r. r\<lparr>cj_expires := Some (now + micros_of CRON_LEASE_SECONDS), cj_updated := now\<rparr>) s"

definition end_cron :: "int \<Rightarrow> int \<Rightarrow> string option \<Rightarrow> cron_row \<Rightarrow> cron_row" where
  "end_cron now next_run err r = r\<lparr>cj_next := next_run, cj_last_run := Some now, cj_error := err, cj_token := None,
     cj_worker := None, cj_claimed_at := None, cj_expires := None, cj_updated := now\<rparr>"

definition complete_cron_claim ::
    "auto_env \<Rightarrow> bool \<Rightarrow> int \<Rightarrow> string \<Rightarrow> string \<Rightarrow> int \<Rightarrow> string option \<Rightarrow> cron_row list \<Rightarrow> (task_error + bool) \<times> cron_row list" where
  "complete_cron_claim env db now x token next_run err s =
     cron_update env db token (cron_held x) (end_cron now next_run err) s"

datatype cron_op =
    CrCreate bool int string string cron_record int
  | CrDelete bool string string
  | CrToggle bool int int string string "int option"
  | CrClaim bool int string string int
  | CrRenew bool int string string
  | CrComplete bool int string string int "string option"

fun cron_step :: "auto_env \<Rightarrow> cron_op \<Rightarrow> cron_row list \<Rightarrow> cron_row list" where
  "cron_step env (CrCreate db now tenant owner d next_run) s = snd (create_cron env db now tenant owner d next_run s)"
| "cron_step env (CrDelete db x tenant) s = snd (delete_cron env db x tenant s)"
| "cron_step env (CrToggle db now utcnow x tenant next_run) s = snd (toggle_cron env db now utcnow x tenant next_run s)"
| "cron_step env (CrClaim db now fresh worker limit) s = snd (claim_due_cron_jobs db now fresh worker limit s)"
| "cron_step env (CrRenew db now x token) s = snd (renew_cron_claim env db now x token s)"
| "cron_step env (CrComplete db now x token next_run err) s = snd (complete_cron_claim env db now x token next_run err s)"

fun cron_run :: "auto_env \<Rightarrow> cron_op list \<Rightarrow> cron_row list \<Rightarrow> cron_row list" where
  "cron_run env [] s = s"
| "cron_run env (op # ops) s = cron_run env ops (cron_step env op s)"

section \<open>A round of the scheduler\<close>

definition CRON_HEARTBEAT_SECONDS :: int where
  "CRON_HEARTBEAT_SECONDS = 120"

record cron_beat =
  cb_others :: "cron_op list"
  cb_db :: bool
  cb_now :: int
  cb_error :: string

definition renew_cron_beat :: "auto_env \<Rightarrow> string \<Rightarrow> string \<Rightarrow> cron_beat \<Rightarrow> cron_row list \<Rightarrow> (string + bool) \<times> cron_row list" where
  "renew_cron_beat env x token b s =
     (case renew_cron_claim env (cb_db b) (cb_now b) x token (cron_run env (cb_others b) s) of
        (Inl e, s1) \<Rightarrow> (Inl (cb_error b), s1)
      | (Inr held, s1) \<Rightarrow> (Inr held, s1))"

text \<open>\<^verbatim>\<open>run_with_cron_claim_heartbeat\<close>; the result of a dispatch is not used.\<close>

definition dispatch_under_claim ::
    "auto_env \<Rightarrow> cron_row \<Rightarrow> string option \<Rightarrow> unit run_end \<Rightarrow> cron_beat list \<Rightarrow> cron_row list \<Rightarrow> unit run_end \<times> cron_row list" where
  "dispatch_under_claim env job stop ended bs s =
     (let x = strip (cj_id job); token = (case cj_token job of None \<Rightarrow> [] | Some t \<Rightarrow> strip t)
      in if x = [] \<or> token = [] then (Raised ''CronClaimLost: Cron occurrence has no durable claim'', s)
         else run_with_claim_heartbeat (renew_cron_beat env x token) CRON_HEARTBEAT_SECONDS stop ended bs s)"

text \<open>The error the round records; nothing is recorded for a cancelled dispatch, which the \<^verbatim>\<open>finally\<close> block completes too.\<close>

definition round_error :: "unit run_end \<Rightarrow> string option" where
  "round_error e = (case e of
     Finished _ \<Rightarrow> None | Cancelled \<Rightarrow> None | Raised t \<Rightarrow> Some (take 4000 t)
   | Lost \<Rightarrow> Some ''CronClaimLost: Cron scheduler claim could not be renewed'')"

datatype round_result = RoundFailed | RoundIdle | RoundDone bool | RoundCancelled

record cron_plan =
  cp_db :: bool
  cp_now :: int
  cp_fresh :: string
  cp_worker :: string
  cp_beats :: "cron_beat list"
  cp_stop :: "string option"
  cp_end :: "unit run_end"
  cp_final :: "cron_op list"
  cp_clock :: int
  cp_db_end :: bool
  cp_end_now :: int

text \<open>
  One turn of \<^verbatim>\<open>_cron_executor_loop\<close>; \<open>next_cron\<close> is \<^verbatim>\<open>next_cron_run\<close>, whose error replaces the outcome
  of the dispatch and leaves the claim to expire.
\<close>

definition cron_round ::
    "auto_env \<Rightarrow> (string \<Rightarrow> int \<Rightarrow> int option) \<Rightarrow> cron_plan \<Rightarrow> cron_row list \<Rightarrow> round_result \<times> cron_row list" where
  "cron_round env next_cron pl s =
     (case claim_due_cron_jobs (cp_db pl) (cp_now pl) (cp_fresh pl) (cp_worker pl) 1 s of
        (Inl e, s1) \<Rightarrow> (RoundFailed, s1)
      | (Inr [], s1) \<Rightarrow> (RoundIdle, s1)
      | (Inr (job # _), s1) \<Rightarrow>
          (let (ended, s2) = dispatch_under_claim env job (cp_stop pl) (cp_end pl) (cp_beats pl) s1;
               s3 = cron_run env (cp_final pl) s2
           in case next_cron (cj_schedule job) (cp_clock pl) of
                None \<Rightarrow> (RoundFailed, s3)
              | Some next_run \<Rightarrow>
                  (case complete_cron_claim env (cp_db_end pl) (cp_end_now pl) (cj_id job)
                          (case cj_token job of None \<Rightarrow> [] | Some t \<Rightarrow> t) next_run (round_error ended) s3 of
                     (Inl e, s4) \<Rightarrow> (RoundFailed, s4)
                   | (Inr ok, s4) \<Rightarrow> (if ended = Cancelled then RoundCancelled else RoundDone ok, s4))))"

end
