(* ===== verification/AutomationScheduleLaws.thy ===== *)
theory AutomationScheduleLaws
  imports AutomationSchedule
begin

text \<open>
  What the scheduler's table promises: a claimed occurrence belongs to its claim, a claim takes the
  occurrences that are due longest, and what a round leaves behind.
\<close>

section \<open>Well-formed tables\<close>

definition cron_row_ok :: "cron_row \<Rightarrow> bool" where
  "cron_row_ok r \<longleftrightarrow> (cj_token r = None \<longleftrightarrow> cj_expires r = None)"

abbreviation crons_ok :: "cron_row list \<Rightarrow> bool" where
  "crons_ok s \<equiv> table_ok cj_id cron_row_ok s"

lemma cron_keys [simp]: "cj_id (flip_cron now n r) = cj_id r" "cj_id (claim_cron now fresh worker r) = cj_id r"
    "cj_id (end_cron now n err r) = cj_id r"
  by (simp_all add: flip_cron_def claim_cron_def end_cron_def)

lemma cron_rows_ok [simp]: "cron_row_ok r \<Longrightarrow> cron_row_ok (flip_cron now n r)" "cron_row_ok (claim_cron now fresh worker r)"
    "cron_row_ok (end_cron now n err r)"
  by (simp_all add: flip_cron_def claim_cron_def end_cron_def cron_row_ok_def)

lemma cron_tenant_ok: "(\<And>t. crons_ok (snd (f t))) \<Longrightarrow> crons_ok s \<Longrightarrow> crons_ok (snd (for_tenant env db tenant s f))"
  by (simp add: for_tenant_def split: option.split)

lemma cron_update_ok:
  assumes "crons_ok s" "\<And>r. cj_id (f r) = cj_id r" "\<And>t r. cron_row_ok r \<Longrightarrow> P t r \<Longrightarrow> cron_row_ok (f r)"
  shows "crons_ok (snd (cron_update env db token P f s))"
  using assms by (auto simp: cron_update_def intro!: table_update split: option.split)

lemma cron_step_ok: "crons_ok s \<Longrightarrow> crons_ok (cron_step env op s)"
proof (cases op)
  case (CrCreate db now tenant owner d next_run)
  assume "crons_ok s"
  then show ?thesis unfolding CrCreate cron_step.simps create_cron_def
    by (intro cron_tenant_ok) (auto simp: Let_def cron_row_ok_def intro!: table_insert split: option.split)
next
  case (CrDelete db x tenant)
  assume "crons_ok s"
  then show ?thesis unfolding CrDelete cron_step.simps delete_cron_def
    by (intro cron_tenant_ok) (auto intro: table_delete)
next
  case (CrToggle db now utcnow x tenant next_run)
  assume "crons_ok s"
  then show ?thesis unfolding CrToggle cron_step.simps toggle_cron_def
    by (intro cron_tenant_ok) (auto simp: Let_def intro!: table_update)
next
  case (CrClaim db now fresh worker limit)
  assume "crons_ok s"
  then show ?thesis by (auto simp: CrClaim claim_due_cron_jobs_def Let_def intro!: table_update)
next
  case (CrRenew db now x token)
  assume "crons_ok s"
  then show ?thesis unfolding CrRenew cron_step.simps renew_cron_claim_def
    by (rule cron_update_ok) (auto simp: cron_row_ok_def cron_held_def)
next
  case (CrComplete db now x token next_run err)
  assume "crons_ok s"
  then show ?thesis unfolding CrComplete cron_step.simps complete_cron_claim_def
    by (rule cron_update_ok) auto
qed

section \<open>Who may change a claimed occurrence\<close>

text \<open>The part of a row that a claim protects: all but the switch and the next run, which the tenant may toggle.\<close>

definition claim_view :: "string \<Rightarrow> cron_row list \<Rightarrow> cron_row option" where
  "claim_view x s = map_option (\<lambda>r. r\<lparr>cj_enabled := True, cj_next := 0, cj_updated := 0\<rparr>) (row_at cj_id x s)"

definition cron_claimed :: "string \<Rightarrow> cron_row option \<Rightarrow> bool" where
  "cron_claimed x v \<longleftrightarrow> (\<exists>r. v = Some r \<and> cj_token r \<noteq> None)"

definition cron_entitled :: "auto_env \<Rightarrow> string \<Rightarrow> cron_row option \<Rightarrow> cron_op \<Rightarrow> bool" where
  "cron_entitled env x v op \<longleftrightarrow> (case v of None \<Rightarrow> True | Some r \<Rightarrow>
     (case op of
        CrCreate db now tenant owner d next_run \<Rightarrow> False
      | CrDelete db y tenant \<Rightarrow> y = x \<and> ae_cast env tenant = Some (cj_tenant r)
      | CrToggle db now utcnow y tenant next_run \<Rightarrow> False
      | CrClaim db now fresh worker limit \<Rightarrow> sql_not_after (cj_expires r) now
      | CrRenew db now y token \<Rightarrow> y = x \<and> ae_cast env token = cj_token r
      | CrComplete db now y token next_run err \<Rightarrow> y = x \<and> ae_cast env token = cj_token r))"

lemma view_update:
  assumes "\<And>r. cj_id (f r) = cj_id r" "row_at cj_id x s = Some r" "\<not> P r"
  shows "claim_view x (update_where P f s) = claim_view x s"
  using assms by (simp add: claim_view_def row_simps)

lemma view_tenant: "(\<And>t. ae_cast env tenant = Some t \<Longrightarrow> claim_view x (snd (f t)) = claim_view x s) \<Longrightarrow>
    claim_view x (snd (for_tenant env db tenant s f)) = claim_view x s"
  by (simp add: for_tenant_def split: option.split)

lemma due_in: "i \<in> set (due_ids now limit s) \<Longrightarrow> \<exists>q \<in> set s. cj_id q = i \<and> cron_due now q"
  by (auto simp: due_ids_def sort_by_def dest!: in_set_takeD)

lemma cron_fence:
  assumes ok: "crons_ok s" and h: "cron_claimed x (claim_view x s)" and ne: "\<not> cron_entitled env x (claim_view x s) op"
  shows "claim_view x (cron_step env op s) = claim_view x s"
proof -
  obtain r where r: "row_at cj_id x s = Some r" "cj_token r \<noteq> None" using h by (auto simp: cron_claimed_def claim_view_def)
  then have v: "claim_view x s = Some (r\<lparr>cj_enabled := True, cj_next := 0, cj_updated := 0\<rparr>)" by (simp add: claim_view_def)
  have id: "cj_id r = x" and rok: "cron_row_ok r" using table_row [OF ok r(1)] by auto
  have dist: "distinct (map cj_id s)" using ok by (simp add: table_ok_def)
  show ?thesis
  proof (cases op)
    case (CrCreate db now tenant owner d next_run)
    show ?thesis unfolding CrCreate cron_step.simps create_cron_def
      by (rule view_tenant) (simp add: Let_def claim_view_def row_simps r(1) split: option.split)
  next
    case (CrDelete db y tenant)
    then have "\<not> cron_at y t r" if "ae_cast env tenant = Some t" for t
      using ne that by (auto simp: v cron_entitled_def cron_at_def id)
    then show ?thesis unfolding CrDelete cron_step.simps delete_cron_def
      by (intro view_tenant) (simp add: claim_view_def row_simps dist r(1))
  next
    case (CrToggle db now utcnow y tenant next_run)
    show ?thesis unfolding CrToggle cron_step.simps toggle_cron_def
      by (rule view_tenant) (simp add: Let_def claim_view_def row_simps r(1) flip_cron_def)
  next
    case (CrClaim db now fresh worker limit)
    have "\<not> cron_due now r" using ne r(2) rok by (auto simp: CrClaim v cron_entitled_def cron_due_def cron_row_ok_def)
    moreover have "q = r" if "q \<in> set s" "cj_id q = cj_id r" for q
      using row_at_mem [OF dist that(1)] that(2) id r(1) by simp
    ultimately have "cj_id r \<notin> set (due_ids now limit s)" using due_in by blast
    then show ?thesis unfolding CrClaim cron_step.simps claim_due_cron_jobs_def
      by (simp add: Let_def view_update [OF _ r(1)])
  next
    case (CrRenew db now y token)
    then have "\<not> cron_held y tok r" if "ae_cast env token = Some tok" for tok
      using ne that by (auto simp: v cron_entitled_def cron_held_def id)
    then show ?thesis unfolding CrRenew cron_step.simps renew_cron_claim_def cron_update_def
      by (auto simp: view_update [OF _ r(1)] split: option.split)
  next
    case (CrComplete db now y token next_run err)
    then have "\<not> cron_held y tok r" if "ae_cast env token = Some tok" for tok
      using ne that by (auto simp: v cron_entitled_def cron_held_def id)
    then show ?thesis unfolding CrComplete cron_step.simps complete_cron_claim_def cron_update_def
      by (auto simp: view_update [OF _ r(1)] split: option.split)
  qed
qed

interpretation cron_claims: fenced_machine "cron_step env" crons_ok claim_view cron_claimed "cron_entitled env" for env
  by unfold_locales (simp_all add: cron_step_ok cron_fence)

lemma cron_run_eq: "cron_run env ops s = cron_claims.run env ops s"
  by (induction ops arbitrary: s) simp_all

lemma crons_reachable_ok: "crons_ok (cron_run env ops [])"
  unfolding cron_run_eq by (rule cron_claims.inv_run) simp

section \<open>Claiming and completing\<close>

lemma due_sorted: "sorted (map cj_next (sort_by cj_next (filter (cron_due now) s)))"
  by (simp add: sort_by_def)

lemma due_ids_spec:
  assumes "crons_ok s"
  shows "distinct (due_ids now limit s)" "length (due_ids now limit s) = min (nat limit) (length (filter (cron_due now) s))"
    and "p \<in> set s \<Longrightarrow> cj_id p \<in> set (due_ids now limit s) \<Longrightarrow> cron_due now p"
    and "p \<in> set s \<Longrightarrow> q \<in> set s \<Longrightarrow> cj_id p \<in> set (due_ids now limit s) \<Longrightarrow> cron_due now q \<Longrightarrow>
      cj_id q \<notin> set (due_ids now limit s) \<Longrightarrow> cj_next p \<le> cj_next q"
proof -
  let ?l = "sort_by cj_next (filter (cron_due now) s)"
  have dist: "distinct (map cj_id s)" using assms by (simp add: table_ok_def)
  then have inj: "inj_on cj_id (set s)" by (simp add: distinct_map)
  have dl: "distinct (map cj_id ?l)" using dist
    by (auto simp: distinct_map sort_by_def intro: inj_on_subset)
  then show "distinct (due_ids now limit s)" unfolding due_ids_def by (metis distinct_take take_map)
  show "length (due_ids now limit s) = min (nat limit) (length (filter (cron_due now) s))"
    by (simp add: due_ids_def sort_by_def)
  have mem: "r \<in> set (take (nat limit) ?l)" if rs: "r \<in> set s" and rd: "cj_id r \<in> set (due_ids now limit s)" for r
  proof -
    obtain r' where "r' \<in> set (take (nat limit) ?l)" "cj_id r' = cj_id r" using rd by (auto simp: due_ids_def)
    moreover from this have "r' \<in> set s" by (auto simp: sort_by_def dest: in_set_takeD)
    ultimately show ?thesis using inj_onD [OF inj, of r' r] rs by simp
  qed
  show "p \<in> set s \<Longrightarrow> cj_id p \<in> set (due_ids now limit s) \<Longrightarrow> cron_due now p"
    using mem [of p] by (auto simp: sort_by_def dest: in_set_takeD)
  assume p: "p \<in> set s" "cj_id p \<in> set (due_ids now limit s)" and q: "q \<in> set s" "cron_due now q" "cj_id q \<notin> set (due_ids now limit s)"
  have "q \<in> set ?l" using q by (simp add: sort_by_def)
  moreover have "q \<notin> set (take (nat limit) ?l)" using q(3) by (auto simp: due_ids_def)
  ultimately have "q \<in> set (drop (nat limit) ?l)" by (metis Un_iff append_take_drop_id set_append)
  moreover have "sorted (map cj_next (take (nat limit) ?l @ drop (nat limit) ?l))" by (simp add: due_sorted)
  ultimately show "cj_next p \<le> cj_next q" using mem [OF p] by (auto simp only: map_append sorted_append set_map)
qed

lemma claim_spec:
  assumes "crons_ok s" "0 \<le> limit" "R = filter (\<lambda>r. cj_id r \<in> set (due_ids now limit s)) s"
  shows "claim_due_cron_jobs True now fresh worker limit s =
      (Inr (map (claim_cron now fresh worker) R), update_where (\<lambda>r. cj_id r \<in> set (due_ids now limit s)) (claim_cron now fresh worker) s)"
    and "length R = min (nat limit) (length (filter (cron_due now) s))"
proof -
  show "claim_due_cron_jobs True now fresh worker limit s =
      (Inr (map (claim_cron now fresh worker) R), update_where (\<lambda>r. cj_id r \<in> set (due_ids now limit s)) (claim_cron now fresh worker) s)"
    using assms(2,3) by (simp add: claim_due_cron_jobs_def Let_def)
  have "distinct (map cj_id R)" using assms(1,3) by (simp add: table_ok_def distinct_map_filter)
  moreover have "set (map cj_id R) = set (due_ids now limit s)"
    unfolding assms(3) by (auto dest: due_in)
  ultimately show "length R = min (nat limit) (length (filter (cron_due now) s))"
    using due_ids_spec(1,2) [OF assms(1)] by (metis distinct_card length_map)
qed

section \<open>Properties\<close>

text \<open>
  C34: A scheduled occurrence belongs to its claim: on every run of the scheduler's table a claimed commitment keeps
  its claim, its history and its definition until its token renews or completes it, the claim runs
  out, or its tenant deletes it; toggling it does not break the claim.
\<close>

theorem cron_claim_fenced:
  assumes "cron_claimed x (claim_view x (cron_run env ops []))"
    and "\<forall>op \<in> set later. \<not> cron_entitled env x (claim_view x (cron_run env ops [])) op"
  shows "claim_view x (cron_run env (ops @ later) []) = claim_view x (cron_run env ops [])"
  using cron_claims.fence_run [OF crons_reachable_ok assms] by (simp add: cron_run_eq cron_claims.run_append)

text \<open>
  A claim takes as many commitments as it may among those that are enabled, due and free, the
  longest due first, and each of them is claimed under the new token for the lease.
\<close>

theorem claim_takes_due:
  assumes "crons_ok s" "0 \<le> limit"
  shows "\<exists>taken. fst (claim_due_cron_jobs True now fresh worker limit s) = Inr (map (claim_cron now fresh worker) taken)
    \<and> length taken = min (nat limit) (length (filter (cron_due now) s))
    \<and> (\<forall>r \<in> set taken. r \<in> set s \<and> cron_due now r
        \<and> row_at cj_id (cj_id r) (snd (claim_due_cron_jobs True now fresh worker limit s)) = Some (claim_cron now fresh worker r)
        \<and> (\<forall>q \<in> set s. cron_due now q \<longrightarrow> q \<notin> set taken \<longrightarrow> cj_next r \<le> cj_next q))"
proof -
  let ?in = "\<lambda>r. cj_id r \<in> set (due_ids now limit s)"
  have dist: "distinct (map cj_id s)" using assms(1) by (simp add: table_ok_def)
  have spec: "claim_due_cron_jobs True now fresh worker limit s = (Inr (map (claim_cron now fresh worker) (filter ?in s)),
      update_where ?in (claim_cron now fresh worker) s)" "length (filter ?in s) = min (nat limit) (length (filter (cron_due now) s))"
    by (rule claim_spec [OF assms refl])+
  show ?thesis
    by (intro exI [of _ "filter ?in s"] conjI ballI impI)
      (use spec due_ids_spec(3,4) [OF assms(1)] row_at_mem [OF dist] in \<open>auto simp: row_simps\<close>)
qed

text \<open>
  A dispatch that is cancelled (a shutdown of the scheduler) is completed all the same: the commitment is
  released, its next run is moved to the next occurrence, the run is recorded and no error is, as if
  the dispatch had succeeded.
\<close>

theorem cancelled_dispatch_skips:
  assumes "crons_ok s" "claim_due_cron_jobs (cp_db pl) (cp_now pl) (cp_fresh pl) (cp_worker pl) 1 s = (Inr (job # jobs), s1)"
    and "ae_cast env (cp_fresh pl) = Some (cp_fresh pl)" "strip (cp_fresh pl) \<noteq> []" "strip (cj_id job) \<noteq> []"
    and "cp_beats pl = []" "cp_stop pl = None" "cp_end pl = Cancelled" "cp_final pl = []" "cp_db_end pl"
    and "next_cron (cj_schedule job) (cp_clock pl) = Some n"
  shows "fst (cron_round env next_cron pl s) = RoundCancelled
    \<and> row_at cj_id (cj_id job) (snd (cron_round env next_cron pl s)) = Some (end_cron (cp_end_now pl) n None job)"
proof -
  have db: "cp_db pl" using assms(2) by (auto simp: claim_due_cron_jobs_def split: if_splits)
  let ?in = "\<lambda>r. cj_id r \<in> set (due_ids (cp_now pl) 1 s)" and ?c = "claim_cron (cp_now pl) (cp_fresh pl) (cp_worker pl)"
  have e: "job # jobs = map ?c (filter ?in s)" "s1 = update_where ?in ?c s"
    using assms(2) db by (auto simp: claim_due_cron_jobs_def Let_def)
  have dist: "distinct (map cj_id s)" using assms(1) by (simp add: table_ok_def)
  have "job \<in> ?c ` set (filter ?in s)" using e(1) by (metis image_set list.set_intros(1))
  then obtain q where q: "q \<in> set s" "?in q" "job = ?c q" by auto
  have row: "row_at cj_id (cj_id job) s1 = Some job" using q row_at_mem [OF dist q(1)] by (simp add: e(2) row_simps)
  have tok: "cj_token job = Some (cp_fresh pl)" using q(3) by (simp add: claim_cron_def)
  have ended: "dispatch_under_claim env job (cp_stop pl) (cp_end pl) (cp_beats pl) s1 = (Cancelled, s1)"
    using assms(4-8) tok by (simp add: dispatch_under_claim_def Let_def run_with_claim_heartbeat_def CRON_HEARTBEAT_SECONDS_def stopped_def)
  have comp: "complete_cron_claim env True (cp_end_now pl) (cj_id job) (cp_fresh pl) n None s1 =
      (Inr (filter (cron_held (cj_id job) (cp_fresh pl)) s1 \<noteq> []),
       update_where (cron_held (cj_id job) (cp_fresh pl)) (end_cron (cp_end_now pl) n None) s1)"
    by (simp only: complete_cron_claim_def cron_update_def assms(3) option.case if_True)
  have "cron_round env next_cron pl s = (RoundCancelled, update_where (cron_held (cj_id job) (cp_fresh pl)) (end_cron (cp_end_now pl) n None) s1)"
    using assms(9-11) by (simp add: cron_round_def assms(2) ended tok round_error_def comp)
  then show ?thesis using row tok by (simp add: row_simps cron_held_def)
qed

section \<open>Witnesses\<close>

definition cron_env :: auto_env where
  "cron_env = \<lparr>ae_cast = Some, ae_integer = (\<lambda>_. None), ae_json_text = (\<lambda>_. []), ae_jsonb = (\<lambda>v. v)\<rparr>"

definition sample_cron :: cron_record where
  "sample_cron = \<lparr>cd_id = ''c'', cd_name = ''n'', cd_schedule = ''s'', cd_type = ''Task'', cd_target = ''t'', cd_enabled = True, cd_action = ''execute''\<rparr>"

definition sample_cron_row :: cron_row where
  "sample_cron_row = \<lparr>cj_id = ''c'', cj_tenant = ''w'', cj_owner = ''o'', cj_name = ''n'', cj_schedule = ''s'', cj_type = ''Task'',
     cj_target = ''t'', cj_enabled = True, cj_action = ''execute'', cj_next = 5, cj_last_run = None, cj_error = None, cj_token = None,
     cj_worker = None, cj_claimed_at = None, cj_expires = None, cj_created = 1, cj_updated = 1\<rparr>"

lemma sample_cron_created: "cron_run cron_env [CrCreate True 1 ''w'' ''o'' sample_cron 5] [] = [sample_cron_row]"
  by (simp add: create_cron_def for_tenant_def cron_env_def Let_def sample_cron_def sample_cron_row_def)

lemma sample_cron_claimed: "claim_due_cron_jobs True 6 ''k'' ''v'' 1 [sample_cron_row]
    = (Inr [claim_cron 6 ''k'' ''v'' sample_cron_row], [claim_cron 6 ''k'' ''v'' sample_cron_row])"
  by (simp add: claim_due_cron_jobs_def Let_def due_ids_def sort_by_def cron_due_def sample_cron_row_def update_where_def)

lemma sample_crons_ok: "crons_ok [sample_cron_row]"
  by (simp add: table_ok_def cron_row_ok_def sample_cron_row_def)

theorem cron_claim_fenced_witness:
  "claim_view ''c'' (cron_run cron_env ([CrCreate True 1 ''w'' ''o'' sample_cron 5, CrClaim True 6 ''k'' ''v'' 1] @
     [CrToggle True 7 7 ''c'' ''w'' None, CrClaim True 8 ''l'' ''u'' 1, CrComplete True 8 ''c'' ''l'' 9 None]) [])
   = claim_view ''c'' [claim_cron 6 ''k'' ''v'' sample_cron_row]"
proof -
  have r: "cron_run cron_env [CrCreate True 1 ''w'' ''o'' sample_cron 5, CrClaim True 6 ''k'' ''v'' 1] []
      = [claim_cron 6 ''k'' ''v'' sample_cron_row]"
    using sample_cron_created sample_cron_claimed by simp
  have v: "claim_view ''c'' [claim_cron 6 ''k'' ''v'' sample_cron_row]
      = Some ((claim_cron 6 ''k'' ''v'' sample_cron_row)\<lparr>cj_enabled := True, cj_next := 0, cj_updated := 0\<rparr>)"
    by (simp add: claim_view_def row_simps sample_cron_row_def claim_cron_def)
  have "cron_claimed ''c'' (claim_view ''c'' (cron_run cron_env [CrCreate True 1 ''w'' ''o'' sample_cron 5, CrClaim True 6 ''k'' ''v'' 1] []))"
    unfolding r v by (simp add: cron_claimed_def claim_cron_def)
  from cron_claim_fenced [OF this] have step: "(\<forall>op \<in> set later. \<not> cron_entitled cron_env ''c'' (claim_view ''c'' [claim_cron 6 ''k'' ''v'' sample_cron_row]) op) \<Longrightarrow>
      claim_view ''c'' (cron_run cron_env ([CrCreate True 1 ''w'' ''o'' sample_cron 5, CrClaim True 6 ''k'' ''v'' 1] @ later) [])
      = claim_view ''c'' [claim_cron 6 ''k'' ''v'' sample_cron_row]" for later unfolding r .
  show ?thesis
  proof (rule step)
    show "\<forall>op \<in> set [CrToggle True 7 7 ''c'' ''w'' None, CrClaim True 8 ''l'' ''u'' 1, CrComplete True 8 ''c'' ''l'' 9 None].
      \<not> cron_entitled cron_env ''c'' (claim_view ''c'' [claim_cron 6 ''k'' ''v'' sample_cron_row]) op"
      unfolding v by (simp add: cron_entitled_def claim_cron_def sql_not_after_def micros_of_def CRON_LEASE_SECONDS_def cron_env_def)
  qed
qed

theorem claim_takes_due_witness:
  "\<exists>taken. map (claim_cron 6 ''k'' ''v'') taken = [claim_cron 6 ''k'' ''v'' sample_cron_row] \<and> length taken = 1"
proof -
  have "length (filter (cron_due 6) [sample_cron_row]) = 1" by (simp add: cron_due_def sample_cron_row_def)
  moreover obtain taken where "fst (claim_due_cron_jobs True 6 ''k'' ''v'' 1 [sample_cron_row]) = Inr (map (claim_cron 6 ''k'' ''v'') taken)"
    "length taken = min (nat 1) (length (filter (cron_due 6) [sample_cron_row]))"
    using claim_takes_due [OF sample_crons_ok, of 1 6 "''k''" "''v''"] by auto
  ultimately show ?thesis unfolding sample_cron_claimed by (intro exI [of _ taken]) simp
qed

definition sample_shutdown :: cron_plan where
  "sample_shutdown = \<lparr>cp_db = True, cp_now = 6, cp_fresh = ''k'', cp_worker = ''v'', cp_beats = [], cp_stop = None, cp_end = Cancelled,
     cp_final = [], cp_clock = 7, cp_db_end = True, cp_end_now = 7\<rparr>"

theorem cancelled_dispatch_skips_witness:
  "fst (cron_round cron_env (\<lambda>_ now. Some (now + 60)) sample_shutdown [sample_cron_row]) = RoundCancelled"
proof -
  have s: "strip ''k'' = ''k''" "strip ''c'' = ''c''" by code_simp+
  have "claim_due_cron_jobs (cp_db sample_shutdown) (cp_now sample_shutdown) (cp_fresh sample_shutdown) (cp_worker sample_shutdown) 1
      [sample_cron_row] = (Inr [claim_cron 6 ''k'' ''v'' sample_cron_row], [claim_cron 6 ''k'' ''v'' sample_cron_row])"
    by (simp add: sample_shutdown_def sample_cron_claimed)
  from cancelled_dispatch_skips [OF sample_crons_ok this, of cron_env "\<lambda>_ now. Some (now + 60)" 67] show ?thesis
    by (simp add: sample_shutdown_def cron_env_def s) (simp add: sample_cron_row_def s)
qed

end
