(* ===== verification/AutomationJobs.thy ===== *)
theory AutomationJobs
  imports AutomationExecution
begin

text \<open>
  Multi-step jobs: the job methods of \<^verbatim>\<open>SqlAutomationRepository\<close>
  (\<^verbatim>\<open>persistence/repositories/automation_repository.py\<close>) and their execution by \<^verbatim>\<open>services/job_service.py\<close>. A job
  has no claim: other sessions may change its row while it runs. What the chat runtime answers to
  step \<open>i\<close> is \<open>oc i\<close>; whether the legacy jobs have been migrated is \<open>cutover\<close>; \<open>rp\<close> prints a value as \<^verbatim>\<open>str\<close> does.
\<close>

section \<open>Rows\<close>

record job_row =
  jb_id :: string
  jb_tenant :: string
  jb_owner :: string
  jb_name :: string
  jb_description :: string
  jb_tasks :: "pyval list"
  jb_trigger :: string
  jb_status :: string
  jb_results :: "pyval list"
  jb_last_run :: "int option"
  jb_error :: "string option"
  jb_created :: int
  jb_updated :: int

text \<open>The record a job is created from; the optional entries are \<open>None\<close> when absent.\<close>

record job_record =
  jr_id :: string
  jr_name :: string
  jr_description :: string
  jr_tasks :: "pyval list"
  jr_trigger :: "string option"
  jr_status :: "string option"
  jr_results :: "pyval list"
  jr_last_run :: "int option"
  jr_error :: "string option"
  jr_created :: "int option"
  jr_updated :: "int option"

definition job_status :: "string option \<Rightarrow> string" where
  "job_status v = (case v of
     None \<Rightarrow> ''Pending''
   | Some t \<Rightarrow> if t \<in> {''Pending'', ''Running'', ''Success'', ''Failed''} then t else ''Pending'')"

definition create_job ::
    "auto_env \<Rightarrow> bool \<Rightarrow> int \<Rightarrow> string \<Rightarrow> string \<Rightarrow> job_record \<Rightarrow> job_row list \<Rightarrow> (task_error + job_row) \<times> job_row list" where
  "create_job env db now tenant owner d s =
     for_tenant env db tenant s (\<lambda>t. case ae_cast env owner of
         None \<Rightarrow> (Inl TaskDriver, s)
       | Some u \<Rightarrow>
           if jr_id d \<in> jb_id ` set s then (Inl TaskDriver, s)
           else let r = \<lparr>jb_id = jr_id d, jb_tenant = t, jb_owner = u, jb_name = jr_name d, jb_description = jr_description d,
                         jb_tasks = jsonb_list env (jr_tasks d), jb_trigger = (case jr_trigger d of None \<Rightarrow> ''Manual Run'' | Some g \<Rightarrow> g),
                         jb_status = job_status (jr_status d), jb_results = jsonb_list env (jr_results d), jb_last_run = jr_last_run d,
                         jb_error = jr_error d, jb_created = (case jr_created d of None \<Rightarrow> now | Some c \<Rightarrow> c),
                         jb_updated = (case jr_updated d of None \<Rightarrow> now | Some c \<Rightarrow> c)\<rparr>
                in (Inr r, s @ [r]))"

definition job_at :: "string \<Rightarrow> string \<Rightarrow> job_row \<Rightarrow> bool" where
  "job_at x t r \<longleftrightarrow> jb_id r = x \<and> jb_tenant r = t"

definition get_job :: "auto_env \<Rightarrow> bool \<Rightarrow> string \<Rightarrow> string \<Rightarrow> job_row list \<Rightarrow> task_error + job_row option" where
  "get_job env db x tenant s = fst (for_tenant env db tenant s (\<lambda>t. (Inr (find (job_at x t) s), s)))"

definition list_jobs :: "auto_env \<Rightarrow> bool \<Rightarrow> string \<Rightarrow> job_row list \<Rightarrow> task_error + job_row list" where
  "list_jobs env db tenant s =
     fst (for_tenant env db tenant s (\<lambda>t. (Inr (sort_by_desc jb_created (filter (\<lambda>r. jb_tenant r = t) s)), s)))"

definition delete_job :: "auto_env \<Rightarrow> bool \<Rightarrow> string \<Rightarrow> string \<Rightarrow> job_row list \<Rightarrow> (task_error + bool) \<times> job_row list" where
  "delete_job env db x tenant s =
     for_tenant env db tenant s (\<lambda>t. (Inr (filter (job_at x t) s \<noteq> []), filter (\<lambda>r. \<not> job_at x t r) s))"

definition update_job ::
    "auto_env \<Rightarrow> bool \<Rightarrow> string \<Rightarrow> string \<Rightarrow> (job_row \<Rightarrow> job_row) \<Rightarrow> job_row list \<Rightarrow> (task_error + job_row option) \<times> job_row list" where
  "update_job env db x tenant f s =
     for_tenant env db tenant s (\<lambda>t. (Inr (map_option f (find (job_at x t) s)), update_where (job_at x t) f s))"

definition mark_job_running ::
    "auto_env \<Rightarrow> bool \<Rightarrow> int \<Rightarrow> string \<Rightarrow> string \<Rightarrow> job_row list \<Rightarrow> (task_error + job_row option) \<times> job_row list" where
  "mark_job_running env db now x tenant s =
     update_job env db x tenant (\<lambda>r. r\<lparr>jb_status := ''Running'', jb_last_run := Some now, jb_error := None, jb_updated := now\<rparr>) s"

definition end_job :: "int \<Rightarrow> string \<Rightarrow> pyval list \<Rightarrow> string option \<Rightarrow> job_row \<Rightarrow> job_row" where
  "end_job now status results err r = r\<lparr>jb_status := status, jb_results := results, jb_error := err, jb_updated := now\<rparr>"

definition complete_job ::
    "auto_env \<Rightarrow> bool \<Rightarrow> int \<Rightarrow> string \<Rightarrow> string \<Rightarrow> string \<Rightarrow> pyval list \<Rightarrow> string option \<Rightarrow> job_row list \<Rightarrow>
     (task_error + job_row option) \<times> job_row list" where
  "complete_job env db now x tenant status results err s =
     (if status \<notin> {''Pending'', ''Running'', ''Success'', ''Failed''}
      then for_tenant env db tenant s (\<lambda>t. (if filter (job_at x t) s = [] then Inr None else Inl TaskDriver, s))
      else update_job env db x tenant (end_job now status results err) s)"

section \<open>Steps\<close>

text \<open>\<^verbatim>\<open>str(payload.get(k) or "")\<close>.\<close>

definition text_field :: "(pyval \<Rightarrow> string) \<Rightarrow> (string, pyval) pydict \<Rightarrow> string \<Rightarrow> string" where
  "text_field rp d k = py_str rp (py_or (vget d k PNone) (PStr []))"

datatype step_end = StepDone runtime_result | StepRaised string | StepCancelled

datatype job_end = JobAll | JobStopped | JobFailed string

definition step_name :: "(pyval \<Rightarrow> string) \<Rightarrow> nat \<Rightarrow> (string, pyval) pydict \<Rightarrow> string" where
  "step_name rp i d = py_str rp (py_or (vget d ''name'' PNone) (PStr (''Step '' @ show_nat (i + 1))))"

definition step_agent :: "(pyval \<Rightarrow> string) \<Rightarrow> (string, pyval) pydict \<Rightarrow> string" where
  "step_agent rp d = strip (text_field rp d ''agent'')"

definition step_success :: "runtime_result \<Rightarrow> bool" where
  "step_success res \<longleftrightarrow> rr_status res \<in> {XOk, XDegraded} \<and> rr_answer res \<noteq> []"

definition step_entry :: "(pyval \<Rightarrow> string) \<Rightarrow> nat \<Rightarrow> (string, pyval) pydict \<Rightarrow> runtime_result \<Rightarrow> pyval" where
  "step_entry rp i d res = PDict
     [(''step'', PStr (step_name rp i d)), (''success'', PBool (step_success res)),
      (''runtime_task_id'', opt_str (rr_correlation res)), (''status'', PStr (status_value (rr_status res))),
      (''response'', if step_success res then PStr (rr_answer res) else PNone)]"

fun run_steps :: "(pyval \<Rightarrow> string) \<Rightarrow> (nat \<Rightarrow> step_end) \<Rightarrow> nat \<Rightarrow> pyval list \<Rightarrow> pyval list \<Rightarrow> job_end \<times> pyval list" where
  "run_steps rp oc i [] results = (JobAll, results)"
| "run_steps rp oc i (st # sts) results =
     (case st of
        PDict d \<Rightarrow>
          if step_agent rp d = [] then (JobFailed ''JobExecutionError'', results)
          else (case oc i of
             StepRaised e \<Rightarrow> (JobFailed e, results)
           | StepCancelled \<Rightarrow> (JobStopped, results)
           | StepDone res \<Rightarrow>
               if step_success res then run_steps rp oc (i + 1) sts (results @ [step_entry rp i d res])
               else (JobFailed ''JobExecutionError'', results @ [step_entry rp i d res]))
      | _ \<Rightarrow> (JobFailed ''AttributeError'', results))"

section \<open>Execution\<close>

datatype job_error =
    JIdentity | JInvalid | JPython py_exn | JLegacy | JMissing | JStore task_error | JCancelled | JRaised string | JUpdateFailed

datatype job_op =
    JbCreate bool int string string job_record
  | JbDelete bool string string
  | JbMark bool int string string
  | JbComplete bool int string string string "pyval list" "string option"

fun job_step :: "auto_env \<Rightarrow> job_op \<Rightarrow> job_row list \<Rightarrow> job_row list" where
  "job_step env (JbCreate db now tenant owner d) s = snd (create_job env db now tenant owner d s)"
| "job_step env (JbDelete db x tenant) s = snd (delete_job env db x tenant s)"
| "job_step env (JbMark db now x tenant) s = snd (mark_job_running env db now x tenant s)"
| "job_step env (JbComplete db now x tenant status results err) s = snd (complete_job env db now x tenant status results err s)"

fun job_run :: "auto_env \<Rightarrow> job_op list \<Rightarrow> job_row list \<Rightarrow> job_row list" where
  "job_run env [] s = s"
| "job_run env (op # ops) s = job_run env ops (job_step env op s)"

record job_plan =
  jp_db :: bool
  jp_now :: int
  jp_steps :: "nat \<Rightarrow> step_end"
  jp_others :: "job_op list"
  jp_db_end :: bool
  jp_end_now :: int

text \<open>
  \<^verbatim>\<open>execute_job\<close>. \<open>tenant\<close> and \<open>user\<close> are the texts of the principal's ids, \<open>None\<close> for a missing one; an
  error of the database while a failure is recorded replaces the failure.
\<close>

definition finish_job ::
    "auto_env \<Rightarrow> bool \<Rightarrow> int \<Rightarrow> string \<Rightarrow> string \<Rightarrow> job_end \<Rightarrow> pyval list \<Rightarrow> job_row list \<Rightarrow> (job_error + pyval list) \<times> job_row list" where
  "finish_job env db now x tenant ended results s =
     (case ended of
        JobAll \<Rightarrow>
          (case complete_job env db now x tenant ''Success'' results None s of
             (Inl e, s1) \<Rightarrow> (Inl (JStore e), s1)
           | (Inr None, s1) \<Rightarrow> (Inl JUpdateFailed, s1)
           | (Inr (Some _), s1) \<Rightarrow> (Inr results, s1))
      | JobStopped \<Rightarrow>
          (case complete_job env db now x tenant ''Failed'' results (Some ''Job execution cancelled'') s of
             (Inl e, s1) \<Rightarrow> (Inl (JStore e), s1) | (Inr _, s1) \<Rightarrow> (Inl JCancelled, s1))
      | JobFailed name \<Rightarrow>
          (case complete_job env db now x tenant ''Failed'' results (Some name) s of
             (Inl e, s1) \<Rightarrow> (Inl (JStore e), s1) | (Inr _, s1) \<Rightarrow> (Inl (JRaised name), s1)))"

definition job_identity :: "string option \<Rightarrow> string option \<Rightarrow> string option" where
  "job_identity tenant user =
     (if identity_text user = [] \<or> identity_text tenant = [] \<or> tenant = Some ''default'' then None else tenant)"

definition execute_job ::
    "(pyval \<Rightarrow> string) \<Rightarrow> auto_env \<Rightarrow> bool \<Rightarrow> string option \<Rightarrow> string option \<Rightarrow> string \<Rightarrow> job_plan \<Rightarrow> job_row list \<Rightarrow>
     (job_error + pyval list) \<times> job_row list" where
  "execute_job rp env cutover tenant user x pl s =
     (if \<not> cutover then (Inl JLegacy, s)
      else case job_identity tenant user of
        None \<Rightarrow> (Inl JIdentity, s)
      | Some t \<Rightarrow>
          (case mark_job_running env (jp_db pl) (jp_now pl) x t s of
             (Inl e, s1) \<Rightarrow> (Inl (JStore e), s1)
           | (Inr None, s1) \<Rightarrow> (Inl JMissing, s1)
           | (Inr (Some job), s1) \<Rightarrow>
               (let (ended, results) = run_steps rp (jp_steps pl) 0 (jb_tasks job) []
                in finish_job env (jp_db_end pl) (jp_end_now pl) x t ended results (job_run env (jp_others pl) s1))))"

text \<open>The other operations of the service; \<open>fresh\<close> is the hexadecimal part of a new id.\<close>

definition as_job_user ::
    "bool \<Rightarrow> string option \<Rightarrow> string option \<Rightarrow> 's \<Rightarrow> (string \<Rightarrow> string \<Rightarrow> (job_error + 'a) \<times> 's) \<Rightarrow> (job_error + 'a) \<times> 's" where
  "as_job_user cutover tenant user s f =
     (if \<not> cutover then (Inl JLegacy, s)
      else case job_identity tenant user of None \<Rightarrow> (Inl JIdentity, s) | Some t \<Rightarrow> f t (case user of None \<Rightarrow> [] | Some u \<Rightarrow> u))"

definition define_job ::
    "(pyval \<Rightarrow> string) \<Rightarrow> auto_env \<Rightarrow> bool \<Rightarrow> bool \<Rightarrow> int \<Rightarrow> string \<Rightarrow> string option \<Rightarrow> string option \<Rightarrow> (string, pyval) pydict \<Rightarrow>
     job_row list \<Rightarrow> (job_error + job_row) \<times> job_row list" where
  "define_job rp env cutover db now fresh tenant user d s =
     as_job_user cutover tenant user s (\<lambda>t u.
       let name = strip (text_field rp d ''name''); description = strip (text_field rp d ''description'')
       in if name = [] \<or> description = [] then (Inl JInvalid, s)
          else case py_list (py_or (vget d ''tasks'' PNone) (PList [])) of
            Inl e \<Rightarrow> (Inl (JPython e), s)
          | Inr tasks \<Rightarrow> map_prod (map_sum JStore id) id (create_job env db now t u
              \<lparr>jr_id = ''job_'' @ fresh, jr_name = name, jr_description = description, jr_tasks = tasks,
               jr_trigger = Some (py_str rp (py_or (vget d ''trigger'' PNone) (PStr ''Manual Run''))), jr_status = None,
               jr_results = [], jr_last_run = None, jr_error = None, jr_created = None, jr_updated = None\<rparr> s))"

definition read_job ::
    "auto_env \<Rightarrow> bool \<Rightarrow> bool \<Rightarrow> string option \<Rightarrow> string option \<Rightarrow> string \<Rightarrow> job_row list \<Rightarrow> job_error + job_row option" where
  "read_job env cutover db tenant user x s =
     fst (as_job_user cutover tenant user s (\<lambda>t u. (map_sum JStore id (get_job env db x t s), s)))"

definition read_jobs ::
    "auto_env \<Rightarrow> bool \<Rightarrow> bool \<Rightarrow> string option \<Rightarrow> string option \<Rightarrow> job_row list \<Rightarrow> job_error + job_row list" where
  "read_jobs env cutover db tenant user s =
     fst (as_job_user cutover tenant user s (\<lambda>t u. (map_sum JStore id (list_jobs env db t s), s)))"

definition remove_job ::
    "auto_env \<Rightarrow> bool \<Rightarrow> bool \<Rightarrow> string option \<Rightarrow> string option \<Rightarrow> string \<Rightarrow> job_row list \<Rightarrow> (job_error + bool) \<times> job_row list" where
  "remove_job env cutover db tenant user x s =
     as_job_user cutover tenant user s (\<lambda>t u. map_prod (map_sum JStore id) id (delete_job env db x t s))"

section \<open>The target of an automation\<close>

datatype target_error = TargetTask exec_error | TargetJob job_error | TargetUnsupported

text \<open>
  \<^verbatim>\<open>execute_automation_target\<close>: the status it answers; \<open>req\<close> is the correlation id it makes.
\<close>

definition execute_automation_target ::
    "(pyval \<Rightarrow> string) \<Rightarrow> exec_env \<Rightarrow> auto_env \<Rightarrow> bool \<Rightarrow> string \<Rightarrow> string option \<Rightarrow> string option \<Rightarrow> string \<Rightarrow> string \<Rightarrow> string \<Rightarrow>
     exec_plan \<Rightarrow> job_plan \<Rightarrow> task_store \<times> job_row list \<Rightarrow> (target_error + string) \<times> (task_store \<times> job_row list)" where
  "execute_automation_target rp xe env cutover kind tenant user x token req tpl jpl s =
     (if kind = ''Task'' then
        (let (res, ts) = execute_saved_task xe env tenant user x token req tpl (fst s)
         in (map_sum TargetTask (\<lambda>v. tk_status (fst v)) res, ts, snd s))
      else if kind \<in> {''Job'', ''Sequence''} then
        (let (res, js) = execute_job rp env cutover tenant user x jpl (snd s)
         in (map_sum TargetJob (\<lambda>_. ''Success'') res, fst s, js))
      else (Inl TargetUnsupported, s))"

section \<open>What a successful run has done\<close>

definition step_succeeds :: "(pyval \<Rightarrow> string) \<Rightarrow> (nat \<Rightarrow> step_end) \<Rightarrow> nat \<Rightarrow> pyval \<Rightarrow> pyval \<Rightarrow> bool" where
  "step_succeeds rp oc i st entry \<longleftrightarrow> (\<exists>d res. st = PDict d \<and> step_agent rp d \<noteq> [] \<and> oc i = StepDone res \<and> step_success res
     \<and> entry = step_entry rp i d res)"

lemma run_steps_all:
  "run_steps rp oc i sts acc = (JobAll, results) \<Longrightarrow> \<exists>es. results = acc @ es \<and> length es = length sts
     \<and> (\<forall>n < length sts. step_succeeds rp oc (i + n) (sts ! n) (es ! n))"
proof (induction sts arbitrary: i acc)
  case (Cons st sts)
  obtain d res where d: "st = PDict d" "step_agent rp d \<noteq> []" "oc i = StepDone res" "step_success res"
    and r: "run_steps rp oc (i + 1) sts (acc @ [step_entry rp i d res]) = (JobAll, results)"
    using Cons.prems by (auto split: pyval.splits if_splits step_end.splits)
  from Cons.IH [OF r] obtain es where es: "results = acc @ step_entry rp i d res # es" "length es = length sts"
    "\<forall>n < length sts. step_succeeds rp oc (i + 1 + n) (sts ! n) (es ! n)" by auto
  have "step_succeeds rp oc (i + n) ((st # sts) ! n) ((step_entry rp i d res # es) ! n)" if "n < length (st # sts)" for n
    using that es(3) d by (cases n) (auto simp: step_succeeds_def)
  with es show ?case by (intro exI [of _ "step_entry rp i d res # es"]) auto
qed simp

lemma update_job_hit:
  assumes "update_job env db x tenant f s = (Inr (Some r), s1)" "distinct (map jb_id s)" "\<And>q. jb_id (f q) = jb_id q"
  shows "\<exists>q. row_at jb_id x s = Some q \<and> r = f q \<and> row_at jb_id x s1 = Some r"
proof -
  obtain t q where q: "find (job_at x t) s = Some q" "r = f q" "s1 = update_where (job_at x t) f s"
    using assms(1) by (auto simp: update_job_def for_tenant_def split: option.splits if_splits)
  then have m: "job_at x t q" "q \<in> set s" by (auto simp: find_Some_iff)
  then have "row_at jb_id x s = Some q" using assms(2) row_at_mem by (metis job_at_def)
  with q m(1) assms(3) show ?thesis by (auto simp: row_simps)
qed

lemma job_step_distinct: "distinct (map jb_id s) \<Longrightarrow> distinct (map jb_id (job_step env op s))"
  by (cases op) (auto simp: create_job_def delete_job_def mark_job_running_def complete_job_def update_job_def for_tenant_def
      Let_def update_where_def end_job_def distinct_map_filter comp_def if_distrib cong: if_cong split: option.splits)

interpretation job_table: invariant_machine "job_step env" "\<lambda>s. distinct (map jb_id s)" for env
  by unfold_locales (rule job_step_distinct)

lemma job_run_eq: "job_run env ops s = job_table.run env ops s"
  by (induction ops arbitrary: s) simp_all

text \<open>
  C35: A job that reports success has executed every step of its definition, in order and each with an assigned agent
  and a successful answer of the runtime, and the stored job is successful with exactly these results,
  whatever other sessions did to the table meanwhile.
\<close>

theorem job_runs_all_steps:
  assumes "execute_job rp env cutover tenant user x pl (job_run env ops []) = (Inr results, s')"
  shows "\<exists>job. row_at jb_id x (job_run env ops []) = Some job \<and> length results = length (jb_tasks job)
    \<and> (\<forall>n < length results. step_succeeds rp (jp_steps pl) n (jb_tasks job ! n) (results ! n))
    \<and> (\<exists>r. row_at jb_id x s' = Some r \<and> jb_status r = ''Success'' \<and> jb_results r = results)"
proof -
  let ?s = "job_run env ops []"
  have ds: "distinct (map jb_id ?s)" unfolding job_run_eq by (rule job_table.inv_run) simp
  obtain t job s1 where m: "mark_job_running env (jp_db pl) (jp_now pl) x t ?s = (Inr (Some job), s1)"
    and f: "finish_job env (jp_db_end pl) (jp_end_now pl) x t (fst (run_steps rp (jp_steps pl) 0 (jb_tasks job) []))
      (snd (run_steps rp (jp_steps pl) 0 (jb_tasks job) [])) (job_run env (jp_others pl) s1) = (Inr results, s')"
    using assms by (auto simp: execute_job_def split: if_splits option.splits sum.splits prod.splits)
  let ?s2 = "job_run env (jp_others pl) s1"
  from update_job_hit [OF m [unfolded mark_job_running_def] ds] obtain q where q: "row_at jb_id x ?s = Some q" "jb_tasks job = jb_tasks q"
    by auto
  have "distinct (map jb_id s1)" using job_step_distinct [OF ds, of env "JbMark (jp_db pl) (jp_now pl) x t"] by (simp add: m)
  then have ds2: "distinct (map jb_id ?s2)" unfolding job_run_eq by (rule job_table.inv_run)
  have e: "fst (run_steps rp (jp_steps pl) 0 (jb_tasks job) []) = JobAll" "snd (run_steps rp (jp_steps pl) 0 (jb_tasks job) []) = results"
    using f by (auto simp: finish_job_def split: job_end.splits sum.splits option.splits prod.splits)
  obtain r where "update_job env (jp_db_end pl) x t (end_job (jp_end_now pl) ''Success'' results None) ?s2 = (Inr (Some r), s')"
    using f unfolding e by (auto simp: finish_job_def complete_job_def split: sum.splits option.splits prod.splits)
  from update_job_hit [OF this ds2] have "\<exists>r. row_at jb_id x s' = Some r \<and> jb_status r = ''Success'' \<and> jb_results r = results"
    by (auto simp: end_job_def)
  moreover have "run_steps rp (jp_steps pl) 0 (jb_tasks job) [] = (JobAll, results)" using e by (metis prod.collapse)
  ultimately show ?thesis using run_steps_all [of rp "jp_steps pl" 0 "jb_tasks job" "[]" results] q by auto
qed

section \<open>Witness\<close>

definition sample_job :: job_record where
  "sample_job = \<lparr>jr_id = ''j'', jr_name = ''n'', jr_description = ''d'', jr_tasks = [PDict [(''agent'', PStr ''a'')]], jr_trigger = None,
     jr_status = None, jr_results = [], jr_last_run = None, jr_error = None, jr_created = None, jr_updated = None\<rparr>"

definition sample_step_result :: runtime_result where
  "sample_step_result = \<lparr>rr_answer = ''yes'', rr_status = XOk, rr_content = PDict [], rr_degraded = False, rr_correlation = Some ''c'',
     rr_response = None, rr_message = None, rr_conversation = None, rr_origin = None, rr_provider = None, rr_model = None,
     rr_artifacts = [], rr_attachments = [], rr_sources = [], rr_citations = []\<rparr>"

definition sample_job_plan :: job_plan where
  "sample_job_plan = \<lparr>jp_db = True, jp_now = 2, jp_steps = (\<lambda>_. StepDone sample_step_result), jp_others = [], jp_db_end = True, jp_end_now = 3\<rparr>"

definition sample_entry :: pyval where
  "sample_entry = step_entry (\<lambda>_. []) 0 [(''agent'', PStr ''a'')] sample_step_result"

lemma sample_job_steps: "run_steps (\<lambda>_. []) (\<lambda>_. StepDone sample_step_result) 0 [PDict [(''agent'', PStr ''a'')]] [] = (JobAll, [sample_entry])"
proof -
  have w: "strip ''a'' = ''a''" by code_simp
  have a: "step_agent (\<lambda>_. []) [(''agent'', PStr ''a'')] \<noteq> []" by (simp add: step_agent_def text_field_def vget_def py_or_def dget_Cons w)
  have b: "step_success sample_step_result" by (simp add: step_success_def sample_step_result_def)
  show ?thesis unfolding sample_entry_def by (simp add: a b)
qed

lemma sample_job_executed:
  "\<exists>s'. execute_job (\<lambda>_. []) sample_env True (Some ''w'') (Some ''u'') ''j'' sample_job_plan
     (job_run sample_env [JbCreate True 1 ''w'' ''u'' sample_job] []) = (Inr [sample_entry], s')"
proof -
  have w: "strip ''w'' = ''w''" "strip ''u'' = ''u''" by code_simp+
  show ?thesis
    by (simp add: jsonb_plain execute_job_def job_identity_def identity_text_def w create_job_def mark_job_running_def update_job_def for_tenant_def
        sample_env_def Let_def job_at_def sample_job_def sample_job_plan_def sample_job_steps finish_job_def complete_job_def
        update_where_def end_job_def del: run_steps.simps)
qed

theorem job_runs_all_steps_witness:
  "\<exists>job. row_at jb_id ''j'' (job_run sample_env [JbCreate True 1 ''w'' ''u'' sample_job] []) = Some job \<and> length (jb_tasks job) = 1"
  using job_runs_all_steps [of "\<lambda>_. []" sample_env True "Some ''w''" "Some ''u''" "''j''" sample_job_plan] sample_job_executed by fastforce

end
