(* ===== verification/AutomationDefinitions.thy ===== *)
theory AutomationDefinitions
  imports AutomationJobs AutomationSchedule
begin

text \<open>
  The service that owns the definitions of automations, \<^verbatim>\<open>services/automation/definitions.py\<close>: it
  checks and normalises a saved task or a cron commitment before the repository stores it. \<open>agents\<close> is the lookup of
  an agent (\<open>Inl\<close> for an exception), \<open>next_cron\<close> the croniter library (\<open>None\<close> for an invalid expression),
  \<open>rp\<close> prints a value as \<^verbatim>\<open>str\<close> does, \<open>fresh\<close> is the hexadecimal part of a new id. The caller is given
  by the texts of its tenant and user, \<open>None\<close> for a missing one.
\<close>

section \<open>Task types\<close>

text \<open>
  \<^verbatim>\<open>str.isalnum\<close> and \<^verbatim>\<open>str.lower\<close> of a single character, on the code points below 256 of the model: beside the
  letters and digits of ASCII the ordinal indicators, superscripts, fractions, the micro sign and the letters of Latin-1.
\<close>

definition alnum_code :: "nat \<Rightarrow> bool" where
  "alnum_code n \<longleftrightarrow> (48 \<le> n \<and> n \<le> 57) \<or> (65 \<le> n \<and> n \<le> 90) \<or> (97 \<le> n \<and> n \<le> 122) \<or> n \<in> {170, 178, 179, 181, 185, 186}
     \<or> (188 \<le> n \<and> n \<le> 190) \<or> (192 \<le> n \<and> n \<le> 214) \<or> (216 \<le> n \<and> n \<le> 246) \<or> (248 \<le> n \<and> n \<le> 255)"

definition is_alnum :: "char \<Rightarrow> bool" where
  "is_alnum c \<longleftrightarrow> alnum_code (of_char c)"

definition upper_code :: "nat \<Rightarrow> bool" where
  "upper_code n \<longleftrightarrow> (65 \<le> n \<and> n \<le> 90) \<or> (192 \<le> n \<and> n \<le> 214) \<or> (216 \<le> n \<and> n \<le> 222)"

definition latin_lower :: "char \<Rightarrow> char" where
  "latin_lower c = (let n = (of_char c :: nat) in if upper_code n then char_of (n + 32) else c)"

abbreviation under :: char where "under \<equiv> CHR ''_''"

definition strip_under :: "string \<Rightarrow> string" where
  "strip_under s = rev (dropWhile ((=) under) (rev (dropWhile ((=) under) s)))"

text \<open>\<^verbatim>\<open>slug.replace("__", "_")\<close> and the loop that repeats it.\<close>

fun merge_under :: "string \<Rightarrow> string" where
  "merge_under (a # b # s) = (if a = under \<and> b = under then under # merge_under s else a # merge_under (b # s))"
| "merge_under s = s"

lemma merge_under_length: "length (merge_under s) \<le> length s"
  by (induction s rule: merge_under.induct) auto

lemma merge_under_shorter: "contains s [under, under] \<Longrightarrow> length (merge_under s) < length s"
proof (induction s rule: merge_under.induct)
  case (1 a b s)
  then show ?case using merge_under_length [of s] by (auto split: if_splits)
qed (auto simp: contains_iff starts_with_iff)

function squeeze :: "string \<Rightarrow> string" where
  "squeeze s = (if contains s [under, under] then squeeze (merge_under s) else s)"
  by pat_completeness auto
termination by (relation "measure length") (auto intro: merge_under_shorter)

declare squeeze.simps [simp del]

definition slugify_task_type :: "string \<Rightarrow> string" where
  "slugify_task_type name =
     (let slug = squeeze (strip_under (map (\<lambda>c. if is_alnum c then latin_lower c else under) name))
      in if slug = [] then ''general_task'' else slug)"

text \<open>What every pass keeps: the letters, and that the text neither starts nor ends with an underscore.\<close>

lemma merge_under_filter: "filter (\<lambda>c. c \<noteq> under) (merge_under s) = filter (\<lambda>c. c \<noteq> under) s"
  by (induction s rule: merge_under.induct) auto

lemma merge_under_ends: "s \<noteq> [] \<Longrightarrow> merge_under s \<noteq> [] \<and> hd (merge_under s) = hd s \<and> last (merge_under s) = last s"
proof (induction s rule: merge_under.induct)
  case (1 a b s)
  then show ?case by (cases s) auto
qed auto

lemma squeeze_spec:
  "filter (\<lambda>c. c \<noteq> under) (squeeze s) = filter (\<lambda>c. c \<noteq> under) s \<and> \<not> contains (squeeze s) [under, under]
   \<and> (s \<noteq> [] \<longrightarrow> squeeze s \<noteq> [] \<and> hd (squeeze s) = hd s \<and> last (squeeze s) = last s)"
proof (induction s rule: squeeze.induct)
  case (1 s)
  show ?case
  proof (cases "contains s [under, under]")
    case True
    then have "squeeze s = squeeze (merge_under s)" by (subst squeeze.simps) simp
    with 1 [OF True] show ?thesis by (metis merge_under_ends merge_under_filter)
  next
    case False
    then show ?thesis by (simp add: squeeze.simps [of s])
  qed
qed

lemma squeeze_done: "\<not> contains s [under, under] \<Longrightarrow> squeeze s = s"
  by (simp add: squeeze.simps [of s])

lemma squeeze_Nil [simp]: "squeeze [] = []"
  by (rule squeeze_done) simp

lemma hd_dropWhile_under: "dropWhile ((=) under) s \<noteq> [] \<Longrightarrow> hd (dropWhile ((=) under) s) \<noteq> under"
  using hd_dropWhile [of "(=) under" s] by auto

lemma last_dropWhile: "dropWhile P s \<noteq> [] \<Longrightarrow> last (dropWhile P s) = last s"
  by (induction s) auto

lemma filter_dropWhile_under: "filter (\<lambda>c. c \<noteq> under) (dropWhile ((=) under) s) = filter (\<lambda>c. c \<noteq> under) s"
  by (induction s) auto

lemma strip_under_filter: "filter (\<lambda>c. c \<noteq> under) (strip_under s) = filter (\<lambda>c. c \<noteq> under) s"
  by (simp add: strip_under_def rev_filter [symmetric] filter_dropWhile_under)

lemma strip_under_ends: "strip_under s \<noteq> [] \<Longrightarrow> hd (strip_under s) \<noteq> under \<and> last (strip_under s) \<noteq> under"
proof -
  let ?d = "dropWhile ((=) under) s" and ?r = "dropWhile ((=) under) (rev (dropWhile ((=) under) s))"
  assume "strip_under s \<noteq> []"
  then have r: "?r \<noteq> []" by (simp add: strip_under_def)
  then have d: "?d \<noteq> []" by (metis dropWhile.simps(1) rev.simps(1))
  have "hd (strip_under s) = last ?r" by (simp only: strip_under_def hd_rev)
  also have "\<dots> = hd ?d" using last_dropWhile [OF r] by (simp only: last_rev)
  finally have h: "hd (strip_under s) = hd ?d" .
  have l: "last (strip_under s) = hd ?r" by (simp only: strip_under_def last_rev)
  show ?thesis unfolding h l using hd_dropWhile_under [OF d] hd_dropWhile_under [OF r] by (rule conjI)
qed

lemma strip_under_id: "s \<noteq> [] \<Longrightarrow> hd s \<noteq> under \<Longrightarrow> last s \<noteq> under \<Longrightarrow> strip_under s = s"
proof -
  assume a: "s \<noteq> []" "hd s \<noteq> under" "last s \<noteq> under"
  then have "dropWhile ((=) under) s = s" by (cases s) auto
  moreover have "dropWhile ((=) under) (rev s) = rev s" using a by (cases s rule: rev_cases) auto
  ultimately show ?thesis by (simp add: strip_under_def)
qed

lemma latin_lower_code: "(of_char (latin_lower c) :: nat) = (if upper_code (of_char c) then of_char c + 32 else of_char c)"
  by (auto simp: latin_lower_def Let_def upper_code_def)

lemma alnum_lower: "is_alnum c \<Longrightarrow> is_alnum (latin_lower c) \<and> latin_lower (latin_lower c) = latin_lower c \<and> latin_lower c \<noteq> under"
proof -
  assume a: "is_alnum c"
  then have b: "is_alnum (latin_lower c)"
    by (auto simp: is_alnum_def alnum_code_def latin_lower_code upper_code_def)
  have "\<not> upper_code (of_char (latin_lower c))" by (auto simp: latin_lower_code upper_code_def)
  then have "latin_lower (latin_lower c) = latin_lower c" unfolding latin_lower_def [of "latin_lower c"] Let_def by (rule if_not_P)
  moreover have "latin_lower c \<noteq> under" using b by (auto simp: is_alnum_def alnum_code_def)
  ultimately show "is_alnum (latin_lower c) \<and> latin_lower (latin_lower c) = latin_lower c \<and> latin_lower c \<noteq> under" using b by simp
qed

lemma under_not_alnum [simp]: "\<not> is_alnum under"
  by (simp add: is_alnum_def alnum_code_def)

definition plain_char :: "char \<Rightarrow> bool" where
  "plain_char c \<longleftrightarrow> is_alnum c \<and> latin_lower c = c \<or> c = under"

abbreviation slug_char :: "char \<Rightarrow> char" where
  "slug_char c \<equiv> (if is_alnum c then latin_lower c else under)"

lemma slug_letters: "filter (\<lambda>c. c \<noteq> under) (map slug_char name) = map latin_lower (filter is_alnum name)"
  by (induction name) (auto dest: alnum_lower)

lemma slug_plain: "filter (\<lambda>c. c \<noteq> under) slug = map latin_lower (filter is_alnum name) \<Longrightarrow> set slug \<subseteq> Collect plain_char"
proof
  fix c assume f: "filter (\<lambda>c. c \<noteq> under) slug = map latin_lower (filter is_alnum name)" and c: "c \<in> set slug"
  show "c \<in> Collect plain_char"
  proof (cases "c = under")
    case False
    with c have "c \<in> set (filter (\<lambda>c. c \<noteq> under) slug)" by simp
    then obtain d where "is_alnum d" "c = latin_lower d" unfolding f by auto
    with alnum_lower [of d] show ?thesis by (simp add: plain_char_def)
  qed (simp add: plain_char_def)
qed

lemma slug_fixed:
  assumes "slug \<noteq> []" "set slug \<subseteq> Collect plain_char" "\<not> contains slug [under, under]" "hd slug \<noteq> under" "last slug \<noteq> under"
  shows "slugify_task_type slug = slug"
proof -
  have "map slug_char slug = slug" 
  proof (rule map_idI)
    fix c assume "c \<in> set slug"
    with assms(2) have "plain_char c" by blast
    then show "slug_char c = c" by (auto simp: plain_char_def)
  qed
  then show ?thesis using assms by (simp add: slugify_task_type_def strip_under_id squeeze_done)
qed

section \<open>The service\<close>

datatype def_error =
    DInvalid string | DMissing string | DContract string | DRaised string | DPython py_exn | DStore task_error

definition require_identity :: "string option \<Rightarrow> string option \<Rightarrow> def_error + string \<times> string" where
  "require_identity tenant user =
     (if identity_text user = [] then Inl (DInvalid ''Authenticated user_id is required'')
      else if identity_text tenant = [] \<or> tenant = Some ''default'' then Inl (DInvalid ''Explicit tenant_id is required'')
      else Inr (case tenant of None \<Rightarrow> [] | Some t \<Rightarrow> t, case user of None \<Rightarrow> [] | Some u \<Rightarrow> u))"

definition agent_known :: "(string \<Rightarrow> string + bool) \<Rightarrow> string \<Rightarrow> string \<Rightarrow> def_error + unit" where
  "agent_known agents what a = (case agents a of Inl e \<Rightarrow> Inl (DRaised e) | Inr False \<Rightarrow> Inl (DMissing what) | Inr True \<Rightarrow> Inr ())"

fun sub_agents_known :: "(pyval \<Rightarrow> string) \<Rightarrow> (string \<Rightarrow> string + bool) \<Rightarrow> pyval list \<Rightarrow> def_error + unit" where
  "sub_agents_known rp agents [] = Inr ()"
| "sub_agents_known rp agents (v # vs) =
     (case v of
        PDict d \<Rightarrow>
          (let a = strip (text_field rp d ''agentId'')
           in rbind (if a = [] then Inr () else agent_known agents ''Sub-agent'' a) (\<lambda>_. sub_agents_known rp agents vs))
      | _ \<Rightarrow> Inl (DPython AttributeError))"

definition task_record ::
    "(pyval \<Rightarrow> string) \<Rightarrow> schema_lib \<Rightarrow> string \<Rightarrow> string \<Rightarrow> pyval list \<Rightarrow> (string, pyval) pydict \<Rightarrow> def_error + task_def" where
  "task_record rp lib fresh agent subs d =
     (case validate_contract lib (vget d ''verificationContract'' PNone) of
        Inl e \<Rightarrow> Inl (DContract e)
      | Inr contract \<Rightarrow> Inr \<lparr>td_id = ''task_'' @ fresh, td_name = strip (text_field rp d ''name''),
          td_description = strip (text_field rp d ''description''), td_acceptance = strip (text_field rp d ''acceptanceCriteria''),
          td_contract = contract, td_agent = agent, td_instructions = text_field rp d ''primaryAgentInstructions'',
          td_type = py_str rp (py_or (vget d ''taskType'' PNone) (PStr (slugify_task_type (text_field rp d ''name'')))),
          td_subs = subs\<rparr>)"

definition check_record :: "task_def \<Rightarrow> def_error + task_def" where
  "check_record t =
     (if td_name t = [] \<or> td_description t = [] then Inl (DInvalid ''Task name and description are required'')
      else if length (td_acceptance t) > 4000 then Inl (DInvalid ''Acceptance criteria must not exceed 4000 characters'')
      else Inr t)"

definition build_task ::
    "(pyval \<Rightarrow> string) \<Rightarrow> schema_lib \<Rightarrow> (string \<Rightarrow> string + bool) \<Rightarrow> string \<Rightarrow> (string, pyval) pydict \<Rightarrow> def_error + task_def" where
  "build_task rp lib agents fresh d =
     (let agent = strip (text_field rp d ''primaryAgent'')
      in if agent = [] then Inl (DInvalid ''primaryAgent is required'')
         else rbind (agent_known agents ''Primary agent'' agent) (\<lambda>_.
           rbind (map_sum DPython id (py_list (py_or (vget d ''subAgents'' PNone) (PList [])))) (\<lambda>subs.
           rbind (sub_agents_known rp agents subs) (\<lambda>_.
           rbind (task_record rp lib fresh agent subs d) check_record))))"

definition define_task ::
    "(pyval \<Rightarrow> string) \<Rightarrow> schema_lib \<Rightarrow> (string \<Rightarrow> string + bool) \<Rightarrow> auto_env \<Rightarrow> bool \<Rightarrow> int \<Rightarrow> string \<Rightarrow> string option \<Rightarrow> string option \<Rightarrow>
     (string, pyval) pydict \<Rightarrow> task_store \<Rightarrow> (def_error + task_row) \<times> task_store" where
  "define_task rp lib agents env db now fresh tenant user d s =
     (case rbind (require_identity tenant user) (\<lambda>(t, u). map_sum id (\<lambda>r. (t, u, r)) (build_task rp lib agents fresh d)) of
        Inl e \<Rightarrow> (Inl e, s)
      | Inr (t, u, r) \<Rightarrow> map_prod (map_sum DStore id) id (create_task env db now t u r s))"

text \<open>A scoped lookup, and the same for a row that must exist.\<close>

definition required :: "string \<Rightarrow> task_error + 'a option \<Rightarrow> def_error + 'a" where
  "required what r = (case r of Inl e \<Rightarrow> Inl (DStore e) | Inr None \<Rightarrow> Inl (DMissing what) | Inr (Some v) \<Rightarrow> Inr v)"

definition read_task :: "auto_env \<Rightarrow> bool \<Rightarrow> string \<Rightarrow> string option \<Rightarrow> string option \<Rightarrow> task_store \<Rightarrow> def_error + task_row" where
  "read_task env db x tenant user s =
     rbind (require_identity tenant user) (\<lambda>(t, u). required ''Task'' (get_task env db x t (Some u) s))"

definition read_tasks ::
    "auto_env \<Rightarrow> bool \<Rightarrow> string option \<Rightarrow> string option \<Rightarrow> string option \<Rightarrow> string option \<Rightarrow> task_store \<Rightarrow> def_error + task_row list" where
  "read_tasks env db tenant user status agent s =
     rbind (require_identity tenant user) (\<lambda>(t, u). map_sum DStore id (list_tasks env db t status agent (Some u) s))"

text \<open>The answer of a deletion.\<close>

definition deleted :: "string \<Rightarrow> (task_error + bool) \<times> 's \<Rightarrow> (def_error + unit) \<times> 's" where
  "deleted what r = map_prod (\<lambda>v. case v of Inl e \<Rightarrow> Inl (DStore e) | Inr False \<Rightarrow> Inl (DMissing what) | Inr True \<Rightarrow> Inr ()) id r"

definition remove_task ::
    "auto_env \<Rightarrow> bool \<Rightarrow> string \<Rightarrow> string option \<Rightarrow> string option \<Rightarrow> task_store \<Rightarrow> (def_error + unit) \<times> task_store" where
  "remove_task env db x tenant user s =
     (case require_identity tenant user of Inl e \<Rightarrow> (Inl e, s) | Inr (t, u) \<Rightarrow> deleted ''Task'' (delete_task env db x t u s))"

section \<open>Cron commitments\<close>

definition cron_target ::
    "auto_env \<Rightarrow> bool \<Rightarrow> string \<Rightarrow> string \<Rightarrow> string \<Rightarrow> string \<Rightarrow> task_store \<Rightarrow> job_row list \<Rightarrow> def_error + unit" where
  "cron_target env db kind x t u tasks jobs =
     (if kind = ''Task'' then map_sum id (\<lambda>_. ()) (required ''Automation target'' (get_task env db x t (Some u) tasks))
      else map_sum id (\<lambda>_. ()) (required ''Automation target'' (get_job env db x t jobs)))"

definition cron_draft ::
    "(pyval \<Rightarrow> string) \<Rightarrow> (string \<Rightarrow> int \<Rightarrow> int option) \<Rightarrow> auto_env \<Rightarrow> bool \<Rightarrow> int \<Rightarrow> string \<Rightarrow> string \<Rightarrow> string \<Rightarrow> (string, pyval) pydict \<Rightarrow>
     task_store \<Rightarrow> job_row list \<Rightarrow> def_error + cron_record \<times> int" where
  "cron_draft rp next_cron env db clock fresh t u d tasks jobs =
     (let kind = strip (text_field rp d ''type'');
          action = lower (strip (py_str rp (py_or (vget d ''action'' PNone) (PStr ''execute''))));
          x = strip (text_field rp d ''targetId''); schedule = strip (text_field rp d ''schedule'')
      in if kind \<notin> {''Task'', ''Job'', ''Sequence''} then Inl (DInvalid ''type must be Task, Job, or Sequence'')
         else if action \<notin> {''execute'', ''enqueue''} then Inl (DInvalid ''action must be execute or enqueue'')
         else rbind (cron_target env db kind x t u tasks jobs) (\<lambda>_.
           case next_cron schedule clock of
             None \<Rightarrow> Inl (DInvalid ''Invalid cron expression'')
           | Some n \<Rightarrow>
               let r = \<lparr>cd_id = ''cron_'' @ fresh, cd_name = strip (text_field rp d ''taskName''), cd_schedule = schedule, cd_type = kind,
                        cd_target = x, cd_enabled = truthy (vget d ''enabled'' (PBool True)), cd_action = action\<rparr>
               in if cd_name r = [] then Inl (DInvalid ''taskName is required'') else Inr (r, n)))"

definition define_cron ::
    "(pyval \<Rightarrow> string) \<Rightarrow> (string \<Rightarrow> int \<Rightarrow> int option) \<Rightarrow> auto_env \<Rightarrow> bool \<Rightarrow> int \<Rightarrow> bool \<Rightarrow> int \<Rightarrow> string \<Rightarrow> string option \<Rightarrow> string option \<Rightarrow>
     (string, pyval) pydict \<Rightarrow> task_store \<Rightarrow> job_row list \<Rightarrow> cron_row list \<Rightarrow> (def_error + cron_row) \<times> cron_row list" where
  "define_cron rp next_cron env db clock db_end now fresh tenant user d tasks jobs s =
     (case rbind (require_identity tenant user)
             (\<lambda>(t, u). map_sum id (\<lambda>r. (t, u, r)) (cron_draft rp next_cron env db clock fresh t u d tasks jobs)) of
        Inl e \<Rightarrow> (Inl e, s)
      | Inr (t, u, r, n) \<Rightarrow> map_prod (map_sum DStore id) id (create_cron env db_end now t u r n s))"

definition read_crons :: "auto_env \<Rightarrow> bool \<Rightarrow> string option \<Rightarrow> string option \<Rightarrow> cron_row list \<Rightarrow> def_error + cron_row list" where
  "read_crons env db tenant user s =
     rbind (require_identity tenant user) (\<lambda>(t, u). map_sum DStore id (list_cron env db t s))"

definition remove_cron ::
    "auto_env \<Rightarrow> bool \<Rightarrow> string \<Rightarrow> string option \<Rightarrow> string option \<Rightarrow> cron_row list \<Rightarrow> (def_error + unit) \<times> cron_row list" where
  "remove_cron env db x tenant user s =
     (case require_identity tenant user of Inl e \<Rightarrow> (Inl e, s) | Inr (t, u) \<Rightarrow> deleted ''Cron job'' (delete_cron env db x t s))"

text \<open>\<^verbatim>\<open>toggle_cron\<close>; \<open>between\<close> is what others do between the lookup and the update.\<close>

definition flip_commitment ::
    "(string \<Rightarrow> int \<Rightarrow> int option) \<Rightarrow> auto_env \<Rightarrow> bool \<Rightarrow> int \<Rightarrow> cron_op list \<Rightarrow> bool \<Rightarrow> int \<Rightarrow> int \<Rightarrow> string \<Rightarrow> string option \<Rightarrow> string option \<Rightarrow>
     cron_row list \<Rightarrow> (def_error + cron_row) \<times> cron_row list" where
  "flip_commitment next_cron env db clock between db_end now utcnow x tenant user s =
     (case rbind (require_identity tenant user) (\<lambda>(t, u). map_sum id (\<lambda>r. (t, r)) (required ''Cron job'' (get_cron env db x t s))) of
        Inl e \<Rightarrow> (Inl e, s)
      | Inr (t, r) \<Rightarrow>
          (case next_cron (cj_schedule r) clock of
             None \<Rightarrow> (Inl (DInvalid ''Invalid cron expression''), s)
           | Some n \<Rightarrow> map_prod (required ''Cron job'') id (toggle_cron env db_end now utcnow x t (Some n) (cron_run env between s))))"

text \<open>
  The task type made from a name of code points below 256 is canonical: it is not empty, consists of lower-case letters,
  digits and single inner underscores, spells the letters and digits of the name in order, and making a task
  type from it again changes nothing. Beyond these code points that is not so: Python lowers the capital dotted I to
  two characters, the second of which is no letter and is lost the second time.
\<close>

theorem task_type_canonical:
  "slugify_task_type name \<noteq> [] \<and> set (slugify_task_type name) \<subseteq> Collect plain_char
   \<and> \<not> contains (slugify_task_type name) [under, under] \<and> hd (slugify_task_type name) \<noteq> under \<and> last (slugify_task_type name) \<noteq> under
   \<and> filter (\<lambda>c. c \<noteq> under) (slugify_task_type name) =
       (if filter is_alnum name = [] then ''generaltask'' else map latin_lower (filter is_alnum name))
   \<and> slugify_task_type (slugify_task_type name) = slugify_task_type name"
proof (cases "filter is_alnum name = []")
  case True
  then have "filter (\<lambda>c. c \<noteq> under) (strip_under (map slug_char name)) = []" unfolding strip_under_filter slug_letters by simp
  then have "strip_under (map slug_char name) = []" using strip_under_ends [of "map slug_char name"] by (auto simp: filter_empty_conv)
  then have g: "slugify_task_type name = ''general_task''" by (simp add: slugify_task_type_def)
  have p: "set ''general_task'' \<subseteq> Collect plain_char" by (simp add: plain_char_def is_alnum_def alnum_code_def latin_lower_def upper_code_def)
  have "slugify_task_type ''general_task'' = ''general_task''" by (rule slug_fixed) (use p in simp_all)
  then show ?thesis unfolding g using True p by simp
next
  case False
  let ?t = "strip_under (map slug_char name)"
  have f: "filter (\<lambda>c. c \<noteq> under) ?t = map latin_lower (filter is_alnum name)" unfolding strip_under_filter slug_letters ..
  with False have t: "?t \<noteq> []" by auto
  then have g: "slugify_task_type name = squeeze ?t" using squeeze_spec [of ?t] by (simp add: slugify_task_type_def)
  note sq = squeeze_spec [of ?t, unfolded f]
  have ends: "squeeze ?t \<noteq> []" "hd (squeeze ?t) \<noteq> under" "last (squeeze ?t) \<noteq> under" using sq t strip_under_ends [OF t] by auto
  have p: "set (squeeze ?t) \<subseteq> Collect plain_char" by (rule slug_plain [of _ name]) (use sq in blast)
  have "slugify_task_type (squeeze ?t) = squeeze ?t" by (rule slug_fixed) (use ends p sq in blast)+
  then show ?thesis unfolding g using ends p sq False by simp
qed

section \<open>What is stored\<close>

text \<open>The contract that validation returns is accepted again, whatever the order of the keys was.\<close>

lemma two_keys:
  assumes "dict_ok d" "set (dkeys d) = {a, b}" "a \<noteq> b" "dget d a = Some v" "dget d b = Some w"
  shows "d = [(a, v), (b, w)] \<or> d = [(b, w), (a, v)]"
proof -
  have dist: "distinct (map fst d)" using assms(1) by (simp add: dict_ok_def dkeys_def)
  have "length d = card (set (dkeys d))" using distinct_card [OF dist] by (simp add: dkeys_def)
  then have "length d = 2" using assms(2,3) by simp
  then obtain p q where d: "d = [p, q]" by (auto simp: numeral_2_eq_2 length_Suc_conv)
  obtain k1 v1 k2 v2 where "p = (k1, v1)" "q = (k2, v2)" by (cases p, cases q)
  with d assms show ?thesis by (auto simp: dget_Cons split: if_splits)
qed

lemma accepted_again:
  assumes "validate_contract lib v = Inr c" "\<And>d. v = PDict d \<Longrightarrow> dict_ok d"
  shows "validate_contract lib (PDict c) = Inr c"
proof (cases "c = []")
  case False
  with assms(1) obtain schema where s: "safe_contract lib v schema" and c: "c = accepted_contract (PDict schema)"
    unfolding validate_iff by auto
  obtain d where d: "v = PDict d" "set (dkeys d) = {''version'', ''schema''}" "dget d ''version'' = Some (PStr ''structured-output.v1'')"
    "dget d ''schema'' = Some (PDict schema)" using s by (auto simp: safe_contract_def)
  from two_keys [OF assms(2) [OF d(1)] d(2) _ d(3,4)]
  have "canonical_text lib (PDict c) = canonical_text lib v"
    by (auto simp: canonical_text_def c d(1) accepted_contract_def contract_dict_def sort_by_def)
  then have "safe_contract lib (PDict c) schema"
    using s by (auto simp: safe_contract_def c accepted_contract_def contract_dict_def dget_Cons)
  then show ?thesis unfolding validate_iff using c by blast
qed (simp add: validate_contract_def)

text \<open>The stored definition is complete, and its contract is accepted, as itself but for the order of keys.\<close>

definition checked_definition :: "schema_lib \<Rightarrow> task_def \<Rightarrow> bool" where
  "checked_definition lib t \<longleftrightarrow> td_name t \<noteq> [] \<and> td_description t \<noteq> [] \<and> td_agent t \<noteq> [] \<and> length (td_acceptance t) \<le> 4000
     \<and> (\<exists>c. validate_contract lib (PDict (td_contract t)) = Inr c \<and> same_json (PDict (td_contract t)) (PDict c))"

text \<open>
  What is relied on of the database: an object without floats comes back from its \<^verbatim>\<open>jsonb\<close> column as
  it was, but for the order of its keys. A float may come back as another text of its number.
\<close>

fun float_free :: "pyval \<Rightarrow> bool"
  and float_free_items :: "pyval list \<Rightarrow> bool"
  and float_free_fields :: "(string \<times> pyval) list \<Rightarrow> bool" where
  "float_free (PFloat f) = False"
| "float_free (PList vs) = float_free_items vs"
| "float_free (PDict d) = float_free_fields d"
| "float_free v = True"
| "float_free_items [] = True"
| "float_free_items (v # vs) = (float_free v \<and> float_free_items vs)"
| "float_free_fields [] = True"
| "float_free_fields ((k, v) # d) = (float_free v \<and> float_free_fields d)"

lemma float_free_get: "float_free_fields d \<Longrightarrow> dget d k = Some v \<Longrightarrow> float_free v"
  by (induction d) (auto simp: dget_def split: if_splits)

definition jsonb_keeps :: "auto_env \<Rightarrow> bool" where
  "jsonb_keeps env \<longleftrightarrow> (\<forall>d. float_free (PDict d) \<longrightarrow> (\<exists>d'. ae_jsonb env (PDict d) = PDict d' \<and> same_json (PDict d) (PDict d')))"

text \<open>A payload as Python can hold it, the keys of its contract distinct, with a contract without floats.\<close>

definition payload_ok :: "(string, pyval) pydict \<Rightarrow> bool" where
  "payload_ok d \<longleftrightarrow> (case vget d ''verificationContract'' PNone of PDict c \<Rightarrow> dict_ok c \<and> float_free (PDict c) | _ \<Rightarrow> True)"

lemma accepted_float_free:
  assumes "validate_contract lib v = Inr c" "\<And>d. v = PDict d \<Longrightarrow> float_free (PDict d)"
  shows "float_free (PDict c)"
proof (cases "c = []")
  case False
  with assms(1) obtain schema where s: "safe_contract lib v schema" and c: "c = accepted_contract (PDict schema)"
    unfolding validate_iff by auto
  then obtain d where "v = PDict d" "dget d ''schema'' = Some (PDict schema)" by (auto simp: safe_contract_def)
  with assms(2) float_free_get have "float_free (PDict schema)" by force
  then show ?thesis by (simp add: c accepted_contract_def contract_dict_def)
qed simp

lemma built_checked:
  assumes "build_task rp lib agents fresh d = Inr t" "payload_ok d" "jsonb_keeps env" "reads_by_key lib"
  shows "checked_definition lib (stored_def env t)"
proof -
  obtain c where c: "validate_contract lib (vget d ''verificationContract'' PNone) = Inr c" "td_contract t = c"
    and f: "td_name t \<noteq> []" "td_description t \<noteq> []" "td_agent t \<noteq> []" "length (td_acceptance t) \<le> 4000"
    using assms(1) by (auto simp: build_task_def Let_def rbind_eq_Inr task_record_def check_record_def split: if_splits sum.splits)
  have p: "dict_ok k" "float_free (PDict k)" if "vget d ''verificationContract'' PNone = PDict k" for k
    using assms(2) that by (simp_all add: payload_ok_def)
  have v: "validate_contract lib (PDict c) = Inr c" by (rule accepted_again [OF c(1) p(1)])
  have "float_free (PDict c)" by (rule accepted_float_free [OF c(1) p(2)])
  then obtain c' where j: "ae_jsonb env (PDict c) = PDict c'" "same_json (PDict c) (PDict c')"
    using assms(3) unfolding jsonb_keeps_def by blast
  obtain k where k: "validate_contract lib (PDict c') = Inr k" "same_json (PDict c) (PDict k)"
    by (rule validate_same [OF v j(2) assms(4)])
  have "same_json (PDict c') (PDict k)" using j(2) k(2) by (simp add: same_json_def)
  with k(1) f j(1) c(2) show ?thesis by (simp add: checked_definition_def jsonb_dict_def)
qed

text \<open>The store under the service and the other operations; only the service creates tasks.\<close>

datatype service_op =
    SvDefine bool int string "string option" "string option" "(string, pyval) pydict"
  | SvRemove bool string "string option" "string option"
  | SvTask task_op

record service_env =
  sv_print :: "pyval \<Rightarrow> string"
  sv_lib :: schema_lib
  sv_agents :: "string \<Rightarrow> string + bool"
  sv_auto :: auto_env

fun service_step :: "service_env \<Rightarrow> service_op \<Rightarrow> task_store \<Rightarrow> task_store" where
  "service_step e (SvDefine db now fresh tenant user d) s =
     snd (define_task (sv_print e) (sv_lib e) (sv_agents e) (sv_auto e) db now fresh tenant user d s)"
| "service_step e (SvRemove db x tenant user) s = snd (remove_task (sv_auto e) db x tenant user s)"
| "service_step e (SvTask op) s = task_step (sv_auto e) op s"

fun service_run :: "service_env \<Rightarrow> service_op list \<Rightarrow> task_store \<Rightarrow> task_store" where
  "service_run e [] s = s"
| "service_run e (op # ops) s = service_run e ops (service_step e op s)"

definition creates :: "task_op \<Rightarrow> bool" where
  "creates op \<longleftrightarrow> (case op of TkCreate db now tenant owner d \<Rightarrow> True | _ \<Rightarrow> False)"

definition proper_op :: "service_op \<Rightarrow> bool" where
  "proper_op op \<longleftrightarrow> (case op of SvDefine db now fresh tenant user d \<Rightarrow> payload_ok d | SvRemove db x tenant user \<Rightarrow> True | SvTask op' \<Rightarrow> \<not> creates op')"

definition defs_in :: "task_def set \<Rightarrow> task_store \<Rightarrow> bool" where
  "defs_in D s \<longleftrightarrow> tk_def ` set (ts_tasks s) \<subseteq> D"

lemma defs_tenant:
  "(\<And>t. defs_in D (snd (f t))) \<Longrightarrow> defs_in D s \<Longrightarrow> defs_in D (snd (for_tenant env db tenant s f))"
  by (simp add: for_tenant_def split: option.split)

lemma defs_update: "(\<And>r. tk_def (f r) = tk_def r) \<Longrightarrow> defs_in D s \<Longrightarrow> defs_in D (snd (update_task P f s))"
  by (auto simp: defs_in_def update_task_def update_where_def)

lemma defs_delete: "defs_in D s \<Longrightarrow> defs_in D (snd (delete_task env db x tenant owner s))"
  unfolding delete_task_def by (rule defs_tenant) (auto simp: defs_in_def Let_def split: option.split)

lemma defs_kept: "\<not> creates op \<Longrightarrow> defs_in D s \<Longrightarrow> defs_in D (task_step env op s)"
proof (cases op)
  case (TkDelete db x tenant owner)
  then show "defs_in D s \<Longrightarrow> ?thesis" by (simp add: defs_delete)
next
  case (TkStart db now clk x tenant token lease owner)
  then show "defs_in D s \<Longrightarrow> ?thesis"
    by (auto simp: mark_task_running_def start_run_def intro!: defs_tenant defs_update split: option.split)
next
  case (TkRenew db now clk x tenant token lease)
  then show "defs_in D s \<Longrightarrow> ?thesis"
    by (auto simp: renew_task_claim_def Let_def split_beta intro!: defs_tenant defs_update split: option.split)
next
  case (TkComplete db now clk x tenant token st err rt rc)
  then show "defs_in D s \<Longrightarrow> ?thesis"
    by (auto simp: complete_task_def end_run_def intro!: defs_tenant defs_update split: option.split)
next
  case (TkReview db ev clk x tenant user execution decision remark)
  have "defs_in D s \<Longrightarrow> defs_in D (snd (review_current env ev clk x t u a decision remark s))" for t u a
    by (auto simp: defs_in_def review_current_def Let_def update_where_def end_review_def split: option.splits bool.splits)
  with TkReview show "defs_in D s \<Longrightarrow> ?thesis" by (auto simp: review_task_def intro!: defs_tenant split: option.split)
qed (simp add: creates_def)

lemma defs_create: "stored_def env d \<in> D \<Longrightarrow> defs_in D s \<Longrightarrow> defs_in D (snd (create_task env db now tenant owner d s))"
  unfolding create_task_def by (rule defs_tenant) (auto simp: defs_in_def Let_def split: option.split)

lemma service_step_checked:
  assumes "proper_op op" "defs_in (Collect (checked_definition (sv_lib e))) s"
    and env: "jsonb_keeps (sv_auto e)" "reads_by_key (sv_lib e)"
  shows "defs_in (Collect (checked_definition (sv_lib e))) (service_step e op s)"
proof (cases op)
  case (SvDefine db now fresh tenant user d)
  with assms(1) have p: "payload_ok d" by (simp add: proper_op_def)
  show ?thesis
  proof (cases "rbind (require_identity tenant user)
      (\<lambda>(t, u). map_sum id (\<lambda>r. (t, u, r)) (build_task (sv_print e) (sv_lib e) (sv_agents e) fresh d))")
    case (Inr v)
    obtain t u r where v: "v = (t, u, r)" by (cases v)
    have "build_task (sv_print e) (sv_lib e) (sv_agents e) fresh d = Inr r" using Inr v
      by (cases "build_task (sv_print e) (sv_lib e) (sv_agents e) fresh d") (auto simp: rbind_eq_Inr)
    from built_checked [OF this p env] have "stored_def (sv_auto e) r \<in> Collect (checked_definition (sv_lib e))" by simp
    from defs_create [OF this assms(2)] show ?thesis by (simp add: SvDefine define_task_def Inr v)
  qed (use assms(2) SvDefine in \<open>simp add: define_task_def\<close>)
next
  case (SvRemove db x tenant user)
  then show ?thesis using assms(2) by (auto simp: remove_task_def deleted_def intro: defs_delete split: sum.split)
next
  case (SvTask op')
  then show ?thesis using assms by (simp add: proper_op_def defs_kept)
qed

text \<open>No task is created but by the service, on a database and a library as relied on.\<close>

definition sound_service :: "service_env \<Rightarrow> bool" where
  "sound_service e \<longleftrightarrow> jsonb_keeps (sv_auto e) \<and> reads_by_key (sv_lib e)"

definition sound_step :: "service_env \<Rightarrow> service_op \<Rightarrow> task_store \<Rightarrow> task_store" where
  "sound_step e op s = (if proper_op op \<and> sound_service e then service_step e op s else s)"

interpretation task_service: invariant_machine "sound_step e" "defs_in (Collect (checked_definition (sv_lib e)))" for e
  by unfold_locales (simp add: service_step_checked sound_service_def sound_step_def)

lemma service_run_eq: "\<forall>op \<in> set ops. proper_op op \<Longrightarrow> sound_service e \<Longrightarrow> service_run e ops s = task_service.run e ops s"
  by (induction ops arbitrary: s) (simp_all add: sound_step_def)

lemma map_sum_Inr: "map_sum f g v = Inr y \<longleftrightarrow> (\<exists>x. v = Inr x \<and> y = g x)"
  by (cases v) auto

lemma stored_Inr: "map_prod (map_sum f id) id p = (Inr r, s') \<longleftrightarrow> p = (Inr r, s')"
  by (cases p) (auto simp: map_sum_Inr)

text \<open>
  C37: Where tasks are created through the service from contracts without floats, every stored task has a name, a
  description and an agent, its contract is one the validation accepts as the column gives it back, and so no
  execution of it, whatever the runtime answers, fails because of its contract. Relied on are that a jsonb
  column changes nothing in an object without floats but the order of its keys, and that the check of a schema by the
  JSON Schema library does not depend on that order. With floats it is not so: the column may give a number
  back in more characters than it was written in, and the contract then exceeds the limit.
\<close>

theorem stored_contracts_hold:
  assumes "r \<in> set (ts_tasks (service_run e ops empty_tasks))" "\<forall>op \<in> set ops. proper_op op" "xe_lib xe = sv_lib e"
    and "jsonb_keeps (sv_auto e)" "reads_by_key (sv_lib e)"
  shows "checked_definition (sv_lib e) (tk_def r) \<and> result_receipt xe (td_contract (tk_def r)) req res \<noteq> Inl (XContract problem)"
proof -
  have so: "sound_service e" using assms(4,5) by (simp add: sound_service_def)
  have "defs_in (Collect (checked_definition (sv_lib e))) (service_run e ops empty_tasks)"
    unfolding service_run_eq [OF assms(2) so] by (rule task_service.inv_run) (simp add: defs_in_def empty_tasks_def)
  with assms(1) have c: "checked_definition (sv_lib e) (tk_def r)" by (auto simp: defs_in_def)
  then obtain k where "validate_contract (xe_lib xe) (PDict (td_contract (tk_def r))) = Inr k"
    by (auto simp: checked_definition_def assms(3))
  then have "result_receipt xe (td_contract (tk_def r)) req res \<noteq> Inl (XContract problem)"
    by (simp add: result_receipt_def assess_structured_output_def split: option.split)
  with c show ?thesis by simp
qed

text \<open>
  C38: A stored cron commitment is one its creator could schedule: the expression is valid, it runs next at the
  occurrence after its creation, nobody holds it, and at that time its target existed in its tenant -
  a task for its creator, a job or sequence for anyone of the tenant.
\<close>

theorem cron_targets_resolved:
  assumes "define_cron rp next_cron env db clock db_end now fresh tenant user d tasks jobs s = (Inr r, s')"
  shows "s' = s @ [r] \<and> cj_name r \<noteq> [] \<and> next_cron (cj_schedule r) clock = Some (cj_next r) \<and> cj_token r = None
    \<and> cj_action r \<in> {''execute'', ''enqueue''} \<and> ae_cast env (the tenant) = Some (cj_tenant r) \<and> ae_cast env (the user) = Some (cj_owner r)
    \<and> (if cj_type r = ''Task'' then (\<exists>q \<in> set (ts_tasks tasks). tk_id q = cj_target r \<and> tk_tenant q = cj_tenant r \<and> tk_owner q = cj_owner r)
       else cj_type r \<in> {''Job'', ''Sequence''} \<and> (\<exists>q \<in> set jobs. jb_id q = cj_target r \<and> jb_tenant q = cj_tenant r))"
proof -
  obtain t u c n where id: "require_identity tenant user = Inr (t, u)"
    and dr: "cron_draft rp next_cron env db clock fresh t u d tasks jobs = Inr (c, n)"
    and cr: "create_cron env db_end now t u c n s = (Inr r, s')"
    using assms by (auto simp: define_cron_def rbind_eq_Inr map_sum_Inr stored_Inr split: sum.splits)
  have tu: "tenant = Some t" "user = Some u"
    using id by (auto simp: require_identity_def identity_text_def split: if_splits option.splits)
  obtain t' u' where casts: "ae_cast env t = Some t'" "ae_cast env u = Some u'"
    and r: "cj_tenant r = t'" "cj_owner r = u'" "cj_name r = cd_name c" "cj_schedule r = cd_schedule c" "cj_type r = cd_type c"
      "cj_target r = cd_target c" "cj_action r = cd_action c" "cj_next r = n" "cj_token r = None" "s' = s @ [r]"
    using cr by (auto simp: create_cron_def for_tenant_def Let_def split: option.splits if_splits)
  have c: "cd_name c \<noteq> []" "next_cron (cd_schedule c) clock = Some n" "cd_action c \<in> {''execute'', ''enqueue''}"
      "cd_type c \<in> {''Task'', ''Job'', ''Sequence''}" "cron_target env db (cd_type c) (cd_target c) t u tasks jobs = Inr ()"
    using dr by (auto simp: cron_draft_def Let_def rbind_eq_Inr split: if_splits option.splits)
  have "if cd_type c = ''Task'' then \<exists>q. find (\<lambda>r. task_at (cd_target c) t' r \<and> tk_owner r = u') (ts_tasks tasks) = Some q
        else \<exists>q. find (job_at (cd_target c) t') jobs = Some q"
    using c(5) casts by (auto simp: cron_target_def map_sum_Inr required_def get_task_def get_job_def for_tenant_def split: if_splits sum.splits option.splits)
  then have "if cd_type c = ''Task'' then (\<exists>q \<in> set (ts_tasks tasks). tk_id q = cd_target c \<and> tk_tenant q = t' \<and> tk_owner q = u')
        else (\<exists>q \<in> set jobs. jb_id q = cd_target c \<and> jb_tenant q = t')"
    by (auto simp: find_Some_iff task_at_def job_at_def split: if_splits)
  with r c(1-4) casts tu show ?thesis by (simp split: if_splits)
qed

section \<open>Witnesses\<close>

definition sample_payload :: "(string, pyval) pydict" where
  "sample_payload = [(''name'', PStr ''n''), (''description'', PStr ''d''), (''primaryAgent'', PStr ''a''),
     (''verificationContract'', PDict [(''schema'', PDict [(''type'', PStr ''object'')]), (''version'', PStr ''structured-output.v1'')])]"

definition sample_lib :: schema_lib where
  "sample_lib = \<lparr>js_schema_ok = (\<lambda>_. True), js_errors = (\<lambda>_ _. []), js_float = (\<lambda>_. ''0''), js_sha256 = (\<lambda>_. ''h'')\<rparr>"

text \<open>A column that gives objects back with their keys in order.\<close>

definition sorting_env :: auto_env where
  "sorting_env = \<lparr>ae_cast = Some, ae_integer = (\<lambda>_. None), ae_json_text = (\<lambda>_. []), ae_jsonb = sort_keys\<rparr>"

lemma sorting_keeps: "jsonb_keeps sorting_env"
  unfolding jsonb_keeps_def sorting_env_def same_json_def by (metis auto_env.select_convs(4) sort_keys.simps(2) sort_keys_idem(1))

definition sample_service :: service_env where
  "sample_service = \<lparr>sv_print = (\<lambda>_. []), sv_lib = sample_lib, sv_agents = (\<lambda>_. Inr True), sv_auto = sorting_env\<rparr>"

definition sample_defined :: task_def where
  "sample_defined = \<lparr>td_id = ''task_f'', td_name = ''n'', td_description = ''d'', td_acceptance = [],
     td_contract = [(''version'', PStr ''structured-output.v1''), (''schema'', PDict [(''type'', PStr ''object'')])], td_agent = ''a'',
     td_instructions = [], td_type = ''n'', td_subs = []\<rparr>"

lemma sample_built: "build_task (\<lambda>_. []) sample_lib (\<lambda>_. Inr True) ''f'' sample_payload = Inr sample_defined"
  by code_simp

definition sample_row :: task_row where
  "sample_row = \<lparr>tk_def = stored_def sorting_env sample_defined, tk_tenant = ''w'', tk_owner = ''u'', tk_status = ''Pending'', tk_last_run = None,
     tk_error = None, tk_runs = 0, tk_runtime = None, tk_execution = None, tk_receipt = [], tk_reviewed_at = None,
     tk_reviewed_by = None, tk_note = None, tk_claim = None, tk_expires = None, tk_created = 1, tk_updated = 1\<rparr>"

lemma sample_identity: "require_identity (Some ''w'') (Some ''u'') = Inr (''w'', ''u'')"
  by code_simp

lemma sample_stored:
  "service_run sample_service [SvDefine True 1 ''f'' (Some ''w'') (Some ''u'') sample_payload] empty_tasks = \<lparr>ts_tasks = [sample_row], ts_reviews = []\<rparr>"
  by (simp add: sample_service_def define_task_def sample_identity sample_built create_task_def for_tenant_def sorting_env_def
      empty_tasks_def sample_row_def Let_def)

definition sample_limits :: exec_env where
  "sample_limits = \<lparr>xe_lib = sample_lib, xe_url = (\<lambda>_. None), xe_max_chars = 2400, xe_lease = 60, xe_heartbeat = 1\<rparr>"

theorem stored_contracts_hold_witness:
  "result_receipt sample_limits [(''schema'', PDict [(''type'', PStr ''object'')]), (''version'', PStr ''structured-output.v1'')]
     ''r'' sample_step_result \<noteq> Inl (XContract ''Verification contract must be JSON'')"
proof -
  have r: "sample_row \<in> set (ts_tasks (service_run sample_service [SvDefine True 1 ''f'' (Some ''w'') (Some ''u'') sample_payload] empty_tasks))"
    by (simp only: sample_stored) simp
  have p: "payload_ok sample_payload" by (simp add: payload_ok_def sample_payload_def vget_def dget_Cons dict_ok_def dkeys_def)
  have c: "td_contract (tk_def sample_row) = [(''schema'', PDict [(''type'', PStr ''object'')]), (''version'', PStr ''structured-output.v1'')]"
    by (simp add: sample_row_def jsonb_dict_def sorting_env_def sample_defined_def sort_by_def)
  show ?thesis
    using stored_contracts_hold [OF r, of sample_limits "''r''" sample_step_result "''Verification contract must be JSON''"] p sorting_keeps
    by (simp add: c proper_op_def sample_limits_def sample_service_def reads_by_key_def sample_lib_def)
qed

definition sample_schedule :: "(string, pyval) pydict" where
  "sample_schedule = [(''type'', PStr ''Task''), (''targetId'', PStr ''task_f''), (''schedule'', PStr ''* * * * *''), (''taskName'', PStr ''n'')]"

lemma sample_draft:
  "cron_draft (\<lambda>_. []) (\<lambda>_ c. Some (c + 60)) \<lparr>ae_cast = Some, ae_integer = (\<lambda>_. None), ae_json_text = (\<lambda>_. []), ae_jsonb = (\<lambda>v. v)\<rparr> True 5 ''g'' ''w'' ''u'' sample_schedule
     \<lparr>ts_tasks = [sample_row], ts_reviews = []\<rparr> [] =
   Inr (\<lparr>cd_id = ''cron_g'', cd_name = ''n'', cd_schedule = ''* * * * *'', cd_type = ''Task'', cd_target = ''task_f'', cd_enabled = True, cd_action = ''execute''\<rparr>, 65)"
  by code_simp

theorem cron_targets_resolved_witness:
  "\<exists>q \<in> {sample_row}. tk_id q = ''task_f'' \<and> tk_tenant q = ''w'' \<and> tk_owner q = ''u''"
proof -
  let ?env = "\<lparr>ae_cast = Some, ae_integer = (\<lambda>_. None), ae_json_text = (\<lambda>_. []), ae_jsonb = (\<lambda>v. v)\<rparr>"
  obtain r where "define_cron (\<lambda>_. []) (\<lambda>_ c. Some (c + 60)) ?env True 5 True 6 ''g'' (Some ''w'') (Some ''u'') sample_schedule
      \<lparr>ts_tasks = [sample_row], ts_reviews = []\<rparr> [] [] = (Inr r, [r])"
    and r: "cj_type r = ''Task''" "cj_target r = ''task_f''" "cj_tenant r = ''w''" "cj_owner r = ''u''"
    by (simp add: define_cron_def sample_identity sample_draft create_cron_def for_tenant_def Let_def)
  from cron_targets_resolved [OF this(1)] r show ?thesis by simp
qed

end
