(* ===== verification/Rbac.thy ===== *)
theory Rbac
  imports Prelude
begin

text \<open>
  Role based access control, \<^verbatim>\<open>src/src/ai_karen_engine/auth/rbac_middleware.py\<close>: the
  permission and role enumerations, the built-in role table and its override by a loaded
  configuration, permission aliases, the inheritance walk and the permission checks every
  other authority of the program asks.

  A permission is its wire value (a string); \<open>permission_values\<close> lists the members of the
  enumeration. The inheritance walk has no visited set in the code, so it is a partial
  function: \<open>None\<close> is the unbounded recursion on a cyclic table. The audit writer and the
  FastAPI dependencies are not modelled.
\<close>

section \<open>Enumerations\<close>

definition permission_values :: "string list" where
  "permission_values =
    [''read'', ''edit'', ''browser'', ''command'', ''mcp'',
     ''training:read'', ''training:write'', ''training:delete'', ''training:execute'',
     ''training_data:read'', ''training_data:write'', ''training_data:delete'',
     ''model:read'', ''model:write'', ''model:delete'', ''model:deploy'', ''model:list'',
     ''model:info'', ''model:download'', ''model:remove'', ''model:ensure'', ''model:gc'',
     ''model:registry:read'', ''model:registry:write'', ''model:health:check'',
     ''model:compatibility:check'', ''model:license:view'', ''model:license:accept'',
     ''model:license:manage'', ''model:pin'', ''model:unpin'', ''model:quota:manage'',
     ''data:read'', ''data:write'', ''data:delete'', ''data:export'',
     ''planner:read'', ''planner:write'', ''timer:read'', ''timer:write'',
     ''scheduler:read'', ''scheduler:write'', ''scheduler:execute'',
     ''admin:read'', ''admin:write'', ''admin:system'',
     ''admin.users:read'', ''admin.users:manage'', ''admin.tenants:read'',
     ''admin.tenants:manage'', ''admin.providers:read'', ''admin.providers:manage'',
     ''admin.plugins:read'', ''admin.plugins:manage'', ''admin.audit:read'',
     ''admin.runtime:read'', ''admin.runtime:manage'', ''admin.health:read'',
     ''admin.memory:read'', ''admin.memory:manage'', ''admin.features:read'',
     ''admin.features:manage'',
     ''audit:read'', ''security:read'', ''security:write'', ''security:evil_mode'',
     ''routing:select'', ''routing:profile:view'', ''routing:profile:manage'',
     ''routing:health'', ''routing:audit'', ''routing:dry_run'',
     ''channel.consent'', ''channel.provision'', ''channel.activate'',
     ''channel.deactivate'', ''channel.recover'', ''channel.send'']"

datatype role =
    SUPER_ADMIN | ADMIN | TRAINER | ANALYST | USER | READONLY | MODEL_MANAGER
  | DATA_STEWARD | ROUTING_ADMIN | ROUTING_OPERATOR | ROUTING_AUDITOR

fun role_value :: "role \<Rightarrow> string" where
  "role_value SUPER_ADMIN = ''super_admin''"
| "role_value ADMIN = ''admin''"
| "role_value TRAINER = ''trainer''"
| "role_value ANALYST = ''analyst''"
| "role_value USER = ''user''"
| "role_value READONLY = ''readonly''"
| "role_value MODEL_MANAGER = ''model_manager''"
| "role_value DATA_STEWARD = ''data_steward''"
| "role_value ROUTING_ADMIN = ''routing_admin''"
| "role_value ROUTING_OPERATOR = ''routing_operator''"
| "role_value ROUTING_AUDITOR = ''routing_auditor''"

definition roles_in_order :: "role list" where
  "roles_in_order =
    [SUPER_ADMIN, ADMIN, TRAINER, ANALYST, USER, READONLY, MODEL_MANAGER, DATA_STEWARD,
     ROUTING_ADMIN, ROUTING_OPERATOR, ROUTING_AUDITOR]"

text \<open>\<^verbatim>\<open>Role(value)\<close>: \<open>None\<close> is the \<^verbatim>\<open>ValueError\<close>.\<close>

definition role_of :: "string \<Rightarrow> role option" where
  "role_of s = find (\<lambda>r. role_value r = s) roles_in_order"

record role_permissions =
  rp_permissions :: "string set"
  rp_inherits_from :: "role option"

text \<open>
  An entry of a role configuration. \<open>None\<close> means the key is absent; for \<open>re_inherits\<close> the
  inner \<open>None\<close> is a key present with the value \<^verbatim>\<open>None\<close>, which shadows the default.
\<close>

record role_entry =
  re_permissions :: "string list option"
  re_inherits :: "string option option"

section \<open>The built-in table\<close>

definition permissions_except :: "string list \<Rightarrow> string list" where
  "permissions_except excluded = filter (\<lambda>p. p \<notin> set excluded) permission_values"

fun default_role_entry :: "role \<Rightarrow> role_entry" where
  "default_role_entry SUPER_ADMIN = \<lparr>re_permissions = Some [''*''], re_inherits = None\<rparr>"
| "default_role_entry ADMIN =
     \<lparr>re_permissions = Some (permissions_except [''security:evil_mode'']), re_inherits = None\<rparr>"
| "default_role_entry TRAINER =
     \<lparr>re_permissions = Some
        [''edit'', ''command'', ''training:write'', ''training:execute'', ''training_data:read'',
         ''training_data:write'', ''model:write'', ''model:deploy'', ''model:download'',
         ''model:ensure'', ''data:write'', ''scheduler:read'', ''scheduler:write''],
      re_inherits = Some (Some ''user'')\<rparr>"
| "default_role_entry ANALYST =
     \<lparr>re_permissions = Some [''audit:read'', ''data:export'', ''routing:profile:view''],
      re_inherits = Some (Some ''user'')\<rparr>"
| "default_role_entry USER =
     \<lparr>re_permissions = Some
        [''channel.consent'', ''browser'', ''data:read'', ''planner:read'', ''planner:write'',
         ''timer:read'', ''timer:write''],
      re_inherits = Some (Some ''readonly'')\<rparr>"
| "default_role_entry READONLY =
     \<lparr>re_permissions = Some
        [''read'', ''training:read'', ''model:read'', ''model:list'', ''model:info''],
      re_inherits = None\<rparr>"
| "default_role_entry MODEL_MANAGER =
     \<lparr>re_permissions = Some
        [''edit'', ''command'', ''mcp'', ''model:write'', ''model:delete'', ''model:deploy'',
         ''model:download'', ''model:remove'', ''model:ensure'', ''model:gc'',
         ''model:registry:read'', ''model:registry:write'', ''model:health:check'',
         ''model:compatibility:check'', ''model:license:view'', ''model:license:accept'',
         ''model:license:manage'', ''model:pin'', ''model:unpin'', ''model:quota:manage''],
      re_inherits = Some (Some ''user'')\<rparr>"
| "default_role_entry DATA_STEWARD =
     \<lparr>re_permissions = Some
        [''edit'', ''data:write'', ''data:delete'', ''data:export'', ''training_data:read'',
         ''training_data:write'', ''training_data:delete'', ''security:read''],
      re_inherits = Some (Some ''user'')\<rparr>"
| "default_role_entry ROUTING_ADMIN =
     \<lparr>re_permissions = Some
        [''edit'', ''admin:read'', ''routing:profile:manage'', ''routing:audit''],
      re_inherits = Some (Some ''routing_operator'')\<rparr>"
| "default_role_entry ROUTING_OPERATOR =
     \<lparr>re_permissions = Some
        [''command'', ''routing:select'', ''routing:profile:view'', ''routing:health'',
         ''routing:dry_run''],
      re_inherits = Some (Some ''user'')\<rparr>"
| "default_role_entry ROUTING_AUDITOR =
     \<lparr>re_permissions = Some
        [''browser'', ''audit:read'', ''routing:profile:view'', ''routing:health'',
         ''routing:audit''],
      re_inherits = Some (Some ''readonly'')\<rparr>"

section \<open>Configuration\<close>

text \<open>
  A loaded configuration has a \<^verbatim>\<open>roles\<close> object, or the older \<^verbatim>\<open>role_permissions\<close> object,
  or neither. In the older form the normalised entry always has both keys.
\<close>

record rbac_config =
  cfg_roles :: "(string, role_entry) pydict option"
  cfg_legacy :: "(string, role_entry) pydict option"

definition normalize_legacy_entry :: "role_entry \<Rightarrow> role_entry" where
  "normalize_legacy_entry e =
     (let raw = (case re_permissions e of None \<Rightarrow> [] | Some ps \<Rightarrow> ps);
          raw' = (if raw = [''all''] then [''*''] else raw)
      in \<lparr>re_permissions = Some raw',
          re_inherits = Some (case re_inherits e of None \<Rightarrow> None | Some i \<Rightarrow> i)\<rparr>)"

definition normalize_role_config :: "rbac_config \<Rightarrow> (string, role_entry) pydict" where
  "normalize_role_config cfg =
     (case cfg_roles cfg of
        Some rs \<Rightarrow> rs
      | None \<Rightarrow> (case cfg_legacy cfg of
            None \<Rightarrow> []
          | Some leg \<Rightarrow> map (\<lambda>(n, e). (n, normalize_legacy_entry e)) leg))"

definition permission_aliases :: "(string, string) pydict" where
  "permission_aliases =
    [(''users:manage'', ''admin:write''), (''system:configure'', ''admin:system''),
     (''plugins:manage'', ''admin:write''), (''chat:use'', ''browser''),
     (''data:read_own'', ''data:read''), (''profile:manage_own'', ''edit'')]"

fun resolve_permission_names :: "string list \<Rightarrow> string set" where
  "resolve_permission_names [] = {}"
| "resolve_permission_names (v # vs) =
     (if v \<in> set permission_values then insert v (resolve_permission_names vs)
      else (case dget permission_aliases v of
              Some a \<Rightarrow> insert a (resolve_permission_names vs)
            | None \<Rightarrow> resolve_permission_names vs))"

definition entry_inherits :: "role_entry option \<Rightarrow> role_entry \<Rightarrow> role option" where
  "entry_inherits entry dflt =
     (case (case entry of
              None \<Rightarrow> re_inherits dflt
            | Some e \<Rightarrow> (case re_inherits e of None \<Rightarrow> re_inherits dflt | Some i \<Rightarrow> Some i)) of
        Some (Some name) \<Rightarrow> (if name = [] then None else role_of name)
      | _ \<Rightarrow> None)"

definition entry_permissions :: "role_entry option \<Rightarrow> role_entry \<Rightarrow> string set" where
  "entry_permissions entry dflt =
     (let dps = (case re_permissions dflt of None \<Rightarrow> [] | Some ps \<Rightarrow> ps);
          raw = (case entry of
                   None \<Rightarrow> dps
                 | Some e \<Rightarrow> (case re_permissions e of None \<Rightarrow> dps | Some ps \<Rightarrow> ps))
      in if raw = [''*''] \<or> raw = [''all''] then set permission_values
         else (let ps = resolve_permission_names raw
               in if raw \<noteq> [] \<and> ps = {} \<and> dps \<noteq> [] then resolve_permission_names dps else ps))"

definition build_role_permissions :: "rbac_config \<Rightarrow> role \<Rightarrow> role_permissions" where
  "build_role_permissions cfg r =
     (let entry = dget (normalize_role_config cfg) (role_value r);
          dflt = default_role_entry r
      in \<lparr>rp_permissions = entry_permissions entry dflt,
          rp_inherits_from = entry_inherits entry dflt\<rparr>)"

section \<open>Permission checks\<close>

type_synonym role_table = "role \<Rightarrow> role_permissions"

partial_function (option) collect_permissions ::
    "role_table \<Rightarrow> role \<Rightarrow> string set \<Rightarrow> string set option" where
  "collect_permissions tbl r agg =
     (case rp_inherits_from (tbl r) of
        None \<Rightarrow> Some (agg \<union> rp_permissions (tbl r))
      | Some p \<Rightarrow> collect_permissions tbl p (agg \<union> rp_permissions (tbl r)))"

record user_data =
  ud_roles :: "string list"
  ud_permissions :: "string list"

fun collect_roles :: "role_table \<Rightarrow> string list \<Rightarrow> string set \<Rightarrow> string set option" where
  "collect_roles tbl [] agg = Some agg"
| "collect_roles tbl (n # ns) agg =
     (case role_of (lower n) of
        None \<Rightarrow> collect_roles tbl ns agg
      | Some r \<Rightarrow> (case collect_permissions tbl r agg of
            None \<Rightarrow> None
          | Some agg' \<Rightarrow> collect_roles tbl ns agg'))"

definition get_user_permissions :: "role_table \<Rightarrow> user_data \<Rightarrow> string set option" where
  "get_user_permissions tbl u =
     (case collect_roles tbl (ud_roles u) {} of
        None \<Rightarrow> None
      | Some ps \<Rightarrow> Some (ps \<union> resolve_permission_names (ud_permissions u)))"

text \<open>
  A target that is not a member of the enumeration is compared by its string form, which for
  a member of a \<^verbatim>\<open>str\<close>-valued \<^verbatim>\<open>Enum\<close> is \<^verbatim>\<open>Permission.NAME\<close>: no such target is ever matched
  by a permission value, so the check fails unless the target spells that form; such targets
  are outside the model's domain and the branch is \<open>False\<close>.
\<close>

definition has_permission :: "role_table \<Rightarrow> user_data \<Rightarrow> string \<Rightarrow> bool option" where
  "has_permission tbl u target =
     (case get_user_permissions tbl u of
        None \<Rightarrow> None
      | Some ps \<Rightarrow> Some (target \<in> set permission_values \<and> target \<in> ps))"

fun has_any_permission :: "role_table \<Rightarrow> user_data \<Rightarrow> string list \<Rightarrow> bool option" where
  "has_any_permission tbl u [] = Some False"
| "has_any_permission tbl u (p # ps) =
     (case has_permission tbl u p of
        None \<Rightarrow> None
      | Some True \<Rightarrow> Some True
      | Some False \<Rightarrow> has_any_permission tbl u ps)"

fun has_all_permissions :: "role_table \<Rightarrow> user_data \<Rightarrow> string list \<Rightarrow> bool option" where
  "has_all_permissions tbl u [] = Some True"
| "has_all_permissions tbl u (p # ps) =
     (case has_permission tbl u p of
        None \<Rightarrow> None
      | Some True \<Rightarrow> has_all_permissions tbl u ps
      | Some False \<Rightarrow> Some False)"

definition has_role :: "user_data \<Rightarrow> string \<Rightarrow> bool" where
  "has_role u r \<longleftrightarrow> lower r \<in> set (map lower (ud_roles u))"

definition has_admin_role :: "user_data \<Rightarrow> bool" where
  "has_admin_role u \<longleftrightarrow> has_role u ''admin'' \<or> has_role u ''super_admin''"

text \<open>The level tables of the \<^verbatim>\<open>check_*_access\<close> helpers; an unknown level means the read set.\<close>

definition training_requirements :: "string \<Rightarrow> string list" where
  "training_requirements level =
     (let l = lower level in
      if l = ''read'' then [''training:read'', ''training_data:read'']
      else if l = ''write'' then [''training:write'', ''training:execute'', ''training_data:write'']
      else if l = ''delete'' then [''training:delete'', ''training_data:delete'']
      else if l = ''execute'' then [''training:execute'']
      else [''training:read''])"

definition check_training_access :: "role_table \<Rightarrow> user_data \<Rightarrow> string \<Rightarrow> bool option" where
  "check_training_access tbl u level = has_any_permission tbl u (training_requirements level)"

definition model_requirements :: "string \<Rightarrow> string list" where
  "model_requirements action =
     (let l = lower action in
      if l = ''read'' then [''model:read'', ''model:info'', ''model:list'', ''model:health:check'']
      else if l = ''write'' then
        [''model:write'', ''model:download'', ''model:ensure'', ''model:pin'', ''model:unpin'']
      else if l = ''delete'' then [''model:delete'', ''model:remove'', ''model:gc'']
      else if l = ''deploy'' then [''model:deploy'']
      else if l = ''registry'' then [''model:registry:read'', ''model:registry:write'']
      else [''model:read''])"

definition check_model_access :: "role_table \<Rightarrow> user_data \<Rightarrow> string \<Rightarrow> bool option" where
  "check_model_access tbl u action = has_any_permission tbl u (model_requirements action)"

definition data_requirements :: "string \<Rightarrow> string list" where
  "data_requirements level =
     (let l = lower level in
      if l = ''read'' then [''data:read'', ''training_data:read'']
      else if l = ''write'' then [''data:write'', ''training_data:write'']
      else if l = ''delete'' then [''data:delete'', ''training_data:delete'']
      else if l = ''export'' then [''data:export'']
      else [''data:read''])"

definition check_data_access :: "role_table \<Rightarrow> user_data \<Rightarrow> string \<Rightarrow> bool option" where
  "check_data_access tbl u level = has_any_permission tbl u (data_requirements level)"

definition check_scheduler_access :: "role_table \<Rightarrow> user_data \<Rightarrow> string \<Rightarrow> bool option" where
  "check_scheduler_access tbl u level =
     (let l = lower level in has_any_permission tbl u
        (if l = ''write'' then [''scheduler:write'']
         else if l = ''execute'' then [''scheduler:execute'']
         else [''scheduler:read'']))"

definition check_admin_access :: "role_table \<Rightarrow> user_data \<Rightarrow> string \<Rightarrow> bool option" where
  "check_admin_access tbl u level =
     (let l = lower level in has_any_permission tbl u
        (if l = ''write'' then [''admin:write'']
         else if l = ''system'' then [''admin:system'']
         else [''admin:read'']))"

section \<open>The inheritance walk\<close>

definition inherits_rel :: "role_table \<Rightarrow> (role \<times> role) set" where
  "inherits_rel tbl = {(r, p). rp_inherits_from (tbl r) = Some p}"

text \<open>A table is ranked when every parent has a smaller rank: then no inheritance cycle exists.\<close>

definition ranked :: "role_table \<Rightarrow> (role \<Rightarrow> nat) \<Rightarrow> bool" where
  "ranked tbl rk \<longleftrightarrow> (\<forall>r \<in> set roles_in_order. case rp_inherits_from (tbl r) of
     None \<Rightarrow> True | Some p \<Rightarrow> rk p < rk r)"

definition role_closure :: "role_table \<Rightarrow> role \<Rightarrow> string set" where
  "role_closure tbl r = (\<Union>r' \<in> (inherits_rel tbl)\<^sup>* `` {r}. rp_permissions (tbl r'))"

lemma all_roles [simp]: "r \<in> set roles_in_order"
  by (cases r) (simp_all add: roles_in_order_def)

lemma role_of_value [simp]: "role_of (role_value r) = Some r"
  by (cases r) (simp_all add: role_of_def roles_in_order_def)

lemma role_of_SomeD: "role_of s = Some r \<Longrightarrow> role_value r = s"
  by (auto simp: role_of_def find_Some_iff)

lemma rankedD: "ranked tbl rk \<Longrightarrow> rp_inherits_from (tbl r) = Some p \<Longrightarrow> rk p < rk r"
  by (auto simp: ranked_def dest: bspec [OF _ all_roles [of r]])

lemma role_closure_None:
  "rp_inherits_from (tbl r) = None \<Longrightarrow> role_closure tbl r = rp_permissions (tbl r)"
proof -
  assume "rp_inherits_from (tbl r) = None"
  then have "(inherits_rel tbl)\<^sup>* `` {r} = {r}"
    by (auto simp: inherits_rel_def elim: converse_rtranclE)
  then show ?thesis by (simp add: role_closure_def)
qed

lemma role_closure_Some:
  assumes "rp_inherits_from (tbl r) = Some p"
  shows "role_closure tbl r = rp_permissions (tbl r) \<union> role_closure tbl p"
proof -
  have "(inherits_rel tbl)\<^sup>* `` {r} = insert r ((inherits_rel tbl)\<^sup>* `` {p})"
    using assms
    by (auto simp: inherits_rel_def elim: converse_rtranclE intro: converse_rtrancl_into_rtrancl)
  then show ?thesis by (auto simp: role_closure_def)
qed

lemma collect_permissions_eq:
  assumes "ranked tbl rk"
  shows "collect_permissions tbl r agg = Some (agg \<union> role_closure tbl r)"
proof (induction "rk r" arbitrary: r agg rule: less_induct)
  case less
  show ?case
  proof (cases "rp_inherits_from (tbl r)")
    case None
    then show ?thesis by (simp add: collect_permissions.simps [of tbl r] role_closure_None)
  next
    case (Some p)
    with less [OF rankedD [OF assms Some]] show ?thesis
      by (simp add: collect_permissions.simps [of tbl r] role_closure_Some Un_ac)
  qed
qed

definition roles_closure :: "role_table \<Rightarrow> string list \<Rightarrow> string set" where
  "roles_closure tbl ns = (\<Union>n \<in> set ns. case role_of (lower n) of None \<Rightarrow> {} | Some r \<Rightarrow> role_closure tbl r)"

lemma collect_roles_eq:
  assumes "ranked tbl rk"
  shows "collect_roles tbl ns agg = Some (agg \<union> roles_closure tbl ns)"
  by (induction ns arbitrary: agg)
    (auto simp: roles_closure_def collect_permissions_eq [OF assms] split: option.splits)

lemma get_user_permissions_eq:
  assumes "ranked tbl rk"
  shows "get_user_permissions tbl u =
    Some (roles_closure tbl (ud_roles u) \<union> resolve_permission_names (ud_permissions u))"
  by (simp add: get_user_permissions_def collect_roles_eq [OF assms])

lemma resolve_known: "resolve_permission_names vs \<subseteq> set permission_values"
proof (induction vs)
  case Nil
  then show ?case by simp
next
  case (Cons v vs)
  have "dget permission_aliases v = Some a \<Longrightarrow> a \<in> set permission_values" for a
    by (auto simp: permission_aliases_def permission_values_def dget_Cons split: if_splits)
  with Cons show ?case by (auto split: option.splits)
qed

lemma build_known: "rp_permissions (build_role_permissions cfg r) \<subseteq> set permission_values"
  using resolve_known
  by (auto simp: build_role_permissions_def entry_permissions_def Let_def split: if_splits)

lemma roles_closure_mono: "set ns \<subseteq> set ns' \<Longrightarrow> roles_closure tbl ns \<subseteq> roles_closure tbl ns'"
  by (auto simp: roles_closure_def)

lemma resolve_mono: "set vs \<subseteq> set ws \<Longrightarrow> resolve_permission_names vs \<subseteq> resolve_permission_names ws"
proof -
  have "resolve_permission_names vs =
    (\<Union>v \<in> set vs. if v \<in> set permission_values then {v}
       else (case dget permission_aliases v of Some a \<Rightarrow> {a} | None \<Rightarrow> {}))" for vs
    by (induction vs) (auto split: option.splits)
  then show "set vs \<subseteq> set ws \<Longrightarrow> ?thesis" by auto
qed

fun default_rank :: "role \<Rightarrow> nat" where
  "default_rank READONLY = 0"
| "default_rank SUPER_ADMIN = 0"
| "default_rank ADMIN = 0"
| "default_rank USER = 1"
| "default_rank ROUTING_ADMIN = 3"
| "default_rank _ = 2"

definition empty_config :: rbac_config where
  "empty_config = \<lparr>cfg_roles = None, cfg_legacy = None\<rparr>"

lemma role_of_names [simp]:
  "role_of ''user'' = Some USER" "role_of ''readonly'' = Some READONLY"
  "role_of ''routing_operator'' = Some ROUTING_OPERATOR"
  using role_of_value [of USER] role_of_value [of READONLY] role_of_value [of ROUTING_OPERATOR]
  by simp_all

lemma default_inherits:
  "rp_inherits_from (build_role_permissions empty_config r) =
     entry_inherits None (default_role_entry r)"
  by (simp add: build_role_permissions_def empty_config_def normalize_role_config_def Let_def)

lemma default_ranked: "ranked (build_role_permissions empty_config) default_rank"
  unfolding ranked_def default_inherits
  by (simp add: roles_in_order_def entry_inherits_def)

lemma default_table_permissions:
  "rp_permissions (build_role_permissions empty_config r) =
     entry_permissions None (default_role_entry r)"
  by (simp add: build_role_permissions_def empty_config_def normalize_role_config_def Let_def)

lemma resolve_iff:
  "t \<in> resolve_permission_names vs \<longleftrightarrow>
     (\<exists>v \<in> set vs. if v \<in> set permission_values then v = t else dget permission_aliases v = Some t)"
  by (induction vs) (auto split: option.splits)

lemma resolve_evil:
  "''security:evil_mode'' \<in> resolve_permission_names vs \<longleftrightarrow> ''security:evil_mode'' \<in> set vs"
proof -
  have "dget permission_aliases v \<noteq> Some ''security:evil_mode''" for v
    by (simp add: permission_aliases_def dget_Cons)
  moreover have "''security:evil_mode'' \<in> set permission_values"
    by (simp add: permission_values_def)
  ultimately show ?thesis unfolding resolve_iff by auto
qed

lemma entry_evil:
  assumes "re_permissions dflt = Some ps" and "ps \<noteq> [''*'']" and "ps \<noteq> [''all'']"
  shows "''security:evil_mode'' \<in> entry_permissions None dflt \<longleftrightarrow> ''security:evil_mode'' \<in> set ps"
  using assms by (simp add: entry_permissions_def Let_def resolve_evil del: resolve_permission_names.simps)

lemma default_own_evil:
  "''security:evil_mode'' \<in> rp_permissions (build_role_permissions empty_config r) \<longleftrightarrow> r = SUPER_ADMIN"
proof -
  have evil: "''security:evil_mode'' \<in> set permission_values"
    by (simp add: permission_values_def)
  have "''security:evil_mode'' \<notin> entry_permissions None (default_role_entry r)"
    if "r \<noteq> SUPER_ADMIN" "r \<noteq> ADMIN"
    using that
    by (cases r) (simp_all add: entry_evil)
  moreover have "''security:evil_mode'' \<notin> entry_permissions None (default_role_entry ADMIN)"
  proof -
    let ?ps = "permissions_except [''security:evil_mode'']"
    have "''read'' \<in> set ?ps"
      by (simp add: permissions_except_def permission_values_def)
    then have "?ps \<noteq> [''*'']" and "?ps \<noteq> [''all'']"
      by fastforce+
    moreover have "''security:evil_mode'' \<notin> set ?ps"
      by (simp add: permissions_except_def)
    ultimately show ?thesis
      by (simp add: entry_evil)
  qed
  ultimately show ?thesis
    using evil by (cases "r = SUPER_ADMIN"; cases "r = ADMIN")
      (auto simp: default_table_permissions, simp add: entry_permissions_def Let_def)
qed

lemma default_closure_evil:
  "''security:evil_mode'' \<in> role_closure (build_role_permissions empty_config) r \<longleftrightarrow> r = SUPER_ADMIN"
proof (induction "default_rank r" arbitrary: r rule: less_induct)
  case less
  let ?t = "build_role_permissions empty_config"
  show ?case
  proof (cases "rp_inherits_from (?t r)")
    case None
    then show ?thesis by (simp add: role_closure_None default_own_evil)
  next
    case (Some p)
    have "p \<noteq> SUPER_ADMIN"
      using Some by (cases r) (auto simp: default_inherits entry_inherits_def)
    moreover have "r \<noteq> SUPER_ADMIN"
      using Some by (auto simp: default_inherits entry_inherits_def)
    ultimately show ?thesis
      using less [OF rankedD [OF default_ranked Some]] Some
      by (simp add: role_closure_Some default_own_evil)
  qed
qed

section \<open>Properties\<close>

text \<open>
  C11: on a role table whose inheritance is ranked (no cycle), every permission check
  returns, and it grants exactly the permissions of the roles the user holds, of every role
  those inherit from, and of the user's own verified claims.
\<close>

theorem permission_check_complete:
  assumes "ranked tbl rk" and "t \<in> set permission_values"
  shows "has_permission tbl u t = Some
    (t \<in> resolve_permission_names (ud_permissions u) \<or>
     (\<exists>n r r'. n \<in> set (ud_roles u) \<and> role_of (lower n) = Some r \<and>
        (r, r') \<in> (inherits_rel tbl)\<^sup>* \<and> t \<in> rp_permissions (tbl r')))"
proof -
  have "t \<in> roles_closure tbl ns \<longleftrightarrow>
    (\<exists>n r r'. n \<in> set ns \<and> role_of (lower n) = Some r \<and>
        (r, r') \<in> (inherits_rel tbl)\<^sup>* \<and> t \<in> rp_permissions (tbl r'))" for ns
    by (fastforce simp: roles_closure_def role_closure_def split: option.splits)
  with assms(2) show ?thesis
    by (auto simp: has_permission_def get_user_permissions_eq [OF assms(1)])
qed

theorem permission_check_complete_witness:
  "has_permission (build_role_permissions empty_config)
     \<lparr>ud_roles = [''Nobody''], ud_permissions = [''chat:use'']\<rparr> ''browser'' = Some True"
proof -
  have b: "''browser'' \<in> set permission_values" by (simp add: permission_values_def)
  have "''browser'' \<in> resolve_permission_names [''chat:use'']"
    unfolding resolve_iff by (simp add: permission_values_def permission_aliases_def dget_Cons)
  then show ?thesis
    using permission_check_complete [OF default_ranked b,
        of "\<lparr>ud_roles = [''Nobody''], ud_permissions = [''chat:use'']\<rparr>"]
    by simp
qed

text \<open>
  with the built-in table the evil-mode permission is held exactly by users with the
  super_admin role (in any letter case) and by users whose verified claims name it: no other
  built-in role reaches it, through any inheritance, and no alias resolves to it.
\<close>

theorem evil_mode_only_super_admin:
  "has_permission (build_role_permissions empty_config) u ''security:evil_mode'' =
     Some (''super_admin'' \<in> set (map lower (ud_roles u)) \<or>
           ''security:evil_mode'' \<in> set (ud_permissions u))"
proof -
  let ?t = "build_role_permissions empty_config"
  have known: "''security:evil_mode'' \<in> set permission_values"
    by (simp add: permission_values_def)
  have role: "role_of s = Some SUPER_ADMIN \<longleftrightarrow> s = ''super_admin''" for s
    using role_of_value [of SUPER_ADMIN] role_of_SomeD [of s SUPER_ADMIN] by auto
  have "''security:evil_mode'' \<in> (case role_of s of None \<Rightarrow> {} | Some r \<Rightarrow> role_closure ?t r)
      \<longleftrightarrow> s = ''super_admin''" for s
    by (simp add: default_closure_evil role [symmetric] split: option.split)
  then have "''security:evil_mode'' \<in> roles_closure ?t ns \<longleftrightarrow> ''super_admin'' \<in> set (map lower ns)" for ns
    unfolding roles_closure_def by force
  then show ?thesis
    using known by (simp add: has_permission_def get_user_permissions_eq [OF default_ranked] resolve_evil)
qed

end
