(* ===== verification/OwnedTimers.thy ===== *)
theory OwnedTimers
  imports AutomationTasks Rbac "HOL-Library.Product_Lexorder"
begin

text \<open>
  Owned countdown timers: the timer methods of \<^verbatim>\<open>SqlAutomationRepository\<close>
  (\<^verbatim>\<open>persistence/repositories/automation_repository.py\<close>) and the service that guards them
  (\<^verbatim>\<open>services/automation/timers.py\<close>) with the permission checks of \<open>Rbac\<close>. The audit event of a check is left
  out. \<open>fresh\<close> is a new timer id, \<open>now\<close> the time of the transaction in microseconds; the constraints of the
  table are those of its migration.
\<close>

section \<open>Table\<close>

record timer_row =
  tm_id :: string
  tm_tenant :: string
  tm_owner :: string
  tm_key :: string
  tm_duration :: int
  tm_title :: string
  tm_status :: string
  tm_started :: int
  tm_deadline :: int
  tm_cancelled :: "int option"
  tm_correlation :: string
  tm_updated :: int

record timer_view =
  tv_id :: string
  tv_duration :: int
  tv_title :: string
  tv_status :: string
  tv_started :: int
  tv_deadline :: int
  tv_cancelled :: "int option"
  tv_observed :: int
  tv_durable :: bool
  tv_reminder :: bool
  tv_delivered :: bool

definition timer_snapshot :: "int \<Rightarrow> timer_row \<Rightarrow> timer_view" where
  "timer_snapshot now r = \<lparr>tv_id = tm_id r, tv_duration = tm_duration r, tv_title = tm_title r,
     tv_status = (if tm_status r = ''active'' \<and> tm_deadline r \<le> now then ''expired'' else tm_status r),
     tv_started = tm_started r, tv_deadline = tm_deadline r, tv_cancelled = tm_cancelled r, tv_observed = now,
     tv_durable = True, tv_reminder = False, tv_delivered = False\<rparr>"

section \<open>Repository\<close>

definition timer_scope :: "string \<Rightarrow> string \<Rightarrow> timer_row \<Rightarrow> bool" where
  "timer_scope t u r \<longleftrightarrow> tm_tenant r = t \<and> tm_owner r = u"

text \<open>The transaction of a tenant and an owner.\<close>

definition for_owner ::
    "auto_env \<Rightarrow> bool \<Rightarrow> string \<Rightarrow> string \<Rightarrow> 's \<Rightarrow> (string \<Rightarrow> string \<Rightarrow> (task_error + 'a) \<times> 's) \<Rightarrow> (task_error + 'a) \<times> 's" where
  "for_owner env db tenant owner s f =
     for_tenant env db tenant s (\<lambda>t. case ae_cast env owner of None \<Rightarrow> (Inl TaskDriver, s) | Some u \<Rightarrow> f t u)"

definition timer_complaint :: "int \<Rightarrow> string \<Rightarrow> string \<Rightarrow> string option" where
  "timer_complaint duration title correlation =
     (if \<not> (1 \<le> duration \<and> duration \<le> 86400) then Some ''Timer duration must be between 1 and 86400 seconds''
      else if strip title = [] \<or> length title > 240 then Some ''Invalid timer title''
      else if strip correlation = [] \<or> length correlation > 128 then Some ''Invalid correlation ID''
      else None)"

definition new_timer :: "int \<Rightarrow> string \<Rightarrow> string \<Rightarrow> string \<Rightarrow> string \<Rightarrow> int \<Rightarrow> string \<Rightarrow> string \<Rightarrow> timer_row" where
  "new_timer now fresh t u key duration title correlation = \<lparr>tm_id = fresh, tm_tenant = t, tm_owner = u, tm_key = key,
     tm_duration = duration, tm_title = strip title, tm_status = ''active'', tm_started = now,
     tm_deadline = now + micros_of duration, tm_cancelled = None, tm_correlation = correlation, tm_updated = now\<rparr>"

definition create_owned_timer ::
    "auto_env \<Rightarrow> bool \<Rightarrow> int \<Rightarrow> string \<Rightarrow> string \<Rightarrow> string \<Rightarrow> int \<Rightarrow> string \<Rightarrow> string \<Rightarrow> string \<Rightarrow> timer_row list \<Rightarrow>
     (task_error + timer_view) \<times> timer_row list" where
  "create_owned_timer env db now fresh tenant owner duration title key correlation s =
     (case timer_complaint duration title correlation of
        Some e \<Rightarrow> (Inl (TaskValue e), s)
      | None \<Rightarrow> for_owner env db tenant owner s (\<lambda>t u.
          case find (\<lambda>r. timer_scope t u r \<and> tm_key r = key) s of
            None \<Rightarrow>
              if fresh \<in> tm_id ` set s then (Inl TaskDriver, s)
              else let r = new_timer now fresh t u key duration title correlation in (Inr (timer_snapshot now r), s @ [r])
          | Some r \<Rightarrow>
              if tm_duration r \<noteq> duration \<or> tm_title r \<noteq> strip title
              then (Inl (TaskValue ''Timer idempotency key conflicts with a different request''), s)
              else (Inr (timer_snapshot now r), s)))"

definition get_owned_timer ::
    "auto_env \<Rightarrow> bool \<Rightarrow> int \<Rightarrow> string \<Rightarrow> string \<Rightarrow> string \<Rightarrow> timer_row list \<Rightarrow> task_error + timer_view option" where
  "get_owned_timer env db now tenant owner x s =
     fst (for_owner env db tenant owner s (\<lambda>t u.
       (Inr (map_option (timer_snapshot now) (find (\<lambda>r. tm_id r = x \<and> timer_scope t u r) s)), s)))"

definition list_owned_timers ::
    "auto_env \<Rightarrow> bool \<Rightarrow> int \<Rightarrow> string \<Rightarrow> string \<Rightarrow> int \<Rightarrow> timer_row list \<Rightarrow> task_error + timer_view list" where
  "list_owned_timers env db now tenant owner limit s =
     (if \<not> (1 \<le> limit \<and> limit \<le> 100) then Inl (TaskValue ''Invalid timer list limit'')
      else fst (for_owner env db tenant owner s (\<lambda>t u.
        (Inr (map (timer_snapshot now)
           (take (nat limit) (sort_by_desc (\<lambda>r. (tm_started r, tm_id r)) (filter (timer_scope t u) s)))), s))))"

definition cancel_timer :: "int \<Rightarrow> timer_row \<Rightarrow> timer_row" where
  "cancel_timer now r = r\<lparr>tm_status := ''cancelled'', tm_cancelled := Some now, tm_updated := now\<rparr>"

definition cancellable :: "int \<Rightarrow> string \<Rightarrow> string \<Rightarrow> string \<Rightarrow> timer_row \<Rightarrow> bool" where
  "cancellable now x t u r \<longleftrightarrow> tm_id r = x \<and> timer_scope t u r \<and> tm_status r = ''active'' \<and> now < tm_deadline r"

definition cancel_owned_timer ::
    "auto_env \<Rightarrow> bool \<Rightarrow> int \<Rightarrow> string \<Rightarrow> string \<Rightarrow> string \<Rightarrow> timer_row list \<Rightarrow> (task_error + timer_view option) \<times> timer_row list" where
  "cancel_owned_timer env db now tenant owner x s =
     for_owner env db tenant owner s (\<lambda>t u.
       let s1 = update_where (cancellable now x t u) (cancel_timer now) s
       in (Inr (map_option (timer_snapshot now) (find (\<lambda>r. tm_id r = x \<and> timer_scope t u r) s1)), s1))"

section \<open>Service\<close>

text \<open>The principal: \<^verbatim>\<open>str\<close> of its tenant and user ids, and what the permission check reads of it.\<close>

record timer_user =
  tu_active :: bool
  tu_tenant :: string
  tu_user :: string
  tu_data :: user_data

datatype timer_error = TimerDenied string | TimerMissing | TimerRecursion | TimerRepo task_error

definition timer_principal :: "role_table \<Rightarrow> timer_user option \<Rightarrow> string \<Rightarrow> timer_error + string \<times> string" where
  "timer_principal tbl user permission =
     (case user of
        None \<Rightarrow> Inl (TimerDenied ''Active authenticated principal required'')
      | Some p \<Rightarrow>
          if \<not> tu_active p then Inl (TimerDenied ''Active authenticated principal required'')
          else (case (py_uuid (tu_tenant p), py_uuid (tu_user p)) of
              (Some t, Some u) \<Rightarrow>
                (case has_permission tbl (tu_data p) permission of
                   None \<Rightarrow> Inl TimerRecursion
                 | Some False \<Rightarrow> Inl (TimerDenied ''Timer permission denied'')
                 | Some True \<Rightarrow> Inr (t, u))
            | _ \<Rightarrow> Inl (TimerDenied ''Verified tenant and principal required'')))"

definition as_principal ::
    "role_table \<Rightarrow> timer_user option \<Rightarrow> string \<Rightarrow> 's \<Rightarrow> (string \<Rightarrow> string \<Rightarrow> (timer_error + 'a) \<times> 's) \<Rightarrow> (timer_error + 'a) \<times> 's" where
  "as_principal tbl user permission s f =
     (case timer_principal tbl user permission of Inl e \<Rightarrow> (Inl e, s) | Inr (t, u) \<Rightarrow> f t u)"

definition found :: "task_error + 'a option \<Rightarrow> timer_error + 'a" where
  "found r = (case r of Inl e \<Rightarrow> Inl (TimerRepo e) | Inr None \<Rightarrow> Inl TimerMissing | Inr (Some v) \<Rightarrow> Inr v)"

definition timer_create ::
    "role_table \<Rightarrow> auto_env \<Rightarrow> bool \<Rightarrow> int \<Rightarrow> string \<Rightarrow> timer_user option \<Rightarrow> int \<Rightarrow> string \<Rightarrow> string \<Rightarrow> string \<Rightarrow> timer_row list \<Rightarrow>
     (timer_error + timer_view) \<times> timer_row list" where
  "timer_create tbl env db now fresh user duration title key correlation s =
     as_principal tbl user ''timer:write'' s (\<lambda>t u.
       map_prod (map_sum TimerRepo id) id (create_owned_timer env db now fresh t u duration title key correlation s))"

definition timer_get :: "role_table \<Rightarrow> auto_env \<Rightarrow> bool \<Rightarrow> int \<Rightarrow> timer_user option \<Rightarrow> string \<Rightarrow> timer_row list \<Rightarrow> timer_error + timer_view" where
  "timer_get tbl env db now user x s =
     fst (as_principal tbl user ''timer:read'' s (\<lambda>t u. (found (get_owned_timer env db now t u x s), s)))"

definition timer_list ::
    "role_table \<Rightarrow> auto_env \<Rightarrow> bool \<Rightarrow> int \<Rightarrow> timer_user option \<Rightarrow> int \<Rightarrow> timer_row list \<Rightarrow> timer_error + timer_view list" where
  "timer_list tbl env db now user limit s =
     fst (as_principal tbl user ''timer:read'' s (\<lambda>t u. (map_sum TimerRepo id (list_owned_timers env db now t u limit s), s)))"

definition timer_cancel ::
    "role_table \<Rightarrow> auto_env \<Rightarrow> bool \<Rightarrow> int \<Rightarrow> timer_user option \<Rightarrow> string \<Rightarrow> timer_row list \<Rightarrow> (timer_error + timer_view) \<times> timer_row list" where
  "timer_cancel tbl env db now user x s =
     as_principal tbl user ''timer:write'' s (\<lambda>t u. map_prod found id (cancel_owned_timer env db now t u x s))"

datatype timer_op =
    TmCreate bool int string "timer_user option" int string string string
  | TmCancel bool int "timer_user option" string

fun timer_step :: "role_table \<times> auto_env \<Rightarrow> timer_op \<Rightarrow> timer_row list \<Rightarrow> timer_row list" where
  "timer_step c (TmCreate db now fresh user duration title key correlation) s =
     snd (timer_create (fst c) (snd c) db now fresh user duration title key correlation s)"
| "timer_step c (TmCancel db now user x) s = snd (timer_cancel (fst c) (snd c) db now user x s)"

fun timer_run :: "role_table \<times> auto_env \<Rightarrow> timer_op list \<Rightarrow> timer_row list \<Rightarrow> timer_row list" where
  "timer_run c [] s = s"
| "timer_run c (op # ops) s = timer_run c ops (timer_step c op s)"

section \<open>Laws\<close>

text \<open>What never changes about a timer, and the constraints of the table.\<close>

definition same_timer :: "timer_row \<Rightarrow> timer_row \<Rightarrow> bool" where
  "same_timer r q \<longleftrightarrow> tm_id q = tm_id r \<and> tm_tenant q = tm_tenant r \<and> tm_owner q = tm_owner r \<and> tm_key q = tm_key r
     \<and> tm_duration q = tm_duration r \<and> tm_title q = tm_title r \<and> tm_started q = tm_started r \<and> tm_deadline q = tm_deadline r"

definition timer_row_ok :: "timer_row \<Rightarrow> bool" where
  "timer_row_ok r \<longleftrightarrow> 1 \<le> tm_duration r \<and> tm_duration r \<le> 86400 \<and> tm_deadline r = tm_started r + micros_of (tm_duration r)
     \<and> (tm_status r = ''active'' \<and> tm_cancelled r = None
        \<or> tm_status r = ''cancelled'' \<and> (\<exists>c. tm_cancelled r = Some c \<and> c < tm_deadline r))"

definition timers_ok :: "timer_row list \<Rightarrow> bool" where
  "timers_ok s \<longleftrightarrow> table_ok tm_id timer_row_ok s \<and> distinct (map (\<lambda>r. (tm_tenant r, tm_owner r, tm_key r)) s)"

definition own_timers :: "string \<times> string \<Rightarrow> timer_row list \<Rightarrow> timer_row list" where
  "own_timers k s = filter (timer_scope (fst k) (snd k)) s"

definition timer_op_user :: "timer_op \<Rightarrow> timer_user option" where
  "timer_op_user op = (case op of TmCreate db now fresh user duration title key correlation \<Rightarrow> user | TmCancel db now user x \<Rightarrow> user)"

text \<open>
  Who may change the timers of an owner: an authenticated, active principal with the identity of the owner and
  the permission to write timers; the database reads canonical ids as they are.
\<close>

definition timer_entitled :: "role_table \<times> auto_env \<Rightarrow> string \<times> string \<Rightarrow> timer_op \<Rightarrow> bool" where
  "timer_entitled c k op \<longleftrightarrow> (\<exists>p t u. timer_op_user op = Some p \<and> tu_active p
     \<and> py_uuid (tu_tenant p) = Some t \<and> py_uuid (tu_user p) = Some u
     \<and> has_permission (fst c) (tu_data p) ''timer:write'' = Some True
     \<and> ae_cast (snd c) t = Some (fst k) \<and> ae_cast (snd c) u = Some (snd k))"

lemma timer_principal_Inr:
  "timer_principal tbl user permission = Inr (t, u) \<longleftrightarrow> (\<exists>p. user = Some p \<and> tu_active p \<and> py_uuid (tu_tenant p) = Some t
     \<and> py_uuid (tu_user p) = Some u \<and> has_permission tbl (tu_data p) permission = Some True)"
  by (auto simp: timer_principal_def split: option.splits bool.splits)

text \<open>The three things an operation can do to the table.\<close>

lemma timer_step_cases [consumes 0, case_names same insert cancel]:
  obtains (same) "timer_step c op s = s"
  | (insert) now fresh t u key duration title correlation where
      "timer_step c op s = s @ [new_timer now fresh t u key duration title correlation]" "fresh \<notin> tm_id ` set s"
      "\<forall>r \<in> set s. timer_scope t u r \<longrightarrow> tm_key r \<noteq> key" "timer_complaint duration title correlation = None"
      "timer_entitled c (t, u) op"
  | (cancel) now x t u where
      "timer_step c op s = update_where (cancellable now x t u) (cancel_timer now) s" "timer_entitled c (t, u) op"
proof (cases "timer_principal (fst c) (timer_op_user op) ''timer:write''")
  case (Inl e)
  then have "timer_step c op s = s"
    by (cases op) (simp_all add: timer_create_def timer_cancel_def as_principal_def timer_op_user_def)
  then show ?thesis by (rule same)
next
  case (Inr p)
  obtain t0 u0 where p: "p = (t0, u0)" by (cases p)
  show ?thesis
  proof (cases "ae_cast (snd c) t0 = None \<or> ae_cast (snd c) u0 = None")
    case True
    with Inr p have "timer_step c op s = s"
      by (cases op) (auto simp: timer_create_def timer_cancel_def as_principal_def timer_op_user_def create_owned_timer_def
          cancel_owned_timer_def for_owner_def for_tenant_def split: option.splits)
    then show ?thesis by (rule same)
  next
    case False
    then obtain t u where tu: "ae_cast (snd c) t0 = Some t" "ae_cast (snd c) u0 = Some u" by auto
    have ent: "timer_entitled c (t, u) op"
      using Inr [unfolded p timer_principal_Inr] tu by (auto simp: timer_entitled_def)
    show ?thesis
    proof (cases op)
      case (TmCreate db now fresh user duration title key correlation)
      let ?r = "new_timer now fresh t u key duration title correlation"
      let ?new = "db \<and> timer_complaint duration title correlation = None \<and> find (\<lambda>r. timer_scope t u r \<and> tm_key r = key) s = None
          \<and> fresh \<notin> tm_id ` set s"
      have e: "timer_step c op s = (if ?new then s @ [?r] else s)"
        using Inr p tu by (auto simp: TmCreate timer_create_def as_principal_def timer_op_user_def create_owned_timer_def
            for_owner_def for_tenant_def Let_def split: option.splits)
      show ?thesis
      proof (cases ?new)
        case True
        then have "\<forall>r \<in> set s. timer_scope t u r \<longrightarrow> tm_key r \<noteq> key" by (auto simp: find_None_iff)
        with True e ent show ?thesis by (intro insert [of now fresh t u key duration title correlation]) simp_all
      qed (use e same in simp)
    next
      case (TmCancel db now user x)
      have "timer_step c op s = (if db then update_where (cancellable now x t u) (cancel_timer now) s else s)"
        using Inr p tu by (simp add: TmCancel timer_cancel_def as_principal_def timer_op_user_def cancel_owned_timer_def
            for_owner_def for_tenant_def Let_def)
      with ent same cancel show ?thesis by (cases db) simp_all
    qed
  qed
qed

lemma cancel_keeps [simp]: "tm_id (cancel_timer now r) = tm_id r" "tm_tenant (cancel_timer now r) = tm_tenant r"
    "tm_owner (cancel_timer now r) = tm_owner r" "tm_key (cancel_timer now r) = tm_key r"
    "timer_scope t u (cancel_timer now r) = timer_scope t u r" "same_timer r (cancel_timer now r)"
  by (simp_all add: cancel_timer_def timer_scope_def same_timer_def)

lemma same_timer_refl [simp]: "same_timer r r"
  by (simp add: same_timer_def)

lemma same_timer_trans: "same_timer p q \<Longrightarrow> same_timer q r \<Longrightarrow> same_timer p r"
  by (simp add: same_timer_def)

lemma insert_timer_ok:
  assumes "timers_ok s" "fresh \<notin> tm_id ` set s" "\<forall>r \<in> set s. timer_scope t u r \<longrightarrow> tm_key r \<noteq> key"
    and "timer_complaint duration title correlation = None"
  shows "timers_ok (s @ [new_timer now fresh t u key duration title correlation])"
proof -
  let ?r = "new_timer now fresh t u key duration title correlation"
  have "timer_row_ok ?r" using assms(4)
    by (auto simp: timer_row_ok_def new_timer_def timer_complaint_def split: if_splits)
  moreover have "tm_id ?r \<notin> tm_id ` set s" using assms(2) by (simp add: new_timer_def)
  moreover have "(tm_tenant ?r, tm_owner ?r, tm_key ?r) \<notin> (\<lambda>r. (tm_tenant r, tm_owner r, tm_key r)) ` set s"
    using assms(3) by (auto simp: new_timer_def timer_scope_def)
  ultimately show ?thesis using assms(1) by (simp add: timers_ok_def table_insert)
qed

lemma timers_ok_step: "timers_ok s \<Longrightarrow> timers_ok (timer_step c op s)"
proof (cases rule: timer_step_cases [of c op s])
  case (insert now fresh t u key duration title correlation)
  assume "timers_ok s"
  with insert show ?thesis by (simp add: insert_timer_ok)
next
  case (cancel now x t u)
  assume ok: "timers_ok s"
  have "timer_row_ok r \<Longrightarrow> cancellable now x t u r \<Longrightarrow> timer_row_ok (cancel_timer now r)" for r
    by (auto simp: timer_row_ok_def cancellable_def cancel_timer_def)
  moreover have "map (\<lambda>r. (tm_tenant r, tm_owner r, tm_key r)) (update_where P (cancel_timer now) s) = map (\<lambda>r. (tm_tenant r, tm_owner r, tm_key r)) s" for P
    by (simp add: update_where_def)
  ultimately show ?thesis using ok cancel(1) by (simp add: timers_ok_def table_update)
qed simp

lemma timer_fence: "\<not> timer_entitled c k op \<Longrightarrow> own_timers k (timer_step c op s) = own_timers k s"
proof (cases rule: timer_step_cases [of c op s])
  case (insert now fresh t u key duration title correlation)
  assume "\<not> timer_entitled c k op"
  with insert(5) have "(t, u) \<noteq> k" by auto
  then show ?thesis using insert(1) by (cases k) (auto simp: own_timers_def timer_scope_def new_timer_def)
next
  case (cancel now x t u)
  assume "\<not> timer_entitled c k op"
  with cancel(2) have ne: "(t, u) \<noteq> k" by auto
  have "filter (timer_scope (fst k) (snd k)) (update_where P (cancel_timer now) s) = filter (timer_scope (fst k) (snd k)) s"
    if "\<And>r. P r \<Longrightarrow> \<not> timer_scope (fst k) (snd k) r" for P using that by (induction s) (auto simp: update_where_def)
  moreover have "\<not> timer_scope (fst k) (snd k) r" if "cancellable now x t u r" for r
    using that ne by (cases k) (auto simp: cancellable_def timer_scope_def)
  ultimately show ?thesis using cancel(1) by (simp add: own_timers_def)
qed simp

interpretation owned_timers: fenced_machine "timer_step c" timers_ok own_timers "\<lambda>_ _. True" "\<lambda>k _. timer_entitled c k" for c
  by unfold_locales (simp_all add: timers_ok_step timer_fence)

lemma timer_run_eq: "timer_run c ops s = owned_timers.run c ops s"
  by (induction ops arbitrary: s) simp_all

lemma timers_reachable_ok: "timers_ok (timer_run c ops [])"
  unfolding timer_run_eq by (rule owned_timers.inv_run) (simp add: timers_ok_def)

lemma timer_step_persists: "r \<in> set s \<Longrightarrow> \<exists>q \<in> set (timer_step c op s). same_timer r q"
proof (cases rule: timer_step_cases [of c op s])
  case (cancel now x t u)
  assume r: "r \<in> set s"
  let ?q = "if cancellable now x t u r then cancel_timer now r else r"
  have "?q \<in> set (timer_step c op s)" using r cancel(1) by (auto simp: update_where_def)
  moreover have "same_timer r ?q" by simp
  ultimately show ?thesis by blast
qed (auto intro: same_timer_refl)

lemma timer_persists: "r \<in> set s \<Longrightarrow> \<exists>q \<in> set (timer_run c ops s). same_timer r q"
proof (induction ops arbitrary: s r)
  case (Cons op ops)
  from timer_step_persists [OF Cons.prems] obtain q where q: "q \<in> set (timer_step c op s)" "same_timer r q" by blast
  from Cons.IH [OF q(1)] q(2) show ?case using same_timer_trans by auto
qed (auto intro: same_timer_refl)

lemma find_key:
  assumes "timers_ok s" "r \<in> set s" "timer_scope t u r" "tm_key r = key"
  shows "find (\<lambda>r. timer_scope t u r \<and> tm_key r = key) s = Some r"
proof -
  have inj: "inj_on (\<lambda>r. (tm_tenant r, tm_owner r, tm_key r)) (set s)" using assms(1) by (simp add: timers_ok_def distinct_map)
  obtain q where q: "find (\<lambda>r. timer_scope t u r \<and> tm_key r = key) s = Some q"
    using assms(2-4) by (cases "find (\<lambda>r. timer_scope t u r \<and> tm_key r = key) s") (auto simp: find_None_iff)
  then have "q \<in> set s" "timer_scope t u q \<and> tm_key q = key" by (auto simp: find_Some_iff)
  then have "q = r" using inj_onD [OF inj, of q r] assms(2-4) by (simp add: timer_scope_def)
  with q show ?thesis by simp
qed

text \<open>The row behind the answer of a creation.\<close>

lemma create_answer:
  assumes "create_owned_timer env db now fresh tenant owner duration title key correlation s = (Inr v, s1)" "timers_ok s"
  obtains t u r where "ae_cast env tenant = Some t" "ae_cast env owner = Some u" "timers_ok s1" "r \<in> set s1" "timer_scope t u r"
    "tm_key r = key" "tm_duration r = duration" "tm_title r = strip title" "v = timer_snapshot now r"
proof -
  have c: "timer_complaint duration title correlation = None"
    using assms(1) by (auto simp: create_owned_timer_def split: option.splits)
  with assms(1) obtain t u where tu: "ae_cast env tenant = Some t" "ae_cast env owner = Some u"
    by (auto simp: create_owned_timer_def for_owner_def for_tenant_def split: option.splits if_splits)
  show ?thesis
  proof (cases "find (\<lambda>r. timer_scope t u r \<and> tm_key r = key) s")
    case None
    let ?r = "new_timer now fresh t u key duration title correlation"
    have n: "\<forall>r \<in> set s. timer_scope t u r \<longrightarrow> tm_key r \<noteq> key" using None by (auto simp: find_None_iff)
    have e: "fresh \<notin> tm_id ` set s" "s1 = s @ [?r]" "v = timer_snapshot now ?r"
      using assms(1) c tu None by (auto simp: create_owned_timer_def for_owner_def for_tenant_def Let_def split: if_splits)
    show ?thesis by (rule that [OF tu, of ?r]) (use e insert_timer_ok [OF assms(2) e(1) n c] in \<open>simp_all add: new_timer_def timer_scope_def\<close>)
  next
    case (Some r)
    then have r: "r \<in> set s" "timer_scope t u r \<and> tm_key r = key" by (auto simp: find_Some_iff)
    show ?thesis
      by (rule that [OF tu, of r]) (use assms c tu Some r in \<open>auto simp: create_owned_timer_def for_owner_def for_tenant_def split: if_splits\<close>)
  qed
qed

definition same_view :: "timer_view \<Rightarrow> timer_view \<Rightarrow> bool" where
  "same_view v w \<longleftrightarrow> tv_id w = tv_id v \<and> tv_duration w = tv_duration v \<and> tv_title w = tv_title v \<and> tv_started w = tv_started v
     \<and> tv_deadline w = tv_deadline v"

section \<open>Properties\<close>

text \<open>
  C32: Creating a timer is idempotent: after a creation was answered, whatever operations follow, a later request
  with the same key answers the same timer with the same deadline if it asks for the same timer, and
  is refused as a conflict otherwise; it never changes the table.
\<close>

theorem timer_requests_idempotent:
  assumes "create_owned_timer env db now fresh tenant owner duration title key correlation (timer_run c ops []) = (Inr v, s1)"
    and "timer_complaint duration' title' correlation' = None"
  shows "\<exists>w. same_view v w \<and> create_owned_timer env True now' fresh' tenant owner duration' title' key correlation' (timer_run c later s1) =
     (if duration' = duration \<and> strip title' = strip title then Inr w
      else Inl (TaskValue ''Timer idempotency key conflicts with a different request''), timer_run c later s1)"
proof -
  from create_answer [OF assms(1) timers_reachable_ok] obtain t u r where tu: "ae_cast env tenant = Some t" "ae_cast env owner = Some u"
    and r: "timers_ok s1" "r \<in> set s1" "timer_scope t u r" "tm_key r = key" "tm_duration r = duration" "tm_title r = strip title"
    and v: "v = timer_snapshot now r" by metis
  obtain q where q: "q \<in> set (timer_run c later s1)" "same_timer r q" using timer_persists [OF r(2)] by blast
  have "timers_ok (timer_run c later s1)" unfolding timer_run_eq by (rule owned_timers.inv_run [OF r(1)])
  then have "find (\<lambda>r. timer_scope t u r \<and> tm_key r = key) (timer_run c later s1) = Some q"
    by (rule find_key) (use q r in \<open>auto simp: same_timer_def timer_scope_def\<close>)
  moreover have "same_view v (timer_snapshot now' q)" using q(2) v by (simp add: same_view_def timer_snapshot_def same_timer_def)
  ultimately show ?thesis using assms(2) tu q(2) r
    by (intro exI [of _ "timer_snapshot now' q"]) (auto simp: create_owned_timer_def for_owner_def for_tenant_def same_timer_def)
qed

theorem timer_requests_idempotent_witness:
  "fst (create_owned_timer \<lparr>ae_cast = Some, ae_integer = (\<lambda>_. None), ae_json_text = (\<lambda>_. []), ae_jsonb = (\<lambda>v. v)\<rparr> True 9 ''y'' ''w'' ''o'' 61 ''tea'' ''k'' ''c''
     [new_timer 1 ''x'' ''w'' ''o'' ''k'' 60 ''tea'' ''c'']) = Inl (TaskValue ''Timer idempotency key conflicts with a different request'')"
proof -
  let ?env = "\<lparr>ae_cast = Some, ae_integer = (\<lambda>_. None), ae_json_text = (\<lambda>_. []), ae_jsonb = (\<lambda>v. v)\<rparr>"
  have ok: "timer_complaint 60 ''tea'' ''c'' = None" "timer_complaint 61 ''tea'' ''c'' = None" by code_simp+
  have "create_owned_timer ?env True 1 ''x'' ''w'' ''o'' 60 ''tea'' ''k'' ''c'' (timer_run (build_role_permissions empty_config, ?env) [] []) =
      (Inr (timer_snapshot 1 (new_timer 1 ''x'' ''w'' ''o'' ''k'' 60 ''tea'' ''c'')), [new_timer 1 ''x'' ''w'' ''o'' ''k'' 60 ''tea'' ''c''])"
    using ok by (simp add: create_owned_timer_def for_owner_def for_tenant_def Let_def)
  from timer_requests_idempotent [OF this ok(2), of 9 "''y''" "[]"] show ?thesis by auto
qed

text \<open>
  C33: Timers belong to their owner: the timers of a user in a tenant stay as they are under every request through
  the service but those of an authenticated, active principal who is that user in that tenant and has the permission
  to write timers - so under those of other users, of inactive accounts, and of the owner without the permission.
\<close>

theorem timers_belong_to_owner:
  assumes "\<forall>op \<in> set later. \<not> timer_entitled c k op"
  shows "own_timers k (timer_run c (ops @ later) []) = own_timers k (timer_run c ops [])"
  using owned_timers.fence_run [OF timers_reachable_ok [of c ops], where k = k and ops = later and c = c] assms
  by (simp add: timer_run_eq owned_timers.run_append)

definition sample_timers :: "role_table \<times> auto_env" where
  "sample_timers = (build_role_permissions empty_config, \<lparr>ae_cast = Some, ae_integer = (\<lambda>_. None), ae_json_text = (\<lambda>_. []), ae_jsonb = (\<lambda>v. v)\<rparr>)"

theorem timers_belong_to_owner_witness:
  "own_timers (''w'', ''o'') (timer_run sample_timers ([] @ [TmCreate True 1 ''x'' None 60 ''tea'' ''k'' ''c'', TmCancel True 2
       (Some \<lparr>tu_active = False, tu_tenant = uuid_text 1, tu_user = uuid_text 2, tu_data = \<lparr>ud_roles = [''admin''], ud_permissions = []\<rparr>\<rparr>)
       ''x'']) [])
     = own_timers (''w'', ''o'') (timer_run sample_timers [] [])"
  by (rule timers_belong_to_owner) (simp add: timer_entitled_def timer_op_user_def)

end
