(* ===== verification/ReasoningPolicy.thy ===== *)
theory ReasoningPolicy
  imports Prelude
begin

text \<open>
  Authorization of reasoning modes:
  \<^verbatim>\<open>src/src/ai_karen_engine/core/runtime/policy/reasoning_policy.py\<close> and the mode vocabulary
  with its aliases from \<^verbatim>\<open>src/src/ai_karen_engine/core/reasoning/contracts.py\<close>. A mode is its
  wire value. The runtime level and the risk level arrive as text (the value of an
  enumeration, or nothing) and are normalised here exactly as the code does, unknown text
  falling back to \<^verbatim>\<open>FULL\<close> and to \<^verbatim>\<open>low\<close>.
\<close>

section \<open>Vocabulary\<close>

definition reasoning_mode_values :: "string list" where
  "reasoning_mode_values =
    [''causal'', ''counterfactual'', ''evidence_synthesis'', ''hypothesis_comparison'',
     ''verification'', ''refinement'', ''soft_exploration'', ''metacognition'']"

definition reasoning_mode_aliases :: "(string, string) pydict" where
  "reasoning_mode_aliases =
    [(''verify'', ''verification''), (''refine'', ''refinement''),
     (''synthesis'', ''evidence_synthesis''), (''soft'', ''soft_exploration''),
     (''reasoning'', ''evidence_synthesis'')]"

definition canonical_mode :: "string \<Rightarrow> string" where
  "canonical_mode raw =
     (let v = lower (strip raw) in case dget reasoning_mode_aliases v of Some a \<Rightarrow> a | None \<Rightarrow> v)"

text \<open>
  The loop of \<^verbatim>\<open>normalize_reasoning_modes\<close>: \<open>normalized\<close> also serves as the \<^verbatim>\<open>seen\<close> set,
  which holds the same elements. \<open>Inl (ValueError raw)\<close> is the rejection of an unknown mode.
\<close>

fun normalize_from :: "string list \<Rightarrow> string list \<Rightarrow> py_exn + string list" where
  "normalize_from normalized [] = Inr normalized"
| "normalize_from normalized (raw # values) =
     (if lower (strip raw) = [] then normalize_from normalized values
      else (let v = canonical_mode raw in
            if v \<notin> set reasoning_mode_values then Inl (ValueError raw)
            else if v \<in> set normalized then normalize_from normalized values
            else normalize_from (normalized @ [v]) values))"

definition normalize_reasoning_modes :: "string list \<Rightarrow> py_exn + string list" where
  "normalize_reasoning_modes values = normalize_from [] values"

section \<open>Policy tables\<close>

definition SOFT_EXPLORATION_MIN_MODEL_CALLS :: int where
  "SOFT_EXPLORATION_MIN_MODEL_CALLS = 30"

definition RUNTIME_LEVEL_ALLOWED :: "(string, string list) pydict" where
  "RUNTIME_LEVEL_ALLOWED =
    [(''FULL'', reasoning_mode_values),
     (''REDUCED'', [''causal'', ''evidence_synthesis'', ''verification'', ''refinement'',
                    ''metacognition'']),
     (''SAFE'', [''causal'', ''evidence_synthesis'', ''verification'', ''refinement'']),
     (''EMERGENCY'', [''evidence_synthesis'', ''verification''])]"

definition HIGH_RISK_DENIED :: "string list" where
  "HIGH_RISK_DENIED = [''soft_exploration'', ''counterfactual'']"

definition CRITICAL_RISK_DENIED :: "string list" where
  "CRITICAL_RISK_DENIED = [''soft_exploration'', ''counterfactual'', ''hypothesis_comparison'']"

definition runtime_level_value :: "string option \<Rightarrow> string" where
  "runtime_level_value level =
     (let raw = (case level of None \<Rightarrow> ''FULL'' | Some s \<Rightarrow> if s = [] then ''FULL'' else s);
          normalized = upper (strip raw)
      in if normalized \<in> set (dkeys RUNTIME_LEVEL_ALLOWED) then normalized else ''FULL'')"

definition risk_level_value :: "string option \<Rightarrow> string" where
  "risk_level_value risk =
     (let raw = (case risk of None \<Rightarrow> ''low'' | Some s \<Rightarrow> if s = [] then ''low'' else s);
          normalized = lower (strip raw)
      in if normalized \<in> {''low'', ''medium'', ''high'', ''critical''} then normalized else ''low'')"

section \<open>Authorization\<close>

datatype reasoning_reason =
  RUNTIME_LEVEL_DENIED | RISK_LEVEL_DENIED | MODEL_CALL_BUDGET_INSUFFICIENT

record mode_result =
  rmp_requested :: "string list"
  rmp_allowed :: "string list"
  rmp_denied :: "string list"
  rmp_reasons :: "(string, reasoning_reason list) pydict"

definition allowed_at_level :: "string \<Rightarrow> string list" where
  "allowed_at_level level = (case dget RUNTIME_LEVEL_ALLOWED level of Some ms \<Rightarrow> ms | None \<Rightarrow> [])"

definition risk_denied :: "string \<Rightarrow> string list" where
  "risk_denied risk =
     (if risk = ''critical'' then CRITICAL_RISK_DENIED
      else if risk = ''high'' then HIGH_RISK_DENIED else [])"

definition mode_reasons :: "string \<Rightarrow> string \<Rightarrow> int \<Rightarrow> string \<Rightarrow> reasoning_reason list" where
  "mode_reasons level risk max_model_calls mode =
     (if mode \<notin> set (allowed_at_level level) then [RUNTIME_LEVEL_DENIED] else []) @
     (if mode \<in> set (risk_denied risk) then [RISK_LEVEL_DENIED] else []) @
     (if mode = ''soft_exploration'' \<and> max_model_calls < SOFT_EXPLORATION_MIN_MODEL_CALLS
      then [MODEL_CALL_BUDGET_INSUFFICIENT] else [])"

fun authorize_loop ::
    "(string \<Rightarrow> reasoning_reason list) \<Rightarrow> string list \<Rightarrow>
     string list \<times> string list \<times> (string, reasoning_reason list) pydict \<Rightarrow>
     string list \<times> string list \<times> (string, reasoning_reason list) pydict" where
  "authorize_loop why [] acc = acc"
| "authorize_loop why (mode # modes) (allowed, denied, reasons) =
     (if why mode \<noteq> []
      then authorize_loop why modes
             (allowed, denied @ [mode], dset mode (uniq_from [] (why mode)) reasons)
      else authorize_loop why modes (allowed @ [mode], denied, reasons))"

definition authorize_reasoning_modes ::
    "string list \<Rightarrow> string option \<Rightarrow> string option \<Rightarrow> int \<Rightarrow> py_exn + mode_result" where
  "authorize_reasoning_modes requested runtime_level risk_level max_model_calls =
     rbind (normalize_reasoning_modes requested) (\<lambda>canonical.
       if canonical = [] then
         Inr \<lparr>rmp_requested = [], rmp_allowed = [], rmp_denied = [], rmp_reasons = []\<rparr>
       else
         (let level = runtime_level_value runtime_level;
              risk = risk_level_value risk_level;
              (allowed, denied, reasons) =
                authorize_loop (mode_reasons level risk max_model_calls) canonical ([], [], [])
          in Inr \<lparr>rmp_requested = canonical, rmp_allowed = allowed, rmp_denied = denied,
                  rmp_reasons = reasons\<rparr>))"

definition fully_authorized :: "mode_result \<Rightarrow> bool" where
  "fully_authorized r \<longleftrightarrow> rmp_denied r = []"

definition any_authorized :: "mode_result \<Rightarrow> bool" where
  "any_authorized r \<longleftrightarrow> rmp_allowed r \<noteq> []"

section \<open>Normalisation\<close>

lemma normalize_from_set:
  "normalize_from acc vs = Inr ms \<Longrightarrow>
     set ms = set acc \<union> {canonical_mode v | v. v \<in> set vs \<and> lower (strip v) \<noteq> []}"
proof (induction acc vs rule: normalize_from.induct)
  case (1 acc)
  then show ?case by simp
next
  case (2 acc raw vs)
  then show ?case
    by (auto simp: Let_def split: if_splits)
qed

lemma normalize_from_ok:
  "normalize_from acc vs = Inr ms \<Longrightarrow> distinct acc \<Longrightarrow> set acc \<subseteq> set reasoning_mode_values \<Longrightarrow>
     distinct ms \<and> set ms \<subseteq> set reasoning_mode_values"
  by (induction acc vs rule: normalize_from.induct) (auto simp: Let_def split: if_splits)

lemma normalize_ok:
  assumes "normalize_reasoning_modes vs = Inr ms"
  shows "distinct ms" and "set ms \<subseteq> set reasoning_mode_values"
    and "set ms = {canonical_mode v | v. v \<in> set vs \<and> lower (strip v) \<noteq> []}"
  using normalize_from_ok [of "[]" vs ms] normalize_from_set [of "[]" vs ms] assms
  by (auto simp: normalize_reasoning_modes_def)

lemma normalize_from_raises:
  "raises (normalize_from acc vs) \<longleftrightarrow>
     (\<exists>v \<in> set vs. lower (strip v) \<noteq> [] \<and> canonical_mode v \<notin> set reasoning_mode_values)"
  by (induction acc vs rule: normalize_from.induct)
    (auto simp: Let_def raises_def)

section \<open>The authorization loop\<close>

lemma authorize_loop_eq:
  "authorize_loop why modes (a, d, r) =
     (a @ filter (\<lambda>m. why m = []) modes, d @ filter (\<lambda>m. why m \<noteq> []) modes,
      fold (\<lambda>m. dset m (uniq_from [] (why m))) (filter (\<lambda>m. why m \<noteq> []) modes) r)"
  by (induction modes arbitrary: a d r) auto

lemma authorize_result:
  assumes "authorize_reasoning_modes req lv rk mc = Inr res"
  defines "why \<equiv> mode_reasons (runtime_level_value lv) (risk_level_value rk) mc"
  shows "normalize_reasoning_modes req = Inr (rmp_requested res)"
    and "rmp_allowed res = filter (\<lambda>m. why m = []) (rmp_requested res)"
    and "rmp_denied res = filter (\<lambda>m. why m \<noteq> []) (rmp_requested res)"
    and "rmp_reasons res =
      fold (\<lambda>m. dset m (uniq_from [] (why m))) (filter (\<lambda>m. why m \<noteq> []) (rmp_requested res)) []"
  using assms
  by (auto simp: authorize_reasoning_modes_def rbind_eq_Inr Let_def authorize_loop_eq split: if_splits)

lemma fold_dset_keys: "set (dkeys (fold (\<lambda>m. dset m (f m)) ms d)) = set (dkeys d) \<union> set ms"
  by (induction ms arbitrary: d) auto

lemma fold_dset_get: "dget (fold (\<lambda>m. dset m (f m)) ms d) k = (if k \<in> set ms then Some (f k) else dget d k)"
  by (induction ms arbitrary: d) (auto simp: dget_dset)

lemma uniq_from_Nil_iff: "uniq_from [] xs = [] \<longleftrightarrow> xs = []"
  by (metis set_empty set_uniq_from sup_bot_left)

section \<open>Monotonicity of the policy tables\<close>

text \<open>From the least to the most permissive level, and from the least to the most severe risk.\<close>

definition level_rank :: "string \<Rightarrow> nat" where
  "level_rank l = (if l = ''EMERGENCY'' then 0 else if l = ''SAFE'' then 1
     else if l = ''REDUCED'' then 2 else 3)"

definition risk_rank :: "string \<Rightarrow> nat" where
  "risk_rank r = (if r = ''critical'' then 3 else if r = ''high'' then 2
     else if r = ''medium'' then 1 else 0)"

lemma level_value_cases: "runtime_level_value l \<in> {''FULL'', ''REDUCED'', ''SAFE'', ''EMERGENCY''}"
  by (auto simp: runtime_level_value_def Let_def RUNTIME_LEVEL_ALLOWED_def dkeys_def)

lemma level_table:
  "allowed_at_level ''FULL'' = reasoning_mode_values"
  "allowed_at_level ''REDUCED'' =
     [''causal'', ''evidence_synthesis'', ''verification'', ''refinement'', ''metacognition'']"
  "allowed_at_level ''SAFE'' = [''causal'', ''evidence_synthesis'', ''verification'', ''refinement'']"
  "allowed_at_level ''EMERGENCY'' = [''evidence_synthesis'', ''verification'']"
  by (simp_all add: allowed_at_level_def RUNTIME_LEVEL_ALLOWED_def dget_Cons)

lemma level_table_chain:
  "set (allowed_at_level ''EMERGENCY'') \<subseteq> set (allowed_at_level ''SAFE'')"
  "set (allowed_at_level ''SAFE'') \<subseteq> set (allowed_at_level ''REDUCED'')"
  "set (allowed_at_level ''REDUCED'') \<subseteq> set (allowed_at_level ''FULL'')"
  unfolding level_table reasoning_mode_values_def by simp_all

lemma level_ranks:
  "level_rank ''FULL'' = 3" "level_rank ''REDUCED'' = 2" "level_rank ''SAFE'' = 1"
  "level_rank ''EMERGENCY'' = 0"
  by (simp_all add: level_rank_def)

lemma allowed_at_level_mono:
  assumes "level_rank (runtime_level_value l) \<le> level_rank (runtime_level_value l')"
  shows "set (allowed_at_level (runtime_level_value l)) \<subseteq> set (allowed_at_level (runtime_level_value l'))"
  using level_value_cases [of l] level_value_cases [of l'] assms level_table_chain
  by (elim insertE emptyE; simp add: level_ranks; blast)

lemma risk_denied_mono: "risk_rank r \<le> risk_rank r' \<Longrightarrow> set (risk_denied r) \<subseteq> set (risk_denied r')"
  by (auto simp: risk_denied_def risk_rank_def HIGH_RISK_DENIED_def CRITICAL_RISK_DENIED_def
        split: if_splits)

lemma mode_reasons_mono:
  assumes "mode_reasons (runtime_level_value l) r mc m = []"
    and "level_rank (runtime_level_value l) \<le> level_rank (runtime_level_value l')"
    and "risk_rank r' \<le> risk_rank r" and "mc \<le> mc'"
  shows "mode_reasons (runtime_level_value l') r' mc' m = []"
  using assms(1) allowed_at_level_mono [OF assms(2)] risk_denied_mono [OF assms(3)] assms(4)
  by (auto simp: mode_reasons_def split: if_splits)

section \<open>Properties\<close>

text \<open>
  a successful authorization splits the canonical requested modes into allowed and
  denied without losing, inventing, duplicating or reordering one; every denied mode carries
  at least one reason, and no other mode carries one.
\<close>

theorem reasoning_modes_partitioned:
  assumes "authorize_reasoning_modes req lv rk mc = Inr res"
  shows "distinct (rmp_requested res)
    \<and> set (rmp_requested res) = {canonical_mode v | v. v \<in> set req \<and> lower (strip v) \<noteq> []}
    \<and> set (rmp_requested res) \<subseteq> set reasoning_mode_values
    \<and> set (rmp_allowed res) \<inter> set (rmp_denied res) = {}
    \<and> rmp_allowed res = filter (\<lambda>m. m \<notin> set (rmp_denied res)) (rmp_requested res)
    \<and> rmp_denied res = filter (\<lambda>m. m \<notin> set (rmp_allowed res)) (rmp_requested res)
    \<and> set (dkeys (rmp_reasons res)) = set (rmp_denied res)
    \<and> (\<forall>m rs. dget (rmp_reasons res) m = Some rs \<longrightarrow> rs \<noteq> [])"
proof -
  note res = authorize_result [OF assms]
  note norm = normalize_ok [OF res(1)]
  show ?thesis
    using norm
    by (auto simp: res(2-4) fold_dset_keys fold_dset_get uniq_from_Nil_iff
        intro!: filter_cong split: if_splits)
qed

theorem reasoning_modes_partitioned_witness:
  "\<exists>res. authorize_reasoning_modes [''verify'', '' Soft '', ''causal'', ''soft'']
       (Some ''SAFE'') (Some ''high'') 10 = Inr res
     \<and> rmp_allowed res = [''verification'', ''causal''] \<and> rmp_denied res = [''soft_exploration'']
     \<and> set (dkeys (rmp_reasons res)) = {''soft_exploration''}"
proof -
  let ?r = "\<lparr>rmp_requested = [''verification'', ''soft_exploration'', ''causal''],
     rmp_allowed = [''verification'', ''causal''], rmp_denied = [''soft_exploration''],
     rmp_reasons = [(''soft_exploration'',
       [RUNTIME_LEVEL_DENIED, RISK_LEVEL_DENIED, MODEL_CALL_BUDGET_INSUFFICIENT])]\<rparr>"
  have run: "authorize_reasoning_modes [''verify'', '' Soft '', ''causal'', ''soft'']
       (Some ''SAFE'') (Some ''high'') 10 = Inr ?r"
    by code_simp
  show ?thesis using reasoning_modes_partitioned [OF run] run by simp
qed

text \<open>
  authorization is monotone: whatever is allowed at a runtime level, under a risk level
  and with a model-call budget stays allowed at a more permissive level, under a lower risk
  and with a larger budget.
\<close>

theorem reasoning_authorization_monotone:
  assumes "authorize_reasoning_modes req lv rk mc = Inr res"
    and "authorize_reasoning_modes req lv' rk' mc' = Inr res'"
    and "level_rank (runtime_level_value lv) \<le> level_rank (runtime_level_value lv')"
    and "risk_rank (risk_level_value rk') \<le> risk_rank (risk_level_value rk)"
    and "mc \<le> mc'"
  shows "set (rmp_allowed res) \<subseteq> set (rmp_allowed res')"
proof
  fix m assume m: "m \<in> set (rmp_allowed res)"
  note r = authorize_result [OF assms(1)] and r' = authorize_result [OF assms(2)]
  have "rmp_requested res' = rmp_requested res" using r(1) r'(1) by simp
  with m r(2) r'(2) mode_reasons_mono [OF _ assms(3-5)]
  show "m \<in> set (rmp_allowed res')" by auto
qed

theorem reasoning_authorization_monotone_witness:
  "\<exists>res res'. authorize_reasoning_modes [''causal'', ''soft''] (Some ''REDUCED'') (Some ''high'') 0 = Inr res
     \<and> authorize_reasoning_modes [''causal'', ''soft''] (Some ''FULL'') (Some ''low'') 30 = Inr res'
     \<and> set (rmp_allowed res) \<subseteq> set (rmp_allowed res')
     \<and> ''soft_exploration'' \<in> set (rmp_allowed res') - set (rmp_allowed res)"
proof -
  let ?q = "[''causal'', ''soft_exploration'']"
  let ?r = "\<lparr>rmp_requested = ?q, rmp_allowed = [''causal''], rmp_denied = [''soft_exploration''],
     rmp_reasons = [(''soft_exploration'',
       [RUNTIME_LEVEL_DENIED, RISK_LEVEL_DENIED, MODEL_CALL_BUDGET_INSUFFICIENT])]\<rparr>"
  let ?r' = "\<lparr>rmp_requested = ?q, rmp_allowed = ?q, rmp_denied = [], rmp_reasons = []\<rparr>"
  have a: "authorize_reasoning_modes [''causal'', ''soft''] (Some ''REDUCED'') (Some ''high'') 0 = Inr ?r"
    by code_simp
  have b: "authorize_reasoning_modes [''causal'', ''soft''] (Some ''FULL'') (Some ''low'') 30 = Inr ?r'"
    by code_simp
  have c: "level_rank (runtime_level_value (Some ''REDUCED'')) \<le> level_rank (runtime_level_value (Some ''FULL''))"
    by code_simp
  have d: "risk_rank (risk_level_value (Some ''low'')) \<le> risk_rank (risk_level_value (Some ''high''))"
    by code_simp
  show ?thesis using reasoning_authorization_monotone [OF a b c d] a b by simp
qed

end
