(* ===== verification/ExecutionContracts.thy ===== *)
theory ExecutionContracts
  imports Prelude
begin

text \<open>
  The execution contracts of \<^verbatim>\<open>src/src/ai_karen_engine/core/runtime/contracts.py\<close>: the
  authorized execution plan with its normalisation and its replay check, the execution
  budget, and the meter that counts consumption against it. The meter's lock makes each
  operation atomic, so an operation is one step on the meter's state; the wall clock is an
  argument.
\<close>

section \<open>The plan\<close>

datatype execution_topology = DIRECT | REASONING | WORKFLOW | MULTI_AGENT

record execution_budget =
  eb_max_duration_ms :: int
  eb_max_model_calls :: int
  eb_max_reasoning_steps :: int
  eb_max_tool_calls :: int
  eb_max_agent_turns :: int
  eb_max_parallelism :: int
  eb_max_input_tokens :: int
  eb_max_output_tokens :: int
  eb_max_memory_items :: int
  eb_max_external_requests :: int

definition default_budget :: execution_budget where
  "default_budget =
     \<lparr>eb_max_duration_ms = 30000, eb_max_model_calls = 10, eb_max_reasoning_steps = 5,
      eb_max_tool_calls = 10, eb_max_agent_turns = 5, eb_max_parallelism = 4,
      eb_max_input_tokens = 8192, eb_max_output_tokens = 4096, eb_max_memory_items = 20,
      eb_max_external_requests = 5\<rparr>"

record degradation_state =
  ds_degraded :: bool
  ds_reason_code :: "string option"
  ds_level :: string

record authorized_plan =
  ap_execution_id :: string
  ap_policy_decision_id :: string
  ap_authorized_user_id :: string
  ap_authorized_tenant_id :: string
  ap_authorized_session_id :: pyval
  ap_topology :: execution_topology
  ap_allowed_capabilities :: "string list"
  ap_allowed_tools :: "pyval list"
  ap_allowed_plugins :: "pyval list"
  ap_allowed_agents :: "pyval list"
  ap_provider_constraints :: "(string, pyval) pydict"
  ap_memory_scope :: string
  ap_resource_scope :: "(string, pyval) pydict"
  ap_budget :: execution_budget
  ap_approval_requirements :: "string list"
  ap_reasoning_modes :: "string list"
  ap_workflow_id :: pyval
  ap_agent_topology :: pyval
  ap_degraded_allowed :: bool
  ap_degradation_state :: "degradation_state option"
  ap_audit_context :: "(string, pyval) pydict"

text \<open>\<^verbatim>\<open>__post_init__\<close>: the mode list is normalised, with two legacy shorthands.\<close>

definition plan_reasoning_modes :: "string list \<Rightarrow> string list" where
  "plan_reasoning_modes modes =
     (let raw = map (\<lambda>m. lower (strip m)) (filter (\<lambda>m. strip m \<noteq> []) modes)
      in if raw = [''standard''] then []
         else if raw = [''deep''] then
           [''causal'', ''evidence_synthesis'', ''verification'', ''refinement'', ''metacognition'']
         else raw)"

definition post_init :: "authorized_plan \<Rightarrow> authorized_plan" where
  "post_init p = p\<lparr>ap_reasoning_modes := plan_reasoning_modes (ap_reasoning_modes p)\<rparr>"

definition matches_execution_scope ::
    "authorized_plan \<Rightarrow> string \<Rightarrow> string \<Rightarrow> string option \<Rightarrow> string option \<Rightarrow> bool" where
  "matches_execution_scope p user_id tenant_id session_id policy_decision_id =
     (if ap_authorized_user_id p = [] \<or> ap_authorized_tenant_id p = [] then False
      else if user_id \<noteq> ap_authorized_user_id p \<or> tenant_id \<noteq> ap_authorized_tenant_id p then False
      else if ap_authorized_session_id p \<noteq> PNone
              \<and> \<not> py_eq (opt_str session_id) (ap_authorized_session_id p) then False
      else if policy_decision_id \<noteq> None \<and> policy_decision_id \<noteq> Some (ap_policy_decision_id p)
      then False else True)"

section \<open>The budget meter\<close>

record budget_meter =
  bm_budget :: execution_budget
  bm_model_calls :: int
  bm_reasoning_steps :: int
  bm_tool_calls :: int
  bm_agent_turns :: int
  bm_external_requests :: int
  bm_input_tokens :: int
  bm_output_tokens :: int
  bm_start_ms :: rat
  bm_exhausted :: bool

definition new_meter :: "execution_budget \<Rightarrow> budget_meter" where
  "new_meter b =
     \<lparr>bm_budget = b, bm_model_calls = 0, bm_reasoning_steps = 0, bm_tool_calls = 0,
      bm_agent_turns = 0, bm_external_requests = 0, bm_input_tokens = 0, bm_output_tokens = 0,
      bm_start_ms = 0, bm_exhausted = False\<rparr>"

definition start :: "rat \<Rightarrow> budget_meter \<Rightarrow> budget_meter" where
  "start now_ms m = m\<lparr>bm_start_ms := now_ms\<rparr>"

definition check_duration :: "rat \<Rightarrow> budget_meter \<Rightarrow> bool \<times> budget_meter" where
  "check_duration now_ms m =
     (if bm_exhausted m then (False, m)
      else if now_ms - bm_start_ms m \<ge> of_int (eb_max_duration_ms (bm_budget m))
      then (False, m\<lparr>bm_exhausted := True\<rparr>) else (True, m))"

definition reserve_model_call :: "budget_meter \<Rightarrow> bool \<times> budget_meter" where
  "reserve_model_call m =
     (if bm_exhausted m then (False, m)
      else (let m' = m\<lparr>bm_model_calls := bm_model_calls m + 1\<rparr>
            in if bm_model_calls m' > eb_max_model_calls (bm_budget m')
               then (False, m'\<lparr>bm_exhausted := True\<rparr>) else (True, m')))"

definition reserve_reasoning_step :: "budget_meter \<Rightarrow> bool \<times> budget_meter" where
  "reserve_reasoning_step m =
     (if bm_exhausted m then (False, m)
      else (let m' = m\<lparr>bm_reasoning_steps := bm_reasoning_steps m + 1\<rparr>
            in if bm_reasoning_steps m' > eb_max_reasoning_steps (bm_budget m')
               then (False, m'\<lparr>bm_exhausted := True\<rparr>) else (True, m')))"

definition reserve_tool_call :: "budget_meter \<Rightarrow> bool \<times> budget_meter" where
  "reserve_tool_call m =
     (if bm_exhausted m then (False, m)
      else (let m' = m\<lparr>bm_tool_calls := bm_tool_calls m + 1\<rparr>
            in if bm_tool_calls m' > eb_max_tool_calls (bm_budget m')
               then (False, m'\<lparr>bm_exhausted := True\<rparr>) else (True, m')))"

definition reserve_agent_turn :: "budget_meter \<Rightarrow> bool \<times> budget_meter" where
  "reserve_agent_turn m =
     (if bm_exhausted m then (False, m)
      else (let m' = m\<lparr>bm_agent_turns := bm_agent_turns m + 1\<rparr>
            in if bm_agent_turns m' > eb_max_agent_turns (bm_budget m')
               then (False, m'\<lparr>bm_exhausted := True\<rparr>) else (True, m')))"

definition reserve_external_request :: "budget_meter \<Rightarrow> bool \<times> budget_meter" where
  "reserve_external_request m =
     (if bm_exhausted m then (False, m)
      else (let m' = m\<lparr>bm_external_requests := bm_external_requests m + 1\<rparr>
            in if bm_external_requests m' > eb_max_external_requests (bm_budget m')
               then (False, m'\<lparr>bm_exhausted := True\<rparr>) else (True, m')))"

definition add_input_tokens :: "int \<Rightarrow> budget_meter \<Rightarrow> bool \<times> budget_meter" where
  "add_input_tokens n m =
     (if bm_exhausted m then (False, m)
      else (let m' = m\<lparr>bm_input_tokens := bm_input_tokens m + n\<rparr>
            in if bm_input_tokens m' > eb_max_input_tokens (bm_budget m')
               then (False, m'\<lparr>bm_exhausted := True\<rparr>) else (True, m')))"

definition add_output_tokens :: "int \<Rightarrow> budget_meter \<Rightarrow> bool \<times> budget_meter" where
  "add_output_tokens n m =
     (if bm_exhausted m then (False, m)
      else (let m' = m\<lparr>bm_output_tokens := bm_output_tokens m + n\<rparr>
            in if bm_output_tokens m' > eb_max_output_tokens (bm_budget m')
               then (False, m'\<lparr>bm_exhausted := True\<rparr>) else (True, m')))"

datatype meter_op =
    CheckDuration rat | ModelCall | ReasoningStep | ToolCall | AgentTurn | ExternalRequest
  | InputTokens int | OutputTokens int

fun meter_step :: "meter_op \<Rightarrow> budget_meter \<Rightarrow> bool \<times> budget_meter" where
  "meter_step (CheckDuration now_ms) m = check_duration now_ms m"
| "meter_step ModelCall m = reserve_model_call m"
| "meter_step ReasoningStep m = reserve_reasoning_step m"
| "meter_step ToolCall m = reserve_tool_call m"
| "meter_step AgentTurn m = reserve_agent_turn m"
| "meter_step ExternalRequest m = reserve_external_request m"
| "meter_step (InputTokens n) m = add_input_tokens n m"
| "meter_step (OutputTokens n) m = add_output_tokens n m"

text \<open>The answers of a sequence of operations and the final meter.\<close>

fun meter_run :: "meter_op list \<Rightarrow> budget_meter \<Rightarrow> bool list \<times> budget_meter" where
  "meter_run [] m = ([], m)"
| "meter_run (op # ops) m =
     (let (ok, m') = meter_step op m; (oks, m'') = meter_run ops m' in (ok # oks, m''))"

section \<open>The interface of a meter\<close>

text \<open>
  What an executor relies on: an operation on an exhausted meter is refused and changes
  nothing, a refusal exhausts the meter, and a granted operation keeps the books within the
  budget. From these laws alone the grants of any run stop for good at the first refusal.
\<close>

locale latching_meter =
  fixes op_step :: "'o \<Rightarrow> 'm \<Rightarrow> bool \<times> 'm"
    and exhausted :: "'m \<Rightarrow> bool"
    and sound :: "'m \<Rightarrow> bool"
  assumes refuse_exhausted: "exhausted m \<Longrightarrow> op_step op m = (False, m)"
    and refusal_latches: "op_step op m = (False, m') \<Longrightarrow> exhausted m'"
    and grant_live: "op_step op m = (True, m') \<Longrightarrow> \<not> exhausted m'"
    and grant_within: "sound m \<Longrightarrow> op_step op m = (True, m') \<Longrightarrow> sound m'"
begin

fun run :: "'o list \<Rightarrow> 'm \<Rightarrow> bool list \<times> 'm" where
  "run [] m = ([], m)"
| "run (op # ops) m = (let (ok, m') = op_step op m; (oks, m'') = run ops m' in (ok # oks, m''))"

lemma run_exhausted: "exhausted m \<Longrightarrow> run ops m = (replicate (length ops) False, m)"
  by (induction ops) (simp_all add: refuse_exhausted)

lemma run_shape:
  "\<exists>k. fst (run ops m) = replicate k True @ replicate (length ops - k) False \<and> k \<le> length ops"
proof (induction ops arbitrary: m)
  case Nil
  then show ?case by simp
next
  case (Cons op ops)
  obtain ok m' where s: "op_step op m = (ok, m')" by fastforce
  show ?case
  proof (cases ok)
    case True
    from Cons.IH [of m'] obtain k where
      "fst (run ops m') = replicate k True @ replicate (length ops - k) False" "k \<le> length ops"
      by blast
    then show ?thesis
      using s True by (intro exI [of _ "Suc k"]) (simp add: split_def Let_def)
  next
    case False
    then have "run ops m' = (replicate (length ops) False, m')"
      using s by (intro run_exhausted refusal_latches [of op m]) simp
    then show ?thesis
      using s False by (intro exI [of _ 0]) simp
  qed
qed

lemma run_within: "sound m \<Longrightarrow> \<not> exhausted (snd (run ops m)) \<Longrightarrow> sound (snd (run ops m))"
proof (induction ops arbitrary: m)
  case Nil
  then show ?case by simp
next
  case (Cons op ops)
  obtain ok m' where s: "op_step op m = (ok, m')" by fastforce
  show ?case
  proof (cases ok)
    case True
    then have "sound m'" using s Cons.prems(1) grant_within by simp
    then show ?thesis using Cons.IH [of m'] Cons.prems(2) s by (simp add: split_def Let_def)
  next
    case False
    then have "exhausted m'" using s refusal_latches by simp
    then show ?thesis using Cons.prems(2) s by (simp add: run_exhausted split_def Let_def)
  qed
qed

end

definition within_budget :: "budget_meter \<Rightarrow> bool" where
  "within_budget m \<longleftrightarrow>
     bm_model_calls m \<le> eb_max_model_calls (bm_budget m) \<and>
     bm_reasoning_steps m \<le> eb_max_reasoning_steps (bm_budget m) \<and>
     bm_tool_calls m \<le> eb_max_tool_calls (bm_budget m) \<and>
     bm_agent_turns m \<le> eb_max_agent_turns (bm_budget m) \<and>
     bm_external_requests m \<le> eb_max_external_requests (bm_budget m) \<and>
     bm_input_tokens m \<le> eb_max_input_tokens (bm_budget m) \<and>
     bm_output_tokens m \<le> eb_max_output_tokens (bm_budget m)"

lemmas meter_defs =
  check_duration_def reserve_model_call_def reserve_reasoning_step_def reserve_tool_call_def
  reserve_agent_turn_def reserve_external_request_def add_input_tokens_def add_output_tokens_def
  Let_def

interpretation meter: latching_meter meter_step bm_exhausted within_budget
proof unfold_locales
  fix m :: budget_meter and op assume "bm_exhausted m"
  then show "meter_step op m = (False, m)" by (cases op) (simp_all add: meter_defs)
next
  fix op and m m' :: budget_meter assume "meter_step op m = (False, m')"
  then show "bm_exhausted m'" by (cases op) (auto simp: meter_defs split: if_splits)
next
  fix op and m m' :: budget_meter assume "meter_step op m = (True, m')"
  then show "\<not> bm_exhausted m'" by (cases op) (auto simp: meter_defs split: if_splits)
next
  fix op and m m' :: budget_meter assume "within_budget m" "meter_step op m = (True, m')"
  then show "within_budget m'"
    by (cases op) (auto simp: meter_defs within_budget_def split: if_splits)
qed

lemma meter_run_eq: "meter_run = meter.run"
proof (intro ext)
  fix ops m show "meter_run ops m = meter.run ops m"
    by (induction ops arbitrary: m) (simp_all add: split_def Let_def)
qed

lemma meter_step_budget: "bm_budget (snd (meter_step op m)) = bm_budget m"
  by (cases op) (simp_all add: meter_defs)

lemma meter_run_budget: "bm_budget (snd (meter_run ops m)) = bm_budget m"
proof (induction ops arbitrary: m)
  case (Cons op ops)
  show ?case using Cons.IH [of "snd (meter_step op m)"] meter_step_budget [of op m]
    by (simp add: split_def Let_def)
qed simp

section \<open>Properties\<close>

text \<open>
  once any budget is exceeded the meter latches: over any sequence of operations the
  answers are a run of grants followed by refusals only, whatever the kinds of operation.
\<close>

theorem budget_meter_latches:
  "\<exists>k \<le> length ops. fst (meter_run ops m) = replicate k True @ replicate (length ops - k) False"
  using meter.run_shape [of ops m] by (auto simp: meter_run_eq)

text \<open>
  a meter started on a budget with no negative limit that has not refused anything has
  every counter within its limit, whatever operations were granted.
\<close>

theorem granted_within_budget:
  assumes "within_budget (new_meter b)"
    and "\<not> bm_exhausted (snd (meter_run ops (new_meter b)))"
  shows "within_budget (snd (meter_run ops (new_meter b)))
     \<and> bm_budget (snd (meter_run ops (new_meter b))) = b"
  using meter.run_within [OF assms(1)] assms(2) meter_run_budget [of ops "new_meter b"]
  by (simp add: meter_run_eq new_meter_def)

theorem granted_within_budget_witness:
  "within_budget (snd (meter_run [ModelCall, InputTokens 8192, ToolCall] (new_meter default_budget)))"
proof -
  have a: "within_budget (new_meter default_budget)"
    by (simp add: within_budget_def new_meter_def default_budget_def)
  have b: "\<not> bm_exhausted (snd (meter_run [ModelCall, InputTokens 8192, ToolCall] (new_meter default_budget)))"
    by (simp add: new_meter_def default_budget_def meter_defs)
  show ?thesis using granted_within_budget [OF a b] by simp
qed

text \<open>
  A plan is accepted for a subject only when the subject is the one it was authorized
  for: user and tenant are non-empty and equal, the session is the bound one whenever the
  plan binds a session, and a decision id that is presented is the plan's own.
\<close>

theorem plan_scope_bound:
  "matches_execution_scope (p\<lparr>ap_authorized_session_id := opt_str s\<rparr>) u t sess did \<longleftrightarrow>
     u = ap_authorized_user_id p \<and> t = ap_authorized_tenant_id p \<and> u \<noteq> [] \<and> t \<noteq> []
     \<and> (s = None \<or> sess = s) \<and> (did = None \<or> did = Some (ap_policy_decision_id p))"
  by (cases s; cases sess) (auto simp: matches_execution_scope_def)

end
