(* ===== verification/RuntimePolicy.thy ===== *)
theory RuntimePolicy
  imports Rbac ReasoningPolicy ExecutionContracts
begin

text \<open>
  The runtime's authorization authority,
  \<^verbatim>\<open>src/src/ai_karen_engine/core/runtime/policy/runtime_policy.py\<close>: the evaluation of a policy
  request, the conversion of a decision into an execution plan
  (\<^verbatim>\<open>src/src/ai_karen_engine/core/runtime/contracts.py\<close>), the routing, execution and response
  checks, and the runtime-level transitions.

  Dictionaries the code reads with \<^verbatim>\<open>.get\<close> stay dynamically typed where it tests or converts
  what it finds (risk signals, execution topology, runtime constraints). The clock is an
  argument. \<open>so\<close> is the order in which Python enumerates a set built from a list, and \<open>rp\<close>
  Python's \<^verbatim>\<open>repr\<close> of floats and containers: both are parameters.
\<close>

section \<open>Data\<close>

datatype runtime_level = FULL | REDUCED | SAFE | EMERGENCY

fun level_value :: "runtime_level \<Rightarrow> string" where
  "level_value FULL = ''FULL''"
| "level_value REDUCED = ''REDUCED''"
| "level_value SAFE = ''SAFE''"
| "level_value EMERGENCY = ''EMERGENCY''"

datatype reason_code =
    ALLOWED | MISSING_IDENTITY | CAPABILITY_CONFLICT | INSUFFICIENT_PERMISSION
  | TOOL_RISK_DENIED | RC_RUNTIME_LEVEL_DENIED | RESOURCE_SCOPE_DENIED
  | REASONING_MODE_RESTRICTED | POLICY_CHECK_PASSED

fun reason_code_value :: "reason_code \<Rightarrow> string" where
  "reason_code_value ALLOWED = ''allowed''"
| "reason_code_value MISSING_IDENTITY = ''missing_identity''"
| "reason_code_value CAPABILITY_CONFLICT = ''capability_conflict''"
| "reason_code_value INSUFFICIENT_PERMISSION = ''insufficient_permission''"
| "reason_code_value TOOL_RISK_DENIED = ''tool_risk_denied''"
| "reason_code_value RC_RUNTIME_LEVEL_DENIED = ''runtime_level_denied''"
| "reason_code_value RESOURCE_SCOPE_DENIED = ''resource_scope_denied''"
| "reason_code_value REASONING_MODE_RESTRICTED = ''reasoning_mode_restricted''"
| "reason_code_value POLICY_CHECK_PASSED = ''policy_check_passed''"

record resource_scope =
  rs_allowed_paths :: "string list"
  rs_forbidden_paths :: "string list"
  rs_max_file_size_mb :: int
  rs_allowed_networks :: "string list"
  rs_forbidden_networks :: "string list"

record provider_constraints =
  pc_eligible :: "pyval list"
  pc_forbidden :: "pyval list"
  pc_local_only :: bool
  pc_external_allowed :: bool
  pc_capability_restrictions :: "pyval list"
  pc_resource_constraints :: "(string, pyval) pydict"

definition default_provider_constraints :: provider_constraints where
  "default_provider_constraints =
     \<lparr>pc_eligible = [], pc_forbidden = [], pc_local_only = False, pc_external_allowed = True,
      pc_capability_restrictions = [], pc_resource_constraints = []\<rparr>"

record resource_constraints =
  rsc_max_memory_mb :: int
  rsc_max_cpu_time_seconds :: int
  rsc_max_wall_time_seconds :: int
  rsc_max_output_size_kb :: int
  rsc_max_file_descriptors :: int
  rsc_max_processes :: int
  rsc_max_threads :: int

record policy_request =
  pr_user_id :: string
  pr_tenant_id :: string
  pr_session_id :: "string option"
  pr_correlation_id :: "string option"
  pr_roles :: "string list"
  pr_permissions :: "string list"
  pr_action :: string
  pr_resource :: "string option"
  pr_requested_capabilities :: "string list"
  pr_forbidden_capabilities :: "string list"
  pr_requested_reasoning_modes :: "string list"
  pr_max_model_calls :: int
  pr_risk_signals :: "(string, pyval) pydict"
  pr_runtime_level :: runtime_level
  pr_extension_id :: "string option"
  pr_plugin_id :: "string option"
  pr_tool_id :: "string option"
  pr_provider_constraints :: "provider_constraints option"
  pr_environment :: string
  pr_resource_scope :: "resource_scope option"
  pr_execution_topology :: "(string, pyval) pydict"

record policy_decision =
  pd_decision_id :: string
  pd_policy_version :: string
  pd_allowed :: bool
  pd_reason_codes :: "reason_code list"
  pd_allowed_capabilities :: "string list"
  pd_denied_capabilities :: "string list"
  pd_allowed_reasoning_modes :: "string list"
  pd_denied_reasoning_modes :: "string list"
  pd_reasoning_denial_reasons :: "(string, reasoning_reason list) pydict"
  pd_requires_human_gate :: bool
  pd_runtime_constraints :: "(string, pyval) pydict"
  pd_resource_scope :: "resource_scope option"
  pd_provider_constraints :: "provider_constraints option"
  pd_resource_constraints :: "resource_constraints option"
  pd_risk_level :: "string option"
  pd_evaluated_at :: rat

text \<open>A decision with the dataclass defaults: every list empty, every optional field absent.\<close>

definition decision_defaults :: "string \<Rightarrow> rat \<Rightarrow> bool \<Rightarrow> policy_decision" where
  "decision_defaults did now ok =
     \<lparr>pd_decision_id = did, pd_policy_version = ''v2'', pd_allowed = ok, pd_reason_codes = [],
      pd_allowed_capabilities = [], pd_denied_capabilities = [], pd_allowed_reasoning_modes = [],
      pd_denied_reasoning_modes = [], pd_reasoning_denial_reasons = [],
      pd_requires_human_gate = False, pd_runtime_constraints = [], pd_resource_scope = None,
      pd_provider_constraints = None, pd_resource_constraints = None, pd_risk_level = None,
      pd_evaluated_at = now\<rparr>"

section \<open>Risk\<close>

text \<open>
  \<^verbatim>\<open>float(signals.get("score", 0.0) or 0.0)\<close>, raised to a floor by the risk categories.
\<close>

definition risk_score_of :: "(string, pyval) pydict \<Rightarrow> py_exn + pyfloat" where
  "risk_score_of signals =
     rbind (py_float (py_or (vget signals ''score'' (PFloat (Fin 0))) (PFloat (Fin 0)))) (\<lambda>score.
       (let cats = py_or (vget signals ''categories'' (PList [])) (PList [])
        in rbind (py_in ''credential_access'' cats) (\<lambda>cred.
           rbind (if cred then Inr True else py_in ''production_impact'' cats) (\<lambda>high.
           rbind (py_in ''destructive_action'' cats) (\<lambda>destr.
             (let s1 = (if high then fmax score (Fin (7/10)) else score)
              in Inr (if destr then fmax s1 (Fin (1/2)) else s1)))))))"

definition risk_level_of :: "pyfloat \<Rightarrow> string" where
  "risk_level_of score =
     (if fle (Fin (8/10)) score then ''critical''
      else if fle (Fin (1/2)) score then ''high''
      else if fle (Fin (2/10)) score then ''medium'' else ''low'')"

section \<open>Requested identifiers\<close>

definition topology_list :: "(string, pyval) pydict \<Rightarrow> string \<Rightarrow> pyval list" where
  "topology_list topo key =
     (case py_or (vget topo key (PList [])) (PList []) of PList xs \<Rightarrow> xs | _ \<Rightarrow> [])"

fun collect_ids :: "(pyval \<Rightarrow> string) \<Rightarrow> string list \<Rightarrow> pyval list \<Rightarrow> string list" where
  "collect_ids rp acc [] = acc"
| "collect_ids rp acc (c # cs) =
     (let normalized = strip (py_str rp (py_or c (PStr [])))
      in if normalized \<noteq> [] \<and> normalized \<notin> set acc then collect_ids rp (acc @ [normalized]) cs
         else collect_ids rp acc cs)"

definition is_channel_capability :: "string \<Rightarrow> bool" where
  "is_channel_capability c \<longleftrightarrow> starts_with c ''channel.''"

definition missing_channel_permissions :: "policy_request \<Rightarrow> string list" where
  "missing_channel_permissions q =
     sort (remdups (filter (\<lambda>c. is_channel_capability c \<and> c \<notin> set (pr_permissions q))
       (pr_requested_capabilities q)))"

section \<open>Runtime constraints\<close>

definition build_runtime_constraints :: "runtime_level \<Rightarrow> (string, pyval) pydict" where
  "build_runtime_constraints lv = (case lv of
     FULL \<Rightarrow>
       [(''streaming_enabled'', PBool True), (''max_response_length'', PInt 100000),
        (''enable_tool_execution'', PBool True), (''allowed_tool_types'', PList [PStr ''all''])]
   | REDUCED \<Rightarrow>
       [(''streaming_enabled'', PBool True), (''max_response_length'', PInt 5000),
        (''enable_tool_execution'', PBool True),
        (''allowed_tool_types'',
          PList [PStr ''basic_search'', PStr ''information_retrieval'', PStr ''text_analysis''])]
   | SAFE \<Rightarrow>
       [(''streaming_enabled'', PBool False), (''max_response_length'', PInt 2000),
        (''enable_tool_execution'', PBool True),
        (''allowed_tool_types'', PList [PStr ''basic_search'', PStr ''information_retrieval''])]
   | EMERGENCY \<Rightarrow>
       [(''streaming_enabled'', PBool False), (''max_response_length'', PInt 500),
        (''enable_tool_execution'', PBool False), (''allowed_tool_types'', PList [])])"

text \<open>The constraints of an allowed decision, from the level table updated with the request.\<close>

definition granted_constraints ::
    "(pyval \<Rightarrow> string) \<Rightarrow> policy_request \<Rightarrow> mode_result \<Rightarrow> int \<Rightarrow> (string, pyval) pydict" where
  "granted_constraints rp q modes max_steps =
     (let topo = pr_execution_topology q in
      dupdate (build_runtime_constraints (pr_runtime_level q))
       [(''reasoning_modes'', PList (map PStr (rmp_allowed modes))),
        (''reasoning_required'', PBool (rmp_allowed modes \<noteq> [])),
        (''max_model_calls'', PInt (max 0 (pr_max_model_calls q))),
        (''max_reasoning_steps'', PInt (max 0 max_steps)),
        (''workflow_id'', vget topo ''workflow_id'' PNone),
        (''agent_delegation'', PBool (truthy (vget topo ''agent_delegation'' (PBool False)))),
        (''allowed_plugins'', PList (map PStr (collect_ids rp []
            (opt_str (pr_plugin_id q) # opt_str (pr_extension_id q)
             # topology_list topo ''plugin_candidates'')))),
        (''allowed_tools'', PList (map PStr (collect_ids rp []
            (opt_str (pr_tool_id q) # topology_list topo ''tool_requirements'')))),
        (''allowed_agents'', PList []),
        (''authorized_user_id'', PStr (pr_user_id q)),
        (''authorized_tenant_id'', PStr (pr_tenant_id q)),
        (''authorized_session_id'', opt_str (pr_session_id q)),
        (''correlation_id'', opt_str (pr_correlation_id q))])"

section \<open>Evaluation\<close>

definition decision_id_of :: "policy_request \<Rightarrow> int \<Rightarrow> string" where
  "decision_id_of q now_ms =
     ''policy-'' @ pr_tenant_id q @ ''-'' @ pr_user_id q @ ''-'' @ show_int now_ms"

definition planner_read_allowed :: "role_table \<Rightarrow> policy_request \<Rightarrow> bool option" where
  "planner_read_allowed tbl q =
     (if ''planner.read'' \<in> set (pr_requested_capabilities q)
      then has_permission tbl
             \<lparr>ud_roles = pr_roles q, ud_permissions = pr_permissions q\<rparr> ''planner:read''
      else Some True)"

text \<open>The part of \<^verbatim>\<open>evaluate\<close> after the risk level is known: reasoning modes, risk denials, grant.\<close>

definition evaluate_risk ::
    "(string list \<Rightarrow> string list) \<Rightarrow> (pyval \<Rightarrow> string) \<Rightarrow> policy_decision \<Rightarrow> policy_request \<Rightarrow>
     pyfloat \<Rightarrow> py_exn + policy_decision" where
  "evaluate_risk so rp base q score =
     (let lvl = risk_level_of score in
      rbind (authorize_reasoning_modes (pr_requested_reasoning_modes q)
              (Some (level_value (pr_runtime_level q))) (Some lvl) (pr_max_model_calls q)) (\<lambda>modes.
      if fle (Fin (8/10)) score \<and> ''admin'' \<notin> set (pr_permissions q) then
        Inr (base\<lparr>pd_allowed := False, pd_reason_codes := [INSUFFICIENT_PERMISSION],
              pd_denied_capabilities := [''admin'', ''write'', ''delete''],
              pd_denied_reasoning_modes := rmp_requested modes,
              pd_reasoning_denial_reasons := rmp_reasons modes,
              pd_requires_human_gate := True, pd_risk_level := Some lvl\<rparr>)
      else if (pr_tool_id q \<notin> {None, Some []}
               \<or> topology_list (pr_execution_topology q) ''tool_requirements'' \<noteq> [])
              \<and> ''admin'' \<notin> set (pr_permissions q) \<and> fle (Fin (1/2)) score then
        Inr (base\<lparr>pd_allowed := False, pd_reason_codes := [TOOL_RISK_DENIED],
              pd_denied_capabilities :=
                so (pr_forbidden_capabilities q @ [''admin'', ''write'', ''delete'']),
              pd_denied_reasoning_modes := rmp_requested modes,
              pd_reasoning_denial_reasons := rmp_reasons modes, pd_risk_level := Some lvl\<rparr>)
      else
        rbind (py_int (py_or (vget (pr_execution_topology q) ''max_steps'' (PInt 10)) (PInt 10)))
          (\<lambda>max_steps.
            Inr (base\<lparr>pd_allowed := True,
                  pd_reason_codes := POLICY_CHECK_PASSED #
                    (if rmp_denied modes \<noteq> [] then [REASONING_MODE_RESTRICTED] else []),
                  pd_allowed_capabilities := pr_requested_capabilities q,
                  pd_denied_capabilities := so (pr_forbidden_capabilities q),
                  pd_allowed_reasoning_modes := rmp_allowed modes,
                  pd_denied_reasoning_modes := rmp_denied modes,
                  pd_reasoning_denial_reasons := rmp_reasons modes,
                  pd_runtime_constraints := granted_constraints rp q modes max_steps,
                  pd_resource_scope := pr_resource_scope q,
                  pd_provider_constraints := pr_provider_constraints q,
                  pd_risk_level := Some lvl\<rparr>))))"

definition evaluate ::
    "(string list \<Rightarrow> string list) \<Rightarrow> (pyval \<Rightarrow> string) \<Rightarrow> role_table \<Rightarrow> int \<Rightarrow> rat \<Rightarrow>
     policy_request \<Rightarrow> py_exn + policy_decision" where
  "evaluate so rp tbl now_ms now q =
     (let base = decision_defaults (decision_id_of q now_ms) now False in
      if pr_user_id q = [] \<or> pr_tenant_id q = [] then
        Inr (base\<lparr>pd_reason_codes := [MISSING_IDENTITY], pd_denied_capabilities := [''all''],
              pd_denied_reasoning_modes := pr_requested_reasoning_modes q\<rparr>)
      else if missing_channel_permissions q \<noteq> [] then
        Inr (base\<lparr>pd_reason_codes := [INSUFFICIENT_PERMISSION],
              pd_denied_capabilities := missing_channel_permissions q,
              pd_denied_reasoning_modes := pr_requested_reasoning_modes q,
              pd_risk_level := Some ''high''\<rparr>)
      else (case planner_read_allowed tbl q of
        None \<Rightarrow> Inl RecursionError
      | Some False \<Rightarrow>
          Inr (base\<lparr>pd_reason_codes := [INSUFFICIENT_PERMISSION],
                pd_denied_capabilities := [''planner.read''],
                pd_denied_reasoning_modes := pr_requested_reasoning_modes q\<rparr>)
      | Some True \<Rightarrow>
          if \<exists>cap \<in> set (pr_requested_capabilities q). cap \<in> set (pr_forbidden_capabilities q) then
            Inr (base\<lparr>pd_reason_codes := [CAPABILITY_CONFLICT],
                  pd_denied_capabilities := so (pr_forbidden_capabilities q),
                  pd_denied_reasoning_modes := pr_requested_reasoning_modes q\<rparr>)
          else rbind (risk_score_of (pr_risk_signals q)) (evaluate_risk so rp base q)))"

section \<open>From a decision to an execution plan\<close>

definition decision_topology :: "policy_decision \<Rightarrow> execution_topology" where
  "decision_topology d =
     (let rc = pd_runtime_constraints d;
          t1 = (if pd_requires_human_gate d then WORKFLOW else DIRECT);
          t2 = (if truthy (vget rc ''agent_delegation'' PNone) then MULTI_AGENT else t1)
      in if pd_allowed_reasoning_modes d \<noteq> [] then REASONING
         else if truthy (vget rc ''workflow_id'' PNone) then WORKFLOW else t2)"

definition decision_budget :: "policy_decision \<Rightarrow> py_exn + execution_budget" where
  "decision_budget d =
     (let rc = pd_runtime_constraints d; rsc = pd_resource_constraints d in
      rbind (py_int (vget rc ''max_model_calls'' (PInt 10))) (\<lambda>calls.
      rbind (py_int (vget rc ''max_reasoning_steps'' (PInt 10))) (\<lambda>steps.
        Inr (default_budget
          \<lparr>eb_max_duration_ms := (case rsc of Some r \<Rightarrow> rsc_max_wall_time_seconds r * 1000
                                   | None \<Rightarrow> 30000),
           eb_max_model_calls := calls, eb_max_reasoning_steps := steps,
           eb_max_output_tokens := (case rsc of Some r \<Rightarrow> rsc_max_output_size_kb r * 1024
                                     | None \<Rightarrow> 4096)\<rparr>))))"

definition reason_text :: "reasoning_reason \<Rightarrow> string" where
  "reason_text r = (case r of
     RUNTIME_LEVEL_DENIED \<Rightarrow> ''runtime_level_denied''
   | RISK_LEVEL_DENIED \<Rightarrow> ''risk_level_denied''
   | MODEL_CALL_BUDGET_INSUFFICIENT \<Rightarrow> ''model_call_budget_insufficient'')"

definition decision_audit_context :: "policy_decision \<Rightarrow> (string, pyval) pydict" where
  "decision_audit_context d =
     [(''decision_id'', PStr (pd_decision_id d)), (''policy_version'', PStr (pd_policy_version d)),
      (''evaluated_at'', PFloat (Fin (pd_evaluated_at d))),
      (''risk_level'', opt_str (pd_risk_level d)),
      (''correlation_id'', vget (pd_runtime_constraints d) ''correlation_id'' PNone),
      (''allowed_reasoning_modes'', PList (map PStr (pd_allowed_reasoning_modes d))),
      (''denied_reasoning_modes'', PList (map PStr (pd_denied_reasoning_modes d))),
      (''reasoning_denial_reasons'', PDict (map (\<lambda>(m, rs).
          (m, PList (map (\<lambda>r. PStr (reason_text r)) rs))) (pd_reasoning_denial_reasons d)))]"

definition to_authorized_plan ::
    "(pyval \<Rightarrow> string) \<Rightarrow> policy_decision \<Rightarrow> py_exn + authorized_plan" where
  "to_authorized_plan rp d =
     (let rc = pd_runtime_constraints d in
      rbind (py_list (py_or (vget rc ''allowed_tools'' PNone) (PList []))) (\<lambda>tools.
      rbind (py_list (py_or (vget rc ''allowed_plugins'' PNone) (PList []))) (\<lambda>plugins.
      rbind (py_list (py_or (vget rc ''allowed_agents'' PNone) (PList []))) (\<lambda>agents.
      rbind (decision_budget d) (\<lambda>budget.
        Inr (post_init
          \<lparr>ap_execution_id = pd_decision_id d, ap_policy_decision_id = pd_decision_id d,
           ap_authorized_user_id =
             py_str rp (py_or (vget rc ''authorized_user_id'' PNone) (PStr [])),
           ap_authorized_tenant_id =
             py_str rp (py_or (vget rc ''authorized_tenant_id'' PNone) (PStr [])),
           ap_authorized_session_id = vget rc ''authorized_session_id'' PNone,
           ap_topology = decision_topology d,
           ap_allowed_capabilities = pd_allowed_capabilities d,
           ap_allowed_tools = tools, ap_allowed_plugins = plugins, ap_allowed_agents = agents,
           ap_provider_constraints = (case pd_provider_constraints d of None \<Rightarrow> []
             | Some pc \<Rightarrow> [(''eligible_providers'', PList (pc_eligible pc)),
                            (''forbidden_providers'', PList (pc_forbidden pc)),
                            (''local_only'', PBool (pc_local_only pc)),
                            (''external_allowed'', PBool (pc_external_allowed pc))]),
           ap_memory_scope = py_str rp (vget rc ''memory_scope'' (PStr ''session'')),
           ap_resource_scope = (case pd_resource_scope d of None \<Rightarrow> []
             | Some rs \<Rightarrow> [(''allowed_paths'', PList (map PStr (rs_allowed_paths rs))),
                            (''forbidden_paths'', PList (map PStr (rs_forbidden_paths rs))),
                            (''max_file_size_mb'', PInt (rs_max_file_size_mb rs))]),
           ap_budget = budget,
           ap_approval_requirements = (if pd_requires_human_gate d then [''human_gate''] else []),
           ap_reasoning_modes = pd_allowed_reasoning_modes d,
           ap_workflow_id = vget rc ''workflow_id'' PNone,
           ap_agent_topology = vget rc ''agent_topology'' PNone,
           ap_degraded_allowed = truthy (vget rc ''degraded_allowed'' (PBool True)),
           ap_degradation_state = (if pd_allowed d then None else Some
             \<lparr>ds_degraded = True,
              ds_reason_code = (case pd_reason_codes d of [] \<Rightarrow> None
                                | c # _ \<Rightarrow> Some (reason_code_value c)),
              ds_level = lower (case pd_risk_level d of None \<Rightarrow> ''none''
                                | Some s \<Rightarrow> if s = [] then ''none'' else s)\<rparr>),
           ap_audit_context = decision_audit_context d\<rparr>))))))"

section \<open>Checks during a run\<close>

record check_result =
  cr_allowed :: bool
  cr_reason :: string
  cr_severity :: string

definition check_ok :: "string \<Rightarrow> check_result" where
  "check_ok reason = \<lparr>cr_allowed = True, cr_reason = reason, cr_severity = ''info''\<rparr>"

definition check_no :: "string \<Rightarrow> string \<Rightarrow> check_result" where
  "check_no reason severity = \<lparr>cr_allowed = False, cr_reason = reason, cr_severity = severity\<rparr>"

record policy_config =
  cfg_default_level :: runtime_level
  cfg_enable_degraded_mode :: bool
  cfg_enable_routing_restrictions :: bool
  cfg_enable_execution_constraints :: bool
  cfg_enable_safety_overrides :: bool

text \<open>
  The graph state as the checks read it: the value under \<^verbatim>\<open>runtime_level\<close> if present, the value
  under \<^verbatim>\<open>runtime_constraints\<close> if present, the time stamp, and the provider constraints, which
  are either already an object or any other value.
\<close>

datatype raw_provider = RawObject provider_constraints | RawValue pyval

record policy_state =
  ps_runtime_level :: "pyval option"
  ps_runtime_constraints :: "pyval option"
  ps_timestamp :: pyval
  ps_provider_constraints :: raw_provider

definition get_runtime_level :: "policy_config \<Rightarrow> policy_state \<Rightarrow> runtime_level" where
  "get_runtime_level cfg st = (case ps_runtime_level st of
     None \<Rightarrow> cfg_default_level cfg
   | Some v \<Rightarrow> (case find (\<lambda>l. v = PStr (level_value l)) [FULL, REDUCED, SAFE, EMERGENCY] of
        Some l \<Rightarrow> l | None \<Rightarrow> cfg_default_level cfg))"

definition resolve_provider_constraints :: "policy_state \<Rightarrow> py_exn + provider_constraints" where
  "resolve_provider_constraints st = (case ps_provider_constraints st of
     RawObject pc \<Rightarrow> Inr pc
   | RawValue (PDict raw) \<Rightarrow>
       rbind (py_list (py_or (vget raw ''emergency_allowed_providers'' PNone)
                (py_or (vget raw ''safe_trusted_providers'' PNone)
                  (py_or (vget raw ''eligible_providers'' PNone) (PList []))))) (\<lambda>eligible.
       rbind (py_list (vget raw ''forbidden_providers'' (PList []))) (\<lambda>forbidden.
       rbind (py_list (py_or (vget raw ''capability_restrictions'' PNone)
                (py_or (vget raw ''allowed_capabilities'' PNone) (PList [])))) (\<lambda>caps.
         Inr \<lparr>pc_eligible = eligible, pc_forbidden = forbidden,
              pc_local_only = truthy (vget raw ''local_only'' (PBool False)),
              pc_external_allowed = truthy (vget raw ''external_allowed'' (PBool True)),
              pc_capability_restrictions = caps,
              pc_resource_constraints =
                (case vget raw ''resource_constraints'' (PDict []) of PDict d \<Rightarrow> d | _ \<Rightarrow> [])\<rparr>)))
   | RawValue _ \<Rightarrow> Inr default_provider_constraints)"

definition quoted :: "string option \<Rightarrow> string" where
  "quoted s = sq (case s of None \<Rightarrow> ''None'' | Some t \<Rightarrow> t)"

definition trusted_providers :: "provider_constraints \<Rightarrow> pyval list" where
  "trusted_providers pc = (if pc_eligible pc \<noteq> [] then pc_eligible pc else [PStr ''local''])"

definition check_routing_policy ::
    "policy_config \<Rightarrow> policy_state \<Rightarrow> string option \<Rightarrow> string option \<Rightarrow> py_exn + check_result" where
  "check_routing_policy cfg st provider model =
     (if \<not> cfg_enable_routing_restrictions cfg then Inr (check_ok ''Routing restrictions disabled'')
      else rbind (resolve_provider_constraints st) (\<lambda>pc.
        (case get_runtime_level cfg st of
           EMERGENCY \<Rightarrow>
             Inr (if opt_str provider \<notin> set (trusted_providers pc)
                  then check_no (''Provider '' @ quoted provider @ '' not allowed in EMERGENCY mode'') ''critical''
                  else check_ok ''Routing policy check passed'')
         | SAFE \<Rightarrow>
             Inr (if opt_str provider \<notin> set (trusted_providers pc)
                  then check_no (''Provider '' @ quoted provider @ '' not trusted in SAFE mode'') ''high''
                  else check_ok ''Routing policy check passed'')
         | REDUCED \<Rightarrow>
             (case model of
                None \<Rightarrow> Inr (check_ok ''Routing policy check passed'')
              | Some m \<Rightarrow>
                  if m = [] then Inr (check_ok ''Routing policy check passed'')
                  else rbind (py_in m (vget (pc_resource_constraints pc)
                                ''reduced_complex_models'' (PList []))) (\<lambda>complex.
                    Inr (if complex
                         then check_no ''Complex models not allowed in REDUCED mode'' ''medium''
                         else check_ok ''Routing policy check passed'')))
         | FULL \<Rightarrow> Inr (check_ok ''Routing policy check passed''))))"

definition capability_restrictions :: "runtime_level \<Rightarrow> string list" where
  "capability_restrictions lv = (case lv of
     FULL \<Rightarrow> []
   | REDUCED \<Rightarrow> [''admin'', ''delete'', ''write'']
   | SAFE \<Rightarrow> [''admin'', ''delete'', ''write'', ''network_access'']
   | EMERGENCY \<Rightarrow> [''admin'', ''delete'', ''write'', ''network_access'', ''code_execution''])"

definition tool_restrictions :: "runtime_level \<Rightarrow> string list" where
  "tool_restrictions lv = (case lv of
     FULL \<Rightarrow> []
   | REDUCED \<Rightarrow> [''file_access'', ''system_command'']
   | SAFE \<Rightarrow> [''file_access'', ''system_command'', ''code_execution'']
   | EMERGENCY \<Rightarrow> [''file_access'', ''system_command'', ''code_execution'', ''network_access''])"

text \<open>\<^verbatim>\<open>state.get("runtime_constraints", {}).get(key, [])\<close>: a value that is no dict has no \<^verbatim>\<open>get\<close>.\<close>

definition state_restrictions :: "policy_state \<Rightarrow> string \<Rightarrow> py_exn + pyval" where
  "state_restrictions st key = (case ps_runtime_constraints st of
     None \<Rightarrow> Inr (PList [])
   | Some (PDict d) \<Rightarrow> Inr (vget d key (PList []))
   | Some _ \<Rightarrow> Inl AttributeError)"

fun keep_absent :: "pyval \<Rightarrow> string list \<Rightarrow> py_exn + string list" where
  "keep_absent v [] = Inr []"
| "keep_absent v (x # xs) =
     rbind (py_in x v) (\<lambda>present. rbind (keep_absent v xs) (\<lambda>rest.
       Inr (if present then rest else x # rest)))"

definition resolve_restricted_capabilities ::
    "runtime_level \<Rightarrow> policy_state \<Rightarrow> py_exn + string list" where
  "resolve_restricted_capabilities lv st =
     rbind (state_restrictions st ''allowed_capabilities'') (\<lambda>sr.
       if truthy sr then keep_absent sr (capability_restrictions lv)
       else Inr (capability_restrictions lv))"

definition tool_types :: "string list" where
  "tool_types = [''file_access'', ''system_command'', ''code_execution'', ''network_access'', ''web_search'']"

definition combined_tool_restrictions :: "runtime_level \<Rightarrow> policy_state \<Rightarrow> py_exn + string list" where
  "combined_tool_restrictions lv st =
     rbind (state_restrictions st ''allowed_tool_types'') (\<lambda>sr.
       if truthy sr then
         rbind (py_in ''all'' sr) (\<lambda>all.
           if all then Inr (tool_restrictions lv)
           else rbind (keep_absent sr tool_types) (\<lambda>more. Inr (tool_restrictions lv @ more)))
       else Inr (tool_restrictions lv))"

definition check_tool_availability ::
    "string list \<Rightarrow> runtime_level \<Rightarrow> policy_state \<Rightarrow> py_exn + check_result" where
  "check_tool_availability tools lv st =
     rbind (combined_tool_restrictions lv st) (\<lambda>restricted.
       Inr (case find (\<lambda>t. t \<in> set restricted) tools of
              Some t \<Rightarrow> check_no (''Tool '' @ sq t @ '' not available in '' @ level_value lv @ '' mode'') ''high''
            | None \<Rightarrow> check_ok ''Tool availability check passed''))"

record exec_request =
  er_requested :: "string list"
  er_forbidden :: "string list"
  er_tool_requirements :: "string list"
  er_tools_required :: "string list"

definition check_execution_policy ::
    "policy_config \<Rightarrow> policy_state \<Rightarrow> exec_request \<Rightarrow> py_exn + check_result" where
  "check_execution_policy cfg st x =
     (if \<not> cfg_enable_execution_constraints cfg then Inr (check_ok ''Execution constraints disabled'')
      else (let lv = get_runtime_level cfg st in
        (case find (\<lambda>c. c \<in> set (er_forbidden x)) (er_requested x) of
           Some c \<Rightarrow> Inr (check_no (''Required capability '' @ sq c @ '' is forbidden'') ''high'')
         | None \<Rightarrow>
             rbind (resolve_restricted_capabilities lv st) (\<lambda>restricted.
               (case find (\<lambda>c. c \<in> set restricted) (er_requested x) of
                  Some c \<Rightarrow> Inr (check_no (''Capability '' @ sq c @ '' not available in '' @ level_value lv @ '' mode'') ''high'')
                | None \<Rightarrow>
                    (let tools = (if er_tool_requirements x \<noteq> [] then er_tool_requirements x
                                  else er_tools_required x)
                     in if tools = [] then Inr (check_ok ''Execution policy check passed'')
                        else rbind (check_tool_availability tools lv st) (\<lambda>r.
                          Inr (if cr_allowed r then check_ok ''Execution policy check passed'' else r))))))))"

definition check_response_policy :: "policy_config \<Rightarrow> policy_state \<Rightarrow> string \<Rightarrow> check_result" where
  "check_response_policy cfg st content =
     (if \<not> cfg_enable_safety_overrides cfg then check_ok ''Safety overrides disabled''
      else if get_runtime_level cfg st = EMERGENCY \<and> length content > 500
      then check_no ''Response too long for emergency mode'' ''critical''
      else check_ok ''Response policy check passed'')"

definition level_transitions :: "runtime_level \<Rightarrow> runtime_level list" where
  "level_transitions lv = (case lv of
     FULL \<Rightarrow> [REDUCED] | REDUCED \<Rightarrow> [SAFE, FULL] | SAFE \<Rightarrow> [EMERGENCY, REDUCED] | EMERGENCY \<Rightarrow> [SAFE])"

definition enforce_runtime_level_transition :: "runtime_level \<Rightarrow> runtime_level \<Rightarrow> check_result" where
  "enforce_runtime_level_transition current target =
     (if target \<notin> set (level_transitions current)
      then check_no (''Cannot transition from '' @ level_value current @ '' to '' @ level_value target) ''critical''
      else check_ok ''Runtime level transition allowed'')"

definition apply_runtime_constraints :: "policy_config \<Rightarrow> policy_state \<Rightarrow> policy_state" where
  "apply_runtime_constraints cfg st =
     (let lv = get_runtime_level cfg st
      in st\<lparr>ps_runtime_constraints := Some (PDict
             (dset ''effective_immediately'' (PBool True)
               (dset ''applied_at'' (ps_timestamp st)
                 (dset ''level'' (PStr (level_value lv)) (build_runtime_constraints lv)))))\<rparr>)"

section \<open>What an evaluation can return\<close>

lemma evaluate_risk_cases:
  assumes "evaluate_risk so rp base q score = Inr d"
  obtains (critical) "fle (Fin (8/10)) score" "''admin'' \<notin> set (pr_permissions q)"
      "pd_allowed d = False" "pd_allowed_capabilities d = pd_allowed_capabilities base"
      "pd_allowed_reasoning_modes d = pd_allowed_reasoning_modes base"
      "pd_runtime_constraints d = pd_runtime_constraints base"
  | (tool) "fle (Fin (1/2)) score" "''admin'' \<notin> set (pr_permissions q)"
      "pd_allowed d = False" "pd_allowed_capabilities d = pd_allowed_capabilities base"
      "pd_allowed_reasoning_modes d = pd_allowed_reasoning_modes base"
      "pd_runtime_constraints d = pd_runtime_constraints base"
  | (granted) modes ms where
      "authorize_reasoning_modes (pr_requested_reasoning_modes q)
         (Some (level_value (pr_runtime_level q))) (Some (risk_level_of score))
         (pr_max_model_calls q) = Inr modes"
      "\<not> (fle (Fin (8/10)) score \<and> ''admin'' \<notin> set (pr_permissions q))"
      "\<not> ((pr_tool_id q \<notin> {None, Some []}
           \<or> topology_list (pr_execution_topology q) ''tool_requirements'' \<noteq> [])
          \<and> ''admin'' \<notin> set (pr_permissions q) \<and> fle (Fin (1/2)) score)"
      "pd_allowed d" "pd_allowed_capabilities d = pr_requested_capabilities q"
      "pd_allowed_reasoning_modes d = rmp_allowed modes"
      "pd_runtime_constraints d = granted_constraints rp q modes ms"
      "pd_decision_id d = pd_decision_id base"
      "pd_risk_level d = Some (risk_level_of score)"
proof -
  from assms obtain modes where
    m: "authorize_reasoning_modes (pr_requested_reasoning_modes q)
         (Some (level_value (pr_runtime_level q))) (Some (risk_level_of score))
         (pr_max_model_calls q) = Inr modes"
    by (auto simp: evaluate_risk_def Let_def rbind_eq_Inr)
  consider (1) "fle (Fin (8/10)) score \<and> ''admin'' \<notin> set (pr_permissions q)"
    | (2) "\<not> (fle (Fin (8/10)) score \<and> ''admin'' \<notin> set (pr_permissions q))"
      "(pr_tool_id q \<notin> {None, Some []}
           \<or> topology_list (pr_execution_topology q) ''tool_requirements'' \<noteq> [])
          \<and> ''admin'' \<notin> set (pr_permissions q) \<and> fle (Fin (1/2)) score"
    | (3) "\<not> (fle (Fin (8/10)) score \<and> ''admin'' \<notin> set (pr_permissions q))"
      "\<not> ((pr_tool_id q \<notin> {None, Some []}
           \<or> topology_list (pr_execution_topology q) ''tool_requirements'' \<noteq> [])
          \<and> ''admin'' \<notin> set (pr_permissions q) \<and> fle (Fin (1/2)) score)"
    by blast
  then show thesis
  proof cases
    case 1
    with assms m show thesis
      by (intro critical) (auto simp: evaluate_risk_def Let_def)
  next
    case 2
    note d = assms [unfolded evaluate_risk_def Let_def m rbind_Inr if_not_P [OF 2(1)] if_P [OF 2(2)]]
    show thesis using d 2 by (intro tool) auto
  next
    case 3
    note d = assms [unfolded evaluate_risk_def Let_def m rbind_Inr if_not_P [OF 3(1)]
        if_not_P [OF 3(2)] rbind_eq_Inr]
    then obtain ms where
      "py_int (py_or (vget (pr_execution_topology q) ''max_steps'' (PInt 10)) (PInt 10)) = Inr ms"
      by blast
    with d show thesis by (intro granted [OF m 3(1) 3(2)]) auto
  qed
qed

definition admissible :: "role_table \<Rightarrow> policy_request \<Rightarrow> bool" where
  "admissible tbl q \<longleftrightarrow> pr_user_id q \<noteq> [] \<and> pr_tenant_id q \<noteq> []
     \<and> (\<forall>c \<in> set (pr_requested_capabilities q).
           is_channel_capability c \<longrightarrow> c \<in> set (pr_permissions q))
     \<and> set (pr_requested_capabilities q) \<inter> set (pr_forbidden_capabilities q) = {}
     \<and> (''planner.read'' \<in> set (pr_requested_capabilities q) \<longrightarrow>
          has_permission tbl \<lparr>ud_roles = pr_roles q, ud_permissions = pr_permissions q\<rparr>
            ''planner:read'' = Some True)"

lemma missing_channel_Nil:
  "missing_channel_permissions q = [] \<longleftrightarrow>
     (\<forall>c \<in> set (pr_requested_capabilities q).
        is_channel_capability c \<longrightarrow> c \<in> set (pr_permissions q))"
proof -
  have "missing_channel_permissions q = [] \<longleftrightarrow> set (missing_channel_permissions q) = {}"
    by (simp only: set_empty)
  then show ?thesis by (auto simp: missing_channel_permissions_def)
qed

lemma evaluate_cases:
  assumes "evaluate so rp tbl now_ms now q = Inr d"
  obtains (denied) "pd_allowed d = False" "pd_allowed_capabilities d = []"
      "pd_allowed_reasoning_modes d = []" "pd_runtime_constraints d = []"
      "\<not> admissible tbl q"
  | (risk) score where "admissible tbl q" "risk_score_of (pr_risk_signals q) = Inr score"
      "evaluate_risk so rp (decision_defaults (decision_id_of q now_ms) now False) q score = Inr d"
proof -
  let ?pl = "planner_read_allowed tbl q"
  let ?conf = "\<exists>cap \<in> set (pr_requested_capabilities q). cap \<in> set (pr_forbidden_capabilities q)"
  consider (id) "pr_user_id q = [] \<or> pr_tenant_id q = []"
    | (ch) "pr_user_id q \<noteq> []" "pr_tenant_id q \<noteq> []" "missing_channel_permissions q \<noteq> []"
    | (pl) "pr_user_id q \<noteq> []" "pr_tenant_id q \<noteq> []" "missing_channel_permissions q = []" "?pl = Some False"
    | (cf) "pr_user_id q \<noteq> []" "pr_tenant_id q \<noteq> []" "missing_channel_permissions q = []" "?pl = Some True" "?conf"
    | (ok) "pr_user_id q \<noteq> []" "pr_tenant_id q \<noteq> []" "missing_channel_permissions q = []" "?pl = Some True" "\<not> ?conf"
    | (none) "pr_user_id q \<noteq> []" "pr_tenant_id q \<noteq> []" "missing_channel_permissions q = []" "?pl = None"
    by (metis (full_types) not_Some_eq)
  then show thesis
  proof cases
    case id
    with assms show thesis
      by (intro denied) (auto simp: evaluate_def Let_def decision_defaults_def admissible_def)
  next
    case ch
    with assms show thesis
      by (intro denied) (auto simp: evaluate_def Let_def decision_defaults_def admissible_def
          missing_channel_Nil)
  next
    case pl
    with assms show thesis
      by (intro denied) (auto simp: evaluate_def Let_def decision_defaults_def admissible_def
          planner_read_allowed_def split: if_splits)
  next
    case cf
    with assms show thesis
      by (intro denied) (auto simp: evaluate_def Let_def decision_defaults_def admissible_def)
  next
    case ok
    moreover from this have "admissible tbl q"
      by (auto simp: admissible_def missing_channel_Nil planner_read_allowed_def split: if_splits)
    moreover from ok assms obtain score where "risk_score_of (pr_risk_signals q) = Inr score"
      "evaluate_risk so rp (decision_defaults (decision_id_of q now_ms) now False) q score = Inr d"
      by (auto simp: evaluate_def Let_def rbind_eq_Inr)
    ultimately show thesis by (intro risk)
  next
    case none
    with assms show thesis by (simp add: evaluate_def Let_def)
  qed
qed

section \<open>The constraints of a granted decision\<close>

lemma granted_lookup:
  "dget (granted_constraints rp q modes ms) ''allowed_tools'' = Some (PList (map PStr (collect_ids rp []
      (opt_str (pr_tool_id q) # topology_list (pr_execution_topology q) ''tool_requirements''))))"
  "dget (granted_constraints rp q modes ms) ''allowed_plugins'' = Some (PList (map PStr (collect_ids rp []
      (opt_str (pr_plugin_id q) # opt_str (pr_extension_id q)
        # topology_list (pr_execution_topology q) ''plugin_candidates''))))"
  "dget (granted_constraints rp q modes ms) ''allowed_agents'' = Some (PList [])"
  "dget (granted_constraints rp q modes ms) ''authorized_user_id'' = Some (PStr (pr_user_id q))"
  "dget (granted_constraints rp q modes ms) ''authorized_tenant_id'' = Some (PStr (pr_tenant_id q))"
  "dget (granted_constraints rp q modes ms) ''authorized_session_id'' = Some (opt_str (pr_session_id q))"
  "dget (granted_constraints rp q modes ms) ''max_model_calls'' = Some (PInt (max 0 (pr_max_model_calls q)))"
  "dget (granted_constraints rp q modes ms) ''max_reasoning_steps'' = Some (PInt (max 0 ms))"
  by (simp_all add: granted_constraints_def Let_def dget_dupdate)

lemma py_list_or: "py_list (py_or (PList xs) (PList [])) = Inr xs"
  by (cases xs) (simp_all add: py_or_def)

text \<open>The part of a plan the execution side checks, for a granted decision.\<close>

lemma granted_plan:
  assumes "pd_runtime_constraints d = granted_constraints rp q modes ms"
    and "pr_user_id q \<noteq> []" "pr_tenant_id q \<noteq> []"
  obtains p where "to_authorized_plan rp d = Inr p"
    "ap_authorized_user_id p = pr_user_id q" "ap_authorized_tenant_id p = pr_tenant_id q"
    "ap_authorized_session_id p = opt_str (pr_session_id q)"
    "ap_policy_decision_id p = pd_decision_id d"
    "ap_allowed_capabilities p = pd_allowed_capabilities d"
    "ap_allowed_tools p = map PStr (collect_ids rp []
      (opt_str (pr_tool_id q) # topology_list (pr_execution_topology q) ''tool_requirements''))"
    "ap_allowed_agents p = []"
    "eb_max_model_calls (ap_budget p) = max 0 (pr_max_model_calls q)"
    "eb_max_reasoning_steps (ap_budget p) = max 0 ms"
  using assms
  by (simp add: to_authorized_plan_def Let_def vget_def granted_lookup py_list_or decision_budget_def
      post_init_def) (simp add: py_or_def)

text \<open>A plan without runtime constraints carries nothing and matches nobody.\<close>

lemma empty_plan:
  assumes "pd_runtime_constraints d = []"
  obtains p where "to_authorized_plan rp d = Inr p"
    "ap_authorized_user_id p = []" "ap_allowed_tools p = []" "ap_allowed_plugins p = []"
    "ap_allowed_agents p = []" "ap_allowed_capabilities p = pd_allowed_capabilities d"
  using assms
  by (simp add: to_authorized_plan_def Let_def vget_def decision_budget_def post_init_def py_or_def)

section \<open>Levels and the execution check\<close>

definition policy_level_rank :: "runtime_level \<Rightarrow> nat" where
  "policy_level_rank lv = (case lv of EMERGENCY \<Rightarrow> 0 | SAFE \<Rightarrow> 1 | REDUCED \<Rightarrow> 2 | FULL \<Rightarrow> 3)"

inductive level_reach :: "runtime_level \<Rightarrow> runtime_level \<Rightarrow> bool" where
  here: "level_reach a a"
| move: "level_reach a b \<Longrightarrow> cr_allowed (enforce_runtime_level_transition b c) \<Longrightarrow> level_reach a c"

lemma level_reach_trans: "level_reach b c \<Longrightarrow> level_reach a b \<Longrightarrow> level_reach a c"
  by (induction rule: level_reach.induct) (auto intro: level_reach.intros)

lemma level_step: "b \<in> set (level_transitions a) \<Longrightarrow> level_reach a b"
  by (rule move [OF here]) (simp add: enforce_runtime_level_transition_def check_ok_def)

lemma level_up: "level_reach EMERGENCY lv"
proof -
  have a: "level_reach EMERGENCY SAFE" "level_reach SAFE REDUCED" "level_reach REDUCED FULL"
    by (simp_all add: level_step level_transitions_def)
  show ?thesis using a level_reach_trans here by (cases lv) blast+
qed

lemma level_down: "level_reach lv EMERGENCY"
proof -
  have a: "level_reach FULL REDUCED" "level_reach REDUCED SAFE" "level_reach SAFE EMERGENCY"
    by (simp_all add: level_step level_transitions_def)
  show ?thesis using a level_reach_trans here by (cases lv) blast+
qed

lemma level_of_state [simp]:
  "get_runtime_level cfg (st\<lparr>ps_runtime_level := Some (PStr (level_value lv))\<rparr>) = lv"
  by (cases lv) (simp_all add: get_runtime_level_def)

lemma state_restrictions_level [simp]:
  "state_restrictions (st\<lparr>ps_runtime_level := l\<rparr>) key = state_restrictions st key"
  by (simp add: state_restrictions_def)

lemma keep_absent_iff:
  "keep_absent v xs = Inr r \<longleftrightarrow>
     (\<forall>x \<in> set xs. \<not> raises (py_in x v)) \<and> r = filter (\<lambda>x. py_in x v = Inr False) xs"
proof (induction xs arbitrary: r)
  case (Cons x xs)
  show ?case
    by (cases "py_in x v") (auto simp: rbind_eq_Inr raises_def Cons.IH)
qed auto

lemma keep_absent_mono:
  assumes "set xs \<subseteq> set ys" "keep_absent v ys = Inr r"
  obtains r' where "keep_absent v xs = Inr r'" "set r' \<subseteq> set r"
proof -
  from assms have "keep_absent v xs = Inr (filter (\<lambda>x. py_in x v = Inr False) xs)"
    by (auto simp: keep_absent_iff)
  moreover from assms have "set (filter (\<lambda>x. py_in x v = Inr False) xs) \<subseteq> set r"
    by (auto simp: keep_absent_iff)
  ultimately show thesis by (rule that)
qed

lemma restrictions_mono:
  assumes "policy_level_rank lv \<le> policy_level_rank lv'"
  shows "set (capability_restrictions lv') \<subseteq> set (capability_restrictions lv)"
    and "set (tool_restrictions lv') \<subseteq> set (tool_restrictions lv)"
  using assms by (cases lv; cases lv'; simp add: policy_level_rank_def capability_restrictions_def
      tool_restrictions_def; blast)+

lemma resolve_capabilities_mono:
  assumes "policy_level_rank lv \<le> policy_level_rank lv'"
    and "resolve_restricted_capabilities lv st = Inr r"
  obtains r' where "resolve_restricted_capabilities lv' st = Inr r'" "set r' \<subseteq> set r"
proof -
  from assms(2) obtain sr where sr: "state_restrictions st ''allowed_capabilities'' = Inr sr"
    by (auto simp: resolve_restricted_capabilities_def rbind_eq_Inr)
  show thesis
  proof (cases "truthy sr")
    case True
    with assms(2) sr have "keep_absent sr (capability_restrictions lv) = Inr r"
      by (simp add: resolve_restricted_capabilities_def)
    from keep_absent_mono [OF restrictions_mono(1) [OF assms(1)] this] True sr that
    show thesis by (auto simp: resolve_restricted_capabilities_def)
  next
    case False
    with assms(2) sr restrictions_mono(1) [OF assms(1)] show thesis
      by (intro that [of "capability_restrictions lv'"])
        (auto simp: resolve_restricted_capabilities_def)
  qed
qed

lemma combined_tools_mono:
  assumes "policy_level_rank lv \<le> policy_level_rank lv'"
    and "combined_tool_restrictions lv st = Inr r"
  obtains r' where "combined_tool_restrictions lv' st = Inr r'" "set r' \<subseteq> set r"
  using assms restrictions_mono(2) [OF assms(1)]
  by (auto simp: combined_tool_restrictions_def rbind_eq_Inr split: if_splits)
    (metis Un_iff set_append subset_iff)+

lemma check_tools_mono:
  assumes "policy_level_rank lv \<le> policy_level_rank lv'"
    and "check_tool_availability tools lv st = Inr r" "cr_allowed r"
  shows "\<exists>r'. check_tool_availability tools lv' st = Inr r' \<and> cr_allowed r'"
proof -
  from assms(2) obtain c where c: "combined_tool_restrictions lv st = Inr c"
    by (auto simp: check_tool_availability_def rbind_eq_Inr)
  from combined_tools_mono [OF assms(1) c] obtain c' where c':
    "combined_tool_restrictions lv' st = Inr c'" "set c' \<subseteq> set c" .
  from assms(2,3) c have "\<forall>t \<in> set tools. t \<notin> set c"
    by (auto simp: check_tool_availability_def check_no_def find_None_iff split: option.splits)
  with c'(2) have "find (\<lambda>t. t \<in> set c') tools = None" by (auto simp: find_None_iff)
  with c'(1) show ?thesis by (simp add: check_tool_availability_def check_ok_def)
qed

section \<open>Concrete requests\<close>

text \<open>
  A chat request over a channel with a moderate risk score, evaluated with the default role
  table: allowed when the user holds the channel permission, refused when not.
\<close>

definition sample_request :: "string list \<Rightarrow> policy_request" where
  "sample_request perms =
     \<lparr>pr_user_id = ''u1'', pr_tenant_id = ''t1'', pr_session_id = Some ''s1'',
      pr_correlation_id = None, pr_roles = [''user''], pr_permissions = perms,
      pr_action = ''chat'', pr_resource = None,
      pr_requested_capabilities = [''channel.telegram'', ''chat''],
      pr_forbidden_capabilities = [], pr_requested_reasoning_modes = [''causal''],
      pr_max_model_calls = 4,
      pr_risk_signals = [(''score'', PFloat (Fin (3/10))),
                         (''categories'', PList [PStr ''destructive_action''])],
      pr_runtime_level = FULL, pr_extension_id = None, pr_plugin_id = None, pr_tool_id = None,
      pr_provider_constraints = None, pr_environment = ''production'',
      pr_resource_scope = None, pr_execution_topology = [(''max_steps'', PInt 6)]\<rparr>"

definition sample_evaluation :: "string list \<Rightarrow> py_exn + policy_decision" where
  "sample_evaluation perms =
     evaluate id (\<lambda>_. []) (build_role_permissions empty_config) 0 0 (sample_request perms)"

definition outcome :: "py_exn + policy_decision \<Rightarrow> bool option" where
  "outcome r = (case r of Inl _ \<Rightarrow> None | Inr d \<Rightarrow> Some (pd_allowed d))"

lemma sample_allowed: "outcome (sample_evaluation [''channel.telegram'']) = Some True"
  by code_simp

lemma sample_denied: "outcome (sample_evaluation []) = Some False"
  by code_simp

lemma outcomeD:
  "outcome (sample_evaluation perms) = Some b \<Longrightarrow>
     \<exists>d. evaluate id (\<lambda>_. []) (build_role_permissions empty_config) 0 0 (sample_request perms) = Inr d
       \<and> pd_allowed d = b"
  by (auto simp: outcome_def sample_evaluation_def split: sum.splits)

definition full_config :: policy_config where
  "full_config = \<lparr>cfg_default_level = FULL, cfg_enable_degraded_mode = True,
     cfg_enable_routing_restrictions = True, cfg_enable_execution_constraints = True,
     cfg_enable_safety_overrides = True\<rparr>"

definition sample_state :: policy_state where
  "sample_state = \<lparr>ps_runtime_level = None,
     ps_runtime_constraints = Some (PDict [(''allowed_tool_types'',
       PList [PStr ''web_search'', PStr ''file_access'', PStr ''code_execution'', PStr ''network_access'',
              PStr ''system_command''])]),
     ps_timestamp = PNone, ps_provider_constraints = RawValue PNone\<rparr>"

definition sample_exec :: exec_request where
  "sample_exec = \<lparr>er_requested = [''read''], er_forbidden = [''admin''],
     er_tool_requirements = [''web_search''], er_tools_required = []\<rparr>"

section \<open>Properties\<close>

text \<open>
  C5: a decision that allows a request was reached only for an identified subject, holding
  every channel permission it asked for and the planner permission when it asked for it,
  with no requested capability forbidden; a request at or above the critical score, or a
  request at or above the high score that names a tool or whose execution topology requires
  tools, is allowed to administrators only; and the granted capabilities are the requested ones.
\<close>

theorem allowed_implies_admissible:
  assumes "evaluate so rp tbl now_ms now q = Inr d" and "pd_allowed d"
  shows "admissible tbl q
    \<and> (\<exists>score. risk_score_of (pr_risk_signals q) = Inr score
        \<and> (fle (Fin (8/10)) score \<longrightarrow> ''admin'' \<in> set (pr_permissions q))
        \<and> (pr_tool_id q \<notin> {None, Some []}
              \<or> topology_list (pr_execution_topology q) ''tool_requirements'' \<noteq> []
             \<longrightarrow> fle (Fin (1/2)) score \<longrightarrow>
             ''admin'' \<in> set (pr_permissions q)))
    \<and> pd_allowed_capabilities d = pr_requested_capabilities q"
  using assms(1)
proof (cases rule: evaluate_cases)
  case denied
  with assms(2) show ?thesis by simp
next
  case (risk score)
  from risk(3) show ?thesis
  proof (cases rule: evaluate_risk_cases)
    case critical
    with assms(2) show ?thesis by simp
  next
    case tool
    with assms(2) show ?thesis by simp
  next
    case granted
    with risk(1,2) show ?thesis by blast
  qed
qed

theorem allowed_implies_admissible_witness:
  "admissible (build_role_permissions empty_config) (sample_request [''channel.telegram''])"
  using outcomeD [OF sample_allowed] allowed_implies_admissible by blast


text \<open>
  a refused request yields nothing to run with: no capability, no reasoning mode and no
  constraint is granted, the plan built from the refusal exists, has no tool, plugin or agent,
  and is accepted for no subject at all, whoever presents it.
\<close>

theorem denial_fails_closed:
  assumes "evaluate so rp tbl now_ms now q = Inr d" and "\<not> pd_allowed d"
  shows "pd_allowed_capabilities d = [] \<and> pd_allowed_reasoning_modes d = []
    \<and> (\<exists>p. to_authorized_plan rp d = Inr p \<and> ap_allowed_capabilities p = []
         \<and> ap_allowed_tools p = [] \<and> ap_allowed_plugins p = [] \<and> ap_allowed_agents p = []
         \<and> (\<forall>u t s did. \<not> matches_execution_scope p u t s did))"
proof -
  have d: "pd_allowed_capabilities d = [] \<and> pd_allowed_reasoning_modes d = []
      \<and> pd_runtime_constraints d = []"
    using assms(1)
  proof (cases rule: evaluate_cases)
    case denied
    then show ?thesis by simp
  next
    case (risk score)
    from risk(3) show ?thesis
      by (cases rule: evaluate_risk_cases) (use assms(2) in \<open>simp_all add: decision_defaults_def\<close>)
  qed
  then obtain p where "to_authorized_plan rp d = Inr p"
    "ap_authorized_user_id p = []" "ap_allowed_tools p = []" "ap_allowed_plugins p = []"
    "ap_allowed_agents p = []" "ap_allowed_capabilities p = pd_allowed_capabilities d"
    using empty_plan [of d rp] by blast
  with d show ?thesis by (simp add: matches_execution_scope_def)
qed

theorem denial_fails_closed_witness:
  "\<exists>d p. sample_evaluation [] = Inr d \<and> to_authorized_plan (\<lambda>_. []) d = Inr p
     \<and> \<not> matches_execution_scope p ''u1'' ''t1'' (Some ''s1'') None"
  using outcomeD [OF sample_denied] denial_fails_closed unfolding sample_evaluation_def by blast


text \<open>
  C6: an allowed request becomes a plan that is accepted for the requesting user and tenant,
  in the requesting session when there was one, and for nobody else; its budget is the one
  the request asked for, never negative, and it names no agent.
\<close>

theorem allowed_plan_bound_to_requester:
  assumes "evaluate so rp tbl now_ms now q = Inr d" and "pd_allowed d"
  shows "\<exists>p. to_authorized_plan rp d = Inr p
    \<and> (\<forall>u t s. matches_execution_scope p u t s None \<longleftrightarrow>
          u = pr_user_id q \<and> t = pr_tenant_id q \<and> (pr_session_id q = None \<or> s = pr_session_id q))
    \<and> ap_allowed_capabilities p = pr_requested_capabilities q
    \<and> eb_max_model_calls (ap_budget p) = max 0 (pr_max_model_calls q)
    \<and> ap_allowed_agents p = []"
  using assms(1)
proof (cases rule: evaluate_cases)
  case denied
  with assms(2) show ?thesis by simp
next
  case (risk score)
  from risk(1) have id: "pr_user_id q \<noteq> []" "pr_tenant_id q \<noteq> []"
    by (simp_all add: admissible_def)
  from risk(3) show ?thesis
  proof (cases rule: evaluate_risk_cases)
    case critical
    with assms(2) show ?thesis by simp
  next
    case tool
    with assms(2) show ?thesis by simp
  next
    case (granted modes ms)
    from granted_plan [OF granted(7) id] obtain p where p:
      "to_authorized_plan rp d = Inr p" "ap_authorized_user_id p = pr_user_id q"
      "ap_authorized_tenant_id p = pr_tenant_id q"
      "ap_authorized_session_id p = opt_str (pr_session_id q)"
      "ap_allowed_capabilities p = pd_allowed_capabilities d" "ap_allowed_agents p = []"
      "eb_max_model_calls (ap_budget p) = max 0 (pr_max_model_calls q)" .
    have "matches_execution_scope p u t s None \<longleftrightarrow>
        u = pr_user_id q \<and> t = pr_tenant_id q \<and> (pr_session_id q = None \<or> s = pr_session_id q)" for u t s
      using p(2,3,4) id by (cases "pr_session_id q"; cases s) (auto simp: matches_execution_scope_def)
    with p granted(5) show ?thesis by auto
  qed
qed

theorem allowed_plan_bound_to_requester_witness:
  "\<exists>d p. sample_evaluation [''channel.telegram''] = Inr d \<and> to_authorized_plan (\<lambda>_. []) d = Inr p
     \<and> matches_execution_scope p ''u1'' ''t1'' (Some ''s1'') None
     \<and> \<not> matches_execution_scope p ''u2'' ''t1'' (Some ''s1'') None"
proof -
  obtain d where d: "sample_evaluation [''channel.telegram''] = Inr d" "pd_allowed d"
    using outcomeD [OF sample_allowed] unfolding sample_evaluation_def by blast
  from allowed_plan_bound_to_requester [OF d(1) [unfolded sample_evaluation_def] d(2)] d(1)
  show ?thesis by (auto simp: sample_request_def)
qed


text \<open>
  the risk gate does not see a score that is not a number: a request whose only risk
  signal is a NaN score is rated low, even with every risk category set.
\<close>

theorem nan_score_rated_low:
  "risk_score_of [(''score'', PFloat Nan), (''categories'', PList (map PStr cats))] = Inr Nan
   \<and> risk_level_of Nan = ''low''"
  by (simp add: risk_score_of_def vget_def dict_simps py_or_def risk_level_of_def)

text \<open>
  a finite or infinite score is never lowered by the categories, and a category sets its
  floor: with credential access or production impact the level is high or critical.
\<close>

theorem risk_floor:
  assumes "risk_score_of signals = Inr score"
    and "vget signals ''categories'' PNone = PList cats"
    and "PStr ''credential_access'' \<in> set cats \<or> PStr ''production_impact'' \<in> set cats"
    and "score \<noteq> Nan"
  shows "fle (Fin (7/10)) score \<and> risk_level_of score \<in> {''high'', ''critical''}"
proof -
  from assms(2) have c: "vget signals ''categories'' (PList []) = PList cats"
    by (simp add: vget_def split: option.splits)
  from assms(3) have t: "truthy (PList cats)" by (cases cats) auto
  from assms(1,3) c t obtain s0 where "score = fmax s0 (Fin (7/10))
      \<or> score = fmax (fmax s0 (Fin (7/10))) (Fin (1/2))"
    by (auto simp: risk_score_of_def rbind_eq_Inr py_or_def Let_def split: if_splits)
  then have f: "fle (Fin (7/10)) score"
  proof
    assume s: "score = fmax s0 (Fin (7/10))"
    with assms(4) have "s0 \<noteq> Nan" by auto
    with s show ?thesis by (simp add: fle_fmax_right)
  next
    assume s: "score = fmax (fmax s0 (Fin (7/10))) (Fin (1/2))"
    with assms(4) have n: "fmax s0 (Fin (7/10)) \<noteq> Nan" by auto
    then have "s0 \<noteq> Nan" by auto
    then have "fle (Fin (7/10)) (fmax s0 (Fin (7/10)))" by (simp add: fle_fmax_right)
    with fle_fmax_left [OF n, of "Fin (1/2)"] s show ?thesis using fle_trans by blast
  qed
  have "fle (Fin (1/2)) (Fin (7/10))" by simp
  with f have "fle (Fin (1/2)) score" using fle_trans by blast
  with f show ?thesis by (simp add: risk_level_of_def)
qed

theorem risk_floor_witness:
  "risk_level_of (Fin (7/10)) \<in> {''high'', ''critical''}"
proof -
  have "risk_score_of [(''score'', PInt 0), (''categories'', PList [PStr ''credential_access''])]
      = Inr (Fin (7/10))"
    by code_simp
  from risk_floor [OF this] show ?thesis by (simp add: vget_def dict_simps)
qed


text \<open>
  A run can be taken down or brought back only one level at a time, and every level can
  be reached from every other by such single steps.
\<close>

theorem level_transitions_adjacent:
  "cr_allowed (enforce_runtime_level_transition a b) \<longleftrightarrow>
     policy_level_rank a = Suc (policy_level_rank b) \<or> policy_level_rank b = Suc (policy_level_rank a)"
  and "level_reach a b"
  subgoal
    by (cases a; cases b) (simp_all add: enforce_runtime_level_transition_def level_transitions_def
        check_no_def check_ok_def policy_level_rank_def)
  subgoal
    by (rule level_reach_trans [OF level_up level_down])
  done

text \<open>
  degradation only takes rights away: an execution request that passes at one runtime
  level passes at every less degraded level, in the same state.
\<close>

theorem execution_check_monotone:
  assumes "policy_level_rank lv \<le> policy_level_rank lv'"
    and "check_execution_policy cfg (st\<lparr>ps_runtime_level := Some (PStr (level_value lv))\<rparr>) x = Inr r"
    and "cr_allowed r"
  shows "\<exists>r'. check_execution_policy cfg
      (st\<lparr>ps_runtime_level := Some (PStr (level_value lv'))\<rparr>) x = Inr r' \<and> cr_allowed r'"
proof (cases "cfg_enable_execution_constraints cfg")
  case False
  then show ?thesis by (simp add: check_execution_policy_def check_ok_def)
next
  case True
  let ?s = "\<lambda>l. st\<lparr>ps_runtime_level := Some (PStr (level_value l))\<rparr>"
  let ?tools = "if er_tool_requirements x \<noteq> [] then er_tool_requirements x else er_tools_required x"
  from assms(2,3) True have n: "find (\<lambda>c. c \<in> set (er_forbidden x)) (er_requested x) = None"
    by (auto simp: check_execution_policy_def check_no_def Let_def split: option.splits)
  with assms(2) True obtain c where c: "resolve_restricted_capabilities lv (?s lv) = Inr c"
    by (auto simp: check_execution_policy_def Let_def rbind_eq_Inr)
  with assms(2,3) True n have f: "find (\<lambda>k. k \<in> set c) (er_requested x) = None"
    by (auto simp: check_execution_policy_def check_no_def Let_def split: option.splits)
  from c have "resolve_restricted_capabilities lv (?s lv') = Inr c"
    by (simp add: resolve_restricted_capabilities_def)
  from resolve_capabilities_mono [OF assms(1) this] obtain c' where c':
    "resolve_restricted_capabilities lv' (?s lv') = Inr c'" "set c' \<subseteq> set c" .
  from f c'(2) have f': "find (\<lambda>k. k \<in> set c') (er_requested x) = None"
    by (auto simp: find_None_iff)
  show ?thesis
  proof (cases "?tools = []")
    case True
    with \<open>cfg_enable_execution_constraints cfg\<close> n c' f' show ?thesis
      by (simp add: check_execution_policy_def check_ok_def)
  next
    case False
    with assms(2,3) True n c f obtain t where
      "check_tool_availability ?tools lv (?s lv) = Inr t" "cr_allowed t"
      by (auto simp: check_execution_policy_def Let_def rbind_eq_Inr split: if_splits)
    then have "check_tool_availability ?tools lv (?s lv') = Inr t" "cr_allowed t"
      by (simp_all add: check_tool_availability_def combined_tool_restrictions_def)
    from check_tools_mono [OF assms(1) this] obtain t' where
      "check_tool_availability ?tools lv' (?s lv') = Inr t'" "cr_allowed t'" by blast
    with True False n c' f' show ?thesis
      by (simp add: check_execution_policy_def check_ok_def)
  qed
qed

theorem execution_check_monotone_witness:
  "\<exists>r. check_execution_policy full_config
      (sample_state\<lparr>ps_runtime_level := Some (PStr (level_value FULL))\<rparr>) sample_exec = Inr r \<and> cr_allowed r"
proof -
  have "policy_level_rank EMERGENCY \<le> policy_level_rank FULL" by (simp add: policy_level_rank_def)
  moreover have "check_execution_policy full_config
      (sample_state\<lparr>ps_runtime_level := Some (PStr (level_value EMERGENCY))\<rparr>) sample_exec
      = Inr (check_ok ''Execution policy check passed'')"
    by code_simp
  moreover have "cr_allowed (check_ok ''Execution policy check passed'')" by (simp add: check_ok_def)
  ultimately show ?thesis by (rule execution_check_monotone)
qed

end
