(* ===== verification/MedusaPlan.thy ===== *)
theory MedusaPlan
  imports Prelude
begin

text \<open>
  The deep execution plan of the Medusa agents: its data and scheduling operations
  (\<^verbatim>\<open>src/src/ai_karen_engine/agent_medusa/contracts/deep_execution_plan.py\<close>), the plan validator
  (\<^verbatim>\<open>src/src/ai_karen_engine/agent_medusa/planning/plan_validator.py\<close>) and the failure policy
  (\<^verbatim>\<open>src/src/ai_karen_engine/agent_medusa/execution/failure_policy.py\<close>).

  The recursions of the validator (the coloured depth-first search and the collection of
  ancestors) thread mutable state, so they carry fuel; \<open>None\<close> is running out of it, and the
  theory proves that the fuel given at the top level is always enough. Python's limit on the
  recursion depth is not modelled.
\<close>

section \<open>Data\<close>

datatype step_status = SPENDING | SRUNNING | SCOMPLETED | SFAILED | SSKIPPED

fun step_status_value :: "step_status \<Rightarrow> string" where
  "step_status_value SPENDING = ''pending''"
| "step_status_value SRUNNING = ''running''"
| "step_status_value SCOMPLETED = ''completed''"
| "step_status_value SFAILED = ''failed''"
| "step_status_value SSKIPPED = ''skipped''"

record input_contract =
  ic_required_inputs :: "string list"
  ic_optional_inputs :: "string list"
  ic_input_schema :: "(string, pyval) pydict"

record output_contract =
  oc_outputs_provided :: "string list"
  oc_output_schema :: "(string, pyval) pydict"

datatype degradation_level = DEG_NONE | DEG_PARTIAL | DEG_FULL

record degradation_metadata =
  dm_degraded :: bool
  dm_degradation_reason :: "string option"
  dm_affected_agent :: "string option"
  dm_fallback_level :: degradation_level
  dm_capabilities_lost :: "string list"
  dm_original_requirement :: "string option"

record plan_step =
  st_id :: string
  st_description :: string
  st_agent_specialist :: string
  st_agent_version :: "string option"
  st_input_data :: "(string, pyval) pydict"
  st_dependencies :: "string list"
  st_status :: step_status
  st_output_data :: "(string, pyval) pydict option"
  st_error :: "string option"
  st_required_tools :: "string list"
  st_required_plugins :: "string list"
  st_prompt_contract_id :: "string option"
  st_prompt_version :: "string option"
  st_input_contract :: "input_contract option"
  st_output_contract :: "output_contract option"
  st_degradation_metadata :: "degradation_metadata option"

text \<open>A step with the dataclass defaults.\<close>

definition default_step :: "string \<Rightarrow> plan_step" where
  "default_step i =
     \<lparr>st_id = i, st_description = [], st_agent_specialist = [], st_agent_version = None,
      st_input_data = [], st_dependencies = [], st_status = SPENDING, st_output_data = None,
      st_error = None, st_required_tools = [], st_required_plugins = [],
      st_prompt_contract_id = None, st_prompt_version = None, st_input_contract = None,
      st_output_contract = None, st_degradation_metadata = None\<rparr>"

section \<open>Scheduling\<close>

definition completed_ids :: "plan_step list \<Rightarrow> string set" where
  "completed_ids steps = set (map st_id (filter (\<lambda>s. st_status s = SCOMPLETED) steps))"

definition get_next_runnable_steps :: "plan_step list \<Rightarrow> plan_step list" where
  "get_next_runnable_steps steps =
     filter (\<lambda>s. st_status s = SPENDING
                 \<and> (\<forall>d \<in> set (st_dependencies s). d \<in> completed_ids steps)) steps"

text \<open>
  \<^verbatim>\<open>{step.id: step for step in steps}\<close>: a key keeps its first place, the value is the last step
  with that id. The dict holds references, so a status read through it is the current one.
\<close>

definition step_by_id :: "plan_step list \<Rightarrow> (string, plan_step) pydict" where
  "step_by_id steps = dict_of (map (\<lambda>s. (st_id s, s)) steps)"

definition blockers :: "plan_step list \<Rightarrow> plan_step \<Rightarrow> string list" where
  "blockers steps s =
     sort (filter (\<lambda>d. case dget (step_by_id steps) d of
                         None \<Rightarrow> False | Some t \<Rightarrow> st_status t \<in> {SFAILED, SSKIPPED})
            (st_dependencies s))"

text \<open>One pass of the \<^verbatim>\<open>for\<close> loop: \<open>prev\<close> are the steps already visited, as they are now.\<close>

fun block_pass :: "plan_step list \<Rightarrow> plan_step list \<Rightarrow> plan_step list \<times> nat" where
  "block_pass prev [] = (prev, 0)"
| "block_pass prev (s # rest) =
     (let bs = blockers (prev @ s # rest) s in
      if st_status s \<noteq> SPENDING \<or> bs = [] then block_pass (prev @ [s]) rest
      else (let s' = s\<lparr>st_status := SSKIPPED,
                       st_error := Some (''blocked_dependencies:'' @ join '','' bs)\<rparr>;
                (out, n) = block_pass (prev @ [s']) rest
            in (out, Suc n)))"

definition pending_count :: "plan_step list \<Rightarrow> nat" where
  "pending_count steps = length (filter (\<lambda>s. st_status s = SPENDING) steps)"

lemma block_pass_pending:
  "block_pass prev steps = (out, n) \<Longrightarrow> pending_count out + n = pending_count (prev @ steps)"
proof (induction prev steps arbitrary: out n rule: block_pass.induct)
  case (2 prev s rest)
  show ?case
  proof (cases "st_status s \<noteq> SPENDING \<or> blockers (prev @ s # rest) s = []")
    case True
    with 2 show ?thesis by (simp add: Let_def)
  next
    case False
    with 2 show ?thesis by (auto simp: Let_def pending_count_def split: prod.splits)
  qed
qed simp

text \<open>The \<^verbatim>\<open>while True\<close> loop: a pass that changes nothing ends it.\<close>

function mark_blocked_loop :: "plan_step list \<Rightarrow> nat \<Rightarrow> plan_step list \<times> nat" where
  "mark_blocked_loop steps count =
     (let (steps', n) = block_pass [] steps in
      if n = 0 then (steps', count) else mark_blocked_loop steps' (count + n))"
  by pat_completeness auto

termination
  by (relation "measure (\<lambda>(steps, _). pending_count steps)")
    (auto dest!: block_pass_pending [OF sym])

declare mark_blocked_loop.simps [simp del]

definition mark_blocked_dependents :: "plan_step list \<Rightarrow> plan_step list \<times> nat" where
  "mark_blocked_dependents steps = mark_blocked_loop steps 0"

section \<open>Cycle detection\<close>

type_synonym dep_graph = "(string, string list) pydict"

definition graph_of :: "plan_step list \<Rightarrow> dep_graph" where
  "graph_of steps = dict_of (map (\<lambda>s. (st_id s, st_dependencies s)) steps)"

definition succs :: "dep_graph \<Rightarrow> string \<Rightarrow> string list" where
  "succs g n = (case dget g n of None \<Rightarrow> [] | Some ds \<Rightarrow> ds)"

datatype color = WHITE | GRAY | BLACK

text \<open>\<^verbatim>\<open>stack[stack.index(x):]\<close>.\<close>

definition from_first :: "string \<Rightarrow> string list \<Rightarrow> string list" where
  "from_first x st = dropWhile (\<lambda>y. y \<noteq> x) st"

type_synonym dfs_result = "string list option \<times> (string \<Rightarrow> color) \<times> string list"

fun visit :: "nat \<Rightarrow> dep_graph \<Rightarrow> (string \<Rightarrow> color) \<Rightarrow> string list \<Rightarrow> string \<Rightarrow> dfs_result option"
and visit_deps :: "nat \<Rightarrow> dep_graph \<Rightarrow> (string \<Rightarrow> color) \<Rightarrow> string list \<Rightarrow> string \<Rightarrow>
    string list \<Rightarrow> dfs_result option" where
  "visit 0 g c st n = None"
| "visit (Suc k) g c st n = visit_deps k g (c(n := GRAY)) (st @ [n]) n (succs g n)"
| "visit_deps k g c st n [] = Some (None, c(n := BLACK), butlast st)"
| "visit_deps k g c st n (x # xs) =
     (if c x = GRAY then Some (Some (from_first x st @ [x]), c, st)
      else if c x = WHITE then
        (case visit k g c st x of
           None \<Rightarrow> None
         | Some (Some cyc, c', st') \<Rightarrow> Some (Some cyc, c', st')
         | Some (None, c', st') \<Rightarrow> visit_deps k g c' st' n xs)
      else visit_deps k g c st n xs)"

fun detect_from :: "nat \<Rightarrow> dep_graph \<Rightarrow> (string \<Rightarrow> color) \<Rightarrow> string list \<Rightarrow> string list option option" where
  "detect_from k g c [] = Some None"
| "detect_from k g c (n # ns) =
     (if c n = WHITE then
        (case visit k g c [] n of
           None \<Rightarrow> None
         | Some (Some cyc, _, _) \<Rightarrow> Some (Some cyc)
         | Some (None, c', _) \<Rightarrow> detect_from k g c' ns)
      else detect_from k g c ns)"

definition dfs_fuel :: "plan_step list \<Rightarrow> nat" where
  "dfs_fuel steps = Suc (length steps + length (concat (map st_dependencies steps)))"

definition detect_cycle :: "plan_step list \<Rightarrow> string list option option" where
  "detect_cycle steps =
     detect_from (dfs_fuel steps) (graph_of steps) (\<lambda>_. WHITE) (map st_id steps)"

section \<open>The width of the schedule\<close>

definition ready_ids :: "(string, plan_step) pydict \<Rightarrow> string set \<Rightarrow> string list" where
  "ready_ids remaining completed =
     map fst (filter (\<lambda>(_, s). \<forall>d \<in> set (st_dependencies s). d \<in> completed) remaining)"

text \<open>\<open>None\<close> is the \<^verbatim>\<open>PlanValidationError\<close> of a schedule that cannot advance.\<close>

function parallel_loop :: "(string, plan_step) pydict \<Rightarrow> string set \<Rightarrow> nat \<Rightarrow> nat option" where
  "parallel_loop remaining completed max_parallel =
     (if remaining = [] then Some max_parallel
      else (let ready = ready_ids remaining completed in
        if ready = [] then None
        else parallel_loop (filter (\<lambda>(i, _). i \<notin> set ready) remaining)
               (completed \<union> set ready) (max max_parallel (length ready))))"
  by pat_completeness auto

termination
proof (relation "measure (\<lambda>(remaining, _, _). length remaining)")
  fix remaining :: "(string, plan_step) pydict" and completed mp ready
  assume r: "ready = ready_ids remaining completed" and ne: "ready \<noteq> []"
  from ne obtain i where i: "i \<in> set ready" by (cases ready) auto
  then obtain s where "(i, s) \<in> set remaining" unfolding r ready_ids_def by auto
  with i have "length (filter (\<lambda>(i, _). i \<notin> set ready) remaining) < length remaining"
    by (intro length_filter_less) auto
  then show "((filter (\<lambda>(i, _). i \<notin> set ready) remaining, completed \<union> set ready, max mp (length ready)),
      (remaining, completed, mp)) \<in> measure (\<lambda>(remaining, _, _). length remaining)"
    by simp
qed simp

declare parallel_loop.simps [simp del]

definition calculate_max_parallelism :: "plan_step list \<Rightarrow> nat option" where
  "calculate_max_parallelism steps = parallel_loop (step_by_id steps) {} 0"

section \<open>Capability chains and inputs\<close>

definition chain_error :: "(string, plan_step) pydict \<Rightarrow> plan_step \<Rightarrow> string \<Rightarrow> string list" where
  "chain_error m s d = (case dget m d of
     None \<Rightarrow> [''step '' @ st_id s @ '' depends on unknown step: '' @ d]
   | Some t \<Rightarrow> (case st_output_contract t of
        None \<Rightarrow> []
      | Some oc \<Rightarrow> if oc_outputs_provided oc = []
                  then [''step '' @ d @ '' provides no outputs but is required by '' @ st_id s]
                  else []))"

definition validate_capability_chains :: "plan_step list \<Rightarrow> string list" where
  "validate_capability_chains steps =
     concat (map (\<lambda>s. concat (map (chain_error (step_by_id steps) s) (st_dependencies s))) steps)"

text \<open>
  \<^verbatim>\<open>ancestor_ids(step_id, visited)\<close>: the ancestors found and the shared set of visited ids.
\<close>

fun ancestor_ids :: "nat \<Rightarrow> (string, plan_step) pydict \<Rightarrow> string \<Rightarrow> string set \<Rightarrow>
    (string set \<times> string set) option"
and ancestors_of_deps :: "nat \<Rightarrow> (string, plan_step) pydict \<Rightarrow> string list \<Rightarrow> string set \<Rightarrow>
    string set \<Rightarrow> (string set \<times> string set) option" where
  "ancestor_ids 0 m i visited = None"
| "ancestor_ids (Suc k) m i visited =
     (if i \<in> visited then Some ({}, visited)
      else (case dget m i of
              None \<Rightarrow> None
            | Some s \<Rightarrow> ancestors_of_deps k m (st_dependencies s) {} (insert i visited)))"
| "ancestors_of_deps k m [] anc visited = Some (anc, visited)"
| "ancestors_of_deps k m (d # ds) anc visited =
     (if dget m d = None then ancestors_of_deps k m ds anc visited
      else (case ancestor_ids k m d visited of
              None \<Rightarrow> None
            | Some (found, visited') \<Rightarrow>
                ancestors_of_deps k m ds (insert d anc \<union> found) visited'))"

definition outputs_of :: "plan_step \<Rightarrow> string list" where
  "outputs_of s = (case st_output_contract s of None \<Rightarrow> [] | Some oc \<Rightarrow> oc_outputs_provided oc)"

definition available_list :: "(string, plan_step) pydict \<Rightarrow> plan_step \<Rightarrow> string set \<Rightarrow> string list" where
  "available_list m s anc =
     dkeys (st_input_data s) @ concat (map (\<lambda>(a, t). if a \<in> anc then outputs_of t else []) m)"

definition input_errors :: "(string, plan_step) pydict \<Rightarrow> plan_step \<Rightarrow> string list option" where
  "input_errors m s = (case st_input_contract s of
     None \<Rightarrow> Some []
   | Some ic \<Rightarrow> (case ancestor_ids (Suc (length m)) m (st_id s) {} of
        None \<Rightarrow> None
      | Some (anc, _) \<Rightarrow>
          Some (map (\<lambda>r. ''step '' @ st_id s @ '' requires input '' @ sq r
                        @ '' but no initial input or upstream dependency provides it'')
            (filter (\<lambda>r. r \<notin> set (available_list m s anc)) (ic_required_inputs ic)))))"

fun collect_errors :: "string list option list \<Rightarrow> string list option" where
  "collect_errors [] = Some []"
| "collect_errors (e # es) = (case e of None \<Rightarrow> None | Some xs \<Rightarrow>
     (case collect_errors es of None \<Rightarrow> None | Some ys \<Rightarrow> Some (xs @ ys)))"

definition validate_input_satisfaction :: "plan_step list \<Rightarrow> string list option" where
  "validate_input_satisfaction steps =
     collect_errors (map (input_errors (step_by_id steps)) steps)"

section \<open>The validator\<close>

record plan_limits =
  pl_allowed_agents :: "string set option"
  pl_allowed_tools :: "string set option"
  pl_allowed_plugins :: "string set option"
  pl_max_parallel_steps :: int
  pl_max_steps :: int

record validation_report =
  vr_valid :: bool
  vr_errors :: "string list"

text \<open>The errors of the ids, and the set of ids seen.\<close>

fun id_errors :: "plan_step list \<Rightarrow> string set \<Rightarrow> string list \<times> string set" where
  "id_errors [] ids = ([], ids)"
| "id_errors (s # rest) ids =
     (if st_id s = [] then
        (let (es, ids') = id_errors rest ids in (''step has empty id'' # es, ids'))
      else
        (let (es, ids') = id_errors rest (insert (st_id s) ids)
         in ((if st_id s \<in> ids then [''duplicate step id: '' @ st_id s] else []) @ es, ids')))"

definition dep_error :: "string set \<Rightarrow> plan_step \<Rightarrow> string \<Rightarrow> string list" where
  "dep_error ids s d =
     (if d = st_id s then [''step '' @ st_id s @ '' depends on itself'']
      else if d \<notin> ids then [''step '' @ st_id s @ '' depends on unknown step: '' @ d] else [])"

definition agent_and_dep_errors :: "string set option \<Rightarrow> string set \<Rightarrow> plan_step \<Rightarrow> string list" where
  "agent_and_dep_errors allowed ids s =
     (case allowed of None \<Rightarrow> [] | Some as \<Rightarrow>
        if st_agent_specialist s \<notin> as
        then [''step '' @ st_id s @ '' references unauthorized agent: '' @ st_agent_specialist s]
        else [])
     @ concat (map (dep_error ids s) (st_dependencies s))"

definition tool_errors :: "string set option \<Rightarrow> string set option \<Rightarrow> plan_step \<Rightarrow> string list" where
  "tool_errors tools plugins s =
     (case tools of None \<Rightarrow> [] | Some ts \<Rightarrow>
        map (\<lambda>t. ''step '' @ st_id s @ '' requires unauthorized tool: '' @ t)
          (filter (\<lambda>t. t \<notin> ts) (st_required_tools s)))
     @ (case plugins of None \<Rightarrow> [] | Some ps \<Rightarrow>
        map (\<lambda>p. ''step '' @ st_id s @ '' requires unauthorized plugin: '' @ p)
          (filter (\<lambda>p. p \<notin> ps) (st_required_plugins s)))"

definition limit_errors :: "plan_limits \<Rightarrow> plan_step list \<Rightarrow> string list" where
  "limit_errors lims steps =
     (if pl_max_steps lims < 1 \<or> pl_max_parallel_steps lims < 1
      then [''plan limits must be positive''] else [])
     @ (if int (length steps) > pl_max_steps lims
        then [''plan step count '' @ show_nat (length steps) @ '' exceeds max '' @ show_int (pl_max_steps lims)]
        else [])"

text \<open>The errors found before the graph is looked at.\<close>

definition static_errors :: "plan_limits \<Rightarrow> plan_step list \<Rightarrow> string list" where
  "static_errors lims steps =
     (let (id_errs, ids) = id_errors steps {} in
      limit_errors lims steps @ id_errs
      @ concat (map (agent_and_dep_errors (pl_allowed_agents lims) ids) steps)
      @ concat (map (tool_errors (pl_allowed_tools lims) (pl_allowed_plugins lims)) steps))"

definition graph_errors :: "plan_limits \<Rightarrow> plan_step list \<Rightarrow> bool \<Rightarrow> string list option" where
  "graph_errors lims steps clean = (case detect_cycle steps of
     None \<Rightarrow> None
   | Some (Some cyc) \<Rightarrow> Some [''dependency cycle detected: '' @ join '' -> '' cyc]
   | Some None \<Rightarrow>
       if \<not> clean then Some []
       else (case calculate_max_parallelism steps of
               None \<Rightarrow> Some [''dependency schedule cannot advance'']
             | Some k \<Rightarrow> Some (if int k > pl_max_parallel_steps lims
                 then [''plan requires '' @ show_nat k @ '' parallel steps but max_parallelism is ''
                       @ show_int (pl_max_parallel_steps lims)]
                 else [])))"

definition validate :: "plan_limits \<Rightarrow> plan_step list \<Rightarrow> validation_report option" where
  "validate lims steps =
     (if steps = [] then Some \<lparr>vr_valid = False, vr_errors = [''plan has no steps'']\<rparr>
      else (let static = static_errors lims steps in
        (case graph_errors lims steps (static = []) of
           None \<Rightarrow> None
         | Some graph \<Rightarrow> (case validate_input_satisfaction steps of
              None \<Rightarrow> None
            | Some inputs \<Rightarrow>
                (let errors = static @ graph @ validate_capability_chains steps @ inputs
                 in Some \<lparr>vr_valid = (errors = []), vr_errors = errors\<rparr>)))))"

section \<open>The failure policy\<close>

datatype response_status = RSUCCESS | RPARTIAL | RERROR | RTIMEOUT | RDEGRADED

record failure_policy =
  fp_allow_partial :: bool
  fp_max_retries :: int

definition resolve_status :: "failure_policy \<Rightarrow> int \<Rightarrow> int \<Rightarrow> int \<Rightarrow> response_status" where
  "resolve_status p completed failed all_steps =
     (if failed = 0 \<and> completed = all_steps then RSUCCESS
      else if completed = 0 then RERROR
      else if fp_allow_partial p then RPARTIAL else RDEGRADED)"

definition aggregate_status :: "string list \<Rightarrow> response_status" where
  "aggregate_status ss =
     (if ss = [] then RERROR
      else if \<forall>s \<in> set ss. s = ''completed'' then RSUCCESS
      else if (\<exists>s \<in> set ss. s = ''failed'') \<and> (\<exists>s \<in> set ss. s = ''completed'') then RPARTIAL
      else if \<exists>s \<in> set ss. s = ''failed'' then RERROR
      else RDEGRADED)"

end
