(* ===== verification/MedusaPlanGraph.thy ===== *)
theory MedusaPlanGraph
  imports MedusaPlan
begin

text \<open>
  Correctness of the graph algorithms of the plan validator: the coloured depth-first search
  of \<open>detect_cycle\<close>, with the white-grey-black invariant, and the collection of
  ancestors. Both are shown never to run out of their fuel.
\<close>

section \<open>Edges and cycles\<close>

definition dep_edges :: "dep_graph \<Rightarrow> (string \<times> string) set" where
  "dep_edges g = {(n, x). x \<in> set (succs g n)}"

definition is_cycle :: "dep_graph \<Rightarrow> string list \<Rightarrow> bool" where
  "is_cycle g cyc \<longleftrightarrow> 2 \<le> length cyc \<and> hd cyc = last cyc
     \<and> successively (\<lambda>a b. (a, b) \<in> dep_edges g) cyc"

lemma dep_edges_iff [simp]: "(n, x) \<in> dep_edges g \<longleftrightarrow> x \<in> set (succs g n)"
  by (simp add: dep_edges_def)

lemma successively_path:
  "successively (\<lambda>a b. (a, b) \<in> R) (x # xs) \<Longrightarrow> (x, last (x # xs)) \<in> R\<^sup>*"
  by (induction xs arbitrary: x) (auto intro: converse_rtrancl_into_rtrancl)

lemma is_cycle_not_acyclic: "is_cycle g cyc \<Longrightarrow> \<not> acyclic (dep_edges g)"
proof -
  assume c: "is_cycle g cyc"
  then obtain a b rest where cyc: "cyc = a # b # rest"
    unfolding is_cycle_def by (cases cyc; cases "tl cyc") auto
  with c have "(a, b) \<in> dep_edges g" "(b, last (b # rest)) \<in> (dep_edges g)\<^sup>*"
    using successively_path [of "dep_edges g" b rest] unfolding is_cycle_def by auto
  moreover from c cyc have "last (b # rest) = a" unfolding is_cycle_def by auto
  ultimately have "(a, a) \<in> (dep_edges g)\<^sup>+" by (metis rtrancl_into_trancl2)
  then show ?thesis by (auto simp: acyclic_def)
qed

section \<open>The depth-first search\<close>

definition blacks_done :: "dep_graph \<Rightarrow> (string \<Rightarrow> color) \<Rightarrow> bool" where
  "blacks_done g c \<longleftrightarrow> (\<forall>n. c n = BLACK \<longrightarrow>
     (\<forall>x \<in> set (succs g n). c x = BLACK) \<and> (n, n) \<notin> (dep_edges g)\<^sup>+)"

definition dfs_inv :: "dep_graph \<Rightarrow> (string \<Rightarrow> color) \<Rightarrow> string list \<Rightarrow> bool" where
  "dfs_inv g c st \<longleftrightarrow> blacks_done g c \<and> (\<forall>x. c x = GRAY \<longleftrightarrow> x \<in> set st) \<and> distinct st
     \<and> successively (\<lambda>a b. (a, b) \<in> dep_edges g) st"

lemma black_closed:
  assumes "blacks_done g c" "(x, y) \<in> (dep_edges g)\<^sup>*" "c x = BLACK"
  shows "c y = BLACK"
  using assms(2,3) by induction (use assms(1) in \<open>auto simp: blacks_done_def\<close>)

lemma blacken:
  assumes "dfs_inv g c st" "st \<noteq> []" "last st = n" "\<forall>x \<in> set (succs g n). c x = BLACK"
  shows "dfs_inv g (c(n := BLACK)) (butlast st)"
proof -
  from assms obtain st' where st: "st = st' @ [n]" by (metis append_butlast_last_id)
  have n: "c n = GRAY" using assms(1) st by (simp add: dfs_inv_def)
  have "(n, n) \<notin> (dep_edges g)\<^sup>+"
  proof
    assume "(n, n) \<in> (dep_edges g)\<^sup>+"
    then obtain x where "(n, x) \<in> dep_edges g" "(x, n) \<in> (dep_edges g)\<^sup>*" by (meson tranclD)
    with assms(1,4) have "c n = BLACK" by (auto simp: dfs_inv_def dest: black_closed)
    with n show False by simp
  qed
  with assms(1,4) st n show ?thesis
    by (auto simp: dfs_inv_def blacks_done_def successively_append_iff)
qed

lemma push_node:
  assumes "dfs_inv g c st" "c n = WHITE" "st = [] \<or> n \<in> set (succs g (last st))"
  shows "dfs_inv g (c(n := GRAY)) (st @ [n])"
proof -
  from assms(1,2) have "n \<notin> set st" unfolding dfs_inv_def by (metis color.distinct(1))
  with assms show ?thesis by (auto simp: dfs_inv_def blacks_done_def successively_append_iff)
qed

lemma cycle_found:
  assumes "dfs_inv g c st" "st \<noteq> []" "x \<in> set (succs g (last st))" "c x = GRAY"
  shows "is_cycle g (from_first x st @ [x])"
proof -
  from assms have "x \<in> set st" by (simp add: dfs_inv_def)
  then obtain ys zs where st: "st = ys @ x # zs" "x \<notin> set ys" by (meson split_list_first)
  then have f: "from_first x st = x # zs"
    by (subst from_first_def, subst st(1), subst dropWhile_append2) auto
  from assms(1) st have "successively (\<lambda>a b. (a, b) \<in> dep_edges g) (x # zs)"
    by (simp add: dfs_inv_def successively_append_iff)
  moreover from assms(3) st have "(last (x # zs), x) \<in> dep_edges g" by simp
  ultimately have "successively (\<lambda>a b. (a, b) \<in> dep_edges g) ((x # zs) @ [x])"
    unfolding successively_append_iff by simp
  then show ?thesis by (simp add: f is_cycle_def)
qed

definition search_result ::
    "dep_graph \<Rightarrow> (string \<Rightarrow> color) \<Rightarrow> string \<Rightarrow> string list \<Rightarrow> dfs_result \<Rightarrow> bool" where
  "search_result g c n st r = (case r of
     (Some cyc, _, _) \<Rightarrow> is_cycle g cyc
   | (None, c', st') \<Rightarrow> dfs_inv g c' st \<and> st' = st \<and> c' n = BLACK
       \<and> (\<forall>x. c x = BLACK \<longrightarrow> c' x = BLACK))"

lemma visit_sound:
  "visit k g c st n = Some r \<Longrightarrow> dfs_inv g c st \<Longrightarrow> c n = WHITE \<Longrightarrow>
     st = [] \<or> n \<in> set (succs g (last st)) \<Longrightarrow> search_result g c n st r"
  "visit_deps k g c st n xs = Some r \<Longrightarrow> dfs_inv g c st \<Longrightarrow> st \<noteq> [] \<Longrightarrow> last st = n \<Longrightarrow>
     set xs \<subseteq> set (succs g n) \<Longrightarrow> \<forall>x \<in> set (succs g n) - set xs. c x = BLACK \<Longrightarrow>
     search_result g c n (butlast st) r"
proof (induction k g c st n and k g c st n xs arbitrary: r and r rule: visit_visit_deps.induct)
  case (1 g c st n)
  then show ?case by simp
next
  case (2 k g c st n)
  have "search_result g (c(n := GRAY)) n st r"
    using "2.IH" [OF 2(2) [unfolded visit.simps] push_node [OF 2(3,4,5)]]
    by (simp add: fun_upd_def)
  moreover have "(c(n := GRAY)) x = BLACK" if "c x = BLACK" for x using that 2(4) by auto
  ultimately show ?case
    by (auto simp: search_result_def simp del: fun_upd_apply split: prod.splits option.splits)
next
  case (3 k g c st n)
  then show ?case using blacken [of g c st n] by (auto simp: search_result_def)
next
  case (4 k g c st n x xs)
  show ?case
  proof (cases "c x")
    case GRAY
    with 4(4-) cycle_found [of g c st x] show ?thesis by (auto simp: search_result_def)
  next
    case BLACK
    with 4(4-) show ?thesis by (intro "4.IH"(3)) auto
  next
    case WHITE
    with 4(4) obtain cy c' st' where v: "visit k g c st x = Some (cy, c', st')"
      by (auto split: option.splits)
    have s: "search_result g c x st (cy, c', st')"
      using WHITE 4(5-) by (intro "4.IH"(1) v) auto
    show ?thesis
    proof (cases cy)
      case (Some cyc)
      with v WHITE 4(4) s show ?thesis by (auto simp: search_result_def)
    next
      case None
      from s None have i: "dfs_inv g c' st" "st' = st" "c' x = BLACK" "\<forall>y. c y = BLACK \<longrightarrow> c' y = BLACK"
        by (auto simp: search_result_def)
      have "search_result g c' n (butlast st) r"
        using 4(4-) v None WHITE i
        by (intro "4.IH"(2) [of "(cy, c', st')" cy "(c', st')" c' st', unfolded i(2)]) auto
      with i(4) show ?thesis by (auto simp: search_result_def split: prod.splits option.splits)
    qed
  qed
qed

section \<open>Enough fuel\<close>

definition whites :: "string set \<Rightarrow> (string \<Rightarrow> color) \<Rightarrow> string set" where
  "whites U c = {x \<in> U. c x = WHITE}"

lemma visit_whites:
  "visit k g c st n = Some (r, c', st') \<Longrightarrow> c' x = WHITE \<Longrightarrow> c x = WHITE"
  "visit_deps k g c st n xs = Some (r, c', st') \<Longrightarrow> c' x = WHITE \<Longrightarrow> c x = WHITE"
proof (induction k g c st n and k g c st n xs arbitrary: r c' st' and r c' st'
    rule: visit_visit_deps.induct)
  case (1 g c st n)
  then show ?case by simp
next
  case (2 k g c st n)
  then show ?case by (auto simp: fun_upd_def split: if_splits)
next
  case (3 k g c st n)
  then show ?case by (auto split: if_splits)
next
  case (4 k g c st n x xs)
  then show ?case by (auto split: if_splits option.splits prod.splits)
qed

lemma visit_fuel:
  "finite U \<Longrightarrow> \<forall>n \<in> U. set (succs g n) \<subseteq> U \<Longrightarrow> card (whites U c) \<le> k \<Longrightarrow> n \<in> U \<Longrightarrow> c n = WHITE \<Longrightarrow>
     visit k g c st n \<noteq> None"
  "finite U \<Longrightarrow> \<forall>n \<in> U. set (succs g n) \<subseteq> U \<Longrightarrow> card (whites U c) \<le> k \<Longrightarrow> set xs \<subseteq> U \<Longrightarrow>
     visit_deps k g c st n xs \<noteq> None"
proof (induction k g c st n and k g c st n xs rule: visit_visit_deps.induct)
  case (1 g c st n)
  then have "n \<in> whites U c" "finite (whites U c)" by (auto simp: whites_def)
  with 1(3) show ?case by auto
next
  case (2 k g c st n)
  have "whites U (c(n := GRAY)) = whites U c - {n}" by (auto simp: whites_def)
  moreover have "n \<in> whites U c" "finite (whites U c)" using 2 by (auto simp: whites_def)
  ultimately have "card (whites U (c(n := GRAY))) \<le> k" using 2(4) by simp
  with 2 show ?case by (simp add: fun_upd_def)
next
  case (3 k g c st n)
  then show ?case by simp
next
  case (4 k g c st n x xs)
  have mono: "card (whites U c') \<le> k" if "visit k g c st x = Some (r, c', st')" for r c' st'
  proof -
    have "whites U c' \<subseteq> whites U c" using visit_whites(1) [OF that] by (auto simp: whites_def)
    then have "card (whites U c') \<le> card (whites U c)"
      using 4(4) by (intro card_mono) (auto simp: whites_def)
    with 4(6) show ?thesis by simp
  qed
  show ?case
  proof (cases "c x")
    case WHITE
    with 4 obtain r c' st' where v: "visit k g c st x = Some (r, c', st')"
      by (cases "visit k g c st x") auto
    with WHITE 4(4-7) mono [OF v] "4.IH"(2) [OF _ _ v refl] show ?thesis
      by (cases r) (auto)
  next
    case GRAY
    then show ?thesis by simp
  next
    case BLACK
    with 4 show ?thesis by simp
  qed
qed

section \<open>The cycle detection\<close>

lemma detect_from_correct:
  assumes "finite U" "\<forall>n \<in> U. set (succs g n) \<subseteq> U" "card U \<le> k"
  shows "dfs_inv g c [] \<Longrightarrow> set ns \<subseteq> U \<Longrightarrow>
    (\<exists>cyc. detect_from k g c ns = Some (Some cyc) \<and> is_cycle g cyc)
    \<or> (detect_from k g c ns = Some None \<and> (\<forall>n \<in> set ns. (n, n) \<notin> (dep_edges g)\<^sup>+))"
proof (induction ns arbitrary: c)
  case Nil
  then show ?case by simp
next
  case (Cons n ns)
  have w: "card (whites U c) \<le> k"
    using assms(1,3) card_mono [of U "whites U c"] by (simp add: whites_def)
  show ?case
  proof (cases "c n = WHITE")
    case False
    then have "c n = BLACK" using Cons.prems(1) by (cases "c n") (auto simp: dfs_inv_def)
    then have "(n, n) \<notin> (dep_edges g)\<^sup>+" using Cons.prems(1) by (auto simp: dfs_inv_def blacks_done_def)
    with Cons False show ?thesis by simp
  next
    case True
    with visit_fuel(1) [OF assms(1,2) w, of n "[]"] Cons.prems obtain r c' st' where
      v: "visit k g c [] n = Some (r, c', st')" by auto
    with visit_sound(1) [OF v Cons.prems(1) True] have s: "search_result g c n [] (r, c', st')" by simp
    show ?thesis
    proof (cases r)
      case None
      with s have "dfs_inv g c' []" "c' n = BLACK" by (auto simp: search_result_def)
      moreover from this have "(n, n) \<notin> (dep_edges g)\<^sup>+" by (auto simp: dfs_inv_def blacks_done_def)
      ultimately show ?thesis using Cons.IH [of c'] Cons.prems(2) True v None by auto
    next
      case (Some cyc)
      with s v True show ?thesis by (auto simp: search_result_def)
    qed
  qed
qed

lemma dget_dict_of: "dget (dict_of kvs) k = map_of (rev kvs) k"
  by (simp add: dict_of_def dget_dupdate split: option.splits)

lemma graph_succs: "x \<in> set (succs (graph_of steps) n) \<Longrightarrow>
    \<exists>s \<in> set steps. st_id s = n \<and> x \<in> set (st_dependencies s)"
  unfolding succs_def graph_of_def dget_dict_of
  by (cases "map_of (rev (map (\<lambda>s. (st_id s, st_dependencies s)) steps)) n")
    (auto dest!: map_of_SomeD)

lemma detect_cycle_total:
  "(\<exists>cyc. detect_cycle steps = Some (Some cyc) \<and> is_cycle (graph_of steps) cyc)
   \<or> (detect_cycle steps = Some None \<and> acyclic (dep_edges (graph_of steps)))"
proof -
  let ?g = "graph_of steps"
  let ?l = "map st_id steps @ concat (map st_dependencies steps)"
  have c: "card (set ?l) \<le> dfs_fuel steps"
    using card_length [of ?l] by (simp add: dfs_fuel_def)
  have s: "\<forall>n \<in> set ?l. set (succs ?g n) \<subseteq> set ?l"
    using graph_succs by fastforce
  have i: "dfs_inv ?g (\<lambda>_. WHITE) []" by (simp add: dfs_inv_def blacks_done_def)
  have "acyclic (dep_edges ?g)" if "\<forall>n \<in> set (map st_id steps). (n, n) \<notin> (dep_edges ?g)\<^sup>+"
    unfolding acyclic_def
  proof (intro allI notI)
    fix n assume n: "(n, n) \<in> (dep_edges ?g)\<^sup>+"
    then obtain x where "x \<in> set (succs ?g n)" by (meson dep_edges_iff tranclD)
    then have "n \<in> set (map st_id steps)" using graph_succs by fastforce
    with that n show False by blast
  qed
  with detect_from_correct [OF finite_set s c i, of "map st_id steps"] show ?thesis
    by (auto simp: detect_cycle_def)
qed

section \<open>Ancestors\<close>

definition anc_edges :: "(string, plan_step) pydict \<Rightarrow> (string \<times> string) set" where
  "anc_edges m = {(i, d). \<exists>s. dget m i = Some s \<and> d \<in> set (st_dependencies s) \<and> dget m d \<noteq> None}"

lemma ancestors_mono:
  "ancestor_ids k m i V = Some (A, V') \<Longrightarrow> V \<subseteq> V'"
  "ancestors_of_deps k m ds acc V = Some (A, V') \<Longrightarrow> V \<subseteq> V'"
proof (induction k m i V and k m ds acc V arbitrary: A V' and A V'
    rule: ancestor_ids_ancestors_of_deps.induct)
  case (2 k m i V)
  then show ?case by (fastforce split: if_splits option.splits)
next
  case (4 k m d ds acc V)
  then show ?case by (fastforce split: if_splits option.splits)
qed auto

lemma ancestors_fuel:
  "card (set (dkeys m) - V) < k \<Longrightarrow> i \<in> set (dkeys m) \<Longrightarrow> ancestor_ids k m i V \<noteq> None"
  "card (set (dkeys m) - V) < k \<Longrightarrow> ancestors_of_deps k m ds acc V \<noteq> None"
proof (induction k m i V and k m ds acc V rule: ancestor_ids_ancestors_of_deps.induct)
  case (2 k m i V)
  show ?case
  proof (cases "i \<in> V")
    case False
    from 2(3) obtain s where s: "dget m i = Some s" using dget_None_iff [of m i] by auto
    have "set (dkeys m) - insert i V = (set (dkeys m) - V) - {i}" by auto
    with False 2(3) have "card (set (dkeys m) - insert i V) < card (set (dkeys m) - V)"
      by (metis DiffI card_Diff1_less finite_Diff finite_set)
    with 2(2) have "card (set (dkeys m) - insert i V) < k" by simp
    with 2(1) [OF False s] s False show ?thesis by simp
  qed simp
next
  case (4 k m d ds acc V)
  show ?case
  proof (cases "dget m d = None")
    case True
    with 4 show ?thesis by simp
  next
    case False
    then have "d \<in> set (dkeys m)" using dget_None_iff [of m d] by simp
    with 4 False obtain A V' where a: "ancestor_ids k m d V = Some (A, V')"
      by (cases "ancestor_ids k m d V") auto
    from ancestors_mono(1) [OF this] have "card (set (dkeys m) - V') \<le> card (set (dkeys m) - V)"
      by (intro card_mono) auto
    with 4(4) have "card (set (dkeys m) - V') < k" by simp
    with 4(3) [OF False a refl] have "ancestors_of_deps k m ds (insert d acc \<union> A) V' \<noteq> None" by simp
    with a False show ?thesis by auto
  qed
qed auto

lemma ancestors_spec:
  "ancestor_ids k m i V = Some (A, V') \<Longrightarrow>
     i \<in> V' \<and> A \<subseteq> (anc_edges m)\<^sup>+ `` {i} \<and> (\<forall>y \<in> V' - V. anc_edges m `` {y} \<subseteq> A \<inter> V')"
  "ancestors_of_deps k m ds acc V = Some (A, V') \<Longrightarrow>
     acc \<subseteq> A \<and> {d \<in> set ds. dget m d \<noteq> None} \<subseteq> A \<inter> V'
     \<and> A \<subseteq> acc \<union> (anc_edges m)\<^sup>* `` {d \<in> set ds. dget m d \<noteq> None}
     \<and> (\<forall>y \<in> V' - V. anc_edges m `` {y} \<subseteq> A \<inter> V')"
proof (induction k m i V and k m ds acc V arbitrary: A V' and A V'
    rule: ancestor_ids_ancestors_of_deps.induct)
  case (1 m i V)
  then show ?case by simp
next
  case (2 k m i V)
  show ?case
  proof (cases "i \<in> V")
    case True
    with 2 show ?thesis by auto
  next
    case False
    with 2(2) obtain s where s: "dget m i = Some s"
      and r: "ancestors_of_deps k m (st_dependencies s) {} (insert i V) = Some (A, V')"
      by (auto split: option.splits)
    have e: "anc_edges m `` {i} = {d \<in> set (st_dependencies s). dget m d \<noteq> None}"
      using s by (auto simp: anc_edges_def)
    note h = 2(1) [OF False s r, folded e]
    have "(anc_edges m)\<^sup>* `` (anc_edges m `` {i}) = (anc_edges m)\<^sup>+ `` {i}"
      by (simp add: trancl_unfold_left relcomp_Image)
    with h ancestors_mono(2) [OF r] show ?thesis by auto
  qed
next
  case (3 k m acc V)
  then show ?case by auto
next
  case (4 k m d ds acc V)
  show ?case
  proof (cases "dget m d = None")
    case True
    with 4 have "ancestors_of_deps k m ds acc V = Some (A, V')" by simp
    note h = 4(1) [OF True this]
    from True have e: "{x \<in> set (d # ds). dget m x \<noteq> None} = {x \<in> set ds. dget m x \<noteq> None}"
      by auto
    show ?thesis unfolding e by (rule h)
  next
    case False
    with 4(4) obtain B W where b: "ancestor_ids k m d V = Some (B, W)"
      and r: "ancestors_of_deps k m ds (insert d acc \<union> B) W = Some (A, V')"
      by (auto split: option.splits)
    let ?K = "{x \<in> set ds. dget m x \<noteq> None}"
    note h1 = 4(2) [OF False b] and h2 = 4(3) [OF False b refl r]
    note dW = h1 [THEN conjunct1] and B1 = h1 [THEN conjunct2, THEN conjunct1]
      and y1 = h1 [THEN conjunct2, THEN conjunct2]
    note acc2 = h2 [THEN conjunct1] and K2 = h2 [THEN conjunct2, THEN conjunct1]
      and A2 = h2 [THEN conjunct2, THEN conjunct2, THEN conjunct1]
      and y2 = h2 [THEN conjunct2, THEN conjunct2, THEN conjunct2]
    have W: "V \<subseteq> W" "W \<subseteq> V'" by (rule ancestors_mono(1) [OF b], rule ancestors_mono(2) [OF r])
    have e: "{x \<in> set (d # ds). dget m x \<noteq> None} = insert d ?K" using False by auto
    have B: "B \<subseteq> (anc_edges m)\<^sup>* `` {d}"
    proof
      fix x assume "x \<in> B"
      then have "(d, x) \<in> (anc_edges m)\<^sup>+" using B1 by blast
      then show "x \<in> (anc_edges m)\<^sup>* `` {d}" by (simp add: trancl_into_rtrancl)
    qed
    have im: "(anc_edges m)\<^sup>* `` insert d ?K = (anc_edges m)\<^sup>* `` {d} \<union> (anc_edges m)\<^sup>* `` ?K"
      by (metis Image_Un insert_is_Un)
    show ?thesis unfolding e
    proof (intro conjI)
      show "acc \<subseteq> A" using acc2 by blast
      show "insert d ?K \<subseteq> A \<inter> V'" using acc2 K2 dW W(2) by blast
      show "A \<subseteq> acc \<union> (anc_edges m)\<^sup>* `` insert d ?K"
      proof -
        have "d \<in> (anc_edges m)\<^sup>* `` {d}" by blast
        then show ?thesis using A2 B unfolding im by blast
      qed
      show "\<forall>y \<in> V' - V. anc_edges m `` {y} \<subseteq> A \<inter> V'"
      proof
        fix y assume "y \<in> V' - V"
        then consider "y \<in> V' - W" | "y \<in> W - V" by blast
        then show "anc_edges m `` {y} \<subseteq> A \<inter> V'"
        proof cases
          case 1
          with y2 show ?thesis by blast
        next
          case 2
          with y1 have "anc_edges m `` {y} \<subseteq> B \<inter> W" by blast
          with acc2 W(2) show ?thesis by blast
        qed
      qed
    qed
  qed
qed

lemma ancestor_ids_top:
  assumes "i \<in> set (dkeys m)"
  obtains V' where "ancestor_ids (Suc (length m)) m i {} = Some ((anc_edges m)\<^sup>+ `` {i}, V')"
proof -
  have "card (set (dkeys m) - {}) < Suc (length m)"
    using card_length [of "dkeys m"] by (simp add: dkeys_def)
  from ancestors_fuel(1) [OF this assms] obtain A V' where
    a: "ancestor_ids (Suc (length m)) m i {} = Some (A, V')" by (metis not_Some_eq surj_pair)
  note h = ancestors_spec(1) [OF a]
  have c: "z \<in> A" if "(i, z) \<in> (anc_edges m)\<^sup>+" for z
  proof -
    from that obtain y where y: "(i, y) \<in> (anc_edges m)\<^sup>*" "(y, z) \<in> anc_edges m"
      by (meson tranclD2)
    from y(1) have "y \<in> V'" by induction (use h in auto)
    with h y(2) show ?thesis by auto
  qed
  have "A = (anc_edges m)\<^sup>+ `` {i}"
  proof
    show "A \<subseteq> (anc_edges m)\<^sup>+ `` {i}" using h by blast
    show "(anc_edges m)\<^sup>+ `` {i} \<subseteq> A" using c by blast
  qed
  with a that show thesis by simp
qed

end
