(* ===== verification/MedusaPlanCorrect.thy ===== *)
theory MedusaPlanCorrect
  imports MedusaPlanGraph
begin

text \<open>
  What the plan validator accepts, that an accepted plan can always be scheduled, and what
  blocking the dependents of a failed step does.
\<close>

section \<open>Plans with distinct ids\<close>

definition step_edges :: "plan_step list \<Rightarrow> (string \<times> string) set" where
  "step_edges steps = {(i, d). \<exists>s \<in> set steps. st_id s = i \<and> d \<in> set (st_dependencies s)}"

definition ids_ok :: "plan_step list \<Rightarrow> bool" where
  "ids_ok steps \<longleftrightarrow> distinct (map st_id steps)"

definition deps_known :: "plan_step list \<Rightarrow> bool" where
  "deps_known steps \<longleftrightarrow> (\<forall>s \<in> set steps. set (st_dependencies s) \<subseteq> set (map st_id steps))"

lemma step_by_id_map: "ids_ok steps \<Longrightarrow> step_by_id steps = map (\<lambda>s. (st_id s, s)) steps"
  unfolding step_by_id_def ids_ok_def by (rule dict_of_distinct) (simp add: comp_def)

lemma graph_of_map: "ids_ok steps \<Longrightarrow> graph_of steps = map (\<lambda>s. (st_id s, st_dependencies s)) steps"
  unfolding graph_of_def ids_ok_def by (rule dict_of_distinct) (simp add: comp_def)

lemma step_by_id_mem: "dget (step_by_id steps) d = Some t \<Longrightarrow> t \<in> set steps \<and> st_id t = d"
  unfolding step_by_id_def dget_dict_of by (auto dest!: map_of_SomeD)

lemma step_by_id_iff:
  "ids_ok steps \<Longrightarrow> dget (step_by_id steps) d = Some t \<longleftrightarrow> t \<in> set steps \<and> st_id t = d"
proof
  assume o: "ids_ok steps" and t: "t \<in> set steps \<and> st_id t = d"
  then have "(d, t) \<in> set (map (\<lambda>s. (st_id s, s)) steps)" by auto
  moreover have "dict_ok (map (\<lambda>s. (st_id s, s)) steps)"
    using o by (simp add: dict_ok_def dkeys_def ids_ok_def comp_def)
  ultimately show "dget (step_by_id steps) d = Some t"
    unfolding step_by_id_map [OF o] by (rule dget_SomeI [rotated])
qed (rule step_by_id_mem)

lemma step_by_id_None: "dget (step_by_id steps) d = None \<longleftrightarrow> d \<notin> set (map st_id steps)"
  unfolding step_by_id_def dget_dict_of by (auto simp: map_of_eq_None_iff image_iff)

lemma step_keys: "set (dkeys (step_by_id steps)) = set (map st_id steps)"
proof (rule set_eqI)
  fix d show "d \<in> set (dkeys (step_by_id steps)) \<longleftrightarrow> d \<in> set (map st_id steps)"
    using step_by_id_None [of steps d] dget_None_iff [of "step_by_id steps" d] by metis
qed

lemma graph_edges: "ids_ok steps \<Longrightarrow> dep_edges (graph_of steps) = step_edges steps"
proof -
  assume o: "ids_ok steps"
  have "succs (graph_of steps) (st_id s) = st_dependencies s" if "s \<in> set steps" for s
  proof -
    have "dict_ok (graph_of steps)" by (simp add: graph_of_def)
    moreover have "(st_id s, st_dependencies s) \<in> set (graph_of steps)"
      using that by (simp add: graph_of_map [OF o])
    ultimately show ?thesis by (simp add: succs_def dget_SomeI)
  qed
  moreover have "n \<in> set (map st_id steps)" if "x \<in> set (succs (graph_of steps) n)" for n x
    using graph_succs [OF that] by auto
  ultimately show ?thesis by (fastforce simp: step_edges_def)
qed

lemma anc_edges_steps:
  "ids_ok steps \<Longrightarrow> deps_known steps \<Longrightarrow> anc_edges (step_by_id steps) = step_edges steps"
  unfolding anc_edges_def step_edges_def
  by (auto simp: step_by_id_iff step_by_id_None deps_known_def) blast+

lemma finite_step_edges: "finite (step_edges steps)"
proof -
  have "step_edges steps \<subseteq> st_id ` set steps \<times> (\<Union>s \<in> set steps. set (st_dependencies s))"
    by (auto simp: step_edges_def)
  then show ?thesis by (rule finite_subset) auto
qed

text \<open>In an acyclic plan any non-empty set of ids has one whose dependencies lie outside it.\<close>

lemma acyclic_minimal:
  assumes "acyclic (step_edges steps)" "i \<in> I"
  obtains m where "m \<in> I" "\<forall>d. (m, d) \<in> step_edges steps \<longrightarrow> d \<notin> I"
proof -
  from assms(1) have "wf ((step_edges steps)\<inverse>)"
    by (rule finite_acyclic_wf_converse [OF finite_step_edges])
  from wfE_min [OF this assms(2)] obtain m where
    "m \<in> I" "\<And>d. (d, m) \<in> (step_edges steps)\<inverse> \<Longrightarrow> d \<notin> I" by blast
  with that show thesis by blast
qed

section \<open>The schedule\<close>

text \<open>The ids that can be finished after \<open>n\<close> rounds.\<close>

primrec finished_after :: "plan_step list \<Rightarrow> nat \<Rightarrow> string set" where
  "finished_after steps 0 = {}"
| "finished_after steps (Suc n) =
     {i. \<exists>s \<in> set steps. st_id s = i \<and> set (st_dependencies s) \<subseteq> finished_after steps n}"

definition round_of :: "plan_step list \<Rightarrow> nat \<Rightarrow> string set" where
  "round_of steps n = finished_after steps (Suc n) - finished_after steps n"

lemma finished_mono: "finished_after steps n \<subseteq> finished_after steps (Suc n)"
  by (induction n) auto

lemma parallel_loop_spec:
  assumes o: "ids_ok steps" and k: "deps_known steps" and a: "acyclic (step_edges steps)"
  shows "remaining = filter (\<lambda>(i, _). i \<notin> finished_after steps n) (step_by_id steps) \<Longrightarrow>
     \<exists>w. parallel_loop remaining (finished_after steps n) mp = Some w \<and> mp \<le> w
       \<and> (\<forall>j \<ge> n. card (round_of steps j) \<le> w)
       \<and> (w = mp \<or> (\<exists>j \<ge> n. w = card (round_of steps j)))"
proof (induction "length remaining" arbitrary: n remaining mp rule: less_induct)
  case less
  let ?F = "finished_after steps"
  have m: "set remaining = {(i, s). s \<in> set steps \<and> st_id s = i \<and> i \<notin> ?F n}"
    by (auto simp: less.prems step_by_id_map [OF o])
  have d: "distinct (map fst remaining)"
    unfolding less.prems step_by_id_map [OF o] using o
    by (simp add: filter_map comp_def split_def ids_ok_def distinct_map_filter)
  have F: "?F j \<subseteq> st_id ` set steps" for j by (cases j) auto
  show ?case
  proof (cases "remaining = []")
    case True
    then have all: "st_id ` set steps \<subseteq> ?F n" using m by auto
    have "?F j = st_id ` set steps" if "n \<le> j" for j
      using that by (induction rule: dec_induct) (use all F finished_mono in blast)+
    then have "round_of steps j = {}" if "n \<le> j" for j
      using that by (simp add: round_of_def del: finished_after.simps)
    with True show ?thesis by (auto simp: parallel_loop.simps)
  next
    case False
    let ?ready = "ready_ids remaining (?F n)"
    have r: "set ?ready = round_of steps n"
      unfolding ready_ids_def round_of_def using m by (auto simp: image_iff; force)
    have dr: "distinct ?ready"
      using d unfolding ready_ids_def by (rule distinct_map_filter)
    from False obtain i s where "(i, s) \<in> set remaining" by (cases remaining) auto
    then have "i \<in> fst ` set remaining" by force
    from acyclic_minimal [OF a this] obtain x where
      x: "x \<in> fst ` set remaining" "\<forall>d. (x, d) \<in> step_edges steps \<longrightarrow> d \<notin> fst ` set remaining" .
    then obtain t where t: "(x, t) \<in> set remaining" by auto
    have "d \<in> ?F n" if "d \<in> set (st_dependencies t)" for d
    proof -
      from t m have t': "t \<in> set steps" "st_id t = x" by auto
      with that have "(x, d) \<in> step_edges steps" by (auto simp: step_edges_def)
      with x(2) have "d \<notin> fst ` set remaining" by blast
      moreover from k t'(1) that obtain u where "u \<in> set steps" "st_id u = d"
        by (auto simp: deps_known_def)
      ultimately show ?thesis using m by force
    qed
    with t have "x \<in> set ?ready" unfolding ready_ids_def by force
    then have ne: "?ready \<noteq> []" by auto
    let ?rem = "filter (\<lambda>(i, _). i \<notin> set ?ready) remaining"
    have F': "?F n \<union> set ?ready = ?F (Suc n)"
      using finished_mono [of steps n] unfolding r round_of_def by blast
    have rem: "?rem = filter (\<lambda>(i, _). i \<notin> ?F (Suc n)) (step_by_id steps)"
      unfolding less.prems filter_filter F' [symmetric] by (rule filter_cong) auto
    have "length ?rem < length remaining"
      using t \<open>x \<in> set ?ready\<close> by (intro length_filter_less) auto
    from less.hyps [OF this rem, of "max mp (length ?ready)"] obtain w where
      w: "parallel_loop ?rem (?F (Suc n)) (max mp (length ?ready)) = Some w"
      "max mp (length ?ready) \<le> w" "\<forall>j \<ge> Suc n. card (round_of steps j) \<le> w"
      "w = max mp (length ?ready) \<or> (\<exists>j \<ge> Suc n. w = card (round_of steps j))" by blast
    have l: "length ?ready = card (round_of steps n)"
      using distinct_card [OF dr] r by simp
    from w(2,3) l have "\<forall>j \<ge> n. card (round_of steps j) \<le> w"
      by (metis le_antisym max.bounded_iff not_less_eq_eq)
    moreover from w(4) l have "w = mp \<or> (\<exists>j \<ge> n. w = card (round_of steps j))"
      by (metis le_SucE le_refl max_def nat_le_linear Suc_leD)
    moreover have "parallel_loop remaining (?F n) mp = Some w"
      using False ne w(1) F' by (subst parallel_loop.simps) (simp add: Let_def)
    ultimately show ?thesis using w(2) by auto
  qed
qed

lemma schedule_width:
  assumes "ids_ok steps" "deps_known steps" "acyclic (step_edges steps)"
  shows "\<exists>w. calculate_max_parallelism steps = Some w \<and> (\<forall>n. card (round_of steps n) \<le> w)
     \<and> (w = 0 \<or> (\<exists>n. w = card (round_of steps n)))"
  using parallel_loop_spec [OF assms, of "step_by_id steps" 0 0]
  by (simp add: calculate_max_parallelism_def)

section \<open>Blocking the dependents of a failed step\<close>

text \<open>
  A pending step is blocked when it depends, directly or through pending steps, on a failed
  or skipped one.
\<close>

inductive blocked :: "plan_step list \<Rightarrow> plan_step \<Rightarrow> bool" for steps where
  direct: "st_status s = SPENDING \<Longrightarrow> st_id t \<in> set (st_dependencies s) \<Longrightarrow> t \<in> set steps \<Longrightarrow>
     st_status t \<in> {SFAILED, SSKIPPED} \<Longrightarrow> blocked steps s"
| chained: "st_status s = SPENDING \<Longrightarrow> st_id t \<in> set (st_dependencies s) \<Longrightarrow> t \<in> set steps \<Longrightarrow>
     blocked steps t \<Longrightarrow> blocked steps s"

inductive_cases blockedE: "blocked steps s"

text \<open>How a step may have changed: not at all, or from pending to skipped because it is blocked.\<close>

definition block_rel :: "plan_step list \<Rightarrow> plan_step \<Rightarrow> plan_step \<Rightarrow> bool" where
  "block_rel orig s t \<longleftrightarrow> t = s
     \<or> (blocked orig s \<and> (\<exists>e. t = s\<lparr>st_status := SSKIPPED, st_error := e\<rparr>))"

lemma block_rel_id: "block_rel orig s t \<Longrightarrow> st_id t = st_id s \<and> st_dependencies t = st_dependencies s"
  by (auto simp: block_rel_def)

lemma list_all2_ids:
  "list_all2 (block_rel orig) xs ys \<Longrightarrow>
     map st_id ys = map st_id xs \<and> map st_dependencies ys = map st_dependencies xs"
  by (induction rule: list_all2_induct) (auto dest: block_rel_id)

lemma blockers_Nil_iff:
  "blockers steps s = [] \<longleftrightarrow>
     (\<forall>d \<in> set (st_dependencies s). \<forall>t. dget (step_by_id steps) d = Some t \<longrightarrow>
        st_status t \<notin> {SFAILED, SSKIPPED})"
proof -
  have "blockers steps s = [] \<longleftrightarrow> set (blockers steps s) = {}" by (simp only: set_empty)
  also have "\<dots> \<longleftrightarrow> (\<forall>d \<in> set (st_dependencies s). \<forall>t. dget (step_by_id steps) d = Some t \<longrightarrow>
      st_status t \<notin> {SFAILED, SSKIPPED})"
    by (auto simp: blockers_def split: option.splits)
  finally show ?thesis .
qed

lemma blockers_blocked:
  assumes "list_all2 (block_rel orig) orig cur" "blockers cur s \<noteq> []"
    "block_rel orig s0 s" "s0 \<in> set orig" "st_status s = SPENDING"
  shows "blocked orig s"
proof -
  from assms(2) obtain d t where d: "d \<in> set (st_dependencies s)"
    "dget (step_by_id cur) d = Some t" "st_status t \<in> {SFAILED, SSKIPPED}"
    unfolding blockers_Nil_iff by blast
  from step_by_id_mem [OF d(2)] have t: "t \<in> set cur" "st_id t = d" by auto
  from assms(1) t(1) obtain t0 where t0: "t0 \<in> set orig" "block_rel orig t0 t"
    by (metis in_set_conv_nth list_all2_conv_all_nth)
  have "st_id t0 \<in> set (st_dependencies s)" using block_rel_id [OF t0(2)] t(2) d(1) by simp
  with t0 d(3) assms(5) show ?thesis
    unfolding block_rel_def by (metis direct chained)
qed

lemma block_pass_rel:
  "block_pass prev rest = (out, n) \<Longrightarrow> list_all2 (block_rel orig) orig (prev @ rest) \<Longrightarrow>
     list_all2 (block_rel orig) orig out"
proof (induction prev rest arbitrary: out n rule: block_pass.induct)
  case (2 prev s rest)
  let ?bs = "blockers (prev @ s # rest) s"
  show ?case
  proof (cases "st_status s \<noteq> SPENDING \<or> ?bs = []")
    case True
    then show ?thesis using "2.IH"(1) [OF refl True] 2(3,4) by (simp add: Let_def)
  next
    case False
    let ?s' = "s\<lparr>st_status := SSKIPPED, st_error := Some (''blocked_dependencies:'' @ join '','' ?bs)\<rparr>"
    from False 2(3) obtain m where m: "block_pass (prev @ [?s']) rest = (out, m)"
      by (auto simp: Let_def split: prod.splits)
    from 2(4) obtain o1 s0 o2 where o: "orig = o1 @ s0 # o2" "list_all2 (block_rel orig) o1 prev"
      "block_rel orig s0 s" "list_all2 (block_rel orig) o2 rest"
      by (auto simp: list_all2_append2 list_all2_Cons2)
    have "blocked orig s"
      by (rule blockers_blocked [OF 2(4) _ o(3)]) (use False o(1) in auto)
    moreover from o(3) False have "s0 = s" by (auto simp: block_rel_def)
    ultimately have "block_rel orig s0 ?s'" by (auto simp: block_rel_def)
    then have "list_all2 (block_rel orig) (o1 @ s0 # o2) ((prev @ [?s']) @ rest)"
      using o by (auto intro: list_all2_appendI)
    then show ?thesis using "2.IH"(2) [OF refl False refl m] o(1) by simp
  qed
qed simp

lemma block_pass_stable:
  "block_pass prev rest = (out, 0) \<Longrightarrow>
     out = prev @ rest \<and> (\<forall>s \<in> set rest. st_status s = SPENDING \<longrightarrow> blockers out s = [])"
proof (induction prev rest arbitrary: out rule: block_pass.induct)
  case (2 prev s rest)
  show ?case
  proof (cases "st_status s \<noteq> SPENDING \<or> blockers (prev @ s # rest) s = []")
    case True
    with 2(3) have "block_pass (prev @ [s]) rest = (out, 0)" by (simp add: Let_def)
    from "2.IH"(1) [OF refl True this] True show ?thesis by auto
  next
    case False
    with 2(3) show ?thesis by (auto simp: Let_def split: prod.splits)
  qed
qed simp

lemma mark_blocked_loop_spec:
  "mark_blocked_loop steps count = (out, n) \<Longrightarrow> list_all2 (block_rel orig) orig steps \<Longrightarrow>
     list_all2 (block_rel orig) orig out
     \<and> (\<forall>s \<in> set out. st_status s = SPENDING \<longrightarrow> blockers out s = [])
     \<and> pending_count out + n = pending_count steps + count"
proof (induction steps count arbitrary: out n rule: mark_blocked_loop.induct)
  case (1 steps count)
  obtain steps' k where p: "block_pass [] steps = (steps', k)" by fastforce
  from block_pass_rel [OF p] 1(3) have r: "list_all2 (block_rel orig) orig steps'" by simp
  from block_pass_pending [OF p] have c: "pending_count steps' + k = pending_count steps" by simp
  show ?case
  proof (cases "k = 0")
    case True
    with 1(2) p have "out = steps'" "n = count" by (simp_all add: mark_blocked_loop.simps [of steps])
    with True block_pass_stable [of "[]" steps steps'] p r c show ?thesis by auto
  next
    case False
    with 1(2) p have "mark_blocked_loop steps' (count + k) = (out, n)"
      by (simp add: mark_blocked_loop.simps [of steps])
    from "1.IH" [OF p [symmetric] refl False this r] c show ?thesis by simp
  qed
qed

text \<open>The exact effect: a step ends up skipped when it was blocked, and is otherwise untouched.\<close>

lemma mark_blocked_effect:
  assumes "mark_blocked_dependents steps = (out, n)" "ids_ok steps"
  shows "length out = length steps
    \<and> (\<forall>i < length steps. if blocked steps (steps ! i)
         then \<exists>e. out ! i = (steps ! i)\<lparr>st_status := SSKIPPED, st_error := e\<rparr>
         else out ! i = steps ! i)"
proof -
  have "list_all2 (block_rel steps) steps steps"
    by (rule list_all2_refl) (simp add: block_rel_def)
  from mark_blocked_loop_spec [OF assms(1) [unfolded mark_blocked_dependents_def] this]
  have r: "list_all2 (block_rel steps) steps out"
    and f: "\<forall>s \<in> set out. st_status s = SPENDING \<longrightarrow> blockers out s = []" by auto
  have o: "ids_ok out" using assms(2) list_all2_ids [OF r] by (simp add: ids_ok_def)
  have b: "u \<noteq> s" if "blocked steps s" "s \<in> set steps" "u \<in> set out" "block_rel steps s u" for s u
    using that
  proof (induction arbitrary: u rule: blocked.induct)
    case (direct s t)
    show ?case
    proof
      assume u: "u = s"
      from r direct(3) obtain t' where t': "t' \<in> set out" "block_rel steps t t'"
        by (metis in_set_conv_nth list_all2_conv_all_nth)
      then have "st_status t' \<in> {SFAILED, SSKIPPED}" "st_id t' = st_id t"
        using direct(4) by (auto simp: block_rel_def)
      with t'(1) direct(2) u o have "blockers out u \<noteq> []"
        unfolding blockers_Nil_iff by (metis step_by_id_iff)
      with f direct(1,6) u show False by auto
    qed
  next
    case (chained s t)
    show ?case
    proof
      assume u: "u = s"
      from r chained(3) obtain t' where t': "t' \<in> set out" "block_rel steps t t'"
        by (metis in_set_conv_nth list_all2_conv_all_nth)
      with chained(3,5) have "t' \<noteq> t" by blast
      with t'(2) have "st_status t' \<in> {SFAILED, SSKIPPED}" "st_id t' = st_id t"
        by (auto simp: block_rel_def)
      with t'(1) chained(2) u o have "blockers out u \<noteq> []"
        unfolding blockers_Nil_iff by (metis step_by_id_iff)
      with f chained(1,7) u show False by auto
    qed
  qed
  from r have l: "length out = length steps"
    and p: "\<forall>i < length steps. block_rel steps (steps ! i) (out ! i)"
    by (simp_all add: list_all2_conv_all_nth)
  show ?thesis
  proof (intro conjI l allI impI)
    fix i assume i: "i < length steps"
    from p i l b [of "steps ! i" "out ! i"] show
      "if blocked steps (steps ! i)
       then \<exists>e. out ! i = (steps ! i)\<lparr>st_status := SSKIPPED, st_error := e\<rparr>
       else out ! i = steps ! i"
      by (auto simp: block_rel_def)
  qed
qed

section \<open>What the validator accepts\<close>

definition allowed_in :: "'a \<Rightarrow> 'a set option \<Rightarrow> bool" where
  "allowed_in x a \<longleftrightarrow> (case a of None \<Rightarrow> True | Some xs \<Rightarrow> x \<in> xs)"

text \<open>The part of the contract that is checked without looking at the graph.\<close>

definition static_ok :: "plan_limits \<Rightarrow> plan_step list \<Rightarrow> bool" where
  "static_ok lims steps \<longleftrightarrow>
     1 \<le> pl_max_steps lims \<and> 1 \<le> pl_max_parallel_steps lims
     \<and> int (length steps) \<le> pl_max_steps lims
     \<and> ids_ok steps \<and> [] \<notin> set (map st_id steps) \<and> deps_known steps
     \<and> (\<forall>s \<in> set steps. st_id s \<notin> set (st_dependencies s)
          \<and> allowed_in (st_agent_specialist s) (pl_allowed_agents lims)
          \<and> (\<forall>t \<in> set (st_required_tools s). allowed_in t (pl_allowed_tools lims))
          \<and> (\<forall>p \<in> set (st_required_plugins s). allowed_in p (pl_allowed_plugins lims)))"

definition chains_ok :: "plan_step list \<Rightarrow> bool" where
  "chains_ok steps \<longleftrightarrow> (\<forall>s \<in> set steps. \<forall>t \<in> set steps. st_id t \<in> set (st_dependencies s) \<longrightarrow>
     (\<forall>oc. st_output_contract t = Some oc \<longrightarrow> oc_outputs_provided oc \<noteq> []))"

text \<open>Every required input is given initially or provided by a step the consumer waits for.\<close>

definition inputs_ok :: "plan_step list \<Rightarrow> bool" where
  "inputs_ok steps \<longleftrightarrow> (\<forall>s \<in> set steps. \<forall>ic. st_input_contract s = Some ic \<longrightarrow>
     (\<forall>r \<in> set (ic_required_inputs ic). r \<in> set (dkeys (st_input_data s))
        \<or> (\<exists>t \<in> set steps. (st_id s, st_id t) \<in> (step_edges steps)\<^sup>+ \<and> r \<in> set (outputs_of t))))"

lemma id_errors_spec:
  "snd (id_errors steps ids) = ids \<union> {i \<in> set (map st_id steps). i \<noteq> []}
   \<and> (fst (id_errors steps ids) = [] \<longleftrightarrow> distinct (map st_id steps) \<and> [] \<notin> set (map st_id steps)
        \<and> set (map st_id steps) \<inter> ids = {})"
  by (induction steps ids rule: id_errors.induct) (auto simp: split_def Let_def)

lemma dep_error_Nil: "dep_error ids s d = [] \<longleftrightarrow> d \<noteq> st_id s \<and> d \<in> ids"
  by (simp add: dep_error_def)

lemma agent_and_dep_Nil:
  "agent_and_dep_errors a ids s = [] \<longleftrightarrow> allowed_in (st_agent_specialist s) a
     \<and> (\<forall>d \<in> set (st_dependencies s). d \<noteq> st_id s \<and> d \<in> ids)"
  by (auto simp: agent_and_dep_errors_def allowed_in_def dep_error_Nil split: option.splits)

lemma tool_errors_Nil:
  "tool_errors ts ps s = [] \<longleftrightarrow> (\<forall>t \<in> set (st_required_tools s). allowed_in t ts)
     \<and> (\<forall>p \<in> set (st_required_plugins s). allowed_in p ps)"
  by (auto simp: tool_errors_def allowed_in_def filter_empty_conv split: option.splits)

lemma static_errors_Nil: "static_errors lims steps = [] \<longleftrightarrow> static_ok lims steps"
proof -
  obtain es ids where i: "id_errors steps {} = (es, ids)" by fastforce
  with id_errors_spec [of steps "{}"] have
    "es = [] \<longleftrightarrow> ids_ok steps \<and> [] \<notin> set (map st_id steps)"
    "ids = {i \<in> set (map st_id steps). i \<noteq> []}" by (auto simp: ids_ok_def)
  then show ?thesis
    unfolding static_errors_def i static_ok_def deps_known_def
    by (auto simp: limit_errors_def agent_and_dep_Nil tool_errors_Nil)
qed

lemma chains_Nil:
  assumes "ids_ok steps" "deps_known steps"
  shows "validate_capability_chains steps = [] \<longleftrightarrow> chains_ok steps"
proof -
  have c: "chain_error (step_by_id steps) s d = [] \<longleftrightarrow>
      (\<forall>t \<in> set steps. st_id t = d \<longrightarrow> (\<forall>oc. st_output_contract t = Some oc \<longrightarrow> oc_outputs_provided oc \<noteq> []))"
    if "s \<in> set steps" "d \<in> set (st_dependencies s)" for s d
  proof -
    from assms(2) that obtain t where t: "t \<in> set steps" "st_id t = d" by (auto simp: deps_known_def)
    with step_by_id_iff [OF assms(1)] have g: "dget (step_by_id steps) d = Some t" by blast
    have "u = t" if "u \<in> set steps" "st_id u = d" for u
      using step_by_id_iff [OF assms(1), of d u] that g by auto
    with t have "(\<forall>u \<in> set steps. st_id u = d \<longrightarrow>
        (\<forall>oc. st_output_contract u = Some oc \<longrightarrow> oc_outputs_provided oc \<noteq> []))
      \<longleftrightarrow> (\<forall>oc. st_output_contract t = Some oc \<longrightarrow> oc_outputs_provided oc \<noteq> [])" by blast
    with g show ?thesis by (cases "st_output_contract t") (simp_all add: chain_error_def)
  qed
  have "validate_capability_chains steps = [] \<longleftrightarrow>
      (\<forall>s \<in> set steps. \<forall>d \<in> set (st_dependencies s). chain_error (step_by_id steps) s d = [])"
    by (simp add: validate_capability_chains_def)
  also have "\<dots> \<longleftrightarrow> (\<forall>s \<in> set steps. \<forall>d \<in> set (st_dependencies s). \<forall>t \<in> set steps. st_id t = d \<longrightarrow>
      (\<forall>oc. st_output_contract t = Some oc \<longrightarrow> oc_outputs_provided oc \<noteq> []))"
    by (intro ball_cong refl c)
  finally show ?thesis unfolding chains_ok_def by blast
qed

lemma collect_errors_Nil: "collect_errors es = Some [] \<longleftrightarrow> (\<forall>e \<in> set es. e = Some [])"
  by (induction es) (auto split: option.splits)

lemma collect_errors_Some: "\<forall>e \<in> set es. e \<noteq> None \<Longrightarrow> collect_errors es \<noteq> None"
  by (induction es) (auto split: option.splits)

lemma available_list_set:
  "ids_ok steps \<Longrightarrow> set (available_list (step_by_id steps) s anc) =
     set (dkeys (st_input_data s)) \<union> {x. \<exists>t \<in> set steps. st_id t \<in> anc \<and> x \<in> set (outputs_of t)}"
  by (auto simp: available_list_def step_by_id_map split: if_splits)

lemma input_errors_total:
  assumes "s \<in> set steps"
  shows "input_errors (step_by_id steps) s \<noteq> None"
proof (cases "st_input_contract s")
  case (Some ic)
  from assms have "st_id s \<in> set (dkeys (step_by_id steps))" by (simp add: step_keys)
  from ancestor_ids_top [OF this] obtain A where
    "ancestor_ids (Suc (length (step_by_id steps))) (step_by_id steps) (st_id s) {} = Some A" by metis
  with Some show ?thesis by (simp add: input_errors_def split: prod.split)
qed (simp add: input_errors_def)

lemma inputs_Nil:
  assumes o: "ids_ok steps" and k: "deps_known steps"
  shows "validate_input_satisfaction steps = Some [] \<longleftrightarrow> inputs_ok steps"
proof -
  have i: "input_errors (step_by_id steps) s = Some [] \<longleftrightarrow> (\<forall>ic. st_input_contract s = Some ic \<longrightarrow>
     (\<forall>r \<in> set (ic_required_inputs ic). r \<in> set (dkeys (st_input_data s))
        \<or> (\<exists>t \<in> set steps. (st_id s, st_id t) \<in> (step_edges steps)\<^sup>+ \<and> r \<in> set (outputs_of t))))"
    if s: "s \<in> set steps" for s
  proof (cases "st_input_contract s")
    case (Some ic)
    from s have "st_id s \<in> set (dkeys (step_by_id steps))" by (simp add: step_keys)
    from ancestor_ids_top [OF this] obtain V where
      "ancestor_ids (Suc (length (step_by_id steps))) (step_by_id steps) (st_id s) {}
         = Some ((step_edges steps)\<^sup>+ `` {st_id s}, V)"
      by (metis anc_edges_steps [OF o k])
    with Some available_list_set [OF o] show ?thesis
      by (auto simp: input_errors_def filter_empty_conv)
  qed (simp add: input_errors_def)
  have "validate_input_satisfaction steps = Some [] \<longleftrightarrow>
      (\<forall>s \<in> set steps. input_errors (step_by_id steps) s = Some [])"
    by (simp add: validate_input_satisfaction_def collect_errors_Nil)
  also have "\<dots> \<longleftrightarrow> inputs_ok steps"
    unfolding inputs_ok_def by (intro ball_cong refl i)
  finally show ?thesis .
qed

lemma validate_input_total: "validate_input_satisfaction steps \<noteq> None"
  unfolding validate_input_satisfaction_def
  by (rule collect_errors_Some) (use input_errors_total in fastforce)

lemma graph_errors_total: "graph_errors lims steps clean \<noteq> None"
  using detect_cycle_total [of steps] by (auto simp: graph_errors_def split: option.splits)

lemma graph_errors_Nil:
  assumes "ids_ok steps" "deps_known steps" "1 \<le> pl_max_parallel_steps lims"
  shows "graph_errors lims steps True = Some [] \<longleftrightarrow> acyclic (step_edges steps)
     \<and> (\<forall>n. int (card (round_of steps n)) \<le> pl_max_parallel_steps lims)"
proof (cases "acyclic (step_edges steps)")
  case True
  with detect_cycle_total [of steps] is_cycle_not_acyclic have "detect_cycle steps = Some None"
    unfolding graph_edges [OF assms(1)] by (metis graph_edges [OF assms(1)])
  moreover from schedule_width [OF assms(1,2) True] obtain w where
    w: "calculate_max_parallelism steps = Some w" "\<forall>n. card (round_of steps n) \<le> w"
    "w = 0 \<or> (\<exists>n. w = card (round_of steps n))" by blast
  moreover have "int w \<le> pl_max_parallel_steps lims \<longleftrightarrow>
      (\<forall>n. int (card (round_of steps n)) \<le> pl_max_parallel_steps lims)"
    using w(2,3) assms(3) by (auto; smt (verit) of_nat_mono)
  ultimately show ?thesis using True
    by (cases "int w \<le> pl_max_parallel_steps lims") (simp_all add: graph_errors_def)
next
  case False
  with detect_cycle_total [of steps] graph_edges [OF assms(1)] obtain cyc where
    "detect_cycle steps = Some (Some cyc)" by auto
  with False show ?thesis by (simp add: graph_errors_def)
qed

text \<open>The contract of a plan.\<close>

definition plan_ok :: "plan_limits \<Rightarrow> plan_step list \<Rightarrow> bool" where
  "plan_ok lims steps \<longleftrightarrow> steps \<noteq> [] \<and> static_ok lims steps \<and> acyclic (step_edges steps)
     \<and> (\<forall>n. int (card (round_of steps n)) \<le> pl_max_parallel_steps lims)
     \<and> chains_ok steps \<and> inputs_ok steps"

lemma validate_report:
  obtains r where "validate lims steps = Some r" "vr_valid r \<longleftrightarrow> plan_ok lims steps"
    "vr_valid r \<longleftrightarrow> vr_errors r = []"
proof (cases "steps = []")
  case True
  then show thesis
    by (intro that [of "\<lparr>vr_valid = False, vr_errors = [''plan has no steps'']\<rparr>"])
      (simp_all add: validate_def plan_ok_def)
next
  case False
  let ?st = "static_errors lims steps"
  obtain g where g: "graph_errors lims steps (?st = []) = Some g" using graph_errors_total by blast
  obtain i where i: "validate_input_satisfaction steps = Some i" using validate_input_total by blast
  let ?es = "?st @ g @ validate_capability_chains steps @ i"
  have v: "validate lims steps = Some \<lparr>vr_valid = (?es = []), vr_errors = ?es\<rparr>"
    using False g i by (simp add: validate_def Let_def)
  have "?es = [] \<longleftrightarrow> plan_ok lims steps"
  proof (cases "static_ok lims steps")
    case True
    then have s: "?st = []" by (simp add: static_errors_Nil)
    from True have o: "ids_ok steps" "deps_known steps" "1 \<le> pl_max_parallel_steps lims"
      by (simp_all add: static_ok_def)
    have "g = [] \<longleftrightarrow> acyclic (step_edges steps)
        \<and> (\<forall>n. int (card (round_of steps n)) \<le> pl_max_parallel_steps lims)"
      using graph_errors_Nil [OF o] g s by simp
    moreover have "validate_capability_chains steps = [] \<longleftrightarrow> chains_ok steps"
      by (rule chains_Nil [OF o(1,2)])
    moreover have "i = [] \<longleftrightarrow> inputs_ok steps" using inputs_Nil [OF o(1,2)] i by simp
    ultimately show ?thesis using s True False by (simp add: plan_ok_def)
  next
    case False
    then show ?thesis by (auto simp: static_errors_Nil plan_ok_def)
  qed
  with v show thesis by (intro that) auto
qed

section \<open>A concrete plan\<close>

text \<open>A research step whose output a writing step needs.\<close>

definition sample_plan :: "plan_step list" where
  "sample_plan =
     [(default_step ''research'')\<lparr>st_agent_specialist := ''researcher'',
        st_output_contract := Some \<lparr>oc_outputs_provided = [''notes''], oc_output_schema = []\<rparr>\<rparr>,
      (default_step ''write'')\<lparr>st_agent_specialist := ''analyst'', st_dependencies := [''research''],
        st_input_contract := Some \<lparr>ic_required_inputs = [''notes''], ic_optional_inputs = [],
          ic_input_schema = []\<rparr>\<rparr>]"

definition sample_limits :: plan_limits where
  "sample_limits = \<lparr>pl_allowed_agents = Some {''researcher'', ''analyst''}, pl_allowed_tools = Some {},
     pl_allowed_plugins = None, pl_max_parallel_steps = 4, pl_max_steps = 32\<rparr>"

text \<open>The same plan after its first step has failed.\<close>

definition sample_failed :: "plan_step list" where
  "sample_failed = map (\<lambda>s. if st_id s = ''research'' then s\<lparr>st_status := SFAILED\<rparr> else s) sample_plan"

section \<open>Properties\<close>

text \<open>
  C12: the cycle search always returns, answers that there is no cycle exactly when the
  dependency graph is acyclic, and otherwise returns a closed path of the graph.
\<close>

theorem detect_cycle_correct:
  "case detect_cycle steps of
     None \<Rightarrow> False
   | Some None \<Rightarrow> acyclic (dep_edges (graph_of steps))
   | Some (Some cyc) \<Rightarrow> is_cycle (graph_of steps) cyc \<and> \<not> acyclic (dep_edges (graph_of steps))"
  using detect_cycle_total [of steps] is_cycle_not_acyclic by auto

text \<open>
  C7: the validator always returns, and accepts a plan exactly when it meets the contract:
  non-empty, within the limits, distinct non-empty ids, known dependencies, no cycle, no
  round of the schedule wider than the parallelism, only allowed agents, tools and plugins,
  every prerequisite that declares outputs provides some, and every required input is given
  initially or provided by a transitive prerequisite.
\<close>

theorem validator_accepts_iff:
  "\<exists>r. validate lims steps = Some r \<and> (vr_valid r \<longleftrightarrow> plan_ok lims steps)
     \<and> (vr_valid r \<longleftrightarrow> vr_errors r = [])"
  by (rule validate_report [of lims steps]) blast

text \<open>
  blocking the dependents of failed steps terminates with exactly the blocked steps
  skipped: a pending step that depends, directly or through pending steps, on a failed or
  skipped one becomes skipped, and every other step is unchanged.
\<close>

theorem blocking_is_exact:
  assumes "mark_blocked_dependents steps = (out, n)" "ids_ok steps"
  shows "length out = length steps
    \<and> (\<forall>i < length steps. if blocked steps (steps ! i)
         then \<exists>e. out ! i = (steps ! i)\<lparr>st_status := SSKIPPED, st_error := e\<rparr>
         else out ! i = steps ! i)
    \<and> pending_count out + n = pending_count steps"
proof -
  have "list_all2 (block_rel steps) steps steps"
    by (rule list_all2_refl) (simp add: block_rel_def)
  from mark_blocked_loop_spec [OF assms(1) [unfolded mark_blocked_dependents_def] this]
    mark_blocked_effect [OF assms]
  show ?thesis by simp
qed

theorem blocking_is_exact_witness:
  "\<exists>out. mark_blocked_dependents sample_failed = (out, 1) \<and> pending_count out = 0"
proof -
  have "case mark_blocked_dependents sample_failed of (out, n) \<Rightarrow> n = 1 \<and> pending_count out = 0"
    by code_simp
  then obtain out where o: "mark_blocked_dependents sample_failed = (out, 1)" by auto
  have "ids_ok sample_failed" by code_simp
  from blocking_is_exact [OF o this] have "pending_count out + 1 = pending_count sample_failed" by simp
  moreover have "pending_count sample_failed = 1" by code_simp
  ultimately show ?thesis using o by simp
qed

lemma step_edges_cong:
  assumes "map st_id xs = map st_id ys" "map st_dependencies xs = map st_dependencies ys"
  shows "step_edges xs = step_edges ys"
proof -
  have "step_edges zs = {(i, d). \<exists>ds. (i, ds) \<in> set (zip (map st_id zs) (map st_dependencies zs)) \<and> d \<in> set ds}" for zs
    by (auto simp: step_edges_def zip_map_map zip_same_conv_map)
  with assms show ?thesis by simp
qed

text \<open>A pending step of an acyclic plan all of whose dependencies have left the pending state.\<close>

lemma minimal_pending:
  assumes "acyclic (step_edges out)" "SPENDING \<in> set (map st_status out)"
  obtains x where "x \<in> set out" "st_status x = SPENDING"
    "\<forall>d. (st_id x, d) \<in> step_edges out \<longrightarrow> d \<notin> st_id ` {s \<in> set out. st_status s = SPENDING}"
proof -
  from assms(2) obtain s where "s \<in> set out" "st_status s = SPENDING" by auto
  then have si: "st_id s \<in> st_id ` {s \<in> set out. st_status s = SPENDING}" by auto
  from acyclic_minimal [OF assms(1) this] obtain i where
    "i \<in> st_id ` {s \<in> set out. st_status s = SPENDING}"
    "\<forall>d. (i, d) \<in> step_edges out \<longrightarrow> d \<notin> st_id ` {s \<in> set out. st_status s = SPENDING}" .
  with that show thesis by auto
qed

text \<open>Blocking starts no step, and leaves a pending step only without failed or skipped dependencies.\<close>

lemma blocked_spec:
  assumes "mark_blocked_dependents steps = (out, n)"
  shows "map st_id out = map st_id steps" "map st_dependencies out = map st_dependencies steps"
    "SRUNNING \<notin> set (map st_status steps) \<Longrightarrow> SRUNNING \<notin> set (map st_status out)"
    "x \<in> set out \<Longrightarrow> st_status x = SPENDING \<Longrightarrow> blockers out x = []"
proof -
  have refl: "list_all2 (block_rel steps) steps steps" by (rule list_all2_refl) (simp add: block_rel_def)
  note m = mark_blocked_loop_spec [OF assms [unfolded mark_blocked_dependents_def] refl]
  then have m1: "list_all2 (block_rel steps) steps out" by blast
  from list_all2_ids [OF m1] show "map st_id out = map st_id steps" "map st_dependencies out = map st_dependencies steps" by simp_all
  show "SRUNNING \<notin> set (map st_status out)" if r: "SRUNNING \<notin> set (map st_status steps)"
  proof
    assume "SRUNNING \<in> set (map st_status out)"
    then obtain t where t: "t \<in> set out" "st_status t = SRUNNING" by auto
    with m obtain s where "s \<in> set steps" "block_rel steps s t" by (metis in_set_conv_nth list_all2_conv_all_nth)
    with t(2) r show False by (force simp: block_rel_def)
  qed
  show "x \<in> set out \<Longrightarrow> st_status x = SPENDING \<Longrightarrow> blockers out x = []" using m by blast
qed

text \<open>
  C13: an accepted plan never gets stuck: whatever statuses its steps have reached, when no
  step is running, after the blocked steps are skipped either nothing is pending or some step
  can run.
\<close>

theorem accepted_plan_progresses:
  assumes "validate lims plan = Some r" "vr_valid r"
    and "map st_id steps = map st_id plan"
    and "map st_dependencies steps = map st_dependencies plan"
    and "SRUNNING \<notin> set (map st_status steps)"
    and "mark_blocked_dependents steps = (out, n)"
  shows "SPENDING \<notin> set (map st_status out) \<or> get_next_runnable_steps out \<noteq> []"
proof (rule ccontr)
  assume c: "\<not> ?thesis"
  from validate_report [of lims plan] assms(1,2) have v: "plan_ok lims plan" by auto
  note b = blocked_spec [OF assms(6)]
  have ids: "map st_id out = map st_id plan" and e: "step_edges out = step_edges plan"
    using b(1,2) assms(3,4) by (simp_all cong: step_edges_cong)
  have "acyclic (step_edges out)" using v e by (simp add: plan_ok_def)
  from minimal_pending [OF this] c obtain x where
    x: "x \<in> set out" "st_status x = SPENDING"
    "\<forall>d. (st_id x, d) \<in> step_edges out \<longrightarrow> d \<notin> st_id ` {s \<in> set out. st_status s = SPENDING}" by blast
  have o: "ids_ok out" using v ids by (simp add: plan_ok_def static_ok_def ids_ok_def)
  have "d \<in> completed_ids out" if d: "d \<in> set (st_dependencies x)" for d
  proof -
    from x(1) d have ed: "(st_id x, d) \<in> step_edges out" by (auto simp: step_edges_def)
    with e v have "d \<in> set (map st_id plan)"
      by (auto simp: step_edges_def plan_ok_def static_ok_def deps_known_def)
    with ids obtain t where t: "t \<in> set out" "st_id t = d" by (metis imageE set_map)
    with o have "dget (step_by_id out) d = Some t" by (simp add: step_by_id_iff)
    with b(4) [OF x(1,2)] d have "st_status t \<notin> {SFAILED, SSKIPPED}" by (auto simp: blockers_Nil_iff)
    moreover from x(3) ed t have "st_status t \<noteq> SPENDING" by auto
    moreover from b(3) [OF assms(5)] t(1) have "st_status t \<noteq> SRUNNING" by force
    ultimately have "st_status t = SCOMPLETED" by (cases "st_status t") auto
    with t show ?thesis by (auto simp: completed_ids_def)
  qed
  with x(1,2) have "x \<in> set (get_next_runnable_steps out)" by (simp add: get_next_runnable_steps_def)
  with c show False by auto
qed

theorem accepted_plan_progresses_witness:
  "get_next_runnable_steps sample_plan \<noteq> []"
proof -
  have "case validate sample_limits sample_plan of None \<Rightarrow> False | Some r \<Rightarrow> vr_valid r" by code_simp
  then obtain r where r: "validate sample_limits sample_plan = Some r" "vr_valid r"
    by (auto split: option.splits)
  have m: "mark_blocked_dependents sample_plan = (sample_plan, 0)" by code_simp
  have run: "SRUNNING \<notin> set (map st_status sample_plan)"
    by (simp add: sample_plan_def default_step_def)
  have "SPENDING \<in> set (map st_status sample_plan)"
    by (simp add: sample_plan_def default_step_def)
  with accepted_plan_progresses [OF r refl refl run m] show ?thesis by blast
qed

end
