(* ===== verification/DependencyResolver.thy ===== *)
theory DependencyResolver
  imports Prelude
begin

text \<open>
  The loading order of extensions,
  \<^verbatim>\<open>src/src/ai_karen_engine/extensions/platform/core/host/dependency_resolver.py\<close>: the dependency
  graph, the check for missing dependencies, Kahn's algorithm, the version check and the tree.

  The dependencies of an extension are a Python set; the order in which it is enumerated is the
  parameter \<open>so\<close>, of which only \<open>set_order so\<close> is assumed: it enumerates every element once.
\<close>

section \<open>Data\<close>

record manifest_deps =
  md_version :: string
  md_extensions :: "string list"
  md_plugins :: "string list"
  md_system_services :: "string list"

datatype dependency_error = MissingDependency string | CircularDependency string

type_synonym order_graph = "(string, string list) pydict"

definition set_order :: "(string list \<Rightarrow> string list) \<Rightarrow> bool" where
  "set_order so \<longleftrightarrow> (\<forall>xs. set (so xs) = set xs \<and> distinct (so xs))"

section \<open>The graph\<close>

text \<open>\<^verbatim>\<open>dep.split('@', 1)\<close>: the text before the first at sign and the rest, if there is one.\<close>

definition split_at :: "string \<Rightarrow> string \<times> string option" where
  "split_at dep = (let n = takeWhile (\<lambda>c. c \<noteq> CHR ''@'') dep in
     if CHR ''@'' \<in> set dep then (n, Some (drop (Suc (length n)) dep)) else (dep, None))"

definition build_dependency_graph ::
    "(string list \<Rightarrow> string list) \<Rightarrow> (string, manifest_deps) pydict \<Rightarrow> order_graph" where
  "build_dependency_graph so ms =
     map (\<lambda>(name, m). (name, so (map (\<lambda>d. fst (split_at d)) (md_extensions m)))) ms"

definition missing_dependencies :: "order_graph \<Rightarrow> string list \<Rightarrow> string list" where
  "missing_dependencies g available =
     concat (map (\<lambda>(ext, deps).
       map (\<lambda>d. ext @ '' requires '' @ d) (filter (\<lambda>d. d \<notin> set available) deps)) g)"

definition check_missing_dependencies ::
    "order_graph \<Rightarrow> (string, manifest_deps) pydict \<Rightarrow> dependency_error + unit" where
  "check_missing_dependencies g ms =
     (let missing = missing_dependencies g (dkeys ms) in
      if missing \<noteq> [] then Inl (MissingDependency (''Missing dependencies: '' @ join '', '' missing))
      else Inr ())"

section \<open>Kahn's algorithm\<close>

definition deps_of :: "order_graph \<Rightarrow> string \<Rightarrow> string list" where
  "deps_of g n = (case dget g n of None \<Rightarrow> [] | Some ds \<Rightarrow> ds)"

text \<open>\<^verbatim>\<open>if dependency in in_degree: in_degree[dependency] += 1\<close>, over a list of dependencies.\<close>

fun bump :: "string list \<Rightarrow> (string, int) pydict \<Rightarrow> (string, int) pydict" where
  "bump [] d = d"
| "bump (x # xs) d = bump xs (case dget d x of None \<Rightarrow> d | Some k \<Rightarrow> dset x (k + 1) d)"

definition in_degrees :: "order_graph \<Rightarrow> (string, int) pydict" where
  "in_degrees g = fold (\<lambda>(n, ds) d. bump ds d) g (map (\<lambda>(n, _). (n, 0)) g)"

text \<open>The edges of the node taken from the queue are removed; nodes left without one are queued.\<close>

fun relax :: "string list \<Rightarrow> (string, int) pydict \<Rightarrow> string list \<Rightarrow> (string, int) pydict \<times> string list" where
  "relax [] d q = (d, q)"
| "relax (x # xs) d q =
     (case dget d x of
        None \<Rightarrow> relax xs d q
      | Some k \<Rightarrow> relax xs (dset x (k - 1) d) (if k - 1 = 0 then q @ [x] else q))"

definition positives :: "(string, int) pydict \<Rightarrow> nat" where
  "positives d = length (filter (\<lambda>(_, k). 0 < k) d)"

lemma positives_decr:
  "dget d x = Some k \<Longrightarrow> positives (dset x (k - 1) d) + (if k - 1 = 0 then 1 else 0) = positives d"
  unfolding dget_def dset_def positives_def by (induction d) (auto split: if_splits)

lemma relax_measure: "relax xs d q = (d', q') \<Longrightarrow> length q' + positives d' = length q + positives d"
proof (induction xs d q rule: relax.induct)
  case (2 x xs d q)
  show ?case
  proof (cases "dget d x")
    case None
    with 2 show ?thesis by simp
  next
    case (Some k)
    with 2(3) have "relax xs (dset x (k - 1) d) (if k - 1 = 0 then q @ [x] else q) = (d', q')" by simp
    from "2.IH"(2) [OF Some this] positives_decr [OF Some] show ?thesis by (auto split: if_splits)
  qed
qed simp

function kahn :: "order_graph \<Rightarrow> string list \<Rightarrow> (string, int) pydict \<Rightarrow> string list \<Rightarrow> string list" where
  "kahn g [] d result = result"
| "kahn g (current # q) d result =
     (let (d', q') = relax (deps_of g current) d q in kahn g q' d' (result @ [current]))"
  by pat_completeness auto

termination
  by (relation "measure (\<lambda>(g, q, d, result). length q + positives d)")
    (auto dest!: relax_measure [OF sym])

definition topological_sort :: "order_graph \<Rightarrow> dependency_error + string list" where
  "topological_sort g =
     (let d = in_degrees g;
          result = kahn g (map fst (filter (\<lambda>(_, k). k = 0) d)) d []
      in if length result \<noteq> length g
         then Inl (CircularDependency (''Circular dependency detected involving: ''
                @ join '', '' (filter (\<lambda>n. n \<notin> set result) (dkeys g))))
         else Inr result)"

definition resolve_loading_order ::
    "(string list \<Rightarrow> string list) \<Rightarrow> (string, manifest_deps) pydict \<Rightarrow> dependency_error + string list" where
  "resolve_loading_order so ms =
     (let g = build_dependency_graph so ms in
      rbind (check_missing_dependencies g ms) (\<lambda>_. topological_sort g))"

section \<open>Versions\<close>

fun parse_parts :: "string list \<Rightarrow> int list option" where
  "parse_parts [] = Some []"
| "parse_parts (s # ss) = (case parse_int s of None \<Rightarrow> None | Some i \<Rightarrow>
     (case parse_parts ss of None \<Rightarrow> None | Some is \<Rightarrow> Some (i # is)))"

definition pad :: "nat \<Rightarrow> int list \<Rightarrow> int list" where
  "pad n xs = xs @ replicate (n - length xs) 0"

text \<open>\<open>None\<close> inside is the \<^verbatim>\<open>IndexError\<close> of a list that is too short; both exceptions mean incompatible.\<close>

definition tilde_compatible :: "int list \<Rightarrow> int list \<Rightarrow> bool" where
  "tilde_compatible a r =
     (a ! 0 = r ! 0 \<and> 1 < length a \<and> a ! 1 = r ! 1 \<and> 2 < length a \<and> r ! 2 \<le> a ! 2)"

definition is_version_compatible :: "string \<Rightarrow> string \<Rightarrow> bool" where
  "is_version_compatible available spec =
     (let required = (if starts_with spec ''^'' \<or> starts_with spec ''~'' then drop 1 spec else spec)
      in (case (parse_parts (split_on (CHR ''.'') available), parse_parts (split_on (CHR ''.'') required)) of
            (Some a, Some r) \<Rightarrow>
              (let n = max (length a) (length r); a' = pad n a; r' = pad n r
               in if starts_with spec ''^'' then a' ! 0 = r' ! 0 \<and> r' \<le> a'
                  else if starts_with spec ''~'' then tilde_compatible a' r'
                  else a' = r')
          | _ \<Rightarrow> False))"

definition check_version_compatibility :: "(string, manifest_deps) pydict \<Rightarrow> string list" where
  "check_version_compatibility ms =
     concat (map (\<lambda>(name, m). concat (map (\<lambda>dep.
       (case split_at dep of
          (_, None) \<Rightarrow> []
        | (dn, Some spec) \<Rightarrow> (case dget ms dn of
             None \<Rightarrow> []
           | Some dm \<Rightarrow>
               if is_version_compatible (md_version dm) spec then []
               else [name @ '' requires '' @ dn @ '' '' @ spec @ '', but version ''
                     @ md_version dm @ '' is available'']))) (md_extensions m))) ms)"

record tree_dep =
  td_name :: string
  td_version_spec :: string
  td_available :: bool
  td_available_version :: "string option"

record tree_node =
  tn_version :: string
  tn_extensions :: "tree_dep list"
  tn_plugins :: "string list"
  tn_system_services :: "string list"

definition get_dependency_tree :: "(string, manifest_deps) pydict \<Rightarrow> (string, tree_node) pydict" where
  "get_dependency_tree ms =
     map (\<lambda>(name, m). (name,
       \<lparr>tn_version = md_version m,
        tn_extensions = map (\<lambda>dep.
          (let (dn, spec) = (case split_at dep of (d, None) \<Rightarrow> (d, ''*'') | (d, Some s) \<Rightarrow> (d, s))
           in \<lparr>td_name = dn, td_version_spec = spec, td_available = (dget ms dn \<noteq> None),
               td_available_version = map_option md_version (dget ms dn)\<rparr>)) (md_extensions m),
        tn_plugins = md_plugins m, tn_system_services = md_system_services m\<rparr>)) ms"

section \<open>The in-degrees\<close>

text \<open>The nodes outside \<open>R\<close> that depend on \<open>x\<close>.\<close>

definition preds :: "order_graph \<Rightarrow> string set \<Rightarrow> string \<Rightarrow> string set" where
  "preds g R x = {n \<in> set (dkeys g) - R. x \<in> set (deps_of g n)}"

definition graph_ok :: "order_graph \<Rightarrow> bool" where
  "graph_ok g \<longleftrightarrow> dict_ok g
     \<and> (\<forall>(n, ds) \<in> set g. distinct ds \<and> set ds \<subseteq> set (dkeys g))"

lemma finite_preds [simp]: "finite (preds g R x)"
  by (simp add: preds_def)

lemma deps_of_mem: "dict_ok g \<Longrightarrow> (n, ds) \<in> set g \<Longrightarrow> deps_of g n = ds"
  by (simp add: deps_of_def dget_SomeI)

lemma deps_of_ok: "graph_ok g \<Longrightarrow> distinct (deps_of g n) \<and> set (deps_of g n) \<subseteq> set (dkeys g)"
  by (cases "dget g n") (auto simp: deps_of_def graph_ok_def dest!: dget_SomeD)

lemma deps_of_dom: "x \<in> set (deps_of g n) \<Longrightarrow> n \<in> set (dkeys g)"
  by (cases "dget g n") (auto simp: deps_of_def dest: dget_in_keys)

lemma bump_get:
  "distinct xs \<Longrightarrow> dget (bump xs d) y = map_option (\<lambda>k. if y \<in> set xs then k + 1 else k) (dget d y)"
proof (induction xs arbitrary: d)
  case (Cons x xs)
  then show ?case by (cases "dget d x") (auto simp: dget_dset map_option_case split: option.splits)
qed (simp add: option.map_ident)

lemma relax_spec:
  "distinct xs \<Longrightarrow> relax xs d q = (d', q') \<Longrightarrow>
     q' = q @ filter (\<lambda>x. dget d x = Some 1) xs
     \<and> (\<forall>y. dget d' y = map_option (\<lambda>k. if y \<in> set xs then k - 1 else k) (dget d y))"
proof (induction xs arbitrary: d q)
  case Nil
  then show ?case by (simp add: option.map_ident)
next
  case (Cons x xs)
  show ?case
  proof (cases "dget d x")
    case None
    with Cons(3) have r: "relax xs d q = (d', q')" by simp
    have "map_option (\<lambda>k. if y \<in> set xs then k - 1 else k) (dget d y)
        = map_option (\<lambda>k. if y \<in> set (x # xs) then k - 1 else k) (dget d y)" for y
      using None by (cases "y = x") auto
    with Cons(1) [OF _ r] Cons(2) None show ?thesis by simp
  next
    case (Some k)
    with Cons(3) have "relax xs (dset x (k - 1) d) (if k - 1 = 0 then q @ [x] else q) = (d', q')" by simp
    note h = Cons(1) [OF _ this]
    have "filter (\<lambda>y. dget (dset x (k - 1) d) y = Some 1) xs = filter (\<lambda>y. dget d y = Some 1) xs"
      using Cons(2) by (intro filter_cong) (auto simp: dget_dset)
    moreover have "map_option (\<lambda>k. if y \<in> set xs then k - 1 else k) (dget (dset x (k - 1) d) y)
        = map_option (\<lambda>k. if y \<in> set (x # xs) then k - 1 else k) (dget d y)" for y
      using Cons(2) Some by (cases "y = x") (auto simp: dget_dset)
    ultimately show ?thesis using h Cons(2) Some by auto
  qed
qed

lemma in_degrees_fold:
  assumes "dict_ok g"
  shows "\<forall>(n, ds) \<in> set es. distinct ds \<Longrightarrow> distinct (map fst es) \<Longrightarrow>
     dget (fold (\<lambda>(n, ds) d. bump ds d) es d) y
       = map_option (\<lambda>k. k + int (card {n. \<exists>ds. (n, ds) \<in> set es \<and> y \<in> set ds})) (dget d y)"
proof (induction es arbitrary: d)
  case Nil
  then show ?case by (simp add: option.map_ident)
next
  case (Cons e es)
  obtain n ds where e: "e = (n, ds)" by (cases e)
  have f: "finite {m. \<exists>ds. (m, ds) \<in> set es \<and> y \<in> set ds}"
    by (rule finite_subset [of _ "fst ` set es"]) force+
  have n: "n \<notin> {m. \<exists>ds. (m, ds) \<in> set es \<and> y \<in> set ds}" using Cons(3) e by (force simp: image_iff)
  have "{m. \<exists>ds'. (m, ds') \<in> set (e # es) \<and> y \<in> set ds'}
      = (if y \<in> set ds then insert n {m. \<exists>ds. (m, ds) \<in> set es \<and> y \<in> set ds}
         else {m. \<exists>ds. (m, ds) \<in> set es \<and> y \<in> set ds})"
    using e by auto
  with f n Cons e show ?case
    by (simp add: bump_get option.map_comp comp_def ac_simps)
qed

lemma in_degrees_get:
  assumes "graph_ok g"
  shows "dget (in_degrees g) y = (if y \<in> set (dkeys g) then Some (int (card (preds g {} y))) else None)"
proof -
  have ok: "dict_ok g" "\<forall>(n, ds) \<in> set g. distinct ds" "distinct (map fst g)"
    using assms by (auto simp: graph_ok_def dict_ok_def dkeys_def)
  have "{n. \<exists>ds. (n, ds) \<in> set g \<and> y \<in> set ds} = preds g {} y"
    using deps_of_mem [OF ok(1)] by (force simp: preds_def dkeys_def deps_of_def dest: dget_SomeD split: option.splits)
  moreover have "dget (map (\<lambda>(n, _). (n, 0 :: int)) g) y = (if y \<in> set (dkeys g) then Some 0 else None)"
    by (induction g) (auto simp: dget_Cons split: prod.splits)
  ultimately show ?thesis
    using in_degrees_fold [OF ok(1,2,3)] by (simp add: in_degrees_def)
qed

section \<open>The invariant of the queue\<close>

definition kahn_inv :: "order_graph \<Rightarrow> string list \<Rightarrow> (string, int) pydict \<Rightarrow> string list \<Rightarrow> bool" where
  "kahn_inv g q d res \<longleftrightarrow>
     (\<forall>x \<in> set (dkeys g). dget d x = Some (int (card (preds g (set res) x))))
     \<and> distinct (res @ q) \<and> set res \<subseteq> set (dkeys g)
     \<and> set q = {x \<in> set (dkeys g) - set res. preds g (set res) x = {}}
     \<and> (\<forall>i < length res. preds g {} (res ! i) \<subseteq> set (take i res))"

lemma preds_step:
  assumes "c \<in> set (dkeys g)" "c \<notin> R"
  shows "card (preds g (insert c R) x) = (if x \<in> set (deps_of g c) then card (preds g R x) - 1
                                          else card (preds g R x))"
    and "x \<in> set (deps_of g c) \<Longrightarrow> 1 \<le> card (preds g R x)"
proof -
  have e: "preds g (insert c R) x = preds g R x - {c}" by (auto simp: preds_def)
  have "x \<in> set (deps_of g c) \<longleftrightarrow> c \<in> preds g R x" using assms by (auto simp: preds_def)
  then show "card (preds g (insert c R) x) = (if x \<in> set (deps_of g c) then card (preds g R x) - 1
                                          else card (preds g R x))"
    unfolding e by (auto simp: card_Diff_singleton)
  show "1 \<le> card (preds g R x)" if "x \<in> set (deps_of g c)"
    using that assms by (auto simp: Suc_le_eq card_gt_0_iff preds_def)
qed

lemma kahn_step:
  assumes ok: "graph_ok g" and inv: "kahn_inv g (c # q) d res"
    and r: "relax (deps_of g c) d q = (d', q')"
  shows "kahn_inv g q' d' (res @ [c])"
proof -
  let ?R = "set res"
  have c: "c \<in> set (dkeys g)" "c \<notin> ?R" "preds g ?R c = {}" "c \<notin> set q" "distinct (res @ q)"
    and res: "?R \<subseteq> set (dkeys g)" "\<forall>i < length res. preds g {} (res ! i) \<subseteq> set (take i res)"
    and d: "\<forall>x \<in> set (dkeys g). dget d x = Some (int (card (preds g ?R x)))"
    and q: "set (c # q) = {x \<in> set (dkeys g) - ?R. preds g ?R x = {}}"
    using inv by (auto simp: kahn_inv_def)
  have D: "distinct (deps_of g c)" "set (deps_of g c) \<subseteq> set (dkeys g)" using deps_of_ok [OF ok] by auto
  from relax_spec [OF D(1) r] have q': "q' = q @ filter (\<lambda>x. dget d x = Some 1) (deps_of g c)"
    and d': "\<And>y. dget d' y = map_option (\<lambda>k. if y \<in> set (deps_of g c) then k - 1 else k) (dget d y)"
    by auto
  note step = preds_step [OF c(1,2)]
  have one: "filter (\<lambda>x. dget d x = Some 1) (deps_of g c)
      = filter (\<lambda>x. preds g (insert c ?R) x = {}) (deps_of g c)"
  proof (rule filter_cong [OF refl])
    fix x assume x: "x \<in> set (deps_of g c)"
    with D(2) d have "dget d x = Some 1 \<longleftrightarrow> card (preds g ?R x) = 1" by auto
    also have "\<dots> \<longleftrightarrow> card (preds g (insert c ?R) x) = 0" using step(1) [of x] step(2) [OF x] x by auto
    also have "\<dots> \<longleftrightarrow> preds g (insert c ?R) x = {}" by simp
    finally show "(dget d x = Some 1) = (preds g (insert c ?R) x = {})" .
  qed
  have nodep: "x \<notin> set q" if "x \<in> set (deps_of g c)" for x
  proof
    assume "x \<in> set q"
    then have "preds g ?R x = {}" using q by auto
    with step(2) [OF that] show False by simp
  qed
  have nores: "x \<notin> insert c ?R" if x: "x \<in> set (deps_of g c)" for x
  proof
    assume "x \<in> insert c ?R"
    then consider "x = c" | i where "i < length res" "x = res ! i" by (auto simp: in_set_conv_nth)
    then show False
    proof cases
      case 1
      with step(2) [OF x] c(3) show ?thesis by simp
    next
      case 2
      have "c \<in> preds g {} x" using x c(1) by (simp add: preds_def)
      with res(2) 2 have "c \<in> set (take i res)" by blast
      with c(2) show ?thesis by (auto dest: in_set_takeD)
    qed
  qed
  show ?thesis unfolding kahn_inv_def
  proof (intro conjI)
    show "\<forall>x \<in> set (dkeys g). dget d' x = Some (int (card (preds g (set (res @ [c])) x)))"
    proof
      fix x assume "x \<in> set (dkeys g)"
      with d d' step(1) [of x] step(2) [of x]
      show "dget d' x = Some (int (card (preds g (set (res @ [c])) x)))"
        by (auto simp: of_nat_diff)
    qed
    show "distinct ((res @ [c]) @ q')"
      using c D nodep nores unfolding q' one by auto
    show "set (res @ [c]) \<subseteq> set (dkeys g)" using res c by simp
    show "set q' = {x \<in> set (dkeys g) - set (res @ [c]). preds g (set (res @ [c])) x = {}}"
    proof -
      have "x \<in> set q' \<longleftrightarrow> x \<in> set (dkeys g) - insert c ?R \<and> preds g (insert c ?R) x = {}" for x
      proof (cases "x \<in> set (deps_of g c)")
        case True
        with nodep nores D show ?thesis unfolding q' one by auto
      next
        case False
        then have "preds g (insert c ?R) x = preds g ?R x" by (auto simp: preds_def)
        with False q c(4) show ?thesis unfolding q' one by auto
      qed
      then show ?thesis by auto
    qed
    show "\<forall>i < length (res @ [c]). preds g {} ((res @ [c]) ! i) \<subseteq> set (take i (res @ [c]))"
      using res(2) c(3) by (auto simp: nth_append less_Suc_eq preds_def)
  qed
qed

lemma kahn_final:
  "graph_ok g \<Longrightarrow> kahn_inv g q d res \<Longrightarrow> \<exists>d'. kahn_inv g [] d' (kahn g q d res)"
proof (induction g q d res rule: kahn.induct)
  case (1 g d res)
  then show ?case by auto
next
  case (2 g c q d res)
  obtain d' q' where r: "relax (deps_of g c) d q = (d', q')" by fastforce
  from "2.IH" [OF r [symmetric] refl "2.prems"(1) kahn_step [OF "2.prems" r]] r
  show ?case by simp
qed

lemma kahn_init:
  assumes "graph_ok g"
  shows "kahn_inv g (map fst (filter (\<lambda>(_, k). k = 0) (in_degrees g))) (in_degrees g) []"
proof -
  have k: "set (dkeys (in_degrees g)) = set (dkeys g)"
    using in_degrees_get [OF assms] dget_None_iff [of "in_degrees g"] by (metis option.distinct(1) subsetI subset_antisym)
  have bump_keys: "dkeys (bump ds d) = dkeys d" for ds and d :: "(string, int) pydict"
    by (induction ds d rule: bump.induct)
      (auto split: option.splits simp: dkeys_dset dest: dget_in_keys)
  have fk: "dkeys (fold (\<lambda>(n, ds) d. bump ds d) es d) = dkeys d" for es and d :: "(string, int) pydict"
    by (induction es arbitrary: d) (auto simp: bump_keys)
  have "dkeys (in_degrees g) = dkeys (map (\<lambda>(n, _). (n, 0 :: int)) g)"
    unfolding in_degrees_def by (rule fk)
  also have "\<dots> = dkeys g" by (induction g) auto
  finally have "dkeys (in_degrees g) = dkeys g" .
  then have dk: "dict_ok (in_degrees g)" using assms by (simp add: dict_ok_def graph_ok_def)
  have mem: "(x, 0) \<in> set (in_degrees g) \<longleftrightarrow> dget (in_degrees g) x = Some 0" for x
    using dget_SomeI [OF dk] dget_SomeD by metis
  have "set (map fst (filter (\<lambda>(_, k). k = 0) (in_degrees g)))
      = {x. (x, 0) \<in> set (in_degrees g)}" by force
  also have "\<dots> = {x \<in> set (dkeys g). preds g {} x = {}}"
    unfolding mem in_degrees_get [OF assms] by auto
  finally show ?thesis
    using dk unfolding kahn_inv_def
    by (simp add: in_degrees_get [OF assms] dict_ok_def dkeys_def distinct_map_filter)
qed

section \<open>What a loading order is\<close>

definition order_edges :: "order_graph \<Rightarrow> (string \<times> string) set" where
  "order_edges g = {(n, x). x \<in> set (deps_of g n)}"

lemma topological_sort_ok:
  assumes ok: "graph_ok g" and t: "topological_sort g = Inr order"
  shows "set order = set (dkeys g) \<and> distinct order
    \<and> (\<forall>i < length order. preds g {} (order ! i) \<subseteq> set (take i order))"
proof -
  from t kahn_final [OF ok kahn_init [OF ok]] obtain d' where
    inv: "kahn_inv g [] d' order" and l: "length order = length g"
    by (auto simp: topological_sort_def Let_def split: if_splits)
  have "card (set (dkeys g)) = length g"
    using ok distinct_card [of "dkeys g"] by (simp add: graph_ok_def dict_ok_def dkeys_def)
  moreover have "card (set order) = length order" using inv by (simp add: kahn_inv_def distinct_card)
  ultimately have "set order = set (dkeys g)"
    using inv l by (intro card_subset_eq) (auto simp: kahn_inv_def)
  with inv show ?thesis by (simp add: kahn_inv_def)
qed

lemma topological_sort_acyclic:
  assumes ok: "graph_ok g" and a: "acyclic (order_edges g)"
  shows "\<exists>order. topological_sort g = Inr order"
proof -
  let ?res = "kahn g (map fst (filter (\<lambda>(_, k). k = 0) (in_degrees g))) (in_degrees g) []"
  from kahn_final [OF ok kahn_init [OF ok]] obtain d' where inv: "kahn_inv g [] d' ?res" by auto
  have "set (dkeys g) - set ?res = {}"
  proof (rule ccontr)
    assume "set (dkeys g) - set ?res \<noteq> {}"
    then obtain y where y: "y \<in> set (dkeys g) - set ?res" by blast
    have "order_edges g \<subseteq> set (dkeys g) \<times> set (dkeys g)"
      using deps_of_ok [OF ok] deps_of_dom by (auto simp: order_edges_def)
    then have "wf (order_edges g)"
      using a by (intro finite_acyclic_wf) (auto intro: finite_subset)
    from wfE_min [OF this y] obtain z where
      z: "z \<in> set (dkeys g) - set ?res" "\<And>p. (p, z) \<in> order_edges g \<Longrightarrow> p \<notin> set (dkeys g) - set ?res" by blast
    then have "preds g (set ?res) z = {}" by (auto simp: preds_def order_edges_def)
    with z(1) inv show False by (auto simp: kahn_inv_def)
  qed
  with inv have "set ?res = set (dkeys g)" "distinct ?res" by (auto simp: kahn_inv_def)
  then have "length ?res = length g"
    using ok distinct_card [of ?res] distinct_card [of "dkeys g"]
    by (simp add: graph_ok_def dict_ok_def dkeys_def)
  then show ?thesis by (simp add: topological_sort_def Let_def)
qed

text \<open>The declared dependencies: which extension names which other.\<close>

definition manifest_edges :: "(string, manifest_deps) pydict \<Rightarrow> (string \<times> string) set" where
  "manifest_edges ms = {(n, x). \<exists>m. dget ms n = Some m \<and>
     x \<in> set (map (\<lambda>d. fst (split_at d)) (md_extensions m))}"

definition deps_available :: "(string, manifest_deps) pydict \<Rightarrow> bool" where
  "deps_available ms \<longleftrightarrow> manifest_edges ms \<subseteq> UNIV \<times> set (dkeys ms)"

lemma build_keys [simp]: "dkeys (build_dependency_graph so ms) = dkeys ms"
  by (induction ms) (auto simp: build_dependency_graph_def)

lemma build_get:
  "dget (build_dependency_graph so ms) n
     = map_option (\<lambda>m. so (map (\<lambda>d. fst (split_at d)) (md_extensions m))) (dget ms n)"
  by (induction ms) (auto simp: build_dependency_graph_def dget_Cons)

lemma build_edges:
  assumes "set_order so"
  shows "order_edges (build_dependency_graph so ms) = manifest_edges ms"
proof -
  have "x \<in> set (deps_of (build_dependency_graph so ms) n) \<longleftrightarrow> (n, x) \<in> manifest_edges ms" for n x
    using assms by (cases "dget ms n") (simp_all add: deps_of_def build_get manifest_edges_def set_order_def)
  then show ?thesis by (auto simp: order_edges_def)
qed

lemma build_ok:
  assumes "set_order so" "dict_ok ms" "deps_available ms"
  shows "graph_ok (build_dependency_graph so ms)"
proof -
  let ?g = "build_dependency_graph so ms"
  have k: "dict_ok ?g" using assms(2) by (simp add: dict_ok_def)
  have "distinct ds \<and> set ds \<subseteq> set (dkeys ?g)" if "(n, ds) \<in> set ?g" for n ds
  proof
    show "distinct ds" using that assms(1)
      by (auto simp: build_dependency_graph_def set_order_def split: prod.splits)
    have "deps_of ?g n = ds" by (rule deps_of_mem [OF k that])
    then have "{n} \<times> set ds \<subseteq> manifest_edges ms"
      by (auto simp: build_edges [OF assms(1), symmetric] order_edges_def)
    with assms(3) show "set ds \<subseteq> set (dkeys ?g)" by (auto simp: deps_available_def)
  qed
  with k show ?thesis by (auto simp: graph_ok_def)
qed

lemma no_missing:
  assumes "set_order so" "dict_ok ms"
  shows "missing_dependencies (build_dependency_graph so ms) (dkeys ms) = [] \<longleftrightarrow> deps_available ms"
proof -
  have "missing_dependencies (build_dependency_graph so ms) (dkeys ms) = [] \<longleftrightarrow>
      (\<forall>(n, ds) \<in> set (build_dependency_graph so ms). set ds \<subseteq> set (dkeys ms))"
    by (auto simp: missing_dependencies_def filter_empty_conv) blast
  also have "\<dots> \<longleftrightarrow> (\<forall>(n, m) \<in> set ms. set (map (\<lambda>d. fst (split_at d)) (md_extensions m)) \<subseteq> set (dkeys ms))"
    using assms(1) by (simp add: build_dependency_graph_def set_order_def split_def)
  also have "\<dots> \<longleftrightarrow> deps_available ms"
  proof
    assume a: "\<forall>(n, m) \<in> set ms. set (map (\<lambda>d. fst (split_at d)) (md_extensions m)) \<subseteq> set (dkeys ms)"
    have "x \<in> set (dkeys ms)" if "(n, x) \<in> manifest_edges ms" for n x
    proof -
      from that obtain m where m: "dget ms n = Some m"
        "x \<in> set (map (\<lambda>d. fst (split_at d)) (md_extensions m))"
        unfolding manifest_edges_def by blast
      with bspec [OF a dget_SomeD [OF m(1)]] show ?thesis by blast
    qed
    then show "deps_available ms" by (auto simp: deps_available_def)
  next
    assume av: "deps_available ms"
    have "set (map (\<lambda>d. fst (split_at d)) (md_extensions m)) \<subseteq> set (dkeys ms)" if "(n, m) \<in> set ms" for n m
    proof
      fix x assume "x \<in> set (map (\<lambda>d. fst (split_at d)) (md_extensions m))"
      with dget_SomeI [OF assms(2) that] have "(n, x) \<in> manifest_edges ms"
        unfolding manifest_edges_def by blast
      with av show "x \<in> set (dkeys ms)" unfolding deps_available_def by blast
    qed
    then show "\<forall>(n, m) \<in> set ms. set (map (\<lambda>d. fst (split_at d)) (md_extensions m)) \<subseteq> set (dkeys ms)"
      by blast
  qed
  finally show ?thesis .
qed

lemma position_nth: "distinct xs \<Longrightarrow> i < length xs \<Longrightarrow> length (takeWhile (\<lambda>y. y \<noteq> xs ! i) xs) = i"
proof -
  assume d: "distinct xs" "i < length xs"
  have "takeWhile (\<lambda>y. y \<noteq> xs ! i) xs = take i xs"
    by (rule takeWhile_eq_take_P_nth) (use d in \<open>auto simp: nth_eq_iff_index_eq\<close>)
  with d(2) show ?thesis by simp
qed

lemma loading_order_before:
  assumes so: "set_order so" and ms: "dict_ok ms" and r: "resolve_loading_order so ms = Inr order"
  shows "set order = set (dkeys ms) \<and> distinct order
    \<and> (\<forall>i < length order. \<forall>j < length order. (order ! i, order ! j) \<in> manifest_edges ms \<longrightarrow> i < j)"
proof -
  let ?g = "build_dependency_graph so ms"
  from r have m: "missing_dependencies ?g (dkeys ms) = []" and t: "topological_sort ?g = Inr order"
    by (auto simp: resolve_loading_order_def Let_def check_missing_dependencies_def split: if_splits)
  from m no_missing [OF so ms] have av: "deps_available ms" by simp
  from topological_sort_ok [OF build_ok [OF so ms av] t] have
    o: "set order = set (dkeys ms)" "distinct order"
    "\<forall>i < length order. preds ?g {} (order ! i) \<subseteq> set (take i order)" by auto
  have "i < j" if "i < length order" "j < length order" "(order ! i, order ! j) \<in> manifest_edges ms" for i j
  proof -
    have "order ! j \<in> set (deps_of ?g (order ! i))"
      using that(3) build_edges [OF so, of ms] by (auto simp: order_edges_def)
    moreover have "order ! i \<in> set (dkeys ms)" using nth_mem [OF that(1)] o(1) by simp
    ultimately have "order ! i \<in> preds ?g {} (order ! j)" by (simp add: preds_def)
    with o(3) that(2) have "order ! i \<in> set (take j order)" by blast
    then obtain k where k: "k < j" "order ! k = order ! i" by (auto simp: in_set_conv_nth)
    with that(2) have "k < length order" by simp
    with k(2) o(2) that(1) have "k = i" by (simp add: nth_eq_iff_index_eq)
    with k(1) show ?thesis by simp
  qed
  with o(1,2) show ?thesis by blast
qed

lemma loading_order_acyclic:
  assumes so: "set_order so" and ms: "dict_ok ms" and r: "resolve_loading_order so ms = Inr order"
  shows "deps_available ms \<and> acyclic (manifest_edges ms)"
proof
  from r have "missing_dependencies (build_dependency_graph so ms) (dkeys ms) = []"
    by (auto simp: resolve_loading_order_def Let_def check_missing_dependencies_def split: if_splits)
  with no_missing [OF so ms] show av: "deps_available ms" by simp
  note o = loading_order_before [OF so ms r]
  have "manifest_edges ms \<subseteq> measure (\<lambda>x. length (takeWhile (\<lambda>y. y \<noteq> x) order))"
  proof clarify
    fix n x assume e: "(n, x) \<in> manifest_edges ms"
    then have "n \<in> set order" using o dget_in_keys by (fastforce simp: manifest_edges_def)
    moreover from e av o have "x \<in> set order" by (auto simp: deps_available_def)
    ultimately obtain i j where "i < length order" "order ! i = n" "j < length order" "order ! j = x"
      by (auto simp: in_set_conv_nth)
    with o e show "(n, x) \<in> measure (\<lambda>x. length (takeWhile (\<lambda>y. y \<noteq> x) order))"
      using position_nth by (metis in_measure)
  qed
  then show "acyclic (manifest_edges ms)" using wf_acyclic wf_measure wf_subset by blast
qed

section \<open>Properties\<close>

text \<open>
  a loading order is returned exactly when every declared dependency is present and the
  declarations have no cycle; otherwise a missing dependency or a cycle is reported, the
  former exactly when something is missing.
\<close>

theorem loading_order_exists_iff:
  assumes "set_order so" "dict_ok ms"
  shows "((\<exists>order. resolve_loading_order so ms = Inr order)
            \<longleftrightarrow> deps_available ms \<and> acyclic (manifest_edges ms))
    \<and> ((\<exists>msg. resolve_loading_order so ms = Inl (MissingDependency msg)) \<longleftrightarrow> \<not> deps_available ms)"
proof (cases "deps_available ms")
  case True
  have "\<exists>order. resolve_loading_order so ms = Inr order" if "acyclic (manifest_edges ms)"
    using topological_sort_acyclic [OF build_ok [OF assms True]] that no_missing [OF assms] True
    by (auto simp: build_edges [OF assms(1)] resolve_loading_order_def Let_def check_missing_dependencies_def)
  moreover have "resolve_loading_order so ms \<noteq> Inl (MissingDependency msg)" for msg
    using no_missing [OF assms] True
    by (auto simp: resolve_loading_order_def Let_def check_missing_dependencies_def topological_sort_def)
  ultimately show ?thesis using True loading_order_acyclic [OF assms] by blast
next
  case False
  with no_missing [OF assms] show ?thesis
    by (auto simp: resolve_loading_order_def Let_def check_missing_dependencies_def)
qed

text \<open>
  C16: the order lists every extension once, and each one strictly BEFORE the extensions it
  depends on: an extension is loaded when none of its dependencies has been.
\<close>

theorem loading_order_dependents_first:
  assumes "set_order so" "dict_ok ms" "resolve_loading_order so ms = Inr order"
  shows "set order = set (dkeys ms) \<and> distinct order
    \<and> (\<forall>i < length order. \<forall>j < length order. (order ! i, order ! j) \<in> manifest_edges ms \<longrightarrow> i < j)"
  by (rule loading_order_before [OF assms])

definition sample_manifests :: "(string, manifest_deps) pydict" where
  "sample_manifests =
     [(''base'', \<lparr>md_version = ''1.2.0'', md_extensions = [], md_plugins = [], md_system_services = []\<rparr>),
      (''app'', \<lparr>md_version = ''1.0.0'', md_extensions = [''base@^1.0.0''], md_plugins = [],
               md_system_services = []\<rparr>)]"

lemma sample_order: "resolve_loading_order remdups sample_manifests = Inr [''app'', ''base'']"
  by code_simp

lemma remdups_set_order: "set_order remdups"
  by (simp add: set_order_def)

lemma sample_manifests_ok: "dict_ok sample_manifests"
  by (simp add: sample_manifests_def dict_ok_def)

theorem loading_order_exists_iff_witness:
  "deps_available sample_manifests \<and> acyclic (manifest_edges sample_manifests)"
  using loading_order_exists_iff [OF remdups_set_order sample_manifests_ok] sample_order by blast

theorem loading_order_dependents_first_witness:
  "\<exists>order. resolve_loading_order remdups sample_manifests = Inr order \<and> order = [''app'', ''base'']
     \<and> distinct order \<and> (''app'', ''base'') \<in> manifest_edges sample_manifests"
  using loading_order_dependents_first [OF remdups_set_order sample_manifests_ok sample_order] sample_order
  by (auto simp: manifest_edges_def sample_manifests_def dict_simps split_at_def Let_def)

end
