(* ===== verification/RateLimiter.thy ===== *)
theory RateLimiter
  imports Prelude
begin

text \<open>
  The request rate limiter, \<^verbatim>\<open>src/src/ai_karen_engine/server/rate_limiter.py\<close>, on its in-memory
  storage: the storage operations with their periodic cleanup, the rule lookup with its cache,
  the three admission algorithms, the recording of a request and the default rules.

  Every clock reading of one operation is the same argument \<open>now\<close>, in microseconds: it stands
  both for \<^verbatim>\<open>time.time()\<close> and for \<^verbatim>\<open>datetime.now\<close>. \<open>isof\<close> is \<^verbatim>\<open>datetime.isoformat\<close>. The Redis
  storage only forwards to a Redis server and is not modelled, so the branches taken for it
  are absent. Divisions by a zero limit or window raise, as in Python.
\<close>

section \<open>Data\<close>

datatype rl_algorithm = FIXED_WINDOW | SLIDING_WINDOW | TOKEN_BUCKET | LEAKY_BUCKET

fun algorithm_value :: "rl_algorithm \<Rightarrow> string" where
  "algorithm_value FIXED_WINDOW = ''fixed_window''"
| "algorithm_value SLIDING_WINDOW = ''sliding_window''"
| "algorithm_value TOKEN_BUCKET = ''token_bucket''"
| "algorithm_value LEAKY_BUCKET = ''leaky_bucket''"

datatype rl_scope = SGLOBAL | SIP | SUSER | SENDPOINT | SIP_ENDPOINT | SUSER_ENDPOINT

fun scope_value :: "rl_scope \<Rightarrow> string" where
  "scope_value SGLOBAL = ''global''"
| "scope_value SIP = ''ip''"
| "scope_value SUSER = ''user''"
| "scope_value SENDPOINT = ''endpoint''"
| "scope_value SIP_ENDPOINT = ''ip_endpoint''"
| "scope_value SUSER_ENDPOINT = ''user_endpoint''"

record rl_rule =
  rl_name :: string
  rl_scope :: rl_scope
  rl_algorithm :: rl_algorithm
  rl_limit :: int
  rl_window_seconds :: int
  rl_burst_limit :: "int option"
  rl_enabled :: bool
  rl_priority :: int
  rl_endpoints :: "string list option"
  rl_user_types :: "string list option"

record rl_result =
  rr_allowed :: bool
  rr_rule_name :: string
  rr_current_count :: int
  rr_limit :: int
  rr_window_seconds :: int
  rr_reset_time :: int
  rr_retry_after_seconds :: int
  rr_details :: "(string, pyval) pydict"

datatype rl_error = ZeroDivision

section \<open>The in-memory storage\<close>

record rl_store =
  ms_counts :: "(string, int) pydict"
  ms_window_starts :: "(string, int) pydict"
  ms_timestamps :: "(string, int list) pydict"
  ms_last_cleanup :: int

definition secs :: "int \<Rightarrow> int" where
  "secs s = s * 1000000"

text \<open>\<^verbatim>\<open>int(x.total_seconds())\<close>: truncation towards zero.\<close>

definition int_secs :: "int \<Rightarrow> int" where
  "int_secs us = (if 0 \<le> us then us div 1000000 else - ((- us) div 1000000))"

definition deque_maxlen :: nat where
  "deque_maxlen = 10000"

definition cleanup_expired :: "int \<Rightarrow> int \<Rightarrow> rl_store \<Rightarrow> rl_store" where
  "cleanup_expired now cutoff st =
     (let ts = map (\<lambda>(k, l). (k, dropWhile (\<lambda>t. t < cutoff) l)) (ms_timestamps st);
          old = filter (\<lambda>(_, w). now - w > secs 3600) (ms_window_starts st)
      in st\<lparr>ms_timestamps := filter (\<lambda>(_, l). l \<noteq> []) ts,
            ms_window_starts := filter (\<lambda>(_, w). \<not> (now - w > secs 3600)) (ms_window_starts st),
            ms_counts := filter (\<lambda>(k, _). k \<notin> fst ` set old) (ms_counts st)\<rparr>)"

definition maybe_cleanup :: "int \<Rightarrow> rl_store \<Rightarrow> rl_store" where
  "maybe_cleanup now st =
     (if now - ms_last_cleanup st > secs 300
      then (cleanup_expired now (now - secs 3600) st)\<lparr>ms_last_cleanup := now\<rparr> else st)"

definition count_of :: "rl_store \<Rightarrow> string \<Rightarrow> int" where
  "count_of st key = (case dget (ms_counts st) key of None \<Rightarrow> 0 | Some n \<Rightarrow> n)"

definition get_count :: "int \<Rightarrow> string \<Rightarrow> rl_store \<Rightarrow> int \<times> rl_store" where
  "get_count now key st = (let st' = maybe_cleanup now st in (count_of st' key, st'))"

definition increment_count :: "int \<Rightarrow> string \<Rightarrow> int \<Rightarrow> rl_store \<Rightarrow> int \<times> rl_store" where
  "increment_count now key amount st =
     (let st' = maybe_cleanup now st; n = count_of st' key + amount
      in (n, st'\<lparr>ms_counts := dset key n (ms_counts st')\<rparr>))"

definition get_window_start :: "string \<Rightarrow> rl_store \<Rightarrow> int option" where
  "get_window_start key st = dget (ms_window_starts st) key"

definition set_window_start :: "string \<Rightarrow> int \<Rightarrow> rl_store \<Rightarrow> rl_store" where
  "set_window_start key start st = st\<lparr>ms_window_starts := dset key start (ms_window_starts st)\<rparr>"

definition stored_timestamps :: "rl_store \<Rightarrow> string \<Rightarrow> int list" where
  "stored_timestamps st key = (case dget (ms_timestamps st) key of None \<Rightarrow> [] | Some l \<Rightarrow> l)"

text \<open>Appending to a full deque drops its oldest element.\<close>

definition deque_append :: "int list \<Rightarrow> int \<Rightarrow> int list" where
  "deque_append l t = (let l' = l @ [t] in drop (length l' - deque_maxlen) l')"

definition add_request_timestamp :: "int \<Rightarrow> string \<Rightarrow> int \<Rightarrow> rl_store \<Rightarrow> rl_store" where
  "add_request_timestamp now key t st =
     (let st' = maybe_cleanup now st
      in st'\<lparr>ms_timestamps := dset key (deque_append (stored_timestamps st' key) t) (ms_timestamps st')\<rparr>)"

definition get_request_timestamps :: "string \<Rightarrow> int \<Rightarrow> rl_store \<Rightarrow> int list" where
  "get_request_timestamps key since st = filter (\<lambda>t. since \<le> t) (stored_timestamps st key)"

definition storage_stats :: "rl_store \<Rightarrow> (string, pyval) pydict" where
  "storage_stats st =
     [(''storage_type'', PStr ''memory''), (''tracked_keys'', PInt (int (length (ms_counts st)))),
      (''total_timestamps'', PInt (int (sum_list (map (\<lambda>(_, l). length l) (ms_timestamps st))))),
      (''window_starts'', PInt (int (length (ms_window_starts st))))]"

section \<open>Rules\<close>

record rate_limiter =
  lm_rules :: "rl_rule list"
  lm_default :: rl_rule
  lm_cache :: "(string, rl_rule) pydict"
  lm_cache_timestamps :: "(string, int) pydict"
  lm_storage :: rl_store

definition default_rule :: rl_rule where
  "default_rule =
     \<lparr>rl_name = ''default'', rl_scope = SIP, rl_algorithm = SLIDING_WINDOW, rl_limit = 100,
      rl_window_seconds = 60, rl_burst_limit = None, rl_enabled = True, rl_priority = 0,
      rl_endpoints = None, rl_user_types = None\<rparr>"

definition new_store :: "int \<Rightarrow> rl_store" where
  "new_store now = \<lparr>ms_counts = [], ms_window_starts = [], ms_timestamps = [], ms_last_cleanup = now\<rparr>"

definition new_limiter :: "int \<Rightarrow> rl_rule list \<Rightarrow> rl_rule option \<Rightarrow> rate_limiter" where
  "new_limiter now rules dflt =
     \<lparr>lm_rules = sort_by_desc rl_priority rules,
      lm_default = (case dflt of None \<Rightarrow> default_rule | Some r \<Rightarrow> r),
      lm_cache = [], lm_cache_timestamps = [], lm_storage = new_store now\<rparr>"

definition given :: "string option \<Rightarrow> bool" where
  "given s \<longleftrightarrow> s \<noteq> None \<and> s \<noteq> Some []"

definition listed :: "string option \<Rightarrow> string list option \<Rightarrow> bool" where
  "listed x l = (case l of None \<Rightarrow> True | Some xs \<Rightarrow> xs = [] \<or> x \<in> Some ` set xs)"

definition scope_matches :: "rl_scope \<Rightarrow> string \<Rightarrow> string \<Rightarrow> string option \<Rightarrow> bool" where
  "scope_matches sc ip endpoint user = (case sc of
     SUSER_ENDPOINT \<Rightarrow> given user \<and> endpoint \<noteq> []
   | SIP_ENDPOINT \<Rightarrow> ip \<noteq> [] \<and> endpoint \<noteq> []
   | SUSER \<Rightarrow> given user
   | SIP \<Rightarrow> ip \<noteq> []
   | SENDPOINT \<Rightarrow> endpoint \<noteq> []
   | SGLOBAL \<Rightarrow> True)"

definition rule_applies :: "string \<Rightarrow> string \<Rightarrow> string option \<Rightarrow> string option \<Rightarrow> rl_rule \<Rightarrow> bool" where
  "rule_applies ip endpoint user utype r \<longleftrightarrow>
     rl_enabled r \<and> listed (Some endpoint) (rl_endpoints r) \<and> listed utype (rl_user_types r)
     \<and> scope_matches (rl_scope r) ip endpoint user"

definition show_opt :: "string option \<Rightarrow> string" where
  "show_opt s = (case s of None \<Rightarrow> ''None'' | Some t \<Rightarrow> t)"

definition cache_key :: "string \<Rightarrow> string \<Rightarrow> string option \<Rightarrow> string option \<Rightarrow> string" where
  "cache_key ip endpoint user utype =
     ip @ '':'' @ endpoint @ '':'' @ show_opt user @ '':'' @ show_opt utype"

definition cache_ttl :: int where
  "cache_ttl = 300"

definition lookup_rule :: "rl_rule list \<Rightarrow> rl_rule \<Rightarrow> string \<Rightarrow> string \<Rightarrow> string option \<Rightarrow> string option \<Rightarrow> rl_rule" where
  "lookup_rule rules dflt ip endpoint user utype =
     (case find (rule_applies ip endpoint user utype) rules of None \<Rightarrow> dflt | Some r \<Rightarrow> r)"

definition find_applicable_rule ::
    "int \<Rightarrow> string \<Rightarrow> string \<Rightarrow> string option \<Rightarrow> string option \<Rightarrow> rate_limiter \<Rightarrow> rl_rule \<times> rate_limiter" where
  "find_applicable_rule now ip endpoint user utype lm =
     (let ck = cache_key ip endpoint user utype;
          stamp = (case dget (lm_cache_timestamps lm) ck of None \<Rightarrow> 0 | Some t \<Rightarrow> t);
          fresh = (let r = lookup_rule (lm_rules lm) (lm_default lm) ip endpoint user utype
                   in (r, lm\<lparr>lm_cache := dset ck r (lm_cache lm),
                             lm_cache_timestamps := dset ck now (lm_cache_timestamps lm)\<rparr>))
      in (case dget (lm_cache lm) ck of
            Some r \<Rightarrow> if now - stamp < secs cache_ttl then (r, lm) else fresh
          | None \<Rightarrow> fresh))"

definition generate_key :: "rl_rule \<Rightarrow> string \<Rightarrow> string \<Rightarrow> string option \<Rightarrow> string" where
  "generate_key r ip endpoint user = (case rl_scope r of
     SGLOBAL \<Rightarrow> ''global:'' @ rl_name r
   | SIP \<Rightarrow> ''ip:'' @ ip @ '':'' @ rl_name r
   | SUSER \<Rightarrow> ''user:'' @ show_opt user @ '':'' @ rl_name r
   | SENDPOINT \<Rightarrow> ''endpoint:'' @ endpoint @ '':'' @ rl_name r
   | SIP_ENDPOINT \<Rightarrow> ''ip_endpoint:'' @ ip @ '':'' @ endpoint @ '':'' @ rl_name r
   | SUSER_ENDPOINT \<Rightarrow> ''user_endpoint:'' @ show_opt user @ '':'' @ endpoint @ '':'' @ rl_name r)"

section \<open>The algorithms\<close>

definition base_details :: "rl_rule \<Rightarrow> (string, pyval) pydict" where
  "base_details r = [(''algorithm'', PStr (algorithm_value (rl_algorithm r))),
                     (''scope'', PStr (scope_value (rl_scope r)))]"

definition result_of :: "rl_rule \<Rightarrow> bool \<Rightarrow> int \<Rightarrow> int \<Rightarrow> int \<Rightarrow> (string, pyval) pydict \<Rightarrow> rl_result" where
  "result_of r ok count reset retry extra =
     \<lparr>rr_allowed = ok, rr_rule_name = rl_name r, rr_current_count = count, rr_limit = rl_limit r,
      rr_window_seconds = rl_window_seconds r, rr_reset_time = reset,
      rr_retry_after_seconds = retry, rr_details = base_details r @ extra\<rparr>"

definition check_fixed_window ::
    "(int \<Rightarrow> string) \<Rightarrow> int \<Rightarrow> rl_rule \<Rightarrow> string \<Rightarrow> int \<Rightarrow> rl_store \<Rightarrow> rl_result \<times> rl_store" where
  "check_fixed_window isof now r key weight st =
     (let (start, count, st') =
        (case get_window_start key st of
           None \<Rightarrow> (now, 0, set_window_start key now st)
         | Some w \<Rightarrow> if now - w \<ge> secs (rl_window_seconds r)
                    then (now, 0, set_window_start key now st)
                    else (let (c, s) = get_count now key st in (w, c, s)));
          reset = start + secs (rl_window_seconds r);
          extra = [(''window_start'', PStr (isof start))]
      in if count + weight > rl_limit r
         then (result_of r False count reset (max 1 (int_secs (reset - now))) extra, st')
         else (result_of r True count reset 0 extra, st'))"

definition check_sliding_window ::
    "int \<Rightarrow> rl_rule \<Rightarrow> string \<Rightarrow> int \<Rightarrow> rl_store \<Rightarrow> rl_result \<times> rl_store" where
  "check_sliding_window now r key weight st =
     (let since = now - secs (rl_window_seconds r);
          ts = get_request_timestamps key since st;
          count = int (length ts);
          extra = [(''window_start_time'', PFloat (Fin (of_int since / 1000000))),
                   (''timestamps_count'', PInt count)]
      in if count + weight > rl_limit r then
           (let retry = (case ts of [] \<Rightarrow> rl_window_seconds r
                         | t # ts' \<Rightarrow> int_secs (fold min ts' t + secs (rl_window_seconds r) - now) + 1)
            in (result_of r False count (now + secs retry) (max 1 retry) extra, st))
         else (result_of r True count (now + secs (rl_window_seconds r)) 0 extra, st))"

definition max_tokens :: "rl_rule \<Rightarrow> int" where
  "max_tokens r = (case rl_burst_limit r of None \<Rightarrow> rl_limit r
                   | Some b \<Rightarrow> if b = 0 then rl_limit r else b)"

definition bucket_key :: "string \<Rightarrow> string" where
  "bucket_key key = key @ '':bucket''"

definition last_refill_key :: "string \<Rightarrow> string" where
  "last_refill_key key = key @ '':last_refill''"

text \<open>The refill: the tokens available now and the storage after it.\<close>

definition refill ::
    "int \<Rightarrow> rl_rule \<Rightarrow> string \<Rightarrow> rl_store \<Rightarrow> rl_error + int \<times> rl_store" where
  "refill now r key st =
     (let (tokens, st1) = get_count now (bucket_key key) st in
      (case get_window_start (last_refill_key key) st1 of
         None \<Rightarrow>
           (let (_, st2) = increment_count now (bucket_key key) (max_tokens r) st1
            in Inr (max_tokens r, set_window_start (last_refill_key key) now st2))
       | Some w \<Rightarrow>
           if rl_window_seconds r = 0 then Inl ZeroDivision
           else
             (let add = trunc_rat (of_int (now - w) / 1000000
                          * (of_int (rl_limit r) / of_int (rl_window_seconds r)))
              in if add > 0 then
                   (let n = min (max_tokens r) (tokens + add);
                        (t, st2) = (if n > tokens
                          then (n, snd (increment_count now (bucket_key key) (n - tokens) st1))
                          else (tokens, st1))
                    in Inr (t, set_window_start (last_refill_key key) now st2))
                 else Inr (tokens, st1))))"

definition check_token_bucket ::
    "int \<Rightarrow> rl_rule \<Rightarrow> string \<Rightarrow> int \<Rightarrow> rl_store \<Rightarrow> rl_error + rl_result \<times> rl_store" where
  "check_token_bucket now r key weight st =
     rbind (refill now r key st) (\<lambda>(tokens, st1).
       if tokens < weight then
         (if rl_limit r = 0 then Inl ZeroDivision
          else (let retry = trunc_rat (of_int (weight - tokens)
                              * (of_int (rl_window_seconds r) / of_int (rl_limit r))) + 1
                in Inr (result_of r False (rl_limit r - tokens) (now + secs retry) retry
                     [(''tokens_available'', PInt tokens), (''tokens_needed'', PInt weight)], st1)))
       else
         (let left = tokens - weight; st2 = snd (increment_count now (bucket_key key) (- weight) st1)
          in Inr (result_of r True (rl_limit r - left) (now + secs (rl_window_seconds r)) 0
               [(''tokens_remaining'', PInt left), (''tokens_consumed'', PInt weight)], st2)))"

definition check_with ::
    "(int \<Rightarrow> string) \<Rightarrow> int \<Rightarrow> rl_rule \<Rightarrow> string \<Rightarrow> int \<Rightarrow> rl_store \<Rightarrow> rl_error + rl_result \<times> rl_store" where
  "check_with isof now r key weight st = (case rl_algorithm r of
     FIXED_WINDOW \<Rightarrow> Inr (check_fixed_window isof now r key weight st)
   | SLIDING_WINDOW \<Rightarrow> Inr (check_sliding_window now r key weight st)
   | TOKEN_BUCKET \<Rightarrow> check_token_bucket now r key weight st
   | LEAKY_BUCKET \<Rightarrow> Inr (check_sliding_window now r key weight st))"

definition record_with :: "int \<Rightarrow> rl_rule \<Rightarrow> string \<Rightarrow> int \<Rightarrow> rl_store \<Rightarrow> rl_store" where
  "record_with now r key weight st =
     (if rl_algorithm r = SLIDING_WINDOW then add_request_timestamp now key now st
      else snd (increment_count now key weight st))"

definition check_rate_limit ::
    "(int \<Rightarrow> string) \<Rightarrow> int \<Rightarrow> string \<Rightarrow> string \<Rightarrow> string option \<Rightarrow> string option \<Rightarrow> int \<Rightarrow>
     rate_limiter \<Rightarrow> rl_error + rl_result \<times> rate_limiter" where
  "check_rate_limit isof now ip endpoint user utype weight lm =
     (let (r, lm1) = find_applicable_rule now ip endpoint user utype lm
      in rbind (check_with isof now r (generate_key r ip endpoint user) weight (lm_storage lm1))
           (\<lambda>(res, st). Inr (res, lm1\<lparr>lm_storage := st\<rparr>)))"

definition record_request ::
    "int \<Rightarrow> string \<Rightarrow> string \<Rightarrow> string option \<Rightarrow> string option \<Rightarrow> int \<Rightarrow> rate_limiter \<Rightarrow> rate_limiter" where
  "record_request now ip endpoint user utype weight lm =
     (let (r, lm1) = find_applicable_rule now ip endpoint user utype lm
      in lm1\<lparr>lm_storage := record_with now r (generate_key r ip endpoint user) weight (lm_storage lm1)\<rparr>)"

definition cleanup :: "int \<Rightarrow> rate_limiter \<Rightarrow> rate_limiter" where
  "cleanup now lm =
     (let expired = map fst (filter (\<lambda>(_, t). now - t > secs cache_ttl) (lm_cache_timestamps lm))
      in lm\<lparr>lm_storage := cleanup_expired now (now - secs 3600) (lm_storage lm),
            lm_cache := filter (\<lambda>(k, _). k \<notin> set expired) (lm_cache lm),
            lm_cache_timestamps := filter (\<lambda>(k, _). k \<notin> set expired) (lm_cache_timestamps lm)\<rparr>)"

section \<open>The default configuration\<close>

definition strict_auth_endpoints :: "string list" where
  "strict_auth_endpoints = [''/auth/first-run/setup'', ''/auth/login'', ''/auth/refresh'']"

definition default_rate_limit_rules :: "rl_rule list" where
  "default_rate_limit_rules =
     [\<lparr>rl_name = ''auth_strict'', rl_scope = SIP_ENDPOINT, rl_algorithm = SLIDING_WINDOW,
       rl_limit = 10, rl_window_seconds = 60, rl_burst_limit = None, rl_enabled = True,
       rl_priority = 100, rl_endpoints = Some strict_auth_endpoints, rl_user_types = None\<rparr>,
      \<lparr>rl_name = ''user_general'', rl_scope = SUSER, rl_algorithm = TOKEN_BUCKET,
       rl_limit = 1000, rl_window_seconds = 3600, rl_burst_limit = Some 100, rl_enabled = True,
       rl_priority = 50, rl_endpoints = None, rl_user_types = None\<rparr>,
      \<lparr>rl_name = ''ip_general'', rl_scope = SIP, rl_algorithm = SLIDING_WINDOW,
       rl_limit = 300, rl_window_seconds = 60, rl_burst_limit = None, rl_enabled = True,
       rl_priority = 25, rl_endpoints = None, rl_user_types = None\<rparr>,
      \<lparr>rl_name = ''global_fallback'', rl_scope = SGLOBAL, rl_algorithm = FIXED_WINDOW,
       rl_limit = 10000, rl_window_seconds = 60, rl_burst_limit = None, rl_enabled = True,
       rl_priority = 1, rl_endpoints = None, rl_user_types = None\<rparr>]"

definition create_memory_limiter :: "int \<Rightarrow> rl_rule list option \<Rightarrow> rate_limiter" where
  "create_memory_limiter now custom =
     new_limiter now (case custom of None \<Rightarrow> default_rate_limit_rules
                      | Some rs \<Rightarrow> if rs = [] then default_rate_limit_rules else rs) None"

section \<open>What the middleware does with a request\<close>

text \<open>
  \<^verbatim>\<open>src/src/ai_karen_engine/middleware/rate_limit.py\<close> checks the limit and, when the request is
  allowed, records it.
\<close>

definition admit ::
    "(int \<Rightarrow> string) \<Rightarrow> int \<Rightarrow> rl_rule \<Rightarrow> string \<Rightarrow> int \<Rightarrow> rl_store \<Rightarrow> rl_error + bool \<times> rl_store" where
  "admit isof now r key weight st =
     rbind (check_with isof now r key weight st) (\<lambda>(res, st').
       Inr (rr_allowed res, if rr_allowed res then record_with now r key weight st' else st'))"

text \<open>
  What happens on one storage: requests under any rules, keys and weights, and the limiter's own
  \<^verbatim>\<open>cleanup\<close>, each at its time; and the times at which the requests of one key are admitted.
\<close>

datatype store_event = Request int rl_rule string int | Cleanup int

fun event_time :: "store_event \<Rightarrow> int" where
  "event_time (Request t r k weight) = t"
| "event_time (Cleanup t) = t"

fun admitted_times ::
    "(int \<Rightarrow> string) \<Rightarrow> string \<Rightarrow> store_event list \<Rightarrow> rl_store \<Rightarrow> rl_error + int list" where
  "admitted_times isof key [] st = Inr []"
| "admitted_times isof key (Request t r k weight # es) st =
     rbind (admit isof t r k weight st) (\<lambda>(ok, st').
       rbind (admitted_times isof key es st') (\<lambda>rest. Inr (if ok \<and> k = key then t # rest else rest)))"
| "admitted_times isof key (Cleanup t # es) st = admitted_times isof key es (cleanup_expired t (t - secs 3600) st)"

text \<open>The requests of \<open>key\<close> are the ones under the rule \<open>r\<close>, and no other rule divides by zero.\<close>

fun keeps_key :: "rl_rule \<Rightarrow> string \<Rightarrow> store_event \<Rightarrow> bool" where
  "keeps_key r key (Request t q k weight) =
     (if k = key then q = r \<and> 1 \<le> weight else rl_limit q \<noteq> 0 \<and> rl_window_seconds q \<noteq> 0)"
| "keeps_key r key (Cleanup t) = True"

section \<open>The log of a sliding window\<close>

text \<open>
  What the sliding window relies on: \<open>log s k since\<close> are the recorded times of a key from
  \<open>since\<close> on, \<open>add\<close> records the present, and the storage is faithful within a horizon and up
  to a capacity. From this alone no window ever holds more admissions than the limit.
\<close>

locale timestamp_log =
  fixes log :: "'s \<Rightarrow> 'k \<Rightarrow> int \<Rightarrow> int list"
    and add :: "int \<Rightarrow> 'k \<Rightarrow> 's \<Rightarrow> 's"
    and inv :: "int \<Rightarrow> 's \<Rightarrow> bool"
    and cap :: nat
    and horizon :: int
  assumes inv_later: "inv t s \<Longrightarrow> t \<le> now \<Longrightarrow> inv now s"
    and inv_add: "inv t s \<Longrightarrow> t \<le> now \<Longrightarrow> inv now (add now k s)"
    and log_add: "inv t s \<Longrightarrow> t \<le> now \<Longrightarrow> now - horizon \<le> since \<Longrightarrow> since \<le> now \<Longrightarrow>
      length (log s k since) < cap \<Longrightarrow> log (add now k s) k since = log s k since @ [now]"
    and log_filter: "since \<le> since' \<Longrightarrow> log s k since' = filter (\<lambda>t. since' \<le> t) (log s k since)"
begin

text \<open>An event is a weighted request of the key, or anything that leaves its recent times alone.\<close>

fun run :: "nat \<Rightarrow> int \<Rightarrow> 'k \<Rightarrow> (int \<times> (int + ('s \<Rightarrow> 's))) list \<Rightarrow> 's \<Rightarrow> int list" where
  "run limit w k [] s = []"
| "run limit w k ((t, Inl weight) # es) s =
     (if int (length (log s k (t - w))) + weight \<le> int limit then t # run limit w k es (add t k s)
      else run limit w k es s)"
| "run limit w k ((t, Inr f) # es) s = run limit w k es (f s)"

definition calm :: "'k \<Rightarrow> int \<Rightarrow> 's \<Rightarrow> 's \<Rightarrow> bool" where
  "calm k t s s' \<longleftrightarrow> (inv t s \<longrightarrow> inv t s' \<and> (\<forall>since \<ge> t - horizon. log s' k since = log s k since))"

fun legal :: "'k \<Rightarrow> int \<times> (int + ('s \<Rightarrow> 's)) \<Rightarrow> bool" where
  "legal k (t, Inl weight) = (1 \<le> weight)"
| "legal k (t, Inr f) = (\<forall>s. calm k t s (f s))"

lemma calm_refl: "calm k t s s"
  by (simp add: calm_def)

lemma calm_trans: "calm k t s s' \<Longrightarrow> calm k t s' s'' \<Longrightarrow> calm k t s s''"
  by (simp add: calm_def)

definition in_window :: "int \<Rightarrow> int \<Rightarrow> int list \<Rightarrow> nat" where
  "in_window w x A = length (filter (\<lambda>a. x - w \<le> a \<and> a \<le> x) A)"

definition agrees :: "int \<Rightarrow> int \<Rightarrow> 'k \<Rightarrow> 's \<Rightarrow> int list \<Rightarrow> bool" where
  "agrees w t0 k s H \<longleftrightarrow> (\<forall>a \<in> set H. a \<le> t0)
     \<and> (\<forall>since \<ge> t0 - w. log s k since = filter (\<lambda>a. since \<le> a) H)"

lemma agrees_later: "agrees w t0 k s H \<Longrightarrow> t0 \<le> t \<Longrightarrow> agrees w t k s H"
  by (auto simp: agrees_def)

lemma agrees_calm: "agrees w t k s H \<Longrightarrow> inv t s \<Longrightarrow> w \<le> horizon \<Longrightarrow> calm k t s s' \<Longrightarrow> agrees w t k s' H"
  by (auto simp: agrees_def calm_def)

lemma agrees_add:
  assumes "agrees w t k s H" "inv t s" "w \<le> horizon" "0 \<le> w" "length (log s k (t - w)) < cap"
  shows "agrees w t k (add t k s) (H @ [t])"
proof -
  have "log (add t k s) k since = filter (\<lambda>a. since \<le> a) (H @ [t])" if since: "t - w \<le> since" for since
  proof -
    have near: "log (add t k s) k x = filter (\<lambda>a. x \<le> a) (H @ [t])" if x: "t - w \<le> x" "x \<le> t" for x
    proof -
      from log_filter [OF x(1), of s k] have "length (log s k x) \<le> length (log s k (t - w))" by simp
      with assms(5) have "length (log s k x) < cap" by simp
      with log_add [OF assms(2) order_refl _ x(2) this] assms(1,3) x show ?thesis
        by (auto simp: agrees_def)
    qed
    show ?thesis
    proof (cases "since \<le> t")
      case True
      with near since show ?thesis by blast
    next
      case False
      then have "log (add t k s) k since = filter (\<lambda>a. since \<le> a) (log (add t k s) k t)"
        by (intro log_filter) simp
      also have "\<dots> = filter (\<lambda>a. since \<le> a) (H @ [t])"
        using near [of t] assms(4) False by (auto intro!: filter_cong)
      finally show ?thesis .
    qed
  qed
  moreover have "\<forall>a \<in> set (H @ [t]). a \<le> t" using assms(1) by (auto simp: agrees_def)
  ultimately show ?thesis by (simp add: agrees_def)
qed

lemma in_window_snoc:
  assumes "agrees w t k s H" "length (log s k (t - w)) + 1 \<le> limit" "\<forall>x. in_window w x H \<le> limit" "0 \<le> w"
  shows "in_window w x (H @ [t]) \<le> limit"
proof (cases "t \<le> x")
  case True
  have l: "log s k (t - w) = filter (\<lambda>a. t - w \<le> a) H" using assms(1,4) by (simp add: agrees_def)
  have "filter (\<lambda>a. x - w \<le> a \<and> a \<le> x) H = filter (\<lambda>a. x - w \<le> a \<and> a \<le> x) (filter (\<lambda>a. t - w \<le> a) H)"
    using True by (auto intro!: filter_cong)
  then have "length (filter (\<lambda>a. x - w \<le> a \<and> a \<le> x) H) \<le> length (log s k (t - w))"
    unfolding l by (metis length_filter_le)
  with assms(2) show ?thesis by (simp add: in_window_def)
next
  case False
  with assms(3) show ?thesis by (simp add: in_window_def)
qed

lemma run_bounded_from:
  assumes "0 \<le> w" "w \<le> horizon" "limit \<le> cap"
  shows "sorted (t0 # map fst es) \<Longrightarrow> \<forall>e \<in> set es. legal k e \<Longrightarrow> inv t0 s \<Longrightarrow> agrees w t0 k s H \<Longrightarrow>
    \<forall>x. in_window w x H \<le> limit \<Longrightarrow> in_window w x (H @ run limit w k es s) \<le> limit"
proof (induction es arbitrary: t0 s H)
  case Nil
  then show ?case by simp
next
  case (Cons e es)
  obtain t what where e: "e = (t, what)" by fastforce
  from Cons.prems e have t: "t0 \<le> t" "sorted (t # map fst es)" "\<forall>e \<in> set es. legal k e" by auto
  have i: "inv t s" by (rule inv_later [OF Cons.prems(3) t(1)])
  have a: "agrees w t k s H" by (rule agrees_later [OF Cons.prems(4) t(1)])
  show ?case
  proof (cases what)
    case (Inr f)
    then have c: "calm k t s (f s)" using Cons.prems(2) e by simp
    then have "inv t (f s)" using i by (simp add: calm_def)
    from Cons.IH [OF t(2,3) this agrees_calm [OF a i assms(2) c] Cons.prems(5)] Inr e show ?thesis by simp
  next
    case (Inl weight)
    then have g: "1 \<le> weight" using Cons.prems(2) e by simp
    show ?thesis
    proof (cases "int (length (log s k (t - w))) + weight \<le> int limit")
      case True
      with g have l: "length (log s k (t - w)) + 1 \<le> limit" by linarith
      with assms(3) have "length (log s k (t - w)) < cap" by simp
      from Cons.IH [OF t(2,3) inv_add [OF i order_refl] agrees_add [OF a i assms(2,1) this]]
        in_window_snoc [OF a l Cons.prems(5) assms(1)] True Inl e
      show ?thesis by simp
    next
      case False
      with Cons.IH [OF t(2,3) i a Cons.prems(5)] Inl e show ?thesis by simp
    qed
  qed
qed

lemma run_bounded:
  assumes "0 \<le> w" "w \<le> horizon" "limit \<le> cap" "sorted (t0 # map fst es)" "\<forall>e \<in> set es. legal k e" "inv t0 s"
    "\<forall>since. log s k since = []"
  shows "in_window w x (run limit w k es s) \<le> limit"
  using run_bounded_from [OF assms(1-6), of "[]"] assms(7) by (simp add: agrees_def in_window_def)

end

section \<open>The in-memory log\<close>

definition log_ok :: "int \<Rightarrow> rl_store \<Rightarrow> bool" where
  "log_ok t st \<longleftrightarrow> dict_ok (ms_timestamps st)
     \<and> (\<forall>k. sorted (stored_timestamps st k) \<and> (\<forall>x \<in> set (stored_timestamps st k). x \<le> t))"

lemma dropWhile_sorted: "sorted l \<Longrightarrow> dropWhile (\<lambda>t. t < c) l = filter (\<lambda>t. c \<le> t) (l :: int list)"
proof (induction l)
  case (Cons a l)
  then show ?case by (cases "a < c") (auto intro!: filter_True [symmetric])
qed simp

lemma dget_map: "dget (map (\<lambda>(k, l). (k, f l)) d) k = map_option f (dget d k)"
  by (induction d) (auto simp: dget_Cons)

lemma dget_filter_values:
  "dict_ok d \<Longrightarrow> dget (filter (\<lambda>(_, l). P l) d) k
     = (case dget d k of None \<Rightarrow> None | Some l \<Rightarrow> if P l then Some l else None)"
proof (induction d)
  case (Cons e d)
  obtain k' l where e: "e = (k', l)" by (cases e)
  from Cons.prems e have "dict_ok d" "dget d k' = None"
    by (auto simp: dict_ok_def dget_None_iff)
  with Cons.IH e show ?case by (cases "k' = k") (auto simp: dget_Cons)
qed simp

lemma dict_ok_map: "dict_ok (map (\<lambda>(k, l). (k, f l)) d) = dict_ok d"
  by (simp add: dict_ok_def dkeys_def comp_def split_def)

lemma dict_ok_filter: "dict_ok d \<Longrightarrow> dict_ok (filter P d)"
  by (simp add: dict_ok_def dkeys_def distinct_map_filter)

lemma expired_timestamps:
  assumes "log_ok t st"
  shows "stored_timestamps (cleanup_expired now (now - secs 3600) st) k
      = filter (\<lambda>x. now - secs 3600 \<le> x) (stored_timestamps st k)"
    and "dict_ok (ms_timestamps (cleanup_expired now (now - secs 3600) st))"
proof -
  let ?f = "\<lambda>l. dropWhile (\<lambda>t. t < now - secs 3600) l"
  from assms have ok: "dict_ok (map (\<lambda>(k, l). (k, ?f l)) (ms_timestamps st))"
    by (simp add: log_ok_def dict_ok_map)
  from assms have s: "?f (stored_timestamps st k) = filter (\<lambda>x. now - secs 3600 \<le> x) (stored_timestamps st k)"
    by (intro dropWhile_sorted) (simp add: log_ok_def)
  have "stored_timestamps (cleanup_expired now (now - secs 3600) st) k = ?f (stored_timestamps st k)"
    unfolding stored_timestamps_def cleanup_expired_def Let_def
    by (simp add: dget_filter_values [OF ok, of "\<lambda>l. l \<noteq> []"] dget_map split: option.split)
      (metis dropWhile_eq_Nil_conv)
  with s show "stored_timestamps (cleanup_expired now (now - secs 3600) st) k
      = filter (\<lambda>x. now - secs 3600 \<le> x) (stored_timestamps st k)" by simp
  show "dict_ok (ms_timestamps (cleanup_expired now (now - secs 3600) st))"
    using dict_ok_filter [OF ok, of "\<lambda>(_, l). l \<noteq> []"] by (simp add: cleanup_expired_def Let_def)
qed

lemma expired_log_ok: "log_ok t st \<Longrightarrow> log_ok t (cleanup_expired now (now - secs 3600) st)"
  using expired_timestamps [of t st] by (auto simp: log_ok_def sorted_filter [where f = id, simplified])

lemma cleanup_timestamps:
  assumes "log_ok t st"
  shows "stored_timestamps (maybe_cleanup now st) k
      = (if now - ms_last_cleanup st > secs 300
         then filter (\<lambda>x. now - secs 3600 \<le> x) (stored_timestamps st k) else stored_timestamps st k)"
  using expired_timestamps(1) [OF assms, of now k] by (simp add: maybe_cleanup_def stored_timestamps_def)

lemma cleanup_log_ok: "log_ok t st \<Longrightarrow> log_ok t (maybe_cleanup now st)"
  using expired_log_ok [of t st now] by (simp add: maybe_cleanup_def log_ok_def stored_timestamps_def)

lemma stored_add:
  "stored_timestamps (add_request_timestamp now key t st) k
     = (if k = key then deque_append (stored_timestamps (maybe_cleanup now st) key) t
        else stored_timestamps (maybe_cleanup now st) k)"
  by (simp add: add_request_timestamp_def Let_def stored_timestamps_def dget_dset)

lemma deque_append_subset: "set (deque_append l t) \<subseteq> insert t (set l)"
  unfolding deque_append_def Let_def using set_drop_subset by fastforce

lemma deque_append_sorted: "sorted l \<Longrightarrow> \<forall>x \<in> set l. x \<le> t \<Longrightarrow> sorted (deque_append l t)"
  unfolding deque_append_def Let_def by (intro sorted_wrt_drop) (simp add: sorted_append)

lemma deque_append_recent:
  assumes "sorted l" "\<forall>x \<in> set l. x \<le> t" "since \<le> t" "length (filter (\<lambda>x. since \<le> x) l) < deque_maxlen"
  shows "filter (\<lambda>x. since \<le> x) (deque_append l t) = filter (\<lambda>x. since \<le> x) l @ [t]"
proof -
  let ?l' = "l @ [t]" and ?n = "length (l @ [t]) - deque_maxlen"
  have s: "sorted ?l'" using assms(1,2) by (simp add: sorted_append)
  have "filter (\<lambda>x. since \<le> x) (take ?n ?l') = []"
  proof (rule ccontr)
    assume "filter (\<lambda>x. since \<le> x) (take ?n ?l') \<noteq> []"
    then obtain y where y: "y \<in> set (take ?n ?l')" "since \<le> y" by (auto simp: filter_empty_conv)
    have "\<forall>z \<in> set (drop ?n ?l'). y \<le> z"
      using s y(1) by (metis append_take_drop_id sorted_append)
    with y(2) have "\<forall>z \<in> set (drop ?n ?l'). since \<le> z" by (meson order_trans)
    then have "filter (\<lambda>x. since \<le> x) (drop ?n ?l') = drop ?n ?l'" by (rule filter_True)
    moreover have n: "?n \<noteq> 0" using y(1) by (metis empty_iff list.set(1) take0)
    ultimately have "deque_maxlen \<le> length (filter (\<lambda>x. since \<le> x) (drop ?n ?l'))" by simp
    moreover have "y \<in> set (filter (\<lambda>x. since \<le> x) (take ?n ?l'))" using y by simp
    then have "0 < length (filter (\<lambda>x. since \<le> x) (take ?n ?l'))" by (rule length_pos_if_in_set)
    moreover have "length (filter (\<lambda>x. since \<le> x) ?l')
        = length (filter (\<lambda>x. since \<le> x) (take ?n ?l')) + length (filter (\<lambda>x. since \<le> x) (drop ?n ?l'))"
      by (metis append_take_drop_id filter_append length_append)
    moreover have "length (filter (\<lambda>x. since \<le> x) ?l') = length (filter (\<lambda>x. since \<le> x) l) + 1"
      using assms(3) by simp
    ultimately show False using assms(4) by linarith
  qed
  then have "filter (\<lambda>x. since \<le> x) (drop ?n ?l') = filter (\<lambda>x. since \<le> x) ?l'"
    by (metis append_Nil append_take_drop_id filter_append)
  with assms(3) show ?thesis by (simp add: deque_append_def)
qed

interpretation memory_log: timestamp_log
  "\<lambda>st key since. get_request_timestamps key since st"
  "\<lambda>now key st. add_request_timestamp now key now st" log_ok deque_maxlen "secs 3600"
proof unfold_locales
  fix t now st assume "log_ok t st" "t \<le> now"
  then show "log_ok now st" by (force simp: log_ok_def)
next
  fix t now st k assume a: "log_ok t st" "t \<le> now"
  have c: "log_ok t (maybe_cleanup now st)" by (rule cleanup_log_ok [OF a(1)])
  have "dict_ok (ms_timestamps (add_request_timestamp now k now st))"
    using c by (simp add: add_request_timestamp_def Let_def log_ok_def)
  moreover have "\<forall>k. \<forall>x \<in> set (stored_timestamps (maybe_cleanup now st) k). x \<le> now"
    using c a(2) by (force simp: log_ok_def)
  moreover have "sorted (deque_append (stored_timestamps (maybe_cleanup now st) k) now)"
    using c calculation by (intro deque_append_sorted) (auto simp: log_ok_def)
  moreover have "\<forall>x \<in> set (deque_append (stored_timestamps (maybe_cleanup now st) k) now). x \<le> now"
    using calculation(2) deque_append_subset [of "stored_timestamps (maybe_cleanup now st) k" now] by blast
  ultimately show "log_ok now (add_request_timestamp now k now st)"
    using c by (simp add: log_ok_def stored_add)
next
  fix t now st since and k :: string
  assume a: "log_ok t st" "t \<le> now" "now - secs 3600 \<le> since" "since \<le> now"
    and l: "length (get_request_timestamps k since st) < deque_maxlen"
  let ?c = "maybe_cleanup now st"
  have c: "log_ok t ?c" by (rule cleanup_log_ok [OF a(1)])
  have f: "filter (\<lambda>x. since \<le> x) (stored_timestamps ?c k) = filter (\<lambda>x. since \<le> x) (stored_timestamps st k)"
    unfolding cleanup_timestamps [OF a(1)] using a(3) by (auto intro!: filter_cong)
  have "\<forall>x \<in> set (stored_timestamps ?c k). x \<le> now" using c a(2) by (force simp: log_ok_def)
  with c l f a(4) show "get_request_timestamps k since (add_request_timestamp now k now st)
      = get_request_timestamps k since st @ [now]"
    unfolding get_request_timestamps_def stored_add
    by (simp add: deque_append_recent log_ok_def)
next
  fix since since' st and k :: string assume "since \<le> (since' :: int)"
  then show "get_request_timestamps k since' st
      = filter (\<lambda>t. since' \<le> t) (get_request_timestamps k since st)"
    by (auto simp: get_request_timestamps_def intro!: filter_cong)
qed

lemma calm_timestamps: "ms_timestamps st' = ms_timestamps st \<Longrightarrow> memory_log.calm k t st st'"
  unfolding memory_log.calm_def by (simp add: log_ok_def get_request_timestamps_def stored_timestamps_def)

lemma calm_expired: "memory_log.calm k t st (cleanup_expired t (t - secs 3600) st)"
  unfolding memory_log.calm_def
  by (auto simp: expired_log_ok expired_timestamps(1) get_request_timestamps_def intro!: filter_cong)

lemma calm_cleanup: "memory_log.calm k t st (maybe_cleanup t st)"
  unfolding memory_log.calm_def
  by (auto simp: cleanup_log_ok cleanup_timestamps get_request_timestamps_def intro!: filter_cong)

lemma calm_set: "memory_log.calm k t st (set_window_start k' w st)"
  by (rule calm_timestamps) (simp add: set_window_start_def)

lemma calm_count: "memory_log.calm k t st (snd (get_count t k' st))"
  by (simp add: get_count_def Let_def calm_cleanup)

lemma calm_increment: "memory_log.calm k t st (snd (increment_count t k' n st))"
  by (rule memory_log.calm_trans [OF calm_cleanup calm_timestamps]) (simp add: increment_count_def Let_def)

lemma calm_add: "k' \<noteq> k \<Longrightarrow> memory_log.calm k t st (add_request_timestamp t k' t st)"
  using calm_cleanup [of k t st] memory_log.inv_add [of t st t k'] unfolding memory_log.calm_def
  by (simp add: get_request_timestamps_def stored_add)

lemma calm_record: "k' \<noteq> k \<Longrightarrow> memory_log.calm k t st (record_with t r k' weight st)"
  by (simp add: record_with_def calm_add calm_increment)

lemma calm_refill:
  assumes "refill t r k' st = Inr (n, st')"
  shows "memory_log.calm k t st st'"
proof -
  let ?s = "snd (get_count t (bucket_key k') st)"
  have "memory_log.calm k t ?s st'"
    using assms by (auto simp: refill_def split_beta Let_def split: option.splits if_splits
        intro: calm_set memory_log.calm_refl memory_log.calm_trans [OF calm_increment calm_set])
  then show ?thesis by (rule memory_log.calm_trans [OF calm_count])
qed

lemma refill_total: "rl_window_seconds r \<noteq> 0 \<Longrightarrow> \<exists>p. refill t r k st = Inr p"
  by (simp add: refill_def split_beta Let_def split: option.splits)

lemma calm_fixed: "memory_log.calm k t st (snd (check_fixed_window isof t r k' weight st))"
proof (cases "get_window_start k' st")
  case None
  then show ?thesis by (simp add: check_fixed_window_def Let_def calm_set)
next
  case (Some w)
  then show ?thesis using calm_count [of k t st k']
    by (simp add: check_fixed_window_def Let_def calm_set split_beta)
qed

lemma snd_sliding: "snd (check_sliding_window t r k' weight st) = st"
  by (simp add: check_sliding_window_def Let_def)

lemma check_calm:
  assumes "rl_limit r \<noteq> 0" "rl_window_seconds r \<noteq> 0"
  obtains res st' where "check_with isof t r k' weight st = Inr (res, st')" "memory_log.calm k t st st'"
proof (cases "rl_algorithm r")
  case TOKEN_BUCKET
  from refill_total [OF assms(2)] obtain n st1 where f: "refill t r k' st = Inr (n, st1)" by fastforce
  show thesis
  proof (cases "n < weight")
    case True
    show thesis
      by (rule that [OF _ calm_refill [OF f]])
        (use TOKEN_BUCKET f assms(1) True in \<open>simp add: check_with_def check_token_bucket_def Let_def\<close>)
  next
    case False
    show thesis
      by (rule that [OF _ memory_log.calm_trans [OF calm_refill [OF f] calm_increment]])
        (use TOKEN_BUCKET f False in \<open>simp add: check_with_def check_token_bucket_def Let_def\<close>)
  qed
next
  case FIXED_WINDOW
  then show thesis
    using that [of "fst (check_fixed_window isof t r k' weight st)", OF _ calm_fixed [of k t st isof r k' weight]]
    by (simp add: check_with_def)
next
  case SLIDING_WINDOW
  then show thesis using that [OF _ memory_log.calm_refl] snd_sliding by (simp add: check_with_def prod_eq_iff)
next
  case LEAKY_BUCKET
  then show thesis using that [OF _ memory_log.calm_refl] snd_sliding by (simp add: check_with_def prod_eq_iff)
qed

lemma admit_calm:
  assumes "rl_limit r \<noteq> 0" "rl_window_seconds r \<noteq> 0" "k' \<noteq> k"
  obtains ok st' where "admit isof t r k' weight st = Inr (ok, st')" "memory_log.calm k t st st'"
proof -
  obtain res st1 where c: "check_with isof t r k' weight st = Inr (res, st1)" "memory_log.calm k t st st1"
    by (rule check_calm [OF assms(1,2)])
  then show thesis
    using that memory_log.calm_trans [OF c(2) calm_record [OF assms(3)]] by (simp add: admit_def split: if_splits)
qed

lemma sliding_admit:
  assumes "rl_algorithm r = SLIDING_WINDOW" "rl_limit r = int limit"
  shows "admit isof now r key weight st = Inr
    (if int (length (get_request_timestamps key (now - secs (rl_window_seconds r)) st)) + weight \<le> int limit
     then (True, add_request_timestamp now key now st) else (False, st))"
  using assms by (auto simp: admit_def check_with_def check_sliding_window_def record_with_def
      result_of_def Let_def split: list.split)

text \<open>An event as the log sees it.\<close>

fun as_logged :: "(int \<Rightarrow> string) \<Rightarrow> string \<Rightarrow> store_event \<Rightarrow> int \<times> (int + (rl_store \<Rightarrow> rl_store))" where
  "as_logged isof key (Request t r k weight) =
     (t, if k = key then Inl weight
         else Inr (\<lambda>st. case admit isof t r k weight st of Inl _ \<Rightarrow> st | Inr (_, st') \<Rightarrow> st'))"
| "as_logged isof key (Cleanup t) = (t, Inr (cleanup_expired t (t - secs 3600)))"

lemma as_logged_time: "fst (as_logged isof key e) = event_time e"
  by (cases e) simp_all

lemma as_logged_legal: "keeps_key r key e \<Longrightarrow> memory_log.legal key (as_logged isof key e)"
proof (cases e)
  case (Request t q k weight)
  show "memory_log.legal key (as_logged isof key e)" if ok: "keeps_key r key e"
  proof (cases "k = key")
    case False
    have "memory_log.calm key t st (case admit isof t q k weight st of Inl _ \<Rightarrow> st | Inr (_, st') \<Rightarrow> st')" for st
      by (rule admit_calm [of q k key isof t weight st]) (use ok Request False in auto)
    with False Request show ?thesis by simp
  qed (use ok Request in simp)
qed (simp add: calm_expired)

lemma sliding_run:
  assumes "rl_algorithm r = SLIDING_WINDOW" "rl_limit r = int limit"
  shows "\<forall>e \<in> set es. keeps_key r key e \<Longrightarrow> admitted_times isof key es st
    = Inr (memory_log.run limit (secs (rl_window_seconds r)) key (map (as_logged isof key) es) st)"
proof (induction es arbitrary: st)
  case (Cons e es)
  then show ?case
  proof (cases e)
    case (Request t q k weight)
    show ?thesis
    proof (cases "k = key")
      case True
      with Cons Request show ?thesis by (simp add: sliding_admit [OF assms])
    next
      case False
      obtain ok st' where "admit isof t q k weight st = Inr (ok, st')"
        by (rule admit_calm [of q k key isof t weight st]) (use Cons.prems Request False in auto)
      with Cons Request False show ?thesis by simp
    qed
  qed simp
qed simp

lemma no_cleanup: "now - ms_last_cleanup st \<le> secs 300 \<Longrightarrow> maybe_cleanup now st = st"
  by (simp add: maybe_cleanup_def)

section \<open>Concrete rules\<close>

definition user_general :: rl_rule where
  "user_general = default_rate_limit_rules ! 1"

definition auth_strict :: rl_rule where
  "auth_strict = default_rate_limit_rules ! 0"

definition global_fallback :: rl_rule where
  "global_fallback = default_rate_limit_rules ! 3"

text \<open>A bucket with 99 tokens left, last refilled at time zero.\<close>

definition used_bucket :: rl_store where
  "used_bucket = \<lparr>ms_counts = [(bucket_key ''u'', 99)], ms_window_starts = [(last_refill_key ''u'', 0)],
     ms_timestamps = [], ms_last_cleanup = 0\<rparr>"

text \<open>A fixed window that has recorded its limit.\<close>

definition full_window :: rl_store where
  "full_window = \<lparr>ms_counts = [(''g'', 10000)], ms_window_starts = [(''g'', 0)],
     ms_timestamps = [], ms_last_cleanup = 0\<rparr>"

section \<open>Properties\<close>

text \<open>
  C14: a sliding-window rule holds over every window. On a fresh in-memory storage, whatever else
  happens on it in time order (requests of other keys under any rules that do not divide by zero,
  cleanups), the requests of a key under a sliding-window rule, each of weight at least one, are
  answered, and of them at most the limit are admitted in any interval as long as the rule's
  window. This is for windows up to an hour, which is what the cleanups keep, and for limits up to
  10000, the capacity of the log of a key. Admissions are counted, not their weights.
\<close>

theorem sliding_window_bounded:
  assumes "rl_algorithm r = SLIDING_WINDOW" "0 \<le> rl_limit r" "rl_limit r \<le> 10000"
    and "0 \<le> rl_window_seconds r" "rl_window_seconds r \<le> 3600"
    and "sorted (t0 # map event_time es)" "\<forall>e \<in> set es. keeps_key r key e"
  shows "\<exists>A. admitted_times isof key es (new_store t0) = Inr A
    \<and> (\<forall>x. int (length (filter (\<lambda>a. x - secs (rl_window_seconds r) \<le> a \<and> a \<le> x) A)) \<le> rl_limit r)"
proof -
  let ?w = "secs (rl_window_seconds r)" and ?es = "map (as_logged isof key) es"
  let ?A = "memory_log.run (nat (rl_limit r)) ?w key ?es (new_store t0)"
  have l: "rl_limit r = int (nat (rl_limit r))" using assms(2) by simp
  have cap: "nat (rl_limit r) \<le> deque_maxlen" using assms(3) by (simp add: deque_maxlen_def)
  have w: "0 \<le> ?w" "?w \<le> secs 3600" using assms(4,5) by (simp_all add: secs_def)
  have t: "sorted (t0 # map fst ?es)" using assms(6) by (simp add: comp_def as_logged_time)
  have g: "\<forall>e \<in> set ?es. memory_log.legal key e" using assms(7) as_logged_legal by auto
  have i: "log_ok t0 (new_store t0)" by (simp add: log_ok_def new_store_def stored_timestamps_def)
  have e: "\<forall>since. get_request_timestamps key since (new_store t0) = []"
    by (simp add: get_request_timestamps_def stored_timestamps_def new_store_def)
  have "length (filter (\<lambda>a. x - ?w \<le> a \<and> a \<le> x) ?A) \<le> nat (rl_limit r)" for x
    using memory_log.run_bounded [OF w cap t g i e] by (simp add: memory_log.in_window_def)
  then have "int (length (filter (\<lambda>a. x - ?w \<le> a \<and> a \<le> x) ?A)) \<le> rl_limit r" for x
    unfolding le_nat_iff [OF assms(2)] .
  with sliding_run [OF assms(1) l assms(7)] show ?thesis by blast
qed

theorem sliding_window_bounded_witness:
  "\<exists>A. admitted_times (\<lambda>_. []) ''k'' [Request 0 auth_strict ''k'' 1, Request 1 user_general ''u'' 3,
        Cleanup 2, Request 3 auth_strict ''k'' 2] (new_store 0) = Inr A
     \<and> int (length (filter (\<lambda>a. - 59999999 \<le> a \<and> a \<le> 1) A)) \<le> 10"
proof -
  have a: "rl_algorithm auth_strict = SLIDING_WINDOW" "rl_limit auth_strict = 10"
    "rl_window_seconds auth_strict = 60" "rl_limit user_general \<noteq> 0" "rl_window_seconds user_general \<noteq> 0"
    by (simp_all add: auth_strict_def user_general_def default_rate_limit_rules_def)
  from sliding_window_bounded [of auth_strict 0 "[Request 0 auth_strict ''k'' 1, Request 1 user_general ''u'' 3,
      Cleanup 2, Request 3 auth_strict ''k'' 2]" "''k''" "\<lambda>_. []"] a
  obtain A where A: "admitted_times (\<lambda>_. []) ''k'' [Request 0 auth_strict ''k'' 1, Request 1 user_general ''u'' 3,
      Cleanup 2, Request 3 auth_strict ''k'' 2] (new_store 0) = Inr A"
    "\<forall>x. int (length (filter (\<lambda>a. x - secs 60 \<le> a \<and> a \<le> x) A)) \<le> 10" by auto
  from A(1) spec [OF A(2), of 1] show ?thesis by (auto simp: secs_def)
qed

text \<open>
  the rule a new limiter checks a request against is an enabled rule that applies to the
  request with no applicable rule of higher priority, or the default rule when none applies.
\<close>

theorem rule_lookup_highest_priority:
  assumes "find_applicable_rule now ip endpoint user utype (new_limiter t0 rules dflt) = (r, lm)"
  shows "(r \<in> set rules \<and> rule_applies ip endpoint user utype r
       \<and> (\<forall>r' \<in> set rules. rule_applies ip endpoint user utype r' \<longrightarrow> rl_priority r' \<le> rl_priority r))
     \<or> (r = lm_default lm \<and> (\<forall>r' \<in> set rules. \<not> rule_applies ip endpoint user utype r'))"
proof -
  let ?rs = "sort_by_desc rl_priority rules" and ?P = "rule_applies ip endpoint user utype"
  from assms have r: "r = lookup_rule ?rs (lm_default lm) ip endpoint user utype"
    by (auto simp: find_applicable_rule_def new_limiter_def Let_def)
  show ?thesis
  proof (cases "find ?P ?rs")
    case None
    with r show ?thesis by (auto simp: lookup_rule_def find_None_iff)
  next
    case (Some q)
    then obtain i where i: "i < length ?rs" "?P (?rs ! i)" "q = ?rs ! i" "\<forall>j < i. \<not> ?P (?rs ! j)"
      by (auto simp: find_Some_iff)
    have "rl_priority r' \<le> rl_priority q" if a: "r' \<in> set rules" "?P r'" for r'
    proof -
      from a(1) have "r' \<in> set ?rs" by simp
      then obtain j where j: "j < length ?rs" "r' = ?rs ! j" by (metis in_set_conv_nth)
      with a(2) i(4) have "i \<le> j" by (meson not_le)
      then show ?thesis
        using sorted_sort_by_desc [of rl_priority rules] j i(3)
        by (cases "i = j") (auto simp: sorted_wrt_iff_nth_less)
    qed
    moreover have "r = q" using r Some by (simp add: lookup_rule_def)
    moreover have "q \<in> set rules" using i by (metis nth_mem set_sort_by_desc)
    ultimately show ?thesis using i by auto
  qed
qed

theorem rule_lookup_highest_priority_witness:
  "rl_name (fst (find_applicable_rule 5 ''10.0.0.1'' ''/auth/login'' (Some ''u'') None
      (new_limiter 0 default_rate_limit_rules None))) = ''auth_strict''
   \<and> list_all (\<lambda>r'. rl_priority r' \<le> 100)
        (filter (rule_applies ''10.0.0.1'' ''/auth/login'' (Some ''u'') None) default_rate_limit_rules)"
proof -
  obtain r lm where f: "find_applicable_rule 5 ''10.0.0.1'' ''/auth/login'' (Some ''u'') None
      (new_limiter 0 default_rate_limit_rules None) = (r, lm)" by fastforce
  have "fst (find_applicable_rule 5 ''10.0.0.1'' ''/auth/login'' (Some ''u'') None
      (new_limiter 0 default_rate_limit_rules None)) = auth_strict"
    by code_simp
  with f have r: "r = auth_strict" by simp
  have "rule_applies ''10.0.0.1'' ''/auth/login'' (Some ''u'') None auth_strict"
    "auth_strict \<in> set default_rate_limit_rules" "rl_name auth_strict = ''auth_strict''"
    "rl_priority auth_strict = 100"
    by (simp_all add: auth_strict_def default_rate_limit_rules_def rule_applies_def listed_def
        scope_matches_def strict_auth_endpoints_def)
  with rule_lookup_highest_priority [OF f] f r show ?thesis by (auto simp: list_all_iff)
qed

text \<open>
  the fixed window does not start from zero: resetting the window leaves the stored count,
  so once as many requests as the limit have been recorded, a new window admits one request
  and refuses the next.
\<close>

theorem fixed_window_count_survives_reset:
  assumes "rl_algorithm r = FIXED_WINDOW" "1 \<le> rl_limit r" "0 < rl_window_seconds r"
    and "get_window_start key st = Some w" "now - w \<ge> secs (rl_window_seconds r)"
    and "rl_limit r \<le> count_of st key" "now \<le> later" "later - now < secs (rl_window_seconds r)"
    and "later - ms_last_cleanup st \<le> secs 300"
  shows "\<exists>st1 st2. admit isof now r key 1 st = Inr (True, st1)
     \<and> admit isof later r key 1 st1 = Inr (False, st2)"
proof -
  from assms(7,9) have c: "maybe_cleanup now st = st" by (intro no_cleanup) simp
  let ?s = "set_window_start key now st"
  let ?st1 = "?s\<lparr>ms_counts := dset key (count_of st key + 1) (ms_counts st)\<rparr>"
  have cs: "maybe_cleanup now ?s = ?s" "count_of ?s key = count_of st key"
    using assms(7,9) by (simp_all add: maybe_cleanup_def set_window_start_def count_of_def)
  have a: "admit isof now r key 1 st = Inr (True, ?st1)"
    using assms(1,2,4,5) cs by (simp add: admit_def check_with_def check_fixed_window_def record_with_def
        result_of_def increment_count_def Let_def set_window_start_def)
  have l: "maybe_cleanup later ?st1 = ?st1"
    using assms(9) by (simp add: maybe_cleanup_def set_window_start_def)
  have "get_window_start key ?st1 = Some now" "count_of ?st1 key = count_of st key + 1"
    by (simp_all add: get_window_start_def set_window_start_def count_of_def)
  then have "\<exists>st2. admit isof later r key 1 ?st1 = Inr (False, st2)"
    using assms(1,6,8) l by (simp add: admit_def check_with_def check_fixed_window_def
        result_of_def get_count_def Let_def)
  with a show ?thesis by blast
qed

theorem fixed_window_count_survives_reset_witness:
  "\<exists>st1 st2. admit (\<lambda>_. []) 70000000 global_fallback ''g'' 1 full_window = Inr (True, st1)
     \<and> admit (\<lambda>_. []) 70000001 global_fallback ''g'' 1 st1 = Inr (False, st2)"
  by (rule fixed_window_count_survives_reset [of _ _ _ 0])
    (simp_all add: global_fallback_def default_rate_limit_rules_def full_window_def secs_def
      get_window_start_def count_of_def dict_simps)

text \<open>
  between cleanups a token bucket stays within its capacity: a check of a positive rule
  never raises, leaves between zero and the capacity, and allows the request exactly when the
  refilled bucket holds enough tokens, which it then takes.
\<close>

theorem token_bucket_within_capacity:
  assumes "0 < rl_limit r" "0 < rl_window_seconds r" "0 < max_tokens r" "0 \<le> weight"
    and "now - ms_last_cleanup st \<le> secs 300"
    and "get_window_start (last_refill_key key) st = Some w"
    and "0 \<le> count_of st (bucket_key key)" "count_of st (bucket_key key) \<le> max_tokens r"
  shows "\<exists>res st' t. check_token_bucket now r key weight st = Inr (res, st')
     \<and> count_of st (bucket_key key) \<le> t \<and> t \<le> max_tokens r
     \<and> (rr_allowed res \<longleftrightarrow> weight \<le> t)
     \<and> count_of st' (bucket_key key) = (if weight \<le> t then t - weight else t)"
proof -
  let ?k = "bucket_key key"
  let ?c = "count_of st ?k"
  have nc: "maybe_cleanup now s = s" if "ms_last_cleanup s = ms_last_cleanup st" for s
    using assms(5) that by (intro no_cleanup) simp
  have g: "get_count now ?k st = (?c, st)" by (simp add: get_count_def nc)
  let ?add = "trunc_rat (of_int (now - w) / 1000000
                * (of_int (rl_limit r) / of_int (rl_window_seconds r)))"
  let ?n = "min (max_tokens r) (?c + ?add)"
  let ?inc = "snd (increment_count now ?k (?n - ?c) st)"
  have inc: "count_of ?inc ?k = ?n" "ms_last_cleanup ?inc = ms_last_cleanup st"
    by (simp_all add: increment_count_def nc Let_def count_of_def)
  have ws: "count_of (set_window_start k now s) ?k = count_of s ?k"
    "ms_last_cleanup (set_window_start k now s) = ms_last_cleanup s" for k s
    by (simp_all add: count_of_def set_window_start_def)
  have f: "refill now r key st = (if ?add > 0 then
      (if ?n > ?c then Inr (?n, set_window_start (last_refill_key key) now ?inc)
       else Inr (?c, set_window_start (last_refill_key key) now st)) else Inr (?c, st))"
    using assms(2,6) by (simp add: refill_def g Let_def)
  obtain t st1 where r: "refill now r key st = Inr (t, st1)" "?c \<le> t" "t \<le> max_tokens r"
    "count_of st1 ?k = t" "ms_last_cleanup st1 = ms_last_cleanup st"
  proof (cases "?add > 0 \<and> ?n > ?c")
    case True
    with f have "refill now r key st = Inr (?n, set_window_start (last_refill_key key) now ?inc)" by simp
    then show thesis by (rule that) (use True inc ws in \<open>auto simp del: min_less_iff_conj\<close>)
  next
    case False
    show thesis
    proof (cases "?add > 0")
      case True
      with f False have "refill now r key st = Inr (?c, set_window_start (last_refill_key key) now st)"
        by (simp del: min_less_iff_conj)
      then show thesis by (rule that) (use assms(8) ws in auto)
    next
      case False
      with f have "refill now r key st = Inr (?c, st)" by simp
      then show thesis by (rule that) (use assms(8) in auto)
    qed
  qed
  show ?thesis
  proof (cases "t < weight")
    case True
    with r(1) assms(1) obtain res where
      "check_token_bucket now r key weight st = Inr (res, st1)" "\<not> rr_allowed res"
      by (simp add: check_token_bucket_def result_of_def Let_def)
    with r True show ?thesis by (intro exI [of _ res] exI [of _ st1] exI [of _ t]) simp
  next
    case False
    have "count_of (snd (increment_count now ?k (- weight) st1)) ?k = t - weight"
      using r(4) nc [OF r(5)] by (simp add: increment_count_def Let_def count_of_def)
    moreover from r(1) False obtain res where
      "check_token_bucket now r key weight st = Inr (res, snd (increment_count now ?k (- weight) st1))"
      "rr_allowed res"
      by (simp add: check_token_bucket_def result_of_def Let_def)
    ultimately show ?thesis using r(2,3) False
      by (intro exI [of _ res] exI [of _ "snd (increment_count now ?k (- weight) st1)"] exI [of _ t]) simp
  qed
qed

theorem token_bucket_within_capacity_witness:
  "\<exists>res st'. check_token_bucket 10000000 user_general ''u'' 1 used_bucket = Inr (res, st')
     \<and> count_of st' (bucket_key ''u'') \<le> 99"
proof -
  have a: "rl_limit user_general = 1000" "rl_window_seconds user_general = 3600"
    "max_tokens user_general = 100" "ms_last_cleanup used_bucket = 0"
    "get_window_start (last_refill_key ''u'') used_bucket = Some 0"
    "count_of used_bucket (bucket_key ''u'') = 99"
    by (simp_all add: user_general_def default_rate_limit_rules_def used_bucket_def
        get_window_start_def count_of_def dict_simps max_tokens_def)
  from token_bucket_within_capacity [of user_general 1 10000000 used_bucket "''u''" 0] a
  obtain res st' t where "check_token_bucket 10000000 user_general ''u'' 1 used_bucket = Inr (res, st')"
    "99 \<le> t" "t \<le> 100" "count_of st' (bucket_key ''u'') = (if 1 \<le> t then t - 1 else t)"
    by (auto simp: secs_def)
  then show ?thesis by auto
qed

text \<open>
  after a long idle time the bucket overflows: the cleanup drops the time of the last
  refill but not the token count, and the next check takes the bucket for a new one, so the
  stored tokens become the old ones plus a full bucket.
\<close>

theorem token_bucket_overflows_after_cleanup:
  assumes "get_window_start (last_refill_key key) (maybe_cleanup now st) = None"
    and "weight \<le> max_tokens r"
  shows "\<exists>res st'. check_token_bucket now r key weight st = Inr (res, st') \<and> rr_allowed res
     \<and> count_of st' (bucket_key key)
         = count_of (maybe_cleanup now st) (bucket_key key) + max_tokens r - weight"
proof -
  let ?k = "bucket_key key" and ?c = "maybe_cleanup now st"
  have i: "maybe_cleanup now s = s" if "ms_last_cleanup s = ms_last_cleanup ?c" for s
  proof (rule no_cleanup)
    have "now - ms_last_cleanup ?c \<le> secs 300"
      by (simp add: maybe_cleanup_def secs_def)
    with that show "now - ms_last_cleanup s \<le> secs 300" by simp
  qed
  have inc: "increment_count now ?k a s = (count_of s ?k + a, s\<lparr>ms_counts := dset ?k (count_of s ?k + a) (ms_counts s)\<rparr>)"
    if "ms_last_cleanup s = ms_last_cleanup ?c" for a s
    using i [OF that] by (simp add: increment_count_def Let_def)
  let ?s1 = "set_window_start (last_refill_key key) now (snd (increment_count now ?k (max_tokens r) ?c))"
  have s1: "refill now r key st = Inr (max_tokens r, ?s1)"
    using assms(1) by (simp add: refill_def get_count_def Let_def split_def)
  have l: "ms_last_cleanup ?s1 = ms_last_cleanup ?c" "count_of ?s1 ?k = count_of ?c ?k + max_tokens r"
    by (simp_all add: inc set_window_start_def count_of_def)
  with assms(2) inc [OF l(1)] show ?thesis
    by (simp add: check_token_bucket_def s1 result_of_def Let_def count_of_def)
qed

theorem token_bucket_overflows_after_cleanup_witness:
  "\<exists>res st'. check_token_bucket 3601000000 user_general ''u'' 1 used_bucket = Inr (res, st')
     \<and> rr_allowed res \<and> count_of st' (bucket_key ''u'') = 198 \<and> max_tokens user_general = 100"
proof -
  have "get_window_start (last_refill_key ''u'') (maybe_cleanup 3601000000 used_bucket) = None"
    "count_of (maybe_cleanup 3601000000 used_bucket) (bucket_key ''u'') = 99"
    "max_tokens user_general = 100"
    by code_simp+
  with token_bucket_overflows_after_cleanup [of "''u''" 3601000000 used_bucket 1 user_general]
  show ?thesis by simp
qed

end
