(* ===== verification/JobLedger.thy ===== *)
theory JobLedger
  imports StateMachines "HOL-Library.Product_Lexorder"
begin

text \<open>
  The durable ledger of training jobs,
  \<^verbatim>\<open>src/src/ai_karen_engine/core/intelligence/ml/training/job_ledger.py\<close>. Its two SQLite tables
  are a list of rows with a unique \<^verbatim>\<open>job_id\<close> and a map of worker heartbeats; each method is one
  transaction. A comparison with an SQL \<^verbatim>\<open>NULL\<close> is false. The clock is an argument (ISO time
  stamps in UTC order like the instants they print, so instants are integers), and so is the
  fresh token of a claim. The JSON of a job body is the job itself; rows that an \<^verbatim>\<open>ORDER BY\<close>
  leaves tied are in insertion order.
\<close>

section \<open>Data\<close>

record training_job =
  tj_job_id :: string
  tj_task :: string
  tj_base_model :: string
  tj_dataset_version :: string
  tj_training_config_version :: string
  tj_seed :: int
  tj_started_at :: string
  tj_completed_at :: string
  tj_status :: string
  tj_artifact_path :: string
  tj_artifact_hash :: string
  tj_metrics :: "(string, pyval) pydict"
  tj_resource_usage :: "(string, pyval) pydict"
  tj_error_message :: string
  tj_metadata :: "(string, pyval) pydict"

record job_row =
  jr_job_id :: string
  jr_tenant_id :: string
  jr_user_id :: string
  jr_state :: string
  jr_body :: training_job
  jr_submitted_at :: int
  jr_updated_at :: int
  jr_lease_token :: "string option"
  jr_lease_expires_at :: "int option"

record worker_row =
  wr_heartbeat_at :: int
  wr_capabilities :: "(string, pyval) pydict"

record ledger =
  lg_jobs :: "job_row list"
  lg_workers :: "(string \<times> string, worker_row) pydict"

datatype ledger_error = LedgerValueError string | IntegrityError

definition empty_ledger :: ledger where
  "empty_ledger = \<lparr>lg_jobs = [], lg_workers = []\<rparr>"

definition running_states :: "string list" where
  "running_states = [''VALIDATING'', ''RUNNING'', ''EVALUATING'']"

definition is_running :: "job_row \<Rightarrow> bool" where
  "is_running r \<longleftrightarrow> jr_state r \<in> set running_states"

text \<open>\<^verbatim>\<open>json_set(body, '$.status', s)\<close> with the indexed state.\<close>

definition set_state :: "string \<Rightarrow> job_row \<Rightarrow> job_row" where
  "set_state s r = r\<lparr>jr_state := s, jr_body := (jr_body r)\<lparr>tj_status := s\<rparr>\<rparr>"

text \<open>An \<^verbatim>\<open>UPDATE ... WHERE\<close>: the rows that match are changed; the row count is returned.\<close>

definition update_rows :: "(job_row \<Rightarrow> bool) \<Rightarrow> (job_row \<Rightarrow> job_row) \<Rightarrow> ledger \<Rightarrow> nat \<times> ledger" where
  "update_rows P f l =
     (length (filter P (lg_jobs l)), l\<lparr>lg_jobs := map (\<lambda>r. if P r then f r else r) (lg_jobs l)\<rparr>)"

definition bad_tenant :: "string \<Rightarrow> bool" where
  "bad_tenant t \<longleftrightarrow> t = [] \<or> t = ''default''"

section \<open>Submitting and reading\<close>

definition submit :: "int \<Rightarrow> training_job \<Rightarrow> string \<Rightarrow> string \<Rightarrow> ledger \<Rightarrow> ledger_error + ledger" where
  "submit now job tenant user l =
     (if bad_tenant tenant \<or> user = [] then Inl (LedgerValueError ''Explicit tenant and user scope are required'')
      else if tj_job_id job \<in> set (map jr_job_id (lg_jobs l)) then Inl IntegrityError
      else Inr (l\<lparr>lg_jobs := lg_jobs l @
        [\<lparr>jr_job_id = tj_job_id job, jr_tenant_id = tenant, jr_user_id = user, jr_state = ''QUEUED'',
          jr_body = job\<lparr>tj_status := ''QUEUED''\<rparr>, jr_submitted_at = now, jr_updated_at = now,
          jr_lease_token = None, jr_lease_expires_at = None\<rparr>]\<rparr>))"

definition get_row :: "string \<Rightarrow> string \<Rightarrow> ledger \<Rightarrow> job_row option" where
  "get_row job_id tenant l = find (\<lambda>r. jr_job_id r = job_id \<and> jr_tenant_id r = tenant) (lg_jobs l)"

text \<open>The record returned by \<^verbatim>\<open>get\<close>: state, body with the state as its status, and the stamps.\<close>

definition get_job :: "string \<Rightarrow> string \<Rightarrow> ledger \<Rightarrow> (string \<times> training_job \<times> int \<times> int) option" where
  "get_job job_id tenant l = map_option (\<lambda>r.
     (jr_state r, (jr_body r)\<lparr>tj_status := jr_state r\<rparr>, jr_submitted_at r, jr_updated_at r))
     (get_row job_id tenant l)"

definition clamp :: "int \<Rightarrow> nat" where
  "clamp n = nat (max 1 (min n 100))"

definition list_jobs :: "string \<Rightarrow> int \<Rightarrow> ledger \<Rightarrow> (string \<times> string \<times> int \<times> int) list" where
  "list_jobs tenant n l =
     map (\<lambda>r. (jr_job_id r, jr_state r, jr_submitted_at r, jr_updated_at r))
       (take (clamp n) (sort_by_desc jr_submitted_at
         (filter (\<lambda>r. jr_tenant_id r = tenant) (lg_jobs l))))"

definition next_queued :: "string \<Rightarrow> ledger \<Rightarrow> ledger_error + string option" where
  "next_queued tenant l =
     (if bad_tenant tenant then Inl (LedgerValueError ''Explicit tenant scope required'')
      else Inr (case sort_by (\<lambda>r. (jr_submitted_at r, jr_job_id r)) (filter (\<lambda>r. jr_tenant_id r = tenant
                       \<and> jr_state r = ''QUEUED'' \<and> jr_lease_token r = None) (lg_jobs l)) of
                  [] \<Rightarrow> None | r # _ \<Rightarrow> Some (jr_job_id r)))"

section \<open>Workers\<close>

definition worker_heartbeat ::
    "int \<Rightarrow> string \<Rightarrow> string \<Rightarrow> (string, pyval) pydict \<Rightarrow> ledger \<Rightarrow> ledger_error + ledger" where
  "worker_heartbeat now tenant worker caps l =
     (if bad_tenant tenant \<or> worker = [] then Inl (LedgerValueError ''Explicit tenant and worker scope required'')
      else Inr (l\<lparr>lg_workers := dset (tenant, worker)
                   \<lparr>wr_heartbeat_at = now, wr_capabilities = caps\<rparr> (lg_workers l)\<rparr>))"

definition worker_unregister :: "string \<Rightarrow> string \<Rightarrow> ledger \<Rightarrow> ledger" where
  "worker_unregister tenant worker l = l\<lparr>lg_workers := ddel (tenant, worker) (lg_workers l)\<rparr>"

definition worker_ttl :: int where
  "worker_ttl = 90000000"

definition online_workers :: "int \<Rightarrow> string \<Rightarrow> ledger \<Rightarrow> ((string \<times> string) \<times> worker_row) list" where
  "online_workers now tenant l =
     sort_by_desc (\<lambda>(_, w). wr_heartbeat_at w)
       (filter (\<lambda>((t, _), w). t = tenant \<and> wr_heartbeat_at w > now - worker_ttl) (lg_workers l))"

definition worker_capabilities ::
    "int \<Rightarrow> string \<Rightarrow> ledger \<Rightarrow> ledger_error + (string \<times> (string \<times> int \<times> (string, pyval) pydict) list)" where
  "worker_capabilities now tenant l =
     (if bad_tenant tenant then Inl (LedgerValueError ''Explicit tenant scope required'')
      else (let rows = online_workers now tenant l in
        Inr (if rows \<noteq> [] then ''online'' else ''offline'',
             map (\<lambda>((_, wid), w). (wid, wr_heartbeat_at w, wr_capabilities w)) rows)))"

record execution_status =
  es_queued_jobs :: nat
  es_active_leases :: nat
  es_expired_leases :: nat
  es_worker_status :: string
  es_worker_status_reason :: string
  es_automatic_dispatch_verified :: bool

definition execution_status_of :: "int \<Rightarrow> string \<Rightarrow> ledger \<Rightarrow> ledger_error + execution_status" where
  "execution_status_of now tenant l =
     (if bad_tenant tenant then Inl (LedgerValueError ''Explicit tenant scope required'')
      else (let mine = filter (\<lambda>r. jr_tenant_id r = tenant) (lg_jobs l);
                leased = filter (\<lambda>r. is_running r \<and> jr_lease_token r \<noteq> None) mine;
                online = online_workers now tenant l \<noteq> []
            in Inr \<lparr>es_queued_jobs = length (filter (\<lambda>r. jr_state r = ''QUEUED'') mine),
                    es_active_leases = length (filter (\<lambda>r. sql_after (jr_lease_expires_at r) now) leased),
                    es_expired_leases = length (filter (\<lambda>r. sql_not_after (jr_lease_expires_at r) now) leased),
                    es_worker_status = (if online then ''online'' else ''offline''),
                    es_worker_status_reason = (if online then ''Recent worker heartbeat''
                      else ''No recent registered worker heartbeat''),
                    es_automatic_dispatch_verified = False\<rparr>))"

section \<open>Leases\<close>

definition ttl_ok :: "int \<Rightarrow> bool" where
  "ttl_ok ttl \<longleftrightarrow> 30 \<le> ttl \<and> ttl \<le> 3600"

definition claim ::
    "int \<Rightarrow> string \<Rightarrow> string \<Rightarrow> string \<Rightarrow> int \<Rightarrow> ledger \<Rightarrow> ledger_error + string option \<times> ledger" where
  "claim now token job_id tenant ttl l =
     (if bad_tenant tenant \<or> \<not> ttl_ok ttl then Inl (LedgerValueError ''Invalid tenant scope or lease duration'')
      else (let (n, l') = update_rows
              (\<lambda>r. jr_job_id r = job_id \<and> jr_tenant_id r = tenant \<and> jr_state r = ''QUEUED''
                   \<and> jr_lease_token r = None)
              (\<lambda>r. (set_state ''VALIDATING'' r)\<lparr>jr_lease_token := Some token,
                   jr_lease_expires_at := Some (now + ttl * 1000000), jr_updated_at := now\<rparr>) l
            in Inr (if n = 1 then Some token else None, l')))"

definition heartbeat ::
    "int \<Rightarrow> string \<Rightarrow> string \<Rightarrow> string \<Rightarrow> int \<Rightarrow> ledger \<Rightarrow> ledger_error + bool \<times> ledger" where
  "heartbeat now job_id tenant token ttl l =
     (if token = [] \<or> \<not> ttl_ok ttl then Inl (LedgerValueError ''Invalid lease credentials'')
      else (let (n, l') = update_rows
              (\<lambda>r. jr_job_id r = job_id \<and> jr_tenant_id r = tenant \<and> sql_eq (jr_lease_token r) token
                   \<and> sql_after (jr_lease_expires_at r) now \<and> is_running r)
              (\<lambda>r. r\<lparr>jr_lease_expires_at := Some (now + ttl * 1000000), jr_updated_at := now\<rparr>) l
            in Inr (n = 1, l')))"

definition lease_valid :: "int \<Rightarrow> string \<Rightarrow> string \<Rightarrow> string \<Rightarrow> ledger \<Rightarrow> bool" where
  "lease_valid now job_id tenant token l \<longleftrightarrow> token \<noteq> [] \<and>
     (\<exists>r \<in> set (lg_jobs l). jr_job_id r = job_id \<and> jr_tenant_id r = tenant
        \<and> sql_eq (jr_lease_token r) token \<and> sql_after (jr_lease_expires_at r) now \<and> is_running r)"

definition expired_leases ::
    "int \<Rightarrow> string \<Rightarrow> int \<Rightarrow> ledger \<Rightarrow> ledger_error + (string \<times> string \<times> int \<times> int option) list" where
  "expired_leases now tenant n l =
     (if bad_tenant tenant then Inl (LedgerValueError ''Explicit tenant scope required'')
      else Inr (map (\<lambda>r. (jr_job_id r, jr_state r, jr_updated_at r, jr_lease_expires_at r))
        (take (clamp n) (sort_by (\<lambda>r. case jr_lease_expires_at r of None \<Rightarrow> 0 | Some x \<Rightarrow> x)
          (filter (\<lambda>r. jr_tenant_id r = tenant \<and> jr_lease_token r \<noteq> None
             \<and> sql_not_after (jr_lease_expires_at r) now \<and> is_running r) (lg_jobs l))))))"

section \<open>Transitions\<close>

definition allowed_transitions :: "string \<Rightarrow> string list" where
  "allowed_transitions s =
     (if s = ''QUEUED'' then [''VALIDATING'', ''CANCELLED'']
      else if s = ''VALIDATING'' then [''RUNNING'', ''FAILED'', ''CANCELLED'']
      else if s = ''RUNNING'' then [''EVALUATING'', ''FAILED'', ''CANCELLED'']
      else if s = ''EVALUATING'' then [''SUCCEEDED'', ''FAILED'', ''CANCELLED'']
      else if s = ''FAILED'' then [''QUEUED''] else [])"

definition clears_lease :: "string \<Rightarrow> bool" where
  "clears_lease s \<longleftrightarrow> s \<in> {''FAILED'', ''SUCCEEDED'', ''CANCELLED'', ''QUEUED''}"

text \<open>\<^verbatim>\<open>if lease_token\<close>: an empty token counts as none.\<close>

definition given_token :: "string option \<Rightarrow> string option" where
  "given_token t = (case t of None \<Rightarrow> None | Some s \<Rightarrow> if s = [] then None else Some s)"

definition transition ::
    "int \<Rightarrow> string \<Rightarrow> string \<Rightarrow> string \<Rightarrow> string \<Rightarrow> training_job option \<Rightarrow> string option \<Rightarrow> ledger \<Rightarrow>
     ledger_error + bool \<times> ledger" where
  "transition now job_id tenant from_status to_status job token l =
     (if to_status \<notin> set (allowed_transitions from_status)
      then Inl (LedgerValueError ''Invalid training job state transition'')
      else if from_status \<in> set running_states \<and> given_token token = None
      then Inl (LedgerValueError ''A lease token is required for running job transitions'')
      else if (case job of None \<Rightarrow> False | Some j \<Rightarrow> tj_job_id j \<noteq> job_id)
      then Inl (LedgerValueError ''Job identity mismatch'')
      else (let (n, l') = update_rows
              (\<lambda>r. jr_job_id r = job_id \<and> jr_tenant_id r = tenant \<and> jr_state r = from_status
                 \<and> (case given_token token of
                      None \<Rightarrow> jr_lease_token r = None
                    | Some t \<Rightarrow> sql_eq (jr_lease_token r) t \<and> sql_after (jr_lease_expires_at r) now))
              (\<lambda>r. (let r1 = (case job of
                              None \<Rightarrow> set_state to_status r
                            | Some j \<Rightarrow> r\<lparr>jr_state := to_status, jr_body := j\<lparr>tj_status := to_status\<rparr>\<rparr>);
                        r2 = r1\<lparr>jr_updated_at := now\<rparr>
                    in if clears_lease to_status
                       then r2\<lparr>jr_lease_token := None, jr_lease_expires_at := None\<rparr> else r2)) l
            in Inr (n = 1, l')))"

definition interrupted :: "string \<Rightarrow> int \<Rightarrow> ledger \<Rightarrow> (string \<times> string \<times> int) list" where
  "interrupted tenant n l =
     map (\<lambda>r. (jr_job_id r, jr_state r, jr_updated_at r))
       (take (clamp n) (sort_by jr_updated_at
         (filter (\<lambda>r. jr_tenant_id r = tenant \<and> is_running r) (lg_jobs l))))"

definition cancel :: "int \<Rightarrow> string \<Rightarrow> string \<Rightarrow> ledger \<Rightarrow> ledger_error + bool \<times> ledger" where
  "cancel now job_id tenant l = transition now job_id tenant ''QUEUED'' ''CANCELLED'' None None l"

definition recover :: "int \<Rightarrow> string \<Rightarrow> string \<Rightarrow> ledger \<Rightarrow> ledger_error + bool \<times> ledger" where
  "recover now tenant job_id l =
     (case get_job job_id tenant l of
        None \<Rightarrow> Inr (False, l)
      | Some (state, job, _, _) \<Rightarrow>
          if state \<noteq> ''FAILED'' then Inr (False, l)
          else if tj_artifact_path job \<noteq> [] \<or> tj_artifact_hash job \<noteq> [] then Inr (False, l)
          else transition now job_id tenant ''FAILED'' ''QUEUED'' None None l)"

section \<open>Runs of the ledger\<close>

datatype ledger_op =
    Submit int training_job string string
  | WorkerHeartbeat int string string "(string, pyval) pydict"
  | WorkerUnregister string string
  | Claim int string string string int
  | Heartbeat int string string string int
  | Transition int string string string string "training_job option" "string option"
  | Cancel int string string
  | Recover int string string

text \<open>An operation that raises leaves the tables as they were.\<close>

definition kept :: "ledger \<Rightarrow> ledger_error + 'a \<times> ledger \<Rightarrow> ledger" where
  "kept l r = (case r of Inl _ \<Rightarrow> l | Inr (_, l') \<Rightarrow> l')"

fun ledger_step :: "ledger_op \<Rightarrow> ledger \<Rightarrow> ledger" where
  "ledger_step (Submit now job t u) l = (case submit now job t u l of Inl _ \<Rightarrow> l | Inr l' \<Rightarrow> l')"
| "ledger_step (WorkerHeartbeat now t w c) l = (case worker_heartbeat now t w c l of Inl _ \<Rightarrow> l | Inr l' \<Rightarrow> l')"
| "ledger_step (WorkerUnregister t w) l = worker_unregister t w l"
| "ledger_step (Claim now tok j t ttl) l = kept l (claim now tok j t ttl l)"
| "ledger_step (Heartbeat now j t tok ttl) l = kept l (heartbeat now j t tok ttl l)"
| "ledger_step (Transition now j t from_status to_status job tok) l =
     kept l (transition now j t from_status to_status job tok l)"
| "ledger_step (Cancel now j t) l = kept l (cancel now j t l)"
| "ledger_step (Recover now t j) l = kept l (recover now t j l)"

fun ledger_run :: "ledger_op list \<Rightarrow> ledger \<Rightarrow> ledger" where
  "ledger_run [] l = l"
| "ledger_run (op # ops) l = ledger_run ops (ledger_step op l)"

section \<open>Well-formed tables\<close>

definition job_states :: "string list" where
  "job_states = [''QUEUED'', ''VALIDATING'', ''RUNNING'', ''EVALUATING'', ''SUCCEEDED'', ''FAILED'', ''CANCELLED'']"

text \<open>
  A known state that the body repeats, the identity in the body, a lease only while running,
  and a lease with its expiry.
\<close>

definition row_ok :: "job_row \<Rightarrow> bool" where
  "row_ok r \<longleftrightarrow> jr_state r \<in> set job_states \<and> tj_status (jr_body r) = jr_state r
     \<and> tj_job_id (jr_body r) = jr_job_id r
     \<and> (jr_lease_token r \<noteq> None \<longrightarrow> is_running r)
     \<and> (jr_lease_token r = None \<longleftrightarrow> jr_lease_expires_at r = None)"

definition ledger_ok :: "ledger \<Rightarrow> bool" where
  "ledger_ok l \<longleftrightarrow> distinct (map jr_job_id (lg_jobs l)) \<and> (\<forall>r \<in> set (lg_jobs l). row_ok r)"

definition row_of :: "string \<Rightarrow> ledger \<Rightarrow> job_row option" where
  "row_of k l = find (\<lambda>r. jr_job_id r = k) (lg_jobs l)"

lemma update_ok:
  assumes "ledger_ok l" "\<And>r. r \<in> set (lg_jobs l) \<Longrightarrow> P r \<Longrightarrow> row_ok r \<Longrightarrow> row_ok (f r) \<and> jr_job_id (f r) = jr_job_id r"
  shows "ledger_ok (snd (update_rows P f l))"
proof -
  let ?l = "snd (update_rows P f l)"
  have "map jr_job_id (lg_jobs ?l) = map jr_job_id (lg_jobs l)"
    using assms by (simp add: update_rows_def ledger_ok_def)
  moreover have "\<forall>r \<in> set (lg_jobs ?l). row_ok r"
    using assms by (auto simp: update_rows_def ledger_ok_def)
  moreover have "distinct (map jr_job_id (lg_jobs l))" using assms(1) by (simp add: ledger_ok_def)
  ultimately show ?thesis by (simp only: ledger_ok_def)
qed

lemma find_map:
  "(\<And>r. r \<in> set rs \<Longrightarrow> jr_job_id (g r) = jr_job_id r) \<Longrightarrow>
     find (\<lambda>r. jr_job_id r = k) (map g rs) = map_option g (find (\<lambda>r. jr_job_id r = k) rs)"
  by (induction rs) auto

lemma row_update:
  assumes "\<And>r. jr_job_id (f r) = jr_job_id r"
  shows "row_of k (snd (update_rows P f l)) = map_option (\<lambda>r. if P r then f r else r) (row_of k l)"
  unfolding row_of_def update_rows_def by (simp add: find_map assms)

lemma job_row_unchanged:
  assumes "\<And>r. jr_job_id (f r) = jr_job_id r" "row_of k l = Some r" "\<not> P r"
  shows "row_of k (snd (update_rows P f l)) = Some r"
  using row_update [OF assms(1)] assms(2,3) by simp

lemma row_of_mem: "row_of k l = Some r \<Longrightarrow> r \<in> set (lg_jobs l) \<and> jr_job_id r = k"
  unfolding row_of_def by (auto simp: find_Some_iff)

lemma states_simps [simp]:
  "set running_states = {''VALIDATING'', ''RUNNING'', ''EVALUATING''}"
  by (auto simp: running_states_def)

lemma transition_kept:
  assumes "transition now j t f s job tok l = Inr (b, l')"
  obtains P g where "l' = snd (update_rows P g l)" "\<And>r. P r \<Longrightarrow> jr_job_id r = j \<and> jr_state r = f
      \<and> (case given_token tok of None \<Rightarrow> jr_lease_token r = None
         | Some x \<Rightarrow> sql_eq (jr_lease_token r) x \<and> sql_after (jr_lease_expires_at r) now)"
    "s \<in> set (allowed_transitions f)" "f \<in> set running_states \<longrightarrow> given_token tok \<noteq> None"
    "\<And>r. jr_job_id (g r) = jr_job_id r"
    "\<And>r. row_ok r \<Longrightarrow> P r \<Longrightarrow> row_ok (g r)"
proof -
  let ?P = "\<lambda>r. jr_job_id r = j \<and> jr_tenant_id r = t \<and> jr_state r = f
      \<and> (case given_token tok of None \<Rightarrow> jr_lease_token r = None
         | Some x \<Rightarrow> sql_eq (jr_lease_token r) x \<and> sql_after (jr_lease_expires_at r) now)"
  let ?g = "\<lambda>r. (let r1 = (case job of None \<Rightarrow> set_state s r
                    | Some jb \<Rightarrow> r\<lparr>jr_state := s, jr_body := jb\<lparr>tj_status := s\<rparr>\<rparr>);
                  r2 = r1\<lparr>jr_updated_at := now\<rparr>
              in if clears_lease s then r2\<lparr>jr_lease_token := None, jr_lease_expires_at := None\<rparr> else r2)"
  from assms have a: "s \<in> set (allowed_transitions f)"
    and tk: "f \<in> set running_states \<longrightarrow> given_token tok \<noteq> None"
    and jb: "\<And>jb. job = Some jb \<Longrightarrow> tj_job_id jb = j"
    and l': "l' = snd (update_rows ?P ?g l)"
    by (auto simp: transition_def Let_def split: if_splits prod.splits option.splits)
  have "row_ok (?g r)" if r: "row_ok r" "?P r" for r
  proof -
    have "s \<in> set job_states"
      using a by (auto simp: allowed_transitions_def job_states_def split: if_splits)
    moreover have "clears_lease s \<or> s \<in> set running_states"
      using a by (auto simp: allowed_transitions_def clears_lease_def split: if_splits)
    ultimately show ?thesis
    proof (cases job)
      case None
      with r \<open>s \<in> set job_states\<close> \<open>clears_lease s \<or> s \<in> set running_states\<close> show ?thesis
        by (cases "clears_lease s") (simp_all add: row_ok_def set_state_def is_running_def Let_def)
    next
      case (Some jb)
      with r jb [OF Some] \<open>s \<in> set job_states\<close> \<open>clears_lease s \<or> s \<in> set running_states\<close> show ?thesis
        by (cases "clears_lease s") (simp_all add: row_ok_def is_running_def Let_def)
    qed
  qed
  moreover have "jr_job_id (?g r) = jr_job_id r" for r
    by (simp add: Let_def set_state_def split: option.split)
  ultimately show thesis using that [of ?P ?g] l' a tk by blast
qed

lemma recover_kept:
  "recover now t j l = Inr (b, l') \<Longrightarrow> l' = l \<or> transition now j t ''FAILED'' ''QUEUED'' None None l = Inr (b, l')"
  by (auto simp: recover_def split: option.splits if_splits)

lemma transition_ok: "ledger_ok l \<Longrightarrow> transition now j t f s job tok l = Inr (b, l') \<Longrightarrow> ledger_ok l'"
  by (erule transition_kept) (auto intro!: update_ok)

lemma submit_ok: "ledger_ok l \<Longrightarrow> submit now job t u l = Inr l' \<Longrightarrow> ledger_ok l'"
  by (auto simp: submit_def ledger_ok_def row_ok_def job_states_def split: if_splits)

lemma claim_ok: "ledger_ok l \<Longrightarrow> claim now tok j t ttl l = Inr (r, l') \<Longrightarrow> ledger_ok l'"
proof -
  assume l: "ledger_ok l" and c: "claim now tok j t ttl l = Inr (r, l')"
  let ?P = "\<lambda>r. jr_job_id r = j \<and> jr_tenant_id r = t \<and> jr_state r = ''QUEUED'' \<and> jr_lease_token r = None"
  let ?f = "\<lambda>r. (set_state ''VALIDATING'' r)\<lparr>jr_lease_token := Some tok,
      jr_lease_expires_at := Some (now + ttl * 1000000), jr_updated_at := now\<rparr>"
  have "ledger_ok (snd (update_rows ?P ?f l))"
    by (rule update_ok [OF l]) (auto simp: row_ok_def set_state_def job_states_def is_running_def)
  with c show "ledger_ok l'" by (auto simp: claim_def Let_def split: if_splits prod.splits)
qed

lemma heartbeat_ok: "ledger_ok l \<Longrightarrow> heartbeat now j t tok ttl l = Inr (r, l') \<Longrightarrow> ledger_ok l'"
proof -
  assume l: "ledger_ok l" and c: "heartbeat now j t tok ttl l = Inr (r, l')"
  let ?P = "\<lambda>r. jr_job_id r = j \<and> jr_tenant_id r = t \<and> sql_eq (jr_lease_token r) tok
      \<and> sql_after (jr_lease_expires_at r) now \<and> is_running r"
  let ?f = "\<lambda>r. r\<lparr>jr_lease_expires_at := Some (now + ttl * 1000000), jr_updated_at := now\<rparr>"
  have "ledger_ok (snd (update_rows ?P ?f l))"
    by (rule update_ok [OF l]) (auto simp: row_ok_def is_running_def sql_eq_def)
  with c show "ledger_ok l'" by (auto simp: heartbeat_def Let_def split: if_splits prod.splits)
qed

lemma step_ok: "ledger_ok l \<Longrightarrow> ledger_ok (ledger_step op l)"
proof (cases op)
  case (Recover now t j)
  assume l: "ledger_ok l"
  with Recover show ?thesis
    using recover_kept [of now t j l] transition_ok [OF l] by (auto simp: kept_def split: sum.splits)
next
  case (WorkerHeartbeat now t w c)
  assume "ledger_ok l"
  with WorkerHeartbeat show ?thesis
    by (auto simp: worker_heartbeat_def ledger_ok_def split: sum.splits if_splits)
qed (auto simp: kept_def worker_unregister_def ledger_ok_def [of "l\<lparr>lg_workers := w\<rparr>" for w] cancel_def
    intro: submit_ok claim_ok heartbeat_ok transition_ok split: sum.splits dest: ledger_ok_def [THEN iffD1])

section \<open>The fence around a row\<close>

text \<open>A row that is finished, or held by a running job.\<close>

definition settled :: "string \<Rightarrow> job_row option \<Rightarrow> bool" where
  "settled k v \<longleftrightarrow> (\<exists>r. v = Some r \<and> (jr_state r \<in> {''SUCCEEDED'', ''CANCELLED''} \<or> is_running r))"

text \<open>An operation on the job that presents the token of its lease before the lease has expired.\<close>

fun presents :: "string \<Rightarrow> job_row \<Rightarrow> ledger_op \<Rightarrow> bool" where
  "presents k r (Heartbeat now j t tok ttl) =
     (j = k \<and> tok \<noteq> [] \<and> jr_lease_token r = Some tok \<and> sql_after (jr_lease_expires_at r) now)"
| "presents k r (Transition now j t f s job tok) =
     (j = k \<and> given_token tok \<noteq> None \<and> jr_lease_token r = given_token tok
      \<and> sql_after (jr_lease_expires_at r) now)"
| "presents k r op = False"

definition entitled :: "string \<Rightarrow> job_row option \<Rightarrow> ledger_op \<Rightarrow> bool" where
  "entitled k v op \<longleftrightarrow> (\<exists>r. v = Some r \<and> is_running r \<and> presents k r op)"

lemma find_prefix: "find P xs = Some r \<Longrightarrow> find P (xs @ ys) = Some r"
  by (induction xs) auto

lemma transition_row:
  assumes "transition now j t f s job tok l = Inr (b, l')" "row_of k l = Some r"
    and "jr_state r \<in> {''SUCCEEDED'', ''CANCELLED''} \<or> is_running r"
    and "\<not> (is_running r \<and> presents k r (Transition now j t f s job tok))"
  shows "row_of k l' = Some r"
  using assms(1)
proof (rule transition_kept)
  fix P g assume l': "l' = snd (update_rows P g l)"
    and P: "\<And>r. P r \<Longrightarrow> jr_job_id r = j \<and> jr_state r = f
      \<and> (case given_token tok of None \<Rightarrow> jr_lease_token r = None
         | Some x \<Rightarrow> sql_eq (jr_lease_token r) x \<and> sql_after (jr_lease_expires_at r) now)"
    and a: "s \<in> set (allowed_transitions f)" and tk: "f \<in> set running_states \<longrightarrow> given_token tok \<noteq> None"
    and g: "\<And>r. jr_job_id (g r) = jr_job_id r"
  have "\<not> P r"
  proof
    assume "P r"
    note p = P [OF this]
    have "jr_state r \<notin> {''SUCCEEDED'', ''CANCELLED''}"
      using p a by (auto simp: allowed_transitions_def)
    with assms(3) have run: "is_running r" by simp
    with p tk obtain x where x: "given_token tok = Some x" by (auto simp: is_running_def)
    with p row_of_mem [OF assms(2)] have "presents k r (Transition now j t f s job tok)"
      by (simp add: sql_eq_def)
    with run assms(4) show False by simp
  qed
  with job_row_unchanged [OF g assms(2)] l' show ?thesis by simp
qed

lemma claim_row:
  assumes "claim now tok j t ttl l = Inr (b, l')" "row_of k l = Some r"
    and "jr_state r \<in> {''SUCCEEDED'', ''CANCELLED''} \<or> is_running r"
  shows "row_of k l' = Some r"
proof -
  let ?P = "\<lambda>r. jr_job_id r = j \<and> jr_tenant_id r = t \<and> jr_state r = ''QUEUED'' \<and> jr_lease_token r = None"
  let ?f = "\<lambda>r. (set_state ''VALIDATING'' r)\<lparr>jr_lease_token := Some tok,
      jr_lease_expires_at := Some (now + ttl * 1000000), jr_updated_at := now\<rparr>"
  have "row_of k (snd (update_rows ?P ?f l)) = Some r"
    by (rule job_row_unchanged [OF _ assms(2)]) (use assms(3) in \<open>auto simp: set_state_def is_running_def\<close>)
  with assms(1) show ?thesis by (auto simp: claim_def Let_def split: if_splits prod.splits)
qed

lemma heartbeat_row:
  assumes "heartbeat now j t tok ttl l = Inr (b, l')" "row_of k l = Some r"
    and "\<not> (is_running r \<and> presents k r (Heartbeat now j t tok ttl))"
  shows "row_of k l' = Some r"
proof -
  let ?P = "\<lambda>r. jr_job_id r = j \<and> jr_tenant_id r = t \<and> sql_eq (jr_lease_token r) tok
      \<and> sql_after (jr_lease_expires_at r) now \<and> is_running r"
  let ?f = "\<lambda>r. r\<lparr>jr_lease_expires_at := Some (now + ttl * 1000000), jr_updated_at := now\<rparr>"
  from assms(1) have tok: "tok \<noteq> []" by (auto simp: heartbeat_def)
  have "row_of k (snd (update_rows ?P ?f l)) = Some r"
    by (rule job_row_unchanged [OF _ assms(2)])
      (use assms(3) row_of_mem [OF assms(2)] tok in \<open>auto simp: sql_eq_def\<close>)
  with assms(1) show ?thesis by (auto simp: heartbeat_def Let_def split: if_splits prod.splits)
qed

lemma step_fence:
  assumes "settled k (row_of k l)" "\<not> entitled k (row_of k l) op"
  shows "row_of k (ledger_step op l) = row_of k l"
proof -
  from assms(1) obtain r where r: "row_of k l = Some r"
    "jr_state r \<in> {''SUCCEEDED'', ''CANCELLED''} \<or> is_running r" by (auto simp: settled_def)
  with assms(2) have p: "\<not> (is_running r \<and> presents k r op)" by (auto simp: entitled_def)
  show ?thesis
  proof (cases op)
    case (Submit now job t u)
    with r show ?thesis
      by (auto simp: submit_def row_of_def find_prefix split: sum.splits if_splits)
  next
    case (WorkerHeartbeat now t w c)
    then show ?thesis by (auto simp: worker_heartbeat_def row_of_def split: sum.splits if_splits)
  next
    case (WorkerUnregister t w)
    then show ?thesis by (simp add: worker_unregister_def row_of_def)
  next
    case (Claim now tok j t ttl)
    with claim_row [OF _ r] r(1) show ?thesis by (auto simp: kept_def split: sum.splits)
  next
    case (Heartbeat now j t tok ttl)
    with heartbeat_row [OF _ r(1)] p r(1) show ?thesis by (auto simp: kept_def split: sum.splits)
  next
    case (Transition now j t f s job tok)
    with transition_row [OF _ r] p r(1) show ?thesis by (auto simp: kept_def split: sum.splits)
  next
    case (Cancel now j t)
    with transition_row [OF _ r] r(1) show ?thesis
      by (auto simp: kept_def cancel_def given_token_def split: sum.splits)
  next
    case (Recover now t j)
    with transition_row [OF _ r] r(1) recover_kept [of now t j l] show ?thesis
      by (auto simp: kept_def given_token_def split: sum.splits)
  qed
qed

interpretation job_ledger: fenced_machine ledger_step ledger_ok row_of settled entitled
  by unfold_locales (auto intro: step_ok step_fence)

lemma ledger_run_eq: "ledger_run = job_ledger.run"
proof (intro ext)
  fix ops l show "ledger_run ops l = job_ledger.run ops l"
    by (induction ops arbitrary: l) simp_all
qed

lemma ledger_run_ok: "ledger_ok (ledger_run ops empty_ledger)"
  unfolding ledger_run_eq
  by (rule job_ledger.inv_run) (simp add: ledger_ok_def empty_ledger_def)

text \<open>A job that has been submitted and claimed.\<close>

definition sample_job :: training_job where
  "sample_job = \<lparr>tj_job_id = ''j1'', tj_task = ''intent'', tj_base_model = ''m'',
     tj_dataset_version = ''d1'', tj_training_config_version = [], tj_seed = 42, tj_started_at = [],
     tj_completed_at = [], tj_status = ''QUEUED'', tj_artifact_path = [], tj_artifact_hash = [],
     tj_metrics = [], tj_resource_usage = [], tj_error_message = [], tj_metadata = []\<rparr>"

definition sample_submitted :: ledger where
  "sample_submitted = ledger_run [Submit 0 sample_job ''acme'' ''u1''] empty_ledger"

section \<open>Properties\<close>

text \<open>
  after any sequence of operations on an empty ledger every job id is unique, every state
  is a known one that the stored body repeats, and a lease, with its expiry, is held only by a
  job that is validating, running or evaluating.
\<close>

theorem ledger_always_well_formed: "ledger_ok (ledger_run ops empty_ledger)"
  by (rule ledger_run_ok)

text \<open>
  C10: a job that has succeeded or was cancelled never changes again, and a running job is
  changed only by an operation that presents its own unexpired lease: over any run without
  such an operation the row stays as it is, whatever other workers and operators do.
\<close>

theorem lease_fences_job:
  assumes "l = ledger_run ops0 empty_ledger" "row_of k l = Some r"
    and "jr_state r \<in> {''SUCCEEDED'', ''CANCELLED''} \<or> is_running r"
    and "\<forall>op \<in> set ops. \<not> (is_running r \<and> presents k r op)"
  shows "row_of k (ledger_run ops l) = Some r"
proof -
  have "ledger_ok l" unfolding assms(1) by (rule ledger_run_ok)
  moreover have "settled k (row_of k l)" using assms(2,3) by (auto simp: settled_def)
  moreover have "\<forall>op \<in> set ops. \<not> entitled k (row_of k l) op"
    using assms(2,4) by (auto simp: entitled_def)
  ultimately show ?thesis
    using job_ledger.fence_run assms(2) unfolding ledger_run_eq by metis
qed

theorem lease_fences_job_witness:
  "\<exists>r. row_of ''j1'' (ledger_run [Claim 1 ''tok'' ''j1'' ''acme'' 300] sample_submitted) = Some r
     \<and> row_of ''j1'' (ledger_run
          [Claim 2 ''other'' ''j1'' ''acme'' 300, Cancel 3 ''j1'' ''acme'', Heartbeat 4 ''j1'' ''acme'' ''other'' 300]
          (ledger_run [Claim 1 ''tok'' ''j1'' ''acme'' 300] sample_submitted)) = Some r"
proof -
  let ?l = "ledger_run [Submit 0 sample_job ''acme'' ''u1'', Claim 1 ''tok'' ''j1'' ''acme'' 300] empty_ledger"
  have "case row_of ''j1'' ?l of None \<Rightarrow> False | Some r \<Rightarrow> is_running r \<and> jr_lease_token r = Some ''tok''"
    by code_simp
  then obtain r where r: "row_of ''j1'' ?l = Some r" "is_running r" "jr_lease_token r = Some ''tok''"
    by (auto split: option.splits)
  have "row_of ''j1'' (ledger_run
      [Claim 2 ''other'' ''j1'' ''acme'' 300, Cancel 3 ''j1'' ''acme'', Heartbeat 4 ''j1'' ''acme'' ''other'' 300] ?l) = Some r"
    by (rule lease_fences_job [OF refl r(1)]) (use r in auto)
  with r(1) show ?thesis by (simp add: sample_submitted_def)
qed

text \<open>
  a claim is exclusive: when it succeeds the caller holds a lease that is valid until it
  expires, and no other claim of the job succeeds in the state it leaves.
\<close>

theorem claim_is_exclusive:
  assumes "claim now tok j t ttl l = Inr (Some tok', l')" "ledger_ok l" "tok \<noteq> []"
  shows "tok' = tok \<and> (later < now + ttl * 1000000 \<longrightarrow> lease_valid later j t tok l')
     \<and> claim now2 tok2 j t2 ttl2 l' \<noteq> Inr (Some tok3, l2)"
proof -
  let ?P = "\<lambda>r. jr_job_id r = j \<and> jr_tenant_id r = t \<and> jr_state r = ''QUEUED'' \<and> jr_lease_token r = None"
  let ?f = "\<lambda>r. (set_state ''VALIDATING'' r)\<lparr>jr_lease_token := Some tok,
      jr_lease_expires_at := Some (now + ttl * 1000000), jr_updated_at := now\<rparr>"
  from assms(1) have tok': "tok' = tok" and n: "length (filter ?P (lg_jobs l)) = 1"
    and l': "l' = snd (update_rows ?P ?f l)"
    by (auto simp: claim_def Let_def update_rows_def split: if_splits)
  have "filter ?P (lg_jobs l) \<noteq> []"
  proof
    assume "filter ?P (lg_jobs l) = []"
    with n show False by (simp only: list.size)
  qed
  then have "hd (filter ?P (lg_jobs l)) \<in> set (filter ?P (lg_jobs l))" by (rule hd_in_set)
  then obtain r where r: "r \<in> set (lg_jobs l)" "?P r" unfolding set_filter by blast
  let ?g = "\<lambda>r. if ?P r then ?f r else r"
  have "?g r = ?f r" using r(2) by (rule if_P)
  moreover have "?g r \<in> set (map ?g (lg_jobs l))" unfolding set_map using r(1) by (rule imageI)
  moreover have "lg_jobs l' = map ?g (lg_jobs l)" unfolding l' update_rows_def by simp
  ultimately have m: "?f r \<in> set (lg_jobs l')" by simp
  have f: "jr_job_id (?f r) = j" "jr_tenant_id (?f r) = t" "jr_state (?f r) = ''VALIDATING''"
    using r(2) by (simp_all add: set_state_def)
  have ok': "ledger_ok l'" by (rule claim_ok [OF assms(2,1)])
  have "q = ?f r" if "q \<in> set (lg_jobs l')" "jr_job_id q = j" for q
  proof -
    have "inj_on jr_job_id (set (lg_jobs l'))" using ok' by (simp add: ledger_ok_def distinct_map)
    then show ?thesis by (rule inj_onD) (use that m f(1) in simp_all)
  qed
  then have no: "\<not> (jr_job_id q = j \<and> jr_tenant_id q = t2 \<and> jr_state q = ''QUEUED''
      \<and> jr_lease_token q = None)" if "q \<in> set (lg_jobs l')" for q
    using f(3) that by fastforce
  have "filter (\<lambda>r. jr_job_id r = j \<and> jr_tenant_id r = t2 \<and> jr_state r = ''QUEUED''
      \<and> jr_lease_token r = None) (lg_jobs l') = []"
    unfolding filter_empty_conv using no by blast
  then have "claim now2 tok2 j t2 ttl2 l' \<noteq> Inr (Some tok3, l2)"
    by (auto simp: claim_def Let_def update_rows_def split: if_splits)
  moreover have "lease_valid later j t tok l'" if "later < now + ttl * 1000000"
    using m f that assms(3) unfolding lease_valid_def
    by (intro conjI bexI [of _ "?f r"]) (simp_all add: sql_eq_def sql_after_def is_running_def)
  ultimately show ?thesis using tok' by blast
qed

theorem claim_is_exclusive_witness:
  "\<exists>l'. claim 1 ''tok'' ''j1'' ''acme'' 300 sample_submitted = Inr (Some ''tok'', l')
     \<and> lease_valid 5 ''j1'' ''acme'' ''tok'' l'
     \<and> claim 2 ''t2'' ''j1'' ''acme'' 300 l' \<noteq> Inr (Some ''t2'', l')"
proof -
  have "case claim 1 ''tok'' ''j1'' ''acme'' 300 sample_submitted of
      Inr (Some x, l') \<Rightarrow> x = ''tok'' | _ \<Rightarrow> False" by code_simp
  then obtain l' where c: "claim 1 ''tok'' ''j1'' ''acme'' 300 sample_submitted = Inr (Some ''tok'', l')"
    by (auto split: sum.splits option.splits)
  have "ledger_ok sample_submitted" unfolding sample_submitted_def by (rule ledger_run_ok)
  from claim_is_exclusive [OF c this, of 5 2 "''t2''" "''acme''" 300 "''t2''" l'] c
  show ?thesis by simp
qed

end
