(* ===== verification/PersonalPairing.thy ===== *)
theory PersonalPairing
  imports StateMachines
begin

text \<open>
  Pairing of a personal messaging account: the admission policy
  (\<^verbatim>\<open>src/src/ai_karen_engine/services/channels/personal_pairing_policy.py\<close>) and the reducer of
  authenticated provider observations
  (\<^verbatim>\<open>src/src/ai_karen_engine/services/channels/personal_pairing_lifecycle.py\<close>).

  A time stamp keeps whether it carries a time zone, which the code tests before it compares.
\<close>

section \<open>Admission\<close>

record stamp =
  aware :: bool
  instant :: int

datatype pairing_state =
    PS_UNAVAILABLE | PS_CONSENT_REQUIRED | PS_READY_TO_PAIR | PS_PAIRING | PS_CONNECTED
  | PS_DISCONNECTED | PS_REVOKED

record pairing_consent =
  co_tenant_id :: string
  co_user_id :: string
  co_connection_id :: string
  co_provider_id :: string
  co_policy_version :: string
  co_accepted_at :: stamp
  co_revoked_at :: "stamp option"

record pairing_assessment =
  as_state :: pairing_state
  as_can_create_session :: bool
  as_reason :: string

definition consent_version :: string where
  "consent_version = ''whatsapp-personal-risk-v1''"

record pairing_scope =
  sc_tenant_id :: string
  sc_user_id :: string
  sc_connection_id :: string
  sc_provider_id :: string

definition consent_mismatch :: "pairing_scope \<Rightarrow> pairing_consent \<Rightarrow> stamp \<Rightarrow> bool" where
  "consent_mismatch sc c now \<longleftrightarrow>
     co_tenant_id c \<noteq> sc_tenant_id sc \<or> co_user_id c \<noteq> sc_user_id sc
     \<or> co_connection_id c \<noteq> sc_connection_id sc \<or> co_provider_id c \<noteq> sc_provider_id sc
     \<or> co_policy_version c \<noteq> consent_version \<or> co_revoked_at c \<noteq> None
     \<or> \<not> aware (co_accepted_at c) \<or> instant (co_accepted_at c) > instant now"

definition assess_personal_pairing ::
    "pairing_scope \<Rightarrow> bool \<Rightarrow> bool \<Rightarrow> bool \<Rightarrow> pairing_consent option \<Rightarrow> stamp \<Rightarrow> string + pairing_assessment" where
  "assess_personal_pairing sc vetted enabled authorized consent now =
     (if \<exists>v \<in> set [sc_tenant_id sc, sc_user_id sc, sc_connection_id sc, sc_provider_id sc]. strip v = []
      then Inl ''Personal pairing requires exact nonempty scope''
      else if \<not> aware now then Inl ''Timezone-aware server time required''
      else Inr (
        if \<not> vetted \<or> \<not> enabled then
          \<lparr>as_state = PS_UNAVAILABLE, as_can_create_session = False,
           as_reason = ''No approved managed personal-account connector is available''\<rparr>
        else if \<not> authorized then
          \<lparr>as_state = PS_UNAVAILABLE, as_can_create_session = False,
           as_reason = ''Channel pairing is not authorized''\<rparr>
        else (case consent of
          None \<Rightarrow>
            \<lparr>as_state = PS_CONSENT_REQUIRED, as_can_create_session = False,
             as_reason = ''Explicit risk acknowledgement is required''\<rparr>
        | Some c \<Rightarrow>
            if consent_mismatch sc c now then
              \<lparr>as_state = PS_CONSENT_REQUIRED, as_can_create_session = False,
               as_reason = ''Consent is absent, revoked, outdated or belongs to another scope''\<rparr>
            else
              \<lparr>as_state = PS_READY_TO_PAIR, as_can_create_session = True,
               as_reason = ''Current scoped consent and provider admission prerequisites verified''\<rparr>)))"

section \<open>Observations\<close>

datatype pairing_event = QR_ISSUED | LINK_CONFIRMED | DISCONNECT_REQUESTED | UNLINK_CONFIRMED | EV_FAILED

datatype pairing_phase =
  PH_READY | PH_QR_AVAILABLE | PH_CONNECTED | PH_DISCONNECT_PENDING | PH_DISCONNECTED | PH_UNKNOWN

record pairing_observation =
  ob_tenant_id :: string
  ob_connection_id :: string
  ob_provider_id :: string
  ob_connection_revision :: int
  ob_sequence :: int
  ob_event :: pairing_event
  ob_observed_at :: stamp
  ob_authenticated :: bool
  ob_provider_receipt_id :: "string option"
  ob_qr_expires_at :: "stamp option"

record pairing_snapshot =
  sn_tenant_id :: string
  sn_connection_id :: string
  sn_provider_id :: string
  sn_connection_revision :: int
  sn_sequence :: int
  sn_phase :: pairing_phase
  sn_qr_expires_at :: "stamp option"
  sn_link_receipt :: "string option"
  sn_unlink_receipt :: "string option"

definition new_snapshot :: "string \<Rightarrow> string \<Rightarrow> string \<Rightarrow> int \<Rightarrow> pairing_snapshot" where
  "new_snapshot t c p revn =
     \<lparr>sn_tenant_id = t, sn_connection_id = c, sn_provider_id = p, sn_connection_revision = revn,
      sn_sequence = 0, sn_phase = PH_READY, sn_qr_expires_at = None, sn_link_receipt = None,
      sn_unlink_receipt = None\<rparr>"

text \<open>\<^verbatim>\<open>not receipt\<close>: absent or empty.\<close>

definition no_receipt :: "string option \<Rightarrow> bool" where
  "no_receipt r \<longleftrightarrow> r = None \<or> r = Some []"

definition evidence_rejected :: "pairing_snapshot \<Rightarrow> pairing_observation \<Rightarrow> stamp \<Rightarrow> bool" where
  "evidence_rejected s ob now \<longleftrightarrow>
     \<not> ob_authenticated ob \<or> sn_tenant_id s = [] \<or> sn_connection_id s = [] \<or> sn_provider_id s = []
     \<or> (sn_tenant_id s, sn_connection_id s, sn_provider_id s)
        \<noteq> (ob_tenant_id ob, ob_connection_id ob, ob_provider_id ob)
     \<or> ob_connection_revision ob \<noteq> sn_connection_revision s
     \<or> ob_connection_revision ob < 1
     \<or> ob_sequence ob \<noteq> sn_sequence s + 1
     \<or> instant (ob_observed_at ob) > instant now"

text \<open>The successor snapshot: scope kept, sequence taken over, the other fields given.\<close>

definition advance :: "pairing_snapshot \<Rightarrow> pairing_observation \<Rightarrow> pairing_phase \<Rightarrow> stamp option \<Rightarrow>
    string option \<Rightarrow> string option \<Rightarrow> pairing_snapshot" where
  "advance s ob ph qr link unlink =
     s\<lparr>sn_sequence := ob_sequence ob, sn_phase := ph, sn_qr_expires_at := qr,
       sn_link_receipt := link, sn_unlink_receipt := unlink\<rparr>"

definition qr_invalid :: "pairing_snapshot \<Rightarrow> pairing_observation \<Rightarrow> stamp \<Rightarrow> bool" where
  "qr_invalid s ob now \<longleftrightarrow> sn_phase s \<notin> {PH_READY, PH_QR_AVAILABLE}
     \<or> (case ob_qr_expires_at ob of None \<Rightarrow> True
        | Some e \<Rightarrow> \<not> aware e \<or> instant e \<le> instant now \<or> instant e - instant now > 300 * 1000000)
     \<or> ob_provider_receipt_id ob \<noteq> None"

definition link_invalid :: "pairing_snapshot \<Rightarrow> pairing_observation \<Rightarrow> stamp \<Rightarrow> bool" where
  "link_invalid s ob now \<longleftrightarrow> sn_phase s \<noteq> PH_QR_AVAILABLE
     \<or> (case sn_qr_expires_at s of None \<Rightarrow> True
        | Some e \<Rightarrow> instant e \<le> instant (ob_observed_at ob) \<or> instant e \<le> instant now)
     \<or> no_receipt (ob_provider_receipt_id ob) \<or> ob_qr_expires_at ob \<noteq> None"

definition apply_pairing_observation ::
    "pairing_snapshot \<Rightarrow> pairing_observation \<Rightarrow> stamp \<Rightarrow> bool \<Rightarrow> bool \<Rightarrow> string + pairing_snapshot" where
  "apply_pairing_observation s ob now consent_current vetted_enabled =
     (if \<not> aware now \<or> \<not> aware (ob_observed_at ob)
      then Inl ''Timezone-aware server and event timestamps required''
      else if evidence_rejected s ob now
      then Inl ''Provider evidence or pairing scope not authorized''
      else if ob_event ob \<in> {QR_ISSUED, LINK_CONFIRMED} \<and> (\<not> vetted_enabled \<or> \<not> consent_current)
      then Inl ''Fresh consent and approved provider required for pairing''
      else (case ob_event ob of
        QR_ISSUED \<Rightarrow>
          if qr_invalid s ob now then Inl ''Invalid, expired, or unsafely long-lived QR''
          else Inr (advance s ob PH_QR_AVAILABLE (ob_qr_expires_at ob) None None)
      | LINK_CONFIRMED \<Rightarrow>
          if link_invalid s ob now then Inl ''Active QR and explicit provider link receipt required''
          else Inr (advance s ob PH_CONNECTED None (ob_provider_receipt_id ob) None)
      | DISCONNECT_REQUESTED \<Rightarrow>
          if sn_phase s \<notin> {PH_CONNECTED, PH_UNKNOWN}
          then Inl ''No linked or uncertain session to revoke''
          else if ob_provider_receipt_id ob \<noteq> None
          then Inl ''Local disconnect request cannot attest provider unlink''
          else Inr (advance s ob PH_DISCONNECT_PENDING None (sn_link_receipt s) None)
      | UNLINK_CONFIRMED \<Rightarrow>
          if sn_phase s \<noteq> PH_DISCONNECT_PENDING \<or> no_receipt (ob_provider_receipt_id ob)
             \<or> ob_qr_expires_at ob \<noteq> None
          then Inl ''Pending unlink and provider receipt required''
          else Inr (advance s ob PH_DISCONNECTED None None (ob_provider_receipt_id ob))
      | EV_FAILED \<Rightarrow>
          if ob_provider_receipt_id ob \<noteq> None then Inl ''Failure cannot claim a success receipt''
          else Inr (advance s ob PH_UNKNOWN None (sn_link_receipt s) None)))"

section \<open>Runs of the reducer\<close>

text \<open>An observation with the server time, the consent and the provider status of its moment.\<close>

type_synonym pairing_input = "pairing_observation \<times> stamp \<times> bool \<times> bool"

definition reduce :: "pairing_input \<Rightarrow> pairing_snapshot \<Rightarrow> string + pairing_snapshot" where
  "reduce i s = (case i of (ob, now, consent, vetted) \<Rightarrow> apply_pairing_observation s ob now consent vetted)"

text \<open>A denied observation leaves the stored snapshot as it was.\<close>

definition pairing_step :: "pairing_input \<Rightarrow> pairing_snapshot \<Rightarrow> pairing_snapshot" where
  "pairing_step i s = (case reduce i s of Inl _ \<Rightarrow> s | Inr s' \<Rightarrow> s')"

fun pairing_run :: "pairing_input list \<Rightarrow> pairing_snapshot \<Rightarrow> pairing_snapshot" where
  "pairing_run [] s = s"
| "pairing_run (i # is) s = pairing_run is (pairing_step i s)"

section \<open>What an accepted observation does\<close>

lemma accepted_evidence:
  assumes "apply_pairing_observation s ob now consent vetted = Inr s'"
  shows "aware now \<and> aware (ob_observed_at ob) \<and> \<not> evidence_rejected s ob now
     \<and> (ob_event ob \<in> {QR_ISSUED, LINK_CONFIRMED} \<longrightarrow> consent \<and> vetted)"
proof -
  note a = assms [unfolded apply_pairing_observation_def]
  have 1: "\<not> (\<not> aware now \<or> \<not> aware (ob_observed_at ob))"
  proof
    assume "\<not> aware now \<or> \<not> aware (ob_observed_at ob)"
    from a [unfolded if_P [OF this]] show False by simp
  qed
  note a = a [unfolded if_not_P [OF 1]]
  have 2: "\<not> evidence_rejected s ob now"
  proof
    assume "evidence_rejected s ob now"
    from a [unfolded if_P [OF this]] show False by simp
  qed
  note a = a [unfolded if_not_P [OF 2]]
  have "\<not> (ob_event ob \<in> {QR_ISSUED, LINK_CONFIRMED} \<and> (\<not> vetted \<or> \<not> consent))"
  proof
    assume "ob_event ob \<in> {QR_ISSUED, LINK_CONFIRMED} \<and> (\<not> vetted \<or> \<not> consent)"
    from a [unfolded if_P [OF this]] show False by simp
  qed
  with 1 2 show ?thesis by blast
qed

text \<open>What an accepted observation was and what it did, event by event.\<close>

lemma observation_cases:
  assumes "apply_pairing_observation s ob now consent vetted = Inr s'"
  obtains (qr) "ob_event ob = QR_ISSUED" "\<not> qr_invalid s ob now"
      "s' = advance s ob PH_QR_AVAILABLE (ob_qr_expires_at ob) None None"
  | (link) "ob_event ob = LINK_CONFIRMED" "\<not> link_invalid s ob now"
      "s' = advance s ob PH_CONNECTED None (ob_provider_receipt_id ob) None"
  | (request) "ob_event ob = DISCONNECT_REQUESTED" "sn_phase s \<in> {PH_CONNECTED, PH_UNKNOWN}"
      "s' = advance s ob PH_DISCONNECT_PENDING None (sn_link_receipt s) None"
  | (unlink) "ob_event ob = UNLINK_CONFIRMED" "sn_phase s = PH_DISCONNECT_PENDING"
      "\<not> no_receipt (ob_provider_receipt_id ob)"
      "s' = advance s ob PH_DISCONNECTED None None (ob_provider_receipt_id ob)"
  | (failed) "ob_event ob = EV_FAILED"
      "s' = advance s ob PH_UNKNOWN None (sn_link_receipt s) None"
proof -
  note a = assms [unfolded apply_pairing_observation_def]
  show thesis
  proof (cases "ob_event ob")
    case QR_ISSUED
    with a show thesis by (intro qr) (simp_all split: if_splits)
  next
    case LINK_CONFIRMED
    with a show thesis by (intro link) (simp_all split: if_splits)
  next
    case DISCONNECT_REQUESTED
    with a show thesis by (intro request) (simp_all split: if_splits)
  next
    case UNLINK_CONFIRMED
    with a show thesis by (intro unlink) (simp_all split: if_splits)
  next
    case EV_FAILED
    with a show thesis by (intro failed) (simp_all split: if_splits)
  qed
qed

lemma accepted_scope:
  assumes "apply_pairing_observation s ob now consent vetted = Inr s'"
  shows "sn_tenant_id s' = sn_tenant_id s \<and> sn_connection_id s' = sn_connection_id s
    \<and> sn_provider_id s' = sn_provider_id s \<and> sn_connection_revision s' = sn_connection_revision s
    \<and> sn_sequence s' = sn_sequence s + 1"
proof -
  from accepted_evidence [OF assms] have "ob_sequence ob = sn_sequence s + 1"
    by (simp add: evidence_rejected_def)
  with assms show ?thesis by (cases rule: observation_cases) (simp_all add: advance_def)
qed

lemma qr_valid: "\<not> qr_invalid s ob now \<Longrightarrow> sn_phase s \<in> {PH_READY, PH_QR_AVAILABLE}
    \<and> (\<exists>e. ob_qr_expires_at ob = Some e \<and> aware e \<and> instant now < instant e
         \<and> instant e - instant now \<le> 300000000)"
  by (cases "ob_qr_expires_at ob") (auto simp: qr_invalid_def)

lemma link_valid: "\<not> link_invalid s ob now \<Longrightarrow> sn_phase s = PH_QR_AVAILABLE
    \<and> (\<exists>e. sn_qr_expires_at s = Some e \<and> instant (ob_observed_at ob) < instant e \<and> instant now < instant e)
    \<and> ob_qr_expires_at ob = None
    \<and> (\<exists>r. ob_provider_receipt_id ob = Some r \<and> r \<noteq> [])"
  by (cases "sn_qr_expires_at s"; cases "ob_provider_receipt_id ob")
    (auto simp: link_invalid_def no_receipt_def)

text \<open>What each phase carries, and that a connection that was linked never offers a code again.\<close>

definition evidence_ok :: "pairing_snapshot \<Rightarrow> bool" where
  "evidence_ok s \<longleftrightarrow> 0 \<le> sn_sequence s \<and> (case sn_phase s of
     PH_READY \<Rightarrow> sn_sequence s = 0 \<and> sn_link_receipt s = None
   | PH_QR_AVAILABLE \<Rightarrow> sn_qr_expires_at s \<noteq> None \<and> sn_link_receipt s = None \<and> 1 \<le> sn_sequence s
   | PH_CONNECTED \<Rightarrow> \<not> no_receipt (sn_link_receipt s) \<and> 2 \<le> sn_sequence s
   | PH_DISCONNECT_PENDING \<Rightarrow> sn_unlink_receipt s = None \<and> 2 \<le> sn_sequence s
   | PH_DISCONNECTED \<Rightarrow> \<not> no_receipt (sn_unlink_receipt s) \<and> 3 \<le> sn_sequence s
   | PH_UNKNOWN \<Rightarrow> sn_qr_expires_at s = None \<and> sn_unlink_receipt s = None \<and> 1 \<le> sn_sequence s)"

lemma evidence_step: "evidence_ok s \<Longrightarrow> evidence_ok (pairing_step i s)"
proof (cases "reduce i s")
  case (Inr s')
  assume e: "evidence_ok s"
  obtain ob now consent vetted where i: "i = (ob, now, consent, vetted)" by (cases i)
  with Inr have r: "apply_pairing_observation s ob now consent vetted = Inr s'"
    by (simp add: reduce_def)
  from accepted_scope [OF r] have q: "sn_sequence s' = sn_sequence s + 1" by simp
  from r have "evidence_ok s'"
  proof (cases rule: observation_cases)
    case qr
    with qr_valid [OF qr(2)] e q show ?thesis by (auto simp: evidence_ok_def advance_def)
  next
    case link
    with link_valid [OF link(2)] e q show ?thesis
      by (auto simp: evidence_ok_def advance_def no_receipt_def)
  next
    case request
    with e q show ?thesis by (auto simp: evidence_ok_def advance_def)
  next
    case unlink
    with e q show ?thesis by (auto simp: evidence_ok_def advance_def)
  next
    case failed
    with e q show ?thesis by (simp add: evidence_ok_def advance_def split: pairing_phase.splits)
  qed
  with Inr show ?thesis by (simp add: pairing_step_def)
qed (simp add: pairing_step_def)

definition retired :: "pairing_phase \<Rightarrow> bool" where
  "retired ph \<longleftrightarrow> ph \<in> {PH_CONNECTED, PH_DISCONNECT_PENDING, PH_DISCONNECTED, PH_UNKNOWN}"

lemma retired_step: "retired (sn_phase s) \<Longrightarrow> retired (sn_phase (pairing_step i s))"
proof (cases "reduce i s")
  case (Inr s')
  assume t: "retired (sn_phase s)"
  obtain ob now consent vetted where "i = (ob, now, consent, vetted)" by (cases i)
  with Inr have "apply_pairing_observation s ob now consent vetted = Inr s'"
    by (simp add: reduce_def)
  then have "retired (sn_phase s')"
    by (cases rule: observation_cases)
      (use t in \<open>auto simp: retired_def advance_def dest: qr_valid link_valid\<close>)
  with Inr show ?thesis by (simp add: pairing_step_def)
qed (simp add: pairing_step_def)

interpretation pairing: invariant_machine pairing_step evidence_ok
  by unfold_locales (rule evidence_step)

interpretation retired_pairing: invariant_machine pairing_step "\<lambda>s. retired (sn_phase s)"
  by unfold_locales (rule retired_step)

lemma pairing_run_eq: "pairing_run = pairing.run"
proof (intro ext)
  fix ops s show "pairing_run ops s = pairing.run ops s" by (induction ops arbitrary: s) simp_all
qed

section \<open>Properties\<close>

text \<open>
  A session may be created exactly when the connector is vetted, enabled and authorized and
  the consent names this tenant, user, connection and provider in the current version, is not
  revoked and was accepted before now.
\<close>

theorem pairing_admission_exact:
  "(\<exists>a. assess_personal_pairing sc vetted enabled authorized consent now = Inr a
       \<and> as_can_create_session a) \<longleftrightarrow>
     strip (sc_tenant_id sc) \<noteq> [] \<and> strip (sc_user_id sc) \<noteq> [] \<and> strip (sc_connection_id sc) \<noteq> []
     \<and> strip (sc_provider_id sc) \<noteq> [] \<and> aware now \<and> vetted \<and> enabled \<and> authorized
     \<and> (\<exists>c. consent = Some c \<and> co_tenant_id c = sc_tenant_id sc \<and> co_user_id c = sc_user_id sc
          \<and> co_connection_id c = sc_connection_id sc \<and> co_provider_id c = sc_provider_id sc
          \<and> co_policy_version c = consent_version \<and> co_revoked_at c = None
          \<and> aware (co_accepted_at c) \<and> instant (co_accepted_at c) \<le> instant now)"
  by (auto simp: assess_personal_pairing_def consent_mismatch_def split: option.splits)

text \<open>
  C15: an observation connects an account exactly when it confirms a link, is authenticated, is of
  this very tenant, connection and provider, all of them named, and of this revision, carries the
  next sequence number and a time not later than the server's, comes under current consent and an
  approved provider while a code is shown that had expired neither when it was observed nor now,
  and brings the provider's receipt and no new code. The snapshot then keeps its scope, takes over
  the sequence number and carries that receipt.
\<close>

theorem connected_only_with_evidence:
  "(apply_pairing_observation s ob now consent vetted = Inr s' \<and> sn_phase s' = PH_CONNECTED)
   \<longleftrightarrow> aware now \<and> aware (ob_observed_at ob) \<and> instant (ob_observed_at ob) \<le> instant now
     \<and> ob_event ob = LINK_CONFIRMED \<and> ob_authenticated ob \<and> consent \<and> vetted
     \<and> ob_tenant_id ob = sn_tenant_id s \<and> sn_tenant_id s \<noteq> []
     \<and> ob_connection_id ob = sn_connection_id s \<and> sn_connection_id s \<noteq> []
     \<and> ob_provider_id ob = sn_provider_id s \<and> sn_provider_id s \<noteq> []
     \<and> ob_connection_revision ob = sn_connection_revision s \<and> 1 \<le> sn_connection_revision s
     \<and> ob_sequence ob = sn_sequence s + 1
     \<and> sn_phase s = PH_QR_AVAILABLE
     \<and> (\<exists>e. sn_qr_expires_at s = Some e \<and> instant (ob_observed_at ob) < instant e \<and> instant now < instant e)
     \<and> ob_qr_expires_at ob = None
     \<and> (\<exists>r. ob_provider_receipt_id ob = Some r \<and> r \<noteq> []
          \<and> s' = s\<lparr>sn_sequence := ob_sequence ob, sn_phase := PH_CONNECTED, sn_qr_expires_at := None,
                   sn_link_receipt := Some r, sn_unlink_receipt := None\<rparr>)" (is "?connected \<longleftrightarrow> ?evidence")
proof
  assume c: ?connected
  then have ok: "apply_pairing_observation s ob now consent vetted = Inr s'" by blast
  from ok show ?evidence
  proof (cases rule: observation_cases)
    case link
    with link_valid [OF link(2)] accepted_evidence [OF ok] show ?thesis
      by (auto simp: advance_def evidence_rejected_def)
  qed (use c in \<open>simp_all add: advance_def\<close>)
next
  assume ?evidence
  then show ?connected
    by (auto simp: apply_pairing_observation_def evidence_rejected_def link_invalid_def no_receipt_def advance_def)
qed

text \<open>
  over any run of observations from a new snapshot, accepted or denied, the evidence stays
  with the phase: a connected account has a link receipt, a disconnected one an unlink receipt.
\<close>

theorem pairing_evidence_invariant:
  "evidence_ok (pairing_run is (new_snapshot t c p revn))"
  unfolding pairing_run_eq
  by (rule pairing.inv_run) (simp add: evidence_ok_def new_snapshot_def)

text \<open>
  within a revision an account is linked at most once: a connection that was linked, or
  whose state became uncertain, never offers a code again.
\<close>

theorem linked_never_offers_code_again:
  assumes "sn_phase s \<in> {PH_CONNECTED, PH_DISCONNECT_PENDING, PH_DISCONNECTED, PH_UNKNOWN}"
  shows "sn_phase (pairing_run is s) \<notin> {PH_READY, PH_QR_AVAILABLE}"
proof -
  have "retired (sn_phase s)" using assms by (simp add: retired_def)
  from retired_pairing.inv_run [OF this, of "is"] show ?thesis
    unfolding pairing_run_eq by (auto simp: retired_def)
qed

text \<open>A vetted provider links the account of an existing connection.\<close>

definition sample_observation :: "int \<Rightarrow> pairing_event \<Rightarrow> int \<Rightarrow> string option \<Rightarrow> stamp option \<Rightarrow> pairing_observation" where
  "sample_observation n ev t receipt qr =
     \<lparr>ob_tenant_id = ''acme'', ob_connection_id = ''c1'', ob_provider_id = ''p1'', ob_connection_revision = 1,
      ob_sequence = n, ob_event = ev, ob_observed_at = \<lparr>aware = True, instant = t\<rparr>, ob_authenticated = True,
      ob_provider_receipt_id = receipt, ob_qr_expires_at = qr\<rparr>"

definition sample_code_shown :: pairing_snapshot where
  "sample_code_shown = pairing_run
     [(sample_observation 1 QR_ISSUED 10 None (Some \<lparr>aware = True, instant = 1000\<rparr>),
       \<lparr>aware = True, instant = 20\<rparr>, True, True)] (new_snapshot ''acme'' ''c1'' ''p1'' 1)"

definition sample_link :: "string + pairing_snapshot" where
  "sample_link = apply_pairing_observation sample_code_shown
     (sample_observation 2 LINK_CONFIRMED 30 (Some ''r1'') None) \<lparr>aware = True, instant = 40\<rparr> True True"

theorem connected_only_with_evidence_witness:
  "\<exists>s'. sample_link = Inr s' \<and> sn_phase s' = PH_CONNECTED \<and> sn_link_receipt s' = Some ''r1''
     \<and> sn_tenant_id s' = ''acme''"
proof -
  have "case sample_link of Inl _ \<Rightarrow> False | Inr s' \<Rightarrow> sn_phase s' = PH_CONNECTED" by code_simp
  then obtain s' where s': "sample_link = Inr s'" "sn_phase s' = PH_CONNECTED"
    by (auto split: sum.splits)
  from s' connected_only_with_evidence [THEN iffD1, OF conjI [OF s'(1) [unfolded sample_link_def] s'(2)]]
  show ?thesis by (auto simp: sample_observation_def)
qed

theorem linked_never_offers_code_again_witness:
  "sn_phase (pairing_run
     [(sample_observation 1 EV_FAILED 10 None None, \<lparr>aware = True, instant = 20\<rparr>, True, True),
      (sample_observation 2 QR_ISSUED 30 None (Some \<lparr>aware = True, instant = 1000\<rparr>),
       \<lparr>aware = True, instant = 40\<rparr>, True, True)]
     ((new_snapshot ''acme'' ''c1'' ''p1'' 1)\<lparr>sn_phase := PH_CONNECTED\<rparr>)) \<notin> {PH_READY, PH_QR_AVAILABLE}"
  by (rule linked_never_offers_code_again) simp

end
