(* ===== verification/PromptTruncation.thy ===== *)
theory PromptTruncation
  imports Prelude "HOL-Library.Sublist"
begin

text \<open>
  The token budget of the prompt runtime: the truncation policy
  (\<^verbatim>\<open>src/src/ai_karen_engine/core/runtime/prompt/truncation_policy.py\<close>), the token estimator
  (\<^verbatim>\<open>core/runtime/prompt/token_estimator.py\<close>) and the estimate of a request
  (\<^verbatim>\<open>PromptRegistry.estimate_tokens\<close> in \<^verbatim>\<open>prompt_registry.py\<close>).

  The policy is generic in the estimator, as in the code. A message is a dict of dynamic values;
  the text \<^verbatim>\<open>str\<close> gives for a dict is the parameter \<open>rp\<close>. Ids and time stamps of the events are
  left out.
\<close>

section \<open>Requests\<close>

type_synonym pyobj = "(string, pyval) pydict"

record assembly_request =
  ar_system_policy :: string
  ar_tenant_policy :: string
  ar_system_instructions :: string
  ar_persona :: pyobj
  ar_profile :: pyobj
  ar_memory_items :: "pyobj list"
  ar_continuity_items :: "pyobj list"
  ar_cortex_intent :: pyobj
  ar_tool_contracts :: "pyobj list"
  ar_workflow_context :: pyobj
  ar_provider_capabilities :: pyobj
  ar_token_budget :: int
  ar_output_schema :: pyobj
  ar_messages :: "pyobj list"
  ar_prompt_id :: "string option"
  ar_prompt_version :: "string option"

section \<open>Rules\<close>

datatype trunc_strategy = REMOVE_ENTIRE_SECTION | REMOVE_OLDEST_ITEMS
  | TRIM_VERBOSE_DESCRIPTIONS | COMPRESS_SUMMARY

fun strategy_value :: "trunc_strategy \<Rightarrow> string" where
  "strategy_value REMOVE_ENTIRE_SECTION = ''remove_entire_section''"
| "strategy_value REMOVE_OLDEST_ITEMS = ''remove_oldest_items''"
| "strategy_value TRIM_VERBOSE_DESCRIPTIONS = ''trim_verbose_descriptions''"
| "strategy_value COMPRESS_SUMMARY = ''compress_summary''"

datatype section_priority = SYSTEM_POLICY | TENANT_POLICY | SAFETY | OUTPUT_CONTRACT
  | LATEST_USER_MESSAGE | PERSONA | CORTEX | PROFILE | MEMORY | CONTINUITY | TOOL_CONTRACTS
  | WORKFLOW | HISTORY

fun priority_value :: "section_priority \<Rightarrow> int" where
  "priority_value SYSTEM_POLICY = 0"
| "priority_value TENANT_POLICY = 1"
| "priority_value SAFETY = 2"
| "priority_value OUTPUT_CONTRACT = 3"
| "priority_value LATEST_USER_MESSAGE = 4"
| "priority_value PERSONA = 5"
| "priority_value CORTEX = 6"
| "priority_value PROFILE = 7"
| "priority_value MEMORY = 8"
| "priority_value CONTINUITY = 9"
| "priority_value TOOL_CONTRACTS = 10"
| "priority_value WORKFLOW = 11"
| "priority_value HISTORY = 12"

datatype section_protection = PROTECTED | COMPRESSIBLE | DROPPABLE | ITEM_TRIMMABLE

record trunc_rule =
  tr_section_name :: string
  tr_priority :: section_priority
  tr_protection :: section_protection
  tr_strategy :: trunc_strategy
  tr_min_keep_percentage :: rat

type_synonym rule_table = "(string, trunc_rule) pydict"

definition default_rule_list :: "trunc_rule list" where
  "default_rule_list =
     [\<lparr>tr_section_name = ''system'', tr_priority = SYSTEM_POLICY, tr_protection = PROTECTED,
       tr_strategy = REMOVE_ENTIRE_SECTION, tr_min_keep_percentage = 0\<rparr>,
      \<lparr>tr_section_name = ''output'', tr_priority = OUTPUT_CONTRACT, tr_protection = PROTECTED,
       tr_strategy = REMOVE_ENTIRE_SECTION, tr_min_keep_percentage = 0\<rparr>,
      \<lparr>tr_section_name = ''persona'', tr_priority = PERSONA, tr_protection = COMPRESSIBLE,
       tr_strategy = TRIM_VERBOSE_DESCRIPTIONS, tr_min_keep_percentage = 0\<rparr>,
      \<lparr>tr_section_name = ''cortex'', tr_priority = CORTEX, tr_protection = DROPPABLE,
       tr_strategy = REMOVE_ENTIRE_SECTION, tr_min_keep_percentage = 0\<rparr>,
      \<lparr>tr_section_name = ''profile'', tr_priority = PROFILE, tr_protection = COMPRESSIBLE,
       tr_strategy = TRIM_VERBOSE_DESCRIPTIONS, tr_min_keep_percentage = 0\<rparr>,
      \<lparr>tr_section_name = ''provider_capabilities'', tr_priority = MEMORY, tr_protection = DROPPABLE,
       tr_strategy = REMOVE_ENTIRE_SECTION, tr_min_keep_percentage = 0\<rparr>,
      \<lparr>tr_section_name = ''memory'', tr_priority = MEMORY, tr_protection = ITEM_TRIMMABLE,
       tr_strategy = REMOVE_OLDEST_ITEMS, tr_min_keep_percentage = 3 / 10\<rparr>,
      \<lparr>tr_section_name = ''continuity'', tr_priority = CONTINUITY, tr_protection = ITEM_TRIMMABLE,
       tr_strategy = REMOVE_OLDEST_ITEMS, tr_min_keep_percentage = 2 / 10\<rparr>,
      \<lparr>tr_section_name = ''tool'', tr_priority = TOOL_CONTRACTS, tr_protection = ITEM_TRIMMABLE,
       tr_strategy = TRIM_VERBOSE_DESCRIPTIONS, tr_min_keep_percentage = 5 / 10\<rparr>,
      \<lparr>tr_section_name = ''workflow'', tr_priority = WORKFLOW, tr_protection = DROPPABLE,
       tr_strategy = REMOVE_ENTIRE_SECTION, tr_min_keep_percentage = 0\<rparr>,
      \<lparr>tr_section_name = ''user'', tr_priority = LATEST_USER_MESSAGE, tr_protection = PROTECTED,
       tr_strategy = REMOVE_ENTIRE_SECTION, tr_min_keep_percentage = 0\<rparr>,
      \<lparr>tr_section_name = ''history'', tr_priority = HISTORY, tr_protection = ITEM_TRIMMABLE,
       tr_strategy = REMOVE_OLDEST_ITEMS, tr_min_keep_percentage = 0\<rparr>]"

definition default_rules :: rule_table where
  "default_rules = map (\<lambda>r. (tr_section_name r, r)) default_rule_list"

definition get_rule :: "rule_table \<Rightarrow> string \<Rightarrow> trunc_rule option" where
  "get_rule rules s = dget rules s"

definition can_truncate :: "rule_table \<Rightarrow> string \<Rightarrow> bool" where
  "can_truncate rules s \<longleftrightarrow>
     (case get_rule rules s of None \<Rightarrow> False | Some r \<Rightarrow> tr_protection r \<noteq> PROTECTED)"

definition get_truncation_order :: "rule_table \<Rightarrow> string list" where
  "get_truncation_order rules =
     map tr_section_name (filter (\<lambda>r. tr_protection r \<noteq> PROTECTED)
       (sort_by_desc (priority_value \<circ> tr_priority) (map snd rules)))"

definition add_rule :: "trunc_rule \<Rightarrow> rule_table \<Rightarrow> rule_table" where
  "add_rule r rules = dset (tr_section_name r) r rules"

section \<open>Removing one item\<close>

definition msg_role :: "(pyval \<Rightarrow> string) \<Rightarrow> pyobj \<Rightarrow> string" where
  "msg_role rp m = lower (py_str rp (vget m ''role'' (PStr [])))"

definition latest_user_index :: "(pyval \<Rightarrow> string) \<Rightarrow> pyobj list \<Rightarrow> nat option" where
  "latest_user_index rp ms =
     find (\<lambda>i. msg_role rp (ms ! i) = ''user'') (rev [0..<length ms])"

definition remove_oldest_history_message ::
    "(pyval \<Rightarrow> string) \<Rightarrow> assembly_request \<Rightarrow> nat \<times> assembly_request" where
  "remove_oldest_history_message rp q =
     (let ms = ar_messages q in
      if length ms \<le> 1 then (0, q)
      else (case find (\<lambda>i. Some i \<noteq> latest_user_index rp ms
                          \<and> msg_role rp (ms ! i) \<in> {''user'', ''assistant''}) [0..<length ms] of
              None \<Rightarrow> (0, q)
            | Some i \<Rightarrow> (1, q\<lparr>ar_messages := take i ms @ drop (Suc i) ms\<rparr>)))"

definition keep_count :: "rat \<Rightarrow> 'a list \<Rightarrow> nat" where
  "keep_count pct xs = nat (max 0 (trunc_rat (of_nat (length xs) * pct)))"

definition truncate_once ::
    "(pyval \<Rightarrow> string) \<Rightarrow> rat \<Rightarrow> string \<Rightarrow> assembly_request \<Rightarrow> nat \<times> assembly_request" where
  "truncate_once rp pct s q =
     (if s = ''history'' then remove_oldest_history_message rp q
      else if s = ''workflow'' \<and> ar_workflow_context q \<noteq> [] then (1, q\<lparr>ar_workflow_context := []\<rparr>)
      else if s = ''provider_capabilities'' \<and> ar_provider_capabilities q \<noteq> []
        then (1, q\<lparr>ar_provider_capabilities := []\<rparr>)
      else if s = ''continuity'' \<and> ar_continuity_items q \<noteq> [] then
        (if length (ar_continuity_items q) \<le> keep_count pct (ar_continuity_items q) then (0, q)
         else (1, q\<lparr>ar_continuity_items := butlast (ar_continuity_items q)\<rparr>))
      else if s = ''tool'' \<and> ar_tool_contracts q \<noteq> [] then
        (if length (ar_tool_contracts q) \<le> keep_count pct (ar_tool_contracts q) then (0, q)
         else (1, q\<lparr>ar_tool_contracts := butlast (ar_tool_contracts q)\<rparr>))
      else if s = ''memory'' \<and> ar_memory_items q \<noteq> [] then
        (if length (ar_memory_items q) \<le> keep_count pct (ar_memory_items q) then (0, q)
         else (1, q\<lparr>ar_memory_items := butlast (ar_memory_items q)\<rparr>))
      else if s = ''profile'' \<and> ar_profile q \<noteq> [] then (1, q\<lparr>ar_profile := []\<rparr>)
      else if s = ''cortex'' \<and> ar_cortex_intent q \<noteq> [] then (1, q\<lparr>ar_cortex_intent := []\<rparr>)
      else if s = ''persona'' \<and> ar_persona q \<noteq> [] then (1, q\<lparr>ar_persona := []\<rparr>)
      else (0, q))"

section \<open>Enforcing the budget\<close>

record trunc_event =
  ev_section :: string
  ev_reason :: string
  ev_original_tokens :: int
  ev_remaining_tokens :: int
  ev_items_removed :: nat
  ev_strategy :: string
  ev_tokens_before :: int
  ev_tokens_after :: int
  ev_priority :: int

definition trunc_event_of :: "trunc_rule \<Rightarrow> string \<Rightarrow> int \<Rightarrow> int \<Rightarrow> nat \<Rightarrow> trunc_event" where
  "trunc_event_of r s before after n =
     \<lparr>ev_section = s, ev_reason = ''token_pressure'', ev_original_tokens = before,
      ev_remaining_tokens = after, ev_items_removed = n, ev_strategy = strategy_value (tr_strategy r),
      ev_tokens_before = before, ev_tokens_after = after, ev_priority = priority_value (tr_priority r)\<rparr>"

text \<open>
  One pass over the sections: the request, the events so far and \<^verbatim>\<open>changed\<close>. The names are the
  keys of the rules, so the lookup of a rule succeeds.
\<close>

fun trunc_pass ::
    "(pyval \<Rightarrow> string) \<Rightarrow> (assembly_request \<Rightarrow> int) \<Rightarrow> rule_table \<Rightarrow> string list \<Rightarrow>
     assembly_request \<Rightarrow> trunc_event list \<Rightarrow> bool \<Rightarrow> assembly_request \<times> trunc_event list \<times> bool" where
  "trunc_pass rp est rules [] q evs changed = (q, evs, changed)"
| "trunc_pass rp est rules (s # ss) q evs changed =
     (if est q \<le> ar_token_budget q then (q, evs, changed)
      else (case dget rules s of
        None \<Rightarrow> trunc_pass rp est rules ss q evs changed
      | Some r \<Rightarrow>
          (let (n, q') = truncate_once rp (tr_min_keep_percentage r) s q in
           if n = 0 then trunc_pass rp est rules ss q evs changed
           else (let evs' = evs @ [trunc_event_of r s (est q) (est q') n] in
             if est q' \<le> ar_token_budget q' then (q', evs', True)
             else trunc_pass rp est rules ss q' evs' True))))"

text \<open>The number of items a request still holds in the sections that can shrink.\<close>

definition held :: "assembly_request \<Rightarrow> nat" where
  "held q = length (ar_messages q) + length (ar_memory_items q) + length (ar_continuity_items q)
     + length (ar_tool_contracts q) + length (ar_workflow_context q)
     + length (ar_provider_capabilities q) + length (ar_profile q) + length (ar_cortex_intent q)
     + length (ar_persona q)"

lemma find_upt: "find P [0..<n] = Some i \<Longrightarrow> i < n \<and> P i"
  by (auto simp: find_Some_iff)

lemma history_held:
  "remove_oldest_history_message rp q = (n, q') \<Longrightarrow> held q' + n \<le> held q"
  by (auto simp: remove_oldest_history_message_def Let_def held_def dest: find_upt
      split: if_splits option.splits)

lemma truncate_held:
  assumes "truncate_once rp pct s q = (n, q')" shows "held q' + n \<le> held q"
proof -
  have l: "Suc (length (butlast xs)) \<le> length xs" if "xs \<noteq> []" for xs :: "pyobj list"
    using that by (cases xs) simp_all
  have d: "Suc 0 \<le> length xs" if "xs \<noteq> []" for xs :: pyobj
    using that by (cases xs) simp_all
  show ?thesis
    using assms l [of "ar_continuity_items q"] l [of "ar_tool_contracts q"] l [of "ar_memory_items q"]
      d [of "ar_workflow_context q"] d [of "ar_provider_capabilities q"] d [of "ar_profile q"]
      d [of "ar_cortex_intent q"] d [of "ar_persona q"]
    by (auto simp: truncate_once_def held_def dest!: history_held split: if_splits)
qed

lemma pass_held:
  "trunc_pass rp est rules ss q evs ch = (q', evs', ch')
   \<Longrightarrow> held q' \<le> held q \<and> (ch' \<and> \<not> ch \<longrightarrow> held q' < held q)"
proof (induction rp est rules ss q evs ch rule: trunc_pass.induct)
  case (2 rp est rules s ss q evs ch)
  show ?case
  proof (cases "est q \<le> ar_token_budget q")
    case False
    note nb = this
    show ?thesis
    proof (cases "dget rules s")
      case None
      with 2 nb show ?thesis by simp
    next
      case (Some r)
      obtain n q1 where t: "truncate_once rp (tr_min_keep_percentage r) s q = (n, q1)" by fastforce
      note h = truncate_held [OF t]
      show ?thesis
      proof (cases "n = 0")
        case True
        with 2 nb Some t show ?thesis by simp
      next
        case n: False
        show ?thesis
        proof (cases "est q1 \<le> ar_token_budget q1")
          case True
          with 2 nb Some t n h show ?thesis by auto
        next
          case False
          with 2 nb Some t n h show ?thesis by (fastforce simp: Let_def)
        qed
      qed
    qed
  qed (use 2 in auto)
qed simp

function enforce ::
    "(pyval \<Rightarrow> string) \<Rightarrow> (assembly_request \<Rightarrow> int) \<Rightarrow> rule_table \<Rightarrow> assembly_request \<Rightarrow>
     trunc_event list \<Rightarrow> assembly_request \<times> trunc_event list" where
  "enforce rp est rules q evs =
     (if est q \<le> ar_token_budget q then (q, evs)
      else (let (q', evs', changed) = trunc_pass rp est rules (get_truncation_order rules) q evs False
            in if changed then enforce rp est rules q' evs' else (q', evs')))"
  by pat_completeness auto

termination
  by (relation "measure (\<lambda>(_, _, _, q, _). held q)") (auto dest: pass_held [OF sym])

declare enforce.simps [simp del]

section \<open>The estimate of a request\<close>

definition estimate_text :: "string \<Rightarrow> int" where
  "estimate_text t = (if t = [] then 0 else max 1 (int (length t) div 4))"

definition count_obj :: "(pyval \<Rightarrow> string) \<Rightarrow> pyobj \<Rightarrow> int" where
  "count_obj rp d = (if d = [] then 0 else estimate_text (py_str rp (PDict d)))"

definition count_item :: "(pyval \<Rightarrow> string) \<Rightarrow> pyobj \<Rightarrow> int" where
  "count_item rp d = estimate_text (py_str rp (PDict d))"

record token_estimate =
  te_total_tokens :: int
  te_system_tokens :: int
  te_memory_tokens :: int
  te_tool_tokens :: int
  te_message_tokens :: int
  te_overhead_tokens :: int

definition estimate_tokens :: "(pyval \<Rightarrow> string) \<Rightarrow> assembly_request \<Rightarrow> token_estimate" where
  "estimate_tokens rp q =
     (let sys = estimate_text (ar_system_policy q) + estimate_text (ar_tenant_policy q)
              + estimate_text (ar_system_instructions q) + count_obj rp (ar_persona q)
              + count_obj rp (ar_profile q) + count_obj rp (ar_cortex_intent q)
              + count_obj rp (ar_workflow_context q) + count_obj rp (ar_provider_capabilities q);
          mem = sum_list (map (count_item rp) (ar_memory_items q))
              + sum_list (map (count_item rp) (ar_continuity_items q));
          tool = sum_list (map (count_item rp) (ar_tool_contracts q));
          msg = sum_list (map (count_item rp) (ar_messages q))
      in \<lparr>te_total_tokens = sys + mem + tool + msg + 100, te_system_tokens = sys,
          te_memory_tokens = mem, te_tool_tokens = tool, te_message_tokens = msg,
          te_overhead_tokens = 100\<rparr>)"

text \<open>The budget step of \<^verbatim>\<open>PromptRuntimeService.assemble_prompt\<close>: the working copy and the events.\<close>

definition fit_budget ::
    "(pyval \<Rightarrow> string) \<Rightarrow> rule_table \<Rightarrow> bool \<Rightarrow> assembly_request \<Rightarrow> assembly_request \<times> trunc_event list" where
  "fit_budget rp rules enforce_budget q =
     (if enforce_budget \<and> te_total_tokens (estimate_tokens rp q) > ar_token_budget q
      then enforce rp (\<lambda>q. te_total_tokens (estimate_tokens rp q)) rules q [] else (q, []))"

section \<open>What a removal keeps\<close>

definition latest_user :: "(pyval \<Rightarrow> string) \<Rightarrow> assembly_request \<Rightarrow> pyobj option" where
  "latest_user rp q = find (\<lambda>m. msg_role rp m = ''user'') (rev (ar_messages q))"

definition other_messages :: "(pyval \<Rightarrow> string) \<Rightarrow> assembly_request \<Rightarrow> pyobj list" where
  "other_messages rp q = filter (\<lambda>m. msg_role rp m \<notin> {''user'', ''assistant''}) (ar_messages q)"

definition kept_or_dropped :: "pyobj \<Rightarrow> pyobj \<Rightarrow> bool" where
  "kept_or_dropped d d' \<longleftrightarrow> d' = d \<or> d' = []"

text \<open>
  What a truncated request keeps of the original: the policies, the instructions, the output
  schema, the budget and the prompt named; the most recent user message and every message that is
  neither the user's nor the assistant's; the best-ranked items of each list.
\<close>

definition retained :: "(pyval \<Rightarrow> string) \<Rightarrow> assembly_request \<Rightarrow> assembly_request \<Rightarrow> bool" where
  "retained rp q q' \<longleftrightarrow>
     (ar_system_policy q', ar_tenant_policy q', ar_system_instructions q')
       = (ar_system_policy q, ar_tenant_policy q, ar_system_instructions q)
     \<and> (ar_token_budget q', ar_output_schema q', ar_prompt_id q', ar_prompt_version q')
       = (ar_token_budget q, ar_output_schema q, ar_prompt_id q, ar_prompt_version q)
     \<and> latest_user rp q' = latest_user rp q \<and> other_messages rp q' = other_messages rp q
     \<and> subseq (ar_messages q') (ar_messages q)
     \<and> prefix (ar_memory_items q') (ar_memory_items q)
     \<and> prefix (ar_continuity_items q') (ar_continuity_items q)
     \<and> prefix (ar_tool_contracts q') (ar_tool_contracts q)
     \<and> kept_or_dropped (ar_workflow_context q) (ar_workflow_context q')
     \<and> kept_or_dropped (ar_provider_capabilities q) (ar_provider_capabilities q')
     \<and> kept_or_dropped (ar_profile q) (ar_profile q')
     \<and> kept_or_dropped (ar_cortex_intent q) (ar_cortex_intent q')
     \<and> kept_or_dropped (ar_persona q) (ar_persona q')"

lemma kept_refl [simp]: "kept_or_dropped d d"
  by (simp add: kept_or_dropped_def)

lemma kept_Nil [simp]: "kept_or_dropped d []"
  by (simp add: kept_or_dropped_def)

lemma kept_trans: "kept_or_dropped a b \<Longrightarrow> kept_or_dropped b c \<Longrightarrow> kept_or_dropped a c"
  by (auto simp: kept_or_dropped_def)

lemma retained_refl [simp]: "retained rp q q"
  by (simp add: retained_def)

lemma retained_trans: "retained rp a b \<Longrightarrow> retained rp b c \<Longrightarrow> retained rp a c"
  unfolding retained_def
  by (auto intro: kept_trans prefix_order.order_trans subseq_order.order_trans)

lemma prefix_butlast [simp]: "prefix (butlast xs) xs"
  by (simp add: prefix_def butlast_conv_take) (metis append_take_drop_id)

lemma find_last_upt:
  "find P (rev [0..<n]) = Some i \<Longrightarrow> i < n \<and> P i \<and> (\<forall>k. i < k \<and> k < n \<longrightarrow> \<not> P k)"
  by (induction n) (auto simp: less_Suc_eq split: if_splits)

lemma find_append:
  "find P (xs @ ys) = (case find P xs of None \<Rightarrow> find P ys | Some y \<Rightarrow> Some y)"
  by (induction xs) auto

text \<open>Dropping an element that fails \<open>P\<close>, or that comes before one with \<open>P\<close>, keeps the last one.\<close>

lemma find_last_remove:
  assumes "j < length xs" "\<not> P (xs ! j) \<or> (\<exists>k. j < k \<and> k < length xs \<and> P (xs ! k))"
  shows "find P (rev (take j xs @ drop (Suc j) xs)) = find P (rev xs)"
proof -
  have "find P (rev xs) = find P (rev (take j xs @ xs ! j # drop (Suc j) xs))"
    by (simp only: id_take_nth_drop [OF assms(1), symmetric])
  also have "\<dots> = find P (rev (take j xs @ drop (Suc j) xs))"
  proof (cases "P (xs ! j)")
    case False
    then show ?thesis by (simp add: find_append split: option.splits)
  next
    case True
    with assms(2) obtain k where k: "j < k" "k < length xs" "P (xs ! k)" by blast
    then have "xs ! k = drop (Suc j) xs ! (k - Suc j)" "k - Suc j < length (drop (Suc j) xs)"
      by simp_all
    then have "xs ! k \<in> set (drop (Suc j) xs)" by (metis nth_mem)
    with k(3) have "find P (rev (drop (Suc j) xs)) \<noteq> None" by (auto simp: find_None_iff)
    then show ?thesis by (auto simp: find_append)
  qed
  finally show ?thesis by simp
qed

lemma filter_remove:
  assumes "j < length xs" "\<not> P (xs ! j)"
  shows "filter P (take j xs @ drop (Suc j) xs) = filter P xs"
proof -
  have "filter P xs = filter P (take j xs @ xs ! j # drop (Suc j) xs)"
    by (simp only: id_take_nth_drop [OF assms(1), symmetric])
  with assms(2) show ?thesis by simp
qed

lemma subseq_remove:
  assumes "j < length xs" shows "subseq (take j xs @ drop (Suc j) xs) xs"
proof -
  have "subseq (take j xs @ drop (Suc j) xs) (take j xs @ xs ! j # drop (Suc j) xs)"
    by (intro list_emb_append_mono) auto
  then show ?thesis by (simp only: id_take_nth_drop [OF assms, symmetric])
qed

lemma history_retained:
  assumes "remove_oldest_history_message rp q = (n, q')" shows "retained rp q q'"
proof -
  let ?ms = "ar_messages q" and ?u = "\<lambda>m. msg_role rp m = ''user''"
  consider "q' = q" | i where "Some i \<noteq> latest_user_index rp ?ms"
      "msg_role rp (?ms ! i) \<in> {''user'', ''assistant''}" "i < length ?ms"
      "q' = q\<lparr>ar_messages := take i ?ms @ drop (Suc i) ?ms\<rparr>"
  proof (cases "length ?ms \<le> 1")
    case True
    with assms that(1) show ?thesis by (simp add: remove_oldest_history_message_def)
  next
    case False
    show ?thesis
    proof (cases "find (\<lambda>i. Some i \<noteq> latest_user_index rp ?ms
        \<and> msg_role rp (?ms ! i) \<in> {''user'', ''assistant''}) [0..<length ?ms]")
      case None
      with assms False that(1) show ?thesis by (simp add: remove_oldest_history_message_def Let_def)
    next
      case (Some i)
      with assms False that(2) [of i] find_upt [OF Some] show ?thesis
        by (simp add: remove_oldest_history_message_def Let_def)
    qed
  qed
  then show ?thesis
  proof cases
    case 2
    have "\<not> ?u (?ms ! i) \<or> (\<exists>k. i < k \<and> k < length ?ms \<and> ?u (?ms ! k))"
    proof (cases "latest_user_index rp ?ms")
      case None
      with 2(3) show ?thesis by (auto simp: latest_user_index_def find_None_iff)
    next
      case (Some l)
      from find_last_upt [OF Some [unfolded latest_user_index_def]] 2(1,3) Some show ?thesis
        by (metis nat_neq_iff)
    qed
    note last = find_last_remove [where P = ?u, OF 2(3) this]
    have "filter (\<lambda>m. msg_role rp m \<notin> {''user'', ''assistant''}) (take i ?ms @ drop (Suc i) ?ms)
        = filter (\<lambda>m. msg_role rp m \<notin> {''user'', ''assistant''}) ?ms"
      by (rule filter_remove [OF 2(3)]) (use 2(2) in blast)
    with 2(4) last subseq_remove [OF 2(3)] show ?thesis
      by (simp add: retained_def latest_user_def other_messages_def)
  qed simp
qed

lemma truncate_retained:
  assumes "truncate_once rp pct s q = (n, q')" shows "retained rp q q'"
proof (cases "s = ''history''")
  case True
  with assms show ?thesis by (simp add: truncate_once_def history_retained)
next
  case False
  with assms show ?thesis
    by (auto simp: truncate_once_def retained_def latest_user_def other_messages_def split: if_splits)
qed

lemma pass_retained:
  "trunc_pass rp est rules ss q evs ch = (q', evs', ch') \<Longrightarrow> retained rp q q'"
proof (induction rp est rules ss q evs ch rule: trunc_pass.induct)
  case (2 rp est rules s ss q evs ch)
  show ?case
  proof (cases "est q \<le> ar_token_budget q \<or> dget rules s = None")
    case True
    with 2 show ?thesis by (auto split: if_splits)
  next
    case False
    then obtain r where r: "dget rules s = Some r" by auto
    obtain n q1 where t: "truncate_once rp (tr_min_keep_percentage r) s q = (n, q1)" by fastforce
    note h = truncate_retained [OF t]
    from False r t 2 show ?thesis
      by (auto simp: Let_def intro: h retained_trans [OF h] split: if_splits)
  qed
qed simp

lemma enforce_retained: "enforce rp est rules q evs = (q', evs') \<Longrightarrow> retained rp q q'"
proof (induction rp est rules q evs rule: enforce.induct)
  case (1 rp est rules q evs)
  obtain q1 evs1 ch where p: "trunc_pass rp est rules (get_truncation_order rules) q evs False = (q1, evs1, ch)"
    by (metis prod_cases3)
  note h = pass_retained [OF p]
  show ?case
  proof (cases "est q \<le> ar_token_budget q \<or> \<not> ch")
    case True
    with 1(2) p h show ?thesis by (subst (asm) enforce.simps) (auto split: if_splits)
  next
    case False
    with 1(2) p have "enforce rp est rules q1 evs1 = (q', evs')" by (subst (asm) enforce.simps) simp
    with 1(1) [OF _ p [symmetric] refl] False h show ?thesis by (auto intro: retained_trans)
  qed
qed

section \<open>When the policy gives up\<close>

text \<open>
  Nothing is left to remove: the sections are empty, and the conversation has a single message or
  only the latest user message besides those of other roles.
\<close>

definition history_spent :: "(pyval \<Rightarrow> string) \<Rightarrow> pyobj list \<Rightarrow> bool" where
  "history_spent rp ms \<longleftrightarrow> length ms \<le> 1
     \<or> (\<forall>i < length ms. Some i \<noteq> latest_user_index rp ms
          \<longrightarrow> msg_role rp (ms ! i) \<notin> {''user'', ''assistant''})"

definition spent :: "(pyval \<Rightarrow> string) \<Rightarrow> assembly_request \<Rightarrow> bool" where
  "spent rp q \<longleftrightarrow> ar_memory_items q = [] \<and> ar_continuity_items q = [] \<and> ar_tool_contracts q = []
     \<and> ar_workflow_context q = [] \<and> ar_provider_capabilities q = [] \<and> ar_profile q = []
     \<and> ar_cortex_intent q = [] \<and> ar_persona q = [] \<and> history_spent rp (ar_messages q)"

lemma default_order:
  "get_truncation_order default_rules =
     [''history'', ''workflow'', ''tool'', ''continuity'', ''provider_capabilities'', ''memory'',
      ''profile'', ''cortex'', ''persona'']"
  by code_simp

lemma default_shares:
  "list_all (\<lambda>s. case dget default_rules s of None \<Rightarrow> False
     | Some r \<Rightarrow> 0 \<le> tr_min_keep_percentage r \<and> tr_min_keep_percentage r < 1)
   (get_truncation_order default_rules)"
  by code_simp

text \<open>A share below one of the CURRENT length never keeps the last item.\<close>

lemma keep_less:
  assumes "0 \<le> pct" "pct < 1" "xs \<noteq> []" shows "keep_count pct xs < length xs"
proof -
  have "of_nat (length xs) * pct < of_nat (length xs) * 1"
    using assms by (intro mult_strict_left_mono) simp_all
  then have "\<lfloor>of_nat (length xs) * pct\<rfloor> < int (length xs)"
    by (simp add: floor_less_iff)
  moreover have "0 \<le> of_nat (length xs) * pct" using assms(1) by simp
  ultimately show ?thesis
    by (simp add: keep_count_def trunc_rat_def nat_less_iff)
qed

lemma unremovable:
  assumes "fst (truncate_once rp pct s q) = 0" "0 \<le> pct" "pct < 1"
  shows "s = ''history'' \<longrightarrow> history_spent rp (ar_messages q)"
    "s = ''workflow'' \<longrightarrow> ar_workflow_context q = []"
    "s = ''provider_capabilities'' \<longrightarrow> ar_provider_capabilities q = []"
    "s = ''continuity'' \<longrightarrow> ar_continuity_items q = []"
    "s = ''tool'' \<longrightarrow> ar_tool_contracts q = []"
    "s = ''memory'' \<longrightarrow> ar_memory_items q = []"
    "s = ''profile'' \<longrightarrow> ar_profile q = []"
    "s = ''cortex'' \<longrightarrow> ar_cortex_intent q = []"
    "s = ''persona'' \<longrightarrow> ar_persona q = []"
proof -
  show "s = ''history'' \<longrightarrow> history_spent rp (ar_messages q)"
    using assms(1)
    by (auto simp: truncate_once_def remove_oldest_history_message_def history_spent_def Let_def
        find_None_iff split: if_splits option.splits)
qed (use assms(1) keep_less [OF assms(2,3), of "ar_continuity_items q"]
    keep_less [OF assms(2,3), of "ar_tool_contracts q"] keep_less [OF assms(2,3), of "ar_memory_items q"]
    in \<open>auto simp: truncate_once_def split: if_splits\<close>)

lemma pass_gives_up:
  "trunc_pass rp est rules ss q evs False = (q', evs', False) \<Longrightarrow> ar_token_budget q < est q
   \<Longrightarrow> q' = q \<and> evs' = evs
     \<and> (\<forall>s \<in> set ss. \<forall>r. dget rules s = Some r
          \<longrightarrow> fst (truncate_once rp (tr_min_keep_percentage r) s q) = 0)"
proof (induction ss)
  case (Cons s ss)
  show ?case
  proof (cases "dget rules s")
    case None
    with Cons show ?thesis by simp
  next
    case (Some r)
    obtain n q1 where t: "truncate_once rp (tr_min_keep_percentage r) s q = (n, q1)" by fastforce
    have "trunc_pass rp est rules ss q1 evs1 True \<noteq> (q', evs', False)" for evs1
      by (induction ss arbitrary: q1 evs1) (auto simp: Let_def split: option.splits prod.splits)
    with Cons(2,3) Some t have "n = 0" by (auto simp: Let_def split: if_splits)
    with Cons Some t show ?thesis by simp
  qed
qed simp

lemma pass_budget:
  "trunc_pass rp est rules ss q evs ch = (q', evs', ch') \<Longrightarrow> ar_token_budget q' = ar_token_budget q"
  by (drule pass_retained) (simp add: retained_def)

lemma default_pass_spent:
  assumes "trunc_pass rp est default_rules (get_truncation_order default_rules) q evs False = (q', evs', False)"
    and "ar_token_budget q < est q"
  shows "q' = q \<and> evs' = evs \<and> spent rp q"
proof -
  note g = pass_gives_up [OF assms]
  have u: "\<exists>pct. 0 \<le> pct \<and> pct < 1 \<and> fst (truncate_once rp pct s q) = 0"
    if s: "s \<in> set (get_truncation_order default_rules)" for s
  proof -
    from default_shares s obtain r where r: "dget default_rules s = Some r"
      "0 \<le> tr_min_keep_percentage r" "tr_min_keep_percentage r < 1"
      by (auto simp: list_all_iff split: option.splits)
    with g s show ?thesis by blast
  qed
  have histo: "history_spent rp (ar_messages q)"
    using u [of "''history''"] unremovable(1) [of rp _ "''history''" q] unfolding default_order by auto
  have workf: "ar_workflow_context q = []"
    using u [of "''workflow''"] unremovable(2) [of rp _ "''workflow''" q] unfolding default_order by auto
  have provi: "ar_provider_capabilities q = []"
    using u [of "''provider_capabilities''"] unremovable(3) [of rp _ "''provider_capabilities''" q] unfolding default_order by auto
  have conti: "ar_continuity_items q = []"
    using u [of "''continuity''"] unremovable(4) [of rp _ "''continuity''" q] unfolding default_order by auto
  have tool: "ar_tool_contracts q = []"
    using u [of "''tool''"] unremovable(5) [of rp _ "''tool''" q] unfolding default_order by auto
  have memor: "ar_memory_items q = []"
    using u [of "''memory''"] unremovable(6) [of rp _ "''memory''" q] unfolding default_order by auto
  have profi: "ar_profile q = []"
    using u [of "''profile''"] unremovable(7) [of rp _ "''profile''" q] unfolding default_order by auto
  have corte: "ar_cortex_intent q = []"
    using u [of "''cortex''"] unremovable(8) [of rp _ "''cortex''" q] unfolding default_order by auto
  have perso: "ar_persona q = []"
    using u [of "''persona''"] unremovable(9) [of rp _ "''persona''" q] unfolding default_order by auto
  from g show ?thesis by (simp add: spent_def histo workf provi conti tool memor profi corte perso)
qed

lemma enforce_result:
  "enforce rp est default_rules q evs = (q', evs') \<Longrightarrow> est q' \<le> ar_token_budget q' \<or> spent rp q'"
proof (induction "held q" arbitrary: q evs rule: less_induct)
  case less
  let ?p = "trunc_pass rp est default_rules (get_truncation_order default_rules) q evs False"
  obtain q1 evs1 ch where p: "?p = (q1, evs1, ch)" by (metis prod_cases3)
  show ?case
  proof (cases "est q \<le> ar_token_budget q")
    case True
    with less(2) show ?thesis by (subst (asm) enforce.simps) simp
  next
    case nb: False
    show ?thesis
    proof (cases ch)
      case True
      have "held q1 < held q" using pass_held [OF p] True by simp
      moreover have "enforce rp est default_rules q1 evs1 = (q', evs')"
        using less(2) nb p True by (subst (asm) enforce.simps) simp
      ultimately show ?thesis by (rule less(1))
    next
      case False
      have "q' = q1" using less(2) nb p False by (subst (asm) enforce.simps) simp
      moreover have "spent rp q1"
        using default_pass_spent [of rp est q evs q1 evs1] p nb False by simp
      ultimately show ?thesis by simp
    qed
  qed
qed

section \<open>Properties\<close>

text \<open>
  C19: whatever the token pressure, the rules and the estimator, fitting a request to its budget
  returns and leaves the policies, the instructions, the output schema, the latest user message
  and the messages of other roles untouched, and the lists it shortens keep their best-ranked
  items.
\<close>

theorem truncation_keeps_protected:
  "retained rp q (fst (fit_budget rp rules b q)) \<and> retained rp q (fst (enforce rp est rules q []))"
  by (auto simp: fit_budget_def intro: enforce_retained prod.collapse [symmetric])

text \<open>
  with the built-in rules a fitted request is within its budget, or every section that may
  shrink is gone completely: the shares of memory, continuity and tool items the rules ask to
  keep are taken of the items still left, and do not keep the last ones.
\<close>

theorem fits_or_spent:
  assumes "fit_budget rp default_rules True q = (q', evs)"
  shows "te_total_tokens (estimate_tokens rp q') \<le> ar_token_budget q \<or> spent rp q'"
proof (cases "te_total_tokens (estimate_tokens rp q) \<le> ar_token_budget q")
  case False
  with assms have e: "enforce rp (\<lambda>q. te_total_tokens (estimate_tokens rp q)) default_rules q [] = (q', evs)"
    by (simp add: fit_budget_def)
  from enforce_result [OF e] enforce_retained [OF e] show ?thesis by (auto simp: retained_def)
qed (use assms in \<open>simp add: fit_budget_def\<close>)

definition sample_request :: assembly_request where
  "sample_request =
     \<lparr>ar_system_policy = ''Be helpful.'', ar_tenant_policy = [], ar_system_instructions = [],
      ar_persona = [(''tone'', PStr ''warm'')], ar_profile = [],
      ar_memory_items = [[(''content'', PStr ''a'')], [(''content'', PStr ''b'')]],
      ar_continuity_items = [], ar_cortex_intent = [], ar_tool_contracts = [[(''name'', PStr ''t'')]],
      ar_workflow_context = [], ar_provider_capabilities = [], ar_token_budget = 50,
      ar_output_schema = [],
      ar_messages = [[(''role'', PStr ''user''), (''content'', PStr ''one'')],
                     [(''role'', PStr ''assistant''), (''content'', PStr ''two'')],
                     [(''role'', PStr ''user''), (''content'', PStr ''three'')]],
      ar_prompt_id = None, ar_prompt_version = None\<rparr>"

definition sample_repr :: "pyval \<Rightarrow> string" where
  "sample_repr v = replicate 20 (CHR ''x'')"

theorem fits_or_spent_witness:
  "spent sample_repr (fst (fit_budget sample_repr default_rules True sample_request))"
proof -
  obtain q' evs where f: "fit_budget sample_repr default_rules True sample_request = (q', evs)"
    by fastforce
  have "\<not> te_total_tokens (estimate_tokens sample_repr
      (fst (fit_budget sample_repr default_rules True sample_request))) \<le> ar_token_budget sample_request"
    by code_simp
  with fits_or_spent [OF f] f show ?thesis by simp
qed

end
