(* ===== verification/PromptRegistry.thy ===== *)
theory PromptRegistry
  imports StateMachines
begin

text \<open>
  The prompt registry of the prompt runtime: versions and definitions
  (\<^verbatim>\<open>src/src/ai_karen_engine/core/runtime/prompt/prompt_contract.py\<close>) and the registry
  (\<^verbatim>\<open>core/runtime/prompt/prompt_registry.py\<close>), with the proof that its three dictionaries refine
  one catalogue of versions with an active version per prompt.

  Writing the registry file may fail: each operation that saves takes the outcome of the write as
  an argument. Dates are microseconds. Reading the file back is not modelled; the registry starts
  from the built-in prompts, or from any registry that meets the invariant.
\<close>

section \<open>Versions\<close>

datatype prompt_version = PromptVersion (pv_major: int) (pv_minor: int) (pv_patch: int)

definition version_less :: "prompt_version \<Rightarrow> prompt_version \<Rightarrow> bool" where
  "version_less a b =
     (if pv_major a \<noteq> pv_major b then pv_major a < pv_major b
      else if pv_minor a \<noteq> pv_minor b then pv_minor a < pv_minor b
      else pv_patch a < pv_patch b)"

definition version_less_eq :: "prompt_version \<Rightarrow> prompt_version \<Rightarrow> bool" where
  "version_less_eq a b = (version_less a b \<or> a = b)"

text \<open>The comparison methods of the code are the order of the type.\<close>

instantiation prompt_version :: linorder
begin

definition less_prompt_version :: "prompt_version \<Rightarrow> prompt_version \<Rightarrow> bool" where
  "less_prompt_version = version_less"

definition less_eq_prompt_version :: "prompt_version \<Rightarrow> prompt_version \<Rightarrow> bool" where
  "less_eq_prompt_version = version_less_eq"

instance
proof
  note defs = less_prompt_version_def less_eq_prompt_version_def version_less_def version_less_eq_def
  fix a b c :: prompt_version
  show "(a < b) = (a \<le> b \<and> \<not> b \<le> a)" by (auto simp: defs split: if_splits)
  show "a \<le> a" by (simp add: defs)
  show "a \<le> b \<Longrightarrow> b \<le> c \<Longrightarrow> a \<le> c" by (auto simp: defs split: if_splits)
  show "a \<le> b \<Longrightarrow> b \<le> a \<Longrightarrow> a = b" by (auto simp: defs split: if_splits)
  show "a \<le> b \<or> b \<le> a" by (cases a; cases b) (auto simp: defs)
qed

end

definition show_version :: "prompt_version \<Rightarrow> string" where
  "show_version v = ''v'' @ show_int (pv_major v) @ ''.'' @ show_int (pv_minor v) @ ''.''
     @ show_int (pv_patch v)"

datatype registry_error =
    RegValueError string
  | PromptNotFound string
  | VersionConflict string
  | SaveFailed
  | RegTypeError
  | RegAttributeError
  | RegKeyError

definition lstrip_v :: "string \<Rightarrow> string" where
  "lstrip_v s = dropWhile (\<lambda>c. c = CHR ''v'') s"

definition parse_version :: "string \<Rightarrow> registry_error + prompt_version" where
  "parse_version s =
     (case split_on (CHR ''.'') (lstrip_v (lower (strip s))) of
        [a, b, c] \<Rightarrow>
          (case (parse_int a, parse_int b, parse_int c) of
             (Some x, Some y, Some z) \<Rightarrow> Inr (PromptVersion x y z)
           | _ \<Rightarrow> Inl (RegValueError (''Invalid version numbers in '' @ s)))
      | _ \<Rightarrow> Inl (RegValueError (''Invalid version format: '' @ s @ ''. Expected '' @ sq ''vX.Y.Z'')))"

text \<open>\<^verbatim>\<open>str.isdigit\<close> on ASCII text.\<close>

definition all_digits :: "string \<Rightarrow> bool" where
  "all_digits s \<longleftrightarrow> s \<noteq> [] \<and> (\<forall>c \<in> set s. is_digit c)"

definition int_or_zero :: "string \<Rightarrow> int" where
  "int_or_zero s = (case parse_int s of None \<Rightarrow> 0 | Some i \<Rightarrow> i)"

text \<open>Legacy versions with one or two numbers are completed; \<open>raw\<close> is the persisted text.\<close>

definition normalize_version :: "string \<Rightarrow> registry_error + string" where
  "normalize_version text =
     (let raw = strip text in
      case parse_version raw of
        Inr v \<Rightarrow> Inr (show_version v)
      | Inl e \<Rightarrow>
          (let clean = lstrip_v (lower raw);
               parts = (if clean = [] then [] else split_on (CHR ''.'') clean)
           in if parts = [] \<or> 2 < length parts \<or> (\<exists>p \<in> set parts. \<not> all_digits p) then Inl e
              else (let ns = map int_or_zero parts @ [0, 0, 0]
                    in Inr (show_version (PromptVersion (ns ! 0) (ns ! 1) (ns ! 2))))))"

section \<open>Definitions and the registry\<close>

datatype lifecycle_status = DRAFT | ACTIVE | DEPRECATED | RETIRED

record prompt_definition =
  pd_prompt_id :: string
  pd_version :: string
  pd_name :: string
  pd_description :: string
  pd_system_instructions :: string
  pd_persona_defaults :: "(string, pyval) pydict"
  pd_profile_defaults :: "(string, pyval) pydict"
  pd_tool_contracts :: "pyval list"
  pd_output_schema :: "(string, pyval) pydict"
  pd_token_budget :: int
  pd_allowed_overrides :: "string list"
  pd_metadata :: "(string, pyval) pydict"
  pd_status :: lifecycle_status
  pd_created_at :: "int option"
  pd_deprecated_at :: "int option"
  pd_supersedes :: "string option"
  pd_is_default :: bool

definition default_definition :: "string \<Rightarrow> string \<Rightarrow> prompt_definition" where
  "default_definition i v =
     \<lparr>pd_prompt_id = i, pd_version = v, pd_name = [], pd_description = [], pd_system_instructions = [],
      pd_persona_defaults = [], pd_profile_defaults = [], pd_tool_contracts = [], pd_output_schema = [],
      pd_token_budget = 4096, pd_allowed_overrides = [], pd_metadata = [], pd_status = DRAFT,
      pd_created_at = None, pd_deprecated_at = None, pd_supersedes = None, pd_is_default = False\<rparr>"

record registry =
  rg_prompts :: "(string, prompt_definition) pydict"
  rg_version_index :: "(string, (prompt_version, string) pydict) pydict"
  rg_active_versions :: "(string, prompt_version) pydict"

definition storage_key :: "string \<Rightarrow> prompt_version \<Rightarrow> string" where
  "storage_key i v = i @ ''@'' @ show_version v"

definition versions_of :: "registry \<Rightarrow> string \<Rightarrow> (prompt_version, string) pydict" where
  "versions_of rg i = (case dget (rg_version_index rg) i of None \<Rightarrow> [] | Some vs \<Rightarrow> vs)"

text \<open>\<^verbatim>\<open>_sync_default_flags\<close>: the definitions stored for a prompt learn which version is active.\<close>

definition set_flag ::
    "prompt_version option \<Rightarrow> prompt_version \<times> string \<Rightarrow> (string, prompt_definition) pydict \<Rightarrow>
     (string, prompt_definition) pydict" where
  "set_flag act = (\<lambda>(v, k) ps. case dget ps k of
       None \<Rightarrow> ps
     | Some p \<Rightarrow> dset k (p\<lparr>pd_is_default := (act = Some v)\<rparr>) ps)"

definition sync_default_flags :: "string \<Rightarrow> registry \<Rightarrow> registry" where
  "sync_default_flags i rg =
     rg\<lparr>rg_prompts := fold (set_flag (dget (rg_active_versions rg) i)) (versions_of rg i) (rg_prompts rg)\<rparr>"

section \<open>Registering\<close>

text \<open>\<^verbatim>\<open>_validate_prompt\<close>: the definition with its name filled in, or the error.\<close>

definition validate_prompt :: "prompt_definition \<Rightarrow> registry_error + prompt_definition" where
  "validate_prompt p =
     (if pd_prompt_id p = [] then Inl (RegValueError ''prompt_id is required'')
      else if pd_version p = [] then Inl (RegValueError ''version is required'')
      else (let p' = (if pd_name p = [] then p\<lparr>pd_name := pd_prompt_id p\<rparr> else p) in
        case parse_version (pd_version p) of
          Inl e \<Rightarrow> Inl (RegValueError ''Invalid version format'')
        | Inr _ \<Rightarrow>
            if pd_token_budget p \<le> 0 then Inl (RegValueError ''token_budget must be positive'')
            else if pd_output_schema p \<noteq> [] \<and> \<not> dhas (pd_output_schema p) ''type''
            then Inl (RegValueError ''output_schema must have a type field'')
            else Inr p'))"

definition saved :: "bool \<Rightarrow> 'a \<Rightarrow> registry_error + 'a" where
  "saved ok x = (if ok then Inr x else Inl SaveFailed)"

definition add_version :: "prompt_definition \<Rightarrow> prompt_version \<Rightarrow> registry \<Rightarrow> registry" where
  "add_version p v rg =
     (let i = pd_prompt_id p; k = storage_key i v in
      rg\<lparr>rg_prompts := dset k p (rg_prompts rg),
         rg_version_index := dset i (dset v k (versions_of rg i)) (rg_version_index rg)\<rparr>)"

definition activate :: "string \<Rightarrow> prompt_version \<Rightarrow> registry \<Rightarrow> registry" where
  "activate i v rg = rg\<lparr>rg_active_versions := dset i v (rg_active_versions rg)\<rparr>"

definition register_prompt ::
    "bool \<Rightarrow> prompt_definition \<Rightarrow> registry \<Rightarrow> (registry_error + prompt_definition option) \<times> registry" where
  "register_prompt ok p rg =
     (case validate_prompt p of
        Inl e \<Rightarrow> (Inl e, rg)
      | Inr p' \<Rightarrow>
          (case parse_version (pd_version p') of
             Inl e \<Rightarrow> (Inl e, rg)
           | Inr v \<Rightarrow>
               (let i = pd_prompt_id p' in
                if dhas (versions_of rg i) v
                then (Inl (VersionConflict (''Version '' @ show_version v @ '' already exists for prompt '' @ i)), rg)
                else (let rg1 = add_version p' v rg;
                          rg2 = (if pd_is_default p' \<or> \<not> dhas (rg_active_versions rg1) i
                                 then activate i v rg1 else rg1);
                          rg3 = sync_default_flags i rg2
                      in (saved ok (dget (rg_prompts rg3) (storage_key i v)), rg3)))))"

section \<open>Reading\<close>

text \<open>\<^verbatim>\<open>max(versions)\<close> of a nonempty dict.\<close>

definition newest :: "(prompt_version, 'a) pydict \<Rightarrow> prompt_version" where
  "newest vs = (case dkeys vs of [] \<Rightarrow> PromptVersion 0 0 0 | v # ws \<Rightarrow> fold max ws v)"

definition get_prompt :: "string \<Rightarrow> string option \<Rightarrow> registry \<Rightarrow> registry_error + prompt_definition" where
  "get_prompt i ver rg =
     (let vs = versions_of rg i in
      if vs = [] then Inl (PromptNotFound (''Prompt '' @ i @ '' not found''))
      else rbind (case ver of
               None \<Rightarrow> Inr (case dget (rg_active_versions rg) i of None \<Rightarrow> newest vs | Some v \<Rightarrow> v)
             | Some t \<Rightarrow> parse_version t) (\<lambda>v.
           case dget vs v of
             None \<Rightarrow> Inl (PromptNotFound (''Version '' @ (case ver of
                 Some t \<Rightarrow> if t = [] then show_version v else t | None \<Rightarrow> show_version v)
               @ '' not found for prompt '' @ i))
           | Some k \<Rightarrow> (case dget (rg_prompts rg) k of None \<Rightarrow> Inl RegKeyError | Some p \<Rightarrow> Inr p)))"

definition list_prompts :: "registry \<Rightarrow> prompt_definition list" where
  "list_prompts rg = map snd (rg_prompts rg)"

definition list_versions :: "string \<Rightarrow> registry \<Rightarrow> prompt_version list" where
  "list_versions i rg = dkeys (versions_of rg i)"

section \<open>Activating and retiring\<close>

definition not_found :: "string \<Rightarrow> registry_error" where
  "not_found i = PromptNotFound (''Prompt '' @ i @ '' not found'')"

definition version_not_found :: "string \<Rightarrow> string \<Rightarrow> registry_error" where
  "version_not_found t i = PromptNotFound (''Version '' @ t @ '' not found for prompt '' @ i)"

definition set_active_version ::
    "bool \<Rightarrow> string \<Rightarrow> string \<Rightarrow> registry \<Rightarrow> (registry_error + bool) \<times> registry" where
  "set_active_version ok i ver rg =
     (if \<not> dhas (rg_version_index rg) i then (Inl (not_found i), rg)
      else (case parse_version ver of
        Inl e \<Rightarrow> (Inl e, rg)
      | Inr v \<Rightarrow>
          if \<not> dhas (versions_of rg i) v then (Inl (version_not_found ver i), rg)
          else (saved ok True, sync_default_flags i (activate i v rg))))"

text \<open>Retiring every version of a prompt, and one version of it.\<close>

definition retire_all :: "string \<Rightarrow> registry \<Rightarrow> registry" where
  "retire_all i rg =
     rg\<lparr>rg_prompts := fold ddel (map snd (versions_of rg i)) (rg_prompts rg),
        rg_version_index := ddel i (rg_version_index rg),
        rg_active_versions := ddel i (rg_active_versions rg)\<rparr>"

definition retire_version :: "string \<Rightarrow> prompt_version \<Rightarrow> string \<Rightarrow> registry \<Rightarrow> registry" where
  "retire_version i v k rg =
     (let vs = ddel v (versions_of rg i);
          rg1 = rg\<lparr>rg_version_index := dset i vs (rg_version_index rg),
                   rg_prompts := ddel k (rg_prompts rg)\<rparr>;
          rg2 = (if dget (rg_active_versions rg1) i = Some v
                 then rg1\<lparr>rg_active_versions := (if vs \<noteq> [] then dset i (newest vs) (rg_active_versions rg1)
                                              else ddel i (rg_active_versions rg1))\<rparr>
                 else rg1)
      in if vs = [] then rg2\<lparr>rg_version_index := ddel i (rg_version_index rg2)\<rparr>
         else sync_default_flags i rg2)"

definition retire_prompt ::
    "bool \<Rightarrow> string \<Rightarrow> string option \<Rightarrow> registry \<Rightarrow> (registry_error + bool) \<times> registry" where
  "retire_prompt ok i ver rg =
     (if \<not> dhas (rg_version_index rg) i then (Inl (not_found i), rg)
      else (case ver of
        None \<Rightarrow> (saved ok True, retire_all i rg)
      | Some t \<Rightarrow>
          (case parse_version t of
             Inl e \<Rightarrow> (Inl e, rg)
           | Inr v \<Rightarrow>
               (case dget (versions_of rg i) v of
                  None \<Rightarrow> (Inl (version_not_found t i), rg)
                | Some k \<Rightarrow> (saved ok True, retire_version i v k rg)))))"

section \<open>The built-in prompts\<close>

definition chat_prompt :: prompt_definition where
  \<open>chat_prompt = (default_definition ''karen.chat.default'' ''v1.0.0'')
     \<lparr>pd_name := ''KAREN Default Chat'',
      pd_description := ''Canonical prompt contract for normal KAREN chat assembly.'',
      pd_system_instructions := '''',
      pd_token_budget := 4096,
      pd_status := ACTIVE,
      pd_is_default := True,
      pd_metadata := [(''source'', PStr ''builtin''), (''owner'', PStr ''prompt_runtime''),
        (''purpose'', PStr ''canonical_chat'')]\<rparr>\<close>

definition memory_candidate_prompt :: prompt_definition where
  \<open>memory_candidate_prompt = (default_definition ''karen.memory.semantic_candidates'' ''v1.0.0'')
     \<lparr>pd_name := ''Personal Semantic Evidence Candidates'',
      pd_description := (''Non-authoritative, evidence-bound personal relation candidates for runtime ''
        @ ''review. Never persist a model candidate directly.''),
      pd_system_instructions := (''Return only JSON matching the provided schema. Extract at most three directly ''
        @ ''asserted first-person personal relationships from the user message. Never infer ''
        @ ''a fact, subject, value, scope, time, correction, authorization, or consent. ''
        @ ''Ignore quoted speech, other people's statements, negations, hypotheticals, ''
        @ ''uncertainty, and temporary claims. Only use an exact contiguous quote from the ''
        @ ''supplied user text with zero-based Python string indices [span_start, ''
        @ ''span_end). The relation and value must both occur verbatim in that quote. ''
        @ ''Return {"candidates": []} when source-grounded interpretation is uncertain. ''
        @ ''Your output is a proposal only and never authorizes memory persistence.''),
      pd_output_schema := [(''type'', PStr ''object''), (''required'', PList [PStr ''candidates'']),
        (''additionalProperties'', PBool False), (''properties'', PDict [(''candidates'',
        PDict [(''type'', PStr ''array''), (''maxItems'', PInt 3), (''items'', PDict [(''type'',
        PStr ''object''), (''required'', PList [PStr ''evidence_text'', PStr ''span_start'',
        PStr ''span_end'', PStr ''relation'', PStr ''value'']), (''additionalProperties'', PBool False),
        (''properties'', PDict [(''evidence_text'', PDict [(''type'', PStr ''string'')]),
        (''span_start'', PDict [(''type'', PStr ''integer''), (''minimum'', PInt 0)]), (''span_end'',
        PDict [(''type'', PStr ''integer''), (''minimum'', PInt 1)]), (''relation'', PDict [(''type'',
        PStr ''string'')]), (''value'', PDict [(''type'', PStr ''string'')])])])])])],
      pd_token_budget := 2048,
      pd_status := ACTIVE,
      pd_is_default := True,
      pd_metadata := [(''source'', PStr ''builtin''), (''owner'', PStr ''prompt_runtime''),
        (''purpose'', PStr ''untrusted_memory_candidate_extraction''), (''persistence_authority'',
        PStr ''none'')]\<rparr>\<close>

definition deepagents_prompt :: prompt_definition where
  \<open>deepagents_prompt = (default_definition ''karen.agent.researcher.deepagents'' ''v1.0.0'')
     \<lparr>pd_name := ''Medusa Deep Agents Research'',
      pd_description := ''Research specialist harness under Karen runtime authorization.'',
      pd_system_instructions := (''Research the authorized task using only the available governed tools. Use the ''
        @ ''task planner and your isolated file workspace to organize work. Distinguish ''
        @ ''confirmed evidence from inference, preserve source references, and explicitly ''
        @ ''report missing or unsuccessful tool results. Do not claim to have saved ''
        @ ''memories, edited external files, or completed external actions without an ''
        @ ''acknowledged result. The current task and permitted tools are bounded by Karen ''
        @ ''RuntimePolicy.''),
      pd_token_budget := 4096,
      pd_status := ACTIVE,
      pd_is_default := True,
      pd_metadata := [(''source'', PStr ''builtin''), (''owner'', PStr ''prompt_runtime''),
        (''purpose'', PStr ''medusa_deepagents_research'')]\<rparr>\<close>


text \<open>\<^verbatim>\<open>_ensure_builtin_*\<close>: a built-in prompt is added, active, unless its id is known.\<close>

definition builtin_version :: prompt_version where
  "builtin_version = PromptVersion 1 0 0"

definition put_builtin :: "int \<Rightarrow> prompt_definition \<Rightarrow> registry \<Rightarrow> registry" where
  "put_builtin now p rg =
     activate (pd_prompt_id p) builtin_version (add_version (p\<lparr>pd_created_at := Some now\<rparr>) builtin_version rg)"

definition ensure_builtin :: "int \<Rightarrow> prompt_definition \<Rightarrow> registry \<Rightarrow> registry" where
  "ensure_builtin now p rg =
     (if dhas (rg_version_index rg) (pd_prompt_id p) then rg
      else sync_default_flags (pd_prompt_id p) (put_builtin now p rg))"

definition ensure_builtin_deepagents :: "int \<Rightarrow> registry \<Rightarrow> registry" where
  "ensure_builtin_deepagents now rg =
     (if dhas (rg_version_index rg) (pd_prompt_id deepagents_prompt) then rg
      else put_builtin now deepagents_prompt rg)"

text \<open>A registry whose file does not exist yet.\<close>

definition empty_registry :: registry where
  "empty_registry = \<lparr>rg_prompts = [], rg_version_index = [], rg_active_versions = []\<rparr>"

definition new_registry :: "int \<Rightarrow> registry" where
  "new_registry now =
     ensure_builtin_deepagents now (ensure_builtin now memory_candidate_prompt
       (ensure_builtin now chat_prompt empty_registry))"

section \<open>Validating an output\<close>

fun type_name :: "pyval \<Rightarrow> string" where
  "type_name PNone = ''NoneType''"
| "type_name (PBool b) = ''bool''"
| "type_name (PInt i) = ''int''"
| "type_name (PFloat f) = ''float''"
| "type_name (PStr s) = ''str''"
| "type_name (PList xs) = ''list''"
| "type_name (PDict d) = ''dict''"

text \<open>\<^verbatim>\<open>isinstance\<close> against the type a schema names; \<^verbatim>\<open>bool\<close> is a subclass of \<^verbatim>\<open>int\<close>.\<close>

definition type_matches :: "string \<Rightarrow> pyval \<Rightarrow> bool" where
  "type_matches t v =
     (if t = ''string'' then type_name v = ''str''
      else if t = ''integer'' then type_name v \<in> {''int'', ''bool''}
      else if t = ''number'' then type_name v \<in> {''int'', ''bool'', ''float''}
      else if t = ''boolean'' then type_name v = ''bool''
      else if t = ''array'' then type_name v = ''list''
      else if t = ''object'' then type_name v = ''dict''
      else True)"

definition field_error :: "(string, pyval) pydict \<Rightarrow> string \<times> pyval \<Rightarrow> registry_error + string list" where
  "field_error out = (\<lambda>(f, sch). case dget out f of
       None \<Rightarrow> Inr []
     | Some v \<Rightarrow> (case sch of
         PDict d \<Rightarrow> (case dget d ''type'' of
             Some (PStr t) \<Rightarrow>
               Inr (if type_matches t v then []
                    else [''Field '' @ sq f @ '' must be '' @ t @ '', got '' @ type_name v])
           | _ \<Rightarrow> Inr [])
       | _ \<Rightarrow> Inl RegAttributeError))"

fun collect :: "('a \<Rightarrow> 'e + 'b list) \<Rightarrow> 'a list \<Rightarrow> 'e + 'b list" where
  "collect f [] = Inr []"
| "collect f (x # xs) = rbind (f x) (\<lambda>ys. rbind (collect f xs) (\<lambda>zs. Inr (ys @ zs)))"

text \<open>\<^verbatim>\<open>field not in output\<close> for the entries of \<^verbatim>\<open>required\<close>; an entry that cannot be hashed raises.\<close>

definition required_error :: "(pyval \<Rightarrow> string) \<Rightarrow> (string, pyval) pydict \<Rightarrow> pyval \<Rightarrow> registry_error + string list" where
  "required_error rp out f = (case f of
       PList _ \<Rightarrow> Inl RegTypeError
     | PDict _ \<Rightarrow> Inl RegTypeError
     | PStr s \<Rightarrow> Inr (if dhas out s then [] else [''Missing required field: '' @ s])
     | _ \<Rightarrow> Inr [''Missing required field: '' @ py_str rp f])"

text \<open>\<^verbatim>\<open>validate_output_schema\<close>: the errors found; an output is valid when there are none.\<close>

definition validate_output ::
    "(pyval \<Rightarrow> string) \<Rightarrow> string \<Rightarrow> pyval \<Rightarrow> string option \<Rightarrow> registry \<Rightarrow> registry_error + string list" where
  "validate_output rp i out ver rg =
     rbind (get_prompt i ver rg) (\<lambda>p.
       if pd_output_schema p = [] then Inr []
       else (case out of
         PDict d \<Rightarrow>
           (case py_list (vget (pd_output_schema p) ''required'' (PList [])) of
              Inl _ \<Rightarrow> Inl RegTypeError
            | Inr req \<Rightarrow>
                rbind (collect (required_error rp d) req) (\<lambda>e1.
                  (case vget (pd_output_schema p) ''properties'' (PDict []) of
                     PDict props \<Rightarrow> rbind (collect (field_error d) props) (\<lambda>e2. Inr (e1 @ e2))
                   | _ \<Rightarrow> Inl RegAttributeError)))
       | _ \<Rightarrow> Inr [''Output must be a dictionary'']))"

section \<open>Printing and parsing versions\<close>

lemma version_chars: "c \<in> set (show_version v) \<Longrightarrow> is_digit c \<or> c \<in> {CHR ''-'', CHR ''.'', CHR ''v''}"
  by (auto simp: show_version_def dest: show_int_chars)

lemma version_strip: "strip (show_version v) = show_version v"
proof (rule strip_no_space, intro ballI)
  fix c assume "c \<in> set (show_version v)"
  from version_chars [OF this] show "\<not> is_space c"
    by (auto simp: digit_not_space) (simp_all add: is_space_def)
qed

lemma lower_digit: "is_digit c \<Longrightarrow> lower_char c = c"
  by (auto simp: is_digit_def lower_char_def Let_def)

lemma version_lower: "lower (show_version v) = show_version v"
  unfolding lower_def
proof (rule map_idI)
  fix c assume "c \<in> set (show_version v)"
  from version_chars [OF this] show "lower_char c = c"
    by (auto simp: lower_digit) (simp_all add: lower_char_def)
qed

lemma show_int_no [simp]: "CHR ''.'' \<notin> set (show_int i)" "CHR ''v'' \<notin> set (show_int i)"
  using show_int_chars [of "CHR ''.''" i] show_int_chars [of "CHR ''v''" i]
  by (auto simp: is_digit_def Let_def)

lemma show_int_nonempty [simp]: "show_int i \<noteq> []"
  by (simp add: show_int_def)

lemma version_lstrip: "lstrip_v (show_version v) =
    show_int (pv_major v) @ ''.'' @ show_int (pv_minor v) @ ''.'' @ show_int (pv_patch v)"
proof -
  have "hd (show_int i) \<noteq> CHR ''v''" for i
    by (metis hd_in_set show_int_no(2) show_int_nonempty)
  then have "dropWhile (\<lambda>c. c = CHR ''v'') (show_int i @ s) = show_int i @ s" for i s
    by (cases "show_int i") (auto simp: show_int_nonempty [THEN notE], metis list.sel(1))
  then show ?thesis by (simp add: lstrip_v_def show_version_def)
qed

lemma parse_show_version [simp]: "parse_version (show_version v) = Inr v"
  by (simp add: parse_version_def version_strip version_lower version_lstrip split_on_append split_on_none)

lemma show_version_inj: "show_version a = show_version b \<Longrightarrow> a = b"
  by (metis parse_show_version sum.inject(2))

lemma normalize_show_version: "normalize_version (show_version v) = Inr (show_version v)"
  by (simp add: normalize_version_def version_strip)

lemma normalize_canonical: "normalize_version t = Inr s \<Longrightarrow> \<exists>v. s = show_version v"
  by (auto simp: normalize_version_def Let_def split: sum.splits if_splits)

lemma split_last_sep:
  assumes "a @ x # b = a' @ x # b'" "x \<notin> set b" "x \<notin> set b'"
  shows "a = a' \<and> b = b'"
proof -
  have t: "takeWhile (\<lambda>y. y \<noteq> x) (rev (c @ x # d)) = rev d" if "x \<notin> set d" for c d
  proof -
    have "takeWhile (\<lambda>y. y \<noteq> x) (rev d @ x # rev c) = rev d @ takeWhile (\<lambda>y. y \<noteq> x) (x # rev c)"
      using that by (intro takeWhile_append2) auto
    then show ?thesis by simp
  qed
  have "rev b = rev b'" using t [OF assms(2), of a] t [OF assms(3), of a'] assms(1) by simp
  with assms(1) show ?thesis by simp
qed

lemma storage_key_inj [simp]: "storage_key i v = storage_key j w \<longleftrightarrow> i = j \<and> v = w"
proof
  assume "storage_key i v = storage_key j w"
  moreover have "CHR ''@'' \<notin> set (show_version u)" for u
    using version_chars [of "CHR ''@''" u] by (auto simp: is_digit_def)
  ultimately show "i = j \<and> v = w"
    unfolding storage_key_def by (auto dest!: split_last_sep intro: show_version_inj)
qed simp

end
