(* ===== verification/PromptCatalogue.thy ===== *)
theory PromptCatalogue
  imports PromptRegistry
begin

text \<open>
  What the prompt registry promises, as a catalogue of definitions by prompt and version with an
  active version per prompt, and the proof that the registry's three dictionaries implement it.
\<close>

section \<open>The catalogue\<close>

text \<open>
  What the registry promises: the definitions by prompt and version, with the version that is
  active for each prompt. The default flag of a stored definition is not part of it; it is read
  off the active version.
\<close>

record catalogue =
  ct_defs :: "string \<Rightarrow> prompt_version \<Rightarrow> prompt_definition option"
  ct_active :: "string \<Rightarrow> prompt_version option"

definition unflag :: "prompt_definition \<Rightarrow> prompt_definition" where
  "unflag p = p\<lparr>pd_is_default := False\<rparr>"

definition ct_versions :: "catalogue \<Rightarrow> string \<Rightarrow> prompt_version set" where
  "ct_versions c i = {v. ct_defs c i v \<noteq> None}"

definition with_flag :: "catalogue \<Rightarrow> string \<Rightarrow> prompt_version \<Rightarrow> prompt_definition option" where
  "with_flag c i v = map_option (\<lambda>p. p\<lparr>pd_is_default := (ct_active c i = Some v)\<rparr>) (ct_defs c i v)"

definition spec_register ::
    "bool \<Rightarrow> prompt_definition \<Rightarrow> catalogue \<Rightarrow> (registry_error + prompt_definition option) \<times> catalogue" where
  "spec_register ok p c =
     (case validate_prompt p of
        Inl e \<Rightarrow> (Inl e, c)
      | Inr p' \<Rightarrow>
          (case parse_version (pd_version p') of
             Inl e \<Rightarrow> (Inl e, c)
           | Inr v \<Rightarrow>
               (let i = pd_prompt_id p' in
                if v \<in> ct_versions c i
                then (Inl (VersionConflict (''Version '' @ show_version v @ '' already exists for prompt '' @ i)), c)
                else (let c' = \<lparr>ct_defs = (ct_defs c)(i := (ct_defs c i)(v \<mapsto> unflag p')),
                               ct_active = (if pd_is_default p' \<or> ct_active c i = None
                                            then (ct_active c)(i \<mapsto> v) else ct_active c)\<rparr>
                      in (saved ok (with_flag c' i v), c')))))"

definition spec_get :: "string \<Rightarrow> string option \<Rightarrow> catalogue \<Rightarrow> registry_error + prompt_definition" where
  "spec_get i ver c =
     (if ct_versions c i = {} then Inl (not_found i)
      else (case ver of
        None \<Rightarrow> (case ct_active c i of None \<Rightarrow> Inl (not_found i)
                | Some v \<Rightarrow> (case with_flag c i v of
                     None \<Rightarrow> Inl (version_not_found (show_version v) i) | Some p \<Rightarrow> Inr p))
      | Some t \<Rightarrow> rbind (parse_version t) (\<lambda>v. case with_flag c i v of
                     None \<Rightarrow> Inl (version_not_found t i) | Some p \<Rightarrow> Inr p)))"

definition spec_set_active ::
    "bool \<Rightarrow> string \<Rightarrow> string \<Rightarrow> catalogue \<Rightarrow> (registry_error + bool) \<times> catalogue" where
  "spec_set_active ok i ver c =
     (if ct_versions c i = {} then (Inl (not_found i), c)
      else (case parse_version ver of
        Inl e \<Rightarrow> (Inl e, c)
      | Inr v \<Rightarrow>
          if v \<notin> ct_versions c i then (Inl (version_not_found ver i), c)
          else (saved ok True, c\<lparr>ct_active := (ct_active c)(i \<mapsto> v)\<rparr>)))"

text \<open>Removing versions: the active version becomes the newest left when it is removed itself.\<close>

definition spec_remove :: "string \<Rightarrow> prompt_version set \<Rightarrow> catalogue \<Rightarrow> catalogue" where
  "spec_remove i vs c =
     (let left = ct_versions c i - vs in
      \<lparr>ct_defs = (ct_defs c)(i := (ct_defs c i) |` left),
       ct_active = (ct_active c)(i :=
         (case ct_active c i of None \<Rightarrow> None
          | Some a \<Rightarrow> if a \<in> left then Some a else if left = {} then None else Some (Max left)))\<rparr>)"

definition spec_retire ::
    "bool \<Rightarrow> string \<Rightarrow> string option \<Rightarrow> catalogue \<Rightarrow> (registry_error + bool) \<times> catalogue" where
  "spec_retire ok i ver c =
     (if ct_versions c i = {} then (Inl (not_found i), c)
      else (case ver of
        None \<Rightarrow> (saved ok True, spec_remove i (ct_versions c i) c)
      | Some t \<Rightarrow>
          (case parse_version t of
             Inl e \<Rightarrow> (Inl e, c)
           | Inr v \<Rightarrow> if v \<notin> ct_versions c i then (Inl (version_not_found t i), c)
                     else (saved ok True, spec_remove i {v} c))))"

section \<open>The invariant and the abstraction\<close>

definition stored :: "registry \<Rightarrow> string \<Rightarrow> prompt_version \<Rightarrow> prompt_definition option" where
  "stored rg i v = dget (rg_prompts rg) (storage_key i v)"

text \<open>The part of the invariant that does not mention the default flags, and the flags of a prompt.\<close>

definition registry_base :: "registry \<Rightarrow> bool" where
  "registry_base rg \<longleftrightarrow>
     (\<forall>i v. dget (versions_of rg i) v = (if stored rg i v = None then None else Some (storage_key i v)))
     \<and> (\<forall>i. dict_ok (versions_of rg i) \<and> dget (rg_version_index rg) i \<noteq> Some [])
     \<and> (\<forall>i v p. stored rg i v = Some p \<longrightarrow> pd_prompt_id p = i \<and> parse_version (pd_version p) = Inr v)
     \<and> (\<forall>i v. dget (rg_active_versions rg) i = Some v \<longrightarrow> stored rg i v \<noteq> None)
     \<and> (\<forall>i v. stored rg i v \<noteq> None \<longrightarrow> dget (rg_active_versions rg) i \<noteq> None)
     \<and> (\<forall>k. dget (rg_prompts rg) k \<noteq> None \<longrightarrow> (\<exists>i v. k = storage_key i v))"

definition flags_ok :: "registry \<Rightarrow> string \<Rightarrow> bool" where
  "flags_ok rg i \<longleftrightarrow>
     (\<forall>v p. stored rg i v = Some p \<longrightarrow> pd_is_default p = (dget (rg_active_versions rg) i = Some v))"

definition registry_ok :: "registry \<Rightarrow> bool" where
  "registry_ok rg \<longleftrightarrow> registry_base rg \<and> (\<forall>i. flags_ok rg i)"

lemma registry_baseD:
  assumes "registry_base rg"
  shows "dget (versions_of rg i) v = (if stored rg i v = None then None else Some (storage_key i v))"
    and "dict_ok (versions_of rg i)" "dget (rg_version_index rg) i \<noteq> Some []"
    and "stored rg i v = Some p \<Longrightarrow> pd_prompt_id p = i \<and> parse_version (pd_version p) = Inr v"
    and "dget (rg_active_versions rg) i = Some v \<Longrightarrow> stored rg i v \<noteq> None"
    and "stored rg i v \<noteq> None \<Longrightarrow> dget (rg_active_versions rg) i \<noteq> None"
    and "dget (rg_prompts rg) k \<noteq> None \<Longrightarrow> \<exists>i v. k = storage_key i v"
  using assms unfolding registry_base_def by blast+

lemma registry_okI: "registry_base rg \<Longrightarrow> (\<And>i. flags_ok rg i) \<Longrightarrow> registry_ok rg"
  by (simp add: registry_ok_def)

lemma registry_ok_base: "registry_ok rg \<Longrightarrow> registry_base rg"
  by (simp add: registry_ok_def)

lemma registry_ok_flags: "registry_ok rg \<Longrightarrow> flags_ok rg i"
  by (simp add: registry_ok_def)

lemmas registry_okD = registry_baseD [OF registry_ok_base]

definition catalogue_of :: "registry \<Rightarrow> catalogue" where
  "catalogue_of rg =
     \<lparr>ct_defs = (\<lambda>i v. map_option unflag (stored rg i v)), ct_active = dget (rg_active_versions rg)\<rparr>"

lemma catalogue_sel [simp]:
  "ct_defs (catalogue_of rg) i v = map_option unflag (stored rg i v)"
  "ct_active (catalogue_of rg) = dget (rg_active_versions rg)"
  by (simp_all add: catalogue_of_def)

lemma ct_versions_of: "v \<in> ct_versions (catalogue_of rg) i \<longleftrightarrow> stored rg i v \<noteq> None"
  by (simp add: ct_versions_def)

lemma in_dkeys: "k \<in> set (dkeys d) \<longleftrightarrow> dget d k \<noteq> None"
  by (simp add: dget_None_iff)

lemma versions_keys:
  assumes "registry_ok rg"
  shows "set (dkeys (versions_of rg i)) = ct_versions (catalogue_of rg) i"
  by (intro set_eqI) (simp only: in_dkeys ct_versions_of registry_okD(1) [OF assms], simp)

lemma versions_empty:
  assumes "registry_ok rg"
  shows "versions_of rg i = [] \<longleftrightarrow> ct_versions (catalogue_of rg) i = {}"
  using versions_keys [OF assms, of i] by (cases "versions_of rg i") (auto simp: dkeys_def)

lemma in_index:
  assumes "registry_ok rg"
  shows "dhas (rg_version_index rg) i \<longleftrightarrow> ct_versions (catalogue_of rg) i \<noteq> {}"
  using versions_empty [OF assms, of i] registry_okD(3) [OF assms, of i]
  by (cases "dget (rg_version_index rg) i") (simp_all add: dhas_def versions_of_def del: dhas_iff)

lemma has_version:
  "registry_ok rg \<Longrightarrow> dhas (versions_of rg i) v \<longleftrightarrow> v \<in> ct_versions (catalogue_of rg) i"
  by (simp only: dhas_iff versions_keys)

lemma with_flag_stored:
  assumes "registry_ok rg" shows "with_flag (catalogue_of rg) i v = stored rg i v"
  using registry_ok_flags [OF assms, of i]
  by (cases "stored rg i v") (auto simp: with_flag_def unflag_def flags_ok_def)

lemma get_refines:
  assumes ok: "registry_ok rg" shows "get_prompt i ver rg = spec_get i ver (catalogue_of rg)"
proof (cases "ct_versions (catalogue_of rg) i = {}")
  case True
  with versions_empty [OF ok] show ?thesis by (simp add: get_prompt_def spec_get_def not_found_def)
next
  case False
  then obtain v where v: "stored rg i v \<noteq> None"
    unfolding ex_in_conv [symmetric] ct_versions_of by blast
  have ne: "versions_of rg i \<noteq> []" using False versions_empty [OF ok] by blast
  from registry_okD(6) [OF ok v] obtain a where a: "dget (rg_active_versions rg) i = Some a" by auto
  with registry_okD(5) [OF ok a] obtain p where p: "stored rg i a = Some p" by auto
  have k: "dget (rg_prompts rg) (storage_key i w) = stored rg i w" for w by (simp add: stored_def)
  show ?thesis
  proof (cases ver)
    case None
    with False ne a p show ?thesis
      by (simp add: get_prompt_def spec_get_def with_flag_stored [OF ok] registry_okD(1) [OF ok] k)
  next
    case (Some t)
    show ?thesis
    proof (cases "parse_version t")
      case (Inl e)
      with Some False ne show ?thesis by (simp add: get_prompt_def spec_get_def)
    next
      case (Inr w)
      have "t \<noteq> []" using Inr by (auto simp: parse_version_def lstrip_v_def strip_def lower_def)
      with Some Inr False ne show ?thesis
        by (simp add: get_prompt_def spec_get_def with_flag_stored [OF ok] registry_okD(1) [OF ok] k
            version_not_found_def split: option.splits)
    qed
  qed
qed

section \<open>Synchronising the flags\<close>

definition flagged :: "prompt_version option \<Rightarrow> prompt_version \<Rightarrow> prompt_definition \<Rightarrow> prompt_definition" where
  "flagged act v p = p\<lparr>pd_is_default := (act = Some v)\<rparr>"

lemma flagged_idem [simp]: "flagged a v (flagged a v p) = flagged a v p"
  by (simp add: flagged_def)

lemma set_flag_get:
  "dget (set_flag act (v, k) ps) k' = (if k' = k then map_option (flagged act v) (dget ps k) else dget ps k')"
  by (cases "dget ps k") (auto simp: set_flag_def flagged_def dget_dset)

lemma sync_fold:
  "\<forall>(v, k) \<in> set vs. k = storage_key i v \<Longrightarrow>
     dget (fold (set_flag act) vs ps) (storage_key j w) =
       (if j = i \<and> w \<in> set (dkeys vs) then map_option (flagged act w) (dget ps (storage_key j w))
        else dget ps (storage_key j w))"
proof (induction vs arbitrary: ps)
  case (Cons x vs)
  obtain v k where x: "x = (v, k)" by (cases x)
  with Cons.prems have k: "k = storage_key i v" by simp
  show ?case
    unfolding fold_Cons comp_apply x
    by (subst Cons.IH) (use Cons.prems in \<open>auto simp: set_flag_get k option.map_comp comp_def\<close>)
qed simp

lemma sync_fold_dom: "dget (fold (set_flag act) vs ps) k = None \<longleftrightarrow> dget ps k = None"
  by (induction vs arbitrary: ps) (auto simp: set_flag_get split_paired_all)

lemma sync_simps [simp]:
  "rg_version_index (sync_default_flags i rg) = rg_version_index rg"
  "rg_active_versions (sync_default_flags i rg) = rg_active_versions rg"
  "versions_of (sync_default_flags i rg) j = versions_of rg j"
  by (simp_all add: sync_default_flags_def versions_of_def)

lemma sync_stored:
  assumes "registry_base rg"
  shows "stored (sync_default_flags i rg) j w =
    (if j = i then map_option (flagged (dget (rg_active_versions rg) i) w) (stored rg j w) else stored rg j w)"
proof -
  have "\<forall>(v, k) \<in> set (versions_of rg i). k = storage_key i v"
  proof (intro ballI, clarify)
    fix v k assume "(v, k) \<in> set (versions_of rg i)"
    with registry_baseD(2) [OF assms] have "dget (versions_of rg i) v = Some k" by (rule dget_SomeI)
    with registry_baseD(1) [OF assms, of i v] show "k = storage_key i v" by (simp split: if_splits)
  qed
  from sync_fold [OF this, of "dget (rg_active_versions rg) i" "rg_prompts rg" j w]
  show ?thesis
    using registry_baseD(1) [OF assms, of i w]
    by (auto simp: stored_def sync_default_flags_def in_dkeys)
qed

lemma sync_ok:
  assumes b: "registry_base rg" and f: "\<And>j. j \<noteq> i \<Longrightarrow> flags_ok rg j"
  shows "registry_ok (sync_default_flags i rg)"
proof -
  note st = sync_stored [OF b, of i]
  have n: "stored (sync_default_flags i rg) j w = None \<longleftrightarrow> stored rg j w = None" for j w
    by (simp add: st)
  have "registry_base (sync_default_flags i rg)"
    unfolding registry_base_def n sync_simps
  proof (intro conjI allI impI)
    fix j v p assume "stored (sync_default_flags i rg) j v = Some p"
    then show "pd_prompt_id p = j" "parse_version (pd_version p) = Inr v"
      using registry_baseD(4) [OF b, of j v] by (auto simp: st flagged_def split: if_splits)
  next
    fix k assume "dget (rg_prompts (sync_default_flags i rg)) k \<noteq> None"
    then have "dget (rg_prompts rg) k \<noteq> None"
      by (simp add: sync_default_flags_def sync_fold_dom del: not_None_eq)
    then show "\<exists>i v. k = storage_key i v" by (rule registry_baseD(7) [OF b])
  qed (use registry_baseD [OF b] in \<open>blast+\<close>)
  moreover have "flags_ok (sync_default_flags i rg) j" for j
  proof (cases "j = i")
    case True
    then show ?thesis by (auto simp: flags_ok_def st flagged_def)
  next
    case False
    with f [OF False] show ?thesis by (simp add: flags_ok_def st)
  qed
  ultimately show ?thesis by (simp add: registry_ok_def)
qed

lemma sync_catalogue:
  "registry_base rg \<Longrightarrow> catalogue_of (sync_default_flags i rg) = catalogue_of rg"
  by (auto simp: catalogue_of_def sync_stored fun_eq_iff option.map_comp comp_def unflag_def flagged_def
      intro!: option.map_cong0)

section \<open>Each operation refines its specification\<close>

lemma add_simps:
  "stored (add_version p v rg) j w =
     (if j = pd_prompt_id p \<and> w = v then Some p else stored rg j w)"
  "versions_of (add_version p v rg) j =
     (if j = pd_prompt_id p then dset v (storage_key j v) (versions_of rg j) else versions_of rg j)"
  "rg_active_versions (add_version p v rg) = rg_active_versions rg"
  by (simp_all add: add_version_def stored_def versions_of_def Let_def dget_dset)

lemma activate_simps [simp]:
  "stored (activate i v rg) j w = stored rg j w"
  "versions_of (activate i v rg) j = versions_of rg j"
  "rg_version_index (activate i v rg) = rg_version_index rg"
  "rg_prompts (activate i v rg) = rg_prompts rg"
  "dget (rg_active_versions (activate i v rg)) j = (if j = i then Some v else dget (rg_active_versions rg) j)"
  by (simp_all add: activate_def stored_def versions_of_def dget_dset)

lemma dset_nonempty [simp]: "dset k v d \<noteq> []"
  by (cases d) (auto simp: dset_def)

lemma add_base:
  assumes b: "registry_base rg" and v: "parse_version (pd_version p) = Inr v" and i: "pd_prompt_id p = i"
    and n: "stored rg i v = None"
    and r: "rg' = (if c \<or> dget (rg_active_versions rg) i = None then activate i v (add_version p v rg)
                   else add_version p v rg)"
  shows "registry_base rg'"
proof -
  have s: "stored rg' j w = (if j = i \<and> w = v then Some p else stored rg j w)" for j w
    by (simp add: r add_simps i)
  have vs: "versions_of rg' j = (if j = i then dset v (storage_key j v) (versions_of rg j) else versions_of rg j)" for j
    by (simp add: r add_simps i)
  have ac: "dget (rg_active_versions rg') j =
      (if j = i \<and> (c \<or> dget (rg_active_versions rg) i = None) then Some v else dget (rg_active_versions rg) j)" for j
    by (simp add: r add_simps i)
  note d = registry_baseD [OF b]
  show ?thesis
    unfolding registry_base_def
  proof (intro conjI allI impI)
    fix j w
    show "dget (versions_of rg' j) w = (if stored rg' j w = None then None else Some (storage_key j w))"
      using d(1) [of j w] by (auto simp: s vs dget_dset split: if_splits)
    show "dict_ok (versions_of rg' j)" using d(2) [of j] by (auto simp: vs)
    show "dget (rg_version_index rg') j \<noteq> Some []"
      using d(3) [of j] by (simp add: r add_version_def Let_def activate_def dget_dset)
  next
    fix j w q assume "stored rg' j w = Some q"
    then show "pd_prompt_id q = j" "parse_version (pd_version q) = Inr w"
      using d(4) [of j w q] v i by (auto simp: s split: if_splits)
  next
    fix j w assume "dget (rg_active_versions rg') j = Some w"
    then show "stored rg' j w \<noteq> None" using d(5) [of j w] by (auto simp: s ac split: if_splits)
  next
    fix j w assume "stored rg' j w \<noteq> None"
    then show "dget (rg_active_versions rg') j \<noteq> None"
      using d(6) [of j w] by (auto simp: s ac split: if_splits)
  next
    fix k assume "dget (rg_prompts rg') k \<noteq> None"
    then have "k = storage_key i v \<or> dget (rg_prompts rg) k \<noteq> None"
      by (auto simp: r add_version_def Let_def activate_def i dget_dset split: if_splits)
    then show "\<exists>j w. k = storage_key j w" using d(7) [of k] by blast
  qed
qed

lemma validate_keeps:
  assumes "validate_prompt p = Inr p'"
  shows "pd_prompt_id p' = pd_prompt_id p" "pd_version p' = pd_version p"
  using assms by (auto simp: validate_prompt_def Let_def split: if_splits sum.splits)

lemma register_refines:
  assumes ok: "registry_ok rg"
  shows "registry_ok (snd (register_prompt w p rg))
    \<and> spec_register w p (catalogue_of rg) = (fst (register_prompt w p rg), catalogue_of (snd (register_prompt w p rg)))"
proof (cases "validate_prompt p")
  case (Inl e)
  with ok show ?thesis by (simp add: register_prompt_def spec_register_def)
next
  case (Inr p')
  show ?thesis
  proof (cases "parse_version (pd_version p')")
    case (Inl e)
    with ok Inr show ?thesis by (simp add: register_prompt_def spec_register_def)
  next
    case v: (Inr v)
    let ?i = "pd_prompt_id p'"
    show ?thesis
    proof (cases "dhas (versions_of rg ?i) v")
      case True
      with has_version [OF ok, of ?i v] Inr v ok show ?thesis
        by (simp add: register_prompt_def spec_register_def del: dhas_iff)
    next
      case False
      let ?new = "pd_is_default p' \<or> dget (rg_active_versions rg) ?i = None"
      define rg2 where "rg2 = (if ?new then activate ?i v (add_version p' v rg) else add_version p' v rg)"
      have n: "v \<notin> ct_versions (catalogue_of rg) ?i" using False has_version [OF ok] by blast
      then have n': "stored rg ?i v = None" unfolding ct_versions_of by simp
      note b = registry_ok_base [OF ok]
      have b2: "registry_base rg2"
        using add_base [OF b v refl n' rg2_def] .
      have s: "stored rg2 j w = (if j = ?i \<and> w = v then Some p' else stored rg j w)" for j w
        by (simp add: rg2_def add_simps)
      have ac: "dget (rg_active_versions rg2) j =
          (if j = ?i \<and> ?new then Some v else dget (rg_active_versions rg) j)" for j
        by (simp add: rg2_def add_simps)
      have "flags_ok rg2 j" if "j \<noteq> ?i" for j
        using registry_ok_flags [OF ok, of j] that by (simp add: flags_ok_def s ac)
      then have ok3: "registry_ok (sync_default_flags ?i rg2)" by (rule sync_ok [OF b2])
      have r: "register_prompt w p rg
          = (saved w (stored (sync_default_flags ?i rg2) ?i v), sync_default_flags ?i rg2)"
        using Inr v False
        by (simp add: register_prompt_def Let_def rg2_def add_simps stored_def dhas_def del: dhas_iff)
      have c: "catalogue_of (sync_default_flags ?i rg2) =
          \<lparr>ct_defs = (ct_defs (catalogue_of rg))(?i := (ct_defs (catalogue_of rg) ?i)(v \<mapsto> unflag p')),
           ct_active = (if ?new then (ct_active (catalogue_of rg))(?i \<mapsto> v) else ct_active (catalogue_of rg))\<rparr>"
        unfolding sync_catalogue [OF b2] by (auto simp: catalogue_of_def s ac fun_eq_iff)
      have g: "with_flag (catalogue_of (sync_default_flags ?i rg2)) ?i v = stored (sync_default_flags ?i rg2) ?i v"
        by (rule with_flag_stored [OF ok3])
      show ?thesis
        using Inr v n ok3 g by (simp add: spec_register_def r c [symmetric] Let_def)
    qed
  qed
qed

lemma set_active_refines:
  assumes ok: "registry_ok rg"
  shows "registry_ok (snd (set_active_version w i t rg))
    \<and> spec_set_active w i t (catalogue_of rg)
        = (fst (set_active_version w i t rg), catalogue_of (snd (set_active_version w i t rg)))"
proof (cases "dhas (rg_version_index rg) i \<and> (\<exists>v. parse_version t = Inr v \<and> dhas (versions_of rg i) v)")
  case False
  with ok show ?thesis
    by (auto simp: set_active_version_def spec_set_active_def in_index [OF ok] has_version [OF ok]
        simp del: dhas_iff split: sum.splits)
next
  case True
  then obtain v where v: "parse_version t = Inr v" "v \<in> ct_versions (catalogue_of rg) i"
    using has_version [OF ok] by blast
  note b = registry_ok_base [OF ok] and d = registry_okD [OF ok]
  have "registry_base (activate i v rg)"
    using v(2) d unfolding registry_base_def ct_versions_of by (simp add: ct_versions_of) blast
  moreover have "flags_ok (activate i v rg) j" if "j \<noteq> i" for j
    using registry_ok_flags [OF ok, of j] that by (simp add: flags_ok_def)
  moreover have "catalogue_of (activate i v rg)
      = (catalogue_of rg)\<lparr>ct_active := (ct_active (catalogue_of rg))(i \<mapsto> v)\<rparr>"
    by (auto simp: catalogue_of_def fun_eq_iff)
  ultimately show ?thesis
    using True v
    by (auto simp: set_active_version_def spec_set_active_def sync_ok sync_catalogue in_index [OF ok]
        simp del: dhas_iff)
qed

section \<open>Retiring\<close>

lemma fold_ddel: "dget (fold ddel ks d) k = (if k \<in> set ks then None else dget d k)"
  by (induction ks arbitrary: d) (simp_all add: dget_ddel)

lemma snd_versions:
  assumes "registry_base rg"
  shows "storage_key j w \<in> set (map snd (versions_of rg i)) \<longleftrightarrow> j = i \<and> stored rg i w \<noteq> None"
proof
  assume "storage_key j w \<in> set (map snd (versions_of rg i))"
  then obtain v where "(v, storage_key j w) \<in> set (versions_of rg i)" by auto
  with registry_baseD(2) [OF assms] have "dget (versions_of rg i) v = Some (storage_key j w)" by (rule dget_SomeI)
  with registry_baseD(1) [OF assms, of i v] show "j = i \<and> stored rg i w \<noteq> None" by (auto split: if_splits)
next
  assume a: "j = i \<and> stored rg i w \<noteq> None"
  with registry_baseD(1) [OF assms, of i w] have "dget (versions_of rg i) w = Some (storage_key j w)" by auto
  from dget_SomeD [OF this] show "storage_key j w \<in> set (map snd (versions_of rg i))" by force
qed

lemma newest_Max: "vs \<noteq> [] \<Longrightarrow> newest vs = Max (set (dkeys vs))"
proof -
  assume "vs \<noteq> []"
  then obtain v ws where v: "dkeys vs = v # ws" by (cases vs) (auto simp: dkeys_def)
  have "fold max ws v = Max (set (v # ws))" by (rule Max.set_eq_fold [symmetric])
  with v show ?thesis by (simp add: newest_def del: list.set)
qed

lemma retire_all_refines:
  assumes ok: "registry_ok rg"
  shows "registry_ok (retire_all i rg)"
    "catalogue_of (retire_all i rg) = spec_remove i (ct_versions (catalogue_of rg) i) (catalogue_of rg)"
proof -
  note b = registry_ok_base [OF ok]
  note d = registry_baseD [OF b]
  have s: "stored (retire_all i rg) j w = (if j = i then None else stored rg j w)" for j w
    using snd_versions [OF b, of j w i] by (auto simp: stored_def retire_all_def fold_ddel)
  have vs: "versions_of (retire_all i rg) j = (if j = i then [] else versions_of rg j)" for j
    by (simp add: versions_of_def retire_all_def dget_ddel)
  have ac: "dget (rg_active_versions (retire_all i rg)) j
      = (if j = i then None else dget (rg_active_versions rg) j)" for j
    by (simp add: retire_all_def dget_ddel)
  have "registry_base (retire_all i rg)"
    unfolding registry_base_def
  proof (intro conjI allI impI)
    fix k assume "dget (rg_prompts (retire_all i rg)) k \<noteq> None"
    then have "dget (rg_prompts rg) k \<noteq> None" by (simp add: retire_all_def fold_ddel split: if_splits)
    then show "\<exists>j w. k = storage_key j w" by (rule d(7))
  next
    fix j w p assume "stored (retire_all i rg) j w = Some p"
    then show "pd_prompt_id p = j" "parse_version (pd_version p) = Inr w"
      using d(4) [of j w p] by (auto simp: s split: if_splits)
  next
    fix j show "dget (rg_version_index (retire_all i rg)) j \<noteq> Some []"
      using d(3) [of j] by (simp add: retire_all_def dget_ddel)
  qed (use d(1,2,5,6) in \<open>auto simp: s vs ac split: if_splits\<close>)
  moreover have "flags_ok (retire_all i rg) j" for j
    using registry_ok_flags [OF ok, of j] by (simp add: flags_ok_def s ac)
  ultimately show "registry_ok (retire_all i rg)" by (rule registry_okI)
  show "catalogue_of (retire_all i rg) = spec_remove i (ct_versions (catalogue_of rg) i) (catalogue_of rg)"
    by (auto simp: catalogue_of_def spec_remove_def Let_def fun_eq_iff s ac split: option.splits)
qed

lemma registry_eta:
  "rg\<lparr>rg_version_index := x, rg_prompts := y\<rparr>
     = \<lparr>rg_prompts = y, rg_version_index = x, rg_active_versions = rg_active_versions rg\<rparr>"
  "rg\<lparr>rg_version_index := x, rg_prompts := y, rg_active_versions := z\<rparr>
     = \<lparr>rg_prompts = y, rg_version_index = x, rg_active_versions = z\<rparr>"
  by (cases rg; simp)+

lemma retire_version_refines:
  assumes ok: "registry_ok rg" and k: "dget (versions_of rg i) v = Some k"
  shows "registry_ok (retire_version i v k rg)"
    "catalogue_of (retire_version i v k rg) = spec_remove i {v} (catalogue_of rg)"
proof -
  note b = registry_ok_base [OF ok]
  note d = registry_baseD [OF b]
  have kv: "k = storage_key i v" and v: "stored rg i v \<noteq> None"
    using d(1) [of i v] k by (auto split: if_splits)
  from d(6) [OF v] obtain a where a: "dget (rg_active_versions rg) i = Some a" by auto
  define vs where "vs = ddel v (versions_of rg i)"
  define left where "left = ct_versions (catalogue_of rg) i - {v}"
  have left: "set (dkeys vs) = left"
    using versions_keys [OF ok, of i] by (simp add: vs_def left_def)
  then have e: "vs = [] \<longleftrightarrow> left = {}" by (cases vs) (auto simp: dkeys_def)
  define act where "act = (if a = v then (if vs \<noteq> [] then Some (newest vs) else None) else Some a)"
  define rg2 where "rg2 = \<lparr>rg_prompts = ddel k (rg_prompts rg),
      rg_version_index = (if vs = [] then ddel i (dset i vs (rg_version_index rg)) else dset i vs (rg_version_index rg)),
      rg_active_versions = (if a = v then (if vs \<noteq> [] then dset i (newest vs) (rg_active_versions rg)
         else ddel i (rg_active_versions rg)) else rg_active_versions rg)\<rparr>"
  have s: "stored rg2 j w = (if j = i \<and> w = v then None else stored rg j w)" for j w
    by (simp add: stored_def rg2_def kv dget_ddel)
  have vo: "versions_of rg2 j = (if j = i then vs else versions_of rg j)" for j
    by (simp add: versions_of_def rg2_def dget_ddel dget_dset)
  have ac: "dget (rg_active_versions rg2) j = (if j = i then act else dget (rg_active_versions rg) j)" for j
    by (auto simp: rg2_def act_def a dget_ddel dget_dset)
  have r: "retire_version i v k rg = sync_default_flags i rg2"
  proof (cases "vs = []")
    case True
    then have "sync_default_flags i rg2 = rg2" by (simp add: sync_default_flags_def vo)
    with True show ?thesis by (simp add: retire_version_def Let_def vs_def [symmetric] a rg2_def)
  next
    case False
    then show ?thesis
      by (simp add: retire_version_def Let_def vs_def [symmetric] a rg2_def registry_eta)
  qed
  have st: "w \<in> left \<longleftrightarrow> w \<noteq> v \<and> stored rg i w \<noteq> None" for w
    by (auto simp: left_def ct_versions_of)
  have ne: "a \<in> left \<longleftrightarrow> a \<noteq> v" using d(5) [OF a] by (auto simp: st)
  have fin: "finite left" by (simp flip: left)
  have act': "act = (if a \<in> left then Some a else if left = {} then None else Some (Max left))"
    using e ne by (auto simp: act_def newest_Max left)
  have am: "w \<in> left" if "act = Some w" for w
    using that Max_in [OF fin] by (auto simp: act' split: if_splits)
  have "registry_base rg2"
    unfolding registry_base_def
  proof (intro conjI allI impI)
    fix j w
    show "dget (versions_of rg2 j) w = (if stored rg2 j w = None then None else Some (storage_key j w))"
      using d(1) [of j w] by (auto simp: s vo vs_def dget_ddel split: if_splits)
    show "dict_ok (versions_of rg2 j)" using d(2) [of j] by (auto simp: vo vs_def)
    show "dget (rg_version_index rg2) j \<noteq> Some []"
      using d(3) [of j] by (auto simp: rg2_def dget_ddel dget_dset)
  next
    fix j w p assume "stored rg2 j w = Some p"
    then show "pd_prompt_id p = j" "parse_version (pd_version p) = Inr w"
      using d(4) [of j w p] by (auto simp: s split: if_splits)
  next
    fix j w assume "dget (rg_active_versions rg2) j = Some w"
    then show "stored rg2 j w \<noteq> None"
      using d(5) [of j w] am [of w] st [of w] by (auto simp: s ac split: if_splits)
  next
    fix j w assume w: "stored rg2 j w \<noteq> None"
    then have "j = i \<Longrightarrow> w \<in> left" by (auto simp: s st split: if_splits)
    then have "j = i \<Longrightarrow> act \<noteq> None" by (auto simp: act')
    with w show "dget (rg_active_versions rg2) j \<noteq> None"
      using d(6) [of j w] by (auto simp: s ac split: if_splits)
  next
    fix k' assume "dget (rg_prompts rg2) k' \<noteq> None"
    then have "dget (rg_prompts rg) k' \<noteq> None" by (simp add: rg2_def dget_ddel split: if_splits)
    then show "\<exists>j w. k' = storage_key j w" by (rule d(7))
  qed
  note b2 = this
  have "flags_ok rg2 j" if "j \<noteq> i" for j
    using registry_ok_flags [OF ok, of j] that by (simp add: flags_ok_def s ac)
  then show "registry_ok (retire_version i v k rg)" unfolding r by (rule sync_ok [OF b2])
  have "ct_defs (catalogue_of rg2) = (ct_defs (catalogue_of rg))(i := (ct_defs (catalogue_of rg) i) |` left)"
    by (auto simp: fun_eq_iff s restrict_map_def st)
  moreover have "ct_active (catalogue_of rg2) = (ct_active (catalogue_of rg))(i := act)"
    by (auto simp: ac)
  ultimately show "catalogue_of (retire_version i v k rg) = spec_remove i {v} (catalogue_of rg)"
    unfolding r sync_catalogue [OF b2] by (simp add: spec_remove_def Let_def left_def [symmetric] a act')
qed

lemma retire_refines:
  assumes ok: "registry_ok rg"
  shows "registry_ok (snd (retire_prompt w i t rg))
    \<and> spec_retire w i t (catalogue_of rg) = (fst (retire_prompt w i t rg), catalogue_of (snd (retire_prompt w i t rg)))"
proof (cases "dhas (rg_version_index rg) i")
  case False
  with ok show ?thesis by (simp add: retire_prompt_def spec_retire_def in_index [OF ok] del: dhas_iff)
next
  case h: True
  then have ne: "ct_versions (catalogue_of rg) i \<noteq> {}" by (simp add: in_index [OF ok] del: dhas_iff)
  show ?thesis
  proof (cases t)
    case None
    with h ne retire_all_refines [OF ok] show ?thesis
      by (simp add: retire_prompt_def spec_retire_def del: dhas_iff)
  next
    case t: (Some s)
    show ?thesis
    proof (cases "parse_version s")
      case (Inl e)
      with t h ne ok show ?thesis by (simp add: retire_prompt_def spec_retire_def del: dhas_iff)
    next
      case v: (Inr v)
      show ?thesis
      proof (cases "dget (versions_of rg i) v")
        case None
        then have "v \<notin> ct_versions (catalogue_of rg) i"
          using has_version [OF ok, of i v] by (simp add: dhas_def del: dhas_iff)
        with None t v h ne ok show ?thesis by (simp add: retire_prompt_def spec_retire_def del: dhas_iff)
      next
        case (Some k)
        then have "v \<in> ct_versions (catalogue_of rg) i"
          using has_version [OF ok, of i v] by (simp add: dhas_def del: dhas_iff)
        with Some t v h ne retire_version_refines [OF ok Some] show ?thesis
          by (simp add: retire_prompt_def spec_retire_def del: dhas_iff)
      qed
    qed
  qed
qed

section \<open>Runs of the registry\<close>

datatype registry_op =
    RegisterPrompt bool prompt_definition
  | SetActive bool string string
  | RetirePrompt bool string "string option"

datatype registry_answer = AFailed registry_error | AStored "prompt_definition option" | ADone bool

definition answer :: "('a \<Rightarrow> registry_answer) \<Rightarrow> (registry_error + 'a) \<times> 's \<Rightarrow> registry_answer \<times> 's" where
  "answer f = (\<lambda>(r, s). (case r of Inl e \<Rightarrow> AFailed e | Inr x \<Rightarrow> f x, s))"

fun registry_step :: "registry_op \<Rightarrow> registry \<Rightarrow> registry_answer \<times> registry" where
  "registry_step (RegisterPrompt w p) rg = answer AStored (register_prompt w p rg)"
| "registry_step (SetActive w i t) rg = answer ADone (set_active_version w i t rg)"
| "registry_step (RetirePrompt w i t) rg = answer ADone (retire_prompt w i t rg)"

fun spec_step :: "registry_op \<Rightarrow> catalogue \<Rightarrow> registry_answer \<times> catalogue" where
  "spec_step (RegisterPrompt w p) c = answer AStored (spec_register w p c)"
| "spec_step (SetActive w i t) c = answer ADone (spec_set_active w i t c)"
| "spec_step (RetirePrompt w i t) c = answer ADone (spec_retire w i t c)"

fun registry_run :: "registry_op list \<Rightarrow> registry \<Rightarrow> registry_answer list \<times> registry" where
  "registry_run [] rg = ([], rg)"
| "registry_run (op # ops) rg =
     (let (r, rg1) = registry_step op rg; (rs, rg2) = registry_run ops rg1 in (r # rs, rg2))"

fun spec_run :: "registry_op list \<Rightarrow> catalogue \<Rightarrow> registry_answer list \<times> catalogue" where
  "spec_run [] c = ([], c)"
| "spec_run (op # ops) c = (let (r, c1) = spec_step op c; (rs, c2) = spec_run ops c1 in (r # rs, c2))"

lemma answer_simps [simp]: "snd (answer f r) = snd r" "fst (answer f (x, s)) = fst (answer f (x, t))"
  by (simp_all add: answer_def split_beta)

lemma step_refines:
  assumes "registry_ok rg"
  shows "registry_ok (snd (registry_step op rg))"
    "spec_step op (catalogue_of rg) = (fst (registry_step op rg), catalogue_of (snd (registry_step op rg)))"
proof -
  have "registry_ok (snd (registry_step op rg)) \<and>
    spec_step op (catalogue_of rg) = (fst (registry_step op rg), catalogue_of (snd (registry_step op rg)))"
    using register_refines [OF assms] set_active_refines [OF assms] retire_refines [OF assms]
    by (cases op) (simp_all add: answer_def split_beta)
  then show "registry_ok (snd (registry_step op rg))"
    "spec_step op (catalogue_of rg) = (fst (registry_step op rg), catalogue_of (snd (registry_step op rg)))"
    by simp_all
qed

interpretation prompt_catalogue: refinement registry_step spec_step catalogue_of registry_ok
  by unfold_locales (rule step_refines, assumption)+

lemma registry_run_eq: "registry_run = prompt_catalogue.crun"
proof (intro ext)
  fix ops rg show "registry_run ops rg = prompt_catalogue.crun ops rg"
    by (induction ops arbitrary: rg) simp_all
qed

lemma spec_run_eq: "spec_run = prompt_catalogue.arun"
proof (intro ext)
  fix ops c show "spec_run ops c = prompt_catalogue.arun ops c"
    by (induction ops arbitrary: c) simp_all
qed

section \<open>The registry with its built-in prompts\<close>

lemma empty_ok: "registry_ok empty_registry"
  by (simp add: registry_ok_def registry_base_def flags_ok_def empty_registry_def stored_def versions_of_def)

lemma put_builtin_base:
  assumes b: "registry_base rg" and v: "parse_version (pd_version p) = Inr builtin_version"
    and n: "stored rg (pd_prompt_id p) builtin_version = None"
  shows "registry_base (put_builtin now p rg)"
  by (rule add_base [of rg "p\<lparr>pd_created_at := Some now\<rparr>" _ _ _ True, OF b])
    (use v n in \<open>simp_all add: put_builtin_def\<close>)

lemma put_builtin_simps:
  "stored (put_builtin now p rg) j w = (if j = pd_prompt_id p \<and> w = builtin_version
     then Some (p\<lparr>pd_created_at := Some now\<rparr>) else stored rg j w)"
  "dget (rg_active_versions (put_builtin now p rg)) j =
     (if j = pd_prompt_id p then Some builtin_version else dget (rg_active_versions rg) j)"
  by (simp_all add: put_builtin_def add_simps)

lemma put_builtin_flags:
  "registry_ok rg \<Longrightarrow> j \<noteq> pd_prompt_id p \<Longrightarrow> flags_ok (put_builtin now p rg) j"
  using registry_ok_flags [of rg j] by (simp add: flags_ok_def put_builtin_simps)

lemma absent_unstored:
  assumes "registry_ok rg" "\<not> dhas (rg_version_index rg) i" shows "stored rg i v = None"
  using assms in_index [OF assms(1), of i] ct_versions_of [of v rg i] by (auto simp del: dhas_iff)

lemma ensure_builtin_ok:
  assumes "registry_ok rg" "parse_version (pd_version p) = Inr builtin_version"
  shows "registry_ok (ensure_builtin now p rg)"
  using assms absent_unstored [OF assms(1)] put_builtin_base [OF registry_ok_base [OF assms(1)] assms(2)]
    put_builtin_flags [OF assms(1)]
  by (simp add: ensure_builtin_def sync_ok del: dhas_iff)

lemma ensure_deepagents_ok:
  assumes ok: "registry_ok rg" and v: "parse_version (pd_version deepagents_prompt) = Inr builtin_version"
    and d: "pd_is_default deepagents_prompt"
  shows "registry_ok (ensure_builtin_deepagents now rg)"
proof (cases "dhas (rg_version_index rg) (pd_prompt_id deepagents_prompt)")
  case False
  let ?r = "put_builtin now deepagents_prompt rg"
  note n = absent_unstored [OF ok False]
  have "registry_base ?r" by (rule put_builtin_base [OF registry_ok_base [OF ok] v n])
  moreover have "flags_ok ?r j" for j
    using put_builtin_flags [OF ok, of j] n d
    by (cases "j = pd_prompt_id deepagents_prompt") (auto simp: flags_ok_def put_builtin_simps)
  ultimately show ?thesis using False by (simp add: ensure_builtin_deepagents_def registry_okI del: dhas_iff)
qed (use ok in \<open>simp add: ensure_builtin_deepagents_def del: dhas_iff\<close>)

lemma builtin_parse: "parse_version ''v1.0.0'' = Inr builtin_version"
  by code_simp

lemma new_registry_ok: "registry_ok (new_registry now)"
  unfolding new_registry_def
  by (intro ensure_deepagents_ok ensure_builtin_ok empty_ok)
    (simp_all add: chat_prompt_def memory_candidate_prompt_def deepagents_prompt_def
      default_definition_def builtin_parse)

section \<open>Properties\<close>

text \<open>
  C20: printing a version and parsing it back gives the version, and whatever the migration of
  persisted versions accepts it rewrites to the canonical text of one version, once and for all.
\<close>

theorem version_round_trip:
  "parse_version (show_version v) = Inr v \<and>
   (case normalize_version t of
      Inl e \<Rightarrow> True
    | Inr s \<Rightarrow> \<exists>w. s = show_version w \<and> parse_version s = Inr w \<and> normalize_version s = Inr s)"
  using normalize_canonical [of t] by (auto simp: normalize_show_version split: sum.splits)

text \<open>
  C8: the registry refines the catalogue: over any sequence of registrations, activations and
  retirements it gives the answers, errors included, that the catalogue gives, and afterwards
  every lookup finds what the catalogue holds.
\<close>

theorem registry_refines_catalogue:
  "spec_run ops (catalogue_of (new_registry now))
     = (fst (registry_run ops (new_registry now)), catalogue_of (snd (registry_run ops (new_registry now))))
   \<and> get_prompt i ver (snd (registry_run ops (new_registry now)))
     = spec_get i ver (catalogue_of (snd (registry_run ops (new_registry now))))"
  unfolding registry_run_eq spec_run_eq
  using prompt_catalogue.run_sim [OF new_registry_ok] prompt_catalogue.run_inv [OF new_registry_ok]
    get_refines by blast

text \<open>
  in every reachable registry a prompt that has versions has exactly one default, the version
  an unversioned lookup returns; a prompt without versions is not found.
\<close>

theorem one_default_version:
  assumes "rg = snd (registry_run ops (new_registry now))"
  shows "case get_prompt i None rg of
      Inl e \<Rightarrow> e = not_found i \<and> list_versions i rg = []
    | Inr p \<Rightarrow> pd_prompt_id p = i \<and> pd_is_default p
        \<and> (case get_prompt i (Some (show_version w)) rg of
             Inl e \<Rightarrow> w \<notin> set (list_versions i rg)
           | Inr q \<Rightarrow> parse_version (pd_version q) = Inr w \<and> (pd_is_default q \<longleftrightarrow> q = p))"
proof -
  have ok: "registry_ok rg"
    unfolding assms registry_run_eq by (rule prompt_catalogue.run_inv [OF new_registry_ok])
  note d = registry_okD [OF ok]
  have lv: "w \<in> set (list_versions i rg) \<longleftrightarrow> stored rg i w \<noteq> None" for w
    unfolding list_versions_def versions_keys [OF ok] ct_versions_of ..
  show ?thesis
  proof (cases "ct_versions (catalogue_of rg) i = {}")
    case True
    with versions_empty [OF ok, of i] show ?thesis
      by (simp add: get_refines [OF ok] spec_get_def list_versions_def dkeys_def)
  next
    case False
    then obtain v where v: "stored rg i v \<noteq> None"
      unfolding ex_in_conv [symmetric] ct_versions_of by blast
    from d(6) [OF v] obtain a where a: "dget (rg_active_versions rg) i = Some a" by auto
    from d(5) [OF a] obtain p where p: "stored rg i a = Some p" by auto
    have f: "stored rg i u = Some q \<Longrightarrow> pd_is_default q = (a = u)" for u q
      using registry_ok_flags [OF ok, of i] a by (auto simp: flags_ok_def)
    have g: "get_prompt i None rg = Inr p"
      using False a p by (simp add: get_refines [OF ok] spec_get_def with_flag_stored [OF ok])
    have h: "get_prompt i (Some (show_version w)) rg
        = (case stored rg i w of None \<Rightarrow> Inl (version_not_found (show_version w) i) | Some q \<Rightarrow> Inr q)"
      using False by (simp add: get_refines [OF ok] spec_get_def with_flag_stored [OF ok])
    show ?thesis
    proof (cases "stored rg i w")
      case None
      with g h d(4) [OF p] f [OF p] lv [of w] show ?thesis by simp
    next
      case (Some q)
      have "pd_is_default q \<longleftrightarrow> q = p" using f [OF Some] f [OF p] Some p by auto
      with Some g h d(4) [OF p] d(4) [OF Some] f [OF p] show ?thesis by simp
    qed
  qed
qed

definition sample_ops :: "registry_op list" where
  "sample_ops =
     [RegisterPrompt True (default_definition ''p'' ''v1.0.0''),
      RegisterPrompt True (default_definition ''p'' ''v1.2.0''),
      SetActive True ''p'' ''1.2.0'']"

theorem one_default_version_witness:
  "\<exists>p. get_prompt ''p'' None (snd (registry_run sample_ops (new_registry 0))) = Inr p
     \<and> pd_version p = ''v1.2.0'' \<and> pd_is_default p"
proof -
  have v: "map_sum (\<lambda>e. e) pd_version (get_prompt ''p'' None (snd (registry_run sample_ops (new_registry 0))))
      = Inr ''v1.2.0''"
    by code_simp
  with one_default_version [OF refl, where i = "''p''" and ops = sample_ops and now = 0
    and w = "PromptVersion 1 2 0"]
  show ?thesis by (auto split: sum.splits)
qed

end
