(* ===== verification/ExtensionLifecycle.thy ===== *)
theory ExtensionLifecycle
  imports StateMachines
begin

text \<open>
  The lifecycle of an extension
  (\<^verbatim>\<open>src/src/ai_karen_engine/extensions/platform/core/registry/state_machine.py\<close>): the table of
  transitions, the machine with its history and hooks, and its concurrent runs.

  A transition is two steps, because the code reads and checks the state before it waits for the
  lock of the plugin, and writes it after: starting adds a task, finishing takes the first task of
  the plugin (an asyncio lock serves its waiters in order). Hooks are numbers; the calls made are
  recorded, and \<open>fails\<close> says which hooks raise, which ends the calls of their phase. Persisting a
  transition does nothing in the code.
\<close>

section \<open>States and events\<close>

datatype ext_state =
    INITIAL | DOWNLOADING | EXTRACTING | VALIDATING | INSTALLING | UNINSTALLING | UPDATING
  | RESTORING | ENABLING | DISABLING | INSTALLED | UNINSTALLED | ERROR | DISABLED | ENABLED

fun state_value :: "ext_state \<Rightarrow> string" where
  "state_value INITIAL = ''initial''"
| "state_value DOWNLOADING = ''downloading''"
| "state_value EXTRACTING = ''extracting''"
| "state_value VALIDATING = ''validating''"
| "state_value INSTALLING = ''installing''"
| "state_value UNINSTALLING = ''uninstalling''"
| "state_value UPDATING = ''updating''"
| "state_value RESTORING = ''restoring''"
| "state_value ENABLING = ''enabling''"
| "state_value DISABLING = ''disabling''"
| "state_value INSTALLED = ''installed''"
| "state_value UNINSTALLED = ''uninstalled''"
| "state_value ERROR = ''error''"
| "state_value DISABLED = ''disabled''"
| "state_value ENABLED = ''enabled''"

datatype trans_event =
    DOWNLOAD_START | DOWNLOAD_COMPLETE | DOWNLOAD_FAILED | EXTRACT_START | EXTRACT_COMPLETE
  | EXTRACT_FAILED | VALIDATE_START | VALIDATE_COMPLETE | VALIDATE_FAILED | INSTALL_START
  | INSTALL_COMPLETE | INSTALL_FAILED | UNINSTALL_START | UNINSTALL_COMPLETE
  | UNINSTALL_FAILED | UPDATE_START | UPDATE_COMPLETE | UPDATE_FAILED | RESTORE_START
  | RESTORE_COMPLETE | RESTORE_FAILED | ENABLE_START | ENABLE_COMPLETE | ENABLE_FAILED
  | DISABLE_START | DISABLE_COMPLETE | DISABLE_FAILED | ERROR_OCCURRED | RESET

fun event_value :: "trans_event \<Rightarrow> string" where
  "event_value DOWNLOAD_START = ''download_start''"
| "event_value DOWNLOAD_COMPLETE = ''download_complete''"
| "event_value DOWNLOAD_FAILED = ''download_failed''"
| "event_value EXTRACT_START = ''extract_start''"
| "event_value EXTRACT_COMPLETE = ''extract_complete''"
| "event_value EXTRACT_FAILED = ''extract_failed''"
| "event_value VALIDATE_START = ''validate_start''"
| "event_value VALIDATE_COMPLETE = ''validate_complete''"
| "event_value VALIDATE_FAILED = ''validate_failed''"
| "event_value INSTALL_START = ''install_start''"
| "event_value INSTALL_COMPLETE = ''install_complete''"
| "event_value INSTALL_FAILED = ''install_failed''"
| "event_value UNINSTALL_START = ''uninstall_start''"
| "event_value UNINSTALL_COMPLETE = ''uninstall_complete''"
| "event_value UNINSTALL_FAILED = ''uninstall_failed''"
| "event_value UPDATE_START = ''update_start''"
| "event_value UPDATE_COMPLETE = ''update_complete''"
| "event_value UPDATE_FAILED = ''update_failed''"
| "event_value RESTORE_START = ''restore_start''"
| "event_value RESTORE_COMPLETE = ''restore_complete''"
| "event_value RESTORE_FAILED = ''restore_failed''"
| "event_value ENABLE_START = ''enable_start''"
| "event_value ENABLE_COMPLETE = ''enable_complete''"
| "event_value ENABLE_FAILED = ''enable_failed''"
| "event_value DISABLE_START = ''disable_start''"
| "event_value DISABLE_COMPLETE = ''disable_complete''"
| "event_value DISABLE_FAILED = ''disable_failed''"
| "event_value ERROR_OCCURRED = ''error_occurred''"
| "event_value RESET = ''reset''"

fun transitions :: "ext_state \<Rightarrow> (trans_event, ext_state) pydict" where
  "transitions INITIAL =
     [(DOWNLOAD_START, DOWNLOADING)]"
| "transitions DOWNLOADING =
     [(DOWNLOAD_COMPLETE, EXTRACTING),
      (DOWNLOAD_FAILED, ERROR)]"
| "transitions EXTRACTING =
     [(EXTRACT_COMPLETE, VALIDATING),
      (EXTRACT_FAILED, ERROR)]"
| "transitions VALIDATING =
     [(VALIDATE_COMPLETE, INSTALLING),
      (VALIDATE_FAILED, ERROR)]"
| "transitions INSTALLING =
     [(INSTALL_COMPLETE, INSTALLED),
      (INSTALL_FAILED, ERROR)]"
| "transitions INSTALLED =
     [(UPDATE_START, UPDATING),
      (UNINSTALL_START, UNINSTALLING),
      (DISABLE_START, DISABLING),
      (RESET, INITIAL)]"
| "transitions UNINSTALLING =
     [(UNINSTALL_COMPLETE, UNINSTALLED),
      (UNINSTALL_FAILED, ERROR)]"
| "transitions UNINSTALLED =
     [(RESET, INITIAL)]"
| "transitions UPDATING =
     [(UPDATE_COMPLETE, INSTALLED),
      (UPDATE_FAILED, ERROR)]"
| "transitions RESTORING =
     [(RESTORE_COMPLETE, INSTALLED),
      (RESTORE_FAILED, ERROR)]"
| "transitions DISABLING =
     [(DISABLE_COMPLETE, DISABLED),
      (DISABLE_FAILED, ERROR)]"
| "transitions DISABLED =
     [(ENABLE_START, ENABLING),
      (RESET, INITIAL)]"
| "transitions ENABLING =
     [(ENABLE_COMPLETE, ENABLED),
      (ENABLE_FAILED, ERROR)]"
| "transitions ENABLED =
     [(DISABLE_START, DISABLING),
      (RESET, INITIAL)]"
| "transitions ERROR =
     [(RESET, INITIAL),
      (RESTORE_START, RESTORING)]"

section \<open>The machine\<close>

record state_transition =
  xt_plugin_name :: string
  xt_from_state :: ext_state
  xt_to_state :: ext_state
  xt_event :: trans_event
  xt_timestamp :: int
  xt_success :: bool
  xt_error_message :: "string option"
  xt_metadata :: "(string, pyval) pydict option"

record pending =
  pn_plugin :: string
  pn_from :: ext_state
  pn_to :: ext_state
  pn_event :: trans_event
  pn_error :: "string option"
  pn_metadata :: "(string, pyval) pydict option"

type_synonym hook_call = "nat \<times> string \<times> ext_state \<times> ext_state \<times> trans_event"

record ext_machine =
  em_states :: "(string, ext_state) pydict"
  em_history :: "(string, state_transition list) pydict"
  em_hooks :: "(string, nat list) pydict"
  em_calls :: "hook_call list"
  em_pending :: "pending list"

definition new_machine :: ext_machine where
  "new_machine = \<lparr>em_states = [], em_history = [], em_hooks = [], em_calls = [], em_pending = []\<rparr>"

definition initialize_plugin :: "string \<Rightarrow> ext_machine \<Rightarrow> ext_machine" where
  "initialize_plugin n m =
     (if dhas (em_states m) n then m
      else m\<lparr>em_states := dset n INITIAL (em_states m), em_history := dset n [] (em_history m)\<rparr>)"

definition get_state :: "string \<Rightarrow> ext_machine \<Rightarrow> ext_state option" where
  "get_state n m = dget (em_states m) n"

definition can_transition :: "string \<Rightarrow> trans_event \<Rightarrow> ext_machine \<Rightarrow> bool" where
  "can_transition n e m = (case dget (em_states m) n of
     None \<Rightarrow> False | Some s \<Rightarrow> dhas (transitions s) e)"

definition invalid_transition :: "ext_state \<Rightarrow> trans_event \<Rightarrow> string" where
  "invalid_transition s e =
     ''Invalid transition from '' @ state_value s @ '' via '' @ event_value e
     @ ''. Valid transitions: ['' @ join '', '' (map (sq \<circ> event_value) (dkeys (transitions s))) @ '']''"

definition register_hook :: "trans_event \<Rightarrow> string \<Rightarrow> nat \<Rightarrow> ext_machine \<Rightarrow> ext_machine" where
  "register_hook e kind h m =
     (let k = kind @ ''_'' @ event_value e;
          hs = (case dget (em_hooks m) k of None \<Rightarrow> [] | Some hs \<Rightarrow> hs)
      in m\<lparr>em_hooks := dset k (hs @ [h]) (em_hooks m)\<rparr>)"

text \<open>The hooks called in one phase: up to and including the first that raises.\<close>

fun called :: "(nat \<Rightarrow> bool) \<Rightarrow> nat list \<Rightarrow> nat list" where
  "called fails [] = []"
| "called fails (h # hs) = (if fails h then [h] else h # called fails hs)"

definition execute_hooks ::
    "(nat \<Rightarrow> bool) \<Rightarrow> pending \<Rightarrow> string \<Rightarrow> ext_machine \<Rightarrow> ext_machine" where
  "execute_hooks fails p kind m =
     (case dget (em_hooks m) (kind @ ''_'' @ event_value (pn_event p)) of
        None \<Rightarrow> m
      | Some hs \<Rightarrow> m\<lparr>em_calls := em_calls m
          @ map (\<lambda>h. (h, pn_plugin p, pn_from p, pn_to p, pn_event p)) (called fails hs)\<rparr>)"

section \<open>Transitions\<close>

text \<open>The part before the lock: the error, if any, and the machine with the task waiting.\<close>

definition start_transition ::
    "string \<Rightarrow> trans_event \<Rightarrow> string option \<Rightarrow> (string, pyval) pydict option \<Rightarrow> ext_machine \<Rightarrow>
     (string + pending) \<times> ext_machine" where
  "start_transition n e err meta m =
     (let m1 = initialize_plugin n m in
      case dget (em_states m1) n of
        None \<Rightarrow> (Inl ''KeyError'', m1)
      | Some s \<Rightarrow>
          (case dget (transitions s) e of
             None \<Rightarrow> (Inl (invalid_transition s e), m1)
           | Some t \<Rightarrow>
               (let p = \<lparr>pn_plugin = n, pn_from = s, pn_to = t, pn_event = e, pn_error = err,
                         pn_metadata = meta\<rparr>
                in (Inr p, m1\<lparr>em_pending := em_pending m1 @ [p]\<rparr>))))"

definition record_of :: "int \<Rightarrow> pending \<Rightarrow> state_transition" where
  "record_of now p =
     \<lparr>xt_plugin_name = pn_plugin p, xt_from_state = pn_from p, xt_to_state = pn_to p,
      xt_event = pn_event p, xt_timestamp = now, xt_success = (pn_error p = None),
      xt_error_message = pn_error p, xt_metadata = pn_metadata p\<rparr>"

text \<open>The part under the lock.\<close>

definition history_of :: "ext_machine \<Rightarrow> string \<Rightarrow> state_transition list" where
  "history_of m n = (case dget (em_history m) n of None \<Rightarrow> [] | Some h \<Rightarrow> h)"

definition commit :: "int \<Rightarrow> pending \<Rightarrow> ext_machine \<Rightarrow> ext_machine" where
  "commit now p m =
     (let n = pn_plugin p in
      m\<lparr>em_states := dset n (pn_to p) (em_states m),
        em_history := dset n (history_of m n @ [record_of now p]) (em_history m)\<rparr>)"

definition finish_transition ::
    "(nat \<Rightarrow> bool) \<Rightarrow> int \<Rightarrow> pending \<Rightarrow> ext_machine \<Rightarrow> ext_machine" where
  "finish_transition fails now p m =
     execute_hooks fails p ''post'' (commit now p (execute_hooks fails p ''pre''
       (m\<lparr>em_pending := remove1 p (em_pending m)\<rparr>)))"

text \<open>A call of \<^verbatim>\<open>transition\<close> with no other task running.\<close>

definition transition ::
    "(nat \<Rightarrow> bool) \<Rightarrow> int \<Rightarrow> string \<Rightarrow> trans_event \<Rightarrow> string option \<Rightarrow> (string, pyval) pydict option \<Rightarrow>
     ext_machine \<Rightarrow> (string + state_transition) \<times> ext_machine" where
  "transition fails now n e err meta m =
     (case start_transition n e err meta m of
        (Inl x, m1) \<Rightarrow> (Inl x, m1)
      | (Inr p, m1) \<Rightarrow> (Inr (record_of now p), finish_transition fails now p m1))"

definition reset_plugin :: "(nat \<Rightarrow> bool) \<Rightarrow> int \<Rightarrow> string \<Rightarrow> ext_machine \<Rightarrow>
    (string + state_transition) \<times> ext_machine" where
  "reset_plugin fails now n m = transition fails now n RESET None None m"

section \<open>Reading the machine\<close>

text \<open>\<^verbatim>\<open>history[-limit:]\<close>, newest first: a limit of zero gives everything.\<close>

definition tail_slice :: "int \<Rightarrow> 'a list \<Rightarrow> 'a list" where
  "tail_slice k xs =
     (if k > 0 then drop (length xs - nat k) xs else drop (nat (- k)) xs)"

definition get_transition_history :: "string \<Rightarrow> int \<Rightarrow> ext_machine \<Rightarrow> state_transition list" where
  "get_transition_history n k m = rev (tail_slice k (history_of m n))"

definition get_all_states :: "ext_machine \<Rightarrow> (string, ext_state) pydict" where
  "get_all_states m = em_states m"

datatype ext_status = STATUS_INACTIVE | STATUS_LOADING | STATUS_ACTIVE | STATUS_ERROR
  | STATUS_UNLOADING

fun map_state_to_status :: "ext_state \<Rightarrow> ext_status" where
  "map_state_to_status INITIAL = STATUS_INACTIVE"
| "map_state_to_status DOWNLOADING = STATUS_LOADING"
| "map_state_to_status EXTRACTING = STATUS_LOADING"
| "map_state_to_status VALIDATING = STATUS_LOADING"
| "map_state_to_status INSTALLING = STATUS_LOADING"
| "map_state_to_status UNINSTALLING = STATUS_UNLOADING"
| "map_state_to_status UPDATING = STATUS_LOADING"
| "map_state_to_status RESTORING = STATUS_LOADING"
| "map_state_to_status ENABLING = STATUS_LOADING"
| "map_state_to_status DISABLING = STATUS_UNLOADING"
| "map_state_to_status INSTALLED = STATUS_ACTIVE"
| "map_state_to_status UNINSTALLED = STATUS_INACTIVE"
| "map_state_to_status ERROR = STATUS_ERROR"
| "map_state_to_status DISABLED = STATUS_INACTIVE"
| "map_state_to_status ENABLED = STATUS_ACTIVE"

fun get_state_description :: "ext_state \<Rightarrow> string" where
  "get_state_description INITIAL = ''Plugin is initialized but not processed''"
| "get_state_description DOWNLOADING = ''Plugin is being downloaded''"
| "get_state_description EXTRACTING = ''Plugin is being extracted from package''"
| "get_state_description VALIDATING = ''Plugin is being validated''"
| "get_state_description INSTALLING = ''Plugin is being installed''"
| "get_state_description UNINSTALLING = ''Plugin is being uninstalled''"
| "get_state_description UPDATING = ''Plugin is being updated''"
| "get_state_description RESTORING = ''Plugin is being restored from backup''"
| "get_state_description ENABLING = ''Plugin is being enabled''"
| "get_state_description DISABLING = ''Plugin is being disabled''"
| "get_state_description INSTALLED = ''Plugin is installed and ready for use''"
| "get_state_description UNINSTALLED = ''Plugin is not installed''"
| "get_state_description ERROR = ''Plugin encountered an error''"
| "get_state_description DISABLED = ''Plugin is installed but disabled''"
| "get_state_description ENABLED = ''Plugin is enabled and active''"

section \<open>Runs\<close>

text \<open>One call after the other.\<close>

datatype ext_call =
    Init string
  | Hook trans_event string nat
  | Fire int string trans_event "string option" "(string, pyval) pydict option"

fun call_step :: "(nat \<Rightarrow> bool) \<Rightarrow> ext_call \<Rightarrow> ext_machine \<Rightarrow> ext_machine" where
  "call_step fails (Init n) m = initialize_plugin n m"
| "call_step fails (Hook e kind h) m = register_hook e kind h m"
| "call_step fails (Fire now n e err meta) m = snd (transition fails now n e err meta m)"

text \<open>Tasks that overlap: any of these steps may come next.\<close>

inductive ext_step :: "ext_machine \<Rightarrow> ext_machine \<Rightarrow> bool" where
  step_init: "ext_step m (initialize_plugin n m)"
| step_hook: "ext_step m (register_hook e kind h m)"
| step_start: "ext_step m (snd (start_transition n e err meta m))"
| step_finish: "em_pending m = ps @ p # qs \<Longrightarrow> pn_plugin p \<notin> pn_plugin ` set ps
    \<Longrightarrow> ext_step m (finish_transition fails now p m)"

inductive ext_reachable :: "ext_machine \<Rightarrow> bool" where
  reach_new: "ext_reachable new_machine"
| reach_step: "ext_reachable m \<Longrightarrow> ext_step m m' \<Longrightarrow> ext_reachable m'"

inductive_cases ext_stepE: "ext_step m m'"

section \<open>What every interleaving keeps\<close>

definition edge :: "ext_state \<Rightarrow> trans_event \<Rightarrow> ext_state \<Rightarrow> bool" where
  "edge s e t \<longleftrightarrow> dget (transitions s) e = Some t"

definition recorded :: "string \<Rightarrow> state_transition \<Rightarrow> bool" where
  "recorded n t \<longleftrightarrow> xt_plugin_name t = n \<and> edge (xt_from_state t) (xt_event t) (xt_to_state t)"

definition last_state :: "state_transition list \<Rightarrow> ext_state" where
  "last_state h = (if h = [] then INITIAL else xt_to_state (last h))"

text \<open>
  The histories consist of edges of the table, and the current state is where the last of them
  leads; a waiting task holds an edge for a plugin the machine knows.
\<close>

definition plugin_ok :: "string \<Rightarrow> ext_state option \<Rightarrow> state_transition list \<Rightarrow> bool" where
  "plugin_ok n v h \<longleftrightarrow> list_all (recorded n) h
     \<and> (case v of None \<Rightarrow> h = [] | Some s \<Rightarrow> s = last_state h)"

definition history_ok :: "ext_machine \<Rightarrow> bool" where
  "history_ok m \<longleftrightarrow>
     (\<forall>n. plugin_ok n (dget (em_states m) n) (history_of m n))
     \<and> (\<forall>p \<in> set (em_pending m). edge (pn_from p) (pn_event p) (pn_to p))"

lemma plugin_ok_simps [simp]:
  "plugin_ok n (Some INITIAL) []" "plugin_ok n None []"
  "plugin_ok n (Some s) (h @ [t]) \<longleftrightarrow> list_all (recorded n) h \<and> recorded n t \<and> s = xt_to_state t"
  by (auto simp: plugin_ok_def last_state_def)

lemma plugin_ok_recorded: "plugin_ok n v h \<Longrightarrow> list_all (recorded n) h"
  by (simp add: plugin_ok_def)

lemma history_ok_cong:
  "em_states m' = em_states m \<Longrightarrow> em_history m' = em_history m \<Longrightarrow>
   set (em_pending m') \<subseteq> set (em_pending m) \<Longrightarrow> history_ok m \<Longrightarrow> history_ok m'"
  by (auto simp: history_ok_def history_of_def)

lemma initialize_simps:
  "em_states (initialize_plugin n m) = (if dhas (em_states m) n then em_states m else dset n INITIAL (em_states m))"
  "em_pending (initialize_plugin n m) = em_pending m"
  "history_of (initialize_plugin n m) k =
     (if k = n \<and> \<not> dhas (em_states m) n then [] else history_of m k)"
  by (auto simp: initialize_plugin_def history_of_def dget_dset)

lemma initialize_ok: "history_ok m \<Longrightarrow> history_ok (initialize_plugin n m)"
  by (simp add: history_ok_def initialize_simps dget_dset)

lemma initialize_known: "dget (em_states (initialize_plugin n m)) n \<noteq> None"
  by (simp add: initialize_simps dhas_def del: dhas_iff)

text \<open>Starting a task only reads the state.\<close>

lemma start_cases:
  obtains (refused) x where "start_transition n e err meta m = (Inl x, initialize_plugin n m)"
  | (waiting) p where "start_transition n e err meta m =
        (Inr p, (initialize_plugin n m)\<lparr>em_pending := em_pending m @ [p]\<rparr>)"
      "pn_plugin p = n" "edge (pn_from p) (pn_event p) (pn_to p)"
      "dget (em_states (initialize_plugin n m)) n = Some (pn_from p)"
proof -
  obtain s where s: "dget (em_states (initialize_plugin n m)) n = Some s"
    using initialize_known [of n m] by auto
  show thesis
  proof (cases "dget (transitions s) e")
    case None
    with s refused show thesis by (simp add: start_transition_def)
  next
    case (Some t)
    with s waiting [of "\<lparr>pn_plugin = n, pn_from = s, pn_to = t, pn_event = e, pn_error = err, pn_metadata = meta\<rparr>"]
    show thesis by (simp add: start_transition_def edge_def Let_def initialize_simps(2))
  qed
qed

lemma ext_start_ok:
  assumes "history_ok m" shows "history_ok (snd (start_transition n e err meta m))"
proof (cases rule: start_cases [of n e err meta m])
  case (refused x)
  with initialize_ok [OF assms] show ?thesis by simp
next
  case (waiting p)
  with initialize_ok [OF assms, of n] show ?thesis
    by (auto simp: history_ok_def history_of_def initialize_simps)
qed

lemma hooks_simps [simp]:
  "em_states (execute_hooks fails p k m) = em_states m"
  "em_history (execute_hooks fails p k m) = em_history m"
  "em_pending (execute_hooks fails p k m) = em_pending m"
  "history_of (execute_hooks fails p k m) n = history_of m n"
  by (simp_all add: execute_hooks_def history_of_def split: option.splits)

lemma finish_simps:
  "dget (em_states (finish_transition fails now p m)) n
     = (if n = pn_plugin p then Some (pn_to p) else dget (em_states m) n)"
  "history_of (finish_transition fails now p m) n
     = (if n = pn_plugin p then history_of m n @ [record_of now p] else history_of m n)"
  "em_pending (finish_transition fails now p m) = remove1 p (em_pending m)"
  by (simp_all add: finish_transition_def commit_def Let_def dget_dset)
    (simp_all add: history_of_def dget_dset)

lemma ext_finish_ok:
  assumes "history_ok m" "p \<in> set (em_pending m)"
  shows "history_ok (finish_transition fails now p m)"
proof -
  have "plugin_ok n (dget (em_states (finish_transition fails now p m)) n)
      (history_of (finish_transition fails now p m) n)" for n
  proof -
    have "plugin_ok n (dget (em_states m) n) (history_of m n)"
      using assms(1) by (simp add: history_ok_def)
    moreover have "edge (pn_from p) (pn_event p) (pn_to p)" using assms by (simp add: history_ok_def)
    ultimately show ?thesis
      by (auto simp: finish_simps record_of_def recorded_def dest: plugin_ok_recorded)
  qed
  moreover have "set (remove1 p (em_pending m)) \<subseteq> set (em_pending m)" by (rule set_remove1_subset)
  ultimately show ?thesis using assms(1) by (auto simp: history_ok_def finish_simps(3))
qed

lemma ext_step_ok: "ext_step m m' \<Longrightarrow> history_ok m \<Longrightarrow> history_ok m'"
proof (elim ext_stepE)
  fix e kind h assume "m' = register_hook e kind h m" "history_ok m"
  then show "history_ok m'"
    by (auto simp: register_hook_def Let_def intro: history_ok_cong)
qed (auto intro: initialize_ok ext_start_ok ext_finish_ok)

lemma ext_reachable_ok: "ext_reachable m \<Longrightarrow> history_ok m"
proof (induction rule: ext_reachable.induct)
  case reach_new
  show ?case by (simp add: history_ok_def new_machine_def history_of_def)
qed (auto intro: ext_step_ok)

section \<open>One call after the other\<close>

text \<open>The history of a plugin is a path of the table from \<open>s\<close> to \<open>t\<close>.\<close>

fun chained :: "ext_state \<Rightarrow> state_transition list \<Rightarrow> ext_state \<Rightarrow> bool" where
  "chained s [] t \<longleftrightarrow> s = t"
| "chained s (x # h) t \<longleftrightarrow> xt_from_state x = s \<and> edge s (xt_event x) (xt_to_state x)
     \<and> chained (xt_to_state x) h t"

lemma chained_snoc:
  "chained s (h @ [x]) t \<longleftrightarrow> chained s h (xt_from_state x)
     \<and> edge (xt_from_state x) (xt_event x) (xt_to_state x) \<and> t = xt_to_state x"
  by (induction h arbitrary: s) auto

definition paths_ok :: "ext_machine \<Rightarrow> bool" where
  "paths_ok m \<longleftrightarrow> em_pending m = []
     \<and> (\<forall>n. case dget (em_states m) n of None \<Rightarrow> history_of m n = []
          | Some s \<Rightarrow> chained INITIAL (history_of m n) s)"

lemma initialize_paths: "paths_ok m \<Longrightarrow> paths_ok (initialize_plugin n m)"
  unfolding paths_ok_def initialize_simps by (auto simp: dget_dset)

lemma fire_paths:
  assumes "paths_ok m" shows "paths_ok (snd (transition fails now n e err meta m))"
proof (cases rule: start_cases [of n e err meta m])
  case (refused x)
  with initialize_paths [OF assms] show ?thesis by (simp add: transition_def)
next
  case (waiting p)
  let ?m = "(initialize_plugin n m)\<lparr>em_pending := em_pending m @ [p]\<rparr>"
  have i: "paths_ok (initialize_plugin n m)" by (rule initialize_paths [OF assms])
  have h: "history_of ?m k = history_of (initialize_plugin n m) k" for k by (simp add: history_of_def)
  have e: "em_pending m = []" using assms by (simp add: paths_ok_def)
  have "paths_ok (finish_transition fails now p ?m)"
    unfolding paths_ok_def finish_simps h
    using i waiting e by (auto simp: paths_ok_def chained_snoc record_of_def split: option.splits)
  with waiting show ?thesis by (simp add: transition_def)
qed

lemma hook_paths: "paths_ok m \<Longrightarrow> paths_ok (register_hook e kind h m)"
proof -
  let ?m = "register_hook e kind h m"
  have f: "em_states ?m = em_states m" "em_pending ?m = em_pending m" "em_history ?m = em_history m"
    by (simp_all add: register_hook_def Let_def)
  then have h: "history_of ?m = history_of m" by (simp add: history_of_def fun_eq_iff)
  show "paths_ok m \<Longrightarrow> paths_ok ?m" unfolding paths_ok_def f h .
qed

lemma call_paths: "paths_ok m \<Longrightarrow> paths_ok (call_step fails c m)"
  by (cases c) (simp_all add: initialize_paths fire_paths hook_paths)

interpretation ext_calls: invariant_machine "call_step fails" paths_ok for fails
  by unfold_locales (rule call_paths)

fun call_run :: "(nat \<Rightarrow> bool) \<Rightarrow> ext_call list \<Rightarrow> ext_machine \<Rightarrow> ext_machine" where
  "call_run fails [] m = m"
| "call_run fails (c # cs) m = call_run fails cs (call_step fails c m)"

lemma call_run_eq: "call_run fails cs m = ext_calls.run fails cs m"
  by (induction cs arbitrary: m) simp_all

lemma call_run_paths: "paths_ok (call_run fails cs new_machine)"
  unfolding call_run_eq
  by (rule ext_calls.inv_run) (simp add: paths_ok_def new_machine_def history_of_def)

section \<open>A race\<close>

text \<open>
  Two tasks that start while the plugin is installed: both pass the check, the second overwrites
  the state the first has set.
\<close>

definition install_events :: "trans_event list" where
  "install_events = [DOWNLOAD_START, DOWNLOAD_COMPLETE, EXTRACT_COMPLETE, VALIDATE_COMPLETE, INSTALL_COMPLETE]"

fun fire_all :: "string \<Rightarrow> trans_event list \<Rightarrow> ext_machine \<Rightarrow> ext_machine" where
  "fire_all n [] m = m"
| "fire_all n (e # es) m = fire_all n es (snd (transition (\<lambda>_. False) 0 n e None None m))"

lemma fire_reachable:
  assumes "ext_reachable m" "em_pending m = []"
  shows "ext_reachable (snd (transition fails now n e err meta m))
    \<and> em_pending (snd (transition fails now n e err meta m)) = []"
proof (cases rule: start_cases [of n e err meta m])
  case (refused x)
  with assms reach_step [OF assms(1) step_init, of n] show ?thesis
    by (simp add: transition_def initialize_simps)
next
  case (waiting p)
  let ?m = "(initialize_plugin n m)\<lparr>em_pending := em_pending m @ [p]\<rparr>"
  have "ext_reachable ?m"
    using reach_step [OF assms(1) step_start, of n e err meta] waiting(1) by simp
  moreover have "ext_step ?m (finish_transition fails now p ?m)"
    by (rule step_finish [of _ "[]" _ "[]"]) (simp_all add: assms(2))
  ultimately have "ext_reachable (finish_transition fails now p ?m)" by (rule reach_step)
  with waiting(1) assms(2) show ?thesis by (simp add: transition_def finish_simps(3))
qed

lemma fire_all_reachable:
  "ext_reachable m \<Longrightarrow> em_pending m = [] \<Longrightarrow> ext_reachable (fire_all n es m) \<and> em_pending (fire_all n es m) = []"
proof (induction es arbitrary: m)
  case (Cons e es)
  from fire_reachable [OF Cons.prems] show ?case by (auto intro: Cons.IH [THEN conjunct1] Cons.IH [THEN conjunct2])
qed simp

lemma finish_first: "em_pending m \<noteq> [] \<Longrightarrow> ext_step m (finish_transition fails now (hd (em_pending m)) m)"
  by (rule step_finish [where ps = "[]" and qs = "tl (em_pending m)"]) simp_all

section \<open>Properties\<close>

text \<open>
  C18: with calls that do not overlap, the history of every plugin is a path of the transition
  table from the initial state to the current one, whatever hooks fail and whatever events are
  refused.
\<close>

theorem history_is_a_path:
  "case get_state n (call_run fails cs new_machine) of
     None \<Rightarrow> get_transition_history n 0 (call_run fails cs new_machine) = []
   | Some s \<Rightarrow> chained INITIAL (rev (get_transition_history n 0 (call_run fails cs new_machine))) s"
  using call_run_paths [of fails cs]
  by (cases "dget (em_states (call_run fails cs new_machine)) n")
    (auto simp: paths_ok_def get_state_def get_transition_history_def tail_slice_def dest: spec [of _ n])

text \<open>
  under every interleaving of tasks and hooks, each recorded transition is one the table
  allows, and the current state is where the last recorded one leads.
\<close>

theorem interleaved_history_valid:
  assumes "ext_reachable m" "get_state n m = Some s"
  shows "list_all (recorded n) (history_of m n) \<and> s = last_state (history_of m n)"
proof -
  have "plugin_ok n (dget (em_states m) n) (history_of m n)"
    using ext_reachable_ok [OF assms(1)] by (simp add: history_ok_def)
  with assms(2) show ?thesis by (simp add: plugin_ok_def get_state_def)
qed

lemma sample_reachable: "ext_reachable (fire_all ''p'' install_events new_machine)"
  using fire_all_reachable [OF reach_new] by (simp add: new_machine_def)

theorem interleaved_history_valid_witness:
  "last_state (history_of (fire_all ''p'' install_events new_machine) ''p'') = INSTALLED"
proof -
  have "get_state ''p'' (fire_all ''p'' install_events new_machine) = Some INSTALLED" by code_simp
  from interleaved_history_valid [OF sample_reachable this] show ?thesis by simp
qed

text \<open>
  overlapping tasks can break the path: the check reads the state before the lock is taken, so
  a plugin that is being disabled can be moved on as if it were still installed.
\<close>

theorem overlapping_tasks_break_the_path:
  "\<exists>m h s. ext_reachable m \<and> h = history_of m ''p'' \<and> get_state ''p'' m = Some s
     \<and> \<not> chained INITIAL h s"
proof -
  let ?m0 = "fire_all ''p'' install_events new_machine"
  let ?start = "\<lambda>e m. snd (start_transition ''p'' e None None m)"
  let ?m2 = "?start UNINSTALL_START (?start DISABLE_START ?m0)"
  let ?p = "hd (em_pending ?m2)"
  let ?m3 = "finish_transition (\<lambda>_. False) 0 ?p ?m2"
  let ?q = "hd (em_pending ?m3)"
  let ?m4 = "finish_transition (\<lambda>_. False) 0 ?q ?m3"
  have r2: "ext_reachable ?m2" by (intro reach_step [OF _ step_start] sample_reachable)
  have "length (em_pending ?m2) = 2" by code_simp
  then have r3: "ext_reachable ?m3" by (intro reach_step [OF r2 finish_first]) auto
  have "length (em_pending ?m3) = 1" by code_simp
  then have "ext_reachable ?m4" by (intro reach_step [OF r3 finish_first]) auto
  moreover have "get_state ''p'' ?m4 = Some UNINSTALLING" by code_simp
  moreover have "\<not> chained INITIAL (history_of ?m4 ''p'') UNINSTALLING" by code_simp
  ultimately show ?thesis by blast
qed

end
