(* ===== verification/Resilience.thy ===== *)
theory Resilience
  imports StateMachines
begin

text \<open>
  The resilience layer around optional pipeline stages
  (\<^verbatim>\<open>src/src/ai_karen_engine/core/runtime/resilience\<close>): feature flags, circuit breakers, stage
  policies, fallbacks, the stage runner that composes them, and the health summary.

  Time is a parameter: wall-clock seconds for the breakers, event-loop seconds for the deadline of
  a stage. What the stage function does in each attempt, and the clock readings around it, are the
  environment of a run. The threads of synchronous stages and their slots are not modelled; running
  out of slots is an attempt that raises.
\<close>

section \<open>Feature flags\<close>

record feature_flags =
  ff_global :: "(string, bool) pydict"
  ff_tenant :: "(string, (string, bool) pydict) pydict"
  ff_user :: "(string, (string, bool) pydict) pydict"

definition new_flags :: feature_flags where
  "new_flags = \<lparr>ff_global =
     [(''spacy_enabled'', True), (''distilbert_enabled'', True), (''memory_learning_enabled'', True),
      (''memory_shadow_mode_enabled'', False), (''memory_inspector_enabled'', True),
      (''memory_consent_controls_enabled'', True), (''memory_retention_controls_enabled'', True),
      (''memory_profile_corrections_enabled'', True), (''graph_relationships_enabled'', True),
      (''profile_synthesis_enabled'', True), (''echocore_enabled'', True), (''reasoning_enabled'', True),
      (''reasoning_retrieval_enabled'', True), (''reasoning_causal_enabled'', True),
      (''reasoning_graph_enabled'', True), (''reasoning_soft_enabled'', True),
      (''reasoning_synthesis_enabled'', True), (''kro_orchestrator_enabled'', True),
      (''training_candidates_enabled'', False), (''personalization_enabled'', True),
      (''organization_learning_enabled'', False), (''autonomous_learning_enabled'', False)],
     ff_tenant = [], ff_user = []\<rparr>"

definition set_global :: "string \<Rightarrow> bool \<Rightarrow> feature_flags \<Rightarrow> feature_flags" where
  "set_global f v ff = ff\<lparr>ff_global := dset f v (ff_global ff)\<rparr>"

definition inner :: "string \<Rightarrow> (string, (string, bool) pydict) pydict \<Rightarrow> (string, bool) pydict" where
  "inner k d = (case dget d k of None \<Rightarrow> [] | Some e \<Rightarrow> e)"

definition set_tenant_override :: "string \<Rightarrow> string \<Rightarrow> bool \<Rightarrow> feature_flags \<Rightarrow> feature_flags" where
  "set_tenant_override t f v ff = ff\<lparr>ff_tenant := dset t (dset f v (inner t (ff_tenant ff))) (ff_tenant ff)\<rparr>"

definition set_user_override :: "string \<Rightarrow> string \<Rightarrow> bool \<Rightarrow> feature_flags \<Rightarrow> feature_flags" where
  "set_user_override u f v ff = ff\<lparr>ff_user := dset u (dset f v (inner u (ff_user ff))) (ff_user ff)\<rparr>"

text \<open>\<^verbatim>\<open>if k and k in d\<close>: an override of an identified tenant or user.\<close>

definition override ::
    "string option \<Rightarrow> string \<Rightarrow> (string, (string, bool) pydict) pydict \<Rightarrow> bool option" where
  "override k f d = (case k of None \<Rightarrow> None
     | Some i \<Rightarrow> if i = [] then None else dget (inner i d) f)"

definition is_enabled ::
    "string \<Rightarrow> string option \<Rightarrow> string option \<Rightarrow> (string, bool) pydict option \<Rightarrow> feature_flags \<Rightarrow> bool" where
  "is_enabled f tenant user req ff =
     (case (case req of None \<Rightarrow> None | Some d \<Rightarrow> dget d f) of
        Some v \<Rightarrow> v
      | None \<Rightarrow> (case override user f (ff_user ff) of
          Some v \<Rightarrow> v
        | None \<Rightarrow> (case override tenant f (ff_tenant ff) of
            Some v \<Rightarrow> v
          | None \<Rightarrow> (case dget (ff_global ff) f of None \<Rightarrow> False | Some v \<Rightarrow> v))))"

section \<open>Circuit breakers\<close>

datatype breaker_state = CLOSED | OPEN | HALF_OPEN

fun breaker_state_value :: "breaker_state \<Rightarrow> string" where
  "breaker_state_value CLOSED = ''CLOSED''"
| "breaker_state_value OPEN = ''OPEN''"
| "breaker_state_value HALF_OPEN = ''HALF_OPEN''"

record breaker =
  br_name :: string
  br_failure_threshold :: int
  br_recovery_timeout :: rat
  br_state :: breaker_state
  br_failures :: int
  br_last_failure_time :: rat

definition circuit_breaker :: "string \<Rightarrow> int \<Rightarrow> rat \<Rightarrow> breaker" where
  "circuit_breaker n k t =
     \<lparr>br_name = n, br_failure_threshold = k, br_recovery_timeout = t, br_state = CLOSED,
      br_failures = 0, br_last_failure_time = 0\<rparr>"

datatype stage_event =
    BreakerRecovered string
  | BreakerReopened string int
  | BreakerTripped string int int
  | FallbackActivated string string "string option"
  | AttemptStarted string nat int
  | AttemptCompleted string nat int
  | AttemptFailed string nat string int
  | Retrying string nat string
  | Exhausted string nat "string option"
  | Degraded string

definition record_success :: "breaker \<Rightarrow> stage_event list \<times> breaker" where
  "record_success b =
     (if br_state b = HALF_OPEN
      then ([BreakerRecovered (br_name b)], b\<lparr>br_state := CLOSED, br_failures := 0\<rparr>)
      else ([], b\<lparr>br_failures := 0\<rparr>))"

definition record_failure :: "rat \<Rightarrow> breaker \<Rightarrow> stage_event list \<times> breaker" where
  "record_failure now b =
     (let b1 = b\<lparr>br_failures := br_failures b + 1, br_last_failure_time := now\<rparr> in
      if br_state b1 = HALF_OPEN
      then ([BreakerReopened (br_name b1) (br_failures b1)], b1\<lparr>br_state := OPEN\<rparr>)
      else if br_state b1 = CLOSED \<and> br_failures b1 \<ge> br_failure_threshold b1
      then ([BreakerTripped (br_name b1) (br_failures b1) (br_failure_threshold b1)], b1\<lparr>br_state := OPEN\<rparr>)
      else ([], b1))"

definition allow_request :: "rat \<Rightarrow> breaker \<Rightarrow> bool \<times> breaker" where
  "allow_request now b =
     (case br_state b of
        CLOSED \<Rightarrow> (True, b)
      | OPEN \<Rightarrow> if now - br_last_failure_time b \<ge> br_recovery_timeout b
               then (True, b\<lparr>br_state := HALF_OPEN\<rparr>) else (False, b)
      | HALF_OPEN \<Rightarrow> (True, b))"

type_synonym breaker_registry = "(string, breaker) pydict"

definition default_breakers :: breaker_registry where
  "default_breakers = map (\<lambda>n. (n, circuit_breaker n 5 60))
     [''spacy'', ''distilbert'', ''leangraph_projection'', ''profile_synthesis'', ''echocore_batch'',
      ''reasoning_retrieval'', ''reasoning_causal'', ''reasoning_graph'', ''reasoning_soft'',
      ''reasoning_synthesis'', ''kro_orchestrator'']"

definition get_breaker :: "string \<Rightarrow> breaker_registry \<Rightarrow> breaker \<times> breaker_registry" where
  "get_breaker n bs = (case dget bs n of
     Some b \<Rightarrow> (b, bs)
   | None \<Rightarrow> (circuit_breaker n 5 60, dset n (circuit_breaker n 5 60) bs))"

definition get_all_states :: "breaker_registry \<Rightarrow> (string, string) pydict" where
  "get_all_states bs = map (\<lambda>(n, b). (n, breaker_state_value (br_state b))) bs"

section \<open>Policies and fallbacks\<close>

record stage_policy =
  sp_timeout_seconds :: rat
  sp_max_retries :: int
  sp_sensitivity_class :: string

definition policy :: "rat \<Rightarrow> int \<Rightarrow> string \<Rightarrow> stage_policy" where
  "policy t n c = \<lparr>sp_timeout_seconds = t, sp_max_retries = n, sp_sensitivity_class = c\<rparr>"

definition default_policies :: "(string, stage_policy) pydict" where
  "default_policies =
     [(''spacy'', policy 2 0 ''normal''), (''distilbert'', policy 3 1 ''normal''),
      (''leangraph_projection'', policy 5 3 ''high''), (''profile_synthesis'', policy 10 1 ''high''),
      (''echocore_batch'', policy 300 0 ''high''), (''reasoning_retrieval'', policy 4 1 ''high''),
      (''reasoning_causal'', policy 6 1 ''high''), (''reasoning_graph'', policy 6 1 ''high''),
      (''reasoning_soft'', policy 4 1 ''high''), (''reasoning_synthesis'', policy 8 1 ''high''),
      (''kro_orchestrator'', policy 12 0 ''high'')]"

definition get_policy :: "string \<Rightarrow> (string, stage_policy) pydict \<Rightarrow> stage_policy" where
  "get_policy n ps = (case dget ps n of None \<Rightarrow> policy 5 1 ''normal'' | Some p \<Rightarrow> p)"

text \<open>A fallback: one of the built-in ones, or a function the client registered.\<close>

datatype fallback = SpacyFallback | DistilbertFallback | EmptyList | EmptyDict | BooleanFalse | Custom nat

type_synonym fallbacks = "(string, fallback) pydict"

definition register_fallback :: "string \<Rightarrow> fallback \<Rightarrow> fallbacks \<Rightarrow> fallbacks" where
  "register_fallback n f fs = dset n f fs"

definition default_fallbacks :: fallbacks where
  "default_fallbacks =
     register_fallback ''echocore_batch'' BooleanFalse
      (register_fallback ''profile_synthesis'' EmptyDict
        (register_fallback ''leangraph_projection'' BooleanFalse
          (register_fallback ''distilbert'' DistilbertFallback
            (register_fallback ''spacy'' SpacyFallback []))))"

text \<open>What a stage ends with: a value, or an exception (its name) that leaves the runner.\<close>

datatype stage_result = Value pyval | Escaped string

fun run_fallback :: "(nat \<Rightarrow> stage_result) \<Rightarrow> fallback \<Rightarrow> stage_result" where
  "run_fallback custom SpacyFallback =
     Value (PDict [(''entities'', PList []), (''keywords'', PList []), (''status'', PStr ''degraded'')])"
| "run_fallback custom DistilbertFallback = Value (PFloat (Fin (1 / 2)))"
| "run_fallback custom EmptyList = Value (PList [])"
| "run_fallback custom EmptyDict = Value (PDict [])"
| "run_fallback custom BooleanFalse = Value (PBool False)"
| "run_fallback custom (Custom i) = custom i"

definition get_fallback ::
    "(nat \<Rightarrow> stage_result) \<Rightarrow> string \<Rightarrow> fallbacks \<Rightarrow> stage_result \<times> stage_event list" where
  "get_fallback custom n fs = (case dget fs n of
     Some f \<Rightarrow> (run_fallback custom f, [FallbackActivated n ''stage_fallback'' None])
   | None \<Rightarrow> (Value PNone, [FallbackActivated n ''no_fallback_registered'' None]))"

section \<open>Running a stage\<close>

datatype outcome = Returned pyval | TimedOut | Raised string | CancelledAttempt

text \<open>
  Attempt \<open>a\<close> (from 0): what it does, the loop time when the deadline is read before it, the loop
  time when a timeout is handled, and the wall time when a failure is recorded.
\<close>

record stage_env =
  en_start :: rat
  en_wall_start :: rat
  en_outcome :: "nat \<Rightarrow> outcome"
  en_top :: "nat \<Rightarrow> rat"
  en_late :: "nat \<Rightarrow> rat"
  en_wall :: "nat \<Rightarrow> rat"

datatype attempts_end = Succeeded pyval | GaveUp nat "string option" | Aborted

text \<open>
  The \<^verbatim>\<open>while\<close> loop, with \<open>n\<close> attempts left (\<^verbatim>\<open>retries_left + 1\<close>) after \<open>a\<close> attempts.
\<close>

fun run_attempts ::
    "stage_env \<Rightarrow> string \<Rightarrow> int \<Rightarrow> rat \<Rightarrow> nat \<Rightarrow> nat \<Rightarrow> string option \<Rightarrow> breaker \<Rightarrow>
     attempts_end \<times> stage_event list \<times> breaker" where
  "run_attempts e s retries dl 0 a err b = (GaveUp a err, [], b)"
| "run_attempts e s retries dl (Suc n) a err b =
     (if dl - en_top e a \<le> 0 then (GaveUp a (Some ''deadline_exhausted''), [], b)
      else (let started = AttemptStarted s (Suc a) (int n) in
        case en_outcome e a of
          Returned v \<Rightarrow>
            (let (be, b') = record_success b
             in (Succeeded v, started # be @ [AttemptCompleted s (Suc a) (retries - int n)], b'))
        | TimedOut \<Rightarrow>
            (let (be, b') = record_failure (en_wall e a) b;
                 evs = started # be @ [AttemptFailed s (Suc a) ''timeout'' (int n)]
                       @ (if 0 < n \<and> dl > en_late e a then [Retrying s (Suc a) ''timeout''] else []);
                 (r, evs', b'') = run_attempts e s retries dl n (Suc a) (Some ''timeout'') b'
             in (r, evs @ evs', b''))
        | Raised x \<Rightarrow>
            (let (be, b') = record_failure (en_wall e a) b;
                 evs = started # be @ [AttemptFailed s (Suc a) x (int n)]
                       @ (if 0 < n then [Retrying s (Suc a) ''exception''] else []);
                 (r, evs', b'') = run_attempts e s retries dl n (Suc a) (Some x) b'
             in (r, evs @ evs', b''))
        | CancelledAttempt \<Rightarrow> (Aborted, [started], b)))"

record stage_runner =
  sr_flags :: feature_flags
  sr_breakers :: breaker_registry
  sr_fallbacks :: fallbacks
  sr_policies :: "(string, stage_policy) pydict"

definition new_runner :: stage_runner where
  "new_runner = \<lparr>sr_flags = new_flags, sr_breakers = default_breakers,
     sr_fallbacks = default_fallbacks, sr_policies = default_policies\<rparr>"

definition put_breaker :: "string \<Rightarrow> breaker \<Rightarrow> stage_runner \<Rightarrow> stage_runner" where
  "put_breaker s b r = r\<lparr>sr_breakers := dset s b (sr_breakers r)\<rparr>"

definition run_stage ::
    "(nat \<Rightarrow> stage_result) \<Rightarrow> stage_env \<Rightarrow> string \<Rightarrow> string \<Rightarrow> string option \<Rightarrow> string option \<Rightarrow>
     (string, bool) pydict option \<Rightarrow> stage_runner \<Rightarrow> stage_result \<times> stage_event list \<times> stage_runner" where
  "run_stage custom e s flag tenant user req r =
     (if \<not> is_enabled flag tenant user req (sr_flags r)
      then (let (v, evs) = get_fallback custom s (sr_fallbacks r)
            in (v, FallbackActivated s ''feature_flag_disabled'' (Some (''flag_disabled:'' @ flag)) # evs, r))
      else (let (b, bs) = get_breaker s (sr_breakers r);
                p = get_policy s (sr_policies r);
                (allowed, b1) = allow_request (en_wall_start e) b;
                r1 = put_breaker s b1 (r\<lparr>sr_breakers := bs\<rparr>)
            in if \<not> allowed
               then (let (v, evs) = get_fallback custom s (sr_fallbacks r)
                     in (v, FallbackActivated s ''circuit_open'' (Some ''circuit_breaker_open'') # evs, r1))
               else (let (res, evs, b2) = run_attempts e s (sp_max_retries p)
                         (en_start e + sp_timeout_seconds p) (nat (sp_max_retries p + 1)) 0 None b1;
                         r2 = put_breaker s b2 r1
                     in case res of
                          Succeeded v \<Rightarrow> (Value v, evs, r2)
                        | Aborted \<Rightarrow> (Escaped ''CancelledError'', evs, r2)
                        | GaveUp a err \<Rightarrow>
                            (let (v, evs') = get_fallback custom s (sr_fallbacks r)
                             in (v, evs @ Exhausted s a err # Degraded s # evs', r2)))))"

section \<open>Health\<close>

record health_status =
  hs_status :: string
  hs_circuit_breakers :: "(string, string) pydict"
  hs_open_count :: nat
  hs_half_open_count :: nat
  hs_healthy_count :: int

definition get_health_status :: "breaker_registry \<Rightarrow> health_status" where
  "get_health_status bs =
     (let states = get_all_states bs;
          opened = filter (\<lambda>(_, s). s = ''OPEN'') states;
          half = filter (\<lambda>(_, s). s = ''HALF_OPEN'') states
      in \<lparr>hs_status = (if opened \<noteq> [] then ''DEGRADED'' else ''HEALTHY''), hs_circuit_breakers = states,
          hs_open_count = length opened, hs_half_open_count = length half,
          hs_healthy_count = int (length states) - int (length opened) - int (length half)\<rparr>)"

section \<open>Runs of a breaker\<close>

datatype breaker_op = Success | Failure rat | Ask rat

fun breaker_step :: "breaker_op \<Rightarrow> breaker \<Rightarrow> breaker" where
  "breaker_step Success b = snd (record_success b)"
| "breaker_step (Failure now) b = snd (record_failure now b)"
| "breaker_step (Ask now) b = snd (allow_request now b)"

fun breaker_run :: "breaker_op list \<Rightarrow> breaker \<Rightarrow> breaker" where
  "breaker_run [] b = b"
| "breaker_run (op # ops) b = breaker_run ops (breaker_step op b)"

lemma breaker_run_snoc: "breaker_run (ops @ [op]) b = breaker_step op (breaker_run ops b)"
  by (induction ops arbitrary: b) simp_all

text \<open>The outcomes of a run (true for a failure), the failures at its end, and the last of them.\<close>

fun outcomes :: "breaker_op list \<Rightarrow> bool list" where
  "outcomes [] = []"
| "outcomes (Success # ops) = False # outcomes ops"
| "outcomes (Failure t # ops) = True # outcomes ops"
| "outcomes (Ask t # ops) = outcomes ops"

definition trailing :: "bool list \<Rightarrow> nat" where
  "trailing os = length (takeWhile (\<lambda>f. f) (rev os))"

fun last_failure :: "breaker_op list \<Rightarrow> rat option" where
  "last_failure [] = None"
| "last_failure (op # ops) = (case last_failure ops of
     Some t \<Rightarrow> Some t | None \<Rightarrow> (case op of Failure t \<Rightarrow> Some t | _ \<Rightarrow> None))"

definition failed_in_a_row :: "nat \<Rightarrow> bool list \<Rightarrow> bool" where
  "failed_in_a_row k os \<longleftrightarrow> (\<exists>xs ys. os = xs @ replicate k True @ ys)"

lemma outcomes_append: "outcomes (xs @ ys) = outcomes xs @ outcomes ys"
  by (induction xs rule: outcomes.induct) simp_all

lemma last_failure_snoc:
  "last_failure (ops @ [op]) = (case op of Failure t \<Rightarrow> Some t | _ \<Rightarrow> last_failure ops)"
  by (induction ops) (auto split: breaker_op.splits option.splits)

lemma trailing_simps [simp]:
  "trailing [] = 0" "trailing (os @ [True]) = Suc (trailing os)" "trailing (os @ [False]) = 0"
  by (simp_all add: trailing_def)

lemma trailing_row: "failed_in_a_row (trailing os) os"
proof -
  have "rev os = takeWhile (\<lambda>f. f) (rev os) @ dropWhile (\<lambda>f. f) (rev os)" by simp
  moreover have "takeWhile (\<lambda>f. f) (rev os) = replicate (trailing os) True"
    by (rule replicate_eqI) (auto simp: trailing_def dest: set_takeWhileD)
  ultimately have "rev (rev os) = rev (dropWhile (\<lambda>f. f) (rev os)) @ rev (replicate (trailing os) True)"
    by (metis rev_append)
  then show ?thesis unfolding failed_in_a_row_def by (metis append_Nil2 rev_replicate rev_rev_ident)
qed

lemma row_append: "failed_in_a_row k os \<Longrightarrow> failed_in_a_row k (os @ zs)"
  unfolding failed_in_a_row_def by (metis append.assoc)

text \<open>
  A closed breaker has counted the failures since the last success, fewer than its threshold; one
  that is not closed has seen a full row of failures and remembers the time of the last one.
\<close>

definition breaker_ok :: "int \<Rightarrow> rat \<Rightarrow> breaker_op list \<Rightarrow> breaker \<Rightarrow> bool" where
  "breaker_ok k t ops b \<longleftrightarrow> br_failure_threshold b = k \<and> br_recovery_timeout b = t
     \<and> (if br_state b = CLOSED then br_failures b = int (trailing (outcomes ops)) \<and> br_failures b < k
        else failed_in_a_row (nat k) (outcomes ops) \<and> last_failure ops = Some (br_last_failure_time b))"

lemma breaker_step_ok:
  assumes "breaker_ok k t ops b" "0 < k" shows "breaker_ok k t (ops @ [op]) (breaker_step op b)"
proof (cases op)
  case Success
  with assms show ?thesis
    by (auto simp: breaker_ok_def record_success_def outcomes_append last_failure_snoc row_append split: if_splits)
next
  case (Ask now)
  with assms show ?thesis
    by (auto simp: breaker_ok_def allow_request_def outcomes_append last_failure_snoc split: breaker_state.splits if_splits)
next
  case (Failure now)
  have r: "failed_in_a_row (nat k) (outcomes ops @ [True])"
    if "br_state b = CLOSED" "br_failures b + 1 \<ge> k"
  proof -
    have "nat k = trailing (outcomes ops @ [True])"
      using assms that by (auto simp: breaker_ok_def)
    then show ?thesis using trailing_row [of "outcomes ops @ [True]"] by simp
  qed
  from Failure assms r show ?thesis
    by (auto simp: breaker_ok_def record_failure_def Let_def outcomes_append last_failure_snoc row_append
        split: if_splits)
qed

lemma breaker_run_ok:
  "0 < k \<Longrightarrow> breaker_ok k t ops (breaker_run ops (circuit_breaker n k t))"
proof (induction ops rule: rev_induct)
  case Nil
  then show ?case by (simp add: breaker_ok_def circuit_breaker_def)
next
  case (snoc op ops)
  then show ?case by (simp add: breaker_run_snoc breaker_step_ok)
qed

section \<open>What a run of a stage does\<close>

definition is_start :: "stage_event \<Rightarrow> bool" where
  "is_start ev = (case ev of AttemptStarted _ _ _ \<Rightarrow> True | _ \<Rightarrow> False)"

definition failed_attempt :: "outcome \<Rightarrow> bool" where
  "failed_attempt x = (case x of TimedOut \<Rightarrow> True | Raised _ \<Rightarrow> True | _ \<Rightarrow> False)"

lemma breaker_events_no_start:
  "filter is_start (fst (record_success b)) = []" "filter is_start (fst (record_failure t b)) = []"
  by (auto simp: record_success_def record_failure_def is_start_def Let_def)

text \<open>A failed attempt: it starts once, and the loop goes on with one attempt less.\<close>

lemma attempt_fails:
  assumes "failed_attempt (en_outcome e a)" "en_top e a < dl"
  obtains x evs1 r evs' b'' where
    "run_attempts e s m dl n (Suc a) (Some x) (snd (record_failure (en_wall e a) b)) = (r, evs', b'')"
    "run_attempts e s m dl (Suc n) a err b = (r, evs1 @ evs', b'')" "length (filter is_start evs1) = 1"
proof -
  from assms(1) obtain x where x: "en_outcome e a = TimedOut \<and> x = ''timeout'' \<or> en_outcome e a = Raised x"
    by (cases "en_outcome e a") (auto simp: failed_attempt_def)
  obtain r evs' b'' where t: "run_attempts e s m dl n (Suc a) (Some x)
      (snd (record_failure (en_wall e a) b)) = (r, evs', b'')" by (metis prod_cases3)
  have d: "\<not> dl - en_top e a \<le> 0" using assms(2) by simp
  from x show thesis
  proof
    assume o: "en_outcome e a = TimedOut \<and> x = ''timeout''"
    show thesis
      by (rule that [OF t]) (use o d t breaker_events_no_start in
        \<open>auto simp: Let_def split_beta is_start_def filter_empty_conv\<close>)
  next
    assume o: "en_outcome e a = Raised x"
    show thesis
      by (rule that [OF t]) (use o d t breaker_events_no_start in
        \<open>auto simp: Let_def split_beta is_start_def filter_empty_conv\<close>)
  qed
qed

text \<open>The attempt that decides a call: the first in time that did not fail.\<close>

definition decisive :: "stage_env \<Rightarrow> rat \<Rightarrow> nat \<Rightarrow> nat \<Rightarrow> bool" where
  "decisive e dl n j \<longleftrightarrow> j < n \<and> (\<forall>i \<le> j. en_top e i < dl) \<and> (\<forall>i < j. failed_attempt (en_outcome e i))
     \<and> \<not> failed_attempt (en_outcome e j)"

definition attempts_result :: "stage_env \<Rightarrow> rat \<Rightarrow> nat \<Rightarrow> nat \<Rightarrow> attempts_end \<Rightarrow> nat \<Rightarrow> bool" where
  "attempts_result e dl n a res m \<longleftrightarrow>
     (\<exists>j \<le> n. (\<forall>i < j. failed_attempt (en_outcome e (a + i)) \<and> en_top e (a + i) < dl)
       \<and> (case res of
            Succeeded v \<Rightarrow> j < n \<and> en_top e (a + j) < dl \<and> en_outcome e (a + j) = Returned v \<and> m = Suc j
          | Aborted \<Rightarrow> j < n \<and> en_top e (a + j) < dl \<and> en_outcome e (a + j) = CancelledAttempt \<and> m = Suc j
          | GaveUp c _ \<Rightarrow> c = a + j \<and> (j = n \<or> dl \<le> en_top e (a + j)) \<and> m = j))"

lemma attempts_result_Suc:
  assumes "attempts_result e dl n (Suc a) res m" "failed_attempt (en_outcome e a)" "en_top e a < dl"
  shows "attempts_result e dl (Suc n) a res (Suc m)"
proof -
  from assms(1) obtain j where j: "j \<le> n"
    "\<forall>i < j. failed_attempt (en_outcome e (Suc a + i)) \<and> en_top e (Suc a + i) < dl"
    "case res of
        Succeeded v \<Rightarrow> j < n \<and> en_top e (Suc a + j) < dl \<and> en_outcome e (Suc a + j) = Returned v \<and> m = Suc j
      | Aborted \<Rightarrow> j < n \<and> en_top e (Suc a + j) < dl \<and> en_outcome e (Suc a + j) = CancelledAttempt \<and> m = Suc j
      | GaveUp c _ \<Rightarrow> c = Suc a + j \<and> (j = n \<or> dl \<le> en_top e (Suc a + j)) \<and> m = j"
    unfolding attempts_result_def by blast
  have "\<forall>i < Suc j. failed_attempt (en_outcome e (a + i)) \<and> en_top e (a + i) < dl"
    using j(2) assms(2,3) by (auto simp: less_Suc_eq_0_disj)
  then show ?thesis
    unfolding attempts_result_def using j(1,3)
    by (intro exI [of _ "Suc j"]) (auto split: attempts_end.splits)
qed

lemma attempts_spec:
  "run_attempts e s m dl n a err b = (res, evs, b') \<Longrightarrow>
     attempts_result e dl n a res (length (filter is_start evs))"
proof (induction n arbitrary: a err b res evs b')
  case 0
  then show ?case by (auto simp: attempts_result_def)
next
  case (Suc n)
  consider (late) "dl \<le> en_top e a" | (ok) v where "en_top e a < dl" "en_outcome e a = Returned v"
    | (cancel) "en_top e a < dl" "en_outcome e a = CancelledAttempt"
    | (fail) "en_top e a < dl" "failed_attempt (en_outcome e a)"
    by (cases "en_outcome e a") (auto simp: failed_attempt_def not_le [symmetric])
  then show ?case
  proof cases
    case late
    with Suc.prems show ?thesis
      by (auto simp: attempts_result_def intro!: exI [of _ 0])
  next
    case ok
    with Suc.prems breaker_events_no_start show ?thesis
      by (auto simp: attempts_result_def Let_def split_beta is_start_def filter_empty_conv intro!: exI [of _ 0])
  next
    case cancel
    with Suc.prems show ?thesis
      by (auto simp: attempts_result_def Let_def is_start_def intro!: exI [of _ 0])
  next
    case fail
    from attempt_fails [OF fail(2,1), of s m n b err] Suc.prems obtain x evs1 evs' where
      r: "run_attempts e s m dl n (Suc a) (Some x) (snd (record_failure (en_wall e a) b)) = (res, evs', b')"
      and ev: "evs = evs1 @ evs'" and l: "length (filter is_start evs1) = 1" by (metis prod.inject)
    from attempts_result_Suc [OF Suc.IH [OF r] fail(2,1)] ev l show ?thesis by simp
  qed
qed

text \<open>What the loop ends with is fixed by the deciding attempt, or by there being none.\<close>

lemma attempts_decided:
  assumes "attempts_result e dl n 0 fin m" "decisive e dl n j"
  shows "m = Suc j \<and> (case fin of Succeeded v \<Rightarrow> en_outcome e j = Returned v
    | Aborted \<Rightarrow> en_outcome e j = CancelledAttempt | GaveUp c err \<Rightarrow> False)"
proof -
  obtain i where i: "i \<le> n" "\<forall>h < i. failed_attempt (en_outcome e h) \<and> en_top e h < dl"
    "case fin of Succeeded v \<Rightarrow> i < n \<and> en_top e i < dl \<and> en_outcome e i = Returned v \<and> m = Suc i
      | Aborted \<Rightarrow> i < n \<and> en_top e i < dl \<and> en_outcome e i = CancelledAttempt \<and> m = Suc i
      | GaveUp c _ \<Rightarrow> c = i \<and> (i = n \<or> dl \<le> en_top e i) \<and> m = i"
    using assms(1) unfolding attempts_result_def add_0 by blast
  note d = assms(2) [unfolded decisive_def]
  have "\<not> j < i" using i(2) d by blast
  moreover have "\<not> i < j \<or> (\<exists>c err. fin = GaveUp c err)"
    using i(3) d by (auto simp: failed_attempt_def split: attempts_end.splits)
  ultimately show ?thesis using i(3) d by (cases fin) (auto simp: not_less)
qed

lemma attempts_undecided:
  assumes "attempts_result e dl n 0 fin m" "\<forall>j. \<not> decisive e dl n j"
  shows "\<exists>c err. fin = GaveUp c err"
proof (cases fin)
  case (Succeeded v)
  with assms(1) obtain j where "j < n" "en_top e j < dl" "en_outcome e j = Returned v"
    "\<forall>i < j. failed_attempt (en_outcome e i) \<and> en_top e i < dl" by (auto simp: attempts_result_def)
  then have "decisive e dl n j" by (auto simp: decisive_def le_less failed_attempt_def)
  with assms(2) show ?thesis by blast
next
  case Aborted
  with assms(1) obtain j where "j < n" "en_top e j < dl" "en_outcome e j = CancelledAttempt"
    "\<forall>i < j. failed_attempt (en_outcome e i) \<and> en_top e i < dl" by (auto simp: attempts_result_def)
  then have "decisive e dl n j" by (auto simp: decisive_def le_less failed_attempt_def)
  with assms(2) show ?thesis by blast
qed simp

lemma fallback_value:
  assumes "\<forall>i. dget fs s \<noteq> Some (Custom i)"
  obtains v where "fst (get_fallback custom s fs) = Value v"
proof (cases "dget fs s")
  case None
  then show thesis using that by (simp add: get_fallback_def)
next
  case (Some f)
  with assms that show thesis by (cases f) (auto simp: get_fallback_def)
qed

lemma fallback_events: "filter is_start (snd (get_fallback custom s fs)) = []"
  by (simp add: get_fallback_def is_start_def split: option.splits)

lemma get_breaker_others: "n \<noteq> s \<Longrightarrow> dget (snd (get_breaker s bs)) n = dget bs n"
  by (auto simp: get_breaker_def dget_dset split: option.splits)

text \<open>The three ways a call of the runner can go.\<close>

lemma run_stage_cases:
  assumes "run_stage custom e s flag tenant user req r = (res, evs, r')"
  obtains (skipped) ev where "res = fst (get_fallback custom s (sr_fallbacks r))"
      "evs = ev # snd (get_fallback custom s (sr_fallbacks r))" "\<not> is_start ev"
      "\<And>n. n \<noteq> s \<Longrightarrow> dget (sr_breakers r') n = dget (sr_breakers r) n"
      "\<not> (is_enabled flag tenant user req (sr_flags r)
         \<and> fst (allow_request (en_wall_start e) (fst (get_breaker s (sr_breakers r)))))"
  | (tried) fin evs1 b1 b2 where
      "run_attempts e s (sp_max_retries (get_policy s (sr_policies r)))
         (en_start e + sp_timeout_seconds (get_policy s (sr_policies r)))
         (nat (sp_max_retries (get_policy s (sr_policies r)) + 1)) 0 None b1 = (fin, evs1, b2)"
      "is_enabled flag tenant user req (sr_flags r)
         \<and> fst (allow_request (en_wall_start e) (fst (get_breaker s (sr_breakers r))))"
      "case fin of Succeeded v \<Rightarrow> res = Value v \<and> evs = evs1
         | Aborted \<Rightarrow> res = Escaped ''CancelledError'' \<and> evs = evs1
         | GaveUp a err \<Rightarrow> res = fst (get_fallback custom s (sr_fallbacks r))
             \<and> evs = evs1 @ Exhausted s a err # Degraded s # snd (get_fallback custom s (sr_fallbacks r))"
      "\<And>n. n \<noteq> s \<Longrightarrow> dget (sr_breakers r') n = dget (sr_breakers r) n"
proof (cases "is_enabled flag tenant user req (sr_flags r)")
  case False
  show thesis
    by (rule skipped [of "FallbackActivated s ''feature_flag_disabled'' (Some (''flag_disabled:'' @ flag))"])
      (use False assms in \<open>auto simp: run_stage_def split_beta is_start_def\<close>)
next
  case en: True
  obtain b bs where b: "get_breaker s (sr_breakers r) = (b, bs)" by fastforce
  obtain al b1 where al: "allow_request (en_wall_start e) b = (al, b1)" by fastforce
  have o: "dget bs n = dget (sr_breakers r) n" if "n \<noteq> s" for n
    using get_breaker_others [OF that, of "sr_breakers r"] b by simp
  show thesis
  proof (cases al)
    case False
    show thesis
      by (rule skipped [of "FallbackActivated s ''circuit_open'' (Some ''circuit_breaker_open'')"])
        (use False en assms b al o in \<open>auto simp: run_stage_def split_beta is_start_def put_breaker_def dget_dset\<close>)
  next
    case True
    let ?p = "get_policy s (sr_policies r)"
    obtain fin evs1 b2 where ra: "run_attempts e s (sp_max_retries ?p) (en_start e + sp_timeout_seconds ?p)
        (nat (sp_max_retries ?p + 1)) 0 None b1 = (fin, evs1, b2)" by (metis prod_cases3)
    show thesis
      by (rule tried [OF ra])
        (use True en assms b al o ra in \<open>auto simp: run_stage_def Let_def split_beta put_breaker_def dget_dset
          split: attempts_end.splits\<close>)
  qed
qed

section \<open>Properties\<close>

text \<open>
  C9: what a stage run through the runner gives is decided exactly. When the feature flag is on and
  the breaker admits the call, the first attempt that starts before the deadline and does not fail
  decides: its value is the result, or its cancellation escapes, and the function was called just
  that often. Without such an attempt, with the flag off, or with the breaker refusing, the result is
  the fallback of the stage. The function is called at most one time more than the retries the
  policy allows, not at all when the flag is off or the breaker refuses, and no other stage's breaker
  changes. So the caller always gets a value where no attempt is cancelled and the stage's fallback
  is one of the built-in ones.
\<close>

theorem stage_degrades_gracefully:
  assumes "run_stage custom e s flag tenant user req r = (res, evs, r')"
    and "p = get_policy s (sr_policies r)" "k = nat (sp_max_retries p + 1)"
    and "admitted \<longleftrightarrow> is_enabled flag tenant user req (sr_flags r)
          \<and> fst (allow_request (en_wall_start e) (fst (get_breaker s (sr_breakers r))))"
    and "deciding = decisive e (en_start e + sp_timeout_seconds p) k"
  shows "(\<forall>j. admitted \<and> deciding j \<longrightarrow>
        length (filter is_start evs) = Suc j
        \<and> res = (case en_outcome e j of Returned v \<Rightarrow> Value v | _ \<Rightarrow> Escaped ''CancelledError''))
    \<and> (\<not> admitted \<or> (\<forall>j. \<not> deciding j) \<longrightarrow> res = fst (get_fallback custom s (sr_fallbacks r)))
    \<and> length (filter is_start evs) \<le> (if admitted then k else 0)
    \<and> (\<forall>n. n \<noteq> s \<longrightarrow> dget (sr_breakers r') n = dget (sr_breakers r) n)
    \<and> ((\<forall>a. en_outcome e a \<noteq> CancelledAttempt) \<and> (\<forall>i. dget (sr_fallbacks r) s \<noteq> Some (Custom i))
        \<longrightarrow> (\<exists>v. res = Value v))"
proof -
  have fv: "\<exists>v. fst (get_fallback custom s (sr_fallbacks r)) = Value v"
    if "\<forall>i. dget (sr_fallbacks r) s \<noteq> Some (Custom i)"
    using fallback_value [OF that, of custom] by blast
  from assms(1) show ?thesis
  proof (cases rule: run_stage_cases)
    case (skipped ev)
    then show ?thesis using fallback_events [of custom s "sr_fallbacks r"] fv assms(4) by auto
  next
    case (tried fin evs1 b1 b2)
    let ?m = "length (filter is_start evs1)"
    have ar: "attempts_result e (en_start e + sp_timeout_seconds p) k 0 fin ?m"
      using attempts_spec [OF tried(1)] by (simp add: assms(2,3))
    have adm: admitted using tried(2) assms(4) by simp
    have m: "length (filter is_start evs) = ?m" "?m \<le> k"
      using tried(3) ar fallback_events [of custom s "sr_fallbacks r"]
      by (auto simp: is_start_def attempts_result_def split: attempts_end.splits)
    have "length (filter is_start evs) = Suc j
        \<and> res = (case en_outcome e j of Returned v \<Rightarrow> Value v | _ \<Rightarrow> Escaped ''CancelledError'')"
      if "deciding j" for j
      using attempts_decided [OF ar that [unfolded assms(5)]] m(1) tried(3) by (cases fin) auto
    moreover have "res = fst (get_fallback custom s (sr_fallbacks r))" if "\<forall>j. \<not> deciding j"
      using attempts_undecided [OF ar] that tried(3) by (auto simp: assms(5))
    moreover have "\<exists>v. res = Value v"
      if "\<forall>a. en_outcome e a \<noteq> CancelledAttempt" "\<forall>i. dget (sr_fallbacks r) s \<noteq> Some (Custom i)"
      using tried(3) ar that(1) fv [OF that(2)] by (auto simp: attempts_result_def split: attempts_end.splits)
    ultimately show ?thesis using adm m tried(4) by auto
  qed
qed

definition slow_then_fine :: stage_env where
  "slow_then_fine =
     \<lparr>en_start = 0, en_wall_start = 0,
      en_outcome = (\<lambda>a. if a = 0 then TimedOut else Returned (PInt 7)),
      en_top = (\<lambda>a. of_nat a), en_late = (\<lambda>a. of_nat a + 1), en_wall = (\<lambda>a. of_nat a + 1)\<rparr>"

theorem stage_degrades_gracefully_witness:
  "\<exists>evs r'. run_stage (\<lambda>_. Escaped []) slow_then_fine ''distilbert'' ''distilbert_enabled'' None None None
        new_runner = (Value (PInt 7), evs, r') \<and> length (filter is_start evs) = 2"
proof -
  obtain res evs r' where r: "run_stage (\<lambda>_. Escaped []) slow_then_fine ''distilbert'' ''distilbert_enabled''
      None None None new_runner = (res, evs, r')" by (metis prod_cases3)
  let ?p = "get_policy ''distilbert'' (sr_policies (new_runner :: stage_runner))"
  have on: "is_enabled ''distilbert_enabled'' None None None (sr_flags (new_runner :: stage_runner))
      \<and> fst (allow_request 0 (fst (get_breaker ''distilbert'' (sr_breakers (new_runner :: stage_runner)))))" by code_simp
  have p: "sp_timeout_seconds ?p = 3" "nat (sp_max_retries ?p + 1) = 2" by code_simp+
  have d: "decisive slow_then_fine (en_start slow_then_fine + sp_timeout_seconds ?p) (nat (sp_max_retries ?p + 1)) 1"
    unfolding p decisive_def by (auto simp: slow_then_fine_def failed_attempt_def le_Suc_eq)
  have "length (filter is_start evs) = Suc 1
      \<and> res = (case en_outcome slow_then_fine 1 of Returned v \<Rightarrow> Value v | _ \<Rightarrow> Escaped ''CancelledError'')"
    using stage_degrades_gracefully [OF r refl refl refl refl] d on by (auto simp: slow_then_fine_def)
  with r show ?thesis by (auto simp: slow_then_fine_def)
qed

text \<open>
  a breaker refuses only for cause: since it was created it has seen a full row of failures,
  with no success in between, and the last failure is more recent than the recovery timeout.
\<close>

theorem breaker_refuses_for_cause:
  assumes "0 < k" "\<not> fst (allow_request now (breaker_run ops (circuit_breaker n k t)))"
  shows "failed_in_a_row (nat k) (outcomes ops) \<and> (\<exists>w. last_failure ops = Some w \<and> now - w < t)"
  using breaker_run_ok [OF assms(1), of t ops n] assms(2)
  by (auto simp: breaker_ok_def allow_request_def split: breaker_state.splits if_splits)

theorem breaker_refuses_for_cause_witness:
  "failed_in_a_row 2 (outcomes [Success, Failure 1, Failure 2])
   \<and> \<not> fst (allow_request 3 (breaker_run [Success, Failure 1, Failure 2] (circuit_breaker ''s'' 2 60)))"
proof -
  have "\<not> fst (allow_request 3 (breaker_run [Success, Failure 1, Failure 2] (circuit_breaker ''s'' 2 60)))"
    by code_simp
  with breaker_refuses_for_cause [OF _ this] show ?thesis by simp
qed

text \<open>
  once the recovery timeout has passed, the breaker admits every request until an outcome is
  recorded, not a single probe.
\<close>

theorem half_open_admits_every_request:
  assumes "br_state b = OPEN" "now - br_last_failure_time b \<ge> br_recovery_timeout b"
  shows "fst (allow_request now (breaker_run (replicate i (Ask now)) b))"
proof -
  have h: "breaker_run (replicate j (Ask now)) c = c" if "br_state c = HALF_OPEN" for j c
    using that by (induction j) (simp_all add: allow_request_def)
  show ?thesis
    using assms by (cases i) (simp_all add: allow_request_def h)
qed

theorem half_open_admits_every_request_witness:
  "fst (allow_request 100 (breaker_run [Ask 100, Ask 100]
     (breaker_run [Failure 1, Failure 2] (circuit_breaker ''s'' 2 60))))"
proof -
  have "br_state (breaker_run [Failure 1, Failure 2] (circuit_breaker ''s'' 2 60)) = OPEN"
    "100 - br_last_failure_time (breaker_run [Failure 1, Failure 2] (circuit_breaker ''s'' 2 60))
      \<ge> br_recovery_timeout (breaker_run [Failure 1, Failure 2] (circuit_breaker ''s'' 2 60))"
    by code_simp+
  from half_open_admits_every_request [OF this, of 2] show ?thesis by (simp add: numeral_2_eq_2)
qed

end
