(* ===== verification/ChatStore.thy ===== *)
theory ChatStore
  imports Wire
begin

text \<open>
  The conversation tables and their repository,
  \<^verbatim>\<open>services/database/repositories/postgres_conversation_repository.py\<close>, with the rows of the
  chat-run tables that \<open>ChatRuns\<close> works on. A table is a list of rows in insertion order; a
  column of type \<^verbatim>\<open>UUID\<close> holds the canonical text, a column of type \<^verbatim>\<open>JSONB\<close> a value, an
  instant is an integer of microseconds. Each method is one transaction: an error leaves the
  tables as they were. Foreign keys delete the messages, drafts and journal events of a deleted
  conversation or run. What the database does with a text is a field of \<open>chat_env\<close>: reading a
  UUID, printing a JSON value, the size of a stored JSON object.
\<close>

section \<open>Rows\<close>

record conversation =
  cv_id :: string
  cv_tenant :: string
  cv_user :: string
  cv_session :: "string option"
  cv_title :: "string option"
  cv_active :: bool
  cv_summary :: "string option"
  cv_tags :: "string list"
  cv_metadata :: pyval
  cv_created :: int
  cv_updated :: int

record message =
  ms_id :: string
  ms_conversation :: string
  ms_tenant :: string
  ms_role :: string
  ms_content :: string
  ms_created :: int
  ms_metadata :: "(string, pyval) pydict"

record message_row =
  mr_id :: string
  mr_conversation :: string
  mr_role :: string
  mr_content :: string
  mr_metadata :: "(string, pyval) pydict"
  mr_created :: int

record draft =
  df_conversation :: string
  df_tenant :: string
  df_user :: string
  df_text :: string
  df_revision :: int
  df_updated :: int

record chat_run =
  cr_execution :: string
  cr_tenant :: string
  cr_user :: string
  cr_conversation :: string
  cr_transport :: string
  cr_request :: string
  cr_correlation :: string
  cr_status :: string
  cr_lease_token :: "string option"
  cr_lease_expires :: "int option"
  cr_cancel_at :: "int option"
  cr_terminal_at :: "int option"
  cr_error_code :: "string option"
  cr_user_message :: "string option"
  cr_assistant_message :: "string option"
  cr_digest :: "string option"
  cr_created :: int
  cr_updated :: int

record run_event =
  re_execution :: string
  re_tenant :: string
  re_user :: string
  re_conversation :: string
  re_seq :: nat
  re_type :: string
  re_payload :: "(string, pyval) pydict"

record chat_store =
  cs_conversations :: "conversation list"
  cs_messages :: "message_row list"
  cs_drafts :: "draft list"
  cs_runs :: "chat_run list"
  cs_events :: "run_event list"

definition empty_store :: chat_store where
  "empty_store = \<lparr>cs_conversations = [], cs_messages = [], cs_drafts = [], cs_runs = [], cs_events = []\<rparr>"

section \<open>The database and the digest\<close>

record chat_env =
  ce_cast :: "string \<Rightarrow> string option"
  ce_json_text :: "pyval \<Rightarrow> string"
  ce_json_bytes :: "(string, pyval) pydict \<Rightarrow> nat"
  ce_float :: "rat \<Rightarrow> string"
  ce_sha256 :: "string \<Rightarrow> string"

text \<open>
  A repository answers \<^verbatim>\<open>RepositoryResult\<close>: an error code of its own, or the text of a driver
  error, which is not modelled.
\<close>

datatype repo_error = RepoError string | DriverError

definition casts :: "chat_env \<Rightarrow> string list \<Rightarrow> string list option" where
  "casts env xs = those (map (ce_cast env) xs)"

text \<open>A JSON parameter the database accepts: \<^verbatim>\<open>NaN\<close> and \<^verbatim>\<open>Infinity\<close> are not JSON.\<close>

definition json_ok :: "chat_env \<Rightarrow> pyval \<Rightarrow> bool" where
  "json_ok env v \<longleftrightarrow> json_value (ce_float env) v \<noteq> None"

text \<open>\<^verbatim>\<open>COALESCE(metadata ->> 'persona_scope_id', '')\<close> and a text parameter that may be null.\<close>

definition stored_scope :: "chat_env \<Rightarrow> pyval \<Rightarrow> string" where
  "stored_scope env m =
     (case m of
        PDict d \<Rightarrow> (case vget d ''persona_scope_id'' PNone of PNone \<Rightarrow> [] | PStr s \<Rightarrow> s | v \<Rightarrow> ce_json_text env v)
      | _ \<Rightarrow> [])"

definition text_param :: "pyval \<Rightarrow> string option" where
  "text_param v = (case v of PNone \<Rightarrow> Some [] | PStr s \<Rightarrow> Some s | _ \<Rightarrow> None)"

section \<open>Conversations\<close>

definition create_conversation :: "chat_env \<Rightarrow> conversation \<Rightarrow> chat_store \<Rightarrow> repo_error + string \<times> chat_store" where
  "create_conversation env c s =
     (case casts env [cv_id c, cv_tenant c, cv_user c] of
        Some [i, t, u] \<Rightarrow>
          (if \<not> json_ok env (cv_metadata c) \<or> i \<in> cv_id ` set (cs_conversations s) then Inl DriverError
           else Inr (cv_id c, s\<lparr>cs_conversations := cs_conversations s
                                 @ [c\<lparr>cv_id := i, cv_tenant := t, cv_user := u\<rparr>]\<rparr>))
      | _ \<Rightarrow> Inl DriverError)"

definition row_to_conversation :: "conversation \<Rightarrow> conversation" where
  "row_to_conversation c = c\<lparr>cv_metadata := py_or (cv_metadata c) (PDict [])\<rparr>"

definition get_conversation :: "chat_env \<Rightarrow> string \<Rightarrow> string \<Rightarrow> chat_store \<Rightarrow> repo_error + conversation option" where
  "get_conversation env i t s =
     (case casts env [i, t] of
        Some [i', t'] \<Rightarrow> Inr (map_option row_to_conversation
          (find (\<lambda>c. cv_id c = i' \<and> cv_tenant c = t') (cs_conversations s)))
      | _ \<Rightarrow> Inl DriverError)"

definition get_conversation_by_session ::
    "chat_env \<Rightarrow> string \<Rightarrow> string \<Rightarrow> string \<Rightarrow> chat_store \<Rightarrow> repo_error + conversation option" where
  "get_conversation_by_session env ses t u s =
     (case casts env [t, u] of
        Some [t', u'] \<Rightarrow>
          (case sort_by_desc cv_updated (filter (\<lambda>c. cv_tenant c = t' \<and> cv_user c = u' \<and> cv_session c = Some ses)
                  (cs_conversations s)) of
             [] \<Rightarrow> Inr None | c # _ \<Rightarrow> Inr (Some (row_to_conversation c)))
      | _ \<Rightarrow> Inl DriverError)"

record conversation_query =
  cq_tenant :: string
  cq_user :: "string option"
  cq_active :: "bool option"
  cq_tags :: "string list"
  cq_after :: "int option"
  cq_limit :: int
  cq_offset :: int

text \<open>An empty user id adds no clause; \<^verbatim>\<open>tags @> :tags\<close> is containment.\<close>

definition matching ::
    "chat_env \<Rightarrow> conversation_query \<Rightarrow> chat_store \<Rightarrow> repo_error + conversation list" where
  "matching env q s =
     (case casts env (cq_tenant q # (case cq_user q of Some u \<Rightarrow> if u = [] then [] else [u] | None \<Rightarrow> [])) of
        Some (t # us) \<Rightarrow> Inr (filter (\<lambda>c. cv_tenant c = t \<and> (us = [] \<or> us = [cv_user c])
            \<and> (case cq_active q of None \<Rightarrow> True | Some b \<Rightarrow> cv_active c = b)
            \<and> set (cq_tags q) \<subseteq> set (cv_tags c)
            \<and> (case cq_after q of None \<Rightarrow> True | Some x \<Rightarrow> x \<le> cv_created c)) (cs_conversations s))
      | _ \<Rightarrow> Inl DriverError)"

definition list_conversations ::
    "chat_env \<Rightarrow> conversation_query \<Rightarrow> chat_store \<Rightarrow> repo_error + conversation list" where
  "list_conversations env q s =
     rbind (matching env q s) (\<lambda>rows.
       if cq_limit q < 0 \<or> cq_offset q < 0 then Inl DriverError
       else Inr (map row_to_conversation (take (nat (cq_limit q)) (drop (nat (cq_offset q))
              (sort_by_desc cv_updated rows)))))"

definition count_conversations :: "chat_env \<Rightarrow> conversation_query \<Rightarrow> chat_store \<Rightarrow> repo_error + nat" where
  "count_conversations env q s = rbind (matching env q s) (\<lambda>rows. Inr (length rows))"

text \<open>\<^verbatim>\<open>(conversation.metadata or {}).get("persona_scope_id")\<close>: other than a dict has no \<^verbatim>\<open>get\<close>.\<close>

definition update_conversation :: "chat_env \<Rightarrow> conversation \<Rightarrow> chat_store \<Rightarrow> repo_error + bool \<times> chat_store" where
  "update_conversation env c s =
     (case casts env [cv_id c, cv_tenant c] of
        Some [i, t] \<Rightarrow>
          (case py_or (cv_metadata c) (PDict []) of
             PDict d \<Rightarrow>
               (case text_param (vget d ''persona_scope_id'' PNone) of
                  None \<Rightarrow> Inl DriverError
                | Some scope \<Rightarrow>
                    (if \<not> json_ok env (cv_metadata c) then Inl DriverError
                     else let hit = (\<lambda>r. cv_id r = i \<and> cv_tenant r = t \<and> stored_scope env (cv_metadata r) = scope)
                          in Inr (\<exists>r \<in> set (cs_conversations s). hit r,
                               s\<lparr>cs_conversations := map (\<lambda>r. if hit r then
                                   r\<lparr>cv_session := cv_session c, cv_title := cv_title c, cv_active := cv_active c,
                                     cv_summary := cv_summary c, cv_tags := cv_tags c,
                                     cv_metadata := cv_metadata c, cv_updated := cv_updated c\<rparr> else r)
                                 (cs_conversations s)\<rparr>)))
           | _ \<Rightarrow> Inl DriverError)
      | _ \<Rightarrow> Inl DriverError)"

text \<open>
  Deletion of a conversation its owner names: its runs with their journal, then the row with its
  messages and draft.
\<close>

definition owns :: "string \<Rightarrow> string \<Rightarrow> string \<Rightarrow> chat_store \<Rightarrow> bool" where
  "owns i t u s \<longleftrightarrow> (\<exists>c \<in> set (cs_conversations s). cv_id c = i \<and> cv_tenant c = t \<and> cv_user c = u)"

definition erased_run :: "string \<Rightarrow> string \<Rightarrow> string \<Rightarrow> chat_store \<Rightarrow> chat_run \<Rightarrow> bool" where
  "erased_run i t u s r \<longleftrightarrow> owns i t u s \<and> cr_tenant r = t \<and> cr_user r = u \<and> cr_conversation r = i"

definition erase_conversation :: "string \<Rightarrow> string \<Rightarrow> string \<Rightarrow> chat_store \<Rightarrow> chat_store" where
  "erase_conversation i t u s =
     s\<lparr>cs_conversations := filter (\<lambda>c. \<not> (cv_id c = i \<and> cv_tenant c = t \<and> cv_user c = u)) (cs_conversations s),
       cs_messages := filter (\<lambda>m. \<not> (owns i t u s \<and> mr_conversation m = i)) (cs_messages s),
       cs_drafts := filter (\<lambda>d. \<not> (owns i t u s \<and> df_conversation d = i)) (cs_drafts s),
       cs_runs := filter (\<lambda>r. \<not> erased_run i t u s r) (cs_runs s),
       cs_events := filter (\<lambda>e. \<not> (\<exists>r \<in> set (cs_runs s). erased_run i t u s r \<and> re_execution e = cr_execution r))
         (cs_events s)\<rparr>"

definition delete_conversation ::
    "chat_env \<Rightarrow> string \<Rightarrow> string \<Rightarrow> string \<Rightarrow> chat_store \<Rightarrow> repo_error + bool \<times> chat_store" where
  "delete_conversation env i t u s =
     (if u = [] then Inl (RepoError ''conversation_deletion_owner_required'')
      else case casts env [i, t, u] of
        Some [i', t', u'] \<Rightarrow> Inr (owns i' t' u' s, erase_conversation i' t' u' s)
      | _ \<Rightarrow> Inl DriverError)"

section \<open>Drafts\<close>

definition find_draft :: "string \<Rightarrow> chat_store \<Rightarrow> draft option" where
  "find_draft i s = find (\<lambda>d. df_conversation d = i) (cs_drafts s)"

definition draft_unavailable :: repo_error where
  "draft_unavailable = RepoError ''composer_draft_storage_unavailable''"

definition get_composer_draft ::
    "chat_env \<Rightarrow> string \<Rightarrow> string \<Rightarrow> string \<Rightarrow> chat_store \<Rightarrow> repo_error + string \<times> int" where
  "get_composer_draft env i t u s =
     (case casts env [i, t, u] of
        Some [i', t', u'] \<Rightarrow>
          (if \<not> owns i' t' u' s then Inl (RepoError ''conversation_not_found'')
           else (case find_draft i' s of
                   None \<Rightarrow> Inr ([], 0)
                 | Some d \<Rightarrow> if df_tenant d = t' \<and> df_user d = u' then Inr (df_text d, df_revision d) else Inr ([], 0)))
      | _ \<Rightarrow> Inl draft_unavailable)"

definition draft_ok :: "string \<Rightarrow> int \<Rightarrow> bool" where
  "draft_ok content expected \<longleftrightarrow>
     length content \<le> 65536 \<and> utf8_len content \<le> 262144 \<and> 0 \<le> expected \<and> expected \<le> 9223372036854775805"

definition put_composer_draft ::
    "chat_env \<Rightarrow> int \<Rightarrow> string \<Rightarrow> string \<Rightarrow> string \<Rightarrow> string \<Rightarrow> int \<Rightarrow> chat_store \<Rightarrow>
     repo_error + (string \<times> int) \<times> chat_store" where
  "put_composer_draft env clk i t u content expected s =
     (if \<not> draft_ok content expected then Inl (RepoError ''composer_draft_invalid'')
      else case casts env [i, t, u] of
        Some [i', t', u'] \<Rightarrow>
          (if \<not> owns i' t' u' s then Inl (RepoError ''conversation_not_found'')
           else (case find_draft i' s of
               None \<Rightarrow>
                 (if expected = 0
                  then Inr ((content, 1), s\<lparr>cs_drafts := cs_drafts s @
                         [\<lparr>df_conversation = i', df_tenant = t', df_user = u', df_text = content,
                           df_revision = 1, df_updated = clk\<rparr>]\<rparr>)
                  else Inl (RepoError ''composer_draft_revision_conflict''))
             | Some d \<Rightarrow>
                 (if df_tenant d = t' \<and> df_user d = u' \<and> df_revision d = expected
                  then Inr ((content, df_revision d + 1),
                         s\<lparr>cs_drafts := map (\<lambda>e. if df_conversation e = i'
                              then e\<lparr>df_text := content, df_revision := df_revision d + 1, df_updated := clk\<rparr>
                              else e) (cs_drafts s)\<rparr>)
                  else Inl (RepoError ''composer_draft_revision_conflict''))))
      | _ \<Rightarrow> Inl draft_unavailable)"

end
