(* ===== verification/ChatRuns.thy ===== *)
theory ChatRuns
  imports ChatStore "HOL-Library.Product_Lexorder"
begin

text \<open>
  The durable chat runs, \<^verbatim>\<open>persistence/repositories/chat_run_repository.py\<close>: admission, leases,
  terminal states, cancellation and the journal of projected events; and the transcript writes of
  the conversation repository, among them \<open>add_completed_turn\<close>, which commits both messages of a
  turn and the completion of its run in one transaction.

  \<open>now\<close> is the instant of the transaction (\<^verbatim>\<open>NOW()\<close>), \<open>clk\<close> the wall clock inside it
  (\<^verbatim>\<open>clock_timestamp()\<close>), \<open>ttl\<close> the lease setting in seconds. The identities of a lease are the
  canonical texts \<open>admit\<close> put there, so their casts are left out. Row-level security repeats the
  tenant and owner conditions the statements already have.
\<close>

section \<open>Leases\<close>

record run_lease =
  rl_execution :: string
  rl_token :: string
  rl_tenant :: string
  rl_user :: string
  rl_conversation :: string
  rl_transport :: string
  rl_request :: string
  rl_correlation :: string

text \<open>
  \<^verbatim>\<open>ValueError\<close> and \<^verbatim>\<open>RuntimeError\<close> with their texts, the \<^verbatim>\<open>ValueError\<close> of \<^verbatim>\<open>uuid.UUID\<close>, and the
  errors of the database.
\<close>

datatype chat_error = ChatValue string | ChatRuntime string | BadUuid | DatabaseError

definition ident_char :: "char \<Rightarrow> bool" where
  "ident_char c \<longleftrightarrow> (let n = (of_char c :: nat) in
     (48 \<le> n \<and> n \<le> 57) \<or> (65 \<le> n \<and> n \<le> 90) \<or> (97 \<le> n \<and> n \<le> 122)) \<or> c = CHR ''_'' \<or> c = CHR ''-''"

definition transport_ok :: "string \<Rightarrow> bool" where
  "transport_ok r \<longleftrightarrow> r \<noteq> [] \<and> length r \<le> 100 \<and> list_all ident_char r"

definition error_code_ok :: "string \<Rightarrow> bool" where
  "error_code_ok e \<longleftrightarrow> length e \<le> 64 \<and> e \<noteq> [] \<and> list_all (\<lambda>c. let n = (of_char c :: nat) in
     (48 \<le> n \<and> n \<le> 57) \<or> (65 \<le> n \<and> n \<le> 90) \<or> n = 95) e"

definition digest_ok :: "string \<Rightarrow> bool" where
  "digest_ok d \<longleftrightarrow> length d = 64 \<and> list_all (\<lambda>c. let n = (of_char c :: nat) in
     (48 \<le> n \<and> n \<le> 57) \<or> (97 \<le> n \<and> n \<le> 102)) d"

definition live_status :: "string \<Rightarrow> bool" where
  "live_status st \<longleftrightarrow> st = ''running'' \<or> st = ''cancelling''"

text \<open>\<^verbatim>\<open>UPDATE ... SET ... WHERE ... RETURNING\<close>: whether a row was hit, and the table.\<close>

definition update_runs :: "(chat_run \<Rightarrow> bool) \<Rightarrow> (chat_run \<Rightarrow> chat_run) \<Rightarrow> chat_store \<Rightarrow> bool \<times> chat_store" where
  "update_runs P f s = (\<exists>r \<in> set (cs_runs s). P r,
     s\<lparr>cs_runs := map (\<lambda>r. if P r then f r else r) (cs_runs s)\<rparr>)"

definition owned_run :: "run_lease \<Rightarrow> chat_run \<Rightarrow> bool" where
  "owned_run l r \<longleftrightarrow> cr_execution r = rl_execution l \<and> cr_tenant r = rl_tenant l \<and> cr_user r = rl_user l
     \<and> cr_conversation r = rl_conversation l"

definition same_request :: "run_lease \<Rightarrow> chat_run \<Rightarrow> bool" where
  "same_request l r \<longleftrightarrow> cr_request r = rl_request l \<and> cr_correlation r = rl_correlation l"

definition leased :: "int \<Rightarrow> run_lease \<Rightarrow> chat_run \<Rightarrow> bool" where
  "leased now l r \<longleftrightarrow> owned_run l r \<and> sql_eq (cr_lease_token r) (rl_token l) \<and> sql_after (cr_lease_expires r) now"

definition live_lease :: "int \<Rightarrow> run_lease \<Rightarrow> chat_run \<Rightarrow> bool" where
  "live_lease now l r \<longleftrightarrow> leased now l r \<and> cr_status r = ''running'' \<and> cr_cancel_at r = None"

text \<open>The row ends: a terminal state with its instant, and no lease any more.\<close>

definition end_run :: "int \<Rightarrow> string \<Rightarrow> chat_run \<Rightarrow> chat_run" where
  "end_run now st r = r\<lparr>cr_status := st, cr_terminal_at := Some now, cr_updated := now,
     cr_lease_token := None, cr_lease_expires := None\<rparr>"

section \<open>Admission, renewal, failure\<close>

definition reconcile_expired :: "int \<Rightarrow> string \<Rightarrow> string \<Rightarrow> chat_store \<Rightarrow> chat_store" where
  "reconcile_expired now t u s = snd (update_runs
     (\<lambda>r. cr_tenant r = t \<and> cr_user r = u \<and> live_status (cr_status r) \<and> sql_not_after (cr_lease_expires r) now)
     (\<lambda>r. (end_run now ''orphaned'' r)\<lparr>cr_error_code := Some ''CHAT_RUN_LEASE_EXPIRED''\<rparr>) s)"

definition same_transport :: "string \<Rightarrow> string \<Rightarrow> string \<Rightarrow> string \<Rightarrow> chat_run \<Rightarrow> bool" where
  "same_transport t u c run_id r \<longleftrightarrow>
     cr_tenant r = t \<and> cr_user r = u \<and> cr_conversation r = c \<and> cr_transport r = run_id"

text \<open>
  \<open>execution\<close> and \<open>token\<close> are the two fresh UUIDs. A second admission under the same transport
  identity inserts nothing and returns no lease.
\<close>

definition admit ::
    "int \<Rightarrow> string \<Rightarrow> string \<Rightarrow> int \<Rightarrow> string \<Rightarrow> string \<Rightarrow> string \<Rightarrow> string \<Rightarrow> string \<Rightarrow> string \<Rightarrow> chat_store \<Rightarrow>
     chat_error + run_lease option \<times> chat_store" where
  "admit now execution token ttl tenant user conv run_id req corr s =
     (if \<not> transport_ok run_id then Inl (ChatValue ''invalid_transport_run_id'')
      else if req = [] \<or> corr = [] then Inl (ChatValue ''missing_runtime_request_identity'')
      else case (py_uuid tenant, py_uuid user, py_uuid conv) of
        (Some t, Some u, Some c) \<Rightarrow>
          (let s1 = reconcile_expired now t u s
           in if \<exists>r \<in> set (cs_runs s1). same_transport t u c run_id r then Inr (None, s1)
              else if execution \<in> cr_execution ` set (cs_runs s1) then Inl DatabaseError
              else Inr (Some \<lparr>rl_execution = execution, rl_token = token, rl_tenant = t, rl_user = u,
                     rl_conversation = c, rl_transport = run_id, rl_request = req, rl_correlation = corr\<rparr>,
                   s1\<lparr>cs_runs := cs_runs s1 @
                     [\<lparr>cr_execution = execution, cr_tenant = t, cr_user = u, cr_conversation = c,
                       cr_transport = run_id, cr_request = req, cr_correlation = corr, cr_status = ''running'',
                       cr_lease_token = Some token, cr_lease_expires = Some (now + ttl * 1000000),
                       cr_cancel_at = None, cr_terminal_at = None, cr_error_code = None,
                       cr_user_message = None, cr_assistant_message = None, cr_digest = None,
                       cr_created = now, cr_updated = now\<rparr>]\<rparr>))
      | _ \<Rightarrow> Inl BadUuid)"

definition renew :: "int \<Rightarrow> int \<Rightarrow> run_lease \<Rightarrow> chat_store \<Rightarrow> bool \<times> chat_store" where
  "renew now ttl l s = update_runs (live_lease now l)
     (\<lambda>r. r\<lparr>cr_lease_expires := Some (now + ttl * 1000000), cr_updated := now\<rparr>) s"

definition finish ::
    "int \<Rightarrow> run_lease \<Rightarrow> string \<Rightarrow> string option \<Rightarrow> chat_store \<Rightarrow> chat_error + bool \<times> chat_store" where
  "finish now l st code s =
     (if st = ''completed'' then Inl (ChatValue ''chat_run_completion_requires_atomic_transcript_commit'')
      else if st \<notin> {''failed'', ''cancelled''} then Inl (ChatValue ''invalid_chat_run_terminal_status'')
      else if (case code of None \<Rightarrow> False | Some e \<Rightarrow> \<not> error_code_ok e)
      then Inl (ChatValue ''invalid_chat_run_error_code'')
      else Inr (update_runs
        (\<lambda>r. leased now l r \<and> (if st = ''cancelled'' then live_status (cr_status r)
                 else cr_status r = ''running'' \<and> cr_cancel_at r = None))
        (\<lambda>r. (end_run now st r)\<lparr>cr_error_code := code\<rparr>) s))"

section \<open>Cancellation and reads\<close>

definition scoped_run :: "string \<Rightarrow> string \<Rightarrow> string \<Rightarrow> string \<Rightarrow> chat_store \<Rightarrow> chat_run option" where
  "scoped_run t u c run_id s = find (same_transport t u c run_id) (cs_runs s)"

definition stop_run :: "int \<Rightarrow> chat_run \<Rightarrow> chat_run" where
  "stop_run now r =
     (if sql_after (cr_lease_expires r) now
      then r\<lparr>cr_status := ''cancelling'',
             cr_cancel_at := (case cr_cancel_at r of None \<Rightarrow> Some now | Some x \<Rightarrow> Some x),
             cr_terminal_at := None, cr_error_code := None, cr_updated := now\<rparr>
      else r\<lparr>cr_status := ''orphaned'', cr_cancel_at := None, cr_terminal_at := Some now,
             cr_error_code := Some ''CHAT_RUN_LEASE_EXPIRED'', cr_lease_token := None, cr_updated := now\<rparr>)"

definition request_cancel ::
    "int \<Rightarrow> string \<Rightarrow> string \<Rightarrow> string \<Rightarrow> string \<Rightarrow> chat_store \<Rightarrow> chat_error + string option \<times> chat_store" where
  "request_cancel now tenant user conv run_id s =
     (if \<not> transport_ok run_id then Inl (ChatValue ''invalid_transport_run_id'')
      else case (py_uuid tenant, py_uuid user, py_uuid conv) of
        (Some t, Some u, Some c) \<Rightarrow>
          (case scoped_run t u c run_id s of
             None \<Rightarrow> Inr (None, s)
           | Some r \<Rightarrow>
               if \<not> live_status (cr_status r) then Inr (Some (cr_status r), s)
               else Inr (Some (cr_status (stop_run now r)),
                 snd (update_runs (\<lambda>r. same_transport t u c run_id r \<and> live_status (cr_status r)) (stop_run now) s)))
      | _ \<Rightarrow> Inl BadUuid)"

definition cancel_requested :: "int \<Rightarrow> run_lease \<Rightarrow> chat_store \<Rightarrow> bool" where
  "cancel_requested now l s \<longleftrightarrow>
     (\<exists>r \<in> set (cs_runs s). leased now l r \<and> cr_status r = ''cancelling'' \<and> cr_cancel_at r \<noteq> None)"

definition run_of_lease :: "run_lease \<Rightarrow> chat_run \<Rightarrow> bool" where
  "run_of_lease l r \<longleftrightarrow> owned_run l r \<and> cr_transport r = rl_transport l \<and> same_request l r"

definition run_completed :: "run_lease \<Rightarrow> chat_store \<Rightarrow> bool" where
  "run_completed l s \<longleftrightarrow>
     (\<exists>r \<in> set (cs_runs s). run_of_lease l r \<and> cr_status r = ''completed'' \<and> cr_terminal_at r \<noteq> None)"

text \<open>A saved message of the conversation with that identity and role, written for that request.\<close>

definition saved_for :: "string \<Rightarrow> string \<Rightarrow> string \<Rightarrow> string \<Rightarrow> chat_store \<Rightarrow> bool" where
  "saved_for mid conv mrole req s \<longleftrightarrow>
     (\<exists>m \<in> set (cs_messages s). mr_id m = mid \<and> mr_conversation m = conv \<and> mr_role m = mrole
        \<and> dget (mr_metadata m) ''request_id'' = Some (PStr req))"

definition committed_turn :: "run_lease \<Rightarrow> string \<Rightarrow> string \<Rightarrow> chat_store \<Rightarrow> bool" where
  "committed_turn l uid aid s \<longleftrightarrow>
     (case (py_uuid uid, py_uuid aid) of
        (Some um, Some am) \<Rightarrow>
          (\<exists>r \<in> set (cs_runs s). run_of_lease l r \<and> owns (cr_conversation r) (cr_tenant r) (cr_user r) s
             \<and> cr_status r = ''completed'' \<and> cr_terminal_at r \<noteq> None
             \<and> cr_user_message r = Some um \<and> cr_assistant_message r = Some am \<and> cr_digest r \<noteq> None
             \<and> saved_for um (cr_conversation r) ''user'' (cr_request r) s
             \<and> saved_for am (cr_conversation r) ''assistant'' (cr_request r) s)
      | _ \<Rightarrow> False)"

record run_status =
  st_status :: string
  st_cancel_requested :: bool
  st_cancellation_confirmed :: bool

definition known_statuses :: "string list" where
  "known_statuses = [''running'', ''cancelling'', ''cancelled'', ''completed'', ''failed'', ''orphaned'']"

definition read_status ::
    "int \<Rightarrow> string \<Rightarrow> string \<Rightarrow> string \<Rightarrow> string \<Rightarrow> chat_store \<Rightarrow> chat_error + run_status option" where
  "read_status clk tenant user conv run_id s =
     (if \<not> transport_ok run_id then Inl (ChatValue ''invalid_transport_run_id'')
      else case (py_uuid tenant, py_uuid user, py_uuid conv) of
        (Some t, Some u, Some c) \<Rightarrow>
          (case scoped_run t u c run_id s of
             None \<Rightarrow> Inr None
           | Some r \<Rightarrow>
               (let st = cr_status r; requested = cr_cancel_at r \<noteq> None; ended = cr_terminal_at r \<noteq> None
                in if st \<notin> set known_statuses then Inl (ChatRuntime ''unrecognized_chat_run_status'')
                   else if \<not> live_status st \<and> \<not> ended then Inl (ChatRuntime ''unverified_chat_run_terminal'')
                   else (let st' = (if live_status st \<and> \<not> sql_after (cr_lease_expires r) clk
                                    then ''interrupted'' else st)
                         in Inr (Some \<lparr>st_status = st', st_cancel_requested = requested,
                              st_cancellation_confirmed = (st' = ''cancelled'' \<and> requested \<and> ended)\<rparr>))))
      | _ \<Rightarrow> Inl BadUuid)"

section \<open>Messages\<close>

definition meta :: "message \<Rightarrow> string \<Rightarrow> pyval" where
  "meta m k = vget (ms_metadata m) k PNone"

definition new_row :: "string \<Rightarrow> string \<Rightarrow> message \<Rightarrow> message_row" where
  "new_row i c m = \<lparr>mr_id = i, mr_conversation = c, mr_role = ms_role m, mr_content = ms_content m,
     mr_metadata = ms_metadata m, mr_created = ms_created m\<rparr>"

definition find_message :: "string \<Rightarrow> chat_store \<Rightarrow> message_row option" where
  "find_message i s = find (\<lambda>r. mr_id r = i) (cs_messages s)"

text \<open>
  One message: inserted under its parent conversation, accepted again when the stored row says the
  same, refused otherwise. The flag tells a replay.
\<close>

definition add_message :: "chat_env \<Rightarrow> message \<Rightarrow> chat_store \<Rightarrow> repo_error + (string \<times> bool) \<times> chat_store" where
  "add_message env m s =
     (case casts env [ms_id m, ms_conversation m, ms_tenant m] of
        Some [i, c, t] \<Rightarrow>
          (case text_param (meta m ''persona_scope_id'') of
             None \<Rightarrow> Inl DriverError
           | Some scope \<Rightarrow>
               (let parent = (\<exists>v \<in> set (cs_conversations s). cv_id v = c \<and> cv_tenant v = t);
                    writable = (\<exists>v \<in> set (cs_conversations s). cv_id v = c \<and> cv_tenant v = t
                                  \<and> stored_scope env (cv_metadata v) = scope)
                in if \<not> json_ok env (PDict (ms_metadata m)) then Inl DriverError
                   else if writable \<and> find_message i s = None
                   then Inr ((ms_id m, False), s\<lparr>cs_messages := cs_messages s @ [new_row i c m]\<rparr>)
                   else (case find_message i s of
                       None \<Rightarrow> Inl (RepoError ''conversation_not_found_or_tenant_mismatch'')
                     | Some r \<Rightarrow>
                         if \<not> (mr_conversation r = c \<and> parent)
                         then Inl (RepoError ''conversation_not_found_or_tenant_mismatch'')
                         else if mr_role r = ms_role m \<and> mr_content r = ms_content m
                         then Inr ((ms_id m, True), s)
                         else Inl (RepoError ''message_idempotency_conflict''))))
      | _ \<Rightarrow> Inl DriverError)"

definition role_rank :: "string \<Rightarrow> nat" where
  "role_rank x = (if x = ''user'' then 0 else if x = ''assistant'' then 1 else 2)"

definition row_to_message :: "string \<Rightarrow> message_row \<Rightarrow> message" where
  "row_to_message t r = \<lparr>ms_id = mr_id r, ms_conversation = mr_conversation r, ms_tenant = t,
     ms_role = mr_role r, ms_content = mr_content r, ms_created = mr_created r, ms_metadata = mr_metadata r\<rparr>"

definition get_messages ::
    "chat_env \<Rightarrow> string \<Rightarrow> string \<Rightarrow> int \<Rightarrow> int \<Rightarrow> bool \<Rightarrow> chat_store \<Rightarrow> repo_error + message list" where
  "get_messages env conv tenant n offset newest s =
     (case casts env [conv, tenant] of
        Some [c, t] \<Rightarrow>
          (if n < 0 \<or> offset < 0 then Inl DriverError
           else let parent = (\<exists>v \<in> set (cs_conversations s). cv_id v = c \<and> cv_tenant v = t);
                    rows = sort_by (\<lambda>r. (mr_created r, role_rank (mr_role r), mr_id r))
                             (filter (\<lambda>r. mr_conversation r = c \<and> parent) (cs_messages s));
                    ordered = (if newest then rev rows else rows)
                in Inr (map (row_to_message t) (take (nat n) (drop (nat offset) ordered))))
      | _ \<Rightarrow> Inl DriverError)"

definition in_tenant :: "string \<Rightarrow> string \<Rightarrow> chat_store \<Rightarrow> message_row \<Rightarrow> bool" where
  "in_tenant i t s r \<longleftrightarrow> mr_id r = i \<and>
     (\<exists>v \<in> set (cs_conversations s). cv_id v = mr_conversation r \<and> cv_tenant v = t)"

definition update_message :: "chat_env \<Rightarrow> message \<Rightarrow> chat_store \<Rightarrow> repo_error + bool \<times> chat_store" where
  "update_message env m s =
     (case casts env [ms_id m, ms_tenant m] of
        Some [i, t] \<Rightarrow>
          (if \<not> json_ok env (PDict (ms_metadata m)) then Inl DriverError
           else Inr (\<exists>r \<in> set (cs_messages s). in_tenant i t s r,
                  s\<lparr>cs_messages := map (\<lambda>r. if in_tenant i t s r
                       then r\<lparr>mr_content := ms_content m, mr_metadata := ms_metadata m\<rparr> else r) (cs_messages s)\<rparr>))
      | _ \<Rightarrow> Inl DriverError)"

definition delete_message :: "chat_env \<Rightarrow> string \<Rightarrow> string \<Rightarrow> chat_store \<Rightarrow> repo_error + bool \<times> chat_store" where
  "delete_message env i t s =
     (case casts env [i, t] of
        Some [i', t'] \<Rightarrow> Inr (\<exists>r \<in> set (cs_messages s). in_tenant i' t' s r,
          s\<lparr>cs_messages := filter (\<lambda>r. \<not> in_tenant i' t' s r) (cs_messages s)\<rparr>)
      | _ \<Rightarrow> Inl DriverError)"

section \<open>The completed turn\<close>

definition message_digest :: "chat_env \<Rightarrow> message \<Rightarrow> string option" where
  "message_digest env m = map_option (ce_sha256 env) (json_value (ce_float env) (sort_keys (PDict
     [(''id'', PStr (ms_id m)), (''conversation_id'', PStr (ms_conversation m)), (''tenant_id'', PStr (ms_tenant m)),
      (''role'', PStr (ms_role m)), (''content'', PStr (ms_content m)), (''metadata'', PDict (ms_metadata m))])))"

definition write_failed :: repo_error where
  "write_failed = RepoError ''completed_turn_write_failed''"

definition turn_valid :: "message \<Rightarrow> message \<Rightarrow> bool" where
  "turn_valid um am \<longleftrightarrow>
     ms_role um = ''user'' \<and> ms_role am = ''assistant'' \<and> ms_conversation um = ms_conversation am
     \<and> ms_tenant um = ms_tenant am \<and> ms_id um \<noteq> ms_id am
     \<and> truthy (meta um ''authorized_user_id'')
     \<and> py_eq (meta um ''authorized_user_id'') (meta am ''authorized_user_id'')
     \<and> py_eq (meta um ''persona_scope_id'') (meta am ''persona_scope_id'')"

definition turn_in_lease :: "message \<Rightarrow> message \<Rightarrow> run_lease \<Rightarrow> bool" where
  "turn_in_lease um am l \<longleftrightarrow>
     ms_tenant um = rl_tenant l \<and> ms_conversation um = rl_conversation l
     \<and> meta um ''authorized_user_id'' = PStr (rl_user l)
     \<and> meta um ''request_id'' = PStr (rl_request l) \<and> meta am ''request_id'' = PStr (rl_request l)"

definition authorize_turn ::
    "int \<Rightarrow> message \<Rightarrow> message \<Rightarrow> run_lease option \<Rightarrow> chat_store \<Rightarrow> repo_error + unit" where
  "authorize_turn now um am lease s =
     (case lease of
        None \<Rightarrow> Inr ()
      | Some l \<Rightarrow>
          if \<not> turn_in_lease um am l then Inl (RepoError ''chat_run_transcript_scope_mismatch'')
          else if \<exists>r \<in> set (cs_runs s). live_lease now l r \<and> same_request l r then Inr ()
          else Inl (RepoError ''chat_run_commit_not_authorized''))"

text \<open>
  The parent conversation is locked; one that has neither a persona scope nor a message may be
  claimed for the scope of the turn, any other must have the scope of the turn.
\<close>

definition claim_scope :: "chat_env \<Rightarrow> message \<Rightarrow> chat_store \<Rightarrow> repo_error + chat_store" where
  "claim_scope env um s =
     (case meta um ''authorized_user_id'' of
        PStr user \<Rightarrow>
          (case casts env [ms_conversation um, ms_tenant um, user] of
             Some [c, t, u] \<Rightarrow>
               (case find (\<lambda>v. cv_id v = c \<and> cv_tenant v = t \<and> cv_user v = u) (cs_conversations s) of
                  None \<Rightarrow> Inl (RepoError ''conversation_not_found_or_tenant_mismatch'')
                | Some v \<Rightarrow>
                    (case cv_metadata v of
                       PDict d \<Rightarrow>
                         (let stored = vget d ''persona_scope_id'' PNone; wanted = meta um ''persona_scope_id''
                          in if stored = PNone \<and> truthy wanted then
                               (if \<exists>m \<in> set (cs_messages s). mr_conversation m = c
                                then Inl (RepoError ''conversation_persona_scope_mismatch'')
                                else (case wanted of
                                   PStr sc \<Rightarrow> Inr (s\<lparr>cs_conversations := map (\<lambda>w.
                                      if cv_id w = c \<and> cv_tenant w = t \<and> cv_user w = u
                                      then w\<lparr>cv_metadata := PDict (dset ''persona_scope_id'' (PStr sc) d)\<rparr> else w)
                                      (cs_conversations s)\<rparr>)
                                 | _ \<Rightarrow> Inl write_failed))
                             else if \<not> py_eq stored wanted
                             then Inl (RepoError ''conversation_persona_scope_mismatch'') else Inr s)
                     | _ \<Rightarrow> Inl (RepoError ''conversation_persona_scope_invalid'')))
           | _ \<Rightarrow> Inl write_failed)
      | _ \<Rightarrow> Inl write_failed)"

text \<open>One of the two inserts: whether a row was written.\<close>

definition put_turn_message :: "chat_env \<Rightarrow> message \<Rightarrow> chat_store \<Rightarrow> repo_error + bool \<times> chat_store" where
  "put_turn_message env m s =
     (case casts env [ms_id m, ms_conversation m] of
        Some [i, c] \<Rightarrow>
          (if \<not> json_ok env (PDict (ms_metadata m)) then Inl write_failed
           else (case find_message i s of
               None \<Rightarrow> Inr (True, s\<lparr>cs_messages := cs_messages s @ [new_row i c m]\<rparr>)
             | Some r \<Rightarrow>
                 if mr_conversation r = ms_conversation m \<and> mr_role r = ms_role m \<and> mr_content r = ms_content m
                    \<and> py_eq (PDict (mr_metadata r)) (PDict (ms_metadata m))
                 then Inr (False, s) else Inl (RepoError ''message_idempotency_conflict'')))
      | _ \<Rightarrow> Inl write_failed)"

text \<open>
  The completion of the run in the same transaction. The row constraints of the table ask for two
  different messages and a digest of 64 hexadecimal digits.
\<close>

definition complete_run ::
    "chat_env \<Rightarrow> int \<Rightarrow> int \<Rightarrow> message \<Rightarrow> message \<Rightarrow> run_lease option \<Rightarrow> chat_store \<Rightarrow> repo_error + chat_store" where
  "complete_run env now clk um am lease s =
     (case lease of
        None \<Rightarrow> Inr s
      | Some l \<Rightarrow>
          (case message_digest env am of
             None \<Rightarrow> Inl (RepoError ''Out of range float values are not JSON compliant'')
           | Some dg \<Rightarrow>
               (case casts env [ms_id um, ms_id am] of
                  Some [ui, ai] \<Rightarrow>
                    (let hit = (\<lambda>r. live_lease clk l r \<and> same_request l r)
                     in if \<not> (\<exists>r \<in> set (cs_runs s). hit r) then Inl (RepoError ''chat_run_commit_not_authorized'')
                        else if ui = ai \<or> \<not> digest_ok dg then Inl write_failed
                        else Inr (snd (update_runs hit (\<lambda>r. (end_run now ''completed'' r)
                               \<lparr>cr_user_message := Some ui, cr_assistant_message := Some ai, cr_digest := Some dg\<rparr>) s)))
                | _ \<Rightarrow> Inl write_failed)))"

definition add_completed_turn ::
    "chat_env \<Rightarrow> int \<Rightarrow> int \<Rightarrow> message \<Rightarrow> message \<Rightarrow> run_lease option \<Rightarrow> chat_store \<Rightarrow>
     repo_error + nat \<times> chat_store" where
  "add_completed_turn env now clk um am lease s =
     (if \<not> turn_valid um am then Inl (RepoError ''invalid_completed_turn'')
      else rbind (authorize_turn now um am lease s) (\<lambda>_.
           rbind (claim_scope env um s) (\<lambda>s1.
           rbind (put_turn_message env um s1) (\<lambda>(new1, s2).
           rbind (put_turn_message env am s2) (\<lambda>(new2, s3).
           let persisted = (if new1 then 1 else 0) + (if new2 then 1 else (0 :: nat))
           in if persisted = 1 then Inl (RepoError ''incomplete_turn_replay'')
              else rbind (complete_run env now clk um am lease s3) (\<lambda>s4. Inr (persisted, s4)))))))"

end
