(* ===== verification/ChatJournal.thy ===== *)
theory ChatJournal
  imports ChatRuns
begin

text \<open>
  The journal of a chat run: projected events appended under the lock of the run row, and the three
  readers of it (recovery pages, agent activity of completed runs, replay attestations), all from
  \<^verbatim>\<open>persistence/repositories/chat_run_repository.py\<close>; then the runs of all operations on the
  conversation store.
\<close>

section \<open>Appending\<close>

definition event_types :: "string list" where
  "event_types = [''RUN_STARTED'', ''TEXT_MESSAGE_START'', ''TEXT_MESSAGE_CONTENT'', ''TEXT_MESSAGE_END'',
     ''ACTIVITY_SNAPSHOT'', ''TOOL_CALL_START'', ''TOOL_CALL_END'', ''SUBAGENT_STARTED'', ''SUBAGENT_FINISHED'',
     ''SUBAGENT_ERROR'', ''CUSTOM'', ''RUN_ERROR'', ''RUN_FINISHED'']"

definition custom_names :: "string list" where
  "custom_names = [''karen.presentation.v1'', ''karen.execution_receipt.v1'', ''karen.response_integrity.v1'',
     ''karen.citations'', ''karen.agent_step'', ''karen.tool_activity'', ''karen.learning_decision'',
     ''karen.approval_required'', ''karen.status'', ''karen.warning'', ''karen.checkpoint'']"

definition receipt_names :: "string list" where
  "receipt_names = [''karen.execution_receipt.v1'', ''karen.response_integrity.v1'']"

definition max_event_bytes :: nat where "max_event_bytes = 32768"
definition max_events_per_run :: nat where "max_events_per_run = 2048"
definition max_journal_bytes :: nat where "max_journal_bytes = 8 * 1024 * 1024"
definition max_event_read :: int where "max_event_read = 100"

text \<open>The events of the closing envelope, which a completed run may still record.\<close>

definition envelope_event :: "string \<Rightarrow> (string, pyval) pydict \<Rightarrow> bool" where
  "envelope_event t ev \<longleftrightarrow> t = ''TEXT_MESSAGE_END''
     \<or> (t = ''CUSTOM'' \<and> vget ev ''name'' PNone \<in> PStr ` set receipt_names)"

definition terminal_event :: "string \<Rightarrow> bool" where
  "terminal_event t \<longleftrightarrow> t = ''RUN_FINISHED'' \<or> t = ''RUN_ERROR''"

definition ended_status :: "string \<Rightarrow> bool" where
  "ended_status st \<longleftrightarrow> st = ''failed'' \<or> st = ''cancelled'' \<or> st = ''orphaned''"

definition finished_run :: "chat_run \<Rightarrow> bool" where
  "finished_run r \<longleftrightarrow> cr_terminal_at r \<noteq> None \<and> cr_assistant_message r \<noteq> None
     \<and> (case cr_digest r of None \<Rightarrow> False | Some d \<Rightarrow> digest_ok d)"

definition event_allowed ::
    "int \<Rightarrow> run_lease \<Rightarrow> string \<Rightarrow> (string, pyval) pydict \<Rightarrow> chat_run \<Rightarrow> bool" where
  "event_allowed clk l t ev r =
     (if t = ''RUN_FINISHED'' then cr_status r = ''completed'' \<and> finished_run r
      else if t = ''RUN_ERROR'' then ended_status (cr_status r) \<and> cr_terminal_at r \<noteq> None
      else if cr_status r = ''completed'' \<and> envelope_event t ev then finished_run r
      else live_lease clk l r)"

definition event_shape :: "run_lease \<Rightarrow> (string, pyval) pydict \<Rightarrow> chat_error + string" where
  "event_shape l ev =
     (case vget ev ''type'' PNone of
        PStr t \<Rightarrow>
          (if t \<notin> set event_types then Inl (ChatValue ''invalid_chat_projection_event'')
           else if (t = ''RUN_STARTED'' \<or> t = ''RUN_FINISHED'')
                \<and> (vget ev ''threadId'' PNone \<noteq> PStr (rl_conversation l)
                   \<or> vget ev ''runId'' PNone \<noteq> PStr (rl_transport l))
           then Inl (ChatValue ''chat_projection_identity_mismatch'')
           else if t = ''CUSTOM'' \<and> vget ev ''name'' PNone \<notin> PStr ` set custom_names
           then Inl (ChatValue ''unsupported_chat_projection_custom_event'')
           else Inr t)
      | _ \<Rightarrow> Inl (ChatValue ''invalid_chat_projection_event''))"

definition in_journal :: "run_lease \<Rightarrow> run_event \<Rightarrow> bool" where
  "in_journal l e \<longleftrightarrow> re_execution e = rl_execution l \<and> re_tenant e = rl_tenant l \<and> re_user e = rl_user l
     \<and> re_conversation e = rl_conversation l"

definition last_seq :: "run_event list \<Rightarrow> nat" where
  "last_seq es = foldr (\<lambda>e n. max (re_seq e) n) es 0"

definition event_row :: "run_lease \<Rightarrow> nat \<Rightarrow> string \<Rightarrow> (string, pyval) pydict \<Rightarrow> run_event" where
  "event_row l n t ev = \<lparr>re_execution = rl_execution l, re_tenant = rl_tenant l, re_user = rl_user l,
     re_conversation = rl_conversation l, re_seq = n, re_type = t, re_payload = ev\<rparr>"

text \<open>
  The database refuses a payload whose stored text is longer than the limit, which the check on the
  compact text does not exclude: the stored text has a blank after every colon and comma.
\<close>

definition append_projected_event ::
    "chat_env \<Rightarrow> int \<Rightarrow> run_lease \<Rightarrow> (string, pyval) pydict \<Rightarrow> chat_store \<Rightarrow> chat_error + nat \<times> chat_store" where
  "append_projected_event env clk l ev s =
     rbind (event_shape l ev) (\<lambda>t.
       case json_value (ce_float env) (PDict ev) of
         None \<Rightarrow> Inl (ChatValue ''unserializable_chat_projection_event'')
       | Some enc \<Rightarrow>
           (if max_event_bytes < utf8_len enc then Inl (ChatValue ''chat_projection_event_size_limit'')
            else (case find (run_of_lease l) (cs_runs s) of
                None \<Rightarrow> Inl (ChatValue ''chat_projection_run_unavailable'')
              | Some r \<Rightarrow>
                  (if \<not> event_allowed clk l t ev r then Inl (ChatValue ''chat_projection_run_not_active'')
                   else let mine = filter (in_journal l) (cs_events s);
                            n = Suc (last_seq mine);
                            bytes = sum_list (map (ce_json_bytes env \<circ> re_payload) mine)
                        in if max_events_per_run < n \<or> max_journal_bytes < bytes + utf8_len enc
                           then Inl (ChatValue ''chat_projection_journal_limit'')
                           else if terminal_event t \<and> (\<exists>e \<in> set mine. terminal_event (re_type e))
                           then Inl (ChatValue ''chat_projection_terminal_already_recorded'')
                           else if max_event_bytes < ce_json_bytes env ev then Inl DatabaseError
                           else Inr (n, s\<lparr>cs_events := cs_events s @ [event_row l n t ev]\<rparr>)))))"

section \<open>Recovery pages\<close>

record event_page =
  ep_conversation :: string
  ep_run :: string
  ep_user :: string
  ep_tenant :: string
  ep_events :: "(nat \<times> (string, pyval) pydict) list"
  ep_next :: int
  ep_has_more :: bool
  ep_status :: string
  ep_terminal_confirmed :: bool
  ep_journal_terminal :: bool

definition run_journal :: "string \<Rightarrow> string \<Rightarrow> string \<Rightarrow> string \<Rightarrow> chat_store \<Rightarrow> run_event list" where
  "run_journal x t u c s =
     filter (\<lambda>e. re_execution e = x \<and> re_tenant e = t \<and> re_user e = u \<and> re_conversation e = c) (cs_events s)"

text \<open>The type of the terminal event in the journal contradicts the state of the run.\<close>

definition terminal_mismatch :: "string \<Rightarrow> string \<Rightarrow> bool" where
  "terminal_mismatch st ty \<longleftrightarrow>
     (st = ''completed'' \<and> ty \<noteq> ''RUN_FINISHED'') \<or> (ended_status st \<and> ty \<noteq> ''RUN_ERROR'') \<or> live_status st"

definition read_projected_events ::
    "int \<Rightarrow> string \<Rightarrow> string \<Rightarrow> string \<Rightarrow> string \<Rightarrow> int \<Rightarrow> int \<Rightarrow> chat_store \<Rightarrow> chat_error + event_page option" where
  "read_projected_events clk tenant user conv run_id after n s =
     (if \<not> transport_ok run_id then Inl (ChatValue ''invalid_transport_run_id'')
      else if after < 0 \<or> int max_events_per_run < after then Inl (ChatValue ''invalid_chat_event_cursor'')
      else if n < 1 \<or> max_event_read < n then Inl (ChatValue ''invalid_chat_event_page_limit'')
      else case (py_uuid tenant, py_uuid user, py_uuid conv) of
        (Some t, Some u, Some c) \<Rightarrow>
          (case scoped_run t u c run_id s of
             None \<Rightarrow> Inr None
           | Some r \<Rightarrow>
               (let journal = run_journal (cr_execution r) t u c s;
                    found = take (Suc (nat n)) (sort_by re_seq (filter (\<lambda>e. after < int (re_seq e)) journal));
                    page = take (nat n) found;
                    st = cr_status r
                in if (case find (\<lambda>e. terminal_event (re_type e)) journal of
                         None \<Rightarrow> False | Some e \<Rightarrow> terminal_mismatch st (re_type e))
                   then Inl (ChatRuntime ''chat_run_journal_terminal_state_mismatch'')
                   else let st' = (if live_status st \<and> \<not> sql_after (cr_lease_expires r) clk
                                   then ''interrupted'' else st)
                        in Inr (Some \<lparr>ep_conversation = c, ep_run = run_id, ep_user = u, ep_tenant = t,
                          ep_events = map (\<lambda>e. (re_seq e, re_payload e)) page,
                          ep_next = (if page = [] then after else int (re_seq (last page))),
                          ep_has_more = (nat n < length found), ep_status = st',
                          ep_terminal_confirmed = (st' = ''completed'' \<or> ended_status st'),
                          ep_journal_terminal = (\<exists>e \<in> set journal. terminal_event (re_type e))\<rparr>)))
      | _ \<Rightarrow> Inl BadUuid)"

section \<open>Completed turns and their agent steps\<close>

definition turn_saved :: "chat_run \<Rightarrow> chat_store \<Rightarrow> bool" where
  "turn_saved r s \<longleftrightarrow>
     cr_status r = ''completed'' \<and> cr_terminal_at r \<noteq> None
     \<and> owns (cr_conversation r) (cr_tenant r) (cr_user r) s
     \<and> (case (cr_user_message r, cr_assistant_message r) of
          (Some um, Some am) \<Rightarrow> saved_for um (cr_conversation r) ''user'' (cr_request r) s
            \<and> saved_for am (cr_conversation r) ''assistant'' (cr_request r) s
        | _ \<Rightarrow> False)"

definition completed_runs :: "string \<Rightarrow> string \<Rightarrow> string \<Rightarrow> chat_store \<Rightarrow> chat_run list" where
  "completed_runs t u c s =
     sort_by (\<lambda>r. (cr_created r, cr_execution r))
       (filter (\<lambda>r. cr_tenant r = t \<and> cr_user r = u \<and> cr_conversation r = c \<and> turn_saved r s) (cs_runs s))"

definition completed_replay_attestations ::
    "string \<Rightarrow> string \<Rightarrow> string \<Rightarrow> chat_store \<Rightarrow> chat_error + (string, string \<times> string) pydict" where
  "completed_replay_attestations tenant user conv s =
     (case (py_uuid tenant, py_uuid user, py_uuid conv) of
        (Some t, Some u, Some c) \<Rightarrow>
          (let rows = take 501 (filter (\<lambda>r. case cr_digest r of None \<Rightarrow> False | Some d \<Rightarrow> digest_ok d)
                        (completed_runs t u c s))
           in if 500 < length rows then Inl (ChatRuntime ''chat_replay_attestation_limit_exceeded'')
              else Inr (dict_of (map (\<lambda>r. (the (cr_assistant_message r),
                     (cr_request r, the (cr_digest r)))) rows)))
      | _ \<Rightarrow> Inl BadUuid)"

record activity =
  ac_request :: string
  ac_digest :: string
  ac_run :: string
  ac_terminal :: bool
  ac_events :: "(nat \<times> (string, pyval) pydict) list"

definition step_event :: "run_event \<Rightarrow> bool" where
  "step_event e \<longleftrightarrow> terminal_event (re_type e)
     \<or> (re_type e = ''CUSTOM'' \<and> vget (re_payload e) ''name'' PNone = PStr ''karen.agent_step'')"

text \<open>The joined rows, in the order of the query.\<close>

definition activity_rows :: "string \<Rightarrow> string \<Rightarrow> string \<Rightarrow> chat_store \<Rightarrow> (chat_run \<times> run_event) list" where
  "activity_rows t u c s = take 50001 (concat (map (\<lambda>r. map (Pair r)
     (sort_by re_seq (filter step_event (run_journal (cr_execution r) t u c s)))) (completed_runs t u c s)))"

definition opt_text :: "string option \<Rightarrow> string" where
  "opt_text x = (case x of None \<Rightarrow> ''None'' | Some d \<Rightarrow> d)"

definition activity_start ::
    "chat_run \<Rightarrow> (string, activity) pydict \<Rightarrow> chat_error + activity" where
  "activity_start r g =
     (case dget g (opt_text (cr_assistant_message r)) of
        Some a \<Rightarrow> Inr a
      | None \<Rightarrow>
          if 500 \<le> length g then Inl (ChatRuntime ''chat_activity_message_limit_exceeded'')
          else if \<not> digest_ok (opt_text (cr_digest r)) then Inl (ChatRuntime ''chat_activity_invalid_digest'')
          else Inr \<lparr>ac_request = cr_request r, ac_digest = opt_text (cr_digest r), ac_run = cr_transport r,
                    ac_terminal = False, ac_events = []\<rparr>)"

definition activity_row ::
    "string \<Rightarrow> chat_run \<times> run_event \<Rightarrow> (string, activity) pydict \<Rightarrow> chat_error + (string, activity) pydict" where
  "activity_row conv row g =
     (let r = fst row; e = snd row; mid = opt_text (cr_assistant_message r)
      in rbind (activity_start r g) (\<lambda>a.
        if ac_request a \<noteq> cr_request r \<or> ac_digest a \<noteq> opt_text (cr_digest r) \<or> ac_run a \<noteq> cr_transport r
        then Inl (ChatRuntime ''chat_activity_multiple_run_owners'')
        else if terminal_event (re_type e) then
          (if re_type e \<noteq> ''RUN_FINISHED'' \<or> ac_terminal a
              \<or> vget (re_payload e) ''type'' PNone \<noteq> PStr ''RUN_FINISHED''
              \<or> vget (re_payload e) ''runId'' PNone \<noteq> PStr (ac_run a)
              \<or> vget (re_payload e) ''threadId'' PNone \<noteq> PStr conv
           then Inl (ChatRuntime ''chat_activity_terminal_mismatch'')
           else Inr (dset mid (a\<lparr>ac_terminal := True\<rparr>) g))
        else if ac_terminal a then Inl (ChatRuntime ''chat_activity_post_terminal_event'')
        else if 100 < length (ac_events a @ [(re_seq e, re_payload e)])
        then Inl (ChatRuntime ''chat_activity_step_limit_exceeded'')
        else Inr (dset mid (a\<lparr>ac_events := ac_events a @ [(re_seq e, re_payload e)]\<rparr>) g)))"

fun activity_fold ::
    "string \<Rightarrow> (chat_run \<times> run_event) list \<Rightarrow> (string, activity) pydict \<Rightarrow> chat_error + (string, activity) pydict" where
  "activity_fold conv [] g = Inr g"
| "activity_fold conv (row # rows) g = rbind (activity_row conv row g) (activity_fold conv rows)"

definition completed_agent_activity ::
    "string \<Rightarrow> string \<Rightarrow> string \<Rightarrow> chat_store \<Rightarrow> chat_error + (string, activity) pydict" where
  "completed_agent_activity tenant user conv s =
     (case (py_uuid tenant, py_uuid user, py_uuid conv) of
        (Some t, Some u, Some c) \<Rightarrow>
          (let rows = activity_rows t u c s
           in if 50000 < length rows then Inl (ChatRuntime ''chat_activity_replay_limit_exceeded'')
              else rbind (activity_fold c rows []) (\<lambda>g.
                if \<exists>(_, a) \<in> set g. \<not> ac_terminal a \<and> ac_events a \<noteq> []
                then Inl (ChatRuntime ''chat_activity_journal_incomplete'')
                else Inr (filter (\<lambda>(_, a). ac_terminal a \<and> ac_events a \<noteq> []) g)))
      | _ \<Rightarrow> Inl BadUuid)"

section \<open>Runs of the store\<close>

datatype chat_op =
    CreateConversation conversation
  | UpdateConversation conversation
  | DeleteConversation string string string
  | PutDraft int string string string string int
  | AddMessage message
  | UpdateMessage message
  | DeleteMessage string string
  | Admit int string string int string string string string string string
  | Renew int int run_lease
  | Finish int run_lease string "string option"
  | RequestCancel int string string string string
  | CompleteTurn int int message message "run_lease option"
  | AppendEvent int run_lease "(string, pyval) pydict"

definition stays :: "chat_store \<Rightarrow> 'e + 'a \<times> chat_store \<Rightarrow> chat_store" where
  "stays s r = (case r of Inl _ \<Rightarrow> s | Inr (_, s') \<Rightarrow> s')"

fun chat_step :: "chat_env \<Rightarrow> chat_op \<Rightarrow> chat_store \<Rightarrow> chat_store" where
  "chat_step env (CreateConversation c) s = stays s (create_conversation env c s)"
| "chat_step env (UpdateConversation c) s = stays s (update_conversation env c s)"
| "chat_step env (DeleteConversation i t u) s = stays s (delete_conversation env i t u s)"
| "chat_step env (PutDraft clk i t u txt n) s = stays s (put_composer_draft env clk i t u txt n s)"
| "chat_step env (AddMessage m) s = stays s (add_message env m s)"
| "chat_step env (UpdateMessage m) s = stays s (update_message env m s)"
| "chat_step env (DeleteMessage i t) s = stays s (delete_message env i t s)"
| "chat_step env (Admit now x tok ttl t u c run req corr) s = stays s (admit now x tok ttl t u c run req corr s)"
| "chat_step env (Renew now ttl l) s = snd (renew now ttl l s)"
| "chat_step env (Finish now l st code) s = stays s (finish now l st code s)"
| "chat_step env (RequestCancel now t u c run) s = stays s (request_cancel now t u c run s)"
| "chat_step env (CompleteTurn now clk um am l) s = stays s (add_completed_turn env now clk um am l s)"
| "chat_step env (AppendEvent clk l ev) s = stays s (append_projected_event env clk l ev s)"

fun chat_run_ops :: "chat_env \<Rightarrow> chat_op list \<Rightarrow> chat_store \<Rightarrow> chat_store" where
  "chat_run_ops env [] s = s"
| "chat_run_ops env (op # ops) s = chat_run_ops env ops (chat_step env op s)"

end
