(* ===== verification/ChatRunCorrect.thy ===== *)
theory ChatRunCorrect
  imports ChatJournal StateMachines
begin

text \<open>
  What the conversation store keeps whatever operations run on it: identities are unique, a run is
  live with a lease or ended without one, and the journal of a run is numbered without gaps, has
  one terminal event at most, of the kind its final state asks for, and nothing but the closing
  envelope after it. The interpretation \<open>chat_runs\<close> adds who may change a run.
\<close>

section \<open>Well-formed stores\<close>

definition run_ok :: "chat_run \<Rightarrow> bool" where
  "run_ok r \<longleftrightarrow> cr_status r \<in> set known_statuses
     \<and> (live_status (cr_status r) \<longleftrightarrow> cr_terminal_at r = None)
     \<and> (live_status (cr_status r) \<longleftrightarrow> cr_lease_token r \<noteq> None)
     \<and> (live_status (cr_status r) \<longrightarrow> cr_lease_expires r \<noteq> None)
     \<and> (cr_status r = ''completed'' \<longrightarrow> finished_run r \<and> cr_user_message r \<noteq> None)
     \<and> py_uuid (cr_conversation r) = Some (cr_conversation r)"

definition run_scope :: "chat_run \<Rightarrow> string \<times> string \<times> string \<times> string" where
  "run_scope r = (cr_tenant r, cr_user r, cr_conversation r, cr_transport r)"

definition journal_of :: "string \<Rightarrow> chat_store \<Rightarrow> run_event list" where
  "journal_of x s = filter (\<lambda>e. re_execution e = x) (cs_events s)"

definition event_of :: "chat_run \<Rightarrow> run_event \<Rightarrow> bool" where
  "event_of r e \<longleftrightarrow> re_execution e = cr_execution r \<and> re_tenant e = cr_tenant r \<and> re_user e = cr_user r
     \<and> re_conversation e = cr_conversation r"

text \<open>The terminal events a run in that state may have.\<close>

definition terminal_fits :: "chat_run \<Rightarrow> run_event \<Rightarrow> bool" where
  "terminal_fits r e \<longleftrightarrow> (re_type e = ''RUN_FINISHED'' \<longrightarrow> cr_status r = ''completed'')
     \<and> (re_type e = ''RUN_ERROR'' \<longrightarrow> ended_status (cr_status r))"

definition numbered :: "run_event list \<Rightarrow> bool" where
  "numbered es \<longleftrightarrow> map re_seq es = [1..<Suc (length es)]"

definition journal_ok :: "chat_run \<Rightarrow> run_event list \<Rightarrow> bool" where
  "journal_ok r es \<longleftrightarrow>
     (\<forall>e \<in> set es. event_of r e \<and> terminal_fits r e \<and> vget (re_payload e) ''type'' PNone = PStr (re_type e))
     \<and> numbered es
     \<and> length (filter (\<lambda>e. terminal_event (re_type e)) es) \<le> 1
     \<and> sorted_wrt (\<lambda>a b. terminal_event (re_type a) \<longrightarrow> envelope_event (re_type b) (re_payload b)) es
     \<and> length es \<le> max_events_per_run"

definition store_ok :: "chat_store \<Rightarrow> bool" where
  "store_ok s \<longleftrightarrow> distinct (map cr_execution (cs_runs s)) \<and> distinct (map run_scope (cs_runs s))
     \<and> (\<forall>r \<in> set (cs_runs s). run_ok r \<and> journal_ok r (journal_of (cr_execution r) s))
     \<and> (\<forall>e \<in> set (cs_events s). \<exists>r \<in> set (cs_runs s). cr_execution r = re_execution e)"

definition run_row :: "string \<Rightarrow> chat_store \<Rightarrow> chat_run option" where
  "run_row x s = find (\<lambda>r. cr_execution r = x) (cs_runs s)"

section \<open>Looking rows up\<close>

lemma find_key_iff:
  "distinct (map f xs) \<Longrightarrow> find (\<lambda>y. f y = k) xs = Some x \<longleftrightarrow> x \<in> set xs \<and> f x = k"
  by (induction xs) (auto simp: image_iff)

lemma run_row_iff:
  "store_ok s \<Longrightarrow> run_row x s = Some r \<longleftrightarrow> r \<in> set (cs_runs s) \<and> cr_execution r = x"
  by (simp add: run_row_def store_ok_def find_key_iff)

lemma same_run: "store_ok s \<Longrightarrow> r \<in> set (cs_runs s) \<Longrightarrow> r' \<in> set (cs_runs s) \<Longrightarrow>
    cr_execution r = cr_execution r' \<Longrightarrow> r = r'"
  using run_row_iff [of s "cr_execution r'" r] run_row_iff [of s "cr_execution r'" r'] by simp

lemma scoped_run_iff:
  "store_ok s \<Longrightarrow> scoped_run t u c x s = Some r \<longleftrightarrow> r \<in> set (cs_runs s) \<and> run_scope r = (t, u, c, x)"
proof -
  have eq: "same_transport t u c x = (\<lambda>r. run_scope r = (t, u, c, x))"
    by (auto simp: same_transport_def run_scope_def fun_eq_iff)
  assume "store_ok s"
  then show ?thesis unfolding scoped_run_def eq by (simp add: store_ok_def find_key_iff)
qed

lemma run_okD: "store_ok s \<Longrightarrow> r \<in> set (cs_runs s) \<Longrightarrow> run_ok r"
  by (simp add: store_ok_def)

lemma journalD: "store_ok s \<Longrightarrow> r \<in> set (cs_runs s) \<Longrightarrow> journal_ok r (journal_of (cr_execution r) s)"
  by (simp add: store_ok_def)

text \<open>The journal the queries select is the journal of the run.\<close>

lemma run_journal_eq:
  assumes "store_ok s" "r \<in> set (cs_runs s)"
  shows "run_journal (cr_execution r) (cr_tenant r) (cr_user r) (cr_conversation r) s = journal_of (cr_execution r) s"
proof -
  have "\<forall>e \<in> set (journal_of (cr_execution r) s). event_of r e"
    using journalD [OF assms] by (simp add: journal_ok_def)
  then show ?thesis unfolding run_journal_def journal_of_def
    by (intro filter_cong) (auto simp: event_of_def)
qed

lemma in_journal_eq:
  assumes "store_ok s" "r \<in> set (cs_runs s)" "owned_run l r"
  shows "filter (in_journal l) (cs_events s) = journal_of (cr_execution r) s"
  using run_journal_eq [OF assms(1,2)] assms(3)
  by (simp add: run_journal_def in_journal_def [abs_def] owned_run_def)

section \<open>Updates of live rows\<close>

definition same_identity :: "chat_run \<Rightarrow> chat_run \<Rightarrow> bool" where
  "same_identity r r' \<longleftrightarrow> cr_execution r' = cr_execution r \<and> run_scope r' = run_scope r"

lemma journal_evolves:
  assumes "journal_ok r es" "run_ok r" "live_status (cr_status r)" "same_identity r r'"
  shows "journal_ok r' es"
proof -
  have nt: "re_type e \<noteq> ''RUN_FINISHED'' \<and> re_type e \<noteq> ''RUN_ERROR''" if "e \<in> set es" for e
    using assms(1,3) that by (auto simp: journal_ok_def terminal_fits_def ended_status_def live_status_def)
  show ?thesis using assms(1,4) nt
    by (simp add: journal_ok_def terminal_fits_def event_of_def same_identity_def run_scope_def)
qed

lemma update_runs_ok:
  assumes ok: "store_ok s"
    and f: "\<And>r. r \<in> set (cs_runs s) \<Longrightarrow> P r \<Longrightarrow> run_ok r \<Longrightarrow>
      live_status (cr_status r) \<and> same_identity r (f r) \<and> run_ok (f r)"
  shows "store_ok (snd (update_runs P f s))"
proof -
  let ?g = "\<lambda>r. if P r then f r else r" and ?s = "snd (update_runs P f s)"
  have runs: "cs_runs ?s = map ?g (cs_runs s)" and ev: "cs_events ?s = cs_events s"
    by (simp_all add: update_runs_def)
  have id: "cr_execution (?g r) = cr_execution r \<and> run_scope (?g r) = run_scope r" if "r \<in> set (cs_runs s)" for r
    using f [OF that] run_okD [OF ok that] by (auto simp: same_identity_def)
  have e: "map cr_execution (cs_runs ?s) = map cr_execution (cs_runs s)"
    and sc: "map run_scope (cs_runs ?s) = map run_scope (cs_runs s)"
    unfolding runs map_map by (simp_all add: id)
  have each: "run_ok (?g r) \<and> journal_ok (?g r) (journal_of (cr_execution r) s)" if r: "r \<in> set (cs_runs s)" for r
  proof (cases "P r")
    case True
    with f [OF r True] run_okD [OF ok r] journal_evolves [OF journalD [OF ok r]] show ?thesis by simp
  next
    case False
    with run_okD [OF ok r] journalD [OF ok r] show ?thesis by simp
  qed
  have jo: "journal_of x ?s = journal_of x s" for x by (simp add: journal_of_def ev)
  have "run_ok r' \<and> journal_ok r' (journal_of (cr_execution r') ?s)" if r': "r' \<in> set (cs_runs ?s)" for r'
  proof -
    obtain r where r: "r \<in> set (cs_runs s)" "r' = ?g r" using r' unfolding runs by auto
    show ?thesis unfolding jo r(2) id [OF r(1), THEN conjunct1] by (rule each [OF r(1)])
  qed
  then have "\<forall>r \<in> set (cs_runs ?s). run_ok r \<and> journal_ok r (journal_of (cr_execution r) ?s)" by blast
  moreover have "\<exists>r \<in> set (cs_runs ?s). cr_execution r = re_execution v" if "v \<in> set (cs_events ?s)" for v
  proof -
    obtain r where r: "r \<in> set (cs_runs s)" "cr_execution r = re_execution v"
      using ok \<open>v \<in> set (cs_events ?s)\<close> unfolding ev store_ok_def by blast
    have "?g r \<in> set (cs_runs ?s)" unfolding runs set_map by (rule imageI) (rule r(1))
    moreover have "cr_execution (?g r) = re_execution v" using id [OF r(1)] r(2) by simp
    ultimately show ?thesis by (rule bexI [rotated])
  qed
  ultimately show ?thesis using ok e sc by (simp add: store_ok_def)
qed

lemma run_row_update:
  assumes "\<And>r. r \<in> set (cs_runs s) \<Longrightarrow> P r \<Longrightarrow> cr_execution (f r) = cr_execution r"
  shows "run_row x (snd (update_runs P f s)) = map_option (\<lambda>r. if P r then f r else r) (run_row x s)"
proof -
  have "find (\<lambda>r. cr_execution r = x) (map (\<lambda>r. if P r then f r else r) rs)
      = map_option (\<lambda>r. if P r then f r else r) (find (\<lambda>r. cr_execution r = x) rs)"
    if "\<forall>r \<in> set rs. P r \<longrightarrow> cr_execution (f r) = cr_execution r" for rs
    using that by (induction rs) auto
  then show ?thesis using assms by (simp add: run_row_def update_runs_def)
qed

lemma end_run_ok:
  assumes "run_ok r" "live_status (cr_status r)" "st \<in> {''failed'', ''cancelled'', ''orphaned''}"
  shows "run_ok ((end_run now st r)\<lparr>cr_error_code := c\<rparr>)"
    "same_identity r ((end_run now st r)\<lparr>cr_error_code := c\<rparr>)"
  using assms by (auto simp: run_ok_def end_run_def live_status_def known_statuses_def same_identity_def run_scope_def)

lemma completed_run_ok:
  assumes "run_ok r" "digest_ok dg"
  shows "run_ok ((end_run now ''completed'' r)
      \<lparr>cr_user_message := Some ui, cr_assistant_message := Some ai, cr_digest := Some dg\<rparr>)"
    "same_identity r ((end_run now ''completed'' r)
      \<lparr>cr_user_message := Some ui, cr_assistant_message := Some ai, cr_digest := Some dg\<rparr>)"
  using assms by (simp_all add: run_ok_def end_run_def live_status_def known_statuses_def finished_run_def
      same_identity_def run_scope_def)

lemma stop_run_ok:
  assumes "run_ok r" "live_status (cr_status r)"
  shows "run_ok (stop_run now r)" "same_identity r (stop_run now r)"
  using assms by (auto simp: run_ok_def stop_run_def live_status_def known_statuses_def same_identity_def run_scope_def)

section \<open>Every operation keeps the store well formed\<close>

text \<open>The operations on conversations, drafts and messages do not touch runs or journals.\<close>

definition same_runs :: "chat_store \<Rightarrow> chat_store \<Rightarrow> bool" where
  "same_runs s s' \<longleftrightarrow> cs_runs s' = cs_runs s \<and> cs_events s' = cs_events s"

lemma same_runs_refl [simp]: "same_runs s s"
  by (simp add: same_runs_def)

lemma stays_simps [simp]: "stays s (Inl e) = s" "stays s (Inr p) = snd p"
  by (simp_all add: stays_def split_beta)

lemma same_runs_writes [simp]:
  "same_runs s (s\<lparr>cs_conversations := cs\<rparr>)" "same_runs s (s\<lparr>cs_messages := ms\<rparr>)"
  "same_runs s (s\<lparr>cs_drafts := ds\<rparr>)"
  by (simp_all add: same_runs_def)

lemma same_runs_trans: "same_runs s s' \<Longrightarrow> same_runs s' s'' \<Longrightarrow> same_runs s s''"
  by (simp add: same_runs_def)

lemma same_runs_ok: "same_runs s s' \<Longrightarrow> store_ok s' = store_ok s"
  by (simp add: same_runs_def store_ok_def journal_of_def)

lemma same_runs_row: "same_runs s s' \<Longrightarrow> run_row x s' = run_row x s"
  by (simp add: same_runs_def run_row_def)

lemma create_same: "same_runs s (stays s (create_conversation env c s))"
  by (simp add: create_conversation_def Let_def split: option.split list.split)

lemma update_same: "same_runs s (stays s (update_conversation env c s))"
  unfolding update_conversation_def Let_def
  by (split option.split list.split pyval.split if_split
      | simp only: stays_simps snd_conv same_runs_refl same_runs_writes simp_thms
      | intro conjI allI impI)+

lemma draft_same: "same_runs s (stays s (put_composer_draft env clk i t u txt n s))"
  unfolding put_composer_draft_def
  by (split option.split list.split if_split
      | simp only: stays_simps snd_conv same_runs_refl same_runs_writes simp_thms
      | intro conjI allI impI)+

lemma add_message_same: "same_runs s (stays s (add_message env m s))"
  by (simp add: add_message_def Let_def split: option.split list.split)

lemma update_message_same: "same_runs s (stays s (update_message env m s))"
  by (simp add: update_message_def Let_def split: option.split list.split)

lemma delete_message_same: "same_runs s (stays s (delete_message env i t s))"
  by (simp add: delete_message_def Let_def split: option.split list.split)

lemma claim_same: "claim_scope env um s = Inr s' \<Longrightarrow> same_runs s s'"
  by (auto simp: claim_scope_def same_runs_def Let_def split: pyval.splits option.splits list.splits if_splits)

lemma put_same: "put_turn_message env m s = Inr (b, s') \<Longrightarrow> same_runs s s'"
  by (auto simp: put_turn_message_def same_runs_def split: option.splits list.splits if_splits)

lemma live_lease_live: "live_lease now l r \<Longrightarrow> live_status (cr_status r)"
  by (simp add: live_lease_def live_status_def)

lemma renew_ok: "store_ok s \<Longrightarrow> store_ok (snd (renew now ttl l s))"
  unfolding renew_def
  by (rule update_runs_ok)
    (auto simp: live_lease_live run_ok_def same_identity_def run_scope_def finished_run_def)

lemma finish_ok:
  assumes "store_ok s" shows "store_ok (stays s (finish now l st code s))"
proof -
  let ?P = "\<lambda>r. leased now l r \<and> (if st = ''cancelled'' then live_status (cr_status r)
                 else cr_status r = ''running'' \<and> cr_cancel_at r = None)"
  have "store_ok (snd (update_runs ?P (\<lambda>r. (end_run now st r)\<lparr>cr_error_code := code\<rparr>) s))"
    if "st \<in> {''failed'', ''cancelled''}"
  proof (rule update_runs_ok [OF assms])
    fix r assume "?P r" "run_ok r"
    from this(1) have "live_status (cr_status r)" by (auto simp: live_status_def split: if_splits)
    then show "live_status (cr_status r) \<and> same_identity r ((end_run now st r)\<lparr>cr_error_code := code\<rparr>)
        \<and> run_ok ((end_run now st r)\<lparr>cr_error_code := code\<rparr>)"
      using end_run_ok [OF \<open>run_ok r\<close>, of st] that by blast
  qed
  then show ?thesis using assms
    by (auto simp: finish_def stays_def split: prod.splits if_splits)
qed

lemma request_cancel_ok:
  assumes "store_ok s" shows "store_ok (stays s (request_cancel now t u c x s))"
proof -
  have "store_ok (snd (update_runs (\<lambda>r. same_transport t' u' c' x r \<and> live_status (cr_status r)) (stop_run now) s))"
    for t' u' c'
    by (rule update_runs_ok [OF assms]) (simp add: stop_run_ok)
  then show ?thesis using assms
    by (auto simp: request_cancel_def stays_def split: option.splits)
qed

lemma complete_run_shape:
  assumes "complete_run env now clk um am (Some l) s = Inr s'"
  obtains ui ai dg where "casts env [ms_id um, ms_id am] = Some [ui, ai]" "ui \<noteq> ai" "digest_ok dg"
    "\<exists>r \<in> set (cs_runs s). live_lease clk l r \<and> same_request l r"
    "s' = snd (update_runs (\<lambda>r. live_lease clk l r \<and> same_request l r) (\<lambda>r. (end_run now ''completed'' r)
       \<lparr>cr_user_message := Some ui, cr_assistant_message := Some ai, cr_digest := Some dg\<rparr>) s)"
  using assms by (auto simp: complete_run_def Let_def split: option.splits list.splits if_splits)

lemma complete_run_ok: "store_ok s \<Longrightarrow> complete_run env now clk um am lease s = Inr s' \<Longrightarrow> store_ok s'"
proof (cases lease)
  case (Some l)
  assume ok: "store_ok s" and c: "complete_run env now clk um am lease s = Inr s'"
  obtain ui ai dg where "digest_ok dg"
    and s': "s' = snd (update_runs (\<lambda>r. live_lease clk l r \<and> same_request l r) (\<lambda>r. (end_run now ''completed'' r)
       \<lparr>cr_user_message := Some ui, cr_assistant_message := Some ai, cr_digest := Some dg\<rparr>) s)"
    by (rule complete_run_shape [OF c [unfolded Some]]) blast
  show "store_ok s'" unfolding s'
  proof (rule update_runs_ok [OF ok])
    fix r assume "live_lease clk l r \<and> same_request l r" "run_ok r"
    then show "live_status (cr_status r) \<and> same_identity r ((end_run now ''completed'' r)
          \<lparr>cr_user_message := Some ui, cr_assistant_message := Some ai, cr_digest := Some dg\<rparr>)
        \<and> run_ok ((end_run now ''completed'' r)
          \<lparr>cr_user_message := Some ui, cr_assistant_message := Some ai, cr_digest := Some dg\<rparr>)"
      using live_lease_live completed_run_ok [OF \<open>run_ok r\<close> \<open>digest_ok dg\<close>] by blast
  qed
qed (simp add: complete_run_def)

text \<open>A successful turn: the three states on the way, none of them touching a run before the last.\<close>

lemma turn_shape:
  assumes "add_completed_turn env now clk um am lease s = Inr (n, s')"
  obtains s1 s2 s3 b1 b2 where "turn_valid um am" "authorize_turn now um am lease s = Inr ()"
    "claim_scope env um s = Inr s1" "put_turn_message env um s1 = Inr (b1, s2)"
    "put_turn_message env am s2 = Inr (b2, s3)" "complete_run env now clk um am lease s3 = Inr s'"
    "b1 = b2" "same_runs s s3"
proof -
  from assms obtain s1 b1 s2 b2 s3 where *: "turn_valid um am" "authorize_turn now um am lease s = Inr ()"
    "claim_scope env um s = Inr s1" "put_turn_message env um s1 = Inr (b1, s2)"
    "put_turn_message env am s2 = Inr (b2, s3)" "complete_run env now clk um am lease s3 = Inr s'" "b1 = b2"
    unfolding add_completed_turn_def by (auto simp: rbind_eq_Inr Let_def split: if_splits)
  moreover have "same_runs s s3"
    using claim_same [OF *(3)] put_same [OF *(4)] put_same [OF *(5)] same_runs_trans by blast
  ultimately show ?thesis using that by blast
qed

lemma complete_turn_ok: "store_ok s \<Longrightarrow> store_ok (stays s (add_completed_turn env now clk um am lease s))"
proof (cases "add_completed_turn env now clk um am lease s")
  case (Inr p)
  assume ok: "store_ok s"
  obtain n s' where p: "p = (n, s')" by (cases p)
  from Inr p obtain s3 where "same_runs s s3" "complete_run env now clk um am lease s3 = Inr s'"
    using turn_shape by metis
  then have "store_ok s'" using ok same_runs_ok complete_run_ok by blast
  then show ?thesis by (simp add: Inr p stays_def)
qed (simp add: stays_def)

lemma reconcile_ok: "store_ok s \<Longrightarrow> store_ok (reconcile_expired now t u s)"
  unfolding reconcile_expired_def
  by (rule update_runs_ok) (simp_all add: end_run_ok)

lemma append_run_ok:
  assumes ok: "store_ok s" and r: "run_ok r" "cr_execution r \<notin> cr_execution ` set (cs_runs s)"
    "run_scope r \<notin> run_scope ` set (cs_runs s)"
  shows "store_ok (s\<lparr>cs_runs := cs_runs s @ [r]\<rparr>)"
proof -
  have "journal_of (cr_execution r) s = []"
    unfolding journal_of_def filter_empty_conv
  proof
    fix e assume "e \<in> set (cs_events s)"
    then obtain r' where "r' \<in> set (cs_runs s)" "cr_execution r' = re_execution e"
      using ok unfolding store_ok_def by blast
    with r(2) show "re_execution e \<noteq> cr_execution r" by (metis imageI)
  qed
  then have "journal_ok r (journal_of (cr_execution r) s)" by (simp add: journal_ok_def numbered_def)
  moreover have "journal_of k (s\<lparr>cs_runs := cs_runs s @ [r]\<rparr>) = journal_of k s" for k
    by (simp add: journal_of_def)
  moreover have "\<forall>e \<in> set (cs_events s). \<exists>r' \<in> set (cs_runs s @ [r]). cr_execution r' = re_execution e"
  proof
    fix e assume "e \<in> set (cs_events s)"
    then obtain r' where "r' \<in> set (cs_runs s)" "cr_execution r' = re_execution e"
      using ok unfolding store_ok_def by blast
    then show "\<exists>r' \<in> set (cs_runs s @ [r]). cr_execution r' = re_execution e" by (intro bexI [of _ r']) simp_all
  qed
  ultimately show ?thesis using ok r unfolding store_ok_def by simp
qed

lemma admit_ok:
  assumes "store_ok s" shows "store_ok (stays s (admit now x tok ttl t u c run req corr s))"
proof (cases "admit now x tok ttl t u c run req corr s")
  case (Inr p)
  then obtain t' u' c' where "py_uuid t = Some t'" "py_uuid u = Some u'" "py_uuid c = Some c'"
    by (auto simp: admit_def split: if_splits option.splits)
  note known = this and s1 = reconcile_ok [OF assms, of now t' u']
  let ?s1 = "reconcile_expired now t' u' s"
  show ?thesis
  proof (cases "\<exists>r \<in> set (cs_runs ?s1). same_transport t' u' c' run r")
    case True
    with Inr known s1 show ?thesis by (auto simp: admit_def Let_def split: if_splits)
  next
    case False
    let ?r = "\<lparr>cr_execution = x, cr_tenant = t', cr_user = u', cr_conversation = c',
      cr_transport = run, cr_request = req, cr_correlation = corr, cr_status = ''running'',
      cr_lease_token = Some tok, cr_lease_expires = Some (now + ttl * 1000000),
      cr_cancel_at = None, cr_terminal_at = None, cr_error_code = None,
      cr_user_message = None, cr_assistant_message = None, cr_digest = None,
      cr_created = now, cr_updated = now\<rparr>"
    have x: "x \<notin> cr_execution ` set (cs_runs ?s1)"
      and p: "snd p = ?s1\<lparr>cs_runs := cs_runs ?s1 @ [?r]\<rparr>"
      using Inr False known by (auto simp: admit_def Let_def split: if_splits)
    have "run_scope ?r \<notin> run_scope ` set (cs_runs ?s1)"
      using False by (auto simp: run_scope_def same_transport_def)
    moreover have "run_ok ?r"
      using known(3) py_uuid_idem by (simp add: run_ok_def live_status_def known_statuses_def)
    ultimately have "store_ok (snd p)" unfolding p using x by (intro append_run_ok [OF s1]) simp_all
    then show ?thesis by (simp add: Inr stays_def split_beta)
  qed
qed (simp add: assms)

text \<open>The next number of a journal without gaps.\<close>

lemma last_seq_snoc: "last_seq (es @ [e]) = max (last_seq es) (re_seq e)"
  by (induction es) (simp_all add: last_seq_def max.assoc)

lemma numbered_snoc: "numbered (es @ [e]) \<longleftrightarrow> numbered es \<and> re_seq e = Suc (length es)"
  by (auto simp: numbered_def)

lemma last_seq_eq: "numbered es \<Longrightarrow> last_seq es = length es"
proof (induction es rule: rev_induct)
  case Nil
  show ?case by (simp add: last_seq_def)
next
  case (snoc e es)
  then show ?case by (simp add: numbered_snoc last_seq_snoc)
qed

lemma event_shapeD: "event_shape l ev = Inr t \<Longrightarrow> vget ev ''type'' PNone = PStr t \<and> t \<in> set event_types"
  by (simp add: event_shape_def split: pyval.splits if_splits)

lemma append_shape:
  assumes "append_projected_event env clk l ev s = Inr (n, s')"
  obtains t r where "event_shape l ev = Inr t" "find (run_of_lease l) (cs_runs s) = Some r"
    "event_allowed clk l t ev r" "n = Suc (last_seq (filter (in_journal l) (cs_events s)))"
    "n \<le> max_events_per_run"
    "terminal_event t \<Longrightarrow> \<forall>e \<in> set (filter (in_journal l) (cs_events s)). \<not> terminal_event (re_type e)"
    "s' = s\<lparr>cs_events := cs_events s @ [event_row l n t ev]\<rparr>"
proof -
  from assms obtain t where t: "event_shape l ev = Inr t"
    unfolding append_projected_event_def rbind_eq_Inr by blast
  from assms obtain enc r where r: "json_value (ce_float env) (PDict ev) = Some enc"
    "find (run_of_lease l) (cs_runs s) = Some r"
    unfolding append_projected_event_def t rbind_Inr by (auto split: option.splits if_splits)
  have "event_allowed clk l t ev r \<and> n = Suc (last_seq (filter (in_journal l) (cs_events s)))
    \<and> n \<le> max_events_per_run
    \<and> (terminal_event t \<longrightarrow> (\<forall>e \<in> set (filter (in_journal l) (cs_events s)). \<not> terminal_event (re_type e)))
    \<and> s' = s\<lparr>cs_events := cs_events s @ [event_row l n t ev]\<rparr>"
    using assms unfolding append_projected_event_def t rbind_Inr r Let_def
    by (simp split: if_splits) (auto simp: r)
  with t r(2) that show ?thesis by blast
qed

text \<open>The journal with one event more.\<close>

lemma journal_extends:
  assumes jo: "journal_ok r es" and rk: "run_ok r" and own: "owned_run l r"
    and shape: "event_shape l ev = Inr t" and allowed: "event_allowed clk l t ev r"
    and room: "Suc (length es) \<le> max_events_per_run"
    and single: "terminal_event t \<Longrightarrow> \<forall>e \<in> set es. \<not> terminal_event (re_type e)"
  shows "journal_ok r (es @ [event_row l (Suc (length es)) t ev])"
proof -
  let ?e = "event_row l (Suc (length es)) t ev"
  have e: "re_type ?e = t" "re_payload ?e = ev" "re_seq ?e = Suc (length es)" by (simp_all add: event_row_def)
  have own_e: "event_of r ?e" using own by (simp add: event_of_def owned_run_def event_row_def)
  have fits_e: "terminal_fits r ?e"
    using allowed by (simp add: terminal_fits_def e event_allowed_def split: if_splits)
  have type_e: "vget (re_payload ?e) ''type'' PNone = PStr (re_type ?e)"
    using event_shapeD [OF shape] by (simp add: e)
  have after: "envelope_event t ev" if "a \<in> set es" "terminal_event (re_type a)" for a
  proof -
    have nt: "\<not> terminal_event t" using single that by blast
    have "cr_status r = ''completed'' \<or> ended_status (cr_status r)"
      using jo that by (auto simp: journal_ok_def terminal_fits_def terminal_event_def)
    then have "cr_status r \<noteq> ''running''" by (auto simp: ended_status_def)
    then show ?thesis using allowed nt
      by (auto simp: event_allowed_def terminal_event_def live_lease_def split: if_splits)
  qed
  have count: "length (filter (\<lambda>e. terminal_event (re_type e)) (es @ [?e])) \<le> 1"
  proof (cases "terminal_event t")
    case True
    then have "filter (\<lambda>e. terminal_event (re_type e)) es = []"
      unfolding filter_empty_conv by (rule single)
    then show ?thesis by simp
  next
    case False
    then show ?thesis using jo by (simp add: journal_ok_def e)
  qed
  show ?thesis using jo own_e fits_e type_e count after room
    by (simp add: journal_ok_def sorted_wrt_append numbered_snoc e)
qed

lemma append_event_ok:
  assumes ok: "store_ok s" shows "store_ok (stays s (append_projected_event env clk l ev s))"
proof (cases "append_projected_event env clk l ev s")
  case (Inr p)
  obtain n s' where p: "p = (n, s')" by (cases p)
  obtain t r where a: "event_shape l ev = Inr t" "find (run_of_lease l) (cs_runs s) = Some r"
    "event_allowed clk l t ev r" "n = Suc (last_seq (filter (in_journal l) (cs_events s)))"
    "n \<le> max_events_per_run"
    "terminal_event t \<Longrightarrow> \<forall>e \<in> set (filter (in_journal l) (cs_events s)). \<not> terminal_event (re_type e)"
    "s' = s\<lparr>cs_events := cs_events s @ [event_row l n t ev]\<rparr>"
    using append_shape [OF Inr [unfolded p]] by blast
  have r: "r \<in> set (cs_runs s)" "owned_run l r"
    using a(2) by (auto simp: find_Some_iff run_of_lease_def)
  let ?es = "journal_of (cr_execution r) s" and ?e = "event_row l n t ev"
  have mine: "filter (in_journal l) (cs_events s) = ?es" by (rule in_journal_eq [OF ok r])
  have jr: "journal_ok r ?es" by (rule journalD [OF ok r(1)])
  have n: "n = Suc (length ?es)" using a(4) jr last_seq_eq unfolding mine by (simp add: journal_ok_def)
  have x: "re_execution ?e = cr_execution r" using r(2) by (simp add: event_row_def owned_run_def)
  have new: "journal_ok r (?es @ [?e])"
    using journal_extends [OF jr run_okD [OF ok r(1)] r(2) a(1,3)] a(5,6) unfolding mine n by blast
  have jo: "journal_of k s' = journal_of k s @ (if k = cr_execution r then [?e] else [])" for k
    by (simp add: a(7) journal_of_def x)
  have runs: "cs_runs s' = cs_runs s" by (simp add: a(7))
  have "run_ok q \<and> journal_ok q (journal_of (cr_execution q) s')" if q: "q \<in> set (cs_runs s)" for q
  proof (cases "cr_execution q = cr_execution r")
    case True
    with same_run [OF ok q r(1)] new run_okD [OF ok q] show ?thesis by (simp add: jo)
  next
    case False
    with run_okD [OF ok q] journalD [OF ok q] show ?thesis by (simp add: jo)
  qed
  moreover have "\<forall>e \<in> set (cs_events s'). \<exists>q \<in> set (cs_runs s). cr_execution q = re_execution e"
    using ok r(1) x by (auto simp: a(7) store_ok_def)
  ultimately have "store_ok s'" using ok unfolding store_ok_def runs by blast
  then show ?thesis by (simp add: Inr p)
qed (simp add: ok)

lemma delete_ok:
  assumes ok: "store_ok s" shows "store_ok (stays s (delete_conversation env i t u s))"
proof (cases "delete_conversation env i t u s")
  case (Inr p)
  then obtain i' t' u' where p: "snd p = erase_conversation i' t' u' s"
    by (auto simp: delete_conversation_def split: if_splits option.splits list.splits)
  define D where "D = erased_run i' t' u' s"
  have runs: "cs_runs (snd p) = filter (\<lambda>r. \<not> D r) (cs_runs s)"
    and ev: "cs_events (snd p) = filter (\<lambda>e. \<not> (\<exists>r \<in> set (cs_runs s). D r \<and> re_execution e = cr_execution r)) (cs_events s)"
    unfolding p D_def by (simp_all add: erase_conversation_def)
  have jo: "journal_of (cr_execution r) (snd p) = journal_of (cr_execution r) s"
    if "r \<in> set (cs_runs s)" "\<not> D r" for r
    unfolding journal_of_def ev filter_filter
  proof (rule filter_cong [OF refl])
    fix e assume "e \<in> set (cs_events s)"
    show "(\<not> (\<exists>r' \<in> set (cs_runs s). D r' \<and> re_execution e = cr_execution r') \<and> re_execution e = cr_execution r)
        = (re_execution e = cr_execution r)"
      using that same_run [OF ok _ that(1)] by metis
  qed
  have each: "\<forall>r \<in> set (cs_runs (snd p)). run_ok r \<and> journal_ok r (journal_of (cr_execution r) (snd p))"
    unfolding runs using jo run_okD [OF ok] journalD [OF ok] by simp
  have "\<exists>r \<in> set (cs_runs (snd p)). cr_execution r = re_execution e" if "e \<in> set (cs_events (snd p))" for e
  proof -
    from that ok obtain r where r: "r \<in> set (cs_runs s)" "cr_execution r = re_execution e"
      unfolding ev store_ok_def by auto
    with that have "\<not> D r" unfolding ev by auto
    with r show ?thesis unfolding runs by auto
  qed
  moreover have "distinct (map cr_execution (cs_runs (snd p)))" "distinct (map run_scope (cs_runs (snd p)))"
    using ok unfolding runs store_ok_def by (simp_all add: distinct_map_filter)
  ultimately have "store_ok (snd p)" using each unfolding store_ok_def by blast
  then show ?thesis by (simp add: Inr stays_def split_beta)
qed (simp add: ok)

lemma chat_step_ok: "store_ok s \<Longrightarrow> store_ok (chat_step env op s)"
  by (cases op)
    (simp_all only: chat_step.simps same_runs_ok create_same update_same draft_same add_message_same update_message_same
      delete_message_same delete_ok admit_ok renew_ok finish_ok request_cancel_ok complete_turn_ok append_event_ok
      same_runs_ok [OF create_same] same_runs_ok [OF update_same] same_runs_ok [OF draft_same]
      same_runs_ok [OF add_message_same] same_runs_ok [OF update_message_same] same_runs_ok [OF delete_message_same])

lemma empty_store_ok: "store_ok empty_store"
  by (simp add: store_ok_def empty_store_def)

end
