(* ===== verification/ChatRunLaws.thy ===== *)
theory ChatRunLaws
  imports ChatRunCorrect
begin

text \<open>
  What the well-formedness of the conversation store gives its clients: who may change a run, what
  a recovery page holds, what a committed turn has written, and that a draft is replaced only over
  the revision its writer has seen.
\<close>

section \<open>Who may change a run\<close>

text \<open>
  A run changes under its live lease, by a stop of its owner while it is live, by the owner's next
  admission once the lease has expired, and with the deletion of its conversation; an ended run by
  the deletion alone.
\<close>

fun run_entitled :: "chat_env \<Rightarrow> chat_run \<Rightarrow> chat_op \<Rightarrow> bool" where
  "run_entitled env r (DeleteConversation i t u) =
     (casts env [i, t, u] = Some [cr_conversation r, cr_tenant r, cr_user r])"
| "run_entitled env r (Renew now ttl l) = live_lease now l r"
| "run_entitled env r (Finish now l st code) = (leased now l r \<and> live_status (cr_status r))"
| "run_entitled env r (CompleteTurn now clk um am lease) =
     (case lease of None \<Rightarrow> False | Some l \<Rightarrow> live_lease clk l r)"
| "run_entitled env r (RequestCancel now t u c x) =
     (live_status (cr_status r) \<and> py_uuid t = Some (cr_tenant r) \<and> py_uuid u = Some (cr_user r)
      \<and> py_uuid c = Some (cr_conversation r) \<and> x = cr_transport r)"
| "run_entitled env r (Admit now x tok ttl t u c run req corr) =
     (live_status (cr_status r) \<and> py_uuid t = Some (cr_tenant r) \<and> py_uuid u = Some (cr_user r)
      \<and> sql_not_after (cr_lease_expires r) now)"
| "run_entitled env r _ = False"

lemma row_unchanged:
  assumes "run_row x s = Some r" "\<not> P r"
    and "\<And>q. P q \<Longrightarrow> cr_execution (f q) = cr_execution q"
  shows "run_row x (snd (update_runs P f s)) = Some r"
  using assms run_row_update [of s P f x] by simp

lemma end_run_simps [simp]: "cr_execution (end_run now st r) = cr_execution r"
  by (simp add: end_run_def)

lemma stop_run_simps [simp]: "cr_execution (stop_run now r) = cr_execution r"
  by (simp add: stop_run_def)

lemma finish_fence:
  assumes "run_row x s = Some r" "\<not> run_entitled env r (Finish now l st code)"
  shows "run_row x (stays s (finish now l st code s)) = Some r"
proof -
  let ?P = "\<lambda>r. leased now l r \<and> (if st = ''cancelled'' then live_status (cr_status r)
                 else cr_status r = ''running'' \<and> cr_cancel_at r = None)"
  have "\<not> ?P r" using assms(2) by (auto simp: live_status_def)
  then have "run_row x (snd (update_runs ?P (\<lambda>r. (end_run now st r)\<lparr>cr_error_code := code\<rparr>) s)) = Some r"
    by (intro row_unchanged assms(1)) simp_all
  then show ?thesis using assms(1) by (auto simp: finish_def)
qed

lemma cancel_fence:
  assumes "run_row x s = Some r" "\<not> run_entitled env r (RequestCancel now t u c run)"
  shows "run_row x (stays s (request_cancel now t u c run s)) = Some r"
proof -
  have "run_row x (snd (update_runs (\<lambda>r. same_transport t' u' c' run r \<and> live_status (cr_status r)) (stop_run now) s)) = Some r"
    if "py_uuid t = Some t'" "py_uuid u = Some u'" "py_uuid c = Some c'" for t' u' c'
    by (rule row_unchanged [OF assms(1)]) (use assms(2) that in \<open>auto simp: same_transport_def\<close>)
  then show ?thesis using assms(1) by (auto simp: request_cancel_def stays_def split: option.splits)
qed

lemma run_row_append: "run_row x s = Some r \<Longrightarrow> run_row x (s\<lparr>cs_runs := cs_runs s @ [q]\<rparr>) = Some r"
proof -
  have "find P xs = Some r \<Longrightarrow> find P (xs @ ys) = Some r" for P and xs ys :: "chat_run list"
    by (induction xs) (auto split: if_splits)
  then show "run_row x s = Some r \<Longrightarrow> ?thesis" by (simp add: run_row_def)
qed

lemma reconcile_fence:
  assumes "run_row x s = Some r"
    and "\<not> (cr_tenant r = t \<and> cr_user r = u \<and> live_status (cr_status r) \<and> sql_not_after (cr_lease_expires r) now)"
  shows "run_row x (reconcile_expired now t u s) = Some r"
  unfolding reconcile_expired_def by (rule row_unchanged) (use assms in simp_all)

lemma admit_fence:
  assumes r: "run_row x s = Some r" and ne: "\<not> run_entitled env r (Admit now y tok ttl t u c run req corr)"
  shows "run_row x (stays s (admit now y tok ttl t u c run req corr s)) = Some r"
proof (cases "admit now y tok ttl t u c run req corr s")
  case (Inr p)
  then obtain t' u' c' where tu: "py_uuid t = Some t'" "py_uuid u = Some u'" "py_uuid c = Some c'"
    by (auto simp: admit_def split: if_splits option.splits)
  let ?s1 = "reconcile_expired now t' u' s"
  have p: "snd p = ?s1 \<or> (\<exists>q. snd p = ?s1\<lparr>cs_runs := cs_runs ?s1 @ [q]\<rparr>)"
    using Inr tu unfolding admit_def Let_def by (simp split: if_splits) (metis snd_conv)+
  have "run_row x (reconcile_expired now t' u' s) = Some r"
    using r ne tu by (intro reconcile_fence) auto
  then have "run_row x (snd p) = Some r" using p run_row_append by metis
  then show ?thesis by (simp add: Inr)
qed (simp add: r)

lemma complete_fence:
  assumes r: "run_row x s = Some r" and ne: "\<not> run_entitled env r (CompleteTurn now clk um am lease)"
  shows "run_row x (stays s (add_completed_turn env now clk um am lease s)) = Some r"
proof (cases "add_completed_turn env now clk um am lease s")
  case (Inr p)
  obtain n s' where p: "p = (n, s')" by (cases p)
  obtain s3 where s3: "same_runs s s3" "complete_run env now clk um am lease s3 = Inr s'"
    using turn_shape [OF Inr [unfolded p]] by blast
  have r3: "run_row x s3 = Some r" using r s3(1) by (simp add: same_runs_row)
  have "run_row x s' = Some r"
  proof (cases lease)
    case None
    with s3 r3 show ?thesis by (simp add: complete_run_def)
  next
    case (Some l)
    show ?thesis
      by (rule complete_run_shape [OF s3(2) [unfolded Some]])
        (use ne Some r3 in \<open>auto intro!: row_unchanged\<close>)
  qed
  then show ?thesis by (simp add: Inr p)
qed (simp add: r)

lemma delete_fence:
  assumes r: "run_row x s = Some r" and ne: "\<not> run_entitled env r (DeleteConversation i t u)"
  shows "run_row x (stays s (delete_conversation env i t u s)) = Some r"
proof -
  have "find (\<lambda>r. cr_execution r = x) (filter Q rs) = Some r"
    if "find (\<lambda>r. cr_execution r = x) rs = Some r" "Q r" for Q rs
    using that by (induction rs) (auto split: if_splits)
  then have "run_row x (erase_conversation i' t' u' s) = Some r" if "casts env [i, t, u] = Some [i', t', u']" for i' t' u'
    using r ne that by (auto simp: run_row_def erase_conversation_def erased_run_def)
  then show ?thesis using r by (auto simp: delete_conversation_def split: option.splits list.splits)
qed

lemma append_fence: "run_row x (stays s (append_projected_event env clk l ev s)) = run_row x s"
proof (cases "append_projected_event env clk l ev s")
  case (Inr p)
  obtain n s' where p: "p = (n, s')" by (cases p)
  have "cs_runs s' = cs_runs s" by (rule append_shape [OF Inr [unfolded p]]) simp
  then show ?thesis by (simp add: Inr p run_row_def)
qed simp

lemma chat_fence:
  assumes "run_row x s = Some r" "\<not> run_entitled env r op"
  shows "run_row x (chat_step env op s) = Some r"
proof (cases op)
  case (Renew now ttl l)
  with assms show ?thesis
    unfolding chat_step.simps Renew renew_def by (intro row_unchanged) auto
next
  case (DeleteConversation i t u)
  then show ?thesis using delete_fence [OF assms(1)] assms(2) by (simp only: chat_step.simps)
next
  case (Finish now l st code)
  then show ?thesis using finish_fence [OF assms(1)] assms(2) by (simp only: chat_step.simps)
next
  case (RequestCancel now t u c y)
  then show ?thesis using cancel_fence [OF assms(1)] assms(2) by (simp only: chat_step.simps)
next
  case (Admit now y tok ttl t u c run req corr)
  then show ?thesis using admit_fence [OF assms(1)] assms(2) by (simp only: chat_step.simps)
next
  case (CompleteTurn now clk um am lease)
  then show ?thesis using complete_fence [OF assms(1)] assms(2) by (simp only: chat_step.simps)
qed (use assms(1) in \<open>simp_all only: chat_step.simps same_runs_row [OF create_same] same_runs_row [OF update_same]
    same_runs_row [OF draft_same] same_runs_row [OF add_message_same] same_runs_row [OF update_message_same]
    same_runs_row [OF delete_message_same] append_fence\<close>)

definition row_entitled :: "chat_env \<Rightarrow> string \<Rightarrow> chat_run option \<Rightarrow> chat_op \<Rightarrow> bool" where
  "row_entitled env x v op \<longleftrightarrow> (case v of None \<Rightarrow> True | Some r \<Rightarrow> run_entitled env r op)"

interpretation chat_runs: fenced_machine "chat_step env" store_ok run_row "\<lambda>x v. v \<noteq> None" "row_entitled env"
  for env
  by unfold_locales (auto simp: row_entitled_def chat_step_ok chat_fence split: option.splits)

lemma chat_run_eq: "chat_run_ops env ops s = chat_runs.run env ops s"
  by (induction ops arbitrary: s) simp_all

lemma reachable_ok: "store_ok (chat_run_ops env ops empty_store)"
  unfolding chat_run_eq by (rule chat_runs.inv_run [OF empty_store_ok])

text \<open>An ended run is left to the deletion of its conversation.\<close>

lemma ended_entitled:
  "\<not> live_status (cr_status r) \<Longrightarrow> run_entitled env r op \<Longrightarrow> \<exists>i t u. op = DeleteConversation i t u"
  by (cases op) (auto simp: live_lease_def live_status_def split: option.splits)

section \<open>Recovery pages\<close>

lemma numbered_nth: "numbered es \<Longrightarrow> i < length es \<Longrightarrow> re_seq (es ! i) = Suc i"
proof -
  assume "numbered es" "i < length es"
  then have "map re_seq es ! i = [1..<Suc (length es)] ! i" by (simp only: numbered_def)
  with \<open>i < length es\<close> show ?thesis by (simp del: upt_Suc)
qed

lemma numbered_filter: "numbered es \<Longrightarrow> filter (\<lambda>e. a < re_seq e) es = drop a es"
proof (induction es rule: rev_induct)
  case (snoc e es)
  then show ?case by (cases "a \<le> length es") (simp_all add: numbered_snoc)
qed simp

lemma numbered_sorted: "numbered es \<Longrightarrow> sorted (map re_seq (drop a es))"
  unfolding numbered_def drop_map [symmetric] by (simp only: drop_upt sorted_upt)

lemma page_rows:
  assumes es: "numbered es" and a: "0 \<le> after"
  shows "sort_by re_seq (filter (\<lambda>e. after < int (re_seq e)) es) = drop (nat after) es"
proof -
  have "filter (\<lambda>e. after < int (re_seq e)) es = drop (nat after) es"
    using numbered_filter [OF es, of "nat after"] a by (simp add: nat_less_iff)
  then show ?thesis using numbered_sorted [OF es] by (simp add: sort_by_def sort_key_id_if_sorted)
qed

lemma page_last:
  assumes es: "numbered es" and ne: "take n (drop a es) \<noteq> []"
  shows "re_seq (last (take n (drop a es))) = a + length (take n (drop a es))"
proof -
  let ?p = "take n (drop a es)"
  have l: "0 < length ?p" using ne by blast
  then have i: "length ?p - 1 < n" "a + (length ?p - 1) < length es" by auto
  have "last ?p = ?p ! (length ?p - 1)" using ne by (rule last_conv_nth)
  also have "\<dots> = es ! (a + (length ?p - 1))" using i by (subst nth_take) (simp_all add: nth_drop)
  finally show ?thesis using numbered_nth [OF es i(2)] l by simp
qed

text \<open>What a page says of the journal \<open>js\<close> of its run.\<close>

definition page_exact :: "int \<Rightarrow> int \<Rightarrow> chat_run \<Rightarrow> run_event list \<Rightarrow> event_page \<Rightarrow> bool" where
  "page_exact after n r js p \<longleftrightarrow>
     numbered js
     \<and> ep_events p = map (\<lambda>e. (re_seq e, re_payload e)) (take (nat n) (drop (nat after) js))
     \<and> ep_next p = after + int (length (ep_events p))
     \<and> ep_has_more p = (nat after + nat n < length js)
     \<and> ep_journal_terminal p = (\<exists>e \<in> set js. terminal_event (re_type e))
     \<and> ep_terminal_confirmed p = (\<not> live_status (cr_status r))"

lemma no_mismatch:
  assumes "journal_ok r es" "run_ok r" "find (\<lambda>e. terminal_event (re_type e)) es = Some e"
  shows "\<not> terminal_mismatch (cr_status r) (re_type e)"
proof -
  have "e \<in> set es" "terminal_event (re_type e)" using assms(3) by (auto simp: find_Some_iff)
  with assms(1) have "terminal_fits r e" "terminal_event (re_type e)" by (auto simp: journal_ok_def)
  then show ?thesis
    by (auto simp: terminal_fits_def terminal_event_def terminal_mismatch_def ended_status_def live_status_def)
qed

lemma ended_statuses:
  "run_ok r \<Longrightarrow> (cr_status r = ''completed'' \<or> ended_status (cr_status r)) = (\<not> live_status (cr_status r))"
  by (auto simp: run_ok_def known_statuses_def live_status_def ended_status_def)

lemma page_of_run:
  assumes ok: "store_ok s" and r: "r \<in> set (cs_runs s)" and scope: "run_scope r = (t', u', c', x)"
    and id: "py_uuid t = Some t'" "py_uuid u = Some u'" "py_uuid c = Some c'" "transport_ok x"
    and cur: "0 \<le> after" "after \<le> int max_events_per_run" "1 \<le> n" "n \<le> max_event_read"
  obtains p where "read_projected_events clk t u c x after n s = Inr (Some p)"
    "page_exact after n r (journal_of (cr_execution r) s) p"
proof -
  let ?js = "journal_of (cr_execution r) s"
  let ?page = "take (nat n) (drop (nat after) ?js)"
  have sc: "scoped_run t' u' c' x s = Some r" using ok r scope by (simp add: scoped_run_iff)
  have jr: "run_journal (cr_execution r) t' u' c' s = ?js"
    using run_journal_eq [OF ok r] scope by (simp add: run_scope_def)
  have j: "journal_ok r ?js" by (rule journalD [OF ok r])
  then have seqs: "numbered ?js" by (simp add: journal_ok_def)
  have rows: "sort_by re_seq (filter (\<lambda>e. after < int (re_seq e)) ?js) = drop (nat after) ?js"
    by (rule page_rows [OF seqs cur(1)])
  have cap: "take (nat n) (take (Suc (nat n)) (drop (nat after) ?js)) = ?page" by (simp add: min_def)
  have over: "nat n < length (take (Suc (nat n)) (drop (nat after) ?js)) \<longleftrightarrow> nat after + nat n < length ?js"
    by auto
  have nxt: "(if ?page = [] then after else int (re_seq (last ?page))) = after + int (length ?page)"
    using page_last [OF seqs] cur(1) by simp
  have fits: "\<not> (case find (\<lambda>e. terminal_event (re_type e)) ?js of
      None \<Rightarrow> False | Some e \<Rightarrow> terminal_mismatch (cr_status r) (re_type e))"
    using no_mismatch [OF j run_okD [OF ok r]] by (simp split: option.splits)
  define st where "st = (if live_status (cr_status r) \<and> \<not> sql_after (cr_lease_expires r) clk
      then ''interrupted'' else cr_status r)"
  have conf: "(st = ''completed'' \<or> ended_status st) = (\<not> live_status (cr_status r))"
    using ended_statuses [OF run_okD [OF ok r]] by (auto simp: st_def ended_status_def)
  have checks: "(after < 0 \<or> int max_events_per_run < after) = False" "(n < 1 \<or> max_event_read < n) = False"
    "(\<not> transport_ok x) = False" using cur id(4) by simp_all
  show ?thesis
  proof (rule that)
    show "read_projected_events clk t u c x after n s = Inr (Some
        \<lparr>ep_conversation = c', ep_run = x, ep_user = u', ep_tenant = t',
         ep_events = map (\<lambda>e. (re_seq e, re_payload e)) ?page, ep_next = after + int (length ?page),
         ep_has_more = (nat after + nat n < length ?js), ep_status = st,
         ep_terminal_confirmed = (\<not> live_status (cr_status r)),
         ep_journal_terminal = (\<exists>e \<in> set ?js. terminal_event (re_type e))\<rparr>)"
      using fits
      unfolding read_projected_events_def checks if_False id prod.case option.case sc jr Let_def rows cap over nxt
        st_def [symmetric] conf by (simp only: if_False)
  qed (simp add: page_exact_def seqs)
qed

section \<open>Committed turns\<close>

lemma casts_pair: "casts env [a, b] = Some [x, y] \<longleftrightarrow> ce_cast env a = Some x \<and> ce_cast env b = Some y"
  by (auto simp: casts_def split: option.splits)

text \<open>The row \<open>q\<close> holds the message \<open>m\<close> in the conversation \<open>c\<close>.\<close>

definition saved_as :: "string \<Rightarrow> message \<Rightarrow> message_row \<Rightarrow> bool" where
  "saved_as c m q \<longleftrightarrow> mr_conversation q = c \<and> mr_role q = ms_role m \<and> mr_content q = ms_content m
     \<and> (mr_metadata q = ms_metadata m \<or> py_eq (PDict (mr_metadata q)) (PDict (ms_metadata m)))"

lemma put_saves:
  assumes "put_turn_message env m s = Inr (b, s')" "ce_cast env (ms_conversation m) = Some (ms_conversation m)"
  obtains i q where "ce_cast env (ms_id m) = Some i" "find_message i s' = Some q" "saved_as (ms_conversation m) m q"
proof -
  from assms(1) obtain i where "ce_cast env (ms_id m) = Some i"
    by (auto simp: put_turn_message_def casts_def split: option.splits list.splits)
  with assms have i: "casts env [ms_id m, ms_conversation m] = Some [i, ms_conversation m]"
    by (simp add: casts_pair)
  show ?thesis
  proof (cases "find_message i s")
    case None
    with assms(1) i have "s' = s\<lparr>cs_messages := cs_messages s @ [new_row i (ms_conversation m) m]\<rparr>"
      by (simp add: put_turn_message_def split: if_splits)
    moreover have "find P xs = None \<Longrightarrow> P y \<Longrightarrow> find P (xs @ [y]) = Some y" for P and xs :: "message_row list" and y
      by (induction xs) (auto split: if_splits)
    ultimately have "find_message i s' = Some (new_row i (ms_conversation m) m)"
      using None by (simp add: find_message_def new_row_def)
    then show ?thesis using i that by (simp add: casts_pair saved_as_def new_row_def)
  next
    case (Some q)
    with assms(1) i have "s' = s" "saved_as (ms_conversation m) m q"
      by (simp_all add: put_turn_message_def saved_as_def split: if_splits)
    with Some i that show ?thesis by (simp add: casts_pair)
  qed
qed

lemma put_keeps: "put_turn_message env m s = Inr (b, s') \<Longrightarrow> find_message i s = Some q \<Longrightarrow> find_message i s' = Some q"
proof -
  have app: "find P xs = Some q \<Longrightarrow> find P (xs @ ys) = Some q" for P and xs ys :: "message_row list"
    by (induction xs) (auto split: if_splits)
  show "put_turn_message env m s = Inr (b, s') \<Longrightarrow> find_message i s = Some q \<Longrightarrow> ?thesis"
    by (auto simp: put_turn_message_def find_message_def app split: option.splits list.splits if_splits)
qed

lemma live_row:
  assumes "store_ok s" "\<exists>r \<in> set (cs_runs s). live_lease now l r \<and> Q r"
  shows "\<exists>r. run_row (rl_execution l) s = Some r \<and> live_lease now l r \<and> Q r"
proof -
  obtain r where r: "r \<in> set (cs_runs s)" "live_lease now l r" "Q r" using assms(2) by blast
  then have "cr_execution r = rl_execution l" by (simp add: live_lease_def leased_def owned_run_def)
  with r show ?thesis using run_row_iff [OF assms(1)] by blast
qed

lemma completed_turn_spec:
  assumes ok: "store_ok s" and turn: "add_completed_turn env now clk um am (Some l) s = Inr (n, s')"
    and cast: "\<And>u. py_uuid u = Some u \<Longrightarrow> ce_cast env u = Some u"
  obtains r ui ai qu qa dg where "run_row (rl_execution l) s = Some r" "live_lease clk l r"
    "find_message ui s' = Some qu" "find_message ai s' = Some qa" "ui \<noteq> ai"
    "saved_as (rl_conversation l) um qu" "saved_as (rl_conversation l) am qa"
    "run_row (rl_execution l) s' = Some ((end_run now ''completed'' r)
       \<lparr>cr_user_message := Some ui, cr_assistant_message := Some ai, cr_digest := Some dg\<rparr>)"
proof -
  obtain s1 s2 s3 b1 b2 where t: "turn_valid um am" "authorize_turn now um am (Some l) s = Inr ()"
    "put_turn_message env um s1 = Inr (b1, s2)" "put_turn_message env am s2 = Inr (b2, s3)"
    "complete_run env now clk um am (Some l) s3 = Inr s'" "same_runs s s3"
    by (rule turn_shape [OF turn]) blast
  obtain ui ai dg where c: "casts env [ms_id um, ms_id am] = Some [ui, ai]" "ui \<noteq> ai"
    "\<exists>r \<in> set (cs_runs s3). live_lease clk l r \<and> same_request l r"
    and s': "s' = snd (update_runs (\<lambda>r. live_lease clk l r \<and> same_request l r) (\<lambda>r. (end_run now ''completed'' r)
       \<lparr>cr_user_message := Some ui, cr_assistant_message := Some ai, cr_digest := Some dg\<rparr>) s3)"
    by (rule complete_run_shape [OF t(5)]) blast
  have ok3: "store_ok s3" using ok same_runs_ok [OF t(6)] by simp
  obtain r where r: "run_row (rl_execution l) s3 = Some r" "live_lease clk l r" "same_request l r"
    using live_row [OF ok3 c(3)] by blast
  have rin: "r \<in> set (cs_runs s3)" "owned_run l r"
    using r run_row_iff [OF ok3] by (auto simp: live_lease_def leased_def)
  have lease: "ms_conversation um = rl_conversation l" "ms_conversation am = rl_conversation l"
    using t(1,2) by (auto simp: authorize_turn_def turn_in_lease_def turn_valid_def split: if_splits)
  have "ce_cast env (rl_conversation l) = Some (rl_conversation l)"
    using run_okD [OF ok3 rin(1)] rin(2) cast by (simp add: run_ok_def owned_run_def)
  then have cc: "ce_cast env (ms_conversation um) = Some (ms_conversation um)"
    "ce_cast env (ms_conversation am) = Some (ms_conversation am)" by (simp_all add: lease)
  obtain qu where qu: "find_message ui s2 = Some qu" "saved_as (rl_conversation l) um qu"
    using put_saves [OF t(3) cc(1)] c(1) by (auto simp: casts_pair lease)
  obtain qa where qa: "find_message ai s3 = Some qa" "saved_as (rl_conversation l) am qa"
    using put_saves [OF t(4) cc(2)] c(1) by (auto simp: casts_pair lease)
  have "run_row (rl_execution l) s' = Some ((end_run now ''completed'' r)
       \<lparr>cr_user_message := Some ui, cr_assistant_message := Some ai, cr_digest := Some dg\<rparr>)"
    unfolding s' by (subst run_row_update) (use r in simp_all)
  moreover have "find_message k s' = find_message k s3" for k by (simp add: s' update_runs_def find_message_def)
  moreover have "run_row (rl_execution l) s = Some r" using r(1) same_runs_row [OF t(6)] by simp
  ultimately show ?thesis using that r(2) c(2) qu(2) qa put_keeps [OF t(4) qu(1)] by simp
qed

section \<open>Drafts\<close>

definition owners :: "chat_store \<Rightarrow> (string \<times> string \<times> string) list" where
  "owners s = map (\<lambda>c. (cv_id c, cv_tenant c, cv_user c)) (cs_conversations s)"

definition drafts_ok :: "chat_store \<Rightarrow> bool" where
  "drafts_ok s \<longleftrightarrow> distinct (map fst (owners s)) \<and> distinct (map df_conversation (cs_drafts s))
     \<and> (\<forall>d \<in> set (cs_drafts s). (df_conversation d, df_tenant d, df_user d) \<in> set (owners s) \<and> 1 \<le> df_revision d)"

definition same_owners :: "chat_store \<Rightarrow> chat_store \<Rightarrow> bool" where
  "same_owners s s' \<longleftrightarrow> owners s' = owners s \<and> cs_drafts s' = cs_drafts s"

lemma same_owners_refl [simp]: "same_owners s s"
  by (simp add: same_owners_def)

lemma same_owners_trans: "same_owners s s' \<Longrightarrow> same_owners s' s'' \<Longrightarrow> same_owners s s''"
  by (simp add: same_owners_def)

lemma same_owners_writes [simp]: "same_owners s (s\<lparr>cs_messages := ms\<rparr>)" "same_owners s (s\<lparr>cs_runs := rs\<rparr>)"
  "same_owners s (s\<lparr>cs_events := es\<rparr>)" "same_owners s (snd (update_runs P f s))"
  by (simp_all add: same_owners_def owners_def update_runs_def)

lemma same_owners_conversations: "(\<And>c. c \<in> set (cs_conversations s) \<Longrightarrow>
    cv_id (f c) = cv_id c \<and> cv_tenant (f c) = cv_tenant c \<and> cv_user (f c) = cv_user c) \<Longrightarrow>
    same_owners s (s\<lparr>cs_conversations := map f (cs_conversations s)\<rparr>)"
  by (simp add: same_owners_def owners_def)

lemma same_owners_ok: "same_owners s s' \<Longrightarrow> drafts_ok s' = drafts_ok s"
  by (simp add: same_owners_def drafts_ok_def)

lemma owns_owners: "owns i t u s \<longleftrightarrow> (i, t, u) \<in> set (owners s)"
  by (auto simp: owns_def owners_def)

lemma claim_owners: "claim_scope env um s = Inr s' \<Longrightarrow> same_owners s s'"
proof -
  assume "claim_scope env um s = Inr s'"
  then have "s' = s \<or> (\<exists>c t u d. s' = s\<lparr>cs_conversations := map (\<lambda>w.
      if cv_id w = c \<and> cv_tenant w = t \<and> cv_user w = u then w\<lparr>cv_metadata := d\<rparr> else w) (cs_conversations s)\<rparr>)"
    unfolding claim_scope_def Let_def
    by (simp split: pyval.split_asm option.split_asm list.split_asm if_split_asm) blast+
  then show ?thesis by (auto intro!: same_owners_conversations)
qed

lemma put_owners: "put_turn_message env m s = Inr (b, s') \<Longrightarrow> same_owners s s'"
  by (auto simp: put_turn_message_def split: option.splits list.splits if_splits)

lemma turn_owners: "same_owners s (stays s (add_completed_turn env now clk um am lease s))"
proof (cases "add_completed_turn env now clk um am lease s")
  case (Inr p)
  obtain n s' where p: "p = (n, s')" by (cases p)
  obtain s1 s2 s3 b1 b2 where t: "claim_scope env um s = Inr s1" "put_turn_message env um s1 = Inr (b1, s2)"
    "put_turn_message env am s2 = Inr (b2, s3)" "complete_run env now clk um am lease s3 = Inr s'"
    by (rule turn_shape [OF Inr [unfolded p]]) blast
  have "same_owners s3 s'"
  proof (cases lease)
    case None
    with t(4) show ?thesis by (simp add: complete_run_def)
  next
    case (Some l)
    show ?thesis by (rule complete_run_shape [OF t(4) [unfolded Some]]) simp
  qed
  with claim_owners [OF t(1)] put_owners [OF t(2)] put_owners [OF t(3)] have "same_owners s s'"
    using same_owners_trans by blast
  then show ?thesis by (simp add: Inr p)
qed simp

lemma update_owners: "same_owners s (stays s (update_conversation env c s))"
proof -
  have "same_owners s (s\<lparr>cs_conversations := map (\<lambda>r. if P r then
      r\<lparr>cv_session := a1, cv_title := a2, cv_active := a3, cv_summary := a4, cv_tags := a5,
        cv_metadata := a6, cv_updated := a7\<rparr> else r) (cs_conversations s)\<rparr>)" for P a1 a2 a3 a4 a5 a6 a7
    by (rule same_owners_conversations) simp
  then show ?thesis unfolding update_conversation_def Let_def
    by (split option.split list.split pyval.split if_split
        | simp only: stays_simps snd_conv same_owners_refl simp_thms
        | intro conjI allI impI)+
qed

lemma reconcile_owners: "same_owners s (reconcile_expired now t u s)"
  by (simp add: reconcile_expired_def)

lemma admit_owners: "same_owners s (stays s (admit now x tok ttl t u c run req corr s))"
proof -
  have "same_owners s (reconcile_expired now t' u' s\<lparr>cs_runs := rs\<rparr>)" for t' u' rs
    using reconcile_owners same_owners_writes(2) same_owners_trans by blast
  then show ?thesis by (simp add: admit_def Let_def reconcile_owners split: option.split)
qed

lemma append_owners: "same_owners s (stays s (append_projected_event env clk l ev s))"
proof (cases "append_projected_event env clk l ev s")
  case (Inr p)
  obtain n s' where p: "p = (n, s')" by (cases p)
  show ?thesis by (rule append_shape [OF Inr [unfolded p]]) (simp add: Inr p)
qed simp

lemma cancel_owners: "same_owners s (stays s (request_cancel now t u c x s))"
  by (simp add: request_cancel_def split: option.split)

lemma finish_owners: "same_owners s (stays s (finish now l st code s))"
  by (simp add: finish_def)

lemma message_owners: "same_owners s (stays s (add_message env m s))"
  "same_owners s (stays s (update_message env m s))" "same_owners s (stays s (delete_message env i t s))"
  by (simp_all add: add_message_def update_message_def delete_message_def Let_def split: option.split list.split)

lemma create_drafts_ok: "drafts_ok s \<Longrightarrow> drafts_ok (stays s (create_conversation env c s))"
proof (cases "create_conversation env c s")
  case (Inr p)
  assume ok: "drafts_ok s"
  from Inr obtain i t u where i: "i \<notin> fst ` set (owners s)"
    and p: "snd p = s\<lparr>cs_conversations := cs_conversations s @ [c\<lparr>cv_id := i, cv_tenant := t, cv_user := u\<rparr>]\<rparr>"
    by (auto simp: create_conversation_def owners_def image_image split: option.splits list.splits if_splits)
  have "owners (snd p) = owners s @ [(i, t, u)]" "cs_drafts (snd p) = cs_drafts s" by (simp_all add: p owners_def)
  then show ?thesis using ok i by (auto simp: Inr drafts_ok_def)
qed simp

lemma erase_drafts_ok: "drafts_ok s \<Longrightarrow> drafts_ok (erase_conversation i t u s)"
proof -
  assume ok: "drafts_ok s"
  let ?s = "erase_conversation i t u s"
  have ow: "owners ?s = filter (\<lambda>k. k \<noteq> (i, t, u)) (owners s)"
    by (auto simp: erase_conversation_def owners_def filter_map comp_def intro!: arg_cong [of _ _ "map _"] filter_cong)
  have dr: "cs_drafts ?s = filter (\<lambda>d. \<not> ((i, t, u) \<in> set (owners s) \<and> df_conversation d = i)) (cs_drafts s)"
    by (simp add: erase_conversation_def owns_owners)
  have "(df_conversation d, df_tenant d, df_user d) \<noteq> (i, t, u)" if "d \<in> set (cs_drafts ?s)" for d
    using that ok by (auto simp: dr drafts_ok_def)
  then show ?thesis using ok unfolding drafts_ok_def ow
    by (auto simp: dr distinct_map_filter)
qed

lemma find_draft_iff: "drafts_ok s \<Longrightarrow> find_draft i s = Some d \<longleftrightarrow> d \<in> set (cs_drafts s) \<and> df_conversation d = i"
  by (simp add: find_draft_def drafts_ok_def find_key_iff)

lemma draft_owner:
  assumes ok: "drafts_ok s" and d: "find_draft i s = Some d" and own: "owns i t u s"
  shows "df_tenant d = t \<and> df_user d = u"
proof -
  have "(i, df_tenant d, df_user d) \<in> set (owners s)"
    using ok d find_draft_iff [OF ok] by (auto simp: drafts_ok_def)
  moreover have "(i, t, u) \<in> set (owners s)" using own by (simp add: owns_owners)
  moreover have "distinct (map fst (owners s))" using ok by (simp add: drafts_ok_def)
  ultimately show ?thesis using eq_key_imp_eq_value [of "owners s" i] by blast
qed

lemma find_draft_None: "find_draft i s = None \<longleftrightarrow> i \<notin> df_conversation ` set (cs_drafts s)"
  by (auto simp: find_draft_def find_None_iff)

text \<open>The two ways a draft is written.\<close>

lemma put_draft_shape:
  assumes "put_composer_draft env clk i t u txt n s = Inr (v, s')"
  obtains (fresh) i' t' u' where "casts env [i, t, u] = Some [i', t', u']" "owns i' t' u' s"
    "find_draft i' s = None" "n = 0" "v = (txt, 1)"
    "s' = s\<lparr>cs_drafts := cs_drafts s @ [\<lparr>df_conversation = i', df_tenant = t', df_user = u', df_text = txt,
       df_revision = 1, df_updated = clk\<rparr>]\<rparr>"
  | (replaced) i' t' u' d where "casts env [i, t, u] = Some [i', t', u']" "owns i' t' u' s"
    "find_draft i' s = Some d" "df_tenant d = t'" "df_user d = u'" "df_revision d = n" "v = (txt, n + 1)"
    "s' = s\<lparr>cs_drafts := map (\<lambda>e. if df_conversation e = i'
       then e\<lparr>df_text := txt, df_revision := n + 1, df_updated := clk\<rparr> else e) (cs_drafts s)\<rparr>"
proof -
  obtain i' t' u' where c: "casts env [i, t, u] = Some [i', t', u']" "owns i' t' u' s"
    using assms by (auto simp: put_composer_draft_def draft_unavailable_def
        split: option.splits list.splits if_splits)
  show ?thesis
  proof (cases "find_draft i' s")
    case None
    then show ?thesis using fresh [OF c None] assms c
      by (simp add: put_composer_draft_def split: if_splits)
  next
    case (Some d)
    then show ?thesis using replaced [OF c Some] assms c
      by (auto simp: put_composer_draft_def split: if_splits)
  qed
qed

lemma put_drafts_ok: "drafts_ok s \<Longrightarrow> drafts_ok (stays s (put_composer_draft env clk i t u txt n s))"
proof (cases "put_composer_draft env clk i t u txt n s")
  case (Inr p)
  assume ok: "drafts_ok s"
  obtain v s' where p: "p = (v, s')" by (cases p)
  from Inr p have "put_composer_draft env clk i t u txt n s = Inr (v, s')" by simp
  then have "drafts_ok s'"
  proof (cases rule: put_draft_shape)
    case (fresh i' t' u')
    have "owners s' = owners s" by (simp add: fresh owners_def)
    then show ?thesis using ok fresh(2,3) by (auto simp: fresh(6) drafts_ok_def owns_owners find_draft_None)
  next
    case (replaced i' t' u' d)
    have "owners s' = owners s" by (simp add: replaced owners_def)
    moreover have "1 \<le> n" using ok replaced(3,6) find_draft_iff [OF ok] by (auto simp: drafts_ok_def)
    moreover have "map df_conversation (cs_drafts s') = map df_conversation (cs_drafts s)"
      by (simp add: replaced(8) comp_def)
    moreover have "\<forall>d \<in> set (cs_drafts s'). \<exists>e \<in> set (cs_drafts s). df_conversation d = df_conversation e
        \<and> df_tenant d = df_tenant e \<and> df_user d = df_user e
        \<and> (df_revision d = df_revision e \<or> df_revision d = n + 1)"
      by (auto simp: replaced(8))
    ultimately show ?thesis using ok unfolding drafts_ok_def by fastforce
  qed
  then show ?thesis by (simp add: Inr p)
qed simp

lemma step_drafts_ok: "drafts_ok s \<Longrightarrow> drafts_ok (chat_step env op s)"
proof (cases op)
  case (DeleteConversation i t u)
  then show "drafts_ok s \<Longrightarrow> ?thesis"
    by (simp add: delete_conversation_def erase_drafts_ok split: option.split list.split)
qed (simp_all add: create_drafts_ok put_drafts_ok renew_def same_owners_ok [OF update_owners] same_owners_ok [OF turn_owners]
    same_owners_ok [OF admit_owners] same_owners_ok [OF append_owners] same_owners_ok [OF cancel_owners]
    same_owners_ok [OF finish_owners] same_owners_ok [OF message_owners(1)] same_owners_ok [OF message_owners(2)]
    same_owners_ok [OF message_owners(3)] same_owners_ok [OF same_owners_writes(4)])

interpretation chat_drafts: invariant_machine "chat_step env" drafts_ok for env
  by unfold_locales (rule step_drafts_ok)

lemma reachable_drafts_ok: "drafts_ok (chat_run_ops env ops empty_store)"
  unfolding chat_run_eq
  by (rule chat_drafts.inv_run) (simp add: drafts_ok_def empty_store_def owners_def)

text \<open>A write succeeds exactly over the revision a read returns, and reads back with the next one.\<close>

lemma draft_swap:
  assumes ok: "drafts_ok s" and fits: "draft_ok txt n"
  shows "(\<exists>v s'. put_composer_draft env clk i t u txt n s = Inr (v, s'))
      \<longleftrightarrow> (\<exists>old. get_composer_draft env i t u s = Inr (old, n))"
proof (cases "\<exists>i' t' u'. casts env [i, t, u] = Some [i', t', u'] \<and> owns i' t' u' s")
  case True
  then obtain i' t' u' where c: "casts env [i, t, u] = Some [i', t', u']" "owns i' t' u' s" by blast
  show ?thesis
  proof (cases "find_draft i' s")
    case None
    with c fits show ?thesis by (auto simp: put_composer_draft_def get_composer_draft_def)
  next
    case (Some d)
    with c fits draft_owner [OF ok Some c(2)] show ?thesis
      by (auto simp: put_composer_draft_def get_composer_draft_def)
  qed
next
  case False
  then show ?thesis
    by (auto simp: put_composer_draft_def get_composer_draft_def draft_unavailable_def split: option.splits list.splits)
qed

lemma draft_written:
  assumes "drafts_ok s" "put_composer_draft env clk i t u txt n s = Inr (v, s')"
  shows "v = (txt, n + 1) \<and> get_composer_draft env i t u s' = Inr v"
  using assms(2)
proof (cases rule: put_draft_shape)
  case (fresh i' t' u')
  have "find P xs = None \<Longrightarrow> P y \<Longrightarrow> find P (xs @ [y]) = Some y" for P and xs :: "draft list" and y
    by (induction xs) (auto split: if_splits)
  with fresh show ?thesis by (auto simp: get_composer_draft_def owns_def find_draft_def)
next
  case (replaced i' t' u' d)
  have "find (\<lambda>e. df_conversation e = i') (map (\<lambda>e. if df_conversation e = i' then g e else e) xs)
      = map_option g (find (\<lambda>e. df_conversation e = i') xs)"
    if "\<And>e. df_conversation (g e) = df_conversation e" for g and xs :: "draft list"
    using that by (induction xs) auto
  with replaced show ?thesis by (auto simp: get_composer_draft_def owns_def find_draft_def)
qed

section \<open>Properties\<close>

text \<open>
  C2: Over any sequence of operations on the conversation store a run changes only through an
  operation entitled to it: one that presents its live lease, a stop of its owner while it is
  live, an admission of its owner after the lease expired, or the deletion of its conversation. In
  particular an ended run (completed, failed, cancelled, orphaned) never changes again.
\<close>

theorem chat_run_fenced:
  assumes "run_row x (chat_run_ops env ops empty_store) = Some r"
    and "\<forall>op \<in> set later. \<not> run_entitled env r op"
  shows "run_row x (chat_run_ops env (ops @ later) empty_store) = Some r"
proof -
  have "run_row x (chat_runs.run env later (chat_run_ops env ops empty_store)) = run_row x (chat_run_ops env ops empty_store)"
    by (rule chat_runs.fence_run [OF reachable_ok]) (use assms in \<open>auto simp: row_entitled_def\<close>)
  then show ?thesis using assms(1) by (simp add: chat_run_eq chat_runs.run_append)
qed

text \<open>
  C4: Recovery of a reachable store never meets a journal that contradicts its run: a read fails on
  a malformed request only. A page holds exactly the next events after the cursor, in order and
  without gaps, moves the cursor by their number, says whether more follow, and reports the run as
  ended exactly when it is; the journal itself has at most one terminal event, of the kind its run
  asks for, followed by the closing envelope only.
\<close>

theorem recovery_pages_exact:
  "case read_projected_events clk t u c x after n (chat_run_ops env ops empty_store) of
     Inl e \<Rightarrow> e \<in> {ChatValue ''invalid_transport_run_id'', ChatValue ''invalid_chat_event_cursor'',
                  ChatValue ''invalid_chat_event_page_limit'', BadUuid}
   | Inr None \<Rightarrow> \<not> (\<exists>r \<in> set (cs_runs (chat_run_ops env ops empty_store)).
       py_uuid t = Some (cr_tenant r) \<and> py_uuid u = Some (cr_user r) \<and> py_uuid c = Some (cr_conversation r)
       \<and> cr_transport r = x)
   | Inr (Some p) \<Rightarrow> \<exists>r \<in> set (cs_runs (chat_run_ops env ops empty_store)).
       py_uuid t = Some (cr_tenant r) \<and> py_uuid u = Some (cr_user r) \<and> py_uuid c = Some (cr_conversation r)
       \<and> cr_transport r = x
       \<and> page_exact after n r (journal_of (cr_execution r) (chat_run_ops env ops empty_store)) p
       \<and> journal_ok r (journal_of (cr_execution r) (chat_run_ops env ops empty_store))"
proof -
  let ?s = "chat_run_ops env ops empty_store" and ?read = "read_projected_events clk t u c x after n (chat_run_ops env ops empty_store)"
  have ok: "store_ok ?s" by (rule reachable_ok)
  show ?thesis
  proof (cases "transport_ok x \<and> 0 \<le> after \<and> after \<le> int max_events_per_run \<and> 1 \<le> n \<and> n \<le> max_event_read
      \<and> py_uuid t \<noteq> None \<and> py_uuid u \<noteq> None \<and> py_uuid c \<noteq> None")
    case False
    then have "\<exists>e \<in> {ChatValue ''invalid_transport_run_id'', ChatValue ''invalid_chat_event_cursor'',
        ChatValue ''invalid_chat_event_page_limit'', BadUuid}. ?read = Inl e"
      by (auto simp: read_projected_events_def split: option.splits)
    then show ?thesis by auto
  next
    case True
    then obtain t' u' c' where id: "py_uuid t = Some t'" "py_uuid u = Some u'" "py_uuid c = Some c'" by blast
    show ?thesis
    proof (cases "scoped_run t' u' c' x ?s")
      case None
      then have "?read = Inr None" using True id by (simp add: read_projected_events_def)
      moreover have "\<not> (\<exists>r \<in> set (cs_runs ?s). run_scope r = (t', u', c', x))"
        using None scoped_run_iff [OF ok, of t' u' c' x] by auto
      ultimately show ?thesis using id by (auto simp: run_scope_def)
    next
      case (Some r)
      then have r: "r \<in> set (cs_runs ?s)" "run_scope r = (t', u', c', x)" using scoped_run_iff [OF ok] by blast+
      obtain p where "?read = Inr (Some p)" "page_exact after n r (journal_of (cr_execution r) ?s) p"
        by (rule page_of_run [OF ok r id, where clk = clk and after = after and n = n])
          (use True in auto)
      then show ?thesis using r id journalD [OF ok r(1)] by (auto simp: run_scope_def intro!: bexI [of _ r])
    qed
  qed
qed

text \<open>
  C3: A turn that is committed under a lease has, in one step, both messages saved in the
  conversation of the lease with their roles, contents and metadata, and the run, which held the
  live lease until then, completed with exactly these two messages.
\<close>

theorem completed_turn_commits:
  assumes "add_completed_turn env now clk um am (Some l) (chat_run_ops env ops empty_store) = Inr (n, s')"
    and "\<And>u. py_uuid u = Some u \<Longrightarrow> ce_cast env u = Some u"
  shows "\<exists>r ui ai qu qa dg. run_row (rl_execution l) (chat_run_ops env ops empty_store) = Some r \<and> live_lease clk l r
    \<and> find_message ui s' = Some qu \<and> saved_as (rl_conversation l) um qu
    \<and> find_message ai s' = Some qa \<and> saved_as (rl_conversation l) am qa \<and> ui \<noteq> ai
    \<and> run_row (rl_execution l) s' = Some ((end_run now ''completed'' r)
       \<lparr>cr_user_message := Some ui, cr_assistant_message := Some ai, cr_digest := Some dg\<rparr>)"
proof (rule completed_turn_spec [OF reachable_ok assms(1)])
  show "\<And>u. py_uuid u = Some u \<Longrightarrow> ce_cast env u = Some u" by (rule assms(2))
qed (intro exI conjI; assumption)

text \<open>
  Drafts are replaced by compare-and-swap: on every reachable store a write of a valid draft
  succeeds exactly when a read returns the revision it names, and then the next read returns its
  text with the revision one higher; a writer that saw an older revision never overwrites.
\<close>

theorem draft_compare_and_swap:
  "(\<exists>v s'. put_composer_draft env clk i t u content n (chat_run_ops env ops empty_store) = Inr (v, s'))
     = (draft_ok content n \<and> (\<exists>old. get_composer_draft env i t u (chat_run_ops env ops empty_store) = Inr (old, n)))
   \<and> (case put_composer_draft env clk i t u content n (chat_run_ops env ops empty_store) of
        Inl e \<Rightarrow> True
      | Inr (v, s') \<Rightarrow> v = (content, n + 1) \<and> get_composer_draft env i t u s' = Inr v)"
proof
  have bad: "\<not> draft_ok content n \<Longrightarrow> put_composer_draft env clk i t u content n s = Inl (RepoError ''composer_draft_invalid'')"
    for s by (simp add: put_composer_draft_def)
  show "(\<exists>v s'. put_composer_draft env clk i t u content n (chat_run_ops env ops empty_store) = Inr (v, s'))
     = (draft_ok content n \<and> (\<exists>old. get_composer_draft env i t u (chat_run_ops env ops empty_store) = Inr (old, n)))"
    using draft_swap [OF reachable_drafts_ok] bad by (cases "draft_ok content n") simp_all
  show "case put_composer_draft env clk i t u content n (chat_run_ops env ops empty_store) of
        Inl e \<Rightarrow> True
      | Inr (v, s') \<Rightarrow> v = (content, n + 1) \<and> get_composer_draft env i t u s' = Inr v"
    using draft_written [OF reachable_drafts_ok] by (simp split: sum.split prod.split)
qed

section \<open>Samples\<close>

definition sample_env :: chat_env where
  "sample_env = \<lparr>ce_cast = Some, ce_json_text = (\<lambda>_. []), ce_json_bytes = length, ce_float = (\<lambda>_. ''0''),
     ce_sha256 = (\<lambda>_. replicate 64 CHR ''0'')\<rparr>"

definition sample_tenant :: string where "sample_tenant = uuid_text 1"
definition sample_user :: string where "sample_user = uuid_text 2"
definition sample_chat :: string where "sample_chat = uuid_text 3"

lemma sample_uuids [simp]: "py_uuid sample_tenant = Some sample_tenant" "py_uuid sample_user = Some sample_user"
    "py_uuid sample_chat = Some sample_chat"
  by (simp_all add: sample_tenant_def sample_user_def sample_chat_def py_uuid_canonical)

definition sample_ask_id :: string where "sample_ask_id = uuid_text 4"
definition sample_answer_id :: string where "sample_answer_id = uuid_text 5"

lemma sample_ids [simp]: "py_uuid sample_ask_id = Some sample_ask_id" "py_uuid sample_answer_id = Some sample_answer_id"
  by (simp_all add: sample_ask_id_def sample_answer_id_def py_uuid_canonical)

lemma sample_ids_differ [simp]: "sample_ask_id \<noteq> sample_answer_id" "sample_answer_id \<noteq> sample_ask_id"
  unfolding sample_ask_id_def sample_answer_id_def by code_simp+

definition sample_conversation :: conversation where
  "sample_conversation = \<lparr>cv_id = sample_chat, cv_tenant = sample_tenant, cv_user = sample_user, cv_session = None,
     cv_title = None, cv_active = True, cv_summary = None, cv_tags = [], cv_metadata = PDict [],
     cv_created = 0, cv_updated = 0\<rparr>"

definition sample_lease :: run_lease where
  "sample_lease = \<lparr>rl_execution = ''x1'', rl_token = ''k1'', rl_tenant = sample_tenant, rl_user = sample_user,
     rl_conversation = sample_chat, rl_transport = ''r1'', rl_request = ''q1'', rl_correlation = ''c1''\<rparr>"

definition sample_message :: "string \<Rightarrow> string \<Rightarrow> string \<Rightarrow> message" where
  "sample_message i ro content = \<lparr>ms_id = i, ms_conversation = sample_chat, ms_tenant = sample_tenant, ms_role = ro,
     ms_content = content, ms_created = 1,
     ms_metadata = [(''authorized_user_id'', PStr sample_user), (''request_id'', PStr ''q1'')]\<rparr>"

definition sample_admission :: "chat_op list" where
  "sample_admission = [CreateConversation sample_conversation,
     Admit 0 ''x1'' ''k1'' 60 sample_tenant sample_user sample_chat ''r1'' ''q1'' ''c1'']"

lemma json_fields_some: "json_fields f d \<noteq> None \<longleftrightarrow> (\<forall>p \<in> set d. json_value f (snd p) \<noteq> None)"
  by (induction d) (auto split: option.splits)

lemma json_dict_some: "json_value f (PDict d) \<noteq> None \<longleftrightarrow> (\<forall>p \<in> set d. json_value f (snd p) \<noteq> None)"
  using json_fields_some [of f d] by (auto split: option.splits)

lemma sample_digest: "message_digest sample_env (sample_message i ro content) = Some (replicate 64 CHR ''0'')"
proof -
  have "json_value f (sort_keys (PDict [(''id'', PStr a), (''conversation_id'', PStr b), (''tenant_id'', PStr c),
      (''role'', PStr ro), (''content'', PStr e), (''metadata'', PDict [(k1, PStr v1), (k2, PStr v2)])])) \<noteq> None"
    for f a b c e k1 v1 k2 v2
    by (simp add: json_dict_some del: json_value.simps(7) not_None_eq)
  then show ?thesis by (simp add: message_digest_def sample_message_def sample_env_def del: json_value.simps sort_keys.simps)
qed

definition sample_running :: chat_run where
  "sample_running = \<lparr>cr_execution = ''x1'', cr_tenant = sample_tenant, cr_user = sample_user,
     cr_conversation = sample_chat, cr_transport = ''r1'', cr_request = ''q1'', cr_correlation = ''c1'',
     cr_status = ''running'', cr_lease_token = Some ''k1'', cr_lease_expires = Some 60000000, cr_cancel_at = None,
     cr_terminal_at = None, cr_error_code = None, cr_user_message = None, cr_assistant_message = None,
     cr_digest = None, cr_created = 0, cr_updated = 0\<rparr>"

lemma sample_store: "chat_run_ops sample_env sample_admission empty_store =
    empty_store\<lparr>cs_conversations := [sample_conversation], cs_runs := [sample_running]\<rparr>"
  by (simp add: sample_admission_def create_conversation_def sample_env_def sample_conversation_def casts_def
      empty_store_def json_ok_def admit_def transport_ok_def ident_char_def Let_def reconcile_expired_def
      update_runs_def sample_running_def)

lemma sample_run_row: "run_row ''x1'' (chat_run_ops sample_env (sample_admission @ [Finish 2 sample_lease ''cancelled'' None]) empty_store)
    = Some (end_run 2 ''cancelled'' sample_running)"
  by (simp add: chat_run_eq chat_runs.run_append)
    (simp add: chat_run_eq [symmetric] sample_store finish_def update_runs_def run_row_def leased_def owned_run_def
      sample_lease_def sample_running_def end_run_def live_status_def sql_eq_def sql_after_def)

lemma chat_run_fenced_witness:
  "run_row ''x1'' (chat_run_ops sample_env ((sample_admission @ [Finish 2 sample_lease ''cancelled'' None])
      @ [Finish 3 sample_lease ''failed'' (Some ''LATE''), Renew 4 60 sample_lease,
         Admit 90000000 ''x2'' ''k2'' 60 sample_tenant sample_user sample_chat ''r1'' ''q2'' ''c2'',
         RequestCancel 5 sample_tenant sample_user sample_chat ''r1'']) empty_store)
   = Some (end_run 2 ''cancelled'' sample_running)"
  by (rule chat_run_fenced [OF sample_run_row])
    (simp add: sample_running_def end_run_def live_lease_def leased_def live_status_def)

abbreviation sample_start :: chat_store where
  "sample_start \<equiv> empty_store\<lparr>cs_conversations := [sample_conversation], cs_runs := [sample_running]\<rparr>"

abbreviation sample_ask :: message where "sample_ask \<equiv> sample_message sample_ask_id ''user'' ''hi''"
abbreviation sample_answer :: message where "sample_answer \<equiv> sample_message sample_answer_id ''assistant'' ''hello''"

lemma sample_meta: "meta (sample_message i ro ct) ''authorized_user_id'' = PStr sample_user"
  "meta (sample_message i ro ct) ''request_id'' = PStr ''q1''" "meta (sample_message i ro ct) ''persona_scope_id'' = PNone"
  by (simp_all add: sample_message_def meta_def vget_def dget_def)

lemma sample_message_simps [simp]: "ms_id (sample_message i ro ct) = i" "ms_role (sample_message i ro ct) = ro"
    "ms_content (sample_message i ro ct) = ct" "ms_conversation (sample_message i ro ct) = sample_chat"
    "ms_tenant (sample_message i ro ct) = sample_tenant"
  by (simp_all add: sample_message_def)

lemma sample_lease_simps [simp]: "rl_execution sample_lease = ''x1''" "rl_tenant sample_lease = sample_tenant"
    "rl_user sample_lease = sample_user" "rl_conversation sample_lease = sample_chat" "rl_request sample_lease = ''q1''"
  by (simp_all add: sample_lease_def)

lemma sample_user_truthy: "truthy (PStr sample_user)"
  by (simp add: sample_user_def uuid_text_def Let_def)

lemma sample_valid: "turn_valid sample_ask sample_answer"
  using sample_user_truthy by (simp add: turn_valid_def sample_meta)

lemma sample_live: "live_lease 3 sample_lease sample_running" "live_lease 2 sample_lease sample_running"
    "same_request sample_lease sample_running"
  by (simp_all add: live_lease_def leased_def owned_run_def sample_lease_def sample_running_def same_request_def
      sql_eq_def sql_after_def)

lemma sample_authorize: "authorize_turn 2 sample_ask sample_answer (Some sample_lease) sample_start = Inr ()"
  by (simp add: authorize_turn_def turn_in_lease_def sample_meta sample_live)

lemma sample_claim: "claim_scope sample_env sample_ask sample_start = Inr sample_start"
  by (simp add: claim_scope_def sample_meta casts_def sample_env_def)
    (simp add: sample_conversation_def vget_def dget_def Let_def sample_meta)

lemma sample_put: "put_turn_message sample_env (sample_message i ro ct) s = Inr (True, s\<lparr>cs_messages := cs_messages s
      @ [new_row i sample_chat (sample_message i ro ct)]\<rparr>)" if "find_message i s = None"
  using that by (simp add: put_turn_message_def casts_def sample_env_def sample_message_def json_ok_def)

lemma sample_complete: "complete_run sample_env 2 3 sample_ask sample_answer (Some sample_lease) (sample_start\<lparr>cs_messages := ms\<rparr>)
    = Inr (sample_start\<lparr>cs_messages := ms, cs_runs := [(end_run 2 ''completed'' sample_running)\<lparr>cr_user_message := Some sample_ask_id,
         cr_assistant_message := Some sample_answer_id, cr_digest := Some (replicate 64 CHR ''0'')\<rparr>]\<rparr>)"
proof -
  have dg: "digest_ok (replicate 64 CHR ''0'')" by code_simp
  have ids: "casts sample_env [sample_ask_id, sample_answer_id] = Some [sample_ask_id, sample_answer_id]" by (simp add: casts_def sample_env_def)
  show ?thesis by (simp add: complete_run_def sample_digest sample_live Let_def update_runs_def ids dg)
qed

lemma sample_turn: "add_completed_turn sample_env 2 3 sample_ask sample_answer (Some sample_lease)
    (chat_run_ops sample_env sample_admission empty_store)
  = Inr (2, sample_start\<lparr>cs_messages := [new_row sample_ask_id sample_chat sample_ask, new_row sample_answer_id sample_chat sample_answer],
      cs_runs := [(end_run 2 ''completed'' sample_running)\<lparr>cr_user_message := Some sample_ask_id,
         cr_assistant_message := Some sample_answer_id, cr_digest := Some (replicate 64 CHR ''0'')\<rparr>]\<rparr>)"
  unfolding sample_store
proof -
  have none: "cs_messages empty_store = []" by (simp add: empty_store_def)
  show "add_completed_turn sample_env 2 3 sample_ask sample_answer (Some sample_lease) sample_start
    = Inr (2, sample_start\<lparr>cs_messages := [new_row sample_ask_id sample_chat sample_ask, new_row sample_answer_id sample_chat sample_answer],
      cs_runs := [(end_run 2 ''completed'' sample_running)\<lparr>cr_user_message := Some sample_ask_id,
         cr_assistant_message := Some sample_answer_id, cr_digest := Some (replicate 64 CHR ''0'')\<rparr>]\<rparr>)"
    by (simp add: add_completed_turn_def sample_valid sample_authorize sample_claim)
      (simp add: sample_put find_message_def new_row_def none sample_complete)
qed

lemma completed_turn_commits_witness:
  "\<exists>n s'. add_completed_turn sample_env 2 3 sample_ask sample_answer (Some sample_lease)
     (chat_run_ops sample_env sample_admission empty_store) = Inr (n, s')
   \<and> (\<exists>ui ai dg. ui \<noteq> ai \<and> run_row ''x1'' s' = Some ((end_run 2 ''completed'' sample_running)
       \<lparr>cr_user_message := Some ui, cr_assistant_message := Some ai, cr_digest := Some dg\<rparr>))"
proof -
  have row: "run_row ''x1'' (chat_run_ops sample_env sample_admission empty_store) = Some sample_running"
    by (simp add: sample_store run_row_def sample_running_def)
  have cast: "\<And>u. py_uuid u = Some u \<Longrightarrow> ce_cast sample_env u = Some u" by (simp add: sample_env_def)
  show ?thesis using completed_turn_commits [OF sample_turn cast] sample_turn row by (simp only: sample_lease_simps) blast
qed

end
