(* ===== verification/ChatStream.thy ===== *)
theory ChatStream
  imports ChatRunLaws
begin

text \<open>
  The coordinator of one streamed run, \<^verbatim>\<open>ChatRunCoordinator.stream\<close> of
  \<^verbatim>\<open>core/runtime/chat_run_lifecycle.py\<close>: it renews the lease while the model produces chunks,
  settles the run in the store before it forwards a terminal chunk, and closes the model before it
  confirms a stop.

  The generator is a machine whose states are its \<^verbatim>\<open>await\<close> and \<^verbatim>\<open>yield\<close> points, driven by
  stimuli: what the model, the clock and the consumer do, and the instants at which the store
  executes the calls. Between any two of its steps other sessions apply any operations of the
  store. A call whose answer is lost after the store executed it is such an operation followed by
  \<open>Throw\<close>.
\<close>

section \<open>Chunks and await points\<close>

datatype chunk_type = ChunkStatus | ChunkContent | ChunkAgentStep | ChunkTool | ChunkCitation
  | ChunkPresentation | ChunkApproval | ChunkWarning | ChunkError | ChunkComplete

record chunk =
  ck_type :: chunk_type
  ck_content :: string
  ck_correlation :: string
  ck_metadata :: "(string, pyval) pydict"

definition terminal_chunk :: "chunk \<Rightarrow> bool" where
  "terminal_chunk c \<longleftrightarrow> ck_type c = ChunkComplete \<or> ck_type c = ChunkError"

text \<open>
  The exceptions of the generator: its own two, the interruptions (\<^verbatim>\<open>CancelledError\<close>,
  \<^verbatim>\<open>GeneratorExit\<close>), and every other one.
\<close>

datatype stream_exc = CancelRequested | LeaseLost string | Interrupted | OtherFailure

datatype stream_end = Returned | Raised stream_exc

datatype stream_at =
    WaitChunk
  | RenewLease "chunk option"
  | LeaseStopped "chunk option"
  | LeaseCompleted "chunk option"
  | CheckStop chunk
  | VerifyTurn chunk string string
  | FailRun string chunk
  | Refused string
  | MissingTerminal
  | Yielding bool
  | Stopping
  | ConfirmStop
  | Cleanup stream_exc
  | CleanupFinish stream_exc
  | Closing stream_end
  | Ended stream_end

text \<open>
  The heartbeat timer runs out; a chunk arrives, with whether a heartbeat is due; the model ends;
  the consumer resumes; the store executes the pending call; the model is closed; an interruption
  or an exception arrives.
\<close>

datatype stimulus = Tick | Got chunk bool | Exhausted | Resume | Call int | Closed | Throw bool

record stream_state =
  ss_at :: stream_at
  ss_out :: "chunk list"
  ss_store :: chat_store
  ss_erased :: bool

section \<open>The body of the loop\<close>

text \<open>Where an exception of the \<^verbatim>\<open>try\<close> block goes.\<close>

definition raise_at :: "bool \<Rightarrow> stream_exc \<Rightarrow> stream_at" where
  "raise_at ended e = (if e = CancelRequested then Stopping else if ended then Closing (Raised e) else Cleanup e)"

definition thrown :: "bool \<Rightarrow> stream_exc" where
  "thrown b = (if b then Interrupted else OtherFailure)"

definition emit :: "chunk \<Rightarrow> bool \<Rightarrow> stream_state \<Rightarrow> stream_state" where
  "emit c final \<sigma> = \<sigma>\<lparr>ss_at := Yielding final, ss_out := ss_out \<sigma> @ [c]\<rparr>"

definition have_chunk :: "chunk option \<Rightarrow> stream_state \<Rightarrow> stream_state" where
  "have_chunk k \<sigma> = (case k of
      None \<Rightarrow> \<sigma>\<lparr>ss_at := WaitChunk\<rparr>
    | Some c \<Rightarrow> if terminal_chunk c then \<sigma>\<lparr>ss_at := CheckStop c\<rparr> else emit c False \<sigma>)"

definition gated :: "chunk \<Rightarrow> bool" where
  "gated c \<longleftrightarrow> vget (ck_metadata c) ''status'' PNone = PStr ''gate''
     \<or> vget (ck_metadata c) ''error_code'' PNone = PStr ''CHAT_RUNTIME_GATED''"

definition refusal_chunk :: "run_lease \<Rightarrow> bool \<Rightarrow> string \<Rightarrow> chunk" where
  "refusal_chunk l is_gate code = \<lparr>ck_type = ChunkError,
     ck_content = (if is_gate then ''Chat execution was not authorized to complete.''
                   else ''Chat response could not be confirmed in saved history.''),
     ck_correlation = rl_correlation l, ck_metadata = [(''error_code'', PStr code)]\<rparr>"

text \<open>
  A COMPLETE chunk that no stop preceded. A list or an object as persistence status cannot be
  looked up in the set of statuses.
\<close>

definition complete_at :: "run_lease \<Rightarrow> chunk \<Rightarrow> stream_at" where
  "complete_at l c =
     (let m = ck_metadata c; status = vget m ''transcript_persistence_status'' PNone
      in case status of
        PList _ \<Rightarrow> Cleanup OtherFailure
      | PDict _ \<Rightarrow> Cleanup OtherFailure
      | _ \<Rightarrow>
        if gated c then FailRun ''CHAT_RUNTIME_GATED'' (refusal_chunk l True ''CHAT_RUNTIME_GATED'')
        else if status \<noteq> PStr ''persisted'' \<and> status \<noteq> PStr ''already_persisted''
        then FailRun ''CHAT_TRANSCRIPT_NOT_PERSISTED'' (refusal_chunk l False ''CHAT_TRANSCRIPT_NOT_PERSISTED'')
        else (case (vget m ''user_message_id'' PNone, vget m ''assistant_message_id'' PNone) of
            (PStr u, PStr a) \<Rightarrow> VerifyTurn c u a
          | _ \<Rightarrow> Refused ''chat_run_atomic_commit_not_verified''))"

definition stop_checked :: "run_lease \<Rightarrow> chunk \<Rightarrow> stream_at" where
  "stop_checked l c = (if ck_type c = ChunkError then FailRun ''CHAT_RUNTIME_ERROR'' c else complete_at l c)"

section \<open>The calls of the store\<close>

text \<open>\<^verbatim>\<open>finish\<close> under the lease: the states after a run that ended, one that did not, a rejected call.\<close>

definition finish_call ::
    "int \<Rightarrow> run_lease \<Rightarrow> string \<Rightarrow> string \<Rightarrow> (stream_state \<Rightarrow> stream_state) \<Rightarrow> (stream_state \<Rightarrow> stream_state) \<Rightarrow>
     (stream_state \<Rightarrow> stream_state) \<Rightarrow> stream_state \<Rightarrow> stream_state" where
  "finish_call now l st code done_k lost_k bad_k \<sigma> =
     (case finish now l st (Some code) (ss_store \<sigma>) of
        Inl _ \<Rightarrow> bad_k \<sigma>
      | Inr (hit, s') \<Rightarrow> (if hit then done_k else lost_k) (\<sigma>\<lparr>ss_store := s'\<rparr>))"

definition goto :: "stream_at \<Rightarrow> stream_state \<Rightarrow> stream_state" where
  "goto p \<sigma> = \<sigma>\<lparr>ss_at := p\<rparr>"

fun on_call :: "int \<Rightarrow> run_lease \<Rightarrow> int \<Rightarrow> stream_state \<Rightarrow> stream_at \<Rightarrow> stream_state option" where
  "on_call ttl l now \<sigma> (RenewLease k) =
     (let (held, s') = renew now ttl l (ss_store \<sigma>)
      in Some (if held then have_chunk k (\<sigma>\<lparr>ss_store := s'\<rparr>) else goto (LeaseStopped k) (\<sigma>\<lparr>ss_store := s'\<rparr>)))"
| "on_call ttl l now \<sigma> (LeaseStopped k) =
     Some (goto (if cancel_requested now l (ss_store \<sigma>) then raise_at False CancelRequested else LeaseCompleted k) \<sigma>)"
| "on_call ttl l now \<sigma> (LeaseCompleted k) =
     Some (if run_completed l (ss_store \<sigma>) then have_chunk k \<sigma>
           else goto (raise_at False (LeaseLost ''chat_run_lease_lost'')) \<sigma>)"
| "on_call ttl l now \<sigma> (CheckStop c) =
     Some (goto (if cancel_requested now l (ss_store \<sigma>) then raise_at False CancelRequested else stop_checked l c) \<sigma>)"
| "on_call ttl l now \<sigma> (VerifyTurn c u a) =
     Some (if committed_turn l u a (ss_store \<sigma>) then emit c True \<sigma>
           else goto (Refused ''chat_run_atomic_commit_not_verified'') \<sigma>)"
| "on_call ttl l now \<sigma> (FailRun code c) =
     Some (finish_call now l ''failed'' code (emit c True) (goto (Refused ''chat_run_lease_lost''))
       (goto (raise_at False OtherFailure)) \<sigma>)"
| "on_call ttl l now \<sigma> (Refused why) =
     Some (goto (raise_at False (if cancel_requested now l (ss_store \<sigma>) then CancelRequested else LeaseLost why)) \<sigma>)"
| "on_call ttl l now \<sigma> MissingTerminal =
     Some (finish_call now l ''failed'' ''CHAT_SSE_MISSING_TERMINAL''
       (goto (raise_at True (LeaseLost ''chat_run_missing_terminal'')))
       (goto (Refused ''chat_run_missing_terminal'')) (goto (raise_at False OtherFailure)) \<sigma>)"
| "on_call ttl l now \<sigma> ConfirmStop =
     Some (finish_call now l ''cancelled'' ''CHAT_STREAM_CANCELLED'' (goto (Closing (Raised CancelRequested)))
       (goto (Closing (Raised (LeaseLost ''chat_run_lease_lost'')))) (goto (Closing (Raised OtherFailure))) \<sigma>)"
| "on_call ttl l now \<sigma> (CleanupFinish e) =
     Some (finish_call now l (if e = Interrupted then ''cancelled'' else ''failed'')
       (if e = Interrupted then ''CHAT_STREAM_CANCELLED'' else ''CHAT_RUN_LEASE_LOST'')
       (goto (Closing (Raised e))) (goto (Closing (Raised e))) (goto (Closing (Raised e))) \<sigma>)"
| "on_call ttl l now \<sigma> _ = None"

text \<open>
  Where an exception at an await point goes. The clean-up of a failed run swallows a failure of its
  own call, not an interruption.
\<close>

fun on_throw :: "bool \<Rightarrow> stream_at \<Rightarrow> stream_at option" where
  "on_throw b (Yielding final) = Some (raise_at final (thrown b))"
| "on_throw b Stopping = Some (Closing (Raised (thrown b)))"
| "on_throw b ConfirmStop = Some (Closing (Raised (thrown b)))"
| "on_throw b (Cleanup e) = Some (Closing (Raised (thrown b)))"
| "on_throw b (CleanupFinish e) = Some (Closing (Raised (if b then Interrupted else e)))"
| "on_throw b (Closing r) = Some (Ended (Raised (thrown b)))"
| "on_throw b (Ended r) = None"
| "on_throw b _ = Some (raise_at False (thrown b))"

fun on_closed :: "stream_at \<Rightarrow> stream_at option" where
  "on_closed Stopping = Some ConfirmStop"
| "on_closed (Cleanup e) = Some (CleanupFinish e)"
| "on_closed (Closing r) = Some (Ended r)"
| "on_closed _ = None"

text \<open>One step of the coordinator; \<open>None\<close> is a stimulus it does not wait for.\<close>

fun stream_next :: "int \<Rightarrow> run_lease \<Rightarrow> stimulus \<Rightarrow> stream_state \<Rightarrow> stream_state option" where
  "stream_next ttl l Tick \<sigma> = (if ss_at \<sigma> = WaitChunk then Some (goto (RenewLease None) \<sigma>) else None)"
| "stream_next ttl l (Got c due) \<sigma> =
     (if ss_at \<sigma> \<noteq> WaitChunk then None
      else Some (if due then goto (RenewLease (Some c)) \<sigma> else have_chunk (Some c) \<sigma>))"
| "stream_next ttl l Exhausted \<sigma> = (if ss_at \<sigma> = WaitChunk then Some (goto MissingTerminal \<sigma>) else None)"
| "stream_next ttl l Resume \<sigma> =
     (case ss_at \<sigma> of Yielding final \<Rightarrow> Some (goto (if final then Closing Returned else WaitChunk) \<sigma>) | _ \<Rightarrow> None)"
| "stream_next ttl l (Call now) \<sigma> = on_call ttl l now \<sigma> (ss_at \<sigma>)"
| "stream_next ttl l Closed \<sigma> = map_option (\<lambda>p. goto p \<sigma>) (on_closed (ss_at \<sigma>))"
| "stream_next ttl l (Throw b) \<sigma> = map_option (\<lambda>p. goto p \<sigma>) (on_throw b (ss_at \<sigma>))"

definition stream_start :: "chat_store \<Rightarrow> stream_state" where
  "stream_start s = \<lparr>ss_at = WaitChunk, ss_out = [], ss_store = s, ss_erased = False\<rparr>"

text \<open>The other sessions; \<open>ss_erased\<close> records that one deleted the conversation of the lease.\<close>

definition erases :: "chat_env \<Rightarrow> run_lease \<Rightarrow> chat_op \<Rightarrow> bool" where
  "erases env l op \<longleftrightarrow> (case op of
      DeleteConversation i t u \<Rightarrow> casts env [i, t, u] = Some [rl_conversation l, rl_tenant l, rl_user l]
    | _ \<Rightarrow> False)"

definition other_session :: "chat_env \<Rightarrow> run_lease \<Rightarrow> chat_op \<Rightarrow> stream_state \<Rightarrow> stream_state" where
  "other_session env l op \<sigma> = \<sigma>\<lparr>ss_store := chat_step env op (ss_store \<sigma>),
     ss_erased := (ss_erased \<sigma> \<or> erases env l op)\<rparr>"

inductive stream_reach :: "chat_env \<Rightarrow> int \<Rightarrow> run_lease \<Rightarrow> stream_state \<Rightarrow> stream_state \<Rightarrow> bool" for env ttl l \<sigma>0 where
  stream_begin: "stream_reach env ttl l \<sigma>0 \<sigma>0"
| stream_own: "stream_reach env ttl l \<sigma>0 \<sigma> \<Longrightarrow> stream_next ttl l x \<sigma> = Some \<sigma>' \<Longrightarrow> stream_reach env ttl l \<sigma>0 \<sigma>'"
| stream_other: "stream_reach env ttl l \<sigma>0 \<sigma> \<Longrightarrow> stream_reach env ttl l \<sigma>0 (other_session env l op \<sigma>)"

section \<open>The invariant\<close>

text \<open>The run of the lease has ended, as \<open>P\<close> says.\<close>

definition row_is :: "run_lease \<Rightarrow> (chat_run \<Rightarrow> bool) \<Rightarrow> chat_store \<Rightarrow> bool" where
  "row_is l P s \<longleftrightarrow> (\<exists>r. run_row (rl_execution l) s = Some r \<and> owned_run l r \<and> \<not> live_status (cr_status r) \<and> P r)"

text \<open>What a terminal chunk says of the row.\<close>

definition receipt :: "chunk \<Rightarrow> chat_run \<Rightarrow> bool" where
  "receipt c r \<longleftrightarrow>
     (if ck_type c = ChunkComplete then cr_status r = ''completed'' \<and>
        (\<exists>u a um am. vget (ck_metadata c) ''user_message_id'' PNone = PStr u
           \<and> vget (ck_metadata c) ''assistant_message_id'' PNone = PStr a
           \<and> py_uuid u = Some um \<and> py_uuid a = Some am
           \<and> cr_user_message r = Some um \<and> cr_assistant_message r = Some am)
      else cr_status r = ''failed'')"

fun pending_ok :: "stream_at \<Rightarrow> bool" where
  "pending_ok (CheckStop c) = terminal_chunk c"
| "pending_ok (VerifyTurn c u a) = (ck_type c = ChunkComplete \<and> vget (ck_metadata c) ''user_message_id'' PNone = PStr u
     \<and> vget (ck_metadata c) ''assistant_message_id'' PNone = PStr a)"
| "pending_ok (FailRun code c) = (ck_type c = ChunkError)"
| "pending_ok (Cleanup e) = (e \<noteq> CancelRequested)"
| "pending_ok (CleanupFinish e) = (e \<noteq> CancelRequested)"
| "pending_ok _ = True"

fun finished_at :: "stream_at \<Rightarrow> bool" where
  "finished_at (Yielding final) = final"
| "finished_at (Closing r) = True"
| "finished_at (Ended r) = True"
| "finished_at _ = False"

fun stop_confirmed :: "stream_at \<Rightarrow> bool" where
  "stop_confirmed (Closing r) = (r = Raised CancelRequested)"
| "stop_confirmed (Ended r) = (r = Raised CancelRequested)"
| "stop_confirmed _ = False"

definition plain :: "chunk list \<Rightarrow> bool" where
  "plain cs \<longleftrightarrow> (\<forall>c \<in> set cs. \<not> terminal_chunk c)"

definition stream_ok :: "run_lease \<Rightarrow> stream_state \<Rightarrow> bool" where
  "stream_ok l \<sigma> \<longleftrightarrow> store_ok (ss_store \<sigma>) \<and> pending_ok (ss_at \<sigma>) \<and> plain (butlast (ss_out \<sigma>))
     \<and> (finished_at (ss_at \<sigma>) \<or> plain (ss_out \<sigma>))
     \<and> (ss_erased \<sigma> \<or> (\<forall>c \<in> set (ss_out \<sigma>). terminal_chunk c \<longrightarrow> row_is l (receipt c) (ss_store \<sigma>)))
     \<and> (ss_erased \<sigma> \<or> (stop_confirmed (ss_at \<sigma>) \<longrightarrow> row_is l (\<lambda>r. cr_status r = ''cancelled'') (ss_store \<sigma>)))"

lemma row_is_op:
  assumes "row_is l P s" "\<not> erases env l op"
  shows "row_is l P (chat_step env op s)"
proof -
  obtain r where r: "run_row (rl_execution l) s = Some r" "owned_run l r" "\<not> live_status (cr_status r)" "P r"
    using assms(1) unfolding row_is_def by blast
  have "\<not> run_entitled env r op"
  proof
    assume e: "run_entitled env r op"
    then obtain i t u where "op = DeleteConversation i t u" using ended_entitled [OF r(3)] by blast
    then show False using e assms(2) r(2) by (simp add: owned_run_def erases_def)
  qed
  then show ?thesis using chat_fence [OF r(1)] r unfolding row_is_def by blast
qed

lemma finish_row:
  assumes ok: "store_ok s" and st: "st \<noteq> ''completed''" and f: "finish now l st code s = Inr (True, s')"
  shows "row_is l (\<lambda>r. cr_status r = st) s'"
proof -
  let ?P = "\<lambda>r. leased now l r \<and> (if st = ''cancelled'' then live_status (cr_status r)
                 else cr_status r = ''running'' \<and> cr_cancel_at r = None)"
  let ?f = "\<lambda>r. (end_run now st r)\<lparr>cr_error_code := code\<rparr>"
  have st': "st \<in> {''failed'', ''cancelled''}" using f by (auto simp: finish_def split: if_splits)
  then have tests: "(st = ''completed'') = False" "(st \<notin> {''failed'', ''cancelled''}) = False" using st by simp_all
  have "(case code of None \<Rightarrow> False | Some e \<Rightarrow> \<not> error_code_ok e) = False"
    using f by (auto simp: finish_def split: if_splits)
  then have u: "update_runs ?P ?f s = (True, s')" using f unfolding finish_def tests by (simp only: if_False sum.inject)
  from u obtain r where r: "r \<in> set (cs_runs s)" "?P r" by (auto simp: update_runs_def)
  then have x: "owned_run l r" "run_row (rl_execution l) s = Some r"
    using run_row_iff [OF ok] by (auto simp: leased_def owned_run_def)
  have "run_row (rl_execution l) s' = Some (?f r)"
    using run_row_update [of s ?P ?f "rl_execution l"] u x r by simp
  moreover have "owned_run l (?f r)" "\<not> live_status (cr_status (?f r))" "cr_status (?f r) = st"
    using x(1) st' by (auto simp: owned_run_def end_run_def live_status_def)
  ultimately show ?thesis unfolding row_is_def by blast
qed

lemma committed_row:
  assumes ok: "store_ok s" and c: "committed_turn l u a s"
  shows "row_is l (\<lambda>r. cr_status r = ''completed'' \<and> (\<exists>um am. py_uuid u = Some um \<and> py_uuid a = Some am
    \<and> cr_user_message r = Some um \<and> cr_assistant_message r = Some am)) s"
proof -
  obtain um am r where r: "py_uuid u = Some um" "py_uuid a = Some am" "r \<in> set (cs_runs s)" "run_of_lease l r"
    "cr_status r = ''completed''" "cr_user_message r = Some um" "cr_assistant_message r = Some am"
    using c by (auto simp: committed_turn_def split: option.splits)
  then have "run_row (rl_execution l) s = Some r" "owned_run l r"
    using run_row_iff [OF ok] by (auto simp: run_of_lease_def owned_run_def)
  then show ?thesis using r unfolding row_is_def by (auto simp: live_status_def)
qed

lemma other_ok: "stream_ok l \<sigma> \<Longrightarrow> stream_ok l (other_session env l op \<sigma>)"
proof -
  assume ok: "stream_ok l \<sigma>"
  have keep: "row_is l P (ss_store \<sigma>) \<Longrightarrow> ss_erased (other_session env l op \<sigma>) \<or> row_is l P (chat_step env op (ss_store \<sigma>))" for P
    using row_is_op [of l P "ss_store \<sigma>" env op] by (auto simp: other_session_def)
  have "ss_erased \<sigma> \<Longrightarrow> ss_erased (other_session env l op \<sigma>)" by (simp add: other_session_def)
  then show ?thesis using ok keep chat_step_ok
    unfolding stream_ok_def by (simp add: other_session_def) blast
qed

text \<open>The calls of the coordinator are operations of the store.\<close>

lemma own_op_ok:
  assumes "stream_ok l \<sigma>" "s' = chat_step env op (ss_store \<sigma>)" "\<not> erases env l op"
  shows "stream_ok l (\<sigma>\<lparr>ss_store := s'\<rparr>)"
proof -
  have "other_session env l op \<sigma> = \<sigma>\<lparr>ss_store := s'\<rparr>"
    using assms(2,3) by (simp add: other_session_def)
  then show ?thesis using other_ok [OF assms(1), of env op] by simp
qed

lemma goto_ok:
  assumes "stream_ok l \<sigma>" "pending_ok p" "finished_at (ss_at \<sigma>) \<Longrightarrow> finished_at p"
    and "stop_confirmed p \<Longrightarrow> stop_confirmed (ss_at \<sigma>) \<or> row_is l (\<lambda>r. cr_status r = ''cancelled'') (ss_store \<sigma>)"
  shows "stream_ok l (goto p \<sigma>)"
  using assms unfolding stream_ok_def goto_def by simp blast

lemma emit_ok:
  assumes "stream_ok l \<sigma>" "\<not> finished_at (ss_at \<sigma>)"
    and "terminal_chunk c \<Longrightarrow> final \<and> row_is l (receipt c) (ss_store \<sigma>)"
  shows "stream_ok l (emit c final \<sigma>)"
  using assms unfolding stream_ok_def emit_def by (auto simp: plain_def)

lemma have_chunk_ok: "stream_ok l \<sigma> \<Longrightarrow> \<not> finished_at (ss_at \<sigma>) \<Longrightarrow> stream_ok l (have_chunk k \<sigma>)"
  by (cases k) (auto simp: have_chunk_def goto_def [symmetric] intro!: goto_ok emit_ok)

lemma finish_call_ok:
  assumes ok: "stream_ok l \<sigma>" and st: "st \<noteq> ''completed''"
    and hits: "\<And>\<sigma>'. stream_ok l \<sigma>' \<Longrightarrow> ss_at \<sigma>' = ss_at \<sigma> \<Longrightarrow> row_is l (\<lambda>r. cr_status r = st) (ss_store \<sigma>') \<Longrightarrow>
      stream_ok l (done_k \<sigma>')"
    and lost: "\<And>\<sigma>'. stream_ok l \<sigma>' \<Longrightarrow> ss_at \<sigma>' = ss_at \<sigma> \<Longrightarrow> stream_ok l (lost_k \<sigma>')"
    and bad: "stream_ok l (bad_k \<sigma>)"
  shows "stream_ok l (finish_call now l st code done_k lost_k bad_k \<sigma>)"
proof (cases "finish now l st (Some code) (ss_store \<sigma>)")
  case (Inr p)
  obtain hit s' where p: "p = (hit, s')" by (cases p)
  have ok': "stream_ok l (\<sigma>\<lparr>ss_store := s'\<rparr>)"
    by (rule own_op_ok [OF ok, of _ undefined "Finish now l st (Some code)"]) (simp_all add: Inr p erases_def)
  have s: "store_ok (ss_store \<sigma>)" using ok by (simp add: stream_ok_def)
  have "row_is l (\<lambda>r. cr_status r = st) s'" if hit
    by (rule finish_row [OF s st, of now l "Some code"]) (use Inr that in \<open>simp add: p\<close>)
  then show ?thesis using ok' hits [OF ok'] lost [OF ok'] by (simp add: finish_call_def Inr p)
qed (simp add: finish_call_def bad)

lemma receipt_error: "ck_type c = ChunkError \<Longrightarrow> row_is l (\<lambda>r. cr_status r = ''failed'') s \<Longrightarrow> row_is l (receipt c) s"
  by (simp add: receipt_def [abs_def])

lemma raise_at_simps [simp]: "pending_ok (raise_at b e)" "\<not> finished_at (raise_at False e)"
    "stop_confirmed (raise_at b e) = False"
  by (auto simp: raise_at_def)

lemma complete_pending: "ck_type c = ChunkComplete \<Longrightarrow> pending_ok (stop_checked l c)"
    and complete_open: "\<not> finished_at (complete_at l c)" "\<not> stop_confirmed (complete_at l c)"
  by (auto simp: stop_checked_def complete_at_def Let_def refusal_chunk_def split: pyval.split)

lemma checked_ok: "terminal_chunk c \<Longrightarrow> pending_ok (stop_checked l c)" "\<not> finished_at (stop_checked l c)"
    "\<not> stop_confirmed (stop_checked l c)"
  using complete_pending [of c l] by (auto simp: terminal_chunk_def stop_checked_def complete_open)

lemma call_ok:
  assumes ok: "stream_ok l \<sigma>" and call: "on_call ttl l now \<sigma> (ss_at \<sigma>) = Some \<sigma>'"
  shows "stream_ok l \<sigma>'"
proof -
  have pend: "pending_ok (ss_at \<sigma>)" and st: "store_ok (ss_store \<sigma>)" using ok by (simp_all add: stream_ok_def)
  show ?thesis
  proof (cases "ss_at \<sigma>")
    case (RenewLease k)
    obtain held s' where r: "renew now ttl l (ss_store \<sigma>) = (held, s')" by fastforce
    have "stream_ok l (\<sigma>\<lparr>ss_store := s'\<rparr>)"
      by (rule own_op_ok [OF ok, of _ undefined "Renew now ttl l"]) (simp_all add: r erases_def)
    then have "stream_ok l (have_chunk k (\<sigma>\<lparr>ss_store := s'\<rparr>))" "stream_ok l (goto (LeaseStopped k) (\<sigma>\<lparr>ss_store := s'\<rparr>))"
      by (auto intro!: have_chunk_ok goto_ok simp: RenewLease)
    then show ?thesis using call by (auto simp: RenewLease r)
  next
    case (LeaseStopped k)
    then show ?thesis using call ok by (auto intro!: goto_ok split: if_splits)
  next
    case (LeaseCompleted k)
    then show ?thesis using call ok by (auto intro!: goto_ok have_chunk_ok)
  next
    case (CheckStop c)
    then show ?thesis using call ok pend by (auto intro!: goto_ok simp: checked_ok split: if_splits)
  next
    case (VerifyTurn c u a)
    have "committed_turn l u a (ss_store \<sigma>) \<Longrightarrow> row_is l (receipt c) (ss_store \<sigma>)"
      using committed_row [OF st, of l u a] pend unfolding row_is_def by (auto simp: VerifyTurn receipt_def)
    then show ?thesis using VerifyTurn call ok by (auto intro!: goto_ok emit_ok)
  next
    case (FailRun code c)
    then have "stream_ok l (finish_call now l ''failed'' code (emit c True) (goto (Refused ''chat_run_lease_lost''))
       (goto (raise_at False OtherFailure)) \<sigma>)"
      by (intro finish_call_ok ok) (use ok pend in \<open>auto intro!: goto_ok emit_ok receipt_error\<close>)
    then show ?thesis using FailRun call by simp
  next
    case (Refused why)
    then show ?thesis using call ok by (auto intro!: goto_ok)
  next
    case MissingTerminal
    then have "stream_ok l (finish_call now l ''failed'' ''CHAT_SSE_MISSING_TERMINAL''
       (goto (raise_at True (LeaseLost ''chat_run_missing_terminal'')))
       (goto (Refused ''chat_run_missing_terminal'')) (goto (raise_at False OtherFailure)) \<sigma>)"
      by (intro finish_call_ok ok) (use ok in \<open>auto intro!: goto_ok\<close>)
    then show ?thesis using MissingTerminal call by simp
  next
    case ConfirmStop
    then have "stream_ok l (finish_call now l ''cancelled'' ''CHAT_STREAM_CANCELLED'' (goto (Closing (Raised CancelRequested)))
       (goto (Closing (Raised (LeaseLost ''chat_run_lease_lost'')))) (goto (Closing (Raised OtherFailure))) \<sigma>)"
      by (intro finish_call_ok ok) (use ok in \<open>auto intro!: goto_ok\<close>)
    then show ?thesis using ConfirmStop call by simp
  next
    case (CleanupFinish e)
    then have "stream_ok l (finish_call now l (if e = Interrupted then ''cancelled'' else ''failed'')
       (if e = Interrupted then ''CHAT_STREAM_CANCELLED'' else ''CHAT_RUN_LEASE_LOST'')
       (goto (Closing (Raised e))) (goto (Closing (Raised e))) (goto (Closing (Raised e))) \<sigma>)"
      by (intro finish_call_ok ok) (use ok pend in \<open>auto intro!: goto_ok split: if_splits\<close>)
    then show ?thesis using CleanupFinish call by simp
  qed (use call in simp_all)
qed

lemma throw_ok: "stream_ok l \<sigma> \<Longrightarrow> on_throw b (ss_at \<sigma>) = Some p \<Longrightarrow> stream_ok l (goto p \<sigma>)"
  by (rule goto_ok) (cases "ss_at \<sigma>"; auto simp: raise_at_def thrown_def stream_ok_def split: if_splits)+

lemma closed_ok: "stream_ok l \<sigma> \<Longrightarrow> on_closed (ss_at \<sigma>) = Some p \<Longrightarrow> stream_ok l (goto p \<sigma>)"
  by (rule goto_ok) (cases "ss_at \<sigma>"; auto simp: stream_ok_def)+

lemma next_ok: "stream_ok l \<sigma> \<Longrightarrow> stream_next ttl l x \<sigma> = Some \<sigma>' \<Longrightarrow> stream_ok l \<sigma>'"
proof (cases x)
  case (Got c due)
  assume "stream_ok l \<sigma>" "stream_next ttl l x \<sigma> = Some \<sigma>'"
  then show ?thesis by (auto simp: Got intro!: goto_ok have_chunk_ok split: if_splits)
next
  case (Call now)
  assume "stream_ok l \<sigma>" "stream_next ttl l x \<sigma> = Some \<sigma>'"
  then show ?thesis using call_ok by (simp add: Call)
next
  case (Throw b)
  assume "stream_ok l \<sigma>" "stream_next ttl l x \<sigma> = Some \<sigma>'"
  then show ?thesis using throw_ok by (auto simp: Throw)
next
  case Closed
  assume "stream_ok l \<sigma>" "stream_next ttl l x \<sigma> = Some \<sigma>'"
  then show ?thesis using closed_ok by (auto simp: Closed)
qed (auto intro!: goto_ok split: if_splits stream_at.splits)

lemma start_ok: "store_ok s \<Longrightarrow> stream_ok l (stream_start s)"
  by (simp add: stream_ok_def stream_start_def plain_def)

lemma reach_ok: "stream_reach env ttl l \<sigma>0 \<sigma> \<Longrightarrow> stream_ok l \<sigma>0 \<Longrightarrow> stream_ok l \<sigma>"
  by (induction rule: stream_reach.induct) (auto intro: next_ok other_ok)

section \<open>Shutdown\<close>

text \<open>How many more stimuli an await point of the clean-up accepts.\<close>

fun to_end :: "stream_at \<Rightarrow> nat" where
  "to_end (Ended r) = 0"
| "to_end (Closing r) = 1"
| "to_end ConfirmStop = 2"
| "to_end (CleanupFinish e) = 2"
| "to_end Stopping = 3"
| "to_end (Cleanup e) = 3"
| "to_end _ = 4"

fun drive :: "int \<Rightarrow> run_lease \<Rightarrow> stimulus list \<Rightarrow> stream_state \<Rightarrow> stream_state option" where
  "drive ttl l [] \<sigma> = Some \<sigma>"
| "drive ttl l (x # xs) \<sigma> = (case stream_next ttl l x \<sigma> of None \<Rightarrow> None | Some \<sigma>' \<Rightarrow> drive ttl l xs \<sigma>')"

lemma finish_call_at:
  "(\<And>s. ss_at (f s) = p) \<Longrightarrow> (\<And>s. ss_at (g s) = p') \<Longrightarrow> (\<And>s. ss_at (h s) = p'') \<Longrightarrow>
   ss_at (finish_call now l st code f g h \<sigma>) \<in> {p, p', p''}"
  by (auto simp: finish_call_def split: sum.split)

lemma finish_call_out:
  "(\<And>s. ss_out (f s) = ss_out s) \<Longrightarrow> (\<And>s. ss_out (g s) = ss_out s) \<Longrightarrow> (\<And>s. ss_out (h s) = ss_out s) \<Longrightarrow>
   ss_out (finish_call now l st code f g h \<sigma>) = ss_out \<sigma>"
  by (auto simp: finish_call_def split: sum.split)

lemma goto_simps [simp]: "ss_at (goto p \<sigma>) = p" "ss_out (goto p \<sigma>) = ss_out \<sigma>" "ss_store (goto p \<sigma>) = ss_store \<sigma>"
  by (simp_all add: goto_def)

lemma throw_close: "on_throw b p = Some q \<Longrightarrow> to_end q \<le> 3 \<and> (to_end p < 4 \<longrightarrow> to_end q < to_end p)"
  by (cases p) (auto simp: raise_at_def thrown_def split: if_splits)

lemma closed_close: "on_closed p = Some q \<Longrightarrow> to_end q < to_end p"
  by (cases p) auto

lemma call_closes:
  assumes "on_call ttl l now \<sigma> p = Some \<sigma>'" "to_end p < 4"
  shows "to_end (ss_at \<sigma>') < to_end p \<and> ss_out \<sigma>' = ss_out \<sigma>"
proof -
  have out: "ss_out (finish_call now l st code (goto a) (goto b) (goto c) \<sigma>) = ss_out \<sigma>"
    and at: "ss_at (finish_call now l st code (goto a) (goto b) (goto c) \<sigma>) \<in> {a, b, c}" for st code a b c
    by (rule finish_call_out; simp) (rule finish_call_at; simp)
  have "to_end (ss_at (finish_call now l st code (goto (Closing a)) (goto (Closing b)) (goto (Closing c)) \<sigma>)) = 1"
    for st code a b c using at [of st code "Closing a" "Closing b" "Closing c"] by auto
  with out assms show ?thesis by (cases p) auto
qed

lemma next_closes:
  assumes "stream_next ttl l x \<sigma> = Some \<sigma>'" "to_end (ss_at \<sigma>) < 4"
  shows "to_end (ss_at \<sigma>') < to_end (ss_at \<sigma>) \<and> ss_out \<sigma>' = ss_out \<sigma>"
  using assms throw_close closed_close call_closes
  by (cases x) (auto split: if_splits stream_at.splits)

lemma drive_closes:
  "drive ttl l xs \<sigma> = Some \<sigma>' \<Longrightarrow> to_end (ss_at \<sigma>) < 4 \<Longrightarrow>
     length xs + to_end (ss_at \<sigma>') \<le> to_end (ss_at \<sigma>) \<and> ss_out \<sigma>' = ss_out \<sigma>"
proof (induction xs arbitrary: \<sigma>)
  case (Cons x xs)
  then obtain \<sigma>1 where n: "stream_next ttl l x \<sigma> = Some \<sigma>1" "drive ttl l xs \<sigma>1 = Some \<sigma>'"
    by (auto split: option.splits)
  have c: "to_end (ss_at \<sigma>1) < to_end (ss_at \<sigma>)" "ss_out \<sigma>1 = ss_out \<sigma>" using next_closes [OF n(1) Cons.prems(2)] by auto
  with Cons.IH [OF n(2)] Cons.prems(2) show ?case by simp
qed simp

text \<open>No await point waits for nothing.\<close>

lemma not_stuck: "(\<forall>r. ss_at \<sigma> \<noteq> Ended r) \<Longrightarrow> \<exists>x \<sigma>'. x \<notin> {Throw True, Throw False} \<and> stream_next ttl l x \<sigma> = Some \<sigma>'"
proof (cases "ss_at \<sigma>")
  case WaitChunk
  then show ?thesis by (intro exI [of _ Tick]) simp
next
  case (Yielding b)
  then show ?thesis by (intro exI [of _ Resume]) simp
next
  case Stopping
  then show ?thesis by (intro exI [of _ Closed]) simp
next
  case (Cleanup e)
  then show ?thesis by (intro exI [of _ Closed]) simp
next
  case (Closing r)
  then show ?thesis by (intro exI [of _ Closed]) simp
next
  case (RenewLease k)
  then show ?thesis by (intro exI [of _ "Call 0"]) (simp split: prod.split)
qed (intro exI [of _ "Call 0"]; simp)+

lemma drive_reach: "drive ttl l xs \<sigma> = Some \<sigma>' \<Longrightarrow> stream_reach env ttl l \<sigma>0 \<sigma> \<Longrightarrow> stream_reach env ttl l \<sigma>0 \<sigma>'"
  by (induction xs arbitrary: \<sigma>) (auto split: option.splits intro: stream_own)

section \<open>Properties\<close>

text \<open>
  C1: Whatever the other sessions do to the store between the steps of the coordinator, a terminal
  chunk is the last one it hands out, and unless the conversation is deleted meanwhile the run then
  has ended as the chunk says: after COMPLETE it is completed with exactly the two messages the chunk
  names, after ERROR it is failed; and a stream that ends with the cancellation has its run
  cancelled.
\<close>

theorem stream_finality:
  assumes "stream_reach env ttl l (stream_start (chat_run_ops env ops empty_store)) \<sigma>"
  shows "plain (butlast (ss_out \<sigma>))
    \<and> (ss_erased \<sigma> \<or> (\<forall>c \<in> set (ss_out \<sigma>). terminal_chunk c \<longrightarrow> row_is l (receipt c) (ss_store \<sigma>)))
    \<and> (ss_erased \<sigma> \<or> (ss_at \<sigma> = Ended (Raised CancelRequested) \<longrightarrow>
         row_is l (\<lambda>r. cr_status r = ''cancelled'') (ss_store \<sigma>)))"
proof -
  have "stream_ok l \<sigma>" by (rule reach_ok [OF assms]) (rule start_ok [OF reachable_ok])
  then show ?thesis unfolding stream_ok_def by (metis stop_confirmed.simps(2))
qed

text \<open>
  C17: An exception at any point of the stream, be it an interruption of the request or a failure of
  a call, leads to the end within at most three further steps of the coordinator, none of which hands
  out another chunk; and until the end there is always a step it waits for.
\<close>

theorem stream_shutdown:
  assumes "stream_next ttl l (Throw b) \<sigma> = Some \<sigma>1" "drive ttl l xs \<sigma>1 = Some \<sigma>2"
  shows "length xs \<le> 3 \<and> ss_out \<sigma>2 = ss_out \<sigma>
    \<and> ((\<exists>r. ss_at \<sigma>2 = Ended r) \<or> (\<exists>x \<sigma>3. x \<notin> {Throw True, Throw False} \<and> stream_next ttl l x \<sigma>2 = Some \<sigma>3))"
proof -
  have "to_end (ss_at \<sigma>1) \<le> 3" "ss_out \<sigma>1 = ss_out \<sigma>" using assms(1) throw_close by auto
  with drive_closes [OF assms(2)] have "length xs \<le> 3" "ss_out \<sigma>2 = ss_out \<sigma>" by auto
  then show ?thesis using not_stuck [of \<sigma>2 ttl l] by blast
qed

section \<open>Samples\<close>

definition sample_complete_chunk :: chunk where
  "sample_complete_chunk = \<lparr>ck_type = ChunkComplete, ck_content = ''hello'', ck_correlation = ''c1'',
     ck_metadata = [(''transcript_persistence_status'', PStr ''persisted''),
       (''user_message_id'', PStr sample_ask_id), (''assistant_message_id'', PStr sample_answer_id)]\<rparr>"

lemma sample_committed: "committed_turn sample_lease sample_ask_id sample_answer_id
    (stays s (add_completed_turn sample_env 2 3 sample_ask sample_answer (Some sample_lease)
      (chat_run_ops sample_env sample_admission empty_store)))"
proof -
  have "sample_message i ro ct = \<lparr>ms_id = i, ms_conversation = sample_chat, ms_tenant = sample_tenant, ms_role = ro,
     ms_content = ct, ms_created = 1,
     ms_metadata = [(''authorized_user_id'', PStr sample_user), (''request_id'', PStr ''q1'')]\<rparr>" for i ro ct
    by (simp add: sample_message_def)
  then show ?thesis unfolding sample_turn
    by (simp add: committed_turn_def run_of_lease_def owned_run_def same_request_def owns_def saved_for_def
        sample_lease_def sample_running_def end_run_def sample_conversation_def new_row_def dget_def)
qed

lemma stream_finality_witness:
  "row_is sample_lease (receipt sample_complete_chunk)
     (chat_run_ops sample_env (sample_admission @ [CompleteTurn 2 3 sample_ask sample_answer (Some sample_lease)]) empty_store)"
proof -
  let ?s = "chat_run_ops sample_env (sample_admission @ [CompleteTurn 2 3 sample_ask sample_answer (Some sample_lease)]) empty_store"
  have s: "?s = stays (chat_run_ops sample_env sample_admission empty_store) (add_completed_turn sample_env 2 3 sample_ask
      sample_answer (Some sample_lease) (chat_run_ops sample_env sample_admission empty_store))"
    by (simp add: chat_run_eq chat_runs.run_append del: stays_simps)
  have no_stop: "\<not> cancel_requested 4 sample_lease ?s"
    unfolding s sample_turn by (simp add: cancel_requested_def end_run_def)
  have done_turn: "committed_turn sample_lease sample_ask_id sample_answer_id ?s" unfolding s by (rule sample_committed)
  have "drive 60 sample_lease [Got sample_complete_chunk False, Call 4, Call 5] (stream_start ?s)
    = Some (emit sample_complete_chunk True (goto (VerifyTurn sample_complete_chunk sample_ask_id sample_answer_id) (stream_start ?s)))"
    using no_stop done_turn
    by (simp add: stream_start_def have_chunk_def terminal_chunk_def goto_def emit_def stop_checked_def complete_at_def
        gated_def vget_def dget_def sample_complete_chunk_def Let_def)
  from stream_finality [OF drive_reach [OF this stream_begin]] show ?thesis
    by (simp add: emit_def goto_def stream_start_def terminal_chunk_def sample_complete_chunk_def)
qed

lemma stream_shutdown_witness:
  "\<exists>\<sigma>2. drive 60 sample_lease [Throw True, Closed, Call 4, Closed] (stream_start empty_store) = Some \<sigma>2
     \<and> length [Closed, Call 4, Closed] \<le> 3 \<and> ss_out \<sigma>2 = ss_out (stream_start empty_store)"
proof -
  have at: "stream_next 60 sample_lease (Throw True) (stream_start empty_store) = Some (goto (Cleanup Interrupted) (stream_start empty_store))"
    by (simp add: stream_start_def raise_at_def thrown_def)
  have run: "drive 60 sample_lease [Closed, Call 4, Closed] (goto (Cleanup Interrupted) (stream_start empty_store))
      = Some (goto (Ended (Raised Interrupted)) (stream_start empty_store))"
    by (simp add: stream_start_def goto_def finish_call_def finish_def error_code_ok_def update_runs_def empty_store_def)
  have "drive 60 sample_lease [Throw True, Closed, Call 4, Closed] (stream_start empty_store)
      = Some (goto (Ended (Raised Interrupted)) (stream_start empty_store))"
    unfolding drive.simps(2) [of _ _ "Throw True"] at option.case run ..
  with stream_shutdown [OF at run] show ?thesis by blast
qed

end
