(* ===== verification/RunStore.thy ===== *)
theory RunStore
  imports StateMachines "HOL-Library.Option_ord"
begin

text \<open>
  The shared coordination of agent runs, \<^verbatim>\<open>agent_medusa/execution/distributed_run_store.py\<close>, and the
  settings of \<^verbatim>\<open>config/agent_medusa.py\<close>. Redis is modelled by what the code uses of it: keys with an
  expiry, \<^verbatim>\<open>SET NX\<close>, hashes, a set per tenant, pipelines and scripts. Each of these runs atomically,
  but an operation of the store awaits several of them, and other workers act in between: every
  operation takes the \<open>moments\<close> of its calls, the time of the n-th one and what the others did to
  Redis before it. The lemmas on calls show that every operation is its calls in their order with the
  others' between them, and the fence is proved for the machine of the calls. An instant is an integer
  of microseconds, the same clock for the process and for Redis; a field that holds the ISO text of
  an instant holds the instant, the empty text is \<open>None\<close>. The order in which a set of run ids is
  enumerated is the parameter \<open>so\<close>. A pipeline or command whose answer is lost after it ran is not a
  case of the operations; in the machine it is a call like any other.
\<close>

section \<open>Settings\<close>

record run_settings =
  se_research :: bool
  se_checkpoint :: bool
  se_distributed :: bool
  se_ledger :: bool
  se_required :: bool
  se_lease_ttl :: int
  se_heartbeat :: int
  se_retention :: int
  se_grace :: int
  se_batch :: int
  se_prefix :: string
  se_worker :: string

definition default_settings :: "string \<Rightarrow> run_settings" where
  "default_settings worker = \<lparr>se_research = False, se_checkpoint = False, se_distributed = True, se_ledger = True,
     se_required = True, se_lease_ttl = 30, se_heartbeat = 10, se_retention = 3600, se_grace = 60, se_batch = 100,
     se_prefix = ''kari:medusa:runs'', se_worker = worker\<rparr>"

text \<open>\<^verbatim>\<open>__post_init__\<close>: the first complaint, if any.\<close>

definition settings_error :: "run_settings \<Rightarrow> string option" where
  "settings_error st =
     (if se_lease_ttl st < 3 then Some ''run_lease_ttl_seconds must be at least 3''
      else if se_heartbeat st < 1 then Some ''run_heartbeat_interval_seconds must be at least 1''
      else if se_heartbeat st \<ge> se_lease_ttl st
      then Some ''run_heartbeat_interval_seconds must be less than run_lease_ttl_seconds''
      else if se_retention st < se_lease_ttl st
      then Some ''run_terminal_retention_seconds must be at least run_lease_ttl_seconds''
      else if se_grace st < se_lease_ttl st
      then Some ''run_orphan_grace_seconds must be at least run_lease_ttl_seconds''
      else if \<not> (1 \<le> se_batch st \<and> se_batch st \<le> 1000)
      then Some ''run_reconciliation_batch_size must be between 1 and 1000''
      else if se_checkpoint st \<and> \<not> (se_research st \<and> se_ledger st \<and> se_required st)
      then Some ''Deep Agents checkpoints require enabled research and a required durable run ledger''
      else if se_ledger st \<noteq> se_required st
      then Some ''durable run ledger must be either disabled or enabled in fail-closed mode''
      else if strip (se_prefix st) = [] then Some ''run_key_prefix must not be empty''
      else if strip (se_worker st) = [] then Some ''worker_id must not be empty'' else None)"

lemma default_settings_ok: "settings_error (default_settings ''w'') = None"
  by code_simp

lemma settings_simps:
  assumes "settings_error st = None"
  shows "0 < se_lease_ttl st" "se_lease_ttl st \<le> se_retention st" "se_ledger st = se_required st"
    "1 \<le> se_batch st" "se_batch st \<le> 1000"
  using assms by (auto simp: settings_error_def split: if_splits)

section \<open>Redis\<close>

text \<open>
  The hash of a run. A field that the hash lacks is \<open>None\<close>, or the empty text where the code reads both
  alike.
\<close>

record shared_run =
  sr_run :: string
  sr_correlation :: string
  sr_tenant :: "string option"
  sr_user :: string
  sr_owner :: "string option"
  sr_status :: "string option"
  sr_started :: "int option"
  sr_updated :: "int option"
  sr_heartbeat :: "int option"
  sr_lease_expires :: "int option"
  sr_cancel_at :: "int option"
  sr_completed :: "int option"
  sr_error :: string
  sr_outcome :: string

definition blank_run :: shared_run where
  "blank_run = \<lparr>sr_run = [], sr_correlation = [], sr_tenant = None, sr_user = [], sr_owner = None, sr_status = None,
     sr_started = None, sr_updated = None, sr_heartbeat = None, sr_lease_expires = None, sr_cancel_at = None,
     sr_completed = None, sr_error = [], sr_outcome = []\<rparr>"

text \<open>A key lives until an instant, or for good when it was written without an expiry.\<close>

record redis =
  rd_claims :: "string \<Rightarrow> (string \<times> int) option"
  rd_runs :: "string \<Rightarrow> (shared_run \<times> int option) option"
  rd_index :: "string \<Rightarrow> (string set \<times> int) option"

definition empty_redis :: redis where
  "empty_redis = \<lparr>rd_claims = Map.empty, rd_runs = Map.empty, rd_index = Map.empty\<rparr>"

definition alive :: "int \<Rightarrow> ('a \<times> int) option \<Rightarrow> 'a option" where
  "alive now e = (case e of None \<Rightarrow> None | Some (v, until) \<Rightarrow> if now < until then Some v else None)"

definition lives :: "int \<Rightarrow> int option \<Rightarrow> bool" where
  "lives now u \<longleftrightarrow> (case u of None \<Rightarrow> True | Some t \<Rightarrow> now < t)"

abbreviation claim_of :: "int \<Rightarrow> string \<Rightarrow> redis \<Rightarrow> string option" where
  "claim_of now x s \<equiv> alive now (rd_claims s x)"

definition run_of :: "int \<Rightarrow> string \<Rightarrow> redis \<Rightarrow> shared_run option" where
  "run_of now x s = (case rd_runs s x of None \<Rightarrow> None | Some (r, u) \<Rightarrow> if lives now u then Some r else None)"

definition ids_of :: "int \<Rightarrow> string \<Rightarrow> redis \<Rightarrow> string set" where
  "ids_of now t s = (case alive now (rd_index s t) of None \<Rightarrow> {} | Some ids \<Rightarrow> ids)"

definition micros :: "int \<Rightarrow> int" where
  "micros n = n * 1000000"

text \<open>\<^verbatim>\<open>EXPIRE\<close> of an index that may be gone.\<close>

definition touch :: "int \<Rightarrow> int \<Rightarrow> ('a \<times> int) option \<Rightarrow> ('a \<times> int) option" where
  "touch now until e = map_option (\<lambda>v. (v, until)) (alive now e)"

definition touch_index :: "run_settings \<Rightarrow> int \<Rightarrow> string option \<Rightarrow> redis \<Rightarrow> redis" where
  "touch_index st now tenant s = (case tenant of None \<Rightarrow> s
     | Some t \<Rightarrow> if t = [] then s
         else s\<lparr>rd_index := (rd_index s)(t := touch now (now + micros (se_retention st)) (rd_index s t))\<rparr>)"

text \<open>\<^verbatim>\<open>SET NX EX\<close> of the claim, and the scripts that renew and release it.\<close>

definition win_claim :: "run_settings \<Rightarrow> int \<Rightarrow> string \<Rightarrow> string \<Rightarrow> redis \<Rightarrow> bool \<times> redis" where
  "win_claim st now x w s =
     (if claim_of now x s = None
      then (True, s\<lparr>rd_claims := (rd_claims s)(x \<mapsto> (w, now + micros (se_lease_ttl st)))\<rparr>) else (False, s))"

definition renew_claim :: "run_settings \<Rightarrow> int \<Rightarrow> string \<Rightarrow> string \<Rightarrow> redis \<Rightarrow> bool \<times> redis" where
  "renew_claim st now x w s =
     (if claim_of now x s = Some w
      then (True, s\<lparr>rd_claims := (rd_claims s)(x \<mapsto> (w, now + micros (se_lease_ttl st)))\<rparr>) else (False, s))"

definition release_claim :: "int \<Rightarrow> string \<Rightarrow> string \<Rightarrow> redis \<Rightarrow> redis" where
  "release_claim now x w s =
     (if claim_of now x s = Some w then s\<lparr>rd_claims := (rd_claims s)(x := None)\<rparr> else s)"

text \<open>The pipeline of a registration; \<open>stamp\<close> is the clock of the worker.\<close>

definition new_run ::
    "run_settings \<Rightarrow> int \<Rightarrow> string \<Rightarrow> string \<Rightarrow> string \<Rightarrow> string \<Rightarrow> string \<Rightarrow> int \<Rightarrow> shared_run" where
  "new_run st stamp x corr tenant user w started =
     \<lparr>sr_run = x, sr_correlation = corr, sr_tenant = Some tenant, sr_user = user, sr_owner = Some w,
      sr_status = Some ''running'', sr_started = Some started, sr_updated = Some stamp, sr_heartbeat = Some stamp,
      sr_lease_expires = Some (stamp + micros (se_lease_ttl st)), sr_cancel_at = None, sr_completed = None, sr_error = [],
      sr_outcome = []\<rparr>"

definition write_run ::
    "run_settings \<Rightarrow> int \<Rightarrow> int \<Rightarrow> string \<Rightarrow> string \<Rightarrow> string \<Rightarrow> string \<Rightarrow> string \<Rightarrow> int \<Rightarrow> redis \<Rightarrow> redis" where
  "write_run st now stamp x corr tenant user w started s =
     (let keep = now + micros (se_retention st)
      in s\<lparr>rd_runs := (rd_runs s)(x \<mapsto> (new_run st stamp x corr tenant user w started, Some keep)),
           rd_index := (rd_index s)(tenant \<mapsto> (insert x (ids_of now tenant s), keep))\<rparr>)"

text \<open>\<^verbatim>\<open>HSET\<close> keeps the expiry of a key, and makes a key without one when there is none.\<close>

definition hash_set :: "int \<Rightarrow> string \<Rightarrow> (shared_run \<Rightarrow> shared_run) \<Rightarrow> redis \<Rightarrow> redis" where
  "hash_set now x f s = s\<lparr>rd_runs := (rd_runs s)(x \<mapsto> (case rd_runs s x of None \<Rightarrow> (f blank_run, None)
     | Some (r, u) \<Rightarrow> if lives now u then (f r, u) else (f blank_run, None)))\<rparr>"

text \<open>\<^verbatim>\<open>EXPIRE\<close> of the key of a run.\<close>

definition keep_run :: "run_settings \<Rightarrow> int \<Rightarrow> string \<Rightarrow> redis \<Rightarrow> redis" where
  "keep_run st now x s = (case run_of now x s of None \<Rightarrow> s
     | Some r \<Rightarrow> s\<lparr>rd_runs := (rd_runs s)(x \<mapsto> (r, Some (now + micros (se_retention st))))\<rparr>)"

definition write_beat :: "run_settings \<Rightarrow> int \<Rightarrow> int \<Rightarrow> string \<Rightarrow> string option \<Rightarrow> redis \<Rightarrow> redis" where
  "write_beat st now stamp x tenant s =
     touch_index st now tenant (keep_run st now x (hash_set now x (\<lambda>r. r\<lparr>sr_updated := Some stamp,
       sr_heartbeat := Some stamp, sr_lease_expires := Some (stamp + micros (se_lease_ttl st))\<rparr>) s))"

definition write_outcome :: "int \<Rightarrow> string \<Rightarrow> string \<Rightarrow> redis \<Rightarrow> redis" where
  "write_outcome now x outcome = hash_set now x (\<lambda>r. r\<lparr>sr_outcome := outcome\<rparr>)"

text \<open>The script that ends a run.\<close>

definition terminal_script ::
    "run_settings \<Rightarrow> int \<Rightarrow> string \<Rightarrow> string \<Rightarrow> string \<Rightarrow> int \<Rightarrow> string option \<Rightarrow> redis \<Rightarrow> bool \<times> redis" where
  "terminal_script st now x w status completed err s =
     (if claim_of now x s \<noteq> Some w then (False, s)
      else case run_of now x s of
        None \<Rightarrow> (False, s)
      | Some r \<Rightarrow>
          if sr_owner r \<noteq> Some w then (False, s)
          else (True, s\<lparr>rd_runs := (rd_runs s)(x \<mapsto> (r\<lparr>sr_status := Some status, sr_updated := Some completed,
                  sr_completed := Some completed, sr_error := (case err of None \<Rightarrow> [] | Some e \<Rightarrow> e),
                  sr_lease_expires := None\<rparr>, Some (now + micros (se_retention st)))),
                rd_claims := (rd_claims s)(x := None)\<rparr>))"

text \<open>The script that records a cancellation, and its answers 1, -1, -2 and -3.\<close>

datatype cancel_answer = CancelGranted | CancelUnowned | CancelForeign | CancelNotRunning

definition cancel_script :: "int \<Rightarrow> int \<Rightarrow> string \<Rightarrow> string \<Rightarrow> redis \<Rightarrow> cancel_answer \<times> redis" where
  "cancel_script now stamp x tenant s =
     (case claim_of now x s of
        None \<Rightarrow> (CancelUnowned, s)
      | Some owner \<Rightarrow>
          let r = (case run_of now x s of None \<Rightarrow> blank_run | Some r \<Rightarrow> r)
          in if sr_owner r \<noteq> Some owner then (CancelUnowned, s)
             else if sr_tenant r \<noteq> Some tenant then (CancelForeign, s)
             else if sr_status r \<noteq> Some ''running'' then (CancelNotRunning, s)
             else (CancelGranted, hash_set now x (\<lambda>r. r\<lparr>sr_status := Some ''cancelling'', sr_cancel_at := Some stamp,
                    sr_updated := Some stamp\<rparr>) s))"

text \<open>\<^verbatim>\<open>SREM\<close>\<close>

definition forget_ids :: "string \<Rightarrow> string list \<Rightarrow> redis \<Rightarrow> redis" where
  "forget_ids tenant xs s = s\<lparr>rd_index := (rd_index s)(tenant := (case rd_index s tenant of None \<Rightarrow> None
     | Some (ids, until) \<Rightarrow> if ids - set xs = {} then None else Some (ids - set xs, until)))\<rparr>"

section \<open>The store\<close>

text \<open>
  The moments of an operation. The reading of the worker's clock is a moment too. In \<open>still now\<close> the
  whole operation happens at one instant.
\<close>

type_synonym moments = "nat \<Rightarrow> int \<times> (redis \<Rightarrow> redis)"

abbreviation call_time :: "moments \<Rightarrow> nat \<Rightarrow> int" where
  "call_time g n \<equiv> fst (g n)"

abbreviation others :: "moments \<Rightarrow> nat \<Rightarrow> redis \<Rightarrow> redis" where
  "others g n \<equiv> snd (g n)"

definition still :: "int \<Rightarrow> moments" where
  "still now = (\<lambda>_. (now, id))"

definition from_moment :: "nat \<Rightarrow> moments \<Rightarrow> moments" where
  "from_moment k g = (\<lambda>n. g (k + n))"

datatype store_error = StoreUnavailable | StoreNotFound string | StoreTenantMismatch string
  | StoreNotCancellable string | StoreRuntime string | StoreValue string | StoreFailure

definition active_statuses :: "string list" where
  "active_statuses = [''running'', ''cancelling'']"

text \<open>\<open>avail\<close> is the answer of \<open>available\<close>, \<open>pipe\<close> whether the pipeline of the registration runs.\<close>

definition store_register ::
    "run_settings \<Rightarrow> bool \<Rightarrow> bool \<Rightarrow> moments \<Rightarrow> string \<Rightarrow> string \<Rightarrow> string \<Rightarrow> string \<Rightarrow> string \<Rightarrow> int \<Rightarrow> redis \<Rightarrow>
     (store_error + unit) \<times> redis" where
  "store_register st avail pipe g x corr tenant user w started s =
     (if \<not> avail then (Inl StoreUnavailable, s)
      else let (won, s1) = win_claim st (call_time g 0) x w (others g 0 s)
           in if \<not> won then (Inl (StoreRuntime (''Medusa distributed run already active: '' @ x)), s1)
              else let stamp = call_time g 1; s2 = others g 2 (others g 1 s1); now = call_time g 2
                   in if pipe then (Inr (), write_run st now stamp x corr tenant user w started s2)
                      else (Inl StoreFailure, release_claim now x w s2))"

definition store_heartbeat ::
    "run_settings \<Rightarrow> bool \<Rightarrow> moments \<Rightarrow> string \<Rightarrow> string \<Rightarrow> redis \<Rightarrow> (store_error + bool) \<times> redis" where
  "store_heartbeat st avail g x w s =
     (if \<not> avail then (Inl StoreUnavailable, s)
      else let (renewed, s1) = renew_claim st (call_time g 0) x w (others g 0 s)
           in if \<not> renewed then (Inl (StoreRuntime (''Medusa run ownership changed or expired: '' @ x)), s1)
              else let s2 = others g 1 s1; gone = release_claim (call_time g 2) x w (others g 2 s2)
                   in case run_of (call_time g 1) x s2 of
                     None \<Rightarrow> (Inl (StoreNotFound x), gone)
                   | Some r \<Rightarrow>
                       if sr_owner r \<noteq> Some w
                       then (Inl (StoreRuntime (''Medusa run ownership metadata changed: '' @ x)), gone)
                       else if sr_status r \<notin> Some ` set active_statuses then (Inr False, s2)
                       else (Inr (sr_cancel_at r \<noteq> None),
                             write_beat st (call_time g 3) (call_time g 2) x (sr_tenant r) (others g 3 (others g 2 s2))))"

definition store_mark_terminal ::
    "run_settings \<Rightarrow> bool \<Rightarrow> moments \<Rightarrow> string \<Rightarrow> string \<Rightarrow> string \<Rightarrow> int \<Rightarrow> string option \<Rightarrow> redis \<Rightarrow>
     (store_error + unit) \<times> redis" where
  "store_mark_terminal st avail g x w status completed err s =
     (if \<not> avail then (Inl StoreUnavailable, s)
      else let s1 = others g 0 s
           in case run_of (call_time g 0) x s1 of
             None \<Rightarrow> (Inr (), s1)
           | Some r \<Rightarrow>
               let (ended, s2) = terminal_script st (call_time g 1) x w status completed err (others g 1 s1)
               in (Inr (), if ended then touch_index st (call_time g 2) (sr_tenant r) (others g 2 s2) else s2))"

definition outcome_statuses :: "string list" where
  "outcome_statuses = [''success'', ''partial'', ''degraded'', ''error'', ''timeout'', ''cancelled'']"

definition store_set_outcome ::
    "bool \<Rightarrow> moments \<Rightarrow> string \<Rightarrow> string \<Rightarrow> string \<Rightarrow> redis \<Rightarrow> (store_error + unit) \<times> redis" where
  "store_set_outcome avail g x w outcome s =
     (let normalized = lower (strip outcome)
      in if normalized \<notin> set outcome_statuses
         then (Inl (StoreValue (''Invalid Medusa outcome status: '' @ outcome)), s)
         else if \<not> avail then (Inl StoreUnavailable, s)
         else let s1 = others g 0 s
              in case run_of (call_time g 0) x s1 of
                None \<Rightarrow> (Inl (StoreNotFound x), s1)
              | Some r \<Rightarrow>
                  if sr_owner r \<noteq> Some w
                  then (Inl (StoreRuntime (''Medusa run ownership metadata changed: '' @ x)), s1)
                  else (Inr (), write_outcome (call_time g 1) x normalized (others g 1 s1)))"

record shared_snapshot =
  sn_run :: string
  sn_correlation :: string
  sn_tenant :: string
  sn_user :: string
  sn_status :: string
  sn_started :: "int option"
  sn_completed :: "int option"
  sn_error :: "string option"
  sn_outcome :: "string option"
  sn_cancellable :: bool
  sn_lease_alive :: bool

definition or_none :: "string \<Rightarrow> string option" where
  "or_none t = (if t = [] then None else Some t)"

definition store_snapshot :: "int \<Rightarrow> bool \<Rightarrow> shared_run \<Rightarrow> shared_snapshot" where
  "store_snapshot now claim_alive r =
     (let lease_alive = (claim_alive \<and> sql_after (sr_lease_expires r) now);
          found = (case sr_status r of None \<Rightarrow> ''failed'' | Some t \<Rightarrow> t);
          status = (if found \<in> set active_statuses \<and> \<not> lease_alive then ''orphaned'' else found)
      in \<lparr>sn_run = sr_run r, sn_correlation = sr_correlation r,
          sn_tenant = (case sr_tenant r of None \<Rightarrow> [] | Some t \<Rightarrow> t), sn_user = sr_user r,
          sn_status = status, sn_started = sr_started r, sn_completed = sr_completed r,
          sn_error = or_none (sr_error r), sn_outcome = or_none (sr_outcome r),
          sn_cancellable = (status = ''running'' \<and> lease_alive), sn_lease_alive = lease_alive\<rparr>)"

text \<open>\<^verbatim>\<open>bool(owner and owner == record["owner_worker_id"])\<close>\<close>

definition claim_held :: "int \<Rightarrow> string \<Rightarrow> shared_run \<Rightarrow> redis \<Rightarrow> bool" where
  "claim_held now x r s \<longleftrightarrow> (case claim_of now x s of None \<Rightarrow> False | Some w \<Rightarrow> w \<noteq> [] \<and> Some w = sr_owner r)"

text \<open>The claim is read and then the clock, after the record \<open>r\<close> was read.\<close>

definition snapshot_of :: "moments \<Rightarrow> string \<Rightarrow> shared_run \<Rightarrow> redis \<Rightarrow> shared_snapshot \<times> redis" where
  "snapshot_of g x r s =
     (let s1 = others g 0 s
      in (store_snapshot (call_time g 1) (claim_held (call_time g 0) x r s1) r, others g 1 s1))"

definition store_request_cancel ::
    "bool \<Rightarrow> moments \<Rightarrow> string \<Rightarrow> string \<Rightarrow> redis \<Rightarrow> (store_error + shared_snapshot) \<times> redis" where
  "store_request_cancel avail g x tenant s =
     (if \<not> avail then (Inl StoreUnavailable, s)
      else let s1 = others g 0 s
           in case run_of (call_time g 0) x s1 of
             None \<Rightarrow> (Inl (StoreNotFound x), s1)
           | Some r \<Rightarrow>
               if sr_tenant r \<noteq> Some tenant then (Inl (StoreTenantMismatch x), s1)
               else let (answer, s2) = cancel_script (call_time g 2) (call_time g 1) x tenant (others g 2 (others g 1 s1))
                    in if answer = CancelForeign then (Inl (StoreTenantMismatch x), s2)
                       else let s3 = others g 3 s2; again = run_of (call_time g 3) x s3
                            in if answer = CancelGranted
                               then let (n, s4) = snapshot_of (from_moment 4 g) x
                                          (case again of None \<Rightarrow> blank_run | Some r' \<Rightarrow> r') s3
                                    in (Inr n, s4)
                               else case again of
                                 None \<Rightarrow> (Inl (StoreNotFound x), s3)
                               | Some r' \<Rightarrow>
                                   let (n, s4) = snapshot_of (from_moment 4 g) x r' s3
                                   in (Inl (StoreNotCancellable (''Run '' @ x @ '' is '' @ sn_status n @ '', not cancellable'')), s4))"

definition store_get ::
    "bool \<Rightarrow> moments \<Rightarrow> string \<Rightarrow> string \<Rightarrow> redis \<Rightarrow> (store_error + shared_snapshot) \<times> redis" where
  "store_get avail g x tenant s =
     (if \<not> avail then (Inl StoreUnavailable, s)
      else let s1 = others g 0 s
           in case run_of (call_time g 0) x s1 of
             None \<Rightarrow> (Inl (StoreNotFound x), s1)
           | Some r \<Rightarrow> if sr_tenant r \<noteq> Some tenant then (Inl (StoreTenantMismatch x), s1)
                       else let (n, s2) = snapshot_of (from_moment 1 g) x r s1 in (Inr n, s2))"

text \<open>The loop of the listing: the snapshots, the ids that have no record, and Redis after it.\<close>

fun read_rows :: "moments \<Rightarrow> string list \<Rightarrow> redis \<Rightarrow> shared_snapshot list \<times> string list \<times> redis" where
  "read_rows g [] s = ([], [], s)"
| "read_rows g (x # xs) s =
     (let s1 = others g 0 s
      in case run_of (call_time g 0) x s1 of
        None \<Rightarrow> let (ns, stale, s2) = read_rows (from_moment 3 g) xs s1 in (ns, x # stale, s2)
      | Some r \<Rightarrow> let (n, s2) = snapshot_of (from_moment 1 g) x r s1;
                      (ns, stale, s3) = read_rows (from_moment 3 g) xs s2
                  in (n # ns, stale, s3))"

definition store_list_runs ::
    "(string set \<Rightarrow> string list) \<Rightarrow> bool \<Rightarrow> moments \<Rightarrow> string \<Rightarrow> bool \<Rightarrow> redis \<Rightarrow>
     (store_error + shared_snapshot list) \<times> redis" where
  "store_list_runs so avail g tenant include_terminal s =
     (if \<not> avail then (Inl StoreUnavailable, s)
      else let s1 = others g 0 s; ids = so (ids_of (call_time g 0) tenant s1);
               (found, stale, s2) = read_rows (from_moment 1 g) ids s1;
               shown = filter (\<lambda>n. include_terminal \<or> sn_status n \<in> {''running'', ''cancelling'', ''orphaned''}) found
           in (Inr (sort_by_desc sn_started shown),
               if stale = [] then s2 else forget_ids tenant stale (others g (1 + 3 * length ids) s2)))"

section \<open>Lemmas\<close>

lemma alive_Some: "alive now e = Some v \<longleftrightarrow> (\<exists>u. e = Some (v, u) \<and> now < u)"
  by (auto simp: alive_def split: option.splits if_splits)

lemma still_simps [simp]: "call_time (still now) n = now" "others (still now) n = id" "from_moment k (still now) = still now"
  by (simp_all add: still_def from_moment_def)

lemma snapshot_still [simp]: "snd (snapshot_of (still now) x r s) = s"
  by (simp add: snapshot_of_def)

lemma touch_index_simps [simp]: "rd_claims (touch_index st now t s) = rd_claims s" "rd_runs (touch_index st now t s) = rd_runs s"
    "run_of n x (touch_index st now t s) = run_of n x s"
  by (auto simp: touch_index_def run_of_def split: option.split)

lemma forget_simps [simp]: "rd_claims (forget_ids t xs s) = rd_claims s" "rd_runs (forget_ids t xs s) = rd_runs s"
  by (simp_all add: forget_ids_def)

lemma release_simps [simp]: "rd_runs (release_claim now x w s) = rd_runs s" "run_of n y (release_claim now x w s) = run_of n y s"
    "y \<noteq> x \<Longrightarrow> rd_claims (release_claim now x w s) y = rd_claims s y"
  by (simp_all add: release_claim_def run_of_def)

lemma hash_set_simps [simp]: "rd_claims (hash_set now x f s) = rd_claims s"
    "run_of now x (hash_set now x f s) = Some (f (case run_of now x s of None \<Rightarrow> blank_run | Some r \<Rightarrow> r))"
    "y \<noteq> x \<Longrightarrow> rd_runs (hash_set now x f s) y = rd_runs s y"
  by (auto simp: hash_set_def run_of_def lives_def split: option.split)

lemma keep_run_simps [simp]: "rd_claims (keep_run st now x s) = rd_claims s"
    "y \<noteq> x \<Longrightarrow> rd_runs (keep_run st now x s) y = rd_runs s y"
  by (auto simp: keep_run_def split: option.split)

section \<open>Calls\<close>

text \<open>
  The calls that change Redis. A registration has a number, which its two calls share: \<open>SET NX\<close> and,
  if it was granted, the pipeline that writes the record.
\<close>

datatype redis_call =
    CClaim nat int string string
  | CWrite nat int int string string string string string int
  | CRenew int string string
  | CRelease int string string
  | CBeat int int string "string option"
  | COutcome int string string
  | CTerminal int string string string int "string option"
  | CTouch int "string option"
  | CCancel int int string string
  | CForget string "string list"

fun call_effect :: "run_settings \<Rightarrow> redis_call \<Rightarrow> redis \<Rightarrow> redis" where
  "call_effect st (CClaim n now x w) s = snd (win_claim st now x w s)"
| "call_effect st (CWrite n now stamp x corr tenant user w started) s = write_run st now stamp x corr tenant user w started s"
| "call_effect st (CRenew now x w) s = snd (renew_claim st now x w s)"
| "call_effect st (CRelease now x w) s = release_claim now x w s"
| "call_effect st (CBeat now stamp x tenant) s = write_beat st now stamp x tenant s"
| "call_effect st (COutcome now x outcome) s = write_outcome now x outcome s"
| "call_effect st (CTerminal now x w status completed err) s = snd (terminal_script st now x w status completed err s)"
| "call_effect st (CTouch now tenant) s = touch_index st now tenant s"
| "call_effect st (CCancel now stamp x tenant) s = snd (cancel_script now stamp x tenant s)"
| "call_effect st (CForget tenant xs) s = forget_ids tenant xs s"

definition calls_effect :: "run_settings \<Rightarrow> redis_call list \<Rightarrow> redis \<Rightarrow> redis" where
  "calls_effect st cs s = fold (call_effect st) cs s"

lemma calls_effect_simps [simp]: "calls_effect st [] s = s" "calls_effect st (c # cs) s = calls_effect st cs (call_effect st c s)"
    "calls_effect st (cs @ ds) s = calls_effect st ds (calls_effect st cs s)"
  by (simp_all add: calls_effect_def)

text \<open>Every operation is its calls in their order, with whatever calls of other workers between them.\<close>

definition by_calls :: "run_settings \<Rightarrow> moments \<Rightarrow> (nat \<Rightarrow> redis_call list) \<Rightarrow> bool" where
  "by_calls st g G \<longleftrightarrow> (\<forall>k. others g k = calls_effect st (G k))"

lemma register_calls:
  assumes "by_calls st g G"
  shows "snd (store_register st True pipe g x corr tenant user w started s) = calls_effect st
    (G 0 @ CClaim n (call_time g 0) x w #
     (if claim_of (call_time g 0) x (calls_effect st (G 0) s) \<noteq> None then []
      else G 1 @ G 2 @ [if pipe then CWrite n (call_time g 2) (call_time g 1) x corr tenant user w started
                        else CRelease (call_time g 2) x w])) s"
  using assms by (simp add: by_calls_def store_register_def win_claim_def Let_def)

lemma heartbeat_calls:
  assumes "by_calls st g G"
  shows "\<exists>own. snd (store_heartbeat st True g x w s)
      = calls_effect st (G 0 @ CRenew (call_time g 0) x w # own) s
    \<and> own \<in> {[], G 1, G 1 @ G 2 @ [CRelease (call_time g 2) x w]}
        \<union> {G 1 @ G 2 @ G 3 @ [CBeat (call_time g 3) (call_time g 2) x tenant] | tenant. True}"
proof -
  let ?s1 = "snd (renew_claim st (call_time g 0) x w (calls_effect st (G 0) s))"
  let ?r = "run_of (call_time g 1) x (calls_effect st (G 1) ?s1)"
  let ?t = "case ?r of None \<Rightarrow> None | Some r \<Rightarrow> sr_tenant r"
  consider "claim_of (call_time g 0) x (calls_effect st (G 0) s) \<noteq> Some w"
    | "claim_of (call_time g 0) x (calls_effect st (G 0) s) = Some w" "?r = None \<or> sr_owner (the ?r) \<noteq> Some w"
    | r where "claim_of (call_time g 0) x (calls_effect st (G 0) s) = Some w" "?r = Some r" "sr_owner r = Some w"
      "sr_status r \<notin> Some ` set active_statuses"
    | r where "claim_of (call_time g 0) x (calls_effect st (G 0) s) = Some w" "?r = Some r" "sr_owner r = Some w"
      "sr_status r \<in> Some ` set active_statuses" by force
  then show ?thesis
  proof cases
    case 1
    then show ?thesis using assms by (intro exI [of _ "[]"]) (simp add: by_calls_def store_heartbeat_def renew_claim_def)
  next
    case 2
    then show ?thesis using assms
      by (intro exI [of _ "G 1 @ G 2 @ [CRelease (call_time g 2) x w]"])
        (auto simp: by_calls_def store_heartbeat_def renew_claim_def Let_def split: option.split)
  next
    case 3
    then show ?thesis using assms
      by (intro exI [of _ "G 1"]) (simp add: by_calls_def store_heartbeat_def renew_claim_def Let_def)
  next
    case 4
    then show ?thesis using assms
      by (intro exI [of _ "G 1 @ G 2 @ G 3 @ [CBeat (call_time g 3) (call_time g 2) x (sr_tenant r)]"])
        (auto simp: by_calls_def store_heartbeat_def renew_claim_def Let_def)
  qed
qed

lemma terminal_calls:
  assumes "by_calls st g G"
  shows "\<exists>own. snd (store_mark_terminal st True g x w status completed err s) = calls_effect st (G 0 @ own) s
    \<and> own \<in> {[], G 1 @ [CTerminal (call_time g 1) x w status completed err]}
        \<union> {G 1 @ CTerminal (call_time g 1) x w status completed err # G 2 @ [CTouch (call_time g 2) tenant] | tenant. True}"
proof (cases "run_of (call_time g 0) x (calls_effect st (G 0) s)")
  case None
  then show ?thesis using assms by (intro exI [of _ "[]"]) (simp add: by_calls_def store_mark_terminal_def)
next
  case (Some r)
  let ?e = "terminal_script st (call_time g 1) x w status completed err (calls_effect st (G 1 ) (calls_effect st (G 0) s))"
  show ?thesis
  proof (cases "fst ?e")
    case True
    then show ?thesis using assms Some
      by (intro exI [of _ "G 1 @ CTerminal (call_time g 1) x w status completed err # G 2 @ [CTouch (call_time g 2) (sr_tenant r)]"])
        (auto simp: by_calls_def store_mark_terminal_def split_beta Let_def)
  next
    case False
    then show ?thesis using assms Some
      by (intro exI [of _ "G 1 @ [CTerminal (call_time g 1) x w status completed err]"])
        (simp add: by_calls_def store_mark_terminal_def split_beta Let_def)
  qed
qed

lemma outcome_calls:
  assumes "by_calls st g G"
  shows "snd (store_set_outcome avail g x w outcome s) \<in> (\<lambda>cs. calls_effect st cs s) `
    {[], G 0, G 0 @ G 1 @ [COutcome (call_time g 1) x (lower (strip outcome))]}"
  using assms by (auto simp: by_calls_def store_set_outcome_def Let_def split: option.split)

lemma snapshot_calls: "by_calls st g G \<Longrightarrow> snd (snapshot_of (from_moment k g) x r s) = calls_effect st (G k @ G (Suc k)) s"
  by (simp add: by_calls_def snapshot_of_def from_moment_def Let_def)

lemma cancel_calls:
  assumes "by_calls st g G"
  shows "\<exists>own late. snd (store_request_cancel True g x tenant s) = calls_effect st (G 0 @ own) s
    \<and> own \<in> {[], G 1 @ G 2 @ CCancel (call_time g 2) (call_time g 1) x tenant # late}
    \<and> late \<in> {[], G 3, G 3 @ G 4 @ G 5}"
proof (cases "run_of (call_time g 0) x (calls_effect st (G 0) s)")
  case None
  then show ?thesis using assms by (intro exI [of _ "[]"]) (simp add: by_calls_def store_request_cancel_def)
next
  case (Some r)
  let ?c = "cancel_script (call_time g 2) (call_time g 1) x tenant (calls_effect st (G 2) (calls_effect st (G 1) (calls_effect st (G 0) s)))"
  let ?s3 = "calls_effect st (G 3) (snd ?c)"
  have snap: "snd (snapshot_of (from_moment 4 g) x r' ?s3) = calls_effect st (G 4 @ G 5) ?s3" for r'
    using snapshot_calls [OF assms, of 4] by (simp add: eval_nat_numeral)
  let ?late = "if fst ?c = CancelForeign then []
    else if fst ?c \<noteq> CancelGranted \<and> run_of (call_time g 3) x ?s3 = None then G 3 else G 3 @ G 4 @ G 5"
  show ?thesis
  proof (cases "sr_tenant r = Some tenant")
    case False
    then show ?thesis using assms Some by (intro exI [of _ "[]"]) (simp add: by_calls_def store_request_cancel_def)
  next
    case True
    then have "snd (store_request_cancel True g x tenant s)
        = calls_effect st (G 0 @ G 1 @ G 2 @ CCancel (call_time g 2) (call_time g 1) x tenant # ?late) s"
      using assms Some snap by (auto simp: by_calls_def store_request_cancel_def split_beta Let_def split: option.split)
    then show ?thesis
      by (intro exI [of _ "G 1 @ G 2 @ CCancel (call_time g 2) (call_time g 1) x tenant # ?late"] exI [of _ ?late]) auto
  qed
qed

section \<open>Claims fence runs\<close>

text \<open>
  The machine of the calls of workers with the same settings: Redis, and the registrations whose \<^verbatim>\<open>SET NX\<close> was granted and whose record
  is not written yet. No record is written without such a registration.
\<close>

type_synonym registrations = "nat \<Rightarrow> (string \<times> string) option"

fun call_step :: "run_settings \<Rightarrow> redis_call \<Rightarrow> redis \<times> registrations \<Rightarrow> redis \<times> registrations" where
  "call_step st (CClaim n now x w) (s, b) =
     (if b n \<noteq> None then (s, b)
      else (snd (win_claim st now x w s), if fst (win_claim st now x w s) then b(n \<mapsto> (x, w)) else b))"
| "call_step st (CWrite n now stamp x corr tenant user w started) (s, b) =
     (if b n \<noteq> Some (x, w) then (s, b)
      else (write_run st now stamp x corr tenant user w started s, b(n := None)))"
| "call_step st c (s, b) = (call_effect st c s, b)"

definition started_with :: "redis \<Rightarrow> redis \<times> registrations" where
  "started_with s = (s, Map.empty)"

text \<open>
  What a claim protects: the claim itself and the fields that say whose run it is and how it goes. Not
  the times of the last heartbeat, and not the outcome.
\<close>

definition control_fields :: "shared_run \<Rightarrow> shared_run" where
  "control_fields r = r\<lparr>sr_updated := None, sr_heartbeat := None, sr_lease_expires := None, sr_outcome := []\<rparr>"

definition run_view :: "string \<Rightarrow> redis \<times> registrations \<Rightarrow> (string \<times> int) option \<times> shared_run option" where
  "run_view x sb = (rd_claims (fst sb) x, map_option (control_fields \<circ> fst) (rd_runs (fst sb) x))"

text \<open>
  Who may change this of a run claimed by \<open>w\<close> until \<open>e\<close>: whoever wins the claim after that, the
  holder before it, and others in four ways - with the record of a registration that was granted
  before, with a cancellation, and with the late write of a heartbeat or of an outcome when the
  record has expired.
\<close>

fun call_entitled :: "string \<Rightarrow> string \<Rightarrow> int \<Rightarrow> redis \<times> registrations \<Rightarrow> redis_call \<Rightarrow> bool" where
  "call_entitled x w e sb (CClaim n now y v) = (y = x \<and> e \<le> now)"
| "call_entitled x w e sb (CRenew now y v) = (y = x \<and> v = w \<and> now < e)"
| "call_entitled x w e sb (CRelease now y v) = (y = x \<and> v = w \<and> now < e)"
| "call_entitled x w e sb (CTerminal now y v status completed err) = (y = x \<and> v = w \<and> now < e
     \<and> (\<exists>r. run_of now x (fst sb) = Some r \<and> sr_owner r = Some w))"
| "call_entitled x w e sb (CWrite n now stamp y corr tenant user v started) = (y = x \<and> snd sb n = Some (x, v))"
| "call_entitled x w e sb (CCancel now stamp y tenant) = (y = x \<and> now < e
     \<and> (\<exists>r. run_of now x (fst sb) = Some r \<and> sr_owner r = Some w \<and> sr_tenant r = Some tenant
          \<and> sr_status r = Some ''running''))"
| "call_entitled x w e sb (CBeat now stamp y tenant) = (y = x \<and> run_of now x (fst sb) = None)"
| "call_entitled x w e sb (COutcome now y outcome) = (y = x \<and> run_of now x (fst sb) = None)"
| "call_entitled x w e sb c = False"

lemma control_simps [simp]:
  "control_fields (r\<lparr>sr_updated := a, sr_heartbeat := b, sr_lease_expires := c\<rparr>) = control_fields r"
  "control_fields (r\<lparr>sr_outcome := t\<rparr>) = control_fields r"
  by (simp_all add: control_fields_def)

lemma hash_set_view:
  "run_of now x s \<noteq> None \<Longrightarrow> (\<And>r. control_fields (f r) = control_fields r) \<Longrightarrow>
     map_option (control_fields \<circ> fst) (rd_runs (hash_set now x f s) x) = map_option (control_fields \<circ> fst) (rd_runs s x)"
  by (auto simp: hash_set_def run_of_def split: option.splits if_splits)

lemma keep_run_view [simp]:
  "map_option (control_fields \<circ> fst) (rd_runs (keep_run st now x s) x) = map_option (control_fields \<circ> fst) (rd_runs s x)"
  by (auto simp: keep_run_def run_of_def split: option.splits if_splits)

lemma beat_view:
  assumes "y = x \<Longrightarrow> run_of now x s \<noteq> None"
  shows "run_view x (write_beat st now stamp y tenant s, b) = run_view x (s, b)"
  using assms hash_set_view [of now x s] by (cases "y = x") (simp_all add: run_view_def write_beat_def)

lemma outcome_view:
  assumes "y = x \<Longrightarrow> run_of now x s \<noteq> None"
  shows "run_view x (write_outcome now y outcome s, b) = run_view x (s, b)"
  using assms hash_set_view [of now x s] by (cases "y = x") (simp_all add: run_view_def write_outcome_def)

lemma call_guard:
  assumes c: "rd_claims s x = Some (w, e)" and ne: "\<not> call_entitled x w e (s, b) c"
  shows "run_view x (call_step st c (s, b)) = run_view x (s, b)"
proof (cases c)
  case (CClaim n now y v)
  then show ?thesis using c ne by (auto simp: run_view_def win_claim_def alive_def)
next
  case (CWrite n now stamp y corr tenant user v started)
  then show ?thesis using ne by (auto simp: run_view_def write_run_def Let_def)
next
  case (CRenew now y v)
  then show ?thesis using c ne by (auto simp: run_view_def renew_claim_def alive_def split: if_splits)
next
  case (CRelease now y v)
  then show ?thesis using c ne by (auto simp: run_view_def release_claim_def alive_def split: if_splits)
next
  case (CTerminal now y v status completed err)
  then show ?thesis using c ne
    by (auto simp: run_view_def terminal_script_def alive_def split: option.split)
next
  case (CCancel now stamp y tenant)
  then show ?thesis using c ne
    by (cases "y = x") (auto simp: run_view_def cancel_script_def alive_def Let_def blank_run_def split: option.split)
qed (use ne in \<open>simp_all add: beat_view outcome_view, simp_all add: run_view_def\<close>)

definition view_entitled :: "string \<Rightarrow> redis \<times> registrations \<Rightarrow> redis_call \<Rightarrow> bool" where
  "view_entitled x sb c = (case rd_claims (fst sb) x of None \<Rightarrow> True | Some (w, e) \<Rightarrow> call_entitled x w e sb c)"

interpretation shared_runs: guarded_machine "call_step st" run_view view_entitled for st
proof
  fix x sb c
  assume "\<not> view_entitled x sb c"
  then show "run_view x (call_step st c sb) = run_view x sb"
    by (cases sb) (auto simp: view_entitled_def intro: call_guard split: option.splits)
qed

fun call_run :: "run_settings \<Rightarrow> redis_call list \<Rightarrow> redis \<times> registrations \<Rightarrow> redis \<times> registrations" where
  "call_run st [] sb = sb"
| "call_run st (c # cs) sb = call_run st cs (call_step st c sb)"

lemma redis_run_eq: "call_run st cs sb = shared_runs.run st cs sb"
  by (induction cs arbitrary: sb) simp_all

lemma call_run_append: "call_run st (cs @ ds) sb = call_run st ds (call_run st cs sb)"
  by (simp add: redis_run_eq shared_runs.run_append)

section \<open>Properties\<close>

text \<open>
  C21: While a worker holds the claim of a run, the claim and the control fields of its record stay as they
  are, however the calls of any workers interleave, until one of these: the claim expires and is
  won, its holder renews or releases it or ends the run before it expires, a cancellation of the
  run's tenant marks a running run, a registration that had won the claim earlier writes its
  record, or a heartbeat or an outcome is written after the record itself has expired.
\<close>

theorem shared_claim_fences:
  assumes "rd_claims (fst (call_run st cs (started_with s))) x = Some (w, e)"
  shows "(\<forall>pre post. later = pre @ post \<longrightarrow>
        run_view x (call_run st (cs @ pre) (started_with s)) = run_view x (call_run st cs (started_with s)))
    \<or> (\<exists>pre c post. later = pre @ c # post
        \<and> run_view x (call_run st (cs @ pre) (started_with s)) = run_view x (call_run st cs (started_with s))
        \<and> call_entitled x w e (call_run st (cs @ pre) (started_with s)) c)"
proof -
  let ?s = "call_run st cs (started_with s)"
  have "call_entitled x w e (call_run st pre ?s) c"
    if "view_entitled x (call_run st pre ?s) c" "run_view x (call_run st pre ?s) = run_view x ?s" for pre c
    using that assms by (simp add: view_entitled_def run_view_def)
  with shared_runs.first_change [where k = x and st = st and ops = later and s = ?s] show ?thesis
    unfolding call_run_append by (simp only: redis_run_eq) blast
qed

text \<open>
  C39: A registration that is delayed between winning the claim and writing its record for as long as the
  lease overwrites the record of the worker that has won the claim since: it reports success, the
  record names a worker without the claim, and the next heartbeat of the worker that has the
  claim fails and gives the claim up.
\<close>

theorem stalled_registration_overwrites:
  assumes "settings_error st = None" "v \<noteq> w"
    and "claim_of t0 x s = None" "t0 + micros (se_lease_ttl st) \<le> t1" "t1 \<le> t2" "t2 < t1 + micros (se_lease_ttl st)"
    and "g 0 = (t0, id)" "g 1 = (t0, id)"
    and "g 2 = (t2, \<lambda>s. snd (store_register st True True (still t1) x corr' tenant' user' w started' s))"
    and "store_register st True True g x corr tenant user v started s = (res, s')"
  shows "res = Inr () \<and> claim_of t2 x s' = Some w
    \<and> (\<exists>r. run_of t2 x s' = Some r \<and> sr_owner r = Some v \<and> sr_status r = Some ''running'')
    \<and> fst (store_heartbeat st True (still t2) x w s') = Inl (StoreRuntime (''Medusa run ownership metadata changed: '' @ x))
    \<and> claim_of t2 x (snd (store_heartbeat st True (still t2) x w s')) = None"
proof -
  have ttl: "0 < micros (se_lease_ttl st)" "0 < micros (se_retention st)"
    using settings_simps [OF assms(1)] by (simp_all add: micros_def)
  have won: "win_claim st t0 x v s = (True, s\<lparr>rd_claims := (rd_claims s)(x \<mapsto> (v, t0 + micros (se_lease_ttl st)))\<rparr>)"
    using assms(3) by (simp add: win_claim_def)
  let ?s1 = "s\<lparr>rd_claims := (rd_claims s)(x \<mapsto> (v, t0 + micros (se_lease_ttl st)))\<rparr>"
  let ?s2 = "snd (store_register st True True (still t1) x corr' tenant' user' w started' ?s1)"
  have "claim_of t1 x ?s1 = None" using assms(4) by (simp add: alive_def)
  then have c: "rd_claims ?s2 x = Some (w, t1 + micros (se_lease_ttl st))"
    by (simp add: store_register_def win_claim_def write_run_def Let_def)
  have res: "res = Inr ()" and s': "s' = write_run st t2 t0 x corr tenant user v started ?s2"
    using assms(7-10) won by (simp_all add: store_register_def [of st True True g] Let_def)
  let ?r = "new_run st t0 x corr tenant user v started"
  have claim: "claim_of t2 x s' = Some w" and r: "run_of t2 x s' = Some ?r"
    using c ttl assms(5,6) by (simp_all add: s' write_run_def Let_def alive_def run_of_def lives_def)
  have "store_heartbeat st True (still t2) x w s'
      = (Inl (StoreRuntime (''Medusa run ownership metadata changed: '' @ x)), release_claim t2 x w (snd (renew_claim st t2 x w s')))"
    using claim r assms(2) by (simp add: store_heartbeat_def renew_claim_def Let_def run_of_def new_run_def)
  then show ?thesis using res claim r ttl by (simp add: new_run_def release_claim_def renew_claim_def alive_def)
qed

text \<open>
  A granted cancellation reaches the worker that runs the run: the next heartbeat the owner sends while its
  claim and the record live reports it, and until then the run can be neither cancelled again nor
  registered by anyone.
\<close>

theorem cancellation_reaches_owner:
  assumes "store_request_cancel True (still now) x tenant s = (Inr n, s')"
    and "rd_claims s x = Some (w, e)" "rd_runs s x = Some (r, u)" "now \<le> later" "later < e" "lives later u"
  shows "fst (store_heartbeat st True (still later) x w s') = Inr True
    \<and> (\<exists>t. fst (store_request_cancel True (still later) x tenant s') = Inl (StoreNotCancellable t))
    \<and> (\<exists>t. fst (store_register st True p (still later) x corr tenant2 user v started s') = Inl (StoreRuntime t))"
proof -
  have lives: "lives now u" using assms(4,6) by (auto simp: lives_def split: option.splits)
  let ?r = "r\<lparr>sr_status := Some ''cancelling'', sr_cancel_at := Some now, sr_updated := Some now\<rparr>"
  have s': "s' = s\<lparr>rd_runs := (rd_runs s)(x \<mapsto> (?r, u))\<rparr>" and own: "sr_owner r = Some w" and ten: "sr_tenant r = Some tenant"
    using assms(1-5) lives
    by (auto simp: store_request_cancel_def cancel_script_def run_of_def alive_def Let_def hash_set_def split_beta split: if_splits)
  have rec: "claim_of later x s' = Some w" "run_of later x s' = Some ?r" using assms(2,5,6) by (simp_all add: s' alive_def run_of_def)
  then have "fst (store_heartbeat st True (still later) x w s') = Inr True"
    using own by (simp add: store_heartbeat_def renew_claim_def run_of_def active_statuses_def Let_def split: option.splits)
  then show ?thesis
    using rec own ten by (simp add: store_request_cancel_def cancel_script_def store_register_def win_claim_def Let_def split_beta)
qed

section \<open>Witnesses\<close>

lemma sample_registration:
  "call_run (default_settings ''w'') [CClaim 0 1 ''r'' ''w'', CWrite 0 2 1 ''r'' ''c'' ''t'' ''u'' ''w'' 1] (started_with empty_redis)
   = (write_run (default_settings ''w'') 2 1 ''r'' ''c'' ''t'' ''u'' ''w'' 1
        (empty_redis\<lparr>rd_claims := Map.empty(''r'' \<mapsto> (''w'', 30000001))\<rparr>), Map.empty)"
  by (simp add: started_with_def win_claim_def default_settings_def empty_redis_def micros_def alive_def)

theorem shared_claim_fences_witness:
  "let cs = [CClaim 0 1 ''r'' ''w'', CWrite 0 2 1 ''r'' ''c'' ''t'' ''u'' ''w'' 1];
       later = [CRenew 4 ''r'' ''v'', CTerminal 5 ''r'' ''v'' ''failed'' 5 None, CCancel 7 7 ''r'' ''other'']
   in run_view ''r'' (call_run (default_settings ''w'') (cs @ later) (started_with empty_redis))
      = run_view ''r'' (call_run (default_settings ''w'') cs (started_with empty_redis))"
proof -
  let ?st = "default_settings ''w''"
  let ?cs = "[CClaim 0 1 ''r'' ''w'', CWrite 0 2 1 ''r'' ''c'' ''t'' ''u'' ''w'' 1]"
  let ?later = "[CRenew 4 ''r'' ''v'', CTerminal 5 ''r'' ''v'' ''failed'' 5 None, CCancel 7 7 ''r'' ''other'']"
  have c: "rd_claims (fst (call_run ?st ?cs (started_with empty_redis))) ''r'' = Some (''w'', 30000001)"
    by (simp only: sample_registration) (simp add: write_run_def Let_def)
  have "\<not> call_entitled ''r'' ''w'' 30000001 (call_run ?st (?cs @ pre) (started_with empty_redis)) c"
    if "?later = pre @ c # post" for pre c post
    using that unfolding call_run_append sample_registration
    by (auto simp: Cons_eq_append_conv run_of_def renew_claim_def terminal_script_def alive_def write_run_def new_run_def
        lives_def Let_def split: if_splits)
  then show ?thesis
    using shared_claim_fences [OF c, of ?later] unfolding Let_def by (metis append_Nil2)
qed

theorem stalled_registration_overwrites_witness:
  "\<exists>g s' r. fst (store_register (default_settings ''w'') True True g ''r'' ''c'' ''t'' ''u'' ''v'' 1 empty_redis) = Inr ()
     \<and> s' = snd (store_register (default_settings ''w'') True True g ''r'' ''c'' ''t'' ''u'' ''v'' 1 empty_redis)
     \<and> claim_of 40000000 ''r'' s' = Some ''w'' \<and> run_of 40000000 ''r'' s' = Some r \<and> sr_owner r = Some ''v''"
proof -
  define g :: moments where "g = (\<lambda>n. if n < 2 then (1, id) else (40000000, \<lambda>s. snd (store_register (default_settings ''w'')
    True True (still 35000000) ''r'' ''c2'' ''t'' ''u'' ''w'' 35000000 s)))"
  obtain res s' where e: "store_register (default_settings ''w'') True True g ''r'' ''c'' ''t'' ''u'' ''v'' 1 empty_redis = (res, s')"
    by (cases "store_register (default_settings ''w'') True True g ''r'' ''c'' ''t'' ''u'' ''v'' 1 empty_redis")
  have ttl: "se_lease_ttl (default_settings ''w'') = 30" by (simp add: default_settings_def)
  have "res = Inr () \<and> claim_of 40000000 ''r'' s' = Some ''w''
      \<and> (\<exists>r. run_of 40000000 ''r'' s' = Some r \<and> sr_owner r = Some ''v'')"
    using stalled_registration_overwrites [OF default_settings_ok _ _ _ _ _ _ _ _ e, of "''w''" 1 35000000 40000000 "''c2''"
        "''t''" "''u''" 35000000]
    by (auto simp: g_def ttl micros_def empty_redis_def alive_def)
  then show ?thesis using e by (intro exI [of _ g] exI [of _ s']) auto
qed

lemma sample_registered:
  "claim_of 5 ''r'' (snd (store_register (default_settings ''w'') True True (still 1) ''r'' ''c'' ''t'' ''u'' ''w'' 1 empty_redis)) = Some ''w''"
  "rd_runs (snd (store_register (default_settings ''w'') True True (still 1) ''r'' ''c'' ''t'' ''u'' ''w'' 1 empty_redis)) ''r''
     = Some (new_run (default_settings ''w'') 1 ''r'' ''c'' ''t'' ''u'' ''w'' 1, Some 3600000001)"
  "rd_claims (snd (store_register (default_settings ''w'') True True (still 1) ''r'' ''c'' ''t'' ''u'' ''w'' 1 empty_redis)) ''r''
     = Some (''w'', 30000001)"
  by (simp_all add: store_register_def win_claim_def write_run_def default_settings_def empty_redis_def micros_def alive_def Let_def)

theorem cancellation_reaches_owner_witness:
  "\<exists>n s'. store_request_cancel True (still 2) ''r'' ''t''
      (snd (store_register (default_settings ''w'') True True (still 1) ''r'' ''c'' ''t'' ''u'' ''w'' 1 empty_redis)) = (Inr n, s')
    \<and> fst (store_heartbeat (default_settings ''w'') True (still 3) ''r'' ''w'' s') = Inr True"
proof -
  let ?s = "snd (store_register (default_settings ''w'') True True (still 1) ''r'' ''c'' ''t'' ''u'' ''w'' 1 empty_redis)"
  obtain n s' where c: "store_request_cancel True (still 2) ''r'' ''t'' ?s = (Inr n, s')"
    using sample_registered by (simp add: store_request_cancel_def cancel_script_def run_of_def alive_def lives_def new_run_def
        Let_def split_beta)
  have "fst (store_heartbeat (default_settings ''w'') True (still 3) ''r'' ''w'' s') = Inr True"
    using cancellation_reaches_owner [OF c sample_registered(3,2), of 3] by (simp add: lives_def)
  then show ?thesis using c by blast
qed

end
