(* ===== verification/RunLedger.thy ===== *)
theory RunLedger
  imports Wire RunStore "HOL-Library.Product_Lexorder"
begin

text \<open>
  The durable history of agent runs, \<^verbatim>\<open>agent_medusa/execution/durable_run_ledger.py\<close>: the table of
  runs, keyed by the run id, and the table of their transitions. Each method is one transaction; an
  error leaves the tables as they were. \<open>db\<close> says whether the database answers, \<open>uuid5\<close> is the
  name-based UUID of a text in the URL namespace.
\<close>

section \<open>Tables\<close>

record durable_run =
  dr_run :: string
  dr_tenant :: string
  dr_user :: string
  dr_correlation :: string
  dr_request :: string
  dr_session :: "string option"
  dr_policy :: "string option"
  dr_owner :: string
  dr_status :: string
  dr_created :: int
  dr_started :: int
  dr_heartbeat :: int
  dr_updated :: int
  dr_transition_at :: int
  dr_completed :: "int option"
  dr_cancel_at :: "int option"
  dr_reconciled :: "int option"
  dr_audit :: "string option"
  dr_error :: "string option"
  dr_metadata :: "(string, pyval) pydict"

record run_transition =
  rt_run :: string
  rt_tenant :: string
  rt_from :: "string option"
  rt_to :: string
  rt_worker :: "string option"
  rt_source :: string
  rt_at :: int
  rt_audit :: "string option"
  rt_metadata :: "(string, pyval) pydict"

record ledger_tables =
  lt_runs :: "durable_run list"
  lt_transitions :: "run_transition list"

definition empty_tables :: ledger_tables where
  "empty_tables = \<lparr>lt_runs = [], lt_transitions = []\<rparr>"

datatype durable_error = DurableUnavailable | DurableConflict string | DurableTransitionConflict string
  | DurableValue string | DurableName string

definition live_runs :: "string list" where
  "live_runs = [''created'', ''running'', ''cancellation_requested'']"

definition ended_runs :: "string list" where
  "ended_runs = [''completed'', ''failed'', ''cancelled'', ''orphaned'']"

text \<open>\<^verbatim>\<open>_canonical_tenant_id\<close>; \<open>None\<close> is the \<^verbatim>\<open>ValueError\<close> for a missing tenant.\<close>

definition canonical_tenant :: "(string \<Rightarrow> string) \<Rightarrow> string \<Rightarrow> string option" where
  "canonical_tenant uuid5 tenant =
     (let raw = strip tenant
      in if raw = [] then None
         else case py_uuid raw of Some u \<Rightarrow> Some u | None \<Rightarrow> Some (uuid5 (''ai-karen-tenant:'' @ raw)))"

definition no_tenant :: durable_error where
  "no_tenant = DurableValue ''Medusa durable ledger requires tenant_id''"

text \<open>The session of a method: the connection, then the tenant scope.\<close>

definition in_scope ::
    "(string \<Rightarrow> string) \<Rightarrow> bool \<Rightarrow> string \<Rightarrow> (string \<Rightarrow> durable_error + 'a) \<Rightarrow> durable_error + 'a" where
  "in_scope uuid5 db tenant f =
     (case canonical_tenant uuid5 tenant of
        None \<Rightarrow> Inl no_tenant
      | Some t \<Rightarrow> if db then f t else Inl DurableUnavailable)"

definition row_of :: "string \<Rightarrow> string \<Rightarrow> ledger_tables \<Rightarrow> durable_run option" where
  "row_of x t s = find (\<lambda>r. dr_run r = x \<and> dr_tenant r = t) (lt_runs s)"

definition update_row ::
    "string \<Rightarrow> string \<Rightarrow> (durable_run \<Rightarrow> durable_run) \<Rightarrow> ledger_tables \<Rightarrow> ledger_tables" where
  "update_row x t f s = s\<lparr>lt_runs := map (\<lambda>r. if dr_run r = x \<and> dr_tenant r = t then f r else r) (lt_runs s)\<rparr>"

definition append_transition ::
    "string \<Rightarrow> string \<Rightarrow> string option \<Rightarrow> string \<Rightarrow> string option \<Rightarrow> string \<Rightarrow> int \<Rightarrow> string option \<Rightarrow>
     ledger_tables \<Rightarrow> ledger_tables" where
  "append_transition x t from to worker source ts audit s = s\<lparr>lt_transitions := lt_transitions s @
     [\<lparr>rt_run = x, rt_tenant = t, rt_from = from, rt_to = to, rt_worker = worker, rt_source = source, rt_at = ts,
       rt_audit = audit, rt_metadata = []\<rparr>]\<rparr>"

section \<open>Methods\<close>

definition ledger_register ::
    "(string \<Rightarrow> string) \<Rightarrow> bool \<Rightarrow> string \<Rightarrow> string \<Rightarrow> string \<Rightarrow> string option \<Rightarrow> string option \<Rightarrow> string \<Rightarrow> string \<Rightarrow>
     string \<Rightarrow> int \<Rightarrow> ledger_tables \<Rightarrow> durable_error + ledger_tables" where
  "ledger_register uuid5 db x corr req sess pol tenant user w created s =
     in_scope uuid5 db tenant (\<lambda>t.
       if x \<in> dr_run ` set (lt_runs s) then Inl (DurableConflict (''Medusa durable run already exists: '' @ x))
       else Inr (append_transition x t None ''created'' (Some w) ''runtime'' created None
         (s\<lparr>lt_runs := lt_runs s @ [\<lparr>dr_run = x, dr_tenant = t, dr_user = user, dr_correlation = corr,
            dr_request = req, dr_session = sess, dr_policy = pol, dr_owner = w, dr_status = ''created'',
            dr_created = created, dr_started = created, dr_heartbeat = created, dr_updated = created,
            dr_transition_at = created, dr_completed = None, dr_cancel_at = None, dr_reconciled = None,
            dr_audit = None, dr_error = None, dr_metadata = []\<rparr>]\<rparr>)))"

text \<open>
  \<^verbatim>\<open>_owned_transition\<close>. A statement is executed with the parameters \<open>bound\<close>; one that names a
  parameter outside them is refused by SQLAlchemy, which the method reports as unavailable.
\<close>

datatype transition_kind = Start | Terminal

definition bound_params :: "string list" where
  "bound_params = [''run_id'', ''tenant_id'', ''worker_id'', ''to_status'', ''event_at'', ''error_type'']"

fun named_params :: "transition_kind \<Rightarrow> string list" where
  "named_params Start = [''to_status'', ''event_at'', ''run_id'', ''tenant_id'', ''worker_id'']"
| "named_params Terminal = [''to_status'', ''event_at'', ''error_type'', ''outcome_status'', ''run_id'', ''tenant_id'',
     ''worker_id'']"

fun owned_update ::
    "transition_kind \<Rightarrow> string \<Rightarrow> int \<Rightarrow> string option \<Rightarrow> string option \<Rightarrow> durable_run \<Rightarrow> durable_run" where
  "owned_update Start to ts err out r =
     r\<lparr>dr_status := to, dr_started := ts, dr_heartbeat := ts, dr_updated := ts, dr_transition_at := ts\<rparr>"
| "owned_update Terminal to ts err out r =
     r\<lparr>dr_status := to, dr_completed := Some ts, dr_heartbeat := ts, dr_error := err,
       dr_metadata := (case out of None \<Rightarrow> dr_metadata r
                       | Some v \<Rightarrow> dset ''outcome_status'' (PStr v) (dr_metadata r)),
       dr_updated := ts, dr_transition_at := ts\<rparr>"

definition owned_transition ::
    "(string \<Rightarrow> string) \<Rightarrow> bool \<Rightarrow> string \<Rightarrow> string \<Rightarrow> string \<Rightarrow> string list \<Rightarrow> string \<Rightarrow> int \<Rightarrow> transition_kind \<Rightarrow>
     string option \<Rightarrow> string option \<Rightarrow> ledger_tables \<Rightarrow> durable_error + ledger_tables" where
  "owned_transition uuid5 db x tenant w expected to ts kind err out s =
     in_scope uuid5 db tenant (\<lambda>t. case row_of x t s of
         None \<Rightarrow> Inl (DurableConflict (''Unknown Medusa run: '' @ x))
       | Some r \<Rightarrow>
           if dr_owner r \<noteq> w then Inl (DurableConflict (''Medusa durable run owner changed: '' @ x))
           else if dr_status r \<notin> set expected
           then Inl (DurableConflict (''Run '' @ x @ '' cannot transition '' @ dr_status r @ '' -> '' @ to))
           else if \<not> set (named_params kind) \<subseteq> set bound_params then Inl DurableUnavailable
           else Inr (append_transition x t (Some (dr_status r)) to (Some w) ''runtime'' ts None
                  (update_row x t (owned_update kind to ts err out) s)))"

definition mark_running ::
    "(string \<Rightarrow> string) \<Rightarrow> bool \<Rightarrow> string \<Rightarrow> string \<Rightarrow> string \<Rightarrow> int \<Rightarrow> ledger_tables \<Rightarrow> durable_error + ledger_tables" where
  "mark_running uuid5 db x tenant w started s =
     owned_transition uuid5 db x tenant w [''created''] ''running'' started Start None None s"

definition ledger_mark_terminal ::
    "(string \<Rightarrow> string) \<Rightarrow> bool \<Rightarrow> string \<Rightarrow> string \<Rightarrow> string \<Rightarrow> string \<Rightarrow> int \<Rightarrow> string option \<Rightarrow> string option \<Rightarrow>
     ledger_tables \<Rightarrow> durable_error + ledger_tables" where
  "ledger_mark_terminal uuid5 db x tenant w status completed err out s =
     (if status \<notin> set ended_runs
      then Inl (DurableValue (''Invalid durable Medusa terminal status: '' @ status))
      else owned_transition uuid5 db x tenant w live_runs status completed Terminal err out s)"

definition ledger_heartbeat ::
    "(string \<Rightarrow> string) \<Rightarrow> bool \<Rightarrow> string \<Rightarrow> string \<Rightarrow> string \<Rightarrow> int \<Rightarrow> ledger_tables \<Rightarrow> durable_error + ledger_tables" where
  "ledger_heartbeat uuid5 db x tenant w ts s =
     in_scope uuid5 db tenant (\<lambda>t. case row_of x t s of
         None \<Rightarrow> Inl (DurableTransitionConflict x)
       | Some r \<Rightarrow> if dr_owner r = w \<and> dr_status r \<in> set live_runs
                   then Inr (update_row x t (\<lambda>r. r\<lparr>dr_heartbeat := ts\<rparr>) s)
                   else Inl (DurableTransitionConflict x))"

text \<open>\<^verbatim>\<open>COALESCE(a, b)\<close>\<close>

definition coalesce :: "'a option \<Rightarrow> 'a option \<Rightarrow> 'a option" where
  "coalesce a b = (case a of None \<Rightarrow> b | Some v \<Rightarrow> Some v)"

definition mark_cancelling ::
    "(string \<Rightarrow> string) \<Rightarrow> bool \<Rightarrow> string \<Rightarrow> string \<Rightarrow> int \<Rightarrow> string option \<Rightarrow> string \<Rightarrow> ledger_tables \<Rightarrow>
     durable_error + ledger_tables" where
  "mark_cancelling uuid5 db x tenant ts audit source s =
     (if source \<notin> {''runtime'', ''admin_cancel'', ''redis_reconciliation''}
      then Inl (DurableValue (''Unsupported Medusa transition source: '' @ source))
      else in_scope uuid5 db tenant (\<lambda>t. case row_of x t s of
         None \<Rightarrow> Inl (DurableConflict (''Unknown Medusa run: '' @ x))
       | Some r \<Rightarrow>
           if dr_status r = ''cancellation_requested''
           then Inr (if audit \<noteq> None \<and> audit \<noteq> Some []
                     then update_row x t (\<lambda>r. r\<lparr>dr_audit := coalesce (dr_audit r) audit\<rparr>) s else s)
           else if dr_status r \<noteq> ''running''
           then Inl (DurableConflict (''Run '' @ x @ '' is '' @ dr_status r @ '', not cancellable''))
           else Inr (append_transition x t (Some (dr_status r)) ''cancellation_requested'' (or_none (dr_owner r)) source
                  ts audit
                  (update_row x t (\<lambda>r. r\<lparr>dr_status := ''cancellation_requested'',
                     dr_cancel_at := coalesce (dr_cancel_at r) (Some ts), dr_updated := ts,
                     dr_audit := coalesce audit (dr_audit r), dr_transition_at := ts\<rparr>) s))))"

text \<open>\<open>clk\<close> is \<^verbatim>\<open>now()\<close> of the database.\<close>

definition ledger_set_outcome ::
    "(string \<Rightarrow> string) \<Rightarrow> bool \<Rightarrow> int \<Rightarrow> string \<Rightarrow> string \<Rightarrow> string \<Rightarrow> ledger_tables \<Rightarrow> durable_error + ledger_tables" where
  "ledger_set_outcome uuid5 db clk x tenant outcome s =
     (let normalized = lower (strip outcome)
      in if normalized \<notin> set outcome_statuses
         then Inl (DurableValue (''Invalid Medusa outcome status: '' @ outcome))
         else in_scope uuid5 db tenant (\<lambda>t. case row_of x t s of
             None \<Rightarrow> Inl (DurableTransitionConflict x)
           | Some r \<Rightarrow> Inr (update_row x t (\<lambda>r. r\<lparr>dr_metadata := dset ''outcome_status'' (PStr normalized) (dr_metadata r),
                  dr_updated := max (dr_updated r) clk\<rparr>) s)))"

definition link_audit_event ::
    "(string \<Rightarrow> string) \<Rightarrow> bool \<Rightarrow> string \<Rightarrow> string \<Rightarrow> string \<Rightarrow> ledger_tables \<Rightarrow> durable_error + ledger_tables" where
  "link_audit_event uuid5 db x tenant audit s =
     in_scope uuid5 db tenant (\<lambda>t. Inr (update_row x t (\<lambda>r. r\<lparr>dr_audit := coalesce (dr_audit r) (Some audit)\<rparr>) s))"

text \<open>
  \<^verbatim>\<open>reconcile_from_shared\<close>: the parameters of the repair name the variable \<open>outcome_status\<close>, which
  the method does not have, so every repair that is due raises \<^verbatim>\<open>NameError\<close> before its statements.
\<close>

definition reconcile_from_shared ::
    "(string \<Rightarrow> string) \<Rightarrow> bool \<Rightarrow> string \<Rightarrow> string \<Rightarrow> string \<Rightarrow> ledger_tables \<Rightarrow> durable_error + bool \<times> ledger_tables" where
  "reconcile_from_shared uuid5 db x tenant status s =
     (let normalized = (if status = ''cancelling'' then ''cancellation_requested'' else status)
      in if normalized \<noteq> ''cancellation_requested'' \<and> normalized \<notin> set ended_runs
         then Inl (DurableValue (''Unsupported shared Medusa status: '' @ status))
         else in_scope uuid5 db tenant (\<lambda>t. case row_of x t s of
             None \<Rightarrow> Inr (False, s)
           | Some r \<Rightarrow>
               if dr_status r \<notin> set live_runs \<or> dr_status r = normalized then Inr (False, s)
               else Inl (DurableName ''outcome_status'')))"

section \<open>Reads\<close>

record durable_snapshot =
  ds_run :: string
  ds_correlation :: string
  ds_request :: string
  ds_session :: "string option"
  ds_policy :: "string option"
  ds_tenant :: string
  ds_user :: string
  ds_owner :: string
  ds_status :: string
  ds_error :: "string option"
  ds_outcome :: pyval
  ds_audit :: "string option"
  ds_created :: int
  ds_started :: int
  ds_heartbeat :: int
  ds_completed :: "int option"
  ds_cancel_at :: "int option"
  ds_reconciled :: "int option"

definition durable_snapshot_of :: "durable_run \<Rightarrow> durable_snapshot" where
  "durable_snapshot_of r = \<lparr>ds_run = dr_run r, ds_correlation = dr_correlation r,
     ds_request = (if dr_request r = [] then dr_run r else dr_request r), ds_session = dr_session r,
     ds_policy = dr_policy r, ds_tenant = dr_tenant r, ds_user = dr_user r, ds_owner = dr_owner r,
     ds_status = dr_status r, ds_error = dr_error r, ds_outcome = vget (dr_metadata r) ''outcome_status'' PNone,
     ds_audit = dr_audit r, ds_created = dr_created r, ds_started = dr_started r, ds_heartbeat = dr_heartbeat r,
     ds_completed = dr_completed r, ds_cancel_at = dr_cancel_at r, ds_reconciled = dr_reconciled r\<rparr>"

definition ledger_get ::
    "(string \<Rightarrow> string) \<Rightarrow> bool \<Rightarrow> string \<Rightarrow> string \<Rightarrow> ledger_tables \<Rightarrow> durable_error + durable_snapshot option" where
  "ledger_get uuid5 db x tenant s =
     in_scope uuid5 db tenant (\<lambda>t. Inr (map_option durable_snapshot_of (row_of x t s)))"

definition safe_limit :: "int \<Rightarrow> nat" where
  "safe_limit n = nat (max 1 (min n 1000))"

definition ledger_list_runs ::
    "(string \<Rightarrow> string) \<Rightarrow> bool \<Rightarrow> string \<Rightarrow> bool \<Rightarrow> int \<Rightarrow> string option \<Rightarrow> ledger_tables \<Rightarrow>
     durable_error + durable_snapshot list" where
  "ledger_list_runs uuid5 db tenant include_terminal n user s =
     in_scope uuid5 db tenant (\<lambda>t. Inr (map durable_snapshot_of (take (safe_limit n) (sort_by_desc dr_started
       (filter (\<lambda>r. dr_tenant r = t \<and> (include_terminal \<or> dr_status r \<in> set (live_runs @ [''orphaned'']))
          \<and> (case user of None \<Rightarrow> True | Some u \<Rightarrow> dr_user r = u)) (lt_runs s))))))"

definition list_reconcilable ::
    "(string \<Rightarrow> string) \<Rightarrow> bool \<Rightarrow> string \<Rightarrow> int \<Rightarrow> ledger_tables \<Rightarrow> durable_error + durable_snapshot list" where
  "list_reconcilable uuid5 db tenant n s =
     in_scope uuid5 db tenant (\<lambda>t. Inr (map durable_snapshot_of (take (safe_limit n) (sort_by (\<lambda>r. (dr_updated r, dr_run r))
       (filter (\<lambda>r. dr_tenant r = t \<and> dr_status r \<in> set live_runs) (lt_runs s))))))"

section \<open>Runs of the ledger\<close>

datatype ledger_call =
    LcRegister bool string string string "string option" "string option" string string string int
  | LcRunning bool string string string int
  | LcHeartbeat bool string string string int
  | LcCancelling bool string string int "string option" string
  | LcTerminal bool string string string string int "string option" "string option"
  | LcOutcome bool int string string string
  | LcAudit bool string string string
  | LcReconcile bool string string string

definition keeps :: "ledger_tables \<Rightarrow> durable_error + ledger_tables \<Rightarrow> ledger_tables" where
  "keeps s r = (case r of Inl _ \<Rightarrow> s | Inr s' \<Rightarrow> s')"

fun ledger_call_step :: "(string \<Rightarrow> string) \<Rightarrow> ledger_call \<Rightarrow> ledger_tables \<Rightarrow> ledger_tables" where
  "ledger_call_step u (LcRegister db x corr req sess pol tenant user w created) s =
     keeps s (ledger_register u db x corr req sess pol tenant user w created s)"
| "ledger_call_step u (LcRunning db x tenant w started) s = keeps s (mark_running u db x tenant w started s)"
| "ledger_call_step u (LcHeartbeat db x tenant w ts) s = keeps s (ledger_heartbeat u db x tenant w ts s)"
| "ledger_call_step u (LcCancelling db x tenant ts audit source) s = keeps s (mark_cancelling u db x tenant ts audit source s)"
| "ledger_call_step u (LcTerminal db x tenant w status completed err out) s =
     keeps s (ledger_mark_terminal u db x tenant w status completed err out s)"
| "ledger_call_step u (LcOutcome db clk x tenant outcome) s = keeps s (ledger_set_outcome u db clk x tenant outcome s)"
| "ledger_call_step u (LcAudit db x tenant audit) s = keeps s (link_audit_event u db x tenant audit s)"
| "ledger_call_step u (LcReconcile db x tenant status) s =
     (case reconcile_from_shared u db x tenant status s of Inl _ \<Rightarrow> s | Inr (_, s') \<Rightarrow> s')"

fun ledger_calls :: "(string \<Rightarrow> string) \<Rightarrow> ledger_call list \<Rightarrow> ledger_tables \<Rightarrow> ledger_tables" where
  "ledger_calls u [] s = s"
| "ledger_calls u (c # cs) s = ledger_calls u cs (ledger_call_step u c s)"

text \<open>The moves a run made, and the ones its status stands for.\<close>

definition moves_of :: "string \<Rightarrow> ledger_tables \<Rightarrow> (string option \<times> string) list" where
  "moves_of x s = map (\<lambda>t. (rt_from t, rt_to t)) (filter (\<lambda>t. rt_run t = x) (lt_transitions s))"

fun path_to :: "string list \<Rightarrow> (string option \<times> string) list" where
  "path_to [] = []"
| "path_to [a] = [(None, a)]"
| "path_to (b # a # as) = path_to (a # as) @ [(Some a, b)]"

definition moves_for :: "string \<Rightarrow> (string option \<times> string) list" where
  "moves_for st =
     (if st = ''created'' then path_to [''created'']
      else if st = ''running'' then path_to [''running'', ''created'']
      else path_to [''cancellation_requested'', ''running'', ''created''])"

definition row_ok :: "ledger_tables \<Rightarrow> durable_run \<Rightarrow> bool" where
  "row_ok s r \<longleftrightarrow> dr_status r \<in> set live_runs \<and> dr_completed r = None \<and> moves_of (dr_run r) s = moves_for (dr_status r)
     \<and> (dr_status r = ''cancellation_requested'' \<longleftrightarrow> dr_cancel_at r \<noteq> None)"

definition tables_ok :: "ledger_tables \<Rightarrow> bool" where
  "tables_ok s \<longleftrightarrow> distinct (map dr_run (lt_runs s)) \<and> (\<forall>r \<in> set (lt_runs s). row_ok s r)
     \<and> (\<forall>t \<in> set (lt_transitions s). rt_run t \<in> dr_run ` set (lt_runs s))"

lemma row_of_Some: "row_of x t s = Some r \<Longrightarrow> r \<in> set (lt_runs s) \<and> dr_run r = x \<and> dr_tenant r = t"
  by (auto simp: row_of_def find_Some_iff)

text \<open>A rewrite of rows that leaves what the invariant reads.\<close>

lemma update_row_ok:
  assumes "tables_ok s"
    and "\<And>r. dr_run (f r) = dr_run r" "\<And>r. dr_status (f r) = dr_status r" "\<And>r. dr_completed (f r) = dr_completed r"
      "\<And>r. dr_cancel_at (f r) = dr_cancel_at r"
  shows "tables_ok (update_row x t f s)"
proof -
  let ?s = "update_row x t f s"
  have ids: "map dr_run (lt_runs ?s) = map dr_run (lt_runs s)" using assms(2) by (simp add: update_row_def)
  then have idset: "dr_run ` set (lt_runs ?s) = dr_run ` set (lt_runs s)" by (metis set_map)
  have keep: "row_ok ?s (f r) \<and> row_ok ?s r" if "row_ok s r" for r
    using that assms(2-5) by (simp add: row_ok_def moves_of_def update_row_def)
  have "row_ok ?s q" if q: "q \<in> set (lt_runs ?s)" for q
  proof -
    from q obtain r where "r \<in> set (lt_runs s)" "q = f r \<or> q = r" by (auto simp: update_row_def)
    then show ?thesis using keep [of r] assms(1) by (auto simp: tables_ok_def)
  qed
  moreover have "lt_transitions ?s = lt_transitions s" by (simp add: update_row_def)
  ultimately show ?thesis using assms(1) ids idset unfolding tables_ok_def by simp
qed

text \<open>A transition: the row moves on, and the move is recorded.\<close>

lemma move_ok:
  assumes ok: "tables_ok s" and r: "row_of x t s = Some r" and f: "dr_run (f r) = x" "dr_status (f r) = to"
    "dr_completed (f r) = None" "to = ''cancellation_requested'' \<longleftrightarrow> dr_cancel_at (f r) \<noteq> None" "to \<in> set live_runs"
    and m: "moves_for to = moves_for (dr_status r) @ [(Some (dr_status r), to)]"
  shows "tables_ok (append_transition x t (Some (dr_status r)) to w source ts audit (update_row x t f s))" (is "tables_ok ?s")
proof -
  have rin: "r \<in> set (lt_runs s)" "dr_run r = x" "dr_tenant r = t" using row_of_Some [OF r] by auto
  have "inj_on dr_run (set (lt_runs s))" using ok by (simp add: tables_ok_def distinct_map)
  then have only: "q = r" if "q \<in> set (lt_runs s)" "dr_run q = x" for q
    using that inj_onD [of dr_run "set (lt_runs s)" q r] rin(1,2) by simp
  then have "(dr_run q = x \<and> dr_tenant q = t) = (q = r)" if "q \<in> set (lt_runs s)" for q using that rin by blast
  then have runs: "lt_runs ?s = map (\<lambda>q. if q = r then f q else q) (lt_runs s)"
    by (simp add: append_transition_def update_row_def cong: map_cong)
  have ids: "map dr_run (lt_runs ?s) = map dr_run (lt_runs s)" using f(1) rin(2) by (simp add: runs)
  then have idset: "dr_run ` set (lt_runs ?s) = dr_run ` set (lt_runs s)" by (metis set_map)
  have mv: "moves_of x ?s = moves_of x s @ [(Some (dr_status r), to)]" "\<And>y. y \<noteq> x \<Longrightarrow> moves_of y ?s = moves_of y s"
    by (simp_all add: moves_of_def append_transition_def update_row_def)
  have rok: "row_ok s q" if "q \<in> set (lt_runs s)" for q using ok that by (simp add: tables_ok_def)
  have "row_ok ?s (f r)" using rok [OF rin(1)] f m rin(2) mv(1) by (simp add: row_ok_def)
  moreover have "row_ok ?s q" if "q \<in> set (lt_runs s)" "q \<noteq> r" for q
  proof -
    have "dr_run q \<noteq> x" using only [OF that(1)] that(2) by blast
    then show ?thesis using rok [OF that(1)] mv(2) [of "dr_run q"] by (simp add: row_ok_def)
  qed
  ultimately have "\<forall>q \<in> set (lt_runs ?s). row_ok ?s q" by (auto simp: runs)
  moreover have "\<forall>q \<in> set (lt_transitions ?s). rt_run q \<in> dr_run ` set (lt_runs s)"
    using ok rin by (auto simp: append_transition_def update_row_def tables_ok_def)
  ultimately show ?thesis using ok ids idset unfolding tables_ok_def by simp
qed

lemma in_scope_Inr: "in_scope u db tenant f = Inr s' \<Longrightarrow> \<exists>t. canonical_tenant u tenant = Some t \<and> db \<and> f t = Inr s'"
  by (auto simp: in_scope_def split: option.splits if_splits)

lemma terminal_unbound: "set (named_params Terminal) \<subseteq> set bound_params \<longleftrightarrow> False"
    and start_bound: "set (named_params Start) \<subseteq> set bound_params"
  by (simp_all add: bound_params_def)

lemma mark_terminal_fails: "\<exists>e. ledger_mark_terminal u db x tenant w status completed err out s = Inl e"
proof (cases "ledger_mark_terminal u db x tenant w status completed err out s")
  case (Inr s')
  then show ?thesis
    by (auto simp: ledger_mark_terminal_def owned_transition_def terminal_unbound simp del: named_params.simps
        dest!: in_scope_Inr split: if_splits option.splits)
qed simp

lemma register_tables_ok:
  assumes ok: "tables_ok s" and r: "ledger_register u db x corr req sess pol tenant user w created s = Inr s'"
  shows "tables_ok s'"
proof -
  obtain t where x: "x \<notin> dr_run ` set (lt_runs s)" and s': "s' = append_transition x t None ''created'' (Some w) ''runtime'' created None
         (s\<lparr>lt_runs := lt_runs s @ [\<lparr>dr_run = x, dr_tenant = t, dr_user = user, dr_correlation = corr,
            dr_request = req, dr_session = sess, dr_policy = pol, dr_owner = w, dr_status = ''created'',
            dr_created = created, dr_started = created, dr_heartbeat = created, dr_updated = created,
            dr_transition_at = created, dr_completed = None, dr_cancel_at = None, dr_reconciled = None,
            dr_audit = None, dr_error = None, dr_metadata = []\<rparr>]\<rparr>)"
    using in_scope_Inr [OF r [unfolded ledger_register_def]] by (auto split: if_splits)
  have "filter (\<lambda>t. rt_run t = x) (lt_transitions s) = []" using ok x by (auto simp: tables_ok_def filter_empty_conv)
  then have new: "moves_of x s' = [(None, ''created'')]"
    by (simp add: s' moves_of_def append_transition_def)
  have old: "moves_of y s' = moves_of y s" if "y \<noteq> x" for y
    using that by (simp add: s' moves_of_def append_transition_def)
  have "row_ok s' r" if "r \<in> set (lt_runs s)" for r
  proof -
    have "dr_run r \<noteq> x" using x that by blast
    then show ?thesis using ok that old [of "dr_run r"] by (simp add: tables_ok_def row_ok_def)
  qed
  then show ?thesis using ok x new unfolding tables_ok_def
    by (simp add: s' append_transition_def) (auto simp: row_ok_def moves_for_def live_runs_def)
qed

lemma row_of_ok: "tables_ok s \<Longrightarrow> row_of x t s = Some r \<Longrightarrow> row_ok s r \<and> dr_run r = x"
  using row_of_Some [of x t s r] by (simp add: tables_ok_def)

lemma owned_shape:
  assumes "owned_transition u db x tenant w expected to ts kind err out s = Inr s'"
  obtains t r where "row_of x t s = Some r" "dr_status r \<in> set expected" "set (named_params kind) \<subseteq> set bound_params"
    "s' = append_transition x t (Some (dr_status r)) to (Some w) ''runtime'' ts None (update_row x t (owned_update kind to ts err out) s)"
  using assms unfolding owned_transition_def by (auto dest!: in_scope_Inr split: if_splits option.splits)

lemma mark_running_ok:
  assumes ok: "tables_ok s" and m: "mark_running u db x tenant w started s = Inr s'"
  shows "tables_ok s'"
proof (rule owned_shape [OF m [unfolded mark_running_def]])
  fix t r
  assume r: "row_of x t s = Some r" "dr_status r \<in> set [''created'']"
    and s': "s' = append_transition x t (Some (dr_status r)) ''running'' (Some w) ''runtime'' started None
      (update_row x t (owned_update Start ''running'' started None None) s)"
  have rok: "row_ok s r" "dr_run r = x" using row_of_ok [OF ok r(1)] by auto
  show ?thesis unfolding s'
    by (rule move_ok [OF ok r(1)]) (use rok r(2) in \<open>auto simp: row_ok_def moves_for_def live_runs_def\<close>)
qed

lemma mark_cancelling_ok:
  assumes ok: "tables_ok s" and m: "mark_cancelling u db x tenant ts audit source s = Inr s'"
  shows "tables_ok s'"
proof -
  obtain t where m': "(case row_of x t s of
         None \<Rightarrow> Inl (DurableConflict (''Unknown Medusa run: '' @ x))
       | Some r \<Rightarrow>
           if dr_status r = ''cancellation_requested''
           then Inr (if audit \<noteq> None \<and> audit \<noteq> Some []
                     then update_row x t (\<lambda>r. r\<lparr>dr_audit := coalesce (dr_audit r) audit\<rparr>) s else s)
           else if dr_status r \<noteq> ''running''
           then Inl (DurableConflict (''Run '' @ x @ '' is '' @ dr_status r @ '', not cancellable''))
           else Inr (append_transition x t (Some (dr_status r)) ''cancellation_requested'' (or_none (dr_owner r)) source
                  ts audit
                  (update_row x t (\<lambda>r. r\<lparr>dr_status := ''cancellation_requested'',
                     dr_cancel_at := coalesce (dr_cancel_at r) (Some ts), dr_updated := ts,
                     dr_audit := coalesce audit (dr_audit r), dr_transition_at := ts\<rparr>) s))) = Inr s'"
    using m unfolding mark_cancelling_def by (auto dest!: in_scope_Inr split: if_splits)
  then obtain r where r: "row_of x t s = Some r" by (auto split: option.splits)
  have rok: "row_ok s r" "dr_run r = x" using row_of_ok [OF ok r] by auto
  show ?thesis
  proof (cases "dr_status r = ''cancellation_requested''")
    case True
    then have "s' = s \<or> s' = update_row x t (\<lambda>r. r\<lparr>dr_audit := coalesce (dr_audit r) audit\<rparr>) s"
      using m' r by (auto split: if_splits)
    then show ?thesis using ok update_row_ok [OF ok, of "\<lambda>r. r\<lparr>dr_audit := coalesce (dr_audit r) audit\<rparr>" x t] by auto
  next
    case False
    then have st: "dr_status r = ''running''" and s': "s' = append_transition x t (Some (dr_status r)) ''cancellation_requested''
        (or_none (dr_owner r)) source ts audit
                  (update_row x t (\<lambda>r. r\<lparr>dr_status := ''cancellation_requested'',
                     dr_cancel_at := coalesce (dr_cancel_at r) (Some ts), dr_updated := ts,
                     dr_audit := coalesce audit (dr_audit r), dr_transition_at := ts\<rparr>) s)"
      using m' r by (auto split: if_splits)
    have c: "dr_cancel_at r = None" "dr_completed r = None" using rok(1) st by (auto simp: row_ok_def)
    show ?thesis unfolding s'
      by (rule move_ok [OF ok r]) (simp_all add: st c rok(2) coalesce_def moves_for_def live_runs_def)
  qed
qed

lemma annotate_ok: "tables_ok s \<Longrightarrow> ledger_heartbeat u db x tenant w ts s = Inr s' \<Longrightarrow> tables_ok s'"
    "tables_ok s \<Longrightarrow> ledger_set_outcome u db clk x tenant outcome s = Inr s' \<Longrightarrow> tables_ok s'"
    "tables_ok s \<Longrightarrow> link_audit_event u db x tenant audit s = Inr s' \<Longrightarrow> tables_ok s'"
  by (auto simp: ledger_heartbeat_def ledger_set_outcome_def link_audit_event_def Let_def
      dest!: in_scope_Inr intro!: update_row_ok split: if_splits option.splits)

lemma reconcile_keeps: "reconcile_from_shared u db x tenant status s = Inr (b, s') \<Longrightarrow> s' = s \<and> \<not> b"
  by (auto simp: reconcile_from_shared_def Let_def dest!: in_scope_Inr split: if_splits option.splits)

lemma keeps_ok: "tables_ok s \<Longrightarrow> (\<And>s'. r = Inr s' \<Longrightarrow> tables_ok s') \<Longrightarrow> tables_ok (keeps s r)"
  by (simp add: keeps_def split: sum.split)

lemma ledger_call_ok: "tables_ok s \<Longrightarrow> tables_ok (ledger_call_step u c s)"
proof (cases c)
  case (LcTerminal db x tenant w status completed err out)
  then show "tables_ok s \<Longrightarrow> ?thesis"
    using mark_terminal_fails [of u db x tenant w status completed err out s] by (auto simp: keeps_def)
next
  case (LcReconcile db x tenant status)
  then show "tables_ok s \<Longrightarrow> ?thesis"
    using reconcile_keeps [of u db x tenant status s] by (auto split: sum.split)
qed (auto intro!: keeps_ok intro: register_tables_ok mark_running_ok mark_cancelling_ok annotate_ok)

interpretation durable_ledger: invariant_machine "ledger_call_step u" tables_ok for u
  by unfold_locales (rule ledger_call_ok)

lemma ledger_calls_eq: "ledger_calls u cs s = durable_ledger.run u cs s"
  by (induction cs arbitrary: s) simp_all

lemma empty_tables_ok: "tables_ok empty_tables"
  by (simp add: tables_ok_def empty_tables_def)

lemma ledger_reachable_ok: "tables_ok (ledger_calls u cs empty_tables)"
  unfolding ledger_calls_eq by (rule durable_ledger.inv_run [OF empty_tables_ok])

section \<open>Properties\<close>

text \<open>
  C23: The history of every run is complete on every reachable ledger: its recorded transitions are
  exactly the path from its creation to its status, each starting where the previous one ended, and
  a cancellation time is stored exactly when the cancellation was requested.
\<close>

theorem durable_history_complete:
  "\<forall>r \<in> set (lt_runs (ledger_calls u cs empty_tables)).
     moves_of (dr_run r) (ledger_calls u cs empty_tables) = moves_for (dr_status r)
     \<and> (dr_status r = ''cancellation_requested'') = (dr_cancel_at r \<noteq> None)"
  using ledger_reachable_ok [of u cs] unfolding tables_ok_def by (auto simp: row_ok_def)

text \<open>
  The ledger never records the end of a run: the terminal transition names a parameter that is not
  bound and is refused for every run, a repair from the shared store raises or changes nothing, and
  so every run of every reachable ledger is still created, running or cancelling, without a
  completion time.
\<close>

theorem durable_runs_never_end:
  "(\<exists>e. ledger_mark_terminal u db x tenant w status completed err out s = Inl e)
   \<and> (case reconcile_from_shared u db x tenant shared s of Inl e \<Rightarrow> True | Inr (b, s') \<Rightarrow> \<not> b \<and> s' = s)
   \<and> (\<forall>r \<in> set (lt_runs (ledger_calls u cs empty_tables)). dr_status r \<in> set live_runs \<and> dr_completed r = None)"
proof (intro conjI)
  show "case reconcile_from_shared u db x tenant shared s of Inl e \<Rightarrow> True | Inr (b, s') \<Rightarrow> \<not> b \<and> s' = s"
    using reconcile_keeps [of u db x tenant shared s] by (auto split: sum.split)
  show "\<forall>r \<in> set (lt_runs (ledger_calls u cs empty_tables)). dr_status r \<in> set live_runs \<and> dr_completed r = None"
    using ledger_reachable_ok [of u cs] unfolding tables_ok_def by (auto simp: row_ok_def)
qed (rule mark_terminal_fails)

lemma sample_tenant: "canonical_tenant id ''t'' = Some ''ai-karen-tenant:t''"
  by code_simp

definition sample_calls :: "ledger_call list" where
  "sample_calls = [LcRegister True ''r'' ''c'' ''q'' None None ''t'' ''u'' ''w'' 1, LcRunning True ''r'' ''t'' ''w'' 2]"

lemma sample_ledger: "map (\<lambda>r. (dr_run r, dr_status r)) (lt_runs (ledger_calls id sample_calls empty_tables)) = [(''r'', ''running'')]"
  by (simp add: sample_calls_def ledger_register_def mark_running_def owned_transition_def in_scope_def sample_tenant empty_tables_def
      row_of_def append_transition_def update_row_def keeps_def bound_params_def)

lemma sample_ledger_row: "\<exists>r \<in> set (lt_runs (ledger_calls id sample_calls empty_tables)). dr_run r = ''r'' \<and> dr_status r = ''running''"
proof -
  have "(''r'', ''running'') \<in> set (map (\<lambda>r. (dr_run r, dr_status r)) (lt_runs (ledger_calls id sample_calls empty_tables)))"
    unfolding sample_ledger by simp
  then show ?thesis by auto
qed

theorem durable_history_complete_witness:
  "moves_of ''r'' (ledger_calls id sample_calls empty_tables) = [(None, ''created''), (Some ''created'', ''running'')]"
  using durable_history_complete [of id sample_calls] sample_ledger_row by (auto simp: moves_for_def)

theorem durable_runs_never_end_witness:
  "\<exists>r \<in> set (lt_runs (ledger_calls id sample_calls empty_tables)). dr_run r = ''r'' \<and> dr_completed r = None"
proof -
  have "\<forall>r \<in> set (lt_runs (ledger_calls id sample_calls empty_tables)). dr_completed r = None"
    using durable_runs_never_end [of id True "''r''" "''t''" "''w''" "''completed''" 3 None None empty_tables "''completed''" sample_calls]
    by blast
  then show ?thesis using sample_ledger_row by blast
qed

end
