(* ===== verification/RunManager.thy ===== *)
theory RunManager
  imports RunLedger
begin

text \<open>
  The execution authority of a worker, \<^verbatim>\<open>agent_medusa/execution/run_manager.py\<close>, over the shared
  store and the durable ledger. A run object is a cell of a heap, so that \<^verbatim>\<open>is\<close> compares cells and
  an object outlives its entry in the registry. The blocks the code runs under its lock are
  definitions of their own, since other tasks run between them. \<open>io_calls\<close> and \<open>io_calls2\<close> are the
  moments of the first and the second call of the shared store, \<open>io_rows x\<close> those of the read of the
  run \<open>x\<close> by the reconciliation. \<open>io_check\<close> is the answer of
  \<open>_distributed_available\<close>; the other flags tell whether the store and the database answer the calls
  of an operation.
\<close>

section \<open>State\<close>

datatype run_state = Running | Cancelling | Completed | Failed | Cancelled

fun run_state_value :: "run_state \<Rightarrow> string" where
  "run_state_value Running = ''running''"
| "run_state_value Cancelling = ''cancelling''"
| "run_state_value Completed = ''completed''"
| "run_state_value Failed = ''failed''"
| "run_state_value Cancelled = ''cancelled''"

definition active_state :: "run_state \<Rightarrow> bool" where
  "active_state a \<longleftrightarrow> a = Running \<or> a = Cancelling"

record local_run =
  lr_run :: string
  lr_correlation :: string
  lr_request :: string
  lr_session :: "string option"
  lr_policy :: "string option"
  lr_tenant :: string
  lr_user :: string
  lr_status :: run_state
  lr_started :: int
  lr_completed :: "int option"
  lr_error :: "string option"
  lr_outcome :: "string option"
  lr_shared :: bool
  lr_durable :: bool
  lr_heartbeat :: bool

record medusa =
  mg_heap :: "local_run list"
  mg_runs :: "(string, nat) pydict"
  mg_order :: "string list"
  mg_stopped :: "nat list"
  mg_redis :: redis
  mg_tables :: ledger_tables

definition new_manager :: "redis \<Rightarrow> ledger_tables \<Rightarrow> medusa" where
  "new_manager rd lt = \<lparr>mg_heap = [], mg_runs = [], mg_order = [], mg_stopped = [], mg_redis = rd, mg_tables = lt\<rparr>"

datatype manager_error = ManagerRuntime string | ManagerValue string | RunNotFound string | RunTenantMismatch string
  | RunNotCancellable string | FromStore store_error | FromLedger durable_error

record call_io =
  io_now :: int
  io_calls :: moments
  io_calls2 :: moments
  io_rows :: "string \<Rightarrow> moments"
  io_check :: bool
  io_store :: bool
  io_store2 :: bool
  io_pipe :: bool
  io_db :: bool

record worker =
  wk_settings :: run_settings
  wk_retention :: int
  wk_uuid5 :: "string \<Rightarrow> string"

definition retention :: "worker \<Rightarrow> nat" where
  "retention wk = nat (max 1 (wk_retention wk))"

definition cell :: "nat \<Rightarrow> medusa \<Rightarrow> local_run" where
  "cell i m = mg_heap m ! i"

definition set_cell :: "nat \<Rightarrow> (local_run \<Rightarrow> local_run) \<Rightarrow> medusa \<Rightarrow> medusa" where
  "set_cell i f m = m\<lparr>mg_heap := (mg_heap m)[i := f (mg_heap m ! i)]\<rparr>"

section \<open>The blocks under the lock\<close>

text \<open>\<^verbatim>\<open>register\<close>: the new object, or the complaint that the run is active.\<close>

definition begin_run ::
    "int \<Rightarrow> string \<Rightarrow> string \<Rightarrow> string \<Rightarrow> string \<Rightarrow> string option \<Rightarrow> string option \<Rightarrow> string option \<Rightarrow> medusa \<Rightarrow>
     (manager_error + nat) \<times> medusa" where
  "begin_run now x corr tenant user req sess pol m =
     (let fresh = \<lparr>lr_run = x, lr_correlation = corr,
            lr_request = (case req of None \<Rightarrow> x | Some q \<Rightarrow> if q = [] then x else q), lr_session = sess, lr_policy = pol,
            lr_tenant = tenant, lr_user = user, lr_status = Running, lr_started = now, lr_completed = None,
            lr_error = None, lr_outcome = None, lr_shared = False, lr_durable = False, lr_heartbeat = False\<rparr>;
          i = length (mg_heap m);
          put = m\<lparr>mg_heap := mg_heap m @ [fresh], mg_runs := dset x i (mg_runs m)\<rparr>
      in case dget (mg_runs m) x of
           Some j \<Rightarrow> if active_state (lr_status (cell j m))
                     then (Inl (ManagerRuntime (''Medusa run already active: '' @ x)), m) else (Inr i, put)
         | None \<Rightarrow> (Inr i, put))"

text \<open>The object leaves the registry if it is still the one registered.\<close>

definition pop_run :: "nat \<Rightarrow> medusa \<Rightarrow> medusa" where
  "pop_run i m = (let x = lr_run (cell i m)
     in if dget (mg_runs m) x = Some i then m\<lparr>mg_runs := ddel x (mg_runs m)\<rparr> else m)"

definition ended_at :: "string \<Rightarrow> medusa \<Rightarrow> bool" where
  "ended_at x m \<longleftrightarrow> (case dget (mg_runs m) x of None \<Rightarrow> False | Some i \<Rightarrow> \<not> active_state (lr_status (cell i m)))"

definition prune :: "worker \<Rightarrow> medusa \<Rightarrow> medusa" where
  "prune wk m =
     (let excess = length (mg_order m) - retention wk
      in if excess = 0 then m
         else m\<lparr>mg_runs := filter (\<lambda>(x, i). \<not> (x \<in> set (take excess (mg_order m)) \<and> ended_at x m)) (mg_runs m),
                mg_order := drop excess (mg_order m)\<rparr>)"

text \<open>
  \<^verbatim>\<open>_mark_terminal\<close>: the object and what became of the request; \<open>None\<close> when there is nothing to do.
\<close>

definition end_local ::
    "worker \<Rightarrow> int \<Rightarrow> string \<Rightarrow> run_state \<Rightarrow> string option \<Rightarrow> string option \<Rightarrow> medusa \<Rightarrow>
     (nat \<times> run_state \<times> string option \<times> string option) option \<times> medusa" where
  "end_local wk now x st err out m =
     (case dget (mg_runs m) x of
        None \<Rightarrow> (None, m)
      | Some i \<Rightarrow>
          let cancelling = lr_status (cell i m) = Cancelling;
              st' = (if cancelling then Cancelled else st);
              err' = (if cancelling then None else err);
              out' = (if cancelling then Some ''cancelled'' else out)
          in if \<not> active_state (lr_status (cell i m)) then (None, m)
             else let m1 = set_cell i (\<lambda>r. r\<lparr>lr_status := st', lr_completed := Some now, lr_error := err',
                             lr_outcome := out', lr_heartbeat := False\<rparr>) m;
                      m2 = (if x \<in> set (mg_order m1) then m1 else m1\<lparr>mg_order := mg_order m1 @ [x]\<rparr>)
                  in (Some (i, st', err', out'), prune wk m2))"

definition cancel_local :: "string \<Rightarrow> string \<Rightarrow> medusa \<Rightarrow> (manager_error + nat option) \<times> medusa" where
  "cancel_local x tenant m =
     (case dget (mg_runs m) x of
        None \<Rightarrow> (Inr None, m)
      | Some i \<Rightarrow>
          if lr_tenant (cell i m) \<noteq> tenant then (Inl (RunTenantMismatch x), m)
          else if lr_status (cell i m) \<noteq> Running
          then (Inl (RunNotCancellable (''Run '' @ x @ '' is '' @ run_state_value (lr_status (cell i m))
                  @ '', not cancellable'')), m)
          else (Inr (Some i), set_cell i (\<lambda>r. r\<lparr>lr_status := Cancelling\<rparr>) m))"

text \<open>A refused durable cancellation puts the status back.\<close>

definition restore_local :: "nat \<Rightarrow> medusa \<Rightarrow> medusa" where
  "restore_local i m =
     (if dget (mg_runs m) (lr_run (cell i m)) = Some i then set_cell i (\<lambda>r. r\<lparr>lr_status := Running\<rparr>) m else m)"

text \<open>The heartbeat saw a remote cancellation: whether the object is still registered.\<close>

definition remote_cancel_local :: "nat \<Rightarrow> medusa \<Rightarrow> bool \<times> medusa" where
  "remote_cancel_local i m =
     (if dget (mg_runs m) (lr_run (cell i m)) \<noteq> Some i then (False, m)
      else (True, if lr_status (cell i m) = Running then set_cell i (\<lambda>r. r\<lparr>lr_status := Cancelling\<rparr>) m else m))"

section \<open>Registration\<close>

definition durable_phase :: "worker \<Rightarrow> call_io \<Rightarrow> nat \<Rightarrow> medusa \<Rightarrow> (manager_error + unit) \<times> medusa" where
  "durable_phase wk io i m =
     (let st = wk_settings wk; r = cell i m
      in if \<not> se_ledger st then (Inr (), m)
         else case ledger_register (wk_uuid5 wk) (io_db io) (lr_run r) (lr_correlation r) (lr_request r) (lr_session r)
                (lr_policy r) (lr_tenant r) (lr_user r) (se_worker st) (lr_started r) (mg_tables m) of
           Inr lt \<Rightarrow> (Inr (), set_cell i (\<lambda>r. r\<lparr>lr_durable := True\<rparr>) (m\<lparr>mg_tables := lt\<rparr>))
         | Inl e \<Rightarrow> (if se_required st then Inl (FromLedger e) else Inr (), pop_run i m))"

text \<open>\<^verbatim>\<open>_safe_mark_durable_terminal\<close>; errors of other kinds than the two it handles escape.\<close>

definition durable_terminal ::
    "worker \<Rightarrow> bool \<Rightarrow> nat \<Rightarrow> run_state \<Rightarrow> int \<Rightarrow> string option \<Rightarrow> string option \<Rightarrow> medusa \<Rightarrow>
     (manager_error + unit) \<times> medusa" where
  "durable_terminal wk db i rs completed err out m =
     (case ledger_mark_terminal (wk_uuid5 wk) db (lr_run (cell i m)) (lr_tenant (cell i m)) (se_worker (wk_settings wk))
             (run_state_value rs) completed err out (mg_tables m) of
        Inr lt \<Rightarrow> (Inr (), m\<lparr>mg_tables := lt\<rparr>)
      | Inl e \<Rightarrow> (case e of DurableValue t \<Rightarrow> Inl (FromLedger e) | DurableName t \<Rightarrow> Inl (FromLedger e)
                   | _ \<Rightarrow> if se_required (wk_settings wk) then Inl (FromLedger e) else Inr (), m))"

fun store_error_name :: "store_error \<Rightarrow> string" where
  "store_error_name StoreUnavailable = ''DistributedRunStoreUnavailable''"
| "store_error_name (StoreNotFound x) = ''DistributedRunNotFound''"
| "store_error_name (StoreTenantMismatch x) = ''DistributedRunTenantMismatch''"
| "store_error_name (StoreNotCancellable t) = ''DistributedRunNotCancellable''"
| "store_error_name (StoreRuntime t) = ''RuntimeError''"
| "store_error_name (StoreValue t) = ''ValueError''"
| "store_error_name StoreFailure = ''RedisError''"

definition shared_phase :: "worker \<Rightarrow> call_io \<Rightarrow> nat \<Rightarrow> medusa \<Rightarrow> (manager_error + unit) \<times> medusa" where
  "shared_phase wk io i m =
     (let st = wk_settings wk; r = cell i m
      in if \<not> (se_distributed st \<and> io_check io) then (Inr (), m)
         else let (res, rd) = store_register st (io_store io) (io_pipe io) (io_calls io) (lr_run r) (lr_correlation r)
                    (lr_tenant r) (lr_user r) (se_worker st) (lr_started r) (mg_redis m);
                  m1 = m\<lparr>mg_redis := rd\<rparr>
              in case res of
                Inr _ \<Rightarrow> (Inr (), set_cell i (\<lambda>r. r\<lparr>lr_shared := True\<rparr>) m1)
              | Inl e \<Rightarrow>
                  if e = StoreUnavailable then (Inr (), m1)
                  else if lr_durable r
                  then (case durable_terminal wk (io_db io) i Failed (io_now io) (Some (store_error_name e)) None m1 of
                      (Inl e', m2) \<Rightarrow> (Inl e', m2)
                    | (Inr _, m2) \<Rightarrow> (Inl (FromStore e), pop_run i m2))
                  else (Inl (FromStore e), pop_run i m1))"

definition running_phase :: "worker \<Rightarrow> call_io \<Rightarrow> nat \<Rightarrow> medusa \<Rightarrow> (manager_error + unit) \<times> medusa" where
  "running_phase wk io i m =
     (let st = wk_settings wk; r = cell i m
      in if \<not> lr_durable r then (Inr (), m)
         else case mark_running (wk_uuid5 wk) (io_db io) (lr_run r) (lr_tenant r) (se_worker st) (lr_started r) (mg_tables m) of
           Inr lt \<Rightarrow> (Inr (), m\<lparr>mg_tables := lt\<rparr>)
         | Inl e \<Rightarrow>
             (case e of DurableValue t \<Rightarrow> (Inl (FromLedger e), m) | DurableName t \<Rightarrow> (Inl (FromLedger e), m)
              | _ \<Rightarrow>
                let m1 = (if lr_shared r
                          then m\<lparr>mg_redis := snd (store_mark_terminal st (io_store2 io) (io_calls2 io) (lr_run r)
                                 (se_worker st) ''failed'' (io_now io) (Some ''DurableRunningTransitionFailed'')
                                 (mg_redis m))\<rparr>
                          else m);
                    m2 = pop_run i m1
                in if se_required st then (Inl (FromLedger e), m2)
                   else (Inr (), set_cell i (\<lambda>r. r\<lparr>lr_durable := False\<rparr>) m2)))"

definition heartbeat_phase :: "nat \<Rightarrow> medusa \<Rightarrow> medusa" where
  "heartbeat_phase i m = (if lr_shared (cell i m) then set_cell i (\<lambda>r. r\<lparr>lr_heartbeat := True\<rparr>) m else m)"

definition then_do ::
    "('e + 'a) \<times> 's \<Rightarrow> ('a \<Rightarrow> 's \<Rightarrow> ('e + 'b) \<times> 's) \<Rightarrow> ('e + 'b) \<times> 's" where
  "then_do r f = (case r of (Inl e, s) \<Rightarrow> (Inl e, s) | (Inr a, s) \<Rightarrow> f a s)"

definition manager_register ::
    "worker \<Rightarrow> call_io \<Rightarrow> string \<Rightarrow> string \<Rightarrow> string \<Rightarrow> string \<Rightarrow> string option \<Rightarrow> string option \<Rightarrow> string option \<Rightarrow>
     medusa \<Rightarrow> (manager_error + nat) \<times> medusa" where
  "manager_register wk io x corr tenant user req sess pol m =
     then_do (begin_run (io_now io) x corr tenant user req sess pol m) (\<lambda>i m.
     then_do (durable_phase wk io i m) (\<lambda>_ m.
     then_do (shared_phase wk io i m) (\<lambda>_ m.
     then_do (running_phase wk io i m) (\<lambda>_ m. (Inr i, heartbeat_phase i m)))))"

section \<open>Ending a run\<close>

definition shared_terminal ::
    "worker \<Rightarrow> call_io \<Rightarrow> string \<Rightarrow> run_state \<Rightarrow> string option \<Rightarrow> string option \<Rightarrow> redis \<Rightarrow>
     (manager_error + unit) \<times> redis" where
  "shared_terminal wk io x rs err out rd =
     (let w = se_worker (wk_settings wk);
          (res, rd1) = store_mark_terminal (wk_settings wk) (io_store io) (io_calls io) x w (run_state_value rs)
                         (io_now io) err rd
      in case res of
        Inl e \<Rightarrow> (if e = StoreUnavailable then Inr () else Inl (FromStore e), rd1)
      | Inr _ \<Rightarrow>
          case out of None \<Rightarrow> (Inr (), rd1)
          | Some t \<Rightarrow>
              let (res2, rd2) = store_set_outcome (io_store2 io) (io_calls2 io) x w t rd1
              in (case res2 of
                    Inl e \<Rightarrow> if e = StoreUnavailable then Inr () else Inl (FromStore e)
                  | Inr _ \<Rightarrow> Inr (), rd2))"

definition manager_mark_terminal ::
    "worker \<Rightarrow> call_io \<Rightarrow> string \<Rightarrow> run_state \<Rightarrow> string option \<Rightarrow> string option \<Rightarrow> medusa \<Rightarrow>
     (manager_error + unit) \<times> medusa" where
  "manager_mark_terminal wk io x rs err out m =
     (case end_local wk (io_now io) x rs err out m of
        (None, m1) \<Rightarrow> (Inr (), m1)
      | (Some (i, rs', err', out'), m1) \<Rightarrow>
          then_do (if lr_durable (cell i m1) then durable_terminal wk (io_db io) i rs' (io_now io) err' out' m1
                   else (Inr (), m1)) (\<lambda>_ m2.
            if \<not> lr_shared (cell i m2) then (Inr (), m2)
            else let (res, rd) = shared_terminal wk io x rs' err' out' (mg_redis m2)
                 in (res, m2\<lparr>mg_redis := rd\<rparr>)))"

definition title_case :: "string \<Rightarrow> string" where
  "title_case t = (case t of [] \<Rightarrow> [] | c # cs \<Rightarrow> upper_char c # cs)"

definition mark_response :: "worker \<Rightarrow> call_io \<Rightarrow> string \<Rightarrow> string \<Rightarrow> medusa \<Rightarrow> (manager_error + unit) \<times> medusa" where
  "mark_response wk io x outcome m =
     (let normalized = lower (strip outcome)
      in if normalized \<notin> {''success'', ''partial'', ''degraded'', ''error'', ''timeout''}
         then (Inl (ManagerValue (''Unsupported Medusa outcome status: '' @ outcome)), m)
         else let completed = normalized \<in> {''success'', ''partial'', ''degraded''}
              in manager_mark_terminal wk io x (if completed then Completed else Failed)
                   (if completed then None else Some (''Response'' @ title_case normalized)) (Some normalized) m)"

definition mark_completed :: "worker \<Rightarrow> call_io \<Rightarrow> string \<Rightarrow> medusa \<Rightarrow> (manager_error + unit) \<times> medusa" where
  "mark_completed wk io x m = manager_mark_terminal wk io x Completed None (Some ''success'') m"

definition mark_failed :: "worker \<Rightarrow> call_io \<Rightarrow> string \<Rightarrow> string \<Rightarrow> medusa \<Rightarrow> (manager_error + unit) \<times> medusa" where
  "mark_failed wk io x exc m = manager_mark_terminal wk io x Failed (Some exc) (Some ''error'') m"

definition mark_cancelled :: "worker \<Rightarrow> call_io \<Rightarrow> string \<Rightarrow> medusa \<Rightarrow> (manager_error + unit) \<times> medusa" where
  "mark_cancelled wk io x m = manager_mark_terminal wk io x Cancelled None (Some ''cancelled'') m"

section \<open>Reads and reconciliation\<close>

datatype run_view =
    LocalView local_run bool
  | SharedView shared_snapshot
  | DurableView durable_snapshot

definition view_id :: "run_view \<Rightarrow> string" where
  "view_id v = (case v of LocalView r _ \<Rightarrow> lr_run r | SharedView n \<Rightarrow> sn_run n | DurableView d \<Rightarrow> ds_run d)"

definition view_started :: "run_view \<Rightarrow> int option" where
  "view_started v = (case v of LocalView r _ \<Rightarrow> Some (lr_started r) | SharedView n \<Rightarrow> sn_started n
     | DurableView d \<Rightarrow> Some (ds_started d))"

text \<open>\<^verbatim>\<open>_distributed_capability\<close>: whether distributed control is reported as supported.\<close>

definition distributed_supported :: "worker \<Rightarrow> call_io \<Rightarrow> bool \<Rightarrow> bool" where
  "distributed_supported wk io shared \<longleftrightarrow> se_distributed (wk_settings wk) \<and> shared \<and> io_check io"

definition get_durable ::
    "worker \<Rightarrow> bool \<Rightarrow> string \<Rightarrow> string \<Rightarrow> medusa \<Rightarrow> manager_error + durable_snapshot option" where
  "get_durable wk db x tenant m =
     (if \<not> se_ledger (wk_settings wk) then Inr None
      else case ledger_get (wk_uuid5 wk) db x tenant (mg_tables m) of
        Inr d \<Rightarrow> Inr d
      | Inl e \<Rightarrow> if e = DurableUnavailable \<and> \<not> se_required (wk_settings wk) then Inr None else Inl (FromLedger e))"

text \<open>
  One durable row against the shared store: whether the loop goes on, and what it changed.
\<close>

datatype reconcile_step = GoOn | StopLoop | Escapes manager_error

definition repair_row :: "worker \<Rightarrow> call_io \<Rightarrow> string \<Rightarrow> string \<Rightarrow> string \<Rightarrow> medusa \<Rightarrow> reconcile_step \<times> medusa" where
  "repair_row wk io tenant x status m =
     (if status = ''running'' then (GoOn, m)
      else if status \<notin> {''cancelling'', ''orphaned'', ''completed'', ''failed'', ''cancelled''} then (GoOn, m)
      else case reconcile_from_shared (wk_uuid5 wk) (io_db io) x tenant status (mg_tables m) of
        Inr (_, lt) \<Rightarrow> (GoOn, m\<lparr>mg_tables := lt\<rparr>)
      | Inl e \<Rightarrow> (if e = DurableUnavailable \<and> \<not> se_required (wk_settings wk) then StopLoop
                   else Escapes (FromLedger e), m))"

definition reconcile_row ::
    "worker \<Rightarrow> call_io \<Rightarrow> string \<Rightarrow> string set \<Rightarrow> string \<Rightarrow> medusa \<Rightarrow> reconcile_step \<times> medusa" where
  "reconcile_row wk io tenant local x m =
     (if x \<in> local then (GoOn, m)
      else let (res, rd) = store_get (io_store io) (io_rows io x) x tenant (mg_redis m); m1 = m\<lparr>mg_redis := rd\<rparr>
           in case res of
             Inr n \<Rightarrow> repair_row wk io tenant x (sn_status n) m1
           | Inl e \<Rightarrow> (case e of StoreUnavailable \<Rightarrow> (StopLoop, m1) | StoreTenantMismatch y \<Rightarrow> (GoOn, m1)
                        | StoreNotFound y \<Rightarrow> repair_row wk io tenant x ''orphaned'' m1 | _ \<Rightarrow> (Escapes (FromStore e), m1)))"

fun reconcile_rows ::
    "worker \<Rightarrow> call_io \<Rightarrow> string \<Rightarrow> string set \<Rightarrow> string list \<Rightarrow> medusa \<Rightarrow> (manager_error + unit) \<times> medusa" where
  "reconcile_rows wk io tenant local [] m = (Inr (), m)"
| "reconcile_rows wk io tenant local (x # xs) m =
     (case reconcile_row wk io tenant local x m of
        (GoOn, m') \<Rightarrow> reconcile_rows wk io tenant local xs m'
      | (StopLoop, m') \<Rightarrow> (Inr (), m')
      | (Escapes e, m') \<Rightarrow> (Inl e, m'))"

definition local_ids :: "string \<Rightarrow> medusa \<Rightarrow> string set" where
  "local_ids tenant m = set (map fst (filter (\<lambda>(x, i). lr_tenant (cell i m) = tenant) (mg_runs m)))"

definition reconcile_tenant :: "worker \<Rightarrow> call_io \<Rightarrow> string \<Rightarrow> medusa \<Rightarrow> (manager_error + unit) \<times> medusa" where
  "reconcile_tenant wk io tenant m =
     (let st = wk_settings wk
      in if \<not> se_ledger st \<or> \<not> (se_distributed st \<and> io_check io) then (Inr (), m)
         else case list_reconcilable (wk_uuid5 wk) (io_db io) tenant (se_batch st) (mg_tables m) of
           Inl e \<Rightarrow> (if e = DurableUnavailable \<and> \<not> se_required st then Inr () else Inl (FromLedger e), m)
         | Inr rows \<Rightarrow> reconcile_rows wk io tenant (local_ids tenant m) (map ds_run rows) m)"

definition manager_get :: "worker \<Rightarrow> call_io \<Rightarrow> string \<Rightarrow> string \<Rightarrow> medusa \<Rightarrow> (manager_error + run_view) \<times> medusa" where
  "manager_get wk io x tenant m =
     (case dget (mg_runs m) x of
        Some i \<Rightarrow>
          (if lr_tenant (cell i m) \<noteq> tenant then Inl (RunTenantMismatch x)
           else Inr (LocalView (cell i m) (distributed_supported wk io (lr_shared (cell i m)))), m)
      | None \<Rightarrow>
          then_do (reconcile_tenant wk io tenant m) (\<lambda>_ m1.
            let durable = (\<lambda>m. case get_durable wk (io_db io) x tenant m of
                  Inl e \<Rightarrow> (Inl e, m)
                | Inr None \<Rightarrow> (Inl (RunNotFound x), m)
                | Inr (Some d) \<Rightarrow> (Inr (DurableView d), m))
            in if \<not> (se_distributed (wk_settings wk) \<and> io_check io) then durable m1
               else let (res, rd) = store_get (io_store io) (io_calls2 io) x tenant (mg_redis m1); m2 = m1\<lparr>mg_redis := rd\<rparr>
                    in case res of
                      Inr n \<Rightarrow> (Inr (SharedView n), m2)
                    | Inl e \<Rightarrow> (case e of StoreNotFound y \<Rightarrow> durable m2 | StoreUnavailable \<Rightarrow> durable m2
                                 | StoreTenantMismatch y \<Rightarrow> (Inl (RunTenantMismatch x), m2)
                                 | _ \<Rightarrow> (Inl (FromStore e), m2))))"

text \<open>Snapshots of later sources are added for runs that no earlier source shows.\<close>

definition merge_views :: "run_view list \<Rightarrow> run_view list \<Rightarrow> run_view list" where
  "merge_views vs ws = foldl (\<lambda>vs w. if view_id w \<in> view_id ` set vs then vs else vs @ [w]) vs ws"

definition manager_list_runs ::
    "worker \<Rightarrow> (string set \<Rightarrow> string list) \<Rightarrow> call_io \<Rightarrow> string \<Rightarrow> bool \<Rightarrow> string option \<Rightarrow> medusa \<Rightarrow>
     (manager_error + run_view list) \<times> medusa" where
  "manager_list_runs wk so io tenant incl user m =
     then_do (reconcile_tenant wk io tenant m) (\<lambda>_ m1.
       let st = wk_settings wk;
           mine = (\<lambda>u. case user of None \<Rightarrow> True | Some v \<Rightarrow> u = v);
           local = map (\<lambda>(x, i). LocalView (cell i m1) (distributed_supported wk io (lr_shared (cell i m1))))
             (filter (\<lambda>(x, i). lr_tenant (cell i m1) = tenant \<and> mine (lr_user (cell i m1))
                \<and> (incl \<or> active_state (lr_status (cell i m1)))) (mg_runs m1));
           (shared, rd) = (if se_distributed st \<and> io_check io
                           then store_list_runs so (io_store io) (io_calls2 io) tenant incl (mg_redis m1)
                           else (Inr [], mg_redis m1));
           m2 = m1\<lparr>mg_redis := rd\<rparr>;
           merged = merge_views local (map SharedView (filter (\<lambda>n. mine (sn_user n))
                      (case shared of Inl _ \<Rightarrow> [] | Inr ns \<Rightarrow> ns)))
       in if \<not> se_ledger st then (Inr (sort_by_desc view_started merged), m2)
          else case ledger_list_runs (wk_uuid5 wk) (io_db io) tenant incl 250 user (mg_tables m2) of
            Inr ds \<Rightarrow> (Inr (sort_by_desc view_started (merge_views merged (map DurableView ds))), m2)
          | Inl e \<Rightarrow> (if e = DurableUnavailable \<and> \<not> se_required st
                       then Inr (sort_by_desc view_started merged) else Inl (FromLedger e), m2))"

section \<open>Cancellation\<close>

text \<open>\<^verbatim>\<open>source="admin_cancel" if audit_event_ref else "runtime"\<close>\<close>

definition cancel_source :: "string option \<Rightarrow> string" where
  "cancel_source audit = (if audit = None \<or> audit = Some [] then ''runtime'' else ''admin_cancel'')"

definition stop_task :: "nat \<Rightarrow> medusa \<Rightarrow> medusa" where
  "stop_task i m = m\<lparr>mg_stopped := mg_stopped m @ [i]\<rparr>"

text \<open>
  The cancellation of a run of this worker, after its status was set: only an unavailable ledger
  puts the status back, any other error of the two calls escapes.
\<close>

definition cancel_shared :: "worker \<Rightarrow> call_io \<Rightarrow> string \<Rightarrow> string \<Rightarrow> nat \<Rightarrow> medusa \<Rightarrow> (manager_error + unit) \<times> medusa" where
  "cancel_shared wk io x tenant i m =
     (if \<not> lr_shared (cell i m) then (Inr (), m)
      else let (res, rd) = store_request_cancel (io_store io) (io_calls io) x tenant (mg_redis m); m1 = m\<lparr>mg_redis := rd\<rparr>
           in case res of
             Inr _ \<Rightarrow> (Inr (), m1)
           | Inl e \<Rightarrow> (case e of StoreUnavailable \<Rightarrow> (Inr (), m1) | StoreNotCancellable t \<Rightarrow> (Inr (), m1)
                        | _ \<Rightarrow> (Inl (FromStore e), m1)))"

definition cancel_durable ::
    "worker \<Rightarrow> call_io \<Rightarrow> string \<Rightarrow> string \<Rightarrow> string option \<Rightarrow> nat \<Rightarrow> medusa \<Rightarrow> (manager_error + unit) \<times> medusa" where
  "cancel_durable wk io x tenant audit i m =
     (if \<not> lr_durable (cell i m) then (Inr (), m)
      else case mark_cancelling (wk_uuid5 wk) (io_db io) x tenant (io_now io) audit (cancel_source audit) (mg_tables m) of
        Inr lt \<Rightarrow> (Inr (), m\<lparr>mg_tables := lt\<rparr>)
      | Inl e \<Rightarrow> (case e of
            DurableUnavailable \<Rightarrow> if se_required (wk_settings wk) then (Inl (FromLedger e), restore_local i m)
                                  else (Inr (), m)
          | DurableTransitionConflict t \<Rightarrow> if se_required (wk_settings wk) then (Inl (FromLedger e), restore_local i m)
                                  else (Inr (), m)
          | _ \<Rightarrow> (Inl (FromLedger e), m)))"

definition cancel_remote ::
    "worker \<Rightarrow> call_io \<Rightarrow> string \<Rightarrow> string \<Rightarrow> string option \<Rightarrow> medusa \<Rightarrow> (manager_error + run_view) \<times> medusa" where
  "cancel_remote wk io x tenant audit m =
     (let st = wk_settings wk;
          durable = (\<lambda>m. case get_durable wk (io_db io) x tenant m of
              Inl e \<Rightarrow> (Inl e, m)
            | Inr None \<Rightarrow> (Inl (RunNotFound x), m)
            | Inr (Some d) \<Rightarrow> (Inl (RunNotCancellable (''Run '' @ x @ '' has durable status '' @ ds_status d
                  @ '' but no live cancellable lease'')), m))
      in if \<not> (se_distributed st \<and> io_check io) then durable m
         else let (res, rd) = store_request_cancel (io_store io) (io_calls io) x tenant (mg_redis m); m1 = m\<lparr>mg_redis := rd\<rparr>
              in case res of
                Inr n \<Rightarrow>
                  (if \<not> se_ledger st then (Inr (SharedView n), m1)
                   else case mark_cancelling (wk_uuid5 wk) (io_db io) x tenant (io_now io) audit (cancel_source audit)
                          (mg_tables m1) of
                     Inr lt \<Rightarrow> (Inr (SharedView n), m1\<lparr>mg_tables := lt\<rparr>)
                   | Inl e \<Rightarrow> (Inl (FromLedger e), m1))
              | Inl e \<Rightarrow> (case e of
                    StoreNotFound y \<Rightarrow> durable m1
                  | StoreUnavailable \<Rightarrow> durable m1
                  | StoreTenantMismatch y \<Rightarrow> (Inl (RunTenantMismatch x), m1)
                  | StoreNotCancellable t \<Rightarrow> (Inl (RunNotCancellable t), m1)
                  | _ \<Rightarrow> (Inl (FromStore e), m1)))"

definition manager_cancel ::
    "worker \<Rightarrow> call_io \<Rightarrow> string \<Rightarrow> string \<Rightarrow> string option \<Rightarrow> medusa \<Rightarrow> (manager_error + run_view) \<times> medusa" where
  "manager_cancel wk io x tenant audit m =
     then_do (cancel_local x tenant m) (\<lambda>found m1. case found of
        None \<Rightarrow> cancel_remote wk io x tenant audit m1
      | Some i \<Rightarrow>
          then_do (cancel_shared wk io x tenant i m1) (\<lambda>_ m2.
          then_do (cancel_durable wk io x tenant audit i m2) (\<lambda>_ m3.
            manager_get wk io x tenant (stop_task i m3))))"

definition manager_link_audit ::
    "worker \<Rightarrow> call_io \<Rightarrow> string \<Rightarrow> string \<Rightarrow> string \<Rightarrow> medusa \<Rightarrow> (manager_error + unit) \<times> medusa" where
  "manager_link_audit wk io x tenant audit m =
     (if \<not> se_ledger (wk_settings wk) then (Inr (), m)
      else case link_audit_event (wk_uuid5 wk) (io_db io) x tenant audit (mg_tables m) of
        Inr lt \<Rightarrow> (Inr (), m\<lparr>mg_tables := lt\<rparr>)
      | Inl e \<Rightarrow> (if e = DurableUnavailable \<and> \<not> se_required (wk_settings wk) then Inr () else Inl (FromLedger e), m))"

text \<open>
  One round of the heartbeat loop of an object: whether the loop goes on. An error of the store
  other than its being unavailable, and any other error, is logged and ends the loop.
\<close>

definition heartbeat_round :: "worker \<Rightarrow> call_io \<Rightarrow> nat \<Rightarrow> medusa \<Rightarrow> bool \<times> medusa" where
  "heartbeat_round wk io i m =
     (if \<not> lr_shared (cell i m) then (False, m)
      else let r = cell i m;
               (res, rd) = store_heartbeat (wk_settings wk) (io_store io) (io_calls io) (lr_run r)
                             (se_worker (wk_settings wk)) (mg_redis m);
               m1 = m\<lparr>mg_redis := rd\<rparr>
           in case res of
             Inl e \<Rightarrow> (e = StoreUnavailable, m1)
           | Inr asked \<Rightarrow>
               if \<not> asked then (True, m1)
               else let (here, m2) = remote_cancel_local i m1
                    in if \<not> here then (False, m2)
                       else if \<not> lr_durable r then (False, stop_task i m2)
                       else case mark_cancelling (wk_uuid5 wk) (io_db io) (lr_run r) (lr_tenant r) (io_now io) None
                              ''runtime'' (mg_tables m2) of
                         Inr lt \<Rightarrow> (False, stop_task i (m2\<lparr>mg_tables := lt\<rparr>))
                       | Inl e \<Rightarrow> (False, case e of DurableUnavailable \<Rightarrow> stop_task i m2
                                     | DurableTransitionConflict t \<Rightarrow> stop_task i m2 | _ \<Rightarrow> m2))"

end
