(* ===== verification/RunManagerLaws.thy ===== *)
theory RunManagerLaws
  imports RunManager
begin

text \<open>
  What the run manager keeps: the registry under every interleaving of the blocks that run under its
  lock, and the outcome of whole operations over the store and the ledger.
\<close>

section \<open>Interleavings of the blocks\<close>

datatype local_op =
    LBegin int string string string string "string option" "string option" "string option"
  | LPop nat
  | LFlags nat bool bool bool
  | LEnd int string run_state "string option" "string option"
  | LCancel string string
  | LRestore nat
  | LRemote nat
  | LOutside redis ledger_tables "nat list"

text \<open>
  \<open>LFlags\<close> are the assignments to the flags of an object outside the lock, \<open>LOutside\<close> is anything that
  happens to the shared store, to the ledger and to the tasks.
\<close>

fun local_step :: "worker \<Rightarrow> local_op \<Rightarrow> medusa \<Rightarrow> medusa" where
  "local_step wk (LBegin now x corr tenant user req sess pol) m = snd (begin_run now x corr tenant user req sess pol m)"
| "local_step wk (LPop i) m = pop_run i m"
| "local_step wk (LFlags i sh du hb) m =
     set_cell i (\<lambda>r. r\<lparr>lr_shared := sh, lr_durable := du, lr_heartbeat := hb\<rparr>) m"
| "local_step wk (LEnd now x rs err out) m = (if active_state rs then m else snd (end_local wk now x rs err out m))"
| "local_step wk (LCancel x tenant) m = snd (cancel_local x tenant m)"
| "local_step wk (LRestore i) m = restore_local i m"
| "local_step wk (LRemote i) m = snd (remote_cancel_local i m)"
| "local_step wk (LOutside rd lt is) m = m\<lparr>mg_redis := rd, mg_tables := lt, mg_stopped := is\<rparr>"

fun local_run_ops :: "worker \<Rightarrow> local_op list \<Rightarrow> medusa \<Rightarrow> medusa" where
  "local_run_ops wk [] m = m"
| "local_run_ops wk (op # ops) m = local_run_ops wk ops (local_step wk op m)"

section \<open>The registry\<close>

definition registry_ok :: "worker \<Rightarrow> medusa \<Rightarrow> bool" where
  "registry_ok wk m \<longleftrightarrow>
     (\<forall>x i. dget (mg_runs m) x = Some i \<longrightarrow> i < length (mg_heap m) \<and> lr_run (cell i m) = x)
     \<and> (\<forall>x. ended_at x m \<longrightarrow> x \<in> set (mg_order m))
     \<and> length (mg_order m) \<le> retention wk"

lemma cell_set [simp]: "i < length (mg_heap m) \<Longrightarrow> cell j (set_cell i f m) = (if j = i then f (cell i m) else cell j m)"
  by (simp add: cell_def set_cell_def)

lemma set_cell_simps [simp]: "length (mg_heap (set_cell i f m)) = length (mg_heap m)"
  "mg_runs (set_cell i f m) = mg_runs m" "mg_order (set_cell i f m) = mg_order m"
  "mg_redis (set_cell i f m) = mg_redis m" "mg_tables (set_cell i f m) = mg_tables m"
  "mg_stopped (set_cell i f m) = mg_stopped m"
  by (simp_all add: set_cell_def)

lemma cell_updates [simp]: "cell i (m\<lparr>mg_runs := d\<rparr>) = cell i m" "cell i (m\<lparr>mg_order := xs\<rparr>) = cell i m"
  "cell i (m\<lparr>mg_redis := rd\<rparr>) = cell i m" "cell i (m\<lparr>mg_tables := lt\<rparr>) = cell i m" "cell i (m\<lparr>mg_stopped := is\<rparr>) = cell i m"
  by (simp_all add: cell_def)

lemma registryD: "registry_ok wk m \<Longrightarrow> dget (mg_runs m) x = Some i \<Longrightarrow> i < length (mg_heap m) \<and> lr_run (cell i m) = x"
  by (simp add: registry_ok_def)

lemma dget_filter_keys: "dget (filter (\<lambda>(x, i). P x) d) y = (if P y then dget d y else None)"
  by (induction d) (auto simp: dget_def)

lemma prune_runs: "dget (mg_runs (prune wk m)) x =
    (if x \<in> set (take (length (mg_order m) - retention wk) (mg_order m)) \<and> ended_at x m then None else dget (mg_runs m) x)"
  using dget_filter_keys [of "\<lambda>x. \<not> (x \<in> set (take (length (mg_order m) - retention wk) (mg_order m)) \<and> ended_at x m)" "mg_runs m" x]
  by (simp add: prune_def Let_def)

lemma prune_simps [simp]: "mg_heap (prune wk m) = mg_heap m" "cell i (prune wk m) = cell i m"
    "mg_redis (prune wk m) = mg_redis m" "mg_tables (prune wk m) = mg_tables m"
  by (simp_all add: prune_def cell_def Let_def)

lemma prune_order: "length (mg_order (prune wk m)) \<le> retention wk"
  by (auto simp: prune_def Let_def)

lemma prune_ended:
  assumes "ended_at x m \<Longrightarrow> x \<in> set (mg_order m)" "ended_at x (prune wk m)"
  shows "x \<in> set (mg_order (prune wk m))"
proof -
  let ?n = "length (mg_order m) - retention wk"
  have not_gone: "\<not> (x \<in> set (take ?n (mg_order m)) \<and> ended_at x m)"
    using assms(2) unfolding ended_at_def [of x "prune wk m"] prune_runs by (auto split: if_splits)
  then have "dget (mg_runs (prune wk m)) x = dget (mg_runs m) x" unfolding prune_runs by auto
  then have e: "ended_at x m" using assms(2) by (simp add: ended_at_def split: option.splits)
  with assms(1) have "x \<in> set (take ?n (mg_order m) @ drop ?n (mg_order m))" by simp
  with not_gone e have x: "x \<in> set (drop ?n (mg_order m))" by (simp only: set_append) blast
  have "mg_order (prune wk m) = drop ?n (mg_order m)" by (simp add: prune_def Let_def)
  then show ?thesis using x by simp
qed

lemma begin_registry:
  assumes ok: "registry_ok wk m"
  shows "registry_ok wk (snd (begin_run now x corr tenant user req sess pol m))" (is "registry_ok wk ?m")
proof (cases "?m = m")
  case False
  then obtain r where m: "?m = m\<lparr>mg_heap := mg_heap m @ [r], mg_runs := dset x (length (mg_heap m)) (mg_runs m)\<rparr>"
    and r: "lr_run r = x" "lr_status r = Running"
    by (auto simp: begin_run_def Let_def split: option.splits if_splits)
  have old: "cell i ?m = cell i m" if "i < length (mg_heap m)" for i
    using that by (simp add: m cell_def nth_append)
  have new: "cell (length (mg_heap m)) ?m = r" by (simp add: m cell_def)
  have get: "dget (mg_runs ?m) y = (if y = x then Some (length (mg_heap m)) else dget (mg_runs m) y)" for y
    by (simp add: m dget_dset)
  have "ended_at y ?m \<Longrightarrow> ended_at y m" for y
    using r new old registryD [OF ok, of y] by (auto simp: ended_at_def get active_state_def split: if_splits option.splits)
  moreover have "i < length (mg_heap ?m) \<and> lr_run (cell i ?m) = y" if "dget (mg_runs ?m) y = Some i" for y i
  proof (cases "y = x")
    case True
    then show ?thesis using that r new by (simp add: get) (simp add: m)
  next
    case False
    then have "i < length (mg_heap m) \<and> lr_run (cell i m) = y" using that registryD [OF ok, of y i] by (simp add: get)
    then show ?thesis using old [of i] by (simp add: m)
  qed
  moreover have "mg_order ?m = mg_order m" by (simp add: m)
  ultimately show ?thesis using ok unfolding registry_ok_def by auto
qed (use ok in simp)

lemma ended_cell: "ended_at x m \<longleftrightarrow> (\<exists>i. dget (mg_runs m) x = Some i \<and> \<not> active_state (lr_status (cell i m)))"
  by (auto simp: ended_at_def split: option.splits)

text \<open>Writing to one cell: only its own entry can become an ended one.\<close>

lemma set_registry:
  assumes ok: "registry_ok wk m" and i: "i < length (mg_heap m)" and f: "lr_run (f (cell i m)) = lr_run (cell i m)"
    and st: "active_state (lr_status (f (cell i m))) \<or> lr_status (f (cell i m)) = lr_status (cell i m)"
  shows "registry_ok wk (set_cell i f m)"
proof -
  have "ended_at x m" if "ended_at x (set_cell i f m)" for x
    using that i st by (auto simp: ended_cell split: if_splits)
  then show ?thesis using ok i f unfolding registry_ok_def by (auto split: if_splits)
qed

lemma pop_registry: "registry_ok wk m \<Longrightarrow> registry_ok wk (pop_run i m)"
proof -
  assume ok: "registry_ok wk m"
  have "registry_ok wk (m\<lparr>mg_runs := ddel x (mg_runs m)\<rparr>)" for x
    unfolding registry_ok_def
  proof (intro conjI allI impI)
    fix y j
    assume "dget (mg_runs (m\<lparr>mg_runs := ddel x (mg_runs m)\<rparr>)) y = Some j"
    then have "dget (mg_runs m) y = Some j" by (simp add: dget_ddel split: if_splits)
    from registryD [OF ok this] show "j < length (mg_heap (m\<lparr>mg_runs := ddel x (mg_runs m)\<rparr>))"
      "lr_run (cell j (m\<lparr>mg_runs := ddel x (mg_runs m)\<rparr>)) = y" by simp_all
  next
    fix y
    assume "ended_at y (m\<lparr>mg_runs := ddel x (mg_runs m)\<rparr>)"
    then have "ended_at y m" by (auto simp: ended_cell dget_ddel split: if_splits)
    then show "y \<in> set (mg_order (m\<lparr>mg_runs := ddel x (mg_runs m)\<rparr>))" using ok by (simp add: registry_ok_def)
  qed (use ok in \<open>simp add: registry_ok_def\<close>)
  then show ?thesis using ok by (simp add: pop_run_def Let_def)
qed

lemma prune_registry:
  assumes "\<forall>x i. dget (mg_runs m) x = Some i \<longrightarrow> i < length (mg_heap m) \<and> lr_run (cell i m) = x"
    and "\<forall>x. ended_at x m \<longrightarrow> x \<in> set (mg_order m)"
  shows "registry_ok wk (prune wk m)"
  unfolding registry_ok_def
proof (intro conjI allI impI)
  fix x i
  assume "dget (mg_runs (prune wk m)) x = Some i"
  then have "dget (mg_runs m) x = Some i" by (auto simp: prune_runs split: if_splits)
  with assms(1) show "i < length (mg_heap (prune wk m))" "lr_run (cell i (prune wk m)) = x" by auto
next
  fix x
  assume "ended_at x (prune wk m)"
  then show "x \<in> set (mg_order (prune wk m))" using prune_ended assms(2) by blast
qed (rule prune_order)

lemma end_registry:
  assumes ok: "registry_ok wk m"
  shows "registry_ok wk (snd (end_local wk now x rs err out m))"
proof (cases "dget (mg_runs m) x")
  case (Some i)
  show ?thesis
  proof (cases "active_state (lr_status (cell i m))")
    case True
    have i: "i < length (mg_heap m)" "lr_run (cell i m) = x" using registryD [OF ok Some] by auto
    let ?m = "set_cell i (\<lambda>r. r\<lparr>lr_status := (if lr_status (cell i m) = Cancelling then Cancelled else rs),
        lr_completed := Some now, lr_error := (if lr_status (cell i m) = Cancelling then None else err),
        lr_outcome := (if lr_status (cell i m) = Cancelling then Some ''cancelled'' else out), lr_heartbeat := False\<rparr>) m"
    let ?n = "if x \<in> set (mg_order ?m) then ?m else ?m\<lparr>mg_order := mg_order ?m @ [x]\<rparr>"
    have cells: "\<forall>y j. dget (mg_runs ?n) y = Some j \<longrightarrow> j < length (mg_heap ?n) \<and> lr_run (cell j ?n) = y"
    proof (intro allI impI)
      fix y j
      assume "dget (mg_runs ?n) y = Some j"
      then have "dget (mg_runs m) y = Some j" by (simp split: if_splits)
      from registryD [OF ok this] i show "j < length (mg_heap ?n) \<and> lr_run (cell j ?n) = y" by auto
    qed
    have "\<forall>y. ended_at y ?n \<longrightarrow> y \<in> set (mg_order ?n)"
    proof (intro allI impI)
      fix y
      assume e: "ended_at y ?n"
      show "y \<in> set (mg_order ?n)"
      proof (cases "y = x")
        case False
        then have "ended_at y m" using e i registryD [OF ok, of y] by (auto simp: ended_cell split: if_splits)
        then show ?thesis using ok by (simp add: registry_ok_def)
      qed simp
    qed
    then have "registry_ok wk (prune wk ?n)" by (rule prune_registry [OF cells])
    then show ?thesis using Some True by (simp add: end_local_def Let_def)
  qed (use ok Some in \<open>simp add: end_local_def Let_def\<close>)
qed (use ok in \<open>simp add: end_local_def\<close>)

lemma set_cell_out: "\<not> i < length (mg_heap m) \<Longrightarrow> set_cell i f m = m"
  by (cases m) (simp add: set_cell_def not_less list_update_beyond)

lemma outside_registry: "registry_ok wk m \<Longrightarrow> registry_ok wk (m\<lparr>mg_redis := rd, mg_tables := lt, mg_stopped := is\<rparr>)"
  by (simp add: registry_ok_def ended_cell cell_def)

lemma local_step_ok: "registry_ok wk m \<Longrightarrow> registry_ok wk (local_step wk op m)"
proof (cases op)
  case (LFlags i sh du hb)
  then show "registry_ok wk m \<Longrightarrow> ?thesis"
    by (cases "i < length (mg_heap m)") (simp_all add: set_registry set_cell_out)
next
  case (LCancel x tenant)
  assume ok: "registry_ok wk m"
  show ?thesis
  proof (cases "dget (mg_runs m) x")
    case (Some i)
    then show ?thesis using ok registryD [OF ok Some] LCancel
      by (auto simp: cancel_local_def active_state_def intro!: set_registry)
  qed (use ok LCancel in \<open>simp add: cancel_local_def\<close>)
next
  case (LRestore i)
  assume ok: "registry_ok wk m"
  show ?thesis using ok registryD [OF ok, of "lr_run (cell i m)" i] LRestore
    by (auto simp: restore_local_def active_state_def intro!: set_registry)
next
  case (LRemote i)
  assume ok: "registry_ok wk m"
  show ?thesis using ok registryD [OF ok, of "lr_run (cell i m)" i] LRemote
    by (auto simp: remote_cancel_local_def active_state_def intro!: set_registry)
qed (simp_all add: begin_registry pop_registry end_registry outside_registry)

interpretation run_registry: invariant_machine "local_step wk" "registry_ok wk" for wk
  by unfold_locales (rule local_step_ok)

lemma local_run_eq: "local_run_ops wk ops m = run_registry.run wk ops m"
  by (induction ops arbitrary: m) simp_all

lemma new_manager_ok: "registry_ok wk (new_manager rd lt)"
  by (simp add: registry_ok_def new_manager_def ended_cell)

lemma registry_reachable: "registry_ok wk (local_run_ops wk ops (new_manager rd lt))"
  unfolding local_run_eq by (rule run_registry.inv_run [OF new_manager_ok])

section \<open>Ended objects\<close>

definition outcome_view :: "nat \<Rightarrow> medusa \<Rightarrow> (run_state \<times> int option \<times> string option \<times> string option) option" where
  "outcome_view i m = (if i < length (mg_heap m)
     then Some (lr_status (cell i m), lr_completed (cell i m), lr_error (cell i m), lr_outcome (cell i m)) else None)"

definition ended_view :: "nat \<Rightarrow> (run_state \<times> int option \<times> string option \<times> string option) option \<Rightarrow> bool" where
  "ended_view i v \<longleftrightarrow> (case v of None \<Rightarrow> False | Some (st, _) \<Rightarrow> \<not> active_state st)"

lemma outcome_view_set:
  "j \<noteq> i \<or> (lr_status (f (cell i m)) = lr_status (cell i m) \<and> lr_completed (f (cell i m)) = lr_completed (cell i m)
     \<and> lr_error (f (cell i m)) = lr_error (cell i m) \<and> lr_outcome (f (cell i m)) = lr_outcome (cell i m)) \<Longrightarrow>
   outcome_view j (set_cell i f m) = outcome_view j m"
  by (cases "i < length (mg_heap m)") (auto simp: outcome_view_def set_cell_out)

lemma outcome_view_updates [simp]: "outcome_view j (m\<lparr>mg_runs := d\<rparr>) = outcome_view j m"
    "outcome_view j (m\<lparr>mg_order := xs\<rparr>) = outcome_view j m" "outcome_view j (prune wk m) = outcome_view j m"
    "outcome_view j (m\<lparr>mg_redis := rd, mg_tables := lt, mg_stopped := is\<rparr>) = outcome_view j m"
  by (simp_all add: outcome_view_def cell_def)

lemma ended_fence:
  assumes e: "ended_view j (outcome_view j m)" and op: "op \<noteq> LRestore j"
  shows "outcome_view j (local_step wk op m) = outcome_view j m"
proof -
  have j: "j < length (mg_heap m)" "\<not> active_state (lr_status (cell j m))"
    using e by (auto simp: ended_view_def outcome_view_def split: if_splits)
  show ?thesis
  proof (cases op)
    case (LBegin now x corr tenant user req sess pol)
    have "outcome_view j (m\<lparr>mg_heap := mg_heap m @ [r], mg_runs := d\<rparr>) = outcome_view j m" for r d
      using j(1) by (simp add: outcome_view_def cell_def nth_append)
    then show ?thesis by (auto simp: LBegin begin_run_def Let_def split: option.split)
  next
    case (LEnd now x rs err out)
    then show ?thesis using j(2) by (auto simp: end_local_def Let_def intro!: outcome_view_set split: option.split)
  next
    case (LCancel x tenant)
    then show ?thesis using j(2) by (auto simp: cancel_local_def active_state_def intro!: outcome_view_set split: option.split)
  next
    case (LRestore i)
    then show ?thesis using op by (auto simp: restore_local_def intro!: outcome_view_set)
  next
    case (LRemote i)
    then show ?thesis using j(2) by (auto simp: remote_cancel_local_def active_state_def intro!: outcome_view_set)
  qed (auto simp: pop_run_def Let_def intro!: outcome_view_set)
qed

interpretation run_outcomes: fenced_machine "local_step wk" "registry_ok wk" outcome_view ended_view "\<lambda>i v op. op = LRestore i"
  for wk
  by unfold_locales (rule ended_fence)

section \<open>Whole operations\<close>

datatype manager_op =
    MoRegister string string string string "string option" "string option" "string option"
  | MoResponse string string
  | MoCompleted string
  | MoFailed string string
  | MoCancelled string
  | MoCancel string string "string option"
  | MoGet string string
  | MoList "string set \<Rightarrow> string list" string bool "string option"
  | MoAudit string string string
  | MoHeartbeat nat

fun manager_step :: "worker \<Rightarrow> call_io \<Rightarrow> manager_op \<Rightarrow> medusa \<Rightarrow> medusa" where
  "manager_step wk io (MoRegister x corr tenant user req sess pol) m =
     snd (manager_register wk io x corr tenant user req sess pol m)"
| "manager_step wk io (MoResponse x outcome) m = snd (mark_response wk io x outcome m)"
| "manager_step wk io (MoCompleted x) m = snd (mark_completed wk io x m)"
| "manager_step wk io (MoFailed x exc) m = snd (mark_failed wk io x exc m)"
| "manager_step wk io (MoCancelled x) m = snd (mark_cancelled wk io x m)"
| "manager_step wk io (MoCancel x tenant audit) m = snd (manager_cancel wk io x tenant audit m)"
| "manager_step wk io (MoGet x tenant) m = snd (manager_get wk io x tenant m)"
| "manager_step wk io (MoList so tenant incl user) m = snd (manager_list_runs wk so io tenant incl user m)"
| "manager_step wk io (MoAudit x tenant audit) m = snd (manager_link_audit wk io x tenant audit m)"
| "manager_step wk io (MoHeartbeat i) m = snd (heartbeat_round wk io i m)"

fun is_cancel :: "manager_op \<Rightarrow> bool" where
  "is_cancel (MoCancel x tenant audit) = True"
| "is_cancel _ = False"

text \<open>\<open>by_blocks wk c m m'\<close>: blocks lead from \<open>m\<close> to \<open>m'\<close>, and only with \<open>c\<close> does one restore a status.\<close>

definition by_blocks :: "worker \<Rightarrow> bool \<Rightarrow> medusa \<Rightarrow> medusa \<Rightarrow> bool" where
  "by_blocks wk c m m' \<longleftrightarrow> (\<exists>ops. m' = local_run_ops wk ops m \<and> (c \<or> (\<forall>i. LRestore i \<notin> set ops)))"

named_theorems blocks

lemma blocks_refl [blocks]: "by_blocks wk c m m"
  unfolding by_blocks_def by (rule exI [of _ "[]"]) simp

lemma blocks_trans: "by_blocks wk c m m1 \<Longrightarrow> by_blocks wk c m1 m2 \<Longrightarrow> by_blocks wk c m m2"
proof -
  assume "by_blocks wk c m m1" "by_blocks wk c m1 m2"
  then obtain xs ys where "m1 = local_run_ops wk xs m" "m2 = local_run_ops wk ys m1"
    and "c \<or> (\<forall>i. LRestore i \<notin> set xs)" "c \<or> (\<forall>i. LRestore i \<notin> set ys)" unfolding by_blocks_def by blast
  then show ?thesis unfolding by_blocks_def
    by (intro exI [of _ "xs @ ys"]) (auto simp: local_run_eq run_registry.run_append)
qed

lemma block_step: "m' = local_step wk op m \<Longrightarrow> c \<or> (\<forall>i. op \<noteq> LRestore i) \<Longrightarrow> by_blocks wk c m m'"
  unfolding by_blocks_def by (rule exI [of _ "[op]"]) auto

lemma blocks_then: "by_blocks wk c m0 (snd r) \<Longrightarrow> (\<And>a m. fst r = Inr a \<Longrightarrow> by_blocks wk c (snd r) (snd (f a (snd r)))) \<Longrightarrow>
    by_blocks wk c m0 (snd (then_do r f))"
  by (cases r) (auto simp: then_do_def intro: blocks_trans split: sum.splits)

lemma outside_blocks [blocks]: "by_blocks wk c m (m\<lparr>mg_redis := rd\<rparr>)" "by_blocks wk c m (m\<lparr>mg_tables := lt\<rparr>)"
    "by_blocks wk c m (stop_task i m)"
  using block_step [of _ wk "LOutside rd (mg_tables m) (mg_stopped m)" m c]
    block_step [of _ wk "LOutside (mg_redis m) lt (mg_stopped m)" m c]
    block_step [of _ wk "LOutside (mg_redis m) (mg_tables m) (mg_stopped m @ [i])" m c]
  by (simp_all add: stop_task_def)

lemma flag_block: "f (mg_heap m ! i) = (mg_heap m ! i)\<lparr>lr_shared := sh, lr_durable := du, lr_heartbeat := hb\<rparr> \<Longrightarrow>
    by_blocks wk c m (set_cell i f m)"
  by (rule block_step [of _ _ "LFlags i sh du hb"]) (simp_all add: set_cell_def)

lemma flag_blocks [blocks]: "by_blocks wk c m (set_cell i (\<lambda>r. r\<lparr>lr_shared := b\<rparr>) m)"
    "by_blocks wk c m (set_cell i (\<lambda>r. r\<lparr>lr_durable := b\<rparr>) m)" "by_blocks wk c m (set_cell i (\<lambda>r. r\<lparr>lr_heartbeat := b\<rparr>) m)"
  using flag_block [where f = "\<lambda>r. r\<lparr>lr_shared := b\<rparr>" and sh = b and du = "lr_durable (mg_heap m ! i)" and hb = "lr_heartbeat (mg_heap m ! i)"]
    flag_block [where f = "\<lambda>r. r\<lparr>lr_durable := b\<rparr>" and sh = "lr_shared (mg_heap m ! i)" and du = b and hb = "lr_heartbeat (mg_heap m ! i)"]
    flag_block [where f = "\<lambda>r. r\<lparr>lr_heartbeat := b\<rparr>" and sh = "lr_shared (mg_heap m ! i)" and du = "lr_durable (mg_heap m ! i)" and hb = b]
  by simp_all

lemma local_blocks [blocks]: "by_blocks wk c m (pop_run i m)" "by_blocks wk True m (restore_local i m)"
    "by_blocks wk c m (snd (remote_cancel_local i m))" "by_blocks wk c m (snd (cancel_local x tenant m))"
    "by_blocks wk c m (snd (begin_run now x corr tenant user req sess pol m))"
    "\<not> active_state rs \<Longrightarrow> by_blocks wk c m (snd (end_local wk now x rs err out m))"
  using block_step [of _ wk "LPop i" m] block_step [of _ wk "LRestore i" m True] block_step [of _ wk "LRemote i" m]
    block_step [of _ wk "LCancel x tenant" m] block_step [of _ wk "LBegin now x corr tenant user req sess pol" m]
    block_step [of _ wk "LEnd now x rs err out" m]
  by simp_all

lemma durable_terminal_blocks [blocks]: "by_blocks wk c m (snd (durable_terminal wk db i rs now err out m))"
  by (auto simp: durable_terminal_def intro: blocks split: sum.split durable_error.split)

lemma durable_phase_blocks [blocks]: "by_blocks wk c m (snd (durable_phase wk io i m))"
  by (auto simp: durable_phase_def Let_def intro: blocks blocks_trans [OF outside_blocks(2)] split: sum.split)

lemma shared_phase_blocks [blocks]: "by_blocks wk c m (snd (shared_phase wk io i m))"
  using blocks_trans [OF outside_blocks(1) durable_terminal_blocks] blocks_trans [OF outside_blocks(1) flag_blocks(1)]
    blocks_trans [OF outside_blocks(1) local_blocks(1)] outside_blocks(1) blocks_refl
    blocks_trans [OF blocks_trans [OF outside_blocks(1) durable_terminal_blocks] local_blocks(1)]
  by (simp add: shared_phase_def Let_def split_beta split: sum.split)

lemma running_phase_blocks [blocks]: "by_blocks wk c m (snd (running_phase wk io i m))"
  using blocks_trans [OF blocks_trans [OF outside_blocks(1) local_blocks(1)] flag_blocks(2)]
    blocks_trans [OF outside_blocks(1) local_blocks(1)] blocks_trans [OF local_blocks(1) flag_blocks(2)]
  by (simp add: running_phase_def Let_def blocks split: sum.split durable_error.split)

lemma heartbeat_phase_blocks [blocks]: "by_blocks wk c m (heartbeat_phase i m)"
  by (auto simp: heartbeat_phase_def intro: blocks)

lemma register_blocks [blocks]: "by_blocks wk c m (snd (manager_register wk io x corr tenant user req sess pol m))"
  unfolding manager_register_def by (intro blocks_then blocks) (simp add: blocks)

lemma terminal_blocks [blocks]:
  assumes "\<not> active_state rs"
  shows "by_blocks wk c m (snd (manager_mark_terminal wk io x rs err out m))"
proof -
  obtain res m1 where e: "end_local wk (io_now io) x rs err out m = (res, m1)" by (cases "end_local wk (io_now io) x rs err out m")
  have b: "by_blocks wk c m m1" using local_blocks(6) [OF assms, of wk c m "io_now io" x err out] by (simp add: e)
  show ?thesis
  proof (cases res)
    case None
    then show ?thesis using b by (simp add: manager_mark_terminal_def e)
  next
    case (Some q)
    obtain i st er ou where q: "q = (i, st, er, ou)" by (cases q)
    show ?thesis unfolding manager_mark_terminal_def e Some q prod.case option.case
      by (rule blocks_trans [OF b], rule blocks_then) (simp_all add: blocks Let_def split_beta)
  qed
qed

lemma ending_blocks [blocks]: "by_blocks wk c m (snd (mark_response wk io x outcome m))"
    "by_blocks wk c m (snd (mark_completed wk io x m))" "by_blocks wk c m (snd (mark_failed wk io x exc m))"
    "by_blocks wk c m (snd (mark_cancelled wk io x m))"
  by (simp_all add: mark_response_def mark_completed_def mark_failed_def mark_cancelled_def Let_def blocks active_state_def)

lemma repair_row_blocks: "by_blocks wk c m (snd (repair_row wk io tenant x status m))"
  by (simp add: repair_row_def blocks_refl outside_blocks split_beta split: sum.split)

lemma reconcile_row_blocks: "by_blocks wk c m (snd (reconcile_row wk io tenant local x m))"
  by (simp add: reconcile_row_def Let_def split_beta blocks_refl outside_blocks(1)
      blocks_trans [OF outside_blocks(1) repair_row_blocks] split: sum.split store_error.split)

lemma reconcile_rows_blocks: "by_blocks wk c m (snd (reconcile_rows wk io tenant local xs m))"
proof (induction xs arbitrary: m)
  case (Cons x xs)
  show ?case using reconcile_row_blocks [of wk c m io tenant local x] Cons.IH
    by (auto intro: blocks_trans split: prod.split reconcile_step.split)
qed (simp add: blocks)

lemma reconcile_blocks [blocks]: "by_blocks wk c m (snd (reconcile_tenant wk io tenant m))"
  by (auto simp: reconcile_tenant_def Let_def intro: blocks reconcile_rows_blocks split: sum.split)

lemma get_blocks [blocks]: "by_blocks wk c m (snd (manager_get wk io x tenant m))"
proof -
  have d: "by_blocks wk c n (snd (case get_durable wk db x tenant n' of Inl e \<Rightarrow> (Inl e, n')
      | Inr None \<Rightarrow> (Inl (RunNotFound x), n') | Inr (Some d) \<Rightarrow> (Inr (DurableView d), n')))"
    if "by_blocks wk c n n'" for n n' db
    using that by (simp split: sum.split option.split)
  show ?thesis
    unfolding manager_get_def
    by (auto simp: Let_def split_beta intro: blocks d intro!: blocks_then split: option.split sum.split store_error.split)
qed

lemma list_blocks [blocks]: "by_blocks wk c m (snd (manager_list_runs wk so io tenant incl user m))"
  unfolding manager_list_runs_def
  by (rule blocks_then) (auto simp: Let_def split_beta intro: blocks split: sum.split)

lemma cancel_blocks [blocks]: "by_blocks wk True m (snd (manager_cancel wk io x tenant audit m))"
proof -
  have s: "by_blocks wk True m (snd (cancel_shared wk io x tenant i m))" for m i
    by (auto simp: cancel_shared_def Let_def split_beta intro: blocks split: sum.split store_error.split)
  have d: "by_blocks wk True m (snd (cancel_durable wk io x tenant audit i m))" for m i
    by (auto simp: cancel_durable_def intro: blocks split: sum.split durable_error.split)
  have r: "by_blocks wk True m (snd (cancel_remote wk io x tenant audit m))" for m
    by (auto simp: cancel_remote_def Let_def split_beta intro: blocks blocks_trans [OF outside_blocks(1) outside_blocks(2)]
        split: sum.split store_error.split option.split)
  have g: "by_blocks wk True m (snd (manager_get wk io x tenant (stop_task i m)))" for m i
    by (rule blocks_trans [OF outside_blocks(3) get_blocks])
  show ?thesis unfolding manager_cancel_def
    by (rule blocks_then [OF local_blocks(4)]) (auto intro!: blocks_then s d r g split: option.split)
qed

lemma audit_blocks [blocks]: "by_blocks wk c m (snd (manager_link_audit wk io x tenant audit m))"
  by (auto simp: manager_link_audit_def intro: blocks split: sum.split)

lemma heartbeat_blocks [blocks]: "by_blocks wk c m (snd (heartbeat_round wk io i m))"
proof -
  have r: "by_blocks wk c m (snd (remote_cancel_local i (m\<lparr>mg_redis := rd\<rparr>)))" for rd
    by (rule blocks_trans [OF outside_blocks(1) local_blocks(3)])
  show ?thesis
    using r blocks_trans [OF r outside_blocks(3)] blocks_trans [OF blocks_trans [OF r outside_blocks(2)] outside_blocks(3)]
      outside_blocks(1) blocks_refl
    by (simp add: heartbeat_round_def Let_def split_beta split: sum.split durable_error.split)
qed


lemma manager_step_blocks: "by_blocks wk (is_cancel op) m (manager_step wk io op m)"
  by (cases op) (simp_all add: blocks)

section \<open>Properties\<close>

text \<open>
  Whatever a method of the manager does to the runs, the registry and the retained ids it does through
  the blocks it runs under its lock: every method is a run of blocks, and only a cancellation restores a status.
\<close>

theorem operations_are_blocks:
  "\<exists>ops. manager_step wk io op m = local_run_ops wk ops m \<and> (filter (\<lambda>b. \<exists>i. b = LRestore i) ops = [] \<or> is_cancel op)"
  using manager_step_blocks [of wk op m io] by (auto simp: by_blocks_def filter_empty_conv)

text \<open>
  Under every interleaving of the blocks of any number of tasks the registry keeps at most the
  configured number of ended runs, at least one, so it does not grow with the runs that ended.
\<close>

theorem ended_runs_bounded:
  "finite {x. ended_at x (local_run_ops wk ops (new_manager rd lt))}
   \<and> card {x. ended_at x (local_run_ops wk ops (new_manager rd lt))} \<le> retention wk"
proof -
  let ?m = "local_run_ops wk ops (new_manager rd lt)"
  have s: "{x. ended_at x ?m} \<subseteq> set (mg_order ?m)" "length (mg_order ?m) \<le> retention wk"
    using registry_reachable [of wk ops rd lt] by (auto simp: registry_ok_def)
  have "card {x. ended_at x ?m} \<le> card (set (mg_order ?m))" using s(1) by (simp add: card_mono)
  then show ?thesis using s finite_subset [OF s(1)] card_length [of "mg_order ?m"] by simp
qed

text \<open>
  C22: A run that ended keeps its status, completion time, error and outcome under every interleaving
  of blocks in which no refused cancellation restores it.
\<close>

theorem ended_runs_final:
  assumes "ended_view j (outcome_view j (local_run_ops wk ops (new_manager rd lt)))" "LRestore j \<notin> set later"
  shows "outcome_view j (local_run_ops wk (ops @ later) (new_manager rd lt)) = outcome_view j (local_run_ops wk ops (new_manager rd lt))"
proof -
  let ?m = "local_run_ops wk ops (new_manager rd lt)"
  have "outcome_view j (run_registry.run wk later ?m) = outcome_view j ?m"
    by (rule run_outcomes.fence_run [OF registry_reachable assms(1)]) (use assms(2) in auto)
  then show ?thesis by (simp add: local_run_eq run_registry.run_append)
qed

theorem ended_runs_final_witness:
  "outcome_view 0 (local_run_ops \<lparr>wk_settings = default_settings ''w'', wk_retention = 2, wk_uuid5 = id\<rparr>
     ([LBegin 1 ''r'' ''c'' ''t'' ''u'' None None None, LEnd 2 ''r'' Completed None (Some ''success'')] @ [LCancel ''r'' ''t''])
     (new_manager empty_redis empty_tables)) = Some (Completed, Some 2, None, Some ''success'')"
  by (subst ended_runs_final)
    (simp_all add: ended_view_def outcome_view_def new_manager_def begin_run_def end_local_def prune_def retention_def
      dget_def dset_def cell_def set_cell_def active_state_def Let_def)

text \<open>
  The exception is real: when the ledger refuses a cancellation after the run has ended, the block that puts
  the status back does not look at it, and the registry shows a run that ended as running again, with its
  completion time.
\<close>

theorem refused_cancel_revives:
  "let m = local_run_ops wk [LBegin now x corr tenant user req sess pol, LCancel x tenant, LEnd later x Completed None out, LRestore 0]
         (new_manager rd lt)
   in dget (mg_runs m) x = Some 0 \<and> lr_status (cell 0 m) = Running \<and> lr_completed (cell 0 m) = Some later"
  by (simp add: new_manager_def begin_run_def end_local_def cancel_local_def restore_local_def prune_def retention_def
      dget_def dset_def cell_def set_cell_def active_state_def Let_def)

end
