(* ===== verification/RunManagerCorrect.thy ===== *)
theory RunManagerCorrect
  imports RunManagerLaws
begin

text \<open>
  What whole operations of the run manager do across its three stores: the registry of the worker,
  the shared store and the durable ledger.
\<close>

section \<open>Ending a run\<close>

text \<open>What an end becomes when the cancellation of the run was asked for before.\<close>

definition as_ended :: "local_run \<Rightarrow> run_state \<Rightarrow> run_state" where
  "as_ended r st = (if lr_status r = Cancelling then Cancelled else st)"

definition as_outcome :: "local_run \<Rightarrow> string option \<Rightarrow> string option" where
  "as_outcome r out = (if lr_status r = Cancelling then Some ''cancelled'' else out)"

definition as_error :: "local_run \<Rightarrow> string option \<Rightarrow> string option" where
  "as_error r err = (if lr_status r = Cancelling then None else err)"

lemma end_local_active:
  assumes "dget (mg_runs m) x = Some i" "active_state (lr_status (cell i m))" "i < length (mg_heap m)"
  shows "\<exists>m1. end_local wk now x st err out m =
      (Some (i, as_ended (cell i m) st, as_error (cell i m) err, as_outcome (cell i m) out), m1)
    \<and> mg_redis m1 = mg_redis m \<and> mg_tables m1 = mg_tables m
    \<and> cell i m1 = (cell i m)\<lparr>lr_status := as_ended (cell i m) st, lr_completed := Some now,
       lr_error := as_error (cell i m) err, lr_outcome := as_outcome (cell i m) out, lr_heartbeat := False\<rparr>"
  using assms by (auto simp: end_local_def Let_def as_ended_def as_error_def as_outcome_def)

lemma outcome_names: "lower (strip ''success'') = ''success''" "lower (strip ''cancelled'') = ''cancelled''"
  by (code_simp, code_simp)

text \<open>
  C24: With the required ledger no run that is registered in it is ever settled: ending it fails with an error
  of the ledger after the object has ended, and neither the shared store nor the ledger learns of it.
\<close>

theorem ledger_blocks_settlement:
  assumes "dget (mg_runs m) x = Some i" "i < length (mg_heap m)" "active_state (lr_status (cell i m))"
    and "lr_durable (cell i m)" "se_required (wk_settings wk)" "\<not> active_state st"
  shows "\<exists>e m'. manager_mark_terminal wk io x st err out m = (Inl (FromLedger e), m')
    \<and> \<not> active_state (lr_status (cell i m')) \<and> mg_redis m' = mg_redis m \<and> mg_tables m' = mg_tables m"
proof -
  let ?r = "cell i m"
  let ?s = "as_ended ?r st" and ?e = "as_error ?r err" and ?o = "as_outcome ?r out"
  have act: "\<not> active_state ?s" using assms(6) by (simp add: as_ended_def active_state_def)
  obtain m1 where e: "end_local wk (io_now io) x st err out m = (Some (i, ?s, ?e, ?o), m1)"
    and m1: "mg_redis m1 = mg_redis m" "mg_tables m1 = mg_tables m"
      "cell i m1 = ?r\<lparr>lr_status := ?s, lr_completed := Some (io_now io), lr_error := ?e, lr_outcome := ?o, lr_heartbeat := False\<rparr>"
    using end_local_active [OF assms(1,3,2)] by blast
  obtain d where "ledger_mark_terminal (wk_uuid5 wk) (io_db io) (lr_run (cell i m1)) (lr_tenant (cell i m1))
      (se_worker (wk_settings wk)) (run_state_value ?s) (io_now io) ?e ?o (mg_tables m1) = Inl d"
    using mark_terminal_fails by blast
  then have "durable_terminal wk (io_db io) i ?s (io_now io) ?e ?o m1 = (Inl (FromLedger d), m1)"
    using assms(5) by (simp add: durable_terminal_def split: durable_error.split)
  then have "manager_mark_terminal wk io x st err out m = (Inl (FromLedger d), m1)"
    using m1(3) assms(4) by (simp add: manager_mark_terminal_def e then_do_def)
  then show ?thesis using m1 act by simp
qed

text \<open>
  Without the ledger a completed run is settled: while the worker holds the live claim of the run,
  completing it ends the object, writes the end and the outcome to the shared record and
  gives the claim back; a run whose cancellation was asked for ends cancelled instead.
\<close>

theorem completion_settles:
  assumes "settings_error (wk_settings wk) = None"
    and "dget (mg_runs m) x = Some i" "i < length (mg_heap m)" "active_state (lr_status (cell i m))"
    and "\<not> lr_durable (cell i m)" "lr_shared (cell i m)" "io_store io" "io_store2 io"
    and "claim_of (io_now io) x (mg_redis m) = Some (se_worker (wk_settings wk))"
    and "run_of (io_now io) x (mg_redis m) = Some r" "sr_owner r = Some (se_worker (wk_settings wk))"
    and "io_calls io = still (io_now io)" "io_calls2 io = still (io_now io)"
  shows "\<exists>m' r'. mark_completed wk io x m = (Inr (), m')
    \<and> lr_status (cell i m') = as_ended (cell i m) Completed
    \<and> run_of (io_now io) x (mg_redis m') = Some r'
    \<and> sr_status r' = Some (run_state_value (as_ended (cell i m) Completed)) \<and> Some (sr_outcome r') = as_outcome (cell i m) (Some ''success'')
    \<and> sr_completed r' = Some (io_now io) \<and> claim_of (io_now io) x (mg_redis m') = None"
proof -
  let ?st = "wk_settings wk" and ?now = "io_now io"
  let ?s = "as_ended (cell i m) Completed"
  obtain o' where o': "as_outcome (cell i m) (Some ''success'') = Some o'" "lower (strip o') = o'" "o' \<in> set outcome_statuses"
    using outcome_names by (cases "lr_status (cell i m) = Cancelling") (auto simp: as_outcome_def outcome_statuses_def)
  obtain m1 where e: "end_local wk ?now x Completed None (Some ''success'') m = (Some (i, ?s, None, Some o'), m1)"
    and m1: "mg_redis m1 = mg_redis m" "cell i m1 = (cell i m)\<lparr>lr_status := ?s, lr_completed := Some ?now,
       lr_error := None, lr_outcome := Some o', lr_heartbeat := False\<rparr>"
    using end_local_active [OF assms(2,4,3), of wk ?now Completed None "Some ''success''"] o'(1) by (auto simp: as_error_def)
  have keep: "lives ?now (Some (?now + micros (se_retention ?st)))"
    using settings_simps [OF assms(1)] by (simp add: micros_def lives_def)
  let ?r = "r\<lparr>sr_status := Some (run_state_value ?s), sr_updated := Some ?now, sr_completed := Some ?now, sr_error := [],
      sr_lease_expires := None\<rparr>"
  obtain rd where t: "store_mark_terminal ?st True (io_calls io) x (se_worker ?st) (run_state_value ?s) ?now None (mg_redis m) = (Inr (), rd)"
    and rd: "rd_claims rd x = None" "rd_runs rd x = Some (?r, Some (?now + micros (se_retention ?st)))"
    using assms(9-13) by (simp add: store_mark_terminal_def terminal_script_def Let_def)
  have run: "run_of ?now x rd = Some ?r" using rd(2) keep by (simp add: run_of_def)
  have "store_set_outcome True (io_calls2 io) x (se_worker ?st) o' rd = (Inr (), write_outcome ?now x o' rd)"
    using run assms(11,13) o' by (simp add: store_set_outcome_def Let_def)
  then have "mark_completed wk io x m = (Inr (), m1\<lparr>mg_redis := write_outcome ?now x o' rd\<rparr>)"
    using t m1 assms(5-8) by (simp add: mark_completed_def manager_mark_terminal_def e then_do_def shared_terminal_def Let_def)
  then show ?thesis using rd(1) run m1 o' by (simp add: alive_def write_outcome_def)
qed

section \<open>Cancelling during the registration\<close>

text \<open>
  A cancellation that arrives before the ledger has recorded the start of the run is refused by the
  ledger, but the status was already set: the object stays cancelling, its task is not stopped, and
  every later cancellation is refused too.
\<close>

theorem early_cancellation_sticks:
  assumes "dget (mg_runs m) x = Some i" "i < length (mg_heap m)" "lr_status (cell i m) = Running"
    and "lr_tenant (cell i m) = tenant" "lr_durable (cell i m)" "\<not> lr_shared (cell i m)" "io_db io"
    and "canonical_tenant (wk_uuid5 wk) tenant = Some t" "row_of x t (mg_tables m) = Some r" "dr_status r = ''created''"
  shows "\<exists>e m' why. manager_cancel wk io x tenant audit m = (Inl (FromLedger (DurableConflict e)), m')
    \<and> lr_status (cell i m') = Cancelling \<and> mg_stopped m' = mg_stopped m
    \<and> manager_cancel wk io2 x tenant audit2 m' = (Inl (RunNotCancellable why), m')"
proof -
  let ?m = "set_cell i (\<lambda>r. r\<lparr>lr_status := Cancelling\<rparr>) m"
  have c: "cancel_local x tenant m = (Inr (Some i), ?m)" using assms(1,3,4) by (simp add: cancel_local_def)
  obtain e where "mark_cancelling (wk_uuid5 wk) (io_db io) x tenant (io_now io) audit (cancel_source audit) (mg_tables ?m)
      = Inl (DurableConflict e)"
    using assms(7-10)
    by (cases "audit = None \<or> audit = Some []") (simp_all add: mark_cancelling_def in_scope_def cancel_source_def)
  then have "manager_cancel wk io x tenant audit m = (Inl (FromLedger (DurableConflict e)), ?m)"
    using assms(2,5,6) by (simp add: manager_cancel_def c then_do_def cancel_shared_def cancel_durable_def)
  moreover have "cancel_local x tenant ?m = (Inl (RunNotCancellable (''Run '' @ x @ '' is cancelling, not cancellable'')), ?m)"
    using assms(1,2,4) by (simp add: cancel_local_def)
  then have "manager_cancel wk io2 x tenant audit2 ?m
      = (Inl (RunNotCancellable (''Run '' @ x @ '' is cancelling, not cancellable'')), ?m)"
    by (simp add: manager_cancel_def then_do_def)
  ultimately show ?thesis using assms(2) by simp
qed

section \<open>Registration\<close>

text \<open>A run that the ledger does not know is recorded as created, then as running.\<close>

lemma row_of_update: "(\<And>r. dr_run (f r) = dr_run r) \<Longrightarrow> (\<And>r. dr_tenant (f r) = dr_tenant r) \<Longrightarrow>
    row_of x t (update_row x t f s) = map_option f (row_of x t s)"
proof -
  assume "\<And>r. dr_run (f r) = dr_run r" "\<And>r. dr_tenant (f r) = dr_tenant r"
  then have "find (\<lambda>r. dr_run r = x \<and> dr_tenant r = t) (map (\<lambda>r. if dr_run r = x \<and> dr_tenant r = t then f r else r) rs)
      = map_option f (find (\<lambda>r. dr_run r = x \<and> dr_tenant r = t) rs)" for rs
    by (induction rs) auto
  then show ?thesis by (simp add: row_of_def update_row_def)
qed

lemma transition_simps [simp]: "row_of x t (append_transition y t' from to w source ts audit s) = row_of x t s"
    "moves_of x (append_transition x t' from to w source ts audit s) = moves_of x s @ [(from, to)]"
    "moves_of x (update_row x t f s) = moves_of x s"
  by (simp_all add: row_of_def append_transition_def moves_of_def update_row_def)

lemma find_new: "find P rs = None \<Longrightarrow> find P (rs @ [r]) = (if P r then Some r else None)"
  by (induction rs) (auto split: if_splits)

lemma ledger_register_new:
  assumes "tables_ok s" "x \<notin> dr_run ` set (lt_runs s)" "canonical_tenant u tenant = Some t"
  shows "\<exists>s1 d. ledger_register u True x corr req sess pol tenant user w created s = Inr s1 \<and> row_of x t s1 = Some d
    \<and> dr_status d = ''created'' \<and> dr_owner d = w \<and> dr_user d = user \<and> moves_of x s1 = moves_for ''created''"
proof -
  have "find (\<lambda>r. dr_run r = x \<and> dr_tenant r = t) (lt_runs s) = None" using assms(2) by (auto simp: find_None_iff)
  moreover have "filter (\<lambda>t. rt_run t = x) (lt_transitions s) = []" using assms(1,2) by (auto simp: tables_ok_def filter_empty_conv)
  ultimately show ?thesis using assms(2,3)
    by (simp add: ledger_register_def in_scope_def row_of_def append_transition_def moves_of_def moves_for_def find_new)
qed

lemma mark_running_new:
  assumes "row_of x t s = Some d" "dr_status d = ''created''" "dr_owner d = w" "moves_of x s = moves_for ''created''"
    and "canonical_tenant u tenant = Some t"
  shows "\<exists>s1 d'. mark_running u True x tenant w started s = Inr s1 \<and> row_of x t s1 = Some d'
    \<and> dr_status d' = ''running'' \<and> dr_owner d' = w \<and> dr_user d' = dr_user d \<and> moves_of x s1 = moves_for ''running''"
proof -
  have "mark_running u True x tenant w started s = Inr (append_transition x t (Some ''created'') ''running'' (Some w) ''runtime''
      started None (update_row x t (owned_update Start ''running'' started None None) s))"
    using assms start_bound by (simp add: mark_running_def owned_transition_def in_scope_def del: named_params.simps)
  then show ?thesis using assms(1,3,4) by (simp add: row_of_update) (simp add: moves_for_def)
qed

text \<open>
  When the three stores answer, a new run is registered in all of them alike: the object is running with
  its heartbeat, the shared record is running under the live claim of this worker, and the ledger has the
  run as running with the two transitions that lead there.
\<close>

theorem registration_agrees:
  assumes "settings_error (wk_settings wk) = None" "se_distributed (wk_settings wk)" "se_ledger (wk_settings wk)"
    and "io_check io" "io_store io" "io_pipe io" "io_db io"
    and "dget (mg_runs m) x = None" "claim_of (io_now io) x (mg_redis m) = None" "tables_ok (mg_tables m)"
    and "x \<notin> dr_run ` set (lt_runs (mg_tables m))" "canonical_tenant (wk_uuid5 wk) tenant = Some t"
    and "io_calls io = still (io_now io)"
  shows "\<exists>i m' r d. manager_register wk io x corr tenant user req sess pol m = (Inr i, m')
    \<and> dget (mg_runs m') x = Some i \<and> lr_status (cell i m') = Running
    \<and> lr_shared (cell i m') \<and> lr_durable (cell i m') \<and> lr_heartbeat (cell i m')
    \<and> claim_of (io_now io) x (mg_redis m') = Some (se_worker (wk_settings wk))
    \<and> run_of (io_now io) x (mg_redis m') = Some r \<and> sr_status r = Some ''running'' \<and> sr_user r = user
    \<and> row_of x t (mg_tables m') = Some d \<and> dr_status d = ''running'' \<and> dr_owner d = se_worker (wk_settings wk)
    \<and> dr_user d = user \<and> moves_of x (mg_tables m') = moves_for ''running''"
proof -
  let ?st = "wk_settings wk" and ?now = "io_now io" and ?i = "length (mg_heap m)"
  define m1 where "m1 = snd (begin_run ?now x corr tenant user req sess pol m)"
  have b: "begin_run ?now x corr tenant user req sess pol m = (Inr ?i, m1)"
    and m1: "mg_redis m1 = mg_redis m" "mg_tables m1 = mg_tables m" "?i < length (mg_heap m1)"
      "dget (mg_runs m1) x = Some ?i" "lr_run (cell ?i m1) = x" "lr_correlation (cell ?i m1) = corr"
      "lr_tenant (cell ?i m1) = tenant" "lr_user (cell ?i m1) = user" "lr_status (cell ?i m1) = Running"
      "lr_started (cell ?i m1) = ?now"
    using assms(8) by (simp_all add: m1_def begin_run_def Let_def cell_def dget_dset)
  obtain s1 d1 where l: "ledger_register (wk_uuid5 wk) True x corr (lr_request (cell ?i m1)) (lr_session (cell ?i m1))
      (lr_policy (cell ?i m1)) tenant user (se_worker ?st) ?now (mg_tables m) = Inr s1"
    and s1: "row_of x t s1 = Some d1" "dr_status d1 = ''created''" "dr_owner d1 = se_worker ?st" "dr_user d1 = user"
      "moves_of x s1 = moves_for ''created''"
    using ledger_register_new [OF assms(10-12)] by blast
  let ?m2 = "set_cell ?i (\<lambda>r. r\<lparr>lr_durable := True\<rparr>) (m1\<lparr>mg_tables := s1\<rparr>)"
  have d: "durable_phase wk io ?i m1 = (Inr (), ?m2)" using assms(3,7) m1 l by (simp add: durable_phase_def)
  have ttl: "0 < micros (se_lease_ttl ?st)" "0 < micros (se_retention ?st)"
    using settings_simps [OF assms(1)] by (simp_all add: micros_def)
  obtain rd r where s: "store_register ?st True True (io_calls io) x corr tenant user (se_worker ?st) ?now (mg_redis m) = (Inr (), rd)"
    and rd: "claim_of ?now x rd = Some (se_worker ?st)" "run_of ?now x rd = Some r" "sr_status r = Some ''running''" "sr_user r = user"
    using assms(9,13) ttl
    by (simp add: store_register_def win_claim_def write_run_def new_run_def Let_def alive_def run_of_def lives_def)
  let ?m3 = "set_cell ?i (\<lambda>r. r\<lparr>lr_shared := True\<rparr>) (?m2\<lparr>mg_redis := rd\<rparr>)"
  have p: "shared_phase wk io ?i ?m2 = (Inr (), ?m3)" using assms(2,4-6) m1 s by (simp add: shared_phase_def Let_def)
  obtain s2 d2 where r: "mark_running (wk_uuid5 wk) True x tenant (se_worker ?st) ?now s1 = Inr s2"
    and s2: "row_of x t s2 = Some d2" "dr_status d2 = ''running''" "dr_owner d2 = se_worker ?st" "dr_user d2 = user"
      "moves_of x s2 = moves_for ''running''"
    using mark_running_new [OF s1(1-3,5) assms(12), of ?now] unfolding s1(4) by blast
  let ?m4 = "?m3\<lparr>mg_tables := s2\<rparr>"
  have q: "running_phase wk io ?i ?m3 = (Inr (), ?m4)" using assms(7) m1 r by (simp add: running_phase_def)
  have "manager_register wk io x corr tenant user req sess pol m = (Inr ?i, set_cell ?i (\<lambda>r. r\<lparr>lr_heartbeat := True\<rparr>) ?m4)"
    using m1 by (simp add: manager_register_def b then_do_def d p q heartbeat_phase_def)
  then show ?thesis
    by (intro exI [of _ ?i] exI [of _ "set_cell ?i (\<lambda>r. r\<lparr>lr_heartbeat := True\<rparr>) ?m4"] exI [of _ r] exI [of _ d2])
      (use m1 rd s2 in simp)
qed

section \<open>Witnesses\<close>

definition sample_worker :: worker where
  "sample_worker = \<lparr>wk_settings = default_settings ''w'', wk_retention = 2, wk_uuid5 = id\<rparr>"

definition sample_io :: call_io where
  "sample_io = \<lparr>io_now = 5, io_calls = still 5, io_calls2 = still 5, io_rows = (\<lambda>_. still 5), io_check = True, io_store = True, io_store2 = True, io_pipe = True, io_db = True\<rparr>"

definition sample_object :: "bool \<Rightarrow> bool \<Rightarrow> local_run" where
  "sample_object sh du = \<lparr>lr_run = ''r'', lr_correlation = ''c'', lr_request = ''q'', lr_session = None, lr_policy = None,
     lr_tenant = ''t'', lr_user = ''u'', lr_status = Running, lr_started = 1, lr_completed = None, lr_error = None,
     lr_outcome = None, lr_shared = sh, lr_durable = du, lr_heartbeat = sh\<rparr>"

definition sample_medusa :: "bool \<Rightarrow> bool \<Rightarrow> redis \<Rightarrow> ledger_tables \<Rightarrow> medusa" where
  "sample_medusa sh du rd lt = \<lparr>mg_heap = [sample_object sh du], mg_runs = [(''r'', 0)], mg_order = [], mg_stopped = [],
     mg_redis = rd, mg_tables = lt\<rparr>"

definition sample_shared :: redis where
  "sample_shared = snd (store_register (default_settings ''w'') True True (still 1) ''r'' ''c'' ''t'' ''u'' ''w'' 1 empty_redis)"

lemma sample_simps [simp]: "wk_settings sample_worker = default_settings ''w''" "wk_uuid5 sample_worker = id"
    "io_now sample_io = 5" "io_calls sample_io = still 5" "io_calls2 sample_io = still 5" "io_check sample_io" "io_store sample_io" "io_store2 sample_io" "io_pipe sample_io" "io_db sample_io"
    "se_worker (default_settings ''w'') = ''w''" "se_distributed (default_settings ''w'')" "se_ledger (default_settings ''w'')"
    "se_required (default_settings ''w'')"
    "dget (mg_runs (sample_medusa sh du rd lt)) ''r'' = Some 0" "length (mg_heap (sample_medusa sh du rd lt)) = 1"
    "cell 0 (sample_medusa sh du rd lt) = sample_object sh du" "mg_redis (sample_medusa sh du rd lt) = rd"
    "mg_tables (sample_medusa sh du rd lt) = lt"
    "lr_status (sample_object sh du) = Running" "lr_shared (sample_object sh du) = sh" "lr_durable (sample_object sh du) = du"
    "lr_tenant (sample_object sh du) = ''t''"
  by (simp_all add: sample_worker_def sample_io_def sample_medusa_def sample_object_def default_settings_def cell_def dget_def)

theorem registration_agrees_witness:
  "\<exists>i m'. manager_register sample_worker sample_io ''r'' ''c'' ''t'' ''u'' None None None (new_manager empty_redis empty_tables)
      = (Inr i, m') \<and> lr_status (cell i m') = Running \<and> claim_of 5 ''r'' (mg_redis m') = Some ''w''"
  using registration_agrees [of sample_worker sample_io "new_manager empty_redis empty_tables" "''r''" "''t''"
      "''ai-karen-tenant:t''" "''c''" "''u''" None None None]
  by (simp add: default_settings_ok new_manager_def empty_redis_def alive_def empty_tables_def dget_def
      empty_tables_ok [unfolded empty_tables_def] sample_tenant) blast

theorem ledger_blocks_settlement_witness:
  "\<exists>e m'. manager_mark_terminal sample_worker sample_io ''r'' Completed None (Some ''success'')
     (sample_medusa True True sample_shared empty_tables) = (Inl (FromLedger e), m') \<and> mg_redis m' = sample_shared"
  using ledger_blocks_settlement [of "sample_medusa True True sample_shared empty_tables" "''r''" 0 sample_worker Completed sample_io
      None "Some ''success''"]
  by (simp add: active_state_def) blast

lemma sample_shared_claim: "claim_of 5 ''r'' sample_shared = Some ''w''" "\<exists>r. run_of 5 ''r'' sample_shared = Some r \<and> sr_owner r = Some ''w''"
  by (simp_all add: sample_shared_def store_register_def win_claim_def write_run_def new_run_def default_settings_def
      empty_redis_def micros_def alive_def run_of_def lives_def Let_def)

theorem completion_settles_witness:
  "\<exists>m'. mark_completed sample_worker sample_io ''r'' (sample_medusa True False sample_shared empty_tables) = (Inr (), m')
     \<and> claim_of 5 ''r'' (mg_redis m') = None"
proof -
  obtain r where "run_of 5 ''r'' sample_shared = Some r" "sr_owner r = Some ''w''" using sample_shared_claim(2) by blast
  then show ?thesis
    using completion_settles [of sample_worker "sample_medusa True False sample_shared empty_tables" "''r''" 0 sample_io r]
    by (simp add: default_settings_ok active_state_def sample_shared_claim(1)) blast
qed

theorem early_cancellation_sticks_witness:
  "\<exists>s e m'. ledger_register id True ''r'' ''c'' ''q'' None None ''t'' ''u'' ''w'' 1 empty_tables = Inr s
     \<and> manager_cancel sample_worker sample_io ''r'' ''t'' None (sample_medusa False True empty_redis s)
       = (Inl (FromLedger (DurableConflict e)), m') \<and> lr_status (cell 0 m') = Cancelling"
proof -
  obtain s d where s: "ledger_register id True ''r'' ''c'' ''q'' None None ''t'' ''u'' ''w'' 1 empty_tables = Inr s"
    "row_of ''r'' ''ai-karen-tenant:t'' s = Some d" "dr_status d = ''created''"
    using ledger_register_new [OF empty_tables_ok _ sample_tenant, of "''r''"] by (simp add: empty_tables_def) blast
  then show ?thesis
    using early_cancellation_sticks [of "sample_medusa False True empty_redis s" "''r''" 0 "''t''" sample_io sample_worker
        "''ai-karen-tenant:t''" d None sample_io None]
    by (simp add: sample_tenant) blast
qed

end
