(* ===== verification/Spec2Isabelle.thy ===== *)
theory Spec2Isabelle
  imports QueueWorker AutomationExecutionLaws AutomationScheduleLaws AutomationDefinitions OwnedTimers RuntimePolicy MedusaPlanCorrect DependencyResolver RateLimiter
    JobLedger PersonalPairing PromptTruncation PromptCatalogue ExtensionLifecycle Resilience ChatStream RunManagerCorrect
begin

text \<open>
  Verification library of the AI-Karen engine, the Python package
  \<^verbatim>\<open>src/src/ai_karen_engine\<close>. Paths below are relative to it. The library models the parts of the
  engine that hold rules of their own: who may do what, what a durable record promises, how plans and
  prompts are checked and cut, and how failures are contained. The parts that only call language
  models, databases and networks are parameters, or are not modelled (last section).

  \<^bold>\<open>How the parts of the program interact.\<close> A request passes the rate limiter; its subject carries the
  permissions of its roles; the runtime policy decides which capabilities and reasoning modes it
  gets and builds an execution plan bound to the subject, whose budget the meter enforces. A chat
  turn is admitted as a durable run with a lease, its prompt is looked up in the registry and fitted to
  the token budget, optional stages run behind breakers and fallbacks, and the coordinator streams the
  answer while it keeps the lease and settles the run together with both messages. Work for agents
  becomes a plan that the validator checks and the scheduler executes; agent runs are owned by a worker
  through the shared store and recorded in the durable ledger. Saved tasks are executed
  under a claim, their output is assessed against a contract, and only their owner's review makes them successful;
  queued work is handed to workers under leases. Training jobs, messaging accounts and extensions have
  state machines of their own.

  \<^bold>\<open>Shared theories.\<close> \<open>Prelude\<close>: dynamic values (\<open>pyval\<close>), floats with NaN and infinities, dictionaries in
  insertion order, string methods, results that may raise, with the collections \<open>dict_simps\<close> and
  the rules of the step functions. \<open>Wire\<close>: UUID and JSON texts with the round trip of canonical
  UUIDs. \<open>Tables\<close>: SQL statements on tables as lists of rows (\<open>row_simps\<close>). \<open>StateMachines\<close>: the
  interfaces as locales - \<open>machine\<close>, \<open>invariant_machine\<close>, \<open>fenced_machine\<close>, \<open>guarded_machine\<close>, \<open>refinement\<close>
  - interpreted below by every store on its own operations.

  \<^bold>\<open>Authority.\<close> \<open>Rbac\<close> (\<^verbatim>\<open>auth/rbac_middleware.py\<close>: role table, inheritance, aliases, checks);
  \<open>ReasoningPolicy\<close> (\<^verbatim>\<open>core/runtime/policy/reasoning_policy.py\<close>, \<^verbatim>\<open>core/reasoning/contracts.py\<close>);
  \<open>ExecutionContracts\<close> (\<^verbatim>\<open>core/runtime/contracts.py\<close>: plan, scope, budget, meter); \<open>RuntimePolicy\<close>
  (\<^verbatim>\<open>core/runtime/policy/runtime_policy.py\<close>: \<open>evaluate\<close> composes the others, \<open>to_authorized_plan\<close>
  builds the plan). Their lemmas show that a permission is granted exactly when a role or an ancestor has it,
  what an allowed decision implies, and that its plan is bound to the requester.

  \<^bold>\<open>Admission.\<close> \<open>RateLimiter\<close> (\<^verbatim>\<open>server/rate_limiter.py\<close> and the check-then-record of
  \<^verbatim>\<open>middleware/rate_limit.py\<close>): windows, buckets, rules and cleanups on the memory storage; the
  lemmas bound what a window admits, with the requests of other keys and cleanups in between, and the content
  of a bucket.

  \<^bold>\<open>Agent plans.\<close> \<open>MedusaPlan\<close> (\<^verbatim>\<open>agent_medusa/planning/plan_validator.py\<close>,
  \<^verbatim>\<open>agent_medusa/contracts/deep_execution_plan.py\<close>, \<^verbatim>\<open>agent_medusa/execution/failure_policy.py\<close>);
  \<open>MedusaPlanGraph\<close> proves the depth-first search and the ancestor search, \<open>MedusaPlanCorrect\<close> what the validator accepts,
  that an accepted plan progresses, and what blocking does. The two searches carry fuel; the top
  level gives \<open>dfs_fuel\<close>, one more than the number of steps and dependencies, and both are proved never to
  run out of it, so the validator is shown to return. The inheritance walk of \<open>Rbac\<close> has no bound in the code: it
  is a partial function, proved to return on tables without cycles.

  \<^bold>\<open>Prompts.\<close> \<open>PromptTruncation\<close> (\<^verbatim>\<open>core/runtime/prompt/truncation_policy.py\<close>,
  \<^verbatim>\<open>token_estimator.py\<close>), \<open>PromptRegistry\<close> and \<open>PromptCatalogue\<close>
  (\<^verbatim>\<open>prompt_registry.py\<close>, \<^verbatim>\<open>prompt_contract.py\<close>): what survives truncation, the refinement of a
  catalogue by the registry's three dictionaries, and the round trip of versions.

  \<^bold>\<open>Resilience.\<close> \<open>Resilience\<close> (\<^verbatim>\<open>core/runtime/resilience\<close>): flags, breakers, policies, fallbacks and
  the stage runner; a stage returns its value or its fallback within its attempts, and a breaker
  refuses only for a cause.

  \<^bold>\<open>Chat runs.\<close> \<open>ChatStore\<close> (\<^verbatim>\<open>services/database/repositories/postgres_conversation_repository.py\<close>),
  \<open>ChatRuns\<close> and \<open>ChatJournal\<close> (\<^verbatim>\<open>persistence/repositories/chat_run_repository.py\<close>) are the operations on the
  tables; \<open>ChatRunCorrect\<close> proves their invariant, \<open>ChatRunLaws\<close> who may change a run, what a
  turn commits and what recovery returns. \<open>ChatStream\<close> (\<^verbatim>\<open>core/runtime/chat_run_lifecycle.py\<close>) is the streaming
  generator as a machine over its await and yield points, interleaved with any operations of other sessions.

  \<^bold>\<open>Agent runs.\<close> \<open>RunStore\<close> (\<^verbatim>\<open>agent_medusa/execution/distributed_run_store.py\<close>,
  \<^verbatim>\<open>config/agent_medusa.py\<close>), \<open>RunLedger\<close> (\<^verbatim>\<open>durable_run_ledger.py\<close>) and \<open>RunManager\<close>
  (\<^verbatim>\<open>run_manager.py\<close>). The store is modelled by its single Redis calls: an operation takes the moments of
  its calls, and the lemmas say who may change a claimed run at any of them, and how a stalled registration
  breaks in. \<open>RunManagerLaws\<close> keeps the registry under every interleaving of the blocks that take its
  lock, \<open>RunManagerCorrect\<close> follows whole operations through the three stores.

  \<^bold>\<open>Automation.\<close> \<open>WorkQueue\<close>, \<open>WorkQueueLaws\<close> (\<^verbatim>\<open>persistence/repositories/postgres_queue_client.py\<close>): no
  poison loop, fenced claims, order. \<open>AutomationTasks\<close>, \<open>AutomationTaskLaws\<close>
  (\<^verbatim>\<open>persistence/repositories/automation_repository.py\<close>): a task is successful only after the review of its owner.
  \<open>TaskContract\<close> (\<^verbatim>\<open>core/runtime/task_output_verification.py\<close>): the schemas the walk accepts are those of an
  inductive typing judgement; the assessment is exact. \<open>ClaimHeartbeat\<close> (\<^verbatim>\<open>services/automation/claim_lease.py\<close>) runs an
  operation while its claim is renewed; \<open>AutomationExecution\<close>, \<open>AutomationExecutionLaws\<close>
  (\<^verbatim>\<open>services/automation/execution.py\<close>) execute and review a saved task under it, interleaved with any operations of
  others: what is published belongs to the claim, and what is approved conforms to the contract.
  \<open>AutomationSchedule\<close>, \<open>AutomationScheduleLaws\<close> (\<^verbatim>\<open>services/automation/cron_lease.py\<close>,
  \<^verbatim>\<open>api_routes/automation/cron.py\<close>) are the scheduler's claims and its round, \<open>AutomationJobs\<close>
  (\<^verbatim>\<open>services/job_service.py\<close>) jobs of several steps, \<open>OwnedTimers\<close> (\<^verbatim>\<open>services/automation/timers.py\<close>)
  the timers of an authorized owner, \<open>AutomationDefinitions\<close> (\<^verbatim>\<open>services/automation/definitions.py\<close>) the service that
  checks a definition before it is stored, and \<open>QueueWorker\<close> (\<^verbatim>\<open>services/automation/queue_lease.py\<close>,
  \<^verbatim>\<open>api_routes/automation/cron.py\<close>) a turn of the worker that executes queued items. Not modelled of these files: the
  listings of reviews and tool receipts, the lookup of a schedule's owner, what the scheduler's dispatch does, and the routes.

  \<^bold>\<open>Other machines.\<close> \<open>JobLedger\<close> (\<^verbatim>\<open>core/intelligence/ml/training/job_ledger.py\<close>), \<open>PersonalPairing\<close>
  (\<^verbatim>\<open>services/channels/personal_pairing_policy.py\<close>, \<^verbatim>\<open>personal_pairing_lifecycle.py\<close>),
  \<open>DependencyResolver\<close> and \<open>ExtensionLifecycle\<close> (\<^verbatim>\<open>extensions/platform/core\<close>).

  \<^bold>\<open>Conventions.\<close> Clocks, fresh tokens and the outcome of every I/O call are arguments, so that a theorem
  quantifies over them. A transaction is one step that leaves the state as it was when it fails. The
  order in which Python enumerates a set is the parameter \<open>so\<close>, \<^verbatim>\<open>repr\<close> of a value the parameter
  \<open>rp\<close>; casts and printers of the database are fields of an environment record, and so is what a jsonb
  column gives back for a definition written to it, which is not the value written. Integers are
  unbounded, as in Python; floats are exact rationals with NaN and the infinities.
  Characters are code points below 256; case and white space are those of ASCII text, except for the
  type of a task, which classifies and lowers all of them as Python does.

  \<^bold>\<open>Not modelled.\<close> The chat runtime, the agent orchestrator, registry and memory, model integrations, training
  executors and retrieval: they sequence calls to language models, embeddings, vector stores and
  processes, and what they return is not determined by code under \<^verbatim>\<open>src\<close>. The agent checkpoints: adapters
  of an external saver. Routes, database and Redis clients, logging, metrics, audit writers and the
  user interface: I/O around the modelled rules. Within modelled files the omissions are named in the
  theory that models the file.
\<close>

end
